(* ===== verification/Prov_Prelude.thy ===== *)
theory Prov_Prelude
  imports Main "HOL-Library.Word" "HOL-Library.Monad_Syntax"
begin

text \<open>
  Shared vocabulary of the development: the machine integers of the C sources, byte buffers
  with the accesses the code makes to them (reading a field at an offset, \<open>memcpy\<close> into
  a buffer), the little-endian encoding of integers used by every on-disk structure, and the
  interface \<open>struct_codec\<close> that every packed C struct of the code implements. A function
  that may leave through \<open>require(..)\<close> (which calls \<open>exit(1)\<close>) returns an option:
  \<open>None\<close> is the process that has exited.
\<close>

unbundle bit_operations_syntax

named_theorems buf_simps \<open>lengths, segments and overlays of byte buffers\<close>
named_theorems codec_defs \<open>encoders and decoders of the packed structs\<close>

type_synonym byte = "8 word"
type_synonym u16 = "16 word"
type_synonym u32 = "32 word"
type_synonym u64 = "64 word"
type_synonym buffer = "byte list"

subsection \<open>Buffers\<close>

text \<open>\<open>seg off n b\<close> are the \<open>n\<close> bytes at \<open>b + off\<close>; \<open>overlay off bs b\<close> is the
  buffer after \<open>memcpy(b + off, bs, n)\<close> where \<open>n\<close> is the length of \<open>bs\<close>.\<close>

definition seg :: "nat \<Rightarrow> nat \<Rightarrow> 'a list \<Rightarrow> 'a list" where
  "seg off n b = take n (drop off b)"

definition overlay :: "nat \<Rightarrow> 'a list \<Rightarrow> 'a list \<Rightarrow> 'a list" where
  "overlay off bs b = take off b @ bs @ drop (off + length bs) b"

lemma length_seg [buf_simps]: "length (seg off n b) = min n (length b - off)"
  by (simp add: seg_def)

lemma length_seg_in [simp]: "off + n \<le> length b \<Longrightarrow> length (seg off n b) = n"
  by (simp add: seg_def)

lemma seg_0 [simp]: "seg off 0 b = []"
  by (simp add: seg_def)

lemma seg_all [simp]: "length b = n \<Longrightarrow> seg 0 n b = b"
  by (simp add: seg_def)

lemma seg_skip [buf_simps]: "length xs \<le> off \<Longrightarrow> seg off n (xs @ ys) = seg (off - length xs) n ys"
  by (simp add: seg_def)

lemma seg_here [buf_simps]: "length xs = n \<Longrightarrow> seg 0 n (xs @ ys) = xs"
  by (simp add: seg_def)

lemma seg_join [buf_simps]:
  "c = a + n \<Longrightarrow> seg a n b @ seg c m b = seg a (n + m) b"
  using take_add [of n m "drop a b"] by (simp add: seg_def add.commute [of n a])

lemma seg_join2 [buf_simps]:
  "c = a + n \<Longrightarrow> seg a n b @ seg c m b @ r = seg a (n + m) b @ r"
  by (simp add: seg_join flip: append_assoc)

lemma seg_seg [buf_simps]:
  "off + n \<le> m \<Longrightarrow> seg off n (seg base m b) = seg (base + off) n b"
  by (simp add: seg_def drop_take add.commute)

lemma seg_take [buf_simps]: "off + n \<le> m \<Longrightarrow> seg off n (take m b) = seg off n b"
  by (simp add: seg_def drop_take)

lemma nth_Cons_seg [buf_simps]: "off < length b \<Longrightarrow> b ! off # r = seg off (Suc 0) b @ r"
  by (simp add: seg_def) (metis Cons_nth_drop_Suc append_Cons append_Nil take0 take_Suc_Cons)

lemma seg_nth: "i < n \<Longrightarrow> off + i < length b \<Longrightarrow> seg off n b ! i = b ! (off + i)"
  by (simp add: seg_def)

lemma length_overlay [simp]:
  "off + length bs \<le> length b \<Longrightarrow> length (overlay off bs b) = length b"
  by (simp add: overlay_def)

lemma seg_overlay_same [simp]:
  "off + length bs \<le> length b \<Longrightarrow> n = length bs \<Longrightarrow> seg off n (overlay off bs b) = bs"
  by (simp add: seg_def overlay_def)

lemma seg_overlay_before:
  assumes "off' + n \<le> off" "off + length bs \<le> length b"
  shows "seg off' n (overlay off bs b) = seg off' n b"
  using assms by (simp add: seg_def overlay_def drop_take)

lemma seg_overlay_after:
  assumes "off + length bs \<le> off'" "off + length bs \<le> length b"
  shows "seg off' n (overlay off bs b) = seg off' n b"
  using assms by (simp add: seg_def overlay_def min_def)

lemma seg_overlay_disjoint:
  assumes "off' + n \<le> off \<or> off + length bs \<le> off'" "off + length bs \<le> length b"
  shows "seg off' n (overlay off bs b) = seg off' n b"
  using assms seg_overlay_before seg_overlay_after by blast

lemma overlay_seg_id [simp]:
  "off + n \<le> length b \<Longrightarrow> overlay off (seg off n b) b = b"
  by (simp add: overlay_def seg_def) (metis add.commute append_take_drop_id drop_drop)

lemma overlay_overlay [simp]:
  "length bs = length cs \<Longrightarrow> off + length bs \<le> length b \<Longrightarrow>
   overlay off bs (overlay off cs b) = overlay off bs b"
  by (simp add: overlay_def)

lemma overlay_all: "length bs = length b \<Longrightarrow> overlay 0 bs b = bs"
  by (simp add: overlay_def)

subsection \<open>Little-endian integers\<close>

text \<open>The target is a little-endian x86: \<open>htole32\<close> and its kin are the identity, and an
  integer field of a packed struct is its bytes from the lowest to the highest.\<close>

primrec le_bytes :: "nat \<Rightarrow> 'a::len word \<Rightarrow> buffer" where
  "le_bytes 0 w = []"
| "le_bytes (Suc n) w = ucast w # le_bytes n (drop_bit 8 w)"

primrec le_word :: "buffer \<Rightarrow> 'a::len word" where
  "le_word [] = 0"
| "le_word (b # bs) = ucast b OR push_bit 8 (le_word bs)"

lemma length_le_bytes [simp]: "length (le_bytes n w) = n"
  by (induction n arbitrary: w) auto

lemma le_word_le_bytes_take: "le_word (le_bytes n w) = take_bit (8 * n) w"
proof (induction n arbitrary: w)
  case 0
  then show ?case by simp
next
  case (Suc n)
  have "ucast (ucast w :: byte) OR push_bit 8 (take_bit (8 * n) (drop_bit 8 w)) = take_bit (8 * Suc n) w"
    by (rule bit_word_eqI)
      (auto simp: bit_or_iff bit_ucast_iff bit_push_bit_iff bit_take_bit_iff bit_drop_bit_eq
        dest: bit_imp_le_length)
  with Suc show ?case by simp
qed

lemma le_word_le_bytes [simp]:
  fixes w :: "'a::len word"
  assumes "LENGTH('a) \<le> 8 * n"
  shows "le_word (le_bytes n w) = w"
  using assms by (simp add: le_word_le_bytes_take take_bit_word_eq_self)

lemma le_bytes_take_bit: "8 * n \<le> m \<Longrightarrow> le_bytes n (take_bit m w) = le_bytes n w"
proof (induction n arbitrary: m w)
  case 0
  then show ?case by simp
next
  case (Suc n)
  have lo: "ucast (take_bit m w) = (ucast w :: byte)"
    using Suc.prems by (intro bit_word_eqI) (auto simp: bit_ucast_iff bit_take_bit_iff)
  have "drop_bit 8 (take_bit m w) = take_bit (m - 8) (drop_bit 8 w)"
    by (simp add: drop_bit_take_bit)
  with lo Suc show ?case by simp
qed

lemma le_bytes_le_word [simp]:
  assumes "length bs = n" "8 * n \<le> LENGTH('a)"
  shows "le_bytes n (le_word bs :: 'a::len word) = bs"
  using assms
proof (induction bs arbitrary: n)
  case Nil
  then show ?case by simp
next
  case (Cons b bs)
  let ?w = "le_word bs :: 'a word"
  have len: "8 \<le> LENGTH('a)" "8 * length bs \<le> LENGTH('a) - 8" using Cons.prems by auto
  have lo: "ucast (ucast b OR push_bit 8 ?w) = b"
    using len by (intro bit_word_eqI) (auto simp: bit_or_iff bit_ucast_iff bit_push_bit_iff)
  have "drop_bit 8 (ucast b OR push_bit 8 ?w) = take_bit (LENGTH('a) - 8) ?w"
    by (rule bit_word_eqI)
      (auto simp: bit_drop_bit_eq bit_or_iff bit_ucast_iff bit_push_bit_iff bit_take_bit_iff
        dest: bit_imp_le_length)
  then have hi: "le_bytes (length bs) (drop_bit 8 (ucast b OR push_bit 8 ?w)) = bs"
    using Cons len by (simp add: le_bytes_take_bit)
  show ?case using Cons.prems lo hi by auto
qed

subsection \<open>Packed structs\<close>

text \<open>
  The interface of a packed struct: \<open>enc\<close> is its memory image, \<open>dec\<close> the cast of a
  pointer to the image, \<open>sz\<close> its \<open>sizeof\<close>; \<open>wf\<close> fixes the lengths of the array
  members, which the C type has and a list has not. The clients read and write a struct inside a
  larger buffer (\<open>get\<close> and \<open>put\<close> below are \<open>*(T*)(b + off)\<close> as a value and as an
  assignment), and what they rely on is proved here once.
\<close>

definition get_at :: "(buffer \<Rightarrow> 'a) \<Rightarrow> nat \<Rightarrow> nat \<Rightarrow> buffer \<Rightarrow> 'a" where
  "get_at dec sz off b = dec (seg off sz b)"

definition put_at :: "('a \<Rightarrow> buffer) \<Rightarrow> nat \<Rightarrow> 'a \<Rightarrow> buffer \<Rightarrow> buffer" where
  "put_at enc off x b = overlay off (enc x) b"

locale struct_codec =
  fixes enc :: "'a \<Rightarrow> buffer" and dec :: "buffer \<Rightarrow> 'a" and sz :: nat and wf :: "'a \<Rightarrow> bool"
  assumes length_enc: "wf x \<Longrightarrow> length (enc x) = sz"
    and dec_enc: "wf x \<Longrightarrow> dec (enc x) = x"
    and enc_dec: "length bs = sz \<Longrightarrow> enc (dec bs) = bs"
    and wf_dec: "length bs = sz \<Longrightarrow> wf (dec bs)"
begin

lemma enc_inject: "wf x \<Longrightarrow> wf y \<Longrightarrow> enc x = enc y \<longleftrightarrow> x = y"
  using dec_enc by metis

lemma dec_inject: "length bs = sz \<Longrightarrow> length cs = sz \<Longrightarrow> dec bs = dec cs \<longleftrightarrow> bs = cs"
  using enc_dec by metis

lemma wf_get: "off + sz \<le> length b \<Longrightarrow> wf (get_at dec sz off b)"
  by (simp add: get_at_def wf_dec)

lemma length_put: "wf x \<Longrightarrow> off + sz \<le> length b \<Longrightarrow> length (put_at enc off x b) = length b"
  by (simp add: put_at_def length_enc)

lemma get_put_same: "wf x \<Longrightarrow> off + sz \<le> length b \<Longrightarrow> get_at dec sz off (put_at enc off x b) = x"
  by (simp add: get_at_def put_at_def length_enc dec_enc)

lemma get_put_other:
  "wf x \<Longrightarrow> off + sz \<le> length b \<Longrightarrow> off' + sz \<le> off \<or> off + sz \<le> off' \<Longrightarrow>
   get_at dec sz off' (put_at enc off x b) = get_at dec sz off' b"
  by (simp add: get_at_def put_at_def length_enc seg_overlay_disjoint)

lemma put_get: "off + sz \<le> length b \<Longrightarrow> put_at enc off (get_at dec sz off b) b = b"
  by (simp add: get_at_def put_at_def enc_dec)

lemma put_put:
  "wf x \<Longrightarrow> wf y \<Longrightarrow> off + sz \<le> length b \<Longrightarrow>
   put_at enc off x (put_at enc off y b) = put_at enc off x b"
  by (simp add: put_at_def length_enc)

lemma get_eq_iff_seg:
  "off + sz \<le> length b \<Longrightarrow> off' + sz \<le> length c \<Longrightarrow>
   get_at dec sz off b = get_at dec sz off' c \<longleftrightarrow> seg off sz b = seg off' sz c"
  by (simp add: get_at_def dec_inject)

lemmas struct_rules = wf_get length_put get_put_same get_put_other put_get put_put

end

subsection \<open>Arrays of 16-bit units\<close>

definition enc_u16s :: "u16 list \<Rightarrow> buffer" where
  [codec_defs]: "enc_u16s ws = concat (map (le_bytes 2) ws)"

fun dec_u16s :: "nat \<Rightarrow> buffer \<Rightarrow> u16 list" where
  "dec_u16s 0 bs = []"
| "dec_u16s (Suc n) bs = le_word (take 2 bs) # dec_u16s n (drop 2 bs)"

lemma length_enc_u16s [simp]: "length (enc_u16s ws) = 2 * length ws"
  by (induction ws) (auto simp: enc_u16s_def)

lemma length_dec_u16s [simp]: "length (dec_u16s n bs) = n"
  by (induction n arbitrary: bs) auto

lemma dec_enc_u16s [simp]: "length ws = n \<Longrightarrow> dec_u16s n (enc_u16s ws) = ws"
  by (induction ws arbitrary: n) (auto simp: enc_u16s_def)

lemma enc_dec_u16s [simp]: "length bs = 2 * n \<Longrightarrow> enc_u16s (dec_u16s n bs) = bs"
  by (induction n arbitrary: bs) (auto simp: enc_u16s_def)

interpretation u16s: struct_codec enc_u16s "dec_u16s n" "2 * n" "\<lambda>ws. length ws = n" for n
  by unfold_locales auto

subsection \<open>Strings\<close>

text \<open>\<open>strstr\<close>, and the C string at the beginning of a buffer of characters.\<close>

fun strstr :: "string \<Rightarrow> string \<Rightarrow> string option" where
  "strstr [] pat = (if pat = [] then Some [] else None)"
| "strstr (c # s) pat = (if take (length pat) (c # s) = pat then Some (c # s) else strstr s pat)"

definition cstring :: "string \<Rightarrow> string" where
  "cstring = takeWhile (\<lambda>c. c \<noteq> CHR 0x00)"

end
