(* ===== verification/Gpt_Crc32.thy ===== *)
theory Gpt_Crc32
  imports Prov_Prelude
begin

text \<open>
  The checksum of the GPT library (\<open>gpt/lib/crc32.c\<close>): the table \<open>crc32_tab\<close> and the
  byte-at-a-time loop \<open>Crc32\<close>, as the file has them. The reference definition is the
  shift register the file's comment describes, one bit at a time with the polynomial
  \<open>0xedb88320\<close>; the table is proved to hold eight of its steps for every byte, the loop
  to compute the same value, and a change of any one byte of a buffer to change its checksum.
\<close>

unbundle bit_operations_syntax

definition crc32_tab :: "u32 list" where
  "crc32_tab = [
   0x00000000, 0x77073096, 0xee0e612c, 0x990951ba, 0x076dc419,
   0x706af48f, 0xe963a535, 0x9e6495a3, 0x0edb8832, 0x79dcb8a4,
   0xe0d5e91e, 0x97d2d988, 0x09b64c2b, 0x7eb17cbd, 0xe7b82d07,
   0x90bf1d91, 0x1db71064, 0x6ab020f2, 0xf3b97148, 0x84be41de,
   0x1adad47d, 0x6ddde4eb, 0xf4d4b551, 0x83d385c7, 0x136c9856,
   0x646ba8c0, 0xfd62f97a, 0x8a65c9ec, 0x14015c4f, 0x63066cd9,
   0xfa0f3d63, 0x8d080df5, 0x3b6e20c8, 0x4c69105e, 0xd56041e4,
   0xa2677172, 0x3c03e4d1, 0x4b04d447, 0xd20d85fd, 0xa50ab56b,
   0x35b5a8fa, 0x42b2986c, 0xdbbbc9d6, 0xacbcf940, 0x32d86ce3,
   0x45df5c75, 0xdcd60dcf, 0xabd13d59, 0x26d930ac, 0x51de003a,
   0xc8d75180, 0xbfd06116, 0x21b4f4b5, 0x56b3c423, 0xcfba9599,
   0xb8bda50f, 0x2802b89e, 0x5f058808, 0xc60cd9b2, 0xb10be924,
   0x2f6f7c87, 0x58684c11, 0xc1611dab, 0xb6662d3d, 0x76dc4190,
   0x01db7106, 0x98d220bc, 0xefd5102a, 0x71b18589, 0x06b6b51f,
   0x9fbfe4a5, 0xe8b8d433, 0x7807c9a2, 0x0f00f934, 0x9609a88e,
   0xe10e9818, 0x7f6a0dbb, 0x086d3d2d, 0x91646c97, 0xe6635c01,
   0x6b6b51f4, 0x1c6c6162, 0x856530d8, 0xf262004e, 0x6c0695ed,
   0x1b01a57b, 0x8208f4c1, 0xf50fc457, 0x65b0d9c6, 0x12b7e950,
   0x8bbeb8ea, 0xfcb9887c, 0x62dd1ddf, 0x15da2d49, 0x8cd37cf3,
   0xfbd44c65, 0x4db26158, 0x3ab551ce, 0xa3bc0074, 0xd4bb30e2,
   0x4adfa541, 0x3dd895d7, 0xa4d1c46d, 0xd3d6f4fb, 0x4369e96a,
   0x346ed9fc, 0xad678846, 0xda60b8d0, 0x44042d73, 0x33031de5,
   0xaa0a4c5f, 0xdd0d7cc9, 0x5005713c, 0x270241aa, 0xbe0b1010,
   0xc90c2086, 0x5768b525, 0x206f85b3, 0xb966d409, 0xce61e49f,
   0x5edef90e, 0x29d9c998, 0xb0d09822, 0xc7d7a8b4, 0x59b33d17,
   0x2eb40d81, 0xb7bd5c3b, 0xc0ba6cad, 0xedb88320, 0x9abfb3b6,
   0x03b6e20c, 0x74b1d29a, 0xead54739, 0x9dd277af, 0x04db2615,
   0x73dc1683, 0xe3630b12, 0x94643b84, 0x0d6d6a3e, 0x7a6a5aa8,
   0xe40ecf0b, 0x9309ff9d, 0x0a00ae27, 0x7d079eb1, 0xf00f9344,
   0x8708a3d2, 0x1e01f268, 0x6906c2fe, 0xf762575d, 0x806567cb,
   0x196c3671, 0x6e6b06e7, 0xfed41b76, 0x89d32be0, 0x10da7a5a,
   0x67dd4acc, 0xf9b9df6f, 0x8ebeeff9, 0x17b7be43, 0x60b08ed5,
   0xd6d6a3e8, 0xa1d1937e, 0x38d8c2c4, 0x4fdff252, 0xd1bb67f1,
   0xa6bc5767, 0x3fb506dd, 0x48b2364b, 0xd80d2bda, 0xaf0a1b4c,
   0x36034af6, 0x41047a60, 0xdf60efc3, 0xa867df55, 0x316e8eef,
   0x4669be79, 0xcb61b38c, 0xbc66831a, 0x256fd2a0, 0x5268e236,
   0xcc0c7795, 0xbb0b4703, 0x220216b9, 0x5505262f, 0xc5ba3bbe,
   0xb2bd0b28, 0x2bb45a92, 0x5cb36a04, 0xc2d7ffa7, 0xb5d0cf31,
   0x2cd99e8b, 0x5bdeae1d, 0x9b64c2b0, 0xec63f226, 0x756aa39c,
   0x026d930a, 0x9c0906a9, 0xeb0e363f, 0x72076785, 0x05005713,
   0x95bf4a82, 0xe2b87a14, 0x7bb12bae, 0x0cb61b38, 0x92d28e9b,
   0xe5d5be0d, 0x7cdcefb7, 0x0bdbdf21, 0x86d3d2d4, 0xf1d4e242,
   0x68ddb3f8, 0x1fda836e, 0x81be16cd, 0xf6b9265b, 0x6fb077e1,
   0x18b74777, 0x88085ae6, 0xff0f6a70, 0x66063bca, 0x11010b5c,
   0x8f659eff, 0xf862ae69, 0x616bffd3, 0x166ccf45, 0xa00ae278,
   0xd70dd2ee, 0x4e048354, 0x3903b3c2, 0xa7672661, 0xd06016f7,
   0x4969474d, 0x3e6e77db, 0xaed16a4a, 0xd9d65adc, 0x40df0b66,
   0x37d83bf0, 0xa9bcae53, 0xdebb9ec5, 0x47b2cf7f, 0x30b5ffe9,
   0xbdbdf21c, 0xcabac28a, 0x53b39330, 0x24b4a3a6, 0xbad03605,
   0xcdd70693, 0x54de5729, 0x23d967bf, 0xb3667a2e, 0xc4614ab8,
   0x5d681b02, 0x2a6f2b94, 0xb40bbe37, 0xc30c8ea1, 0x5a05df1b,
   0x2d02ef8d]"

fun crc32_loop :: "u32 \<Rightarrow> buffer \<Rightarrow> u32" where
  "crc32_loop value [] = value"
| "crc32_loop value (b # bs) =
     crc32_loop (crc32_tab ! unat ((value XOR ucast b) AND 0xff) XOR drop_bit 8 value) bs"

definition Crc32 :: "buffer \<Rightarrow> u32 \<Rightarrow> u32" where
  "Crc32 buf len = crc32_loop (NOT 0) (take (unat len) buf) XOR NOT 0"

subsection \<open>The shift register\<close>

definition crc_bit :: "u32 \<Rightarrow> u32" where
  "crc_bit v = (if bit v 0 then drop_bit 1 v XOR 0xedb88320 else drop_bit 1 v)"

definition crc_byte :: "u32 \<Rightarrow> byte \<Rightarrow> u32" where
  "crc_byte v b = (crc_bit ^^ 8) (v XOR ucast b)"

definition crc32_ref :: "buffer \<Rightarrow> u32" where
  "crc32_ref bs = NOT (foldl crc_byte (NOT 0) bs)"

lemma crc_bit_xor: "crc_bit (v XOR w) = crc_bit v XOR crc_bit w"
  by (auto simp: crc_bit_def bit_xor_iff drop_bit_xor ac_simps)

lemma crc_bits_xor: "(crc_bit ^^ n) (v XOR w) = (crc_bit ^^ n) v XOR (crc_bit ^^ n) w"
  by (induction n) (simp_all add: crc_bit_xor)

lemma crc_bits_shift: "take_bit n v = 0 \<Longrightarrow> (crc_bit ^^ n) v = drop_bit n v"
proof (induction n arbitrary: v)
  case 0
  then show ?case by simp
next
  case (Suc n)
  have low: "\<not> bit v m" if "m < Suc n" for m
    using Suc.prems that by (metis bit_0_eq bit_take_bit_iff bot_apply bot_bool_def)
  then have one: "crc_bit v = drop_bit 1 v" by (simp add: crc_bit_def)
  have "take_bit n (drop_bit 1 v) = 0"
    by (rule bit_word_eqI) (use low in \<open>auto simp: bit_take_bit_iff bit_drop_bit_eq\<close>)
  from Suc.IH [OF this] have "(crc_bit ^^ n) (crc_bit v) = drop_bit n (drop_bit 1 v)"
    by (simp add: one)
  then show ?case by (simp add: funpow_swap1)
qed

lemma length_crc32_tab [simp]: "length crc32_tab = 256"
  by (simp add: crc32_tab_def)

lemma crc_bit_code: "crc_bit v = (if odd v then drop_bit 1 v XOR 0xedb88320 else drop_bit 1 v)"
  by (simp add: crc_bit_def bit_0)
text \<open>Eight steps of the register, as one linear map; the doubling construction \<open>crc_table\<close>
  rebuilds the table from its eight basis rows.\<close>

definition crc_bits8 :: "u32 \<Rightarrow> u32" where "crc_bits8 = crc_bit ^^ 8"

lemma crc_bits8: "crc_bits8 v = crc_bit (crc_bit (crc_bit (crc_bit (crc_bit (crc_bit (crc_bit (crc_bit v)))))))"
  by (simp add: eval_nat_numeral crc_bits8_def)

lemma crc_bits8_xor: "crc_bits8 (v XOR w) = crc_bits8 v XOR crc_bits8 w"
  by (simp add: crc_bits8_def crc_bits_xor)

fun crc_table :: "nat \<Rightarrow> u32 list" where
  "crc_table 0 = [0]"
| "crc_table (Suc n) = crc_table n @ map ((XOR) (crc_bits8 (2 ^ n))) (crc_table n)"

lemma length_crc_table: "length (crc_table n) = 2 ^ n"
  by (induction n) auto

lemma of_nat_add_pow: 
  assumes "k < 2 ^ n"
  shows "of_nat (2 ^ n + k) = (2 ^ n XOR of_nat k :: u32)"
proof -
  have "\<not> bit k n" using assms by (simp add: bit_iff_odd)
  then have "push_bit n 1 AND of_nat k = (0::u32)"
    by (intro bit_word_eqI) (auto simp: bit_and_iff bit_of_nat_iff bit_exp_iff)
  then have "push_bit n 1 + of_nat k = (push_bit n 1 XOR of_nat k :: u32)"
    by (metis disjunctive_xor_eq_or disjunctive_add_eq_or)
  then show ?thesis by (simp add: push_bit_eq_mult)
qed

lemma crc_table_nth: "k < 2 ^ n \<Longrightarrow> crc_table n ! k = crc_bits8 (of_nat k)"
proof (induction n arbitrary: k)
  case 0
  then show ?case by (simp add: crc_bits8 crc_bit_def)
next
  case (Suc n)
  show ?case
  proof (cases "k < 2 ^ n")
    case True
    then show ?thesis using Suc by (simp add: nth_append length_crc_table)
  next
    case False
    then obtain j where j: "k = 2 ^ n + j" by (metis le_Suc_ex not_less)
    with Suc.prems have "j < 2 ^ n" by simp
    with j Suc.IH show ?thesis
      by (simp add: nth_append length_crc_table of_nat_add_pow crc_bits8_xor del: of_nat_add)
  qed
qed

lemma crc_basis:
  "crc_bits8 1 = 0x77073096" "crc_bits8 2 = 0xee0e612c"
  "crc_bits8 4 = 0x076dc419" "crc_bits8 8 = 0x0edb8832"
  "crc_bits8 16 = 0x1db71064" "crc_bits8 32 = 0x3b6e20c8"
  "crc_bits8 64 = 0x76dc4190" "crc_bits8 128 = 0xedb88320"
  by (simp_all add: crc_bits8 crc_bit_code)

lemma crc32_tab_eq: "crc_table 8 = crc32_tab"
  by (simp add: eval_nat_numeral(2,3) numeral_eq_Suc crc_basis crc32_tab_def)

lemma crc32_tab_nth: "k < 256 \<Longrightarrow> crc32_tab ! k = crc_bits8 (of_nat k)"
  using crc_table_nth [of k 8] by (simp add: crc32_tab_eq)

lemma crc32_step_eq:
  "crc32_tab ! unat ((v XOR ucast b) AND 0xff) XOR drop_bit 8 v = crc_byte v b"
proof -
  let ?x = "v XOR ucast b"
  have small: "unat (?x AND 0xff) < 256"
    using word_and_le1 [of ?x "0xff"] by (simp add: word_le_nat_alt)
  then have tab: "crc32_tab ! unat (?x AND 0xff) = crc_bits8 (?x AND 0xff)"
    by (simp add: crc32_tab_nth)
  have m: "0xff = (mask 8 :: u32)" by (simp add: mask_eq_exp_minus_1)
  have "take_bit 8 (?x AND NOT 0xff) = 0"
    by (rule bit_word_eqI) (auto simp: m bit_take_bit_iff bit_and_iff bit_not_iff bit_mask_iff)
  then have hi: "crc_bits8 (?x AND NOT 0xff) = drop_bit 8 (?x AND NOT 0xff)"
    by (simp add: crc_bits8_def crc_bits_shift)
  have "drop_bit 8 (?x AND NOT 0xff) = drop_bit 8 v"
    by (rule bit_word_eqI)
      (auto simp: m bit_drop_bit_eq bit_and_iff bit_not_iff bit_mask_iff bit_xor_iff bit_ucast_iff
        dest: bit_imp_le_length)
  moreover have "?x = (?x AND 0xff) XOR (?x AND NOT 0xff)"
    by (rule bit_word_eqI) (simp only: bit_xor_iff bit_and_iff bit_not_iff, auto)
  ultimately have "crc_bits8 ?x = crc_bits8 (?x AND 0xff) XOR drop_bit 8 v"
    using hi by (metis crc_bits8_xor)
  then show ?thesis by (simp add: tab crc_byte_def crc_bits8_def)
qed

lemma crc32_loop_foldl: "crc32_loop v bs = foldl crc_byte v bs"
  by (induction bs arbitrary: v) (auto simp: crc32_step_eq)

subsection \<open>One changed byte is detected\<close>

lemma crc_bit_zero: "crc_bit v = 0 \<Longrightarrow> v = 0"
proof -
  assume z: "crc_bit v = 0"
  show "v = 0"
  proof (cases "bit v 0")
    case True
    with z have "drop_bit 1 v XOR 0xedb88320 = 0" by (simp add: crc_bit_def)
    then have "bit (drop_bit 1 v XOR 0xedb88320) 31 = False" by simp
    then have "bit (drop_bit 1 v) 31" by (simp add: bit_xor_iff)
    then show ?thesis by (simp add: bit_drop_bit_eq) (use bit_imp_le_length in fastforce)
  next
    case False
    with z have d: "drop_bit 1 v = 0" by (simp add: crc_bit_def)
    show ?thesis
    proof (rule bit_word_eqI)
      fix n
      show "bit v n \<longleftrightarrow> bit 0 n"
      proof (cases n)
        case (Suc k)
        have "bit (drop_bit 1 v) k = False" using d by simp
        with Suc show ?thesis by (simp add: bit_drop_bit_eq)
      qed (use False in simp)
    qed
  qed
qed

lemma xor_left_cancel: "(x :: 'a::len word) XOR y = x XOR z \<longleftrightarrow> y = z"
  by (metis xor.assoc xor_self_eq xor.left_neutral)

lemma crc_bit_inject: "crc_bit v = crc_bit w \<longleftrightarrow> v = w"
proof
  assume "crc_bit v = crc_bit w"
  then have "crc_bit (v XOR w) = 0" by (simp add: crc_bit_xor)
  then have "v XOR w = v XOR v" by (simp add: crc_bit_zero)
  then show "v = w" using xor_left_cancel by metis
qed simp

lemma crc_bits_inject: "(crc_bit ^^ n) v = (crc_bit ^^ n) w \<longleftrightarrow> v = w"
  by (induction n) (auto simp: crc_bit_inject)

lemma crc_byte_inject_state: "crc_byte v b = crc_byte w b \<longleftrightarrow> v = w"
  by (simp add: crc_byte_def crc_bits_inject) (metis xor.commute xor_left_cancel)

lemma crc_byte_inject_byte: "crc_byte v b = crc_byte v c \<longleftrightarrow> b = c"
proof -
  have down: "ucast (ucast x :: u32) = x" for x :: byte
    by (rule bit_word_eqI) (simp add: bit_ucast_iff)
  then have "(ucast b :: u32) = ucast c \<longleftrightarrow> b = c" by metis
  then show ?thesis by (simp add: crc_byte_def crc_bits_inject xor_left_cancel)
qed

lemma foldl_crc_byte_inject: "foldl crc_byte v bs = foldl crc_byte w bs \<longleftrightarrow> v = w"
  by (induction bs arbitrary: v w) (auto simp: crc_byte_inject_state)

lemma foldl_at_index:
  assumes "i < length t"
  shows "foldl f z t = foldl f (f (foldl f z (take i t)) (t ! i)) (drop (Suc i) t)"
proof -
  have "foldl f z t = foldl f z (take i t @ t ! i # drop (Suc i) t)"
    using id_take_nth_drop [OF assms] by (rule arg_cong)
  then show ?thesis by (simp only: foldl_append foldl_Cons)
qed

lemma Crc32_foldl: "Crc32 buf len = NOT (foldl crc_byte (NOT 0) (take (unat len) buf))"
  by (simp add: Crc32_def crc32_loop_foldl)

subsection \<open>Properties\<close>

text \<open>C31: \<open>Crc32\<close>, with its table of 256 words and one lookup per byte, computes the bitwise
  CRC of the shift register that the comment in crc32.c describes (polynomial \<open>0xedb88320\<close>,
  least significant bit first), on the first \<open>len\<close> bytes of every buffer.\<close>

theorem Crc32_eq_shift_register:
  "Crc32 buf len = crc32_ref (take (unat len) buf)"
  by (simp add: Crc32_foldl crc32_ref_def)

text \<open>A buffer in which any one of the checksummed bytes has been changed to another value never
  has the same \<open>Crc32\<close>: the checks of headers and entry tables detect every single-byte
  corruption.\<close>

theorem Crc32_detects_byte_change:
  assumes "i < length buf" "i < unat len" "b \<noteq> buf ! i"
  shows "Crc32 (buf[i := b]) len \<noteq> Crc32 buf len"
proof
  let ?t = "take (unat len) buf"
  assume "Crc32 (buf[i := b]) len = Crc32 buf len"
  then have eq: "foldl crc_byte (NOT 0) (?t[i := b]) = foldl crc_byte (NOT 0) ?t"
    by (simp add: Crc32_foldl take_update_swap)
  have i: "i < length ?t" using assms by simp
  let ?s = "foldl crc_byte (NOT 0) (take i ?t)"
  have "foldl crc_byte (crc_byte ?s b) (drop (Suc i) ?t)
      = foldl crc_byte (crc_byte ?s (?t ! i)) (drop (Suc i) ?t)"
    using eq foldl_at_index [OF i, of crc_byte "NOT 0"] i
    by (simp only: upd_conv_take_nth_drop foldl_append foldl_Cons)
  then have "b = ?t ! i" by (simp only: foldl_crc_byte_inject crc_byte_inject_byte)
  with assms show False by simp
qed

theorem Crc32_detects_byte_change_witness:
  "Crc32 ([1, 2, 3, 4][2 := 7]) 4 \<noteq> Crc32 [1, 2, 3, 4] 4"
  by (rule Crc32_detects_byte_change) simp_all

end
