(* ===== verification/Gpt_Data.thy ===== *)
theory Gpt_Data
  imports Gpt_Crc32
begin

text \<open>
  The on-disk structures of the GPT library (\<open>gpt/lib/include/gpt.h\<close> and the PMBR of
  \<open>cgpt.h\<close>) as records with their packed byte images, and the library's working state
  \<open>GptData\<close> (\<open>cgptlib.h\<close>). As in the C code, \<open>GptData\<close> holds raw byte buffers; a cast
  such as \<open>(GptHeader*)gpt->primary_header\<close> is \<open>hdr\<close> and an assignment through it is
  \<open>put_hdr\<close>. A null buffer pointer is the empty buffer, which no successful \<open>malloc\<close> of the
  code returns.
\<close>

subsection \<open>GUIDs\<close>

record Guid =
  time_low :: u32
  time_mid :: u16
  time_high_and_version :: u16
  clock_seq_high_and_reserved :: byte
  clock_seq_low :: byte
  node :: "byte list"

definition enc_guid :: "Guid \<Rightarrow> buffer" where
  [codec_defs]: "enc_guid g = le_bytes 4 (time_low g) @ le_bytes 2 (time_mid g) @
     le_bytes 2 (time_high_and_version g) @ [clock_seq_high_and_reserved g] @
     [clock_seq_low g] @ node g"

definition dec_guid :: "buffer \<Rightarrow> Guid" where
  [codec_defs]: "dec_guid b = \<lparr>time_low = le_word (seg 0 4 b), time_mid = le_word (seg 4 2 b),
     time_high_and_version = le_word (seg 6 2 b), clock_seq_high_and_reserved = b ! 8,
     clock_seq_low = b ! 9, node = seg 10 6 b\<rparr>"

definition guid_wf :: "Guid \<Rightarrow> bool" where
  "guid_wf g \<longleftrightarrow> length (node g) = 6"

interpretation guid: struct_codec enc_guid dec_guid 16 guid_wf
proof
  fix x :: Guid
  assume wf: "guid_wf x"
  show "length (enc_guid x) = 16" using wf by (simp add: enc_guid_def guid_wf_def)
  show "dec_guid (enc_guid x) = x"
    using wf by (simp add: enc_guid_def dec_guid_def guid_wf_def buf_simps nth_append
        del: append_Cons)
next
  fix bs :: buffer
  assume len: "length bs = 16"
  show "enc_guid (dec_guid bs) = bs"
    using len by (simp add: enc_guid_def dec_guid_def buf_simps)
  show "guid_wf (dec_guid bs)" using len by (simp add: guid_wf_def dec_guid_def)
qed

definition guid_unused :: Guid where
  "guid_unused = \<lparr>time_low = 0, time_mid = 0, time_high_and_version = 0,
     clock_seq_high_and_reserved = 0, clock_seq_low = 0, node = [0, 0, 0, 0, 0, 0]\<rparr>"

definition guid_efi :: Guid where
  "guid_efi = \<lparr>time_low = 0xc12a7328, time_mid = 0xf81f, time_high_and_version = 0x11d2,
     clock_seq_high_and_reserved = 0xba, clock_seq_low = 0x4b,
     node = [0x00, 0xa0, 0xc9, 0x3e, 0xc9, 0x3b]\<rparr>"

definition guid_chromeos_firmware :: Guid where
  "guid_chromeos_firmware = \<lparr>time_low = 0xcab6e88e, time_mid = 0xabf3, time_high_and_version = 0x4102,
     clock_seq_high_and_reserved = 0xa0, clock_seq_low = 0x7a,
     node = [0xd4, 0xbb, 0x9b, 0xe3, 0xc1, 0xd3]\<rparr>"

definition guid_chromeos_kernel :: Guid where
  "guid_chromeos_kernel = \<lparr>time_low = 0xfe3a2a5d, time_mid = 0x4f32, time_high_and_version = 0x41a7,
     clock_seq_high_and_reserved = 0xb7, clock_seq_low = 0x25,
     node = [0xac, 0xcc, 0x32, 0x85, 0xa3, 0x09]\<rparr>"

definition guid_chromeos_rootfs :: Guid where
  "guid_chromeos_rootfs = \<lparr>time_low = 0x3cb8e202, time_mid = 0x3b7e, time_high_and_version = 0x47dd,
     clock_seq_high_and_reserved = 0x8a, clock_seq_low = 0x3c,
     node = [0x7f, 0xf2, 0xa1, 0x3c, 0xfc, 0xec]\<rparr>"

definition guid_chromeos_reserved :: Guid where
  "guid_chromeos_reserved = \<lparr>time_low = 0x2e0a753d, time_mid = 0x9e48, time_high_and_version = 0x43b0,
     clock_seq_high_and_reserved = 0x83, clock_seq_low = 0x37,
     node = [0xb1, 0x51, 0x92, 0xcb, 0x1b, 0x5e]\<rparr>"

definition guid_linux_data :: Guid where
  "guid_linux_data = \<lparr>time_low = 0xebd0a0a2, time_mid = 0xb9e5, time_high_and_version = 0x4433,
     clock_seq_high_and_reserved = 0x87, clock_seq_low = 0xc0,
     node = [0x68, 0xb6, 0xb7, 0x26, 0x99, 0xc7]\<rparr>"

lemmas guid_consts = guid_unused_def guid_efi_def guid_chromeos_firmware_def
  guid_chromeos_kernel_def guid_chromeos_rootfs_def guid_chromeos_reserved_def guid_linux_data_def

text \<open>\<open>GuidEqual\<close> and \<open>IsZero\<close> compare the 16 bytes, as \<open>memcmp\<close> does.\<close>

definition GuidEqual :: "Guid \<Rightarrow> Guid \<Rightarrow> bool" where
  "GuidEqual g1 g2 \<longleftrightarrow> enc_guid g1 = enc_guid g2"

definition IsZero :: "Guid \<Rightarrow> bool" where
  "IsZero g \<longleftrightarrow> GuidEqual g guid_unused"

lemma guid_wf_consts [simp]:
  "guid_wf guid_unused" "guid_wf guid_efi" "guid_wf guid_chromeos_firmware"
  "guid_wf guid_chromeos_kernel" "guid_wf guid_chromeos_rootfs" "guid_wf guid_chromeos_reserved"
  "guid_wf guid_linux_data"
  by (simp_all add: guid_wf_def guid_consts)

lemma GuidEqual_iff: "guid_wf g1 \<Longrightarrow> guid_wf g2 \<Longrightarrow> GuidEqual g1 g2 \<longleftrightarrow> g1 = g2"
  by (simp add: GuidEqual_def guid.enc_inject)

lemma GuidEqual_refl [simp]: "GuidEqual g g"
  by (simp add: GuidEqual_def)

lemma enc_guid_unused: "enc_guid guid_unused = replicate 16 0"
  by (simp add: enc_guid_def guid_unused_def numeral_eq_Suc)

subsection \<open>GPT headers and entries\<close>

record GptHeader =
  signature :: "byte list"
  revision :: u32
  h_size :: u32
  header_crc32 :: u32
  reserved_zero :: u32
  my_lba :: u64
  alternate_lba :: u64
  first_usable_lba :: u64
  last_usable_lba :: u64
  disk_uuid :: Guid
  entries_lba :: u64
  number_of_entries :: u32
  size_of_entry :: u32
  entries_crc32 :: u32

definition enc_header :: "GptHeader \<Rightarrow> buffer" where
  [codec_defs]: "enc_header h = signature h @ le_bytes 4 (revision h) @ le_bytes 4 (h_size h) @
     le_bytes 4 (header_crc32 h) @ le_bytes 4 (reserved_zero h) @ le_bytes 8 (my_lba h) @
     le_bytes 8 (alternate_lba h) @ le_bytes 8 (first_usable_lba h) @ le_bytes 8 (last_usable_lba h) @
     enc_guid (disk_uuid h) @ le_bytes 8 (entries_lba h) @ le_bytes 4 (number_of_entries h) @
     le_bytes 4 (size_of_entry h) @ le_bytes 4 (entries_crc32 h)"

definition dec_header :: "buffer \<Rightarrow> GptHeader" where
  [codec_defs]: "dec_header b = \<lparr>signature = seg 0 8 b, revision = le_word (seg 8 4 b),
     h_size = le_word (seg 12 4 b), header_crc32 = le_word (seg 16 4 b),
     reserved_zero = le_word (seg 20 4 b), my_lba = le_word (seg 24 8 b),
     alternate_lba = le_word (seg 32 8 b), first_usable_lba = le_word (seg 40 8 b),
     last_usable_lba = le_word (seg 48 8 b), disk_uuid = dec_guid (seg 56 16 b),
     entries_lba = le_word (seg 72 8 b), number_of_entries = le_word (seg 80 4 b),
     size_of_entry = le_word (seg 84 4 b), entries_crc32 = le_word (seg 88 4 b)\<rparr>"

definition header_wf :: "GptHeader \<Rightarrow> bool" where
  "header_wf h \<longleftrightarrow> length (signature h) = 8 \<and> guid_wf (disk_uuid h)"

interpretation header: struct_codec enc_header dec_header 92 header_wf
proof
  fix x :: GptHeader
  assume wf: "header_wf x"
  then show "length (enc_header x) = 92" by (simp add: enc_header_def header_wf_def guid.length_enc)
  show "dec_header (enc_header x) = x"
    using wf by (simp add: enc_header_def dec_header_def header_wf_def buf_simps guid.length_enc guid.dec_enc)
next
  fix bs :: buffer
  assume len: "length bs = 92"
  show "enc_header (dec_header bs) = bs"
    using len by (simp add: enc_header_def dec_header_def buf_simps guid.enc_dec)
  show "header_wf (dec_header bs)"
    using len by (simp add: header_wf_def dec_header_def guid.wf_dec)
qed

record GptEntry =
  etype :: Guid
  unique :: Guid
  starting_lba :: u64
  ending_lba :: u64
  attr_reserved :: "u16 list"
  gpt_att :: u16
  name :: "u16 list"

definition enc_entry :: "GptEntry \<Rightarrow> buffer" where
  [codec_defs]: "enc_entry e = enc_guid (etype e) @ enc_guid (unique e) @ le_bytes 8 (starting_lba e) @
     le_bytes 8 (ending_lba e) @ enc_u16s (attr_reserved e) @ le_bytes 2 (gpt_att e) @ enc_u16s (name e)"

definition dec_entry :: "buffer \<Rightarrow> GptEntry" where
  [codec_defs]: "dec_entry b = \<lparr>etype = dec_guid (seg 0 16 b), unique = dec_guid (seg 16 16 b),
     starting_lba = le_word (seg 32 8 b), ending_lba = le_word (seg 40 8 b),
     attr_reserved = dec_u16s 3 (seg 48 6 b), gpt_att = le_word (seg 54 2 b),
     name = dec_u16s 36 (seg 56 72 b)\<rparr>"

definition entry_wf :: "GptEntry \<Rightarrow> bool" where
  "entry_wf e \<longleftrightarrow> guid_wf (etype e) \<and> guid_wf (unique e) \<and> length (attr_reserved e) = 3 \<and> length (name e) = 36"

interpretation entry: struct_codec enc_entry dec_entry 128 entry_wf
proof
  fix x :: GptEntry
  assume wf: "entry_wf x"
  then show "length (enc_entry x) = 128" by (simp add: enc_entry_def entry_wf_def guid.length_enc)
  show "dec_entry (enc_entry x) = x"
    using wf by (simp add: enc_entry_def dec_entry_def entry_wf_def buf_simps guid.length_enc guid.dec_enc)
next
  fix bs :: buffer
  assume len: "length bs = 128"
  show "enc_entry (dec_entry bs) = bs"
    using len by (simp add: enc_entry_def dec_entry_def buf_simps guid.enc_dec)
  show "entry_wf (dec_entry bs)"
    using len by (simp add: entry_wf_def dec_entry_def guid.wf_dec)
qed

subsection \<open>The protective MBR\<close>

record legacy_partition =
  status :: byte
  f_head :: byte
  f_sect :: byte
  f_cyl :: byte
  lp_type :: byte
  l_head :: byte
  l_sect :: byte
  l_cyl :: byte
  f_lba :: u32
  num_sect :: u32

definition enc_lpart :: "legacy_partition \<Rightarrow> buffer" where
  [codec_defs]: "enc_lpart p = [status p, f_head p, f_sect p, f_cyl p, lp_type p, l_head p, l_sect p, l_cyl p] @
     le_bytes 4 (f_lba p) @ le_bytes 4 (num_sect p)"

definition dec_lpart :: "buffer \<Rightarrow> legacy_partition" where
  [codec_defs]: "dec_lpart b = \<lparr>status = b ! 0, f_head = b ! 1, f_sect = b ! 2, f_cyl = b ! 3,
     lp_type = b ! 4, l_head = b ! 5, l_sect = b ! 6, l_cyl = b ! 7,
     f_lba = le_word (seg 8 4 b), num_sect = le_word (seg 12 4 b)\<rparr>"

interpretation lpart: struct_codec enc_lpart dec_lpart 16 "\<lambda>p. True"
proof
  fix x :: legacy_partition
  show "length (enc_lpart x) = 16" by (simp add: enc_lpart_def)
  show "dec_lpart (enc_lpart x) = x"
    by (simp add: enc_lpart_def dec_lpart_def seg_skip seg_here nth_append del: append_Cons)
next
  fix bs :: buffer
  assume len: "length bs = 16"
  show "enc_lpart (dec_lpart bs) = bs"
    using len by (simp add: enc_lpart_def dec_lpart_def buf_simps)
qed simp

record pmbr =
  bootcode :: "byte list"
  boot_guid :: Guid
  disk_id :: u32
  magic :: "byte list"
  part :: "legacy_partition list"
  sig :: "byte list"

definition enc_pmbr :: "pmbr \<Rightarrow> buffer" where
  [codec_defs]: "enc_pmbr p = bootcode p @ enc_guid (boot_guid p) @ le_bytes 4 (disk_id p) @ magic p @
     concat (map enc_lpart (part p)) @ sig p"

definition dec_pmbr :: "buffer \<Rightarrow> pmbr" where
  [codec_defs]: "dec_pmbr b = \<lparr>bootcode = seg 0 424 b, boot_guid = dec_guid (seg 424 16 b),
     disk_id = le_word (seg 440 4 b), magic = seg 444 2 b,
     part = [dec_lpart (seg 446 16 b), dec_lpart (seg 462 16 b),
             dec_lpart (seg 478 16 b), dec_lpart (seg 494 16 b)],
     sig = seg 510 2 b\<rparr>"

definition pmbr_wf :: "pmbr \<Rightarrow> bool" where
  "pmbr_wf p \<longleftrightarrow> length (bootcode p) = 424 \<and> guid_wf (boot_guid p) \<and> length (magic p) = 2 \<and>
     length (part p) = 4 \<and> length (sig p) = 2"

lemma length_4_conv: "length xs = 4 \<longleftrightarrow> (\<exists>a b c d. xs = [a, b, c, d])"
  by (simp add: numeral_eq_Suc length_Suc_conv) blast

interpretation pmbr: struct_codec enc_pmbr dec_pmbr 512 pmbr_wf
proof
  fix x :: pmbr
  assume wf: "pmbr_wf x"
  then obtain a b c d where p: "part x = [a, b, c, d]" by (auto simp: pmbr_wf_def length_4_conv)
  show "length (enc_pmbr x) = 512"
    using wf p by (simp add: enc_pmbr_def pmbr_wf_def guid.length_enc lpart.length_enc)
  show "dec_pmbr (enc_pmbr x) = x"
    using wf p by (simp add: enc_pmbr_def dec_pmbr_def pmbr_wf_def buf_simps guid.length_enc
        guid.dec_enc lpart.length_enc lpart.dec_enc)
next
  fix bs :: buffer
  assume len: "length bs = 512"
  show "enc_pmbr (dec_pmbr bs) = bs"
    using len by (simp add: enc_pmbr_def dec_pmbr_def buf_simps guid.enc_dec lpart.enc_dec)
  show "pmbr_wf (dec_pmbr bs)"
    using len by (simp add: pmbr_wf_def dec_pmbr_def guid.wf_dec)
qed

subsection \<open>Error codes and the library state\<close>

datatype gpt_status =
    GPT_SUCCESS | GPT_ERROR_NO_VALID_KERNEL | GPT_ERROR_INVALID_HEADERS | GPT_ERROR_INVALID_ENTRIES
  | GPT_ERROR_INVALID_SECTOR_SIZE | GPT_ERROR_INVALID_SECTOR_NUMBER | GPT_ERROR_INVALID_UPDATE_TYPE
  | GPT_ERROR_CRC_CORRUPTED | GPT_ERROR_OUT_OF_REGION | GPT_ERROR_START_LBA_OVERLAP
  | GPT_ERROR_END_LBA_OVERLAP | GPT_ERROR_DUP_GUID

text \<open>The values the C enumeration gives to the codes.\<close>

fun gpt_code :: "gpt_status \<Rightarrow> nat" where
  "gpt_code GPT_SUCCESS = 0"
| "gpt_code GPT_ERROR_NO_VALID_KERNEL = 1"
| "gpt_code GPT_ERROR_INVALID_HEADERS = 2"
| "gpt_code GPT_ERROR_INVALID_ENTRIES = 3"
| "gpt_code GPT_ERROR_INVALID_SECTOR_SIZE = 4"
| "gpt_code GPT_ERROR_INVALID_SECTOR_NUMBER = 5"
| "gpt_code GPT_ERROR_INVALID_UPDATE_TYPE = 6"
| "gpt_code GPT_ERROR_CRC_CORRUPTED = 7"
| "gpt_code GPT_ERROR_OUT_OF_REGION = 8"
| "gpt_code GPT_ERROR_START_LBA_OVERLAP = 9"
| "gpt_code GPT_ERROR_END_LBA_OVERLAP = 10"
| "gpt_code GPT_ERROR_DUP_GUID = 11"

datatype cgpt_status = CGPT_OK | CGPT_FAILED

record GptData =
  primary_header :: buffer
  secondary_header :: buffer
  primary_entries :: buffer
  secondary_entries :: buffer
  sector_bytes :: u32
  drive_sectors :: u64
  modified :: byte
  current_kernel :: int
  valid_headers :: u32
  valid_entries :: u32
  current_priority :: int

abbreviation (input) "GPT_MODIFIED_HEADER1 \<equiv> 0x01 :: byte"
abbreviation (input) "GPT_MODIFIED_HEADER2 \<equiv> 0x02 :: byte"
abbreviation (input) "GPT_MODIFIED_ENTRIES1 \<equiv> 0x04 :: byte"
abbreviation (input) "GPT_MODIFIED_ENTRIES2 \<equiv> 0x08 :: byte"
abbreviation (input) "TOTAL_ENTRIES_SIZE \<equiv> 16384 :: u32"
abbreviation (input) "MASK_NONE \<equiv> 0 :: u32"
abbreviation (input) "MASK_PRIMARY \<equiv> 1 :: u32"
abbreviation (input) "MASK_SECONDARY \<equiv> 2 :: u32"
abbreviation (input) "MASK_BOTH \<equiv> 3 :: u32"
abbreviation (input) "GPT_PMBR_SECTOR \<equiv> 1 :: u64"
abbreviation (input) "GPT_HEADER_SECTOR \<equiv> 1 :: u64"
abbreviation (input) "GPT_ENTRIES_SECTORS \<equiv> 32 :: u64"
abbreviation (input) "GPT_HEADER_REVISION \<equiv> 0x00010000 :: u32"

text \<open>The strings \<open>"EFI PART"\<close> and \<open>"CHROMEOS"\<close> as bytes, without their terminators.\<close>

definition GPT_HEADER_SIGNATURE :: "byte list" where
  "GPT_HEADER_SIGNATURE = [0x45, 0x46, 0x49, 0x20, 0x50, 0x41, 0x52, 0x54]"

definition GPT_HEADER_SIGNATURE2 :: "byte list" where
  "GPT_HEADER_SIGNATURE2 = [0x43, 0x48, 0x52, 0x4f, 0x4d, 0x45, 0x4f, 0x53]"

lemma length_signatures [simp]:
  "length GPT_HEADER_SIGNATURE = 8" "length GPT_HEADER_SIGNATURE2 = 8"
  "GPT_HEADER_SIGNATURE \<noteq> GPT_HEADER_SIGNATURE2"
  by (simp_all add: GPT_HEADER_SIGNATURE_def GPT_HEADER_SIGNATURE2_def)

subsection \<open>Structs inside buffers\<close>

abbreviation hdr :: "buffer \<Rightarrow> GptHeader" where
  "hdr \<equiv> get_at dec_header 92 0"

abbreviation put_hdr :: "GptHeader \<Rightarrow> buffer \<Rightarrow> buffer" where
  "put_hdr \<equiv> put_at enc_header 0"

definition entry_at :: "buffer \<Rightarrow> nat \<Rightarrow> GptEntry" where
  "entry_at b off = get_at dec_entry 128 off b"

definition put_entry :: "nat \<Rightarrow> GptEntry \<Rightarrow> buffer \<Rightarrow> buffer" where
  "put_entry off e b = put_at enc_entry off e b"

text \<open>The table as the list of its \<open>n\<close> consecutive 128-byte entries.\<close>

definition entries_of :: "nat \<Rightarrow> buffer \<Rightarrow> GptEntry list" where
  "entries_of n b = map (\<lambda>i. entry_at b (128 * i)) [0..<n]"

lemma length_entries_of [simp]: "length (entries_of n b) = n"
  by (simp add: entries_of_def)

lemma nth_entries_of [simp]: "i < n \<Longrightarrow> entries_of n b ! i = entry_at b (128 * i)"
  by (simp add: entries_of_def)

lemma entry_wf_at: "off + 128 \<le> length b \<Longrightarrow> entry_wf (entry_at b off)"
  by (simp add: entry_at_def entry.wf_get)

lemma length_put_entry [simp]:
  "entry_wf e \<Longrightarrow> off + 128 \<le> length b \<Longrightarrow> length (put_entry off e b) = length b"
  by (simp add: put_entry_def entry.length_put)

lemma entry_at_put_entry:
  assumes "entry_wf e" "128 * i + 128 \<le> length b"
  shows "entry_at (put_entry (128 * i) e b) (128 * j) = (if i = j then e else entry_at b (128 * j))"
proof (cases "i = j")
  case True
  then show ?thesis using assms by (simp add: entry_at_def put_entry_def entry.get_put_same)
next
  case False
  then have "128 * j + 128 \<le> 128 * i \<or> 128 * i + 128 \<le> 128 * j" by arith
  then show ?thesis using assms False by (simp add: entry_at_def put_entry_def entry.get_put_other)
qed

lemma entries_of_put_entry:
  assumes "entry_wf e" "i < n" "128 * n \<le> length b"
  shows "entries_of n (put_entry (128 * i) e b) = (entries_of n b)[i := e]"
  using assms by (intro nth_equalityI) (auto simp: entry_at_put_entry nth_list_update)

end
