(* ===== verification/Gpt_Check.thy ===== *)
theory Gpt_Check
  imports Gpt_Data
begin

text \<open>
  The checks and the repair of a GPT (\<open>gpt/lib/cgptlib_internal.c\<close>): parameters, headers and
  entry tables, the sanity check that decides which copies are valid, the repair from the valid
  copy, and the ChromeOS attribute bits of an entry. Each function of the file is one definition,
  in the order of the file; the two loops of \<open>CheckEntries\<close> are the recursions
  \<open>check_entry_list\<close> and \<open>check_others\<close>.
\<close>

unbundle bit_operations_syntax

definition CheckParameters :: "GptData \<Rightarrow> gpt_status" where
  "CheckParameters gpt =
    (if sector_bytes gpt \<noteq> 512 then GPT_ERROR_INVALID_SECTOR_SIZE
     else if drive_sectors gpt < 1 + 2 * (1 + GPT_ENTRIES_SECTORS) then GPT_ERROR_INVALID_SECTOR_NUMBER
     else GPT_SUCCESS)"

definition HeaderCrc :: "buffer \<Rightarrow> u32" where
  "HeaderCrc h = Crc32 (put_hdr ((hdr h)\<lparr>header_crc32 := 0\<rparr>) h) (h_size (hdr h))"

text \<open>\<open>CheckHeader\<close> returns 0 for a valid header and 1 for an invalid one.\<close>

definition CheckHeader :: "buffer \<Rightarrow> bool \<Rightarrow> u64 \<Rightarrow> nat" where
  "CheckHeader b is_secondary drv =
    (if b = [] then 1 else
     let h = hdr b in
     if signature h \<noteq> GPT_HEADER_SIGNATURE \<and> signature h \<noteq> GPT_HEADER_SIGNATURE2 then 1
     else if revision h \<noteq> GPT_HEADER_REVISION then 1
     else if h_size h < 92 \<or> h_size h > 512 then 1
     else if HeaderCrc b \<noteq> header_crc32 h then 1
     else if reserved_zero h \<noteq> 0 then 1
     else if size_of_entry h \<noteq> 128 then 1
     else if number_of_entries h < 32 \<or> number_of_entries h > 512 \<or>
             number_of_entries h * size_of_entry h \<noteq> TOTAL_ENTRIES_SIZE then 1
     else if is_secondary \<and> my_lba h \<noteq> drv - 1 then 1
     else if is_secondary \<and> entries_lba h \<noteq> my_lba h - GPT_ENTRIES_SECTORS then 1
     else if \<not> is_secondary \<and> my_lba h \<noteq> 1 then 1
     else if \<not> is_secondary \<and> entries_lba h \<noteq> my_lba h + 1 then 1
     else if first_usable_lba h < 2 + GPT_ENTRIES_SECTORS then 1
     else if last_usable_lba h \<ge> drv - 1 - GPT_ENTRIES_SECTORS then 1
     else if first_usable_lba h > last_usable_lba h then 1
     else 0)"

definition IsUnusedEntry :: "GptEntry \<Rightarrow> bool" where
  "IsUnusedEntry e \<longleftrightarrow> GuidEqual guid_unused (etype e)"

definition IsKernelEntry :: "GptEntry \<Rightarrow> bool" where
  "IsKernelEntry e \<longleftrightarrow> GuidEqual (etype e) guid_chromeos_kernel"

text \<open>The inner loop of \<open>CheckEntries\<close>: entry \<open>i\<close> against the entries from index \<open>i2\<close> on.\<close>

fun check_others :: "GptEntry \<Rightarrow> nat \<Rightarrow> nat \<Rightarrow> GptEntry list \<Rightarrow> gpt_status" where
  "check_others entry i i2 [] = GPT_SUCCESS"
| "check_others entry i i2 (e2 # es) =
    (if i2 = i \<or> IsUnusedEntry e2 then check_others entry i (Suc i2) es
     else if starting_lba entry \<ge> starting_lba e2 \<and> starting_lba entry \<le> ending_lba e2
     then GPT_ERROR_START_LBA_OVERLAP
     else if ending_lba entry \<ge> starting_lba e2 \<and> ending_lba entry \<le> ending_lba e2
     then GPT_ERROR_END_LBA_OVERLAP
     else if GuidEqual (unique entry) (unique e2) then GPT_ERROR_DUP_GUID
     else check_others entry i (Suc i2) es)"

text \<open>The outer loop: the entries from index \<open>i\<close> on, each against the whole table.\<close>

fun check_entry_list :: "GptHeader \<Rightarrow> GptEntry list \<Rightarrow> nat \<Rightarrow> GptEntry list \<Rightarrow> gpt_status" where
  "check_entry_list h table i [] = GPT_SUCCESS"
| "check_entry_list h table i (entry # es) =
    (if IsUnusedEntry entry then check_entry_list h table (Suc i) es
     else if starting_lba entry < first_usable_lba h \<or> ending_lba entry > last_usable_lba h \<or>
             ending_lba entry < starting_lba entry
     then GPT_ERROR_OUT_OF_REGION
     else case check_others entry i 0 table of
            GPT_SUCCESS \<Rightarrow> check_entry_list h table (Suc i) es
          | err \<Rightarrow> err)"

definition CheckEntries :: "buffer \<Rightarrow> GptHeader \<Rightarrow> gpt_status" where
  "CheckEntries entries h =
    (if Crc32 entries (size_of_entry h * number_of_entries h) \<noteq> entries_crc32 h
     then GPT_ERROR_CRC_CORRUPTED
     else let table = entries_of (unat (number_of_entries h)) entries
          in check_entry_list h table 0 table)"

text \<open>\<open>HeaderFieldsSame\<close> returns 0 when the shared fields agree.\<close>

definition HeaderFieldsSame :: "GptHeader \<Rightarrow> GptHeader \<Rightarrow> nat" where
  "HeaderFieldsSame h1 h2 =
    (if signature h1 \<noteq> signature h2 then 1
     else if revision h1 \<noteq> revision h2 then 1
     else if h_size h1 \<noteq> h_size h2 then 1
     else if reserved_zero h1 \<noteq> reserved_zero h2 then 1
     else if first_usable_lba h1 \<noteq> first_usable_lba h2 then 1
     else if last_usable_lba h1 \<noteq> last_usable_lba h2 then 1
     else if \<not> GuidEqual (disk_uuid h1) (disk_uuid h2) then 1
     else if number_of_entries h1 \<noteq> number_of_entries h2 then 1
     else if size_of_entry h1 \<noteq> size_of_entry h2 then 1
     else if entries_crc32 h1 \<noteq> entries_crc32 h2 then 1
     else 0)"

text \<open>The mask of the tables that pass \<open>CheckEntries\<close> against one header.\<close>

definition entries_mask :: "GptData \<Rightarrow> GptHeader \<Rightarrow> u32" where
  "entries_mask gpt h =
    (if CheckEntries (primary_entries gpt) h = GPT_SUCCESS then MASK_PRIMARY else 0) OR
    (if CheckEntries (secondary_entries gpt) h = GPT_SUCCESS then MASK_SECONDARY else 0)"

definition headers_mask :: "GptData \<Rightarrow> u32" where
  "headers_mask gpt =
    (if CheckHeader (primary_header gpt) False (drive_sectors gpt) = 0 then MASK_PRIMARY else 0) OR
    (if CheckHeader (secondary_header gpt) True (drive_sectors gpt) = 0 then MASK_SECONDARY else 0)"

definition GptSanityCheck :: "GptData \<Rightarrow> GptData \<times> gpt_status" where
  "GptSanityCheck gpt0 =
    (let gpt = gpt0\<lparr>valid_headers := 0, valid_entries := 0\<rparr>;
         header1 = hdr (primary_header gpt);
         header2 = hdr (secondary_header gpt);
         retval = CheckParameters gpt
     in if retval \<noteq> GPT_SUCCESS then (gpt, retval) else
     let vh = headers_mask gpt;
         goodhdr = (if vh AND MASK_PRIMARY \<noteq> 0 then header1 else header2);
         gpt = gpt\<lparr>valid_headers := vh\<rparr>
     in if vh = 0 then (gpt, GPT_ERROR_INVALID_HEADERS) else
     let ve = entries_mask gpt goodhdr;
         retry = (vh = MASK_BOTH \<and> ve = 0);
         ve' = (if retry then entries_mask gpt header2 else ve);
         vh' = (if retry \<and> ve' \<noteq> 0 then vh AND NOT MASK_PRIMARY else vh);
         gpt = gpt\<lparr>valid_headers := vh', valid_entries := ve'\<rparr>
     in if ve' = 0 then (gpt, GPT_ERROR_INVALID_ENTRIES)
        else if vh' = MASK_BOTH \<and> HeaderFieldsSame header1 header2 \<noteq> 0
        then (gpt\<lparr>valid_headers := vh' AND NOT MASK_SECONDARY\<rparr>, GPT_SUCCESS)
        else (gpt, GPT_SUCCESS))"

text \<open>The assignment \<open>header->header_crc32 = HeaderCrc(header)\<close>.\<close>

definition set_header_crc :: "buffer \<Rightarrow> buffer" where
  "set_header_crc b = put_hdr ((hdr b)\<lparr>header_crc32 := HeaderCrc b\<rparr>) b"

text \<open>\<open>Memcpy(header2, header1, sizeof(GptHeader))\<close> and the four assignments after it, and the
  same for the primary header.\<close>

definition repair_header2 :: "GptData \<Rightarrow> buffer" where
  "repair_header2 gpt =
    (let b = overlay 0 (seg 0 92 (primary_header gpt)) (secondary_header gpt);
         lba = drive_sectors gpt - 1;
         b = put_hdr ((hdr b)\<lparr>my_lba := lba, alternate_lba := 1,
                               entries_lba := lba - GPT_ENTRIES_SECTORS\<rparr>) b
     in set_header_crc b)"

definition repair_header1 :: "GptData \<Rightarrow> buffer" where
  "repair_header1 gpt =
    (let b = overlay 0 (seg 0 92 (secondary_header gpt)) (primary_header gpt);
         b = put_hdr ((hdr b)\<lparr>my_lba := 1, alternate_lba := drive_sectors gpt - 1,
                               entries_lba := 1 + 1\<rparr>) b
     in set_header_crc b)"

definition GptRepair :: "GptData \<Rightarrow> GptData" where
  "GptRepair gpt0 =
    (if valid_headers gpt0 = MASK_NONE \<or> valid_entries gpt0 = MASK_NONE then gpt0 else
     let gpt = (if valid_headers gpt0 = MASK_PRIMARY
                then gpt0\<lparr>secondary_header := repair_header2 gpt0,
                          modified := modified gpt0 OR GPT_MODIFIED_HEADER2\<rparr>
                else if valid_headers gpt0 = MASK_SECONDARY
                then gpt0\<lparr>primary_header := repair_header1 gpt0,
                          modified := modified gpt0 OR GPT_MODIFIED_HEADER1\<rparr>
                else gpt0);
         gpt = gpt\<lparr>valid_headers := MASK_BOTH\<rparr>;
         header1 = hdr (primary_header gpt);
         entries_size = unat (size_of_entry header1 * number_of_entries header1);
         gpt = (if valid_entries gpt = MASK_PRIMARY
                then gpt\<lparr>secondary_entries :=
                            overlay 0 (seg 0 entries_size (primary_entries gpt)) (secondary_entries gpt),
                          modified := modified gpt OR GPT_MODIFIED_ENTRIES2\<rparr>
                else if valid_entries gpt = MASK_SECONDARY
                then gpt\<lparr>primary_entries :=
                            overlay 0 (seg 0 entries_size (secondary_entries gpt)) (primary_entries gpt),
                          modified := modified gpt OR GPT_MODIFIED_ENTRIES1\<rparr>
                else gpt)
     in gpt\<lparr>valid_entries := MASK_BOTH\<rparr>)"

subsection \<open>Attribute bits\<close>

text \<open>The masks are \<open>unsigned long long\<close>; the attribute field is promoted to 64 bits and the
  result truncated to 16, and an \<open>int\<close> operand is shifted at its width and sign-extended.\<close>

abbreviation (input) "CGPT_ATTRIBUTE_SUCCESSFUL_OFFSET \<equiv> 8 :: nat"
abbreviation (input) "CGPT_ATTRIBUTE_MAX_SUCCESSFUL \<equiv> 1 :: u64"
abbreviation (input) "CGPT_ATTRIBUTE_SUCCESSFUL_MASK \<equiv> push_bit CGPT_ATTRIBUTE_SUCCESSFUL_OFFSET CGPT_ATTRIBUTE_MAX_SUCCESSFUL"
abbreviation (input) "CGPT_ATTRIBUTE_TRIES_OFFSET \<equiv> 4 :: nat"
abbreviation (input) "CGPT_ATTRIBUTE_MAX_TRIES \<equiv> 15 :: u64"
abbreviation (input) "CGPT_ATTRIBUTE_TRIES_MASK \<equiv> push_bit CGPT_ATTRIBUTE_TRIES_OFFSET CGPT_ATTRIBUTE_MAX_TRIES"
abbreviation (input) "CGPT_ATTRIBUTE_PRIORITY_OFFSET \<equiv> 0 :: nat"
abbreviation (input) "CGPT_ATTRIBUTE_MAX_PRIORITY \<equiv> 15 :: u64"
abbreviation (input) "CGPT_ATTRIBUTE_PRIORITY_MASK \<equiv> push_bit CGPT_ATTRIBUTE_PRIORITY_OFFSET CGPT_ATTRIBUTE_MAX_PRIORITY"

definition attr_get :: "u64 \<Rightarrow> nat \<Rightarrow> GptEntry \<Rightarrow> nat" where
  "attr_get msk off e = unat (drop_bit off ((ucast (gpt_att e) :: u64) AND msk))"

definition attr_clear :: "u64 \<Rightarrow> GptEntry \<Rightarrow> GptEntry" where
  "attr_clear msk e = e\<lparr>gpt_att := ucast ((ucast (gpt_att e) :: u64) AND NOT msk)\<rparr>"

definition attr_or :: "u64 \<Rightarrow> GptEntry \<Rightarrow> GptEntry" where
  "attr_or v e = e\<lparr>gpt_att := ucast ((ucast (gpt_att e) :: u64) OR v)\<rparr>"

definition GetEntrySuccessful :: "GptEntry \<Rightarrow> nat" where
  "GetEntrySuccessful = attr_get CGPT_ATTRIBUTE_SUCCESSFUL_MASK CGPT_ATTRIBUTE_SUCCESSFUL_OFFSET"

definition GetEntryPriority :: "GptEntry \<Rightarrow> nat" where
  "GetEntryPriority = attr_get CGPT_ATTRIBUTE_PRIORITY_MASK CGPT_ATTRIBUTE_PRIORITY_OFFSET"

definition GetEntryTries :: "GptEntry \<Rightarrow> nat" where
  "GetEntryTries = attr_get CGPT_ATTRIBUTE_TRIES_MASK CGPT_ATTRIBUTE_TRIES_OFFSET"

definition SetEntrySuccessful :: "GptEntry \<Rightarrow> u32 \<Rightarrow> GptEntry" where
  "SetEntrySuccessful e successful =
    (if successful \<noteq> 0 then attr_or CGPT_ATTRIBUTE_SUCCESSFUL_MASK e
     else attr_clear CGPT_ATTRIBUTE_SUCCESSFUL_MASK e)"

definition SetEntryPriority :: "GptEntry \<Rightarrow> u32 \<Rightarrow> GptEntry" where
  "SetEntryPriority e priority =
    attr_or (scast (push_bit CGPT_ATTRIBUTE_PRIORITY_OFFSET priority) AND CGPT_ATTRIBUTE_PRIORITY_MASK)
      (attr_clear CGPT_ATTRIBUTE_PRIORITY_MASK e)"

definition SetEntryTries :: "GptEntry \<Rightarrow> u32 \<Rightarrow> GptEntry" where
  "SetEntryTries e tries =
    attr_or (scast (push_bit CGPT_ATTRIBUTE_TRIES_OFFSET tries) AND CGPT_ATTRIBUTE_TRIES_MASK)
      (attr_clear CGPT_ATTRIBUTE_TRIES_MASK e)"

text \<open>The 16 bytes that \<open>GetCurrentKernelUniqueGuid\<close> copies to \<open>dest\<close>; \<open>None\<close> where
  \<open>entries + current_kernel\<close> lies outside the table (the index is -1 when no kernel was found).\<close>

definition GetCurrentKernelUniqueGuid :: "GptData \<Rightarrow> buffer option" where
  "GetCurrentKernelUniqueGuid gpt =
    (if 0 \<le> current_kernel gpt \<and> 128 * nat (current_kernel gpt) + 128 \<le> length (primary_entries gpt)
     then Some (enc_guid (unique (entry_at (primary_entries gpt) (128 * nat (current_kernel gpt)))))
     else None)"

fun GptErrorText :: "gpt_status \<Rightarrow> string" where
  "GptErrorText GPT_SUCCESS = ''none''"
| "GptErrorText GPT_ERROR_NO_VALID_KERNEL = ''Invalid kernel''"
| "GptErrorText GPT_ERROR_INVALID_HEADERS = ''Invalid headers''"
| "GptErrorText GPT_ERROR_INVALID_ENTRIES = ''Invalid entries''"
| "GptErrorText GPT_ERROR_INVALID_SECTOR_SIZE = ''Invalid sector size''"
| "GptErrorText GPT_ERROR_INVALID_SECTOR_NUMBER = ''Invalid sector number''"
| "GptErrorText GPT_ERROR_INVALID_UPDATE_TYPE = ''Invalid update type''"
| "GptErrorText GPT_ERROR_CRC_CORRUPTED = ''Entries' crc corrupted''"
| "GptErrorText GPT_ERROR_OUT_OF_REGION = ''Entry outside of valid region''"
| "GptErrorText GPT_ERROR_START_LBA_OVERLAP = ''Starting LBA overlaps''"
| "GptErrorText GPT_ERROR_END_LBA_OVERLAP = ''Ending LBA overlaps''"
| "GptErrorText GPT_ERROR_DUP_GUID = ''Duplicated GUID''"

subsection \<open>What the checks mean\<close>

lemma CheckParameters_success:
  "CheckParameters g = GPT_SUCCESS \<longleftrightarrow> sector_bytes g = 512 \<and> 67 \<le> drive_sectors g"
  by (auto simp: CheckParameters_def not_less)

text \<open>The specification of a valid table: every used entry lies in the usable region, and two
  different used entries neither share a block nor have the same unique GUID.\<close>

definition used_at :: "GptEntry list \<Rightarrow> nat \<Rightarrow> bool" where
  "used_at es i \<longleftrightarrow> i < length es \<and> \<not> IsUnusedEntry (es ! i)"

definition blocks :: "GptEntry \<Rightarrow> nat set" where
  "blocks e = {unat (starting_lba e) .. unat (ending_lba e)}"

definition in_region :: "GptHeader \<Rightarrow> GptEntry \<Rightarrow> bool" where
  "in_region h e \<longleftrightarrow> first_usable_lba h \<le> starting_lba e \<and> starting_lba e \<le> ending_lba e \<and>
     ending_lba e \<le> last_usable_lba h"

definition table_valid :: "GptHeader \<Rightarrow> GptEntry list \<Rightarrow> bool" where
  "table_valid h es \<longleftrightarrow>
     (\<forall>i. used_at es i \<longrightarrow> in_region h (es ! i)) \<and>
     (\<forall>i j. used_at es i \<longrightarrow> used_at es j \<longrightarrow> i \<noteq> j \<longrightarrow>
        blocks (es ! i) \<inter> blocks (es ! j) = {} \<and> \<not> GuidEqual (unique (es ! i)) (unique (es ! j)))"

text \<open>One comparison of the inner loop.\<close>

definition clash :: "GptEntry \<Rightarrow> GptEntry \<Rightarrow> bool" where
  "clash e e2 \<longleftrightarrow> starting_lba e2 \<le> starting_lba e \<and> starting_lba e \<le> ending_lba e2 \<or>
     starting_lba e2 \<le> ending_lba e \<and> ending_lba e \<le> ending_lba e2 \<or>
     GuidEqual (unique e) (unique e2)"

lemma check_others_success:
  "check_others e i i2 es = GPT_SUCCESS \<longleftrightarrow>
   (\<forall>k < length es. i2 + k \<noteq> i \<longrightarrow> \<not> IsUnusedEntry (es ! k) \<longrightarrow> \<not> clash e (es ! k))"
proof (induction es arbitrary: i2)
  case Nil
  then show ?case by simp
next
  case (Cons e2 es)
  have "check_others e i i2 (e2 # es) = GPT_SUCCESS \<longleftrightarrow>
      (i2 \<noteq> i \<longrightarrow> \<not> IsUnusedEntry e2 \<longrightarrow> \<not> clash e e2) \<and> check_others e i (Suc i2) es = GPT_SUCCESS"
    by (simp add: clash_def)
  then show ?case by (simp add: Cons.IH All_less_Suc2)
qed

lemma check_entry_list_success:
  "check_entry_list h table i es = GPT_SUCCESS \<longleftrightarrow>
   (\<forall>k < length es. \<not> IsUnusedEntry (es ! k) \<longrightarrow>
      in_region h (es ! k) \<and> check_others (es ! k) (i + k) 0 table = GPT_SUCCESS)"
proof (induction es arbitrary: i)
  case Nil
  then show ?case by simp
next
  case (Cons e es)
  have "check_entry_list h table i (e # es) = GPT_SUCCESS \<longleftrightarrow>
      (\<not> IsUnusedEntry e \<longrightarrow> in_region h e \<and> check_others e i 0 table = GPT_SUCCESS) \<and>
      check_entry_list h table (Suc i) es = GPT_SUCCESS"
    by (auto simp: in_region_def not_less split: gpt_status.splits)
  then show ?case by (simp add: Cons.IH All_less_Suc2)
qed

lemma blocks_disjoint_iff:
  assumes "starting_lba a \<le> ending_lba a" "starting_lba b \<le> ending_lba b"
  shows "blocks a \<inter> blocks b = {} \<longleftrightarrow> ending_lba a < starting_lba b \<or> ending_lba b < starting_lba a"
  using assms
  by (auto simp: blocks_def word_le_nat_alt word_less_nat_alt disjoint_iff not_le)

lemma no_clash_iff:
  assumes "starting_lba a \<le> ending_lba a" "starting_lba b \<le> ending_lba b"
  shows "\<not> clash a b \<and> \<not> clash b a \<longleftrightarrow> blocks a \<inter> blocks b = {} \<and> \<not> GuidEqual (unique a) (unique b)"
  using assms unfolding blocks_disjoint_iff [OF assms] clash_def
  by (auto simp: GuidEqual_def not_le)

lemma check_entry_list_table_valid:
  "check_entry_list h es 0 es = GPT_SUCCESS \<longleftrightarrow> table_valid h es"
proof -
  have "check_entry_list h es 0 es = GPT_SUCCESS \<longleftrightarrow>
      (\<forall>i. used_at es i \<longrightarrow> in_region h (es ! i)) \<and>
      (\<forall>i j. used_at es i \<longrightarrow> used_at es j \<longrightarrow> i \<noteq> j \<longrightarrow> \<not> clash (es ! i) (es ! j))"
    by (auto simp: check_entry_list_success check_others_success used_at_def)
  also have "\<dots> \<longleftrightarrow> table_valid h es"
  proof (cases "\<forall>i. used_at es i \<longrightarrow> in_region h (es ! i)")
    case True
    then have iff: "(\<not> clash (es ! i) (es ! j) \<and> \<not> clash (es ! j) (es ! i)) =
        (blocks (es ! i) \<inter> blocks (es ! j) = {} \<and> \<not> GuidEqual (unique (es ! i)) (unique (es ! j)))"
      if "used_at es i" "used_at es j" for i j
      using that no_clash_iff by (simp add: in_region_def)
    have "(\<forall>i j. used_at es i \<longrightarrow> used_at es j \<longrightarrow> i \<noteq> j \<longrightarrow> \<not> clash (es ! i) (es ! j)) \<longleftrightarrow>
        (\<forall>i j. used_at es i \<longrightarrow> used_at es j \<longrightarrow> i \<noteq> j \<longrightarrow>
           \<not> clash (es ! i) (es ! j) \<and> \<not> clash (es ! j) (es ! i))" by fast
    also have "\<dots> \<longleftrightarrow> (\<forall>i j. used_at es i \<longrightarrow> used_at es j \<longrightarrow> i \<noteq> j \<longrightarrow>
        blocks (es ! i) \<inter> blocks (es ! j) = {} \<and> \<not> GuidEqual (unique (es ! i)) (unique (es ! j)))"
      by (simp only: iff cong: imp_cong)
    finally show ?thesis using True by (simp only: table_valid_def)
  next
    case False
    then show ?thesis by (simp only: table_valid_def simp_thms)
  qed
  finally show ?thesis .
qed

lemma CheckEntries_success:
  "CheckEntries ent h = GPT_SUCCESS \<longleftrightarrow>
    Crc32 ent (size_of_entry h * number_of_entries h) = entries_crc32 h \<and>
    table_valid h (entries_of (unat (number_of_entries h)) ent)"
  by (simp add: CheckEntries_def Let_def check_entry_list_table_valid)

text \<open>\<open>CheckHeader\<close> split into what the two copies share, the checksum, and the place of the
  copy on the drive.\<close>

definition header_common :: "GptHeader \<Rightarrow> u64 \<Rightarrow> bool" where
  "header_common h drv \<longleftrightarrow>
     (signature h = GPT_HEADER_SIGNATURE \<or> signature h = GPT_HEADER_SIGNATURE2) \<and>
     revision h = GPT_HEADER_REVISION \<and> 92 \<le> h_size h \<and> h_size h \<le> 512 \<and> reserved_zero h = 0 \<and>
     size_of_entry h = 128 \<and> number_of_entries h = 128 \<and>
     2 + GPT_ENTRIES_SECTORS \<le> first_usable_lba h \<and>
     last_usable_lba h < drv - 1 - GPT_ENTRIES_SECTORS \<and> first_usable_lba h \<le> last_usable_lba h"

definition header_placed :: "bool \<Rightarrow> GptHeader \<Rightarrow> u64 \<Rightarrow> bool" where
  "header_placed is_secondary h drv \<longleftrightarrow>
     (if is_secondary then my_lba h = drv - 1 \<and> entries_lba h = my_lba h - GPT_ENTRIES_SECTORS
      else my_lba h = 1 \<and> entries_lba h = my_lba h + 1)"

lemma entries_count_128:
  fixes n :: u32
  assumes "32 \<le> n" "n \<le> 512" "n * 128 = 16384"
  shows "n = 128"
proof -
  have "unat n \<le> 512" using assms(2) by (simp add: word_le_nat_alt)
  then have "unat (n * 128) = unat n * 128" by (simp add: unat_word_ariths)
  with assms(3) have "unat n = 128" by simp
  then have "unat n = unat (128 :: u32)" by simp
  then show ?thesis by (simp only: word_unat_eq_iff)
qed

lemma CheckHeader_valid_iff:
  "CheckHeader b sec drv = 0 \<longleftrightarrow>
     b \<noteq> [] \<and> header_common (hdr b) drv \<and> HeaderCrc b = header_crc32 (hdr b) \<and> header_placed sec (hdr b) drv"
proof -
  have "(\<not> n < 32 \<and> \<not> 512 < n \<and> n * 128 = TOTAL_ENTRIES_SIZE) = (n = 128)" for n :: u32
    using entries_count_128 [of n] by (auto simp: not_less)
  then show ?thesis
    unfolding CheckHeader_def header_common_def header_placed_def Let_def
    by (simp add: not_less not_le) (auto simp: not_less not_le)
qed

subsection \<open>The attribute fields are independent\<close>

lemma attr_get_or_clear_same:
  assumes "msk = msk AND 0xffff"
  shows "attr_get msk off (attr_or (v AND msk) (attr_clear msk e)) = unat (drop_bit off (v AND msk))"
proof -
  have m: "0xffff = (mask 16 :: u64)" by (simp add: mask_eq_exp_minus_1)
  have "\<And>n. bit msk n \<Longrightarrow> n < 16" using arg_cong [OF assms, of "\<lambda>w. bit w _"] unfolding m bit_and_iff bit_mask_iff by auto
  then have "ucast (ucast ((ucast (ucast (ucast (gpt_att e) AND NOT msk :: u64) :: u16) :: u64) OR (v AND msk)) :: u16) AND msk = v AND msk"
    by (intro bit_word_eqI) (auto simp: bit_and_iff bit_or_iff bit_not_iff bit_ucast_iff dest: bit_imp_le_length)
  then show ?thesis by (simp add: attr_get_def attr_or_def attr_clear_def)
qed

lemma attr_get_or_clear_other:
  assumes "msk AND m2 = 0"
  shows "attr_get m2 off (attr_or (v AND msk) (attr_clear msk e)) = attr_get m2 off e"
proof -
  have "\<And>n. \<not> (bit msk n \<and> bit m2 n)" using arg_cong [OF assms, of "\<lambda>w. bit w _"] by (auto simp: bit_and_iff)
  then have "ucast (ucast ((ucast (ucast (ucast (gpt_att e) AND NOT msk :: u64) :: u16) :: u64) OR (v AND msk)) :: u16) AND m2 = ucast (gpt_att e) AND m2"
    by (intro bit_word_eqI) (auto simp: bit_and_iff bit_or_iff bit_not_iff bit_ucast_iff dest: bit_imp_le_length)
  then show ?thesis by (simp add: attr_get_def attr_or_def attr_clear_def)
qed

lemma SetEntrySuccessful_alt:
  "SetEntrySuccessful e s =
    attr_or ((if s \<noteq> 0 then CGPT_ATTRIBUTE_SUCCESSFUL_MASK else 0) AND CGPT_ATTRIBUTE_SUCCESSFUL_MASK)
      (attr_clear CGPT_ATTRIBUTE_SUCCESSFUL_MASK e)"
proof -
  have "ucast ((ucast a :: u64) OR m) = (ucast ((ucast (ucast ((ucast a :: u64) AND NOT m) :: u16) :: u64) OR m) :: u16)"
    "ucast ((ucast (ucast ((ucast a :: u64) AND NOT m) :: u16) :: u64)) = (ucast ((ucast a :: u64) AND NOT m) :: u16)"
    for a :: u16 and m :: u64
    by (intro bit_word_eqI; auto simp: bit_and_iff bit_or_iff bit_not_iff bit_ucast_iff dest: bit_imp_le_length)+
  from this [of "gpt_att e" CGPT_ATTRIBUTE_SUCCESSFUL_MASK] show ?thesis
    by (simp add: SetEntrySuccessful_def attr_or_def attr_clear_def)
qed

lemma low_nibble_mod: "unat (p AND 15 :: u32) = unat p mod 16"
proof -
  have "(15::u32) = mask 4" by (simp add: mask_eq_exp_minus_1)
  then have "unat (p AND 15) = unat (take_bit 4 p)" by (simp only: take_bit_eq_mask)
  then show ?thesis by (simp add: take_bit_eq_mod unat_mod)
qed

lemma scast_and_15: "unat (scast p AND (15 :: u64)) = unat p mod 16" for p :: u32
proof -
  have m: "(15 :: u64) = mask 4" "(15::u32) = mask 4" by (simp_all add: mask_eq_exp_minus_1)
  have "scast p AND (15 :: u64) = ucast (p AND 15)"
    unfolding m by (rule bit_word_eqI) (auto simp: bit_and_iff bit_mask_iff bit_ucast_iff bit_signed_iff)
  then show ?thesis by (simp add: unsigned_ucast_eq low_nibble_mod take_bit_nat_eq_self_iff)
qed

lemma scast_shift_and: "drop_bit 4 (scast (push_bit 4 t) AND push_bit 4 (15 :: u64)) = scast t AND 15" for t :: u32
proof -
  have m: "(15 :: u64) = mask 4" by (simp add: mask_eq_exp_minus_1)
  show ?thesis unfolding m
    by (rule bit_word_eqI)
      (auto simp: bit_drop_bit_eq bit_and_iff bit_push_bit_iff bit_mask_iff bit_signed_iff min_def)
qed

text \<open>The priority (bits 0-3), tries (bits 4-7) and successful (bit 8) setters write
  their own field only: reading a field back gives the value written, cut to the width of the
  field, and the other two fields keep their values.\<close>

theorem attribute_fields_independent:
  "GetEntryPriority (SetEntryPriority e p) = unat p mod 16 \<and>
   GetEntryTries (SetEntryPriority e p) = GetEntryTries e \<and>
   GetEntrySuccessful (SetEntryPriority e p) = GetEntrySuccessful e \<and>
   GetEntryTries (SetEntryTries e t) = unat t mod 16 \<and>
   GetEntryPriority (SetEntryTries e t) = GetEntryPriority e \<and>
   GetEntrySuccessful (SetEntryTries e t) = GetEntrySuccessful e \<and>
   GetEntrySuccessful (SetEntrySuccessful e s) = (if s = 0 then 0 else 1) \<and>
   GetEntryPriority (SetEntrySuccessful e s) = GetEntryPriority e \<and>
   GetEntryTries (SetEntrySuccessful e s) = GetEntryTries e"
  unfolding SetEntrySuccessful_alt SetEntryPriority_def SetEntryTries_def
    GetEntrySuccessful_def GetEntryPriority_def GetEntryTries_def
  using scast_and_15 [of p] scast_and_15 [of t] scast_shift_and [of t]
  by (simp add: attr_get_or_clear_same attr_get_or_clear_other)

text \<open>C7: \<open>CheckEntries\<close> accepts a table exactly when its checksum matches the header and the
  table is valid: every used entry lies between the first and the last usable block with its start
  not after its end, no two used entries have a block in common, and no two have the same unique
  GUID. In particular the pairwise comparison of end points in the inner loop misses no overlap.\<close>

theorem CheckEntries_correct:
  "CheckEntries ent h = GPT_SUCCESS \<longleftrightarrow>
    Crc32 ent (size_of_entry h * number_of_entries h) = entries_crc32 h \<and>
    table_valid h (entries_of (unat (number_of_entries h)) ent)"
  by (rule CheckEntries_success)

end
