(* ===== verification/Gpt_Repair.thy ===== *)
theory Gpt_Repair
  imports Gpt_Check
begin

text \<open>
  What \<open>GptSanityCheck\<close> establishes and what \<open>GptRepair\<close> makes of it: after a successful
  check, the repair leaves a drive image on which the check succeeds again with both headers and
  both tables valid, and no valid copy has been touched.
\<close>

unbundle bit_operations_syntax

subsection \<open>The sanity check and the repair\<close>

text \<open>The buffers that \<open>DriveOpen\<close> allocates.\<close>

definition gpt_shape :: "GptData \<Rightarrow> bool" where
  "gpt_shape g \<longleftrightarrow> length (primary_header g) = unat (sector_bytes g) \<and>
     length (secondary_header g) = unat (sector_bytes g) \<and>
     length (primary_entries g) = 32 * unat (sector_bytes g) \<and>
     length (secondary_entries g) = 32 * unat (sector_bytes g)"

text \<open>The header that the entry tables are checked against, given the mask of valid headers.\<close>

definition good_header :: "GptData \<Rightarrow> GptHeader" where
  "good_header g = (if valid_headers g AND MASK_PRIMARY \<noteq> 0 then hdr (primary_header g)
                    else hdr (secondary_header g))"

text \<open>The masks of \<open>g\<close> are sound: at least one header and one table are marked, whatever is
  marked passes its check, and two marked headers agree.\<close>

definition valid_copies :: "GptData \<Rightarrow> bool" where
  "valid_copies g \<longleftrightarrow>
     valid_headers g \<in> {MASK_PRIMARY, MASK_SECONDARY, MASK_BOTH} \<and>
     valid_entries g \<in> {MASK_PRIMARY, MASK_SECONDARY, MASK_BOTH} \<and>
     (valid_headers g AND MASK_PRIMARY \<noteq> 0 \<longrightarrow> CheckHeader (primary_header g) False (drive_sectors g) = 0) \<and>
     (valid_headers g AND MASK_SECONDARY \<noteq> 0 \<longrightarrow> CheckHeader (secondary_header g) True (drive_sectors g) = 0) \<and>
     (valid_entries g AND MASK_PRIMARY \<noteq> 0 \<longrightarrow> CheckEntries (primary_entries g) (good_header g) = GPT_SUCCESS) \<and>
     (valid_entries g AND MASK_SECONDARY \<noteq> 0 \<longrightarrow> CheckEntries (secondary_entries g) (good_header g) = GPT_SUCCESS) \<and>
     (valid_headers g = MASK_BOTH \<longrightarrow> HeaderFieldsSame (hdr (primary_header g)) (hdr (secondary_header g)) = 0)"

text \<open>Both copies are valid and agree.\<close>

definition gpt_ok :: "GptData \<Rightarrow> bool" where
  "gpt_ok g \<longleftrightarrow> CheckParameters g = GPT_SUCCESS \<and>
     CheckHeader (primary_header g) False (drive_sectors g) = 0 \<and>
     CheckHeader (secondary_header g) True (drive_sectors g) = 0 \<and>
     HeaderFieldsSame (hdr (primary_header g)) (hdr (secondary_header g)) = 0 \<and>
     CheckEntries (primary_entries g) (hdr (primary_header g)) = GPT_SUCCESS \<and>
     CheckEntries (secondary_entries g) (hdr (primary_header g)) = GPT_SUCCESS"

lemma mask_cases: "(if p then MASK_PRIMARY else 0) OR (if q then MASK_SECONDARY else 0) =
    (if p then if q then MASK_BOTH else MASK_PRIMARY else if q then MASK_SECONDARY else 0)"
  by simp

lemma GptSanityCheck_sound:
  assumes "GptSanityCheck g = (g', GPT_SUCCESS)"
  shows "valid_copies g' \<and> CheckParameters g' = GPT_SUCCESS \<and>
     g' = g\<lparr>valid_headers := valid_headers g', valid_entries := valid_entries g'\<rparr>"
proof -
  define p1 where "p1 \<longleftrightarrow> CheckHeader (primary_header g) False (drive_sectors g) = 0"
  define p2 where "p2 \<longleftrightarrow> CheckHeader (secondary_header g) True (drive_sectors g) = 0"
  define e where "e a h \<longleftrightarrow> CheckEntries (if a then primary_entries g else secondary_entries g) h = GPT_SUCCESS" for a h
  have e: "CheckEntries (primary_entries g) h = GPT_SUCCESS \<longleftrightarrow> e True h"
       "CheckEntries (secondary_entries g) h = GPT_SUCCESS \<longleftrightarrow> e False h" for h
    by (simp_all add: e_def)
  have par: "CheckParameters g = GPT_SUCCESS"
    using assms by (auto simp: GptSanityCheck_def Let_def CheckParameters_def split: if_splits)
  show ?thesis
    using assms par
    unfolding GptSanityCheck_def Let_def headers_mask_def entries_mask_def mask_cases
      valid_copies_def good_header_def
    by (cases p1; cases p2)
      (auto simp: p1_def [symmetric] p2_def [symmetric] e CheckParameters_success split: if_splits)
qed

lemma GptSanityCheck_ok: "gpt_ok g \<Longrightarrow>
    GptSanityCheck g = (g\<lparr>valid_headers := MASK_BOTH, valid_entries := MASK_BOTH\<rparr>, GPT_SUCCESS)"
  by (simp add: gpt_ok_def GptSanityCheck_def Let_def headers_mask_def entries_mask_def CheckParameters_success)

lemma header_wf_upd [simp]:
  "header_wf (h\<lparr>header_crc32 := c\<rparr>) = header_wf h" "header_wf (h\<lparr>my_lba := a\<rparr>) = header_wf h"
  "header_wf (h\<lparr>alternate_lba := a\<rparr>) = header_wf h" "header_wf (h\<lparr>entries_lba := a\<rparr>) = header_wf h"
  "header_wf (h\<lparr>entries_crc32 := c\<rparr>) = header_wf h"
  by (simp_all add: header_wf_def)

lemma header_wf_hdr [simp]: "92 \<le> length b \<Longrightarrow> header_wf (hdr b)"
  by (simp add: header.wf_get)

lemma hdr_put_hdr [simp]: "header_wf h \<Longrightarrow> 92 \<le> length b \<Longrightarrow> hdr (put_hdr h b) = h"
  by (simp add: header.get_put_same)

lemma length_put_hdr [simp]: "header_wf h \<Longrightarrow> 92 \<le> length b \<Longrightarrow> length (put_hdr h b) = length b"
  by (simp add: header.length_put)

lemma put_hdr_put_hdr [simp]:
  "header_wf h \<Longrightarrow> header_wf h' \<Longrightarrow> 92 \<le> length b \<Longrightarrow> put_hdr h (put_hdr h' b) = put_hdr h b"
  by (simp add: header.put_put)

lemma HeaderCrc_crc_field [simp]:
  "header_wf h \<Longrightarrow> 92 \<le> length b \<Longrightarrow>
   HeaderCrc (put_hdr (h\<lparr>header_crc32 := c\<rparr>) b) = HeaderCrc (put_hdr h b)"
  by (simp add: HeaderCrc_def)

text \<open>Storing the freshly computed checksum makes the checksum of a header right, whatever the
  header's \<open>size\<close> field is.\<close>

lemma set_header_crc_put:
  assumes "header_wf h" "92 \<le> length b"
  shows "hdr (set_header_crc (put_hdr h b)) = h\<lparr>header_crc32 := HeaderCrc (put_hdr h b)\<rparr>"
    and "length (set_header_crc (put_hdr h b)) = length b"
    and "HeaderCrc (set_header_crc (put_hdr h b)) = HeaderCrc (put_hdr h b)"
  using assms by (simp_all add: set_header_crc_def)

lemma CheckHeader_set_header_crc:
  assumes "header_wf h" "92 \<le> length b" "header_common h drv" "header_placed sec h drv"
  shows "CheckHeader (set_header_crc (put_hdr h b)) sec drv = 0"
proof -
  have "set_header_crc (put_hdr h b) \<noteq> []"
    using set_header_crc_put(2) [OF assms(1,2)] assms(2) by auto
  then show ?thesis
    unfolding CheckHeader_valid_iff set_header_crc_put(1) [OF assms(1,2)] set_header_crc_put(3) [OF assms(1,2)]
    using assms(3,4) by (simp add: header_common_def header_placed_def)
qed

lemma put_hdr_overlay:
  assumes "92 \<le> length a" "92 \<le> length b" "header_wf h"
  shows "put_hdr h (overlay 0 (seg 0 92 a) b) = put_hdr h b"
  using assms by (simp add: put_at_def header.length_enc)

lemma hdr_overlay_header:
  "92 \<le> length a \<Longrightarrow> 92 \<le> length b \<Longrightarrow> hdr (overlay 0 (seg 0 92 a) b) = hdr a"
  by (simp add: get_at_def)

lemma repair_header2_eq:
  assumes "92 \<le> length (primary_header g)" "92 \<le> length (secondary_header g)"
  shows "repair_header2 g = set_header_crc (put_hdr ((hdr (primary_header g))
     \<lparr>my_lba := drive_sectors g - 1, alternate_lba := 1,
      entries_lba := drive_sectors g - 1 - GPT_ENTRIES_SECTORS\<rparr>) (secondary_header g))"
  using assms by (simp add: repair_header2_def hdr_overlay_header put_hdr_overlay)

lemma repair_header1_eq:
  assumes "92 \<le> length (primary_header g)" "92 \<le> length (secondary_header g)"
  shows "repair_header1 g = set_header_crc (put_hdr ((hdr (secondary_header g))
     \<lparr>my_lba := 1, alternate_lba := drive_sectors g - 1, entries_lba := 2\<rparr>) (primary_header g))"
  using assms by (simp add: repair_header1_def hdr_overlay_header put_hdr_overlay)

lemma repair_header2_valid:
  assumes "92 \<le> length (primary_header g)" "92 \<le> length (secondary_header g)"
    and "CheckHeader (primary_header g) False (drive_sectors g) = 0"
  shows "CheckHeader (repair_header2 g) True (drive_sectors g) = 0"
    and "HeaderFieldsSame (hdr (primary_header g)) (hdr (repair_header2 g)) = 0"
    and "length (repair_header2 g) = length (secondary_header g)"
proof -
  show "CheckHeader (repair_header2 g) True (drive_sectors g) = 0"
    unfolding repair_header2_eq [OF assms(1,2)]
    by (rule CheckHeader_set_header_crc)
      (use assms in \<open>simp_all add: CheckHeader_valid_iff header_common_def header_placed_def\<close>)
qed (use assms in \<open>simp_all add: repair_header2_eq set_header_crc_put HeaderFieldsSame_def\<close>)

lemma repair_header1_valid:
  assumes "92 \<le> length (primary_header g)" "92 \<le> length (secondary_header g)"
    and "CheckHeader (secondary_header g) True (drive_sectors g) = 0"
  shows "CheckHeader (repair_header1 g) False (drive_sectors g) = 0"
    and "HeaderFieldsSame (hdr (repair_header1 g)) (hdr (secondary_header g)) = 0"
    and "length (repair_header1 g) = length (primary_header g)"
proof -
  show "CheckHeader (repair_header1 g) False (drive_sectors g) = 0"
    unfolding repair_header1_eq [OF assms(1,2)]
    by (rule CheckHeader_set_header_crc)
      (use assms in \<open>simp_all add: CheckHeader_valid_iff header_common_def header_placed_def\<close>)
qed (use assms in \<open>simp_all add: repair_header1_eq set_header_crc_put HeaderFieldsSame_def\<close>)

lemma HeaderFieldsSame_iff:
  "HeaderFieldsSame h1 h2 = 0 \<longleftrightarrow> signature h1 = signature h2 \<and> revision h1 = revision h2 \<and>
     h_size h1 = h_size h2 \<and> reserved_zero h1 = reserved_zero h2 \<and>
     first_usable_lba h1 = first_usable_lba h2 \<and> last_usable_lba h1 = last_usable_lba h2 \<and>
     GuidEqual (disk_uuid h1) (disk_uuid h2) \<and> number_of_entries h1 = number_of_entries h2 \<and>
     size_of_entry h1 = size_of_entry h2 \<and> entries_crc32 h1 = entries_crc32 h2"
  by (simp add: HeaderFieldsSame_def)

text \<open>The table check reads five fields of the header only, which \<open>HeaderFieldsSame\<close> covers.\<close>

lemma CheckEntries_cong:
  assumes "first_usable_lba h1 = first_usable_lba h2" "last_usable_lba h1 = last_usable_lba h2"
    "number_of_entries h1 = number_of_entries h2" "size_of_entry h1 = size_of_entry h2"
    "entries_crc32 h1 = entries_crc32 h2"
  shows "CheckEntries ent h1 = CheckEntries ent h2"
proof -
  have "check_entry_list h1 t i es = check_entry_list h2 t i es" for t i es
    by (induction es arbitrary: i) (auto simp: assms split: gpt_status.splits)
  then show ?thesis using assms by (simp add: CheckEntries_def)
qed

lemma CheckEntries_same: "HeaderFieldsSame h1 h2 = 0 \<Longrightarrow> CheckEntries ent h1 = CheckEntries ent h2"
  by (auto simp: HeaderFieldsSame_iff intro: CheckEntries_cong)

text \<open>The two steps of \<open>GptRepair\<close>.\<close>

definition repair_headers :: "GptData \<Rightarrow> GptData" where
  "repair_headers g =
    (if valid_headers g = MASK_PRIMARY
     then g\<lparr>secondary_header := repair_header2 g, modified := modified g OR GPT_MODIFIED_HEADER2\<rparr>
     else if valid_headers g = MASK_SECONDARY
     then g\<lparr>primary_header := repair_header1 g, modified := modified g OR GPT_MODIFIED_HEADER1\<rparr>
     else g)\<lparr>valid_headers := MASK_BOTH\<rparr>"

lemma repair_headers_frame [simp]:
  "primary_entries (repair_headers g) = primary_entries g"
  "secondary_entries (repair_headers g) = secondary_entries g"
  "sector_bytes (repair_headers g) = sector_bytes g" "drive_sectors (repair_headers g) = drive_sectors g"
  "valid_entries (repair_headers g) = valid_entries g" "valid_headers (repair_headers g) = MASK_BOTH"
  by (simp_all add: repair_headers_def)

lemma repair_headers_ok:
  assumes shape: "gpt_shape g" and v: "valid_copies g" and par: "CheckParameters g = GPT_SUCCESS"
  defines "g' \<equiv> repair_headers g"
  shows "CheckHeader (primary_header g') False (drive_sectors g) = 0"
    and "CheckHeader (secondary_header g') True (drive_sectors g) = 0"
    and "HeaderFieldsSame (hdr (primary_header g')) (hdr (secondary_header g')) = 0"
    and "CheckEntries ent (hdr (primary_header g')) = CheckEntries ent (good_header g)"
    and "length (primary_header g') = 512 \<and> length (secondary_header g') = 512"
proof -
  have len: "length (primary_header g) = 512" "length (secondary_header g) = 512"
    using shape par by (simp_all add: gpt_shape_def CheckParameters_success)
  consider (p) "valid_headers g = MASK_PRIMARY" | (s) "valid_headers g = MASK_SECONDARY"
    | (b) "valid_headers g = MASK_BOTH" using v by (auto simp: valid_copies_def)
  note cases = this
  have p: "CheckHeader (primary_header g) False (drive_sectors g) = 0"
    if "valid_headers g = MASK_PRIMARY \<or> valid_headers g = MASK_BOTH" using v that by (auto simp: valid_copies_def)
  have s: "CheckHeader (secondary_header g) True (drive_sectors g) = 0"
    if "valid_headers g = MASK_SECONDARY \<or> valid_headers g = MASK_BOTH" using v that by (auto simp: valid_copies_def)
  note r = repair_header2_valid [of g] repair_header1_valid [of g] len p s g'_def repair_headers_def
  show "CheckHeader (primary_header g') False (drive_sectors g) = 0" by (cases rule: cases) (simp_all add: r)
  show "CheckHeader (secondary_header g') True (drive_sectors g) = 0" by (cases rule: cases) (simp_all add: r)
  show "HeaderFieldsSame (hdr (primary_header g')) (hdr (secondary_header g')) = 0"
    by (cases rule: cases) (use v in \<open>simp_all add: r valid_copies_def\<close>)
  show "CheckEntries ent (hdr (primary_header g')) = CheckEntries ent (good_header g)"
  proof (cases rule: cases)
    case s
    then show ?thesis using CheckEntries_same r by (simp add: good_header_def)
  qed (simp_all add: good_header_def r)
  show "length (primary_header g') = 512 \<and> length (secondary_header g') = 512"
    by (cases rule: cases) (simp_all add: r)
qed

lemma repair_eq_headers:
  assumes "valid_copies g"
  shows "GptRepair g =
    (let g' = repair_headers g;
         n = unat (size_of_entry (hdr (primary_header g')) * number_of_entries (hdr (primary_header g')))
     in (if valid_entries g = MASK_PRIMARY
         then g'\<lparr>secondary_entries := overlay 0 (seg 0 n (primary_entries g)) (secondary_entries g),
                  modified := modified g' OR GPT_MODIFIED_ENTRIES2\<rparr>
         else if valid_entries g = MASK_SECONDARY
         then g'\<lparr>primary_entries := overlay 0 (seg 0 n (secondary_entries g)) (primary_entries g),
                  modified := modified g' OR GPT_MODIFIED_ENTRIES1\<rparr>
         else g')\<lparr>valid_entries := MASK_BOTH\<rparr>)"
proof -
  have "valid_headers g \<noteq> 0" "valid_entries g \<noteq> 0" using assms by (auto simp: valid_copies_def)
  then show ?thesis
    by (cases "valid_headers g = MASK_PRIMARY"; cases "valid_headers g = MASK_SECONDARY")
      (simp_all add: GptRepair_def repair_headers_def Let_def)
qed

lemma GptRepair_entries:
  assumes shape: "gpt_shape g" and v: "valid_copies g" and par: "CheckParameters g = GPT_SUCCESS"
  shows "GptRepair g =
    (let g' = repair_headers g in
     (if valid_entries g = MASK_PRIMARY
      then g'\<lparr>secondary_entries := primary_entries g, modified := modified g' OR GPT_MODIFIED_ENTRIES2\<rparr>
      else if valid_entries g = MASK_SECONDARY
      then g'\<lparr>primary_entries := secondary_entries g, modified := modified g' OR GPT_MODIFIED_ENTRIES1\<rparr>
      else g')\<lparr>valid_entries := MASK_BOTH\<rparr>)"
proof -
  have "header_common (hdr (primary_header (repair_headers g))) (drive_sectors g)"
    using repair_headers_ok(1) [OF assms] by (simp add: CheckHeader_valid_iff)
  then have n: "unat (size_of_entry (hdr (primary_header (repair_headers g))) *
      number_of_entries (hdr (primary_header (repair_headers g)))) = 16384"
    by (simp add: header_common_def)
  have len: "length (primary_entries g) = 16384" "length (secondary_entries g) = 16384"
    using shape par by (simp_all add: gpt_shape_def CheckParameters_success)
  show ?thesis unfolding repair_eq_headers [OF v] Let_def n
    using len by (simp add: overlay_all)
qed

lemma GptRepair_ok:
  assumes "gpt_shape g" "valid_copies g" "CheckParameters g = GPT_SUCCESS"
  shows "gpt_ok (GptRepair g)"
proof -
  note h = repair_headers_ok [OF assms]
  have e: "valid_entries g = MASK_PRIMARY \<and> CheckEntries (primary_entries g) (good_header g) = GPT_SUCCESS \<or>
      valid_entries g = MASK_SECONDARY \<and> CheckEntries (secondary_entries g) (good_header g) = GPT_SUCCESS \<or>
      valid_entries g = MASK_BOTH \<and> CheckEntries (primary_entries g) (good_header g) = GPT_SUCCESS \<and>
      CheckEntries (secondary_entries g) (good_header g) = GPT_SUCCESS"
    using assms(2) by (auto simp: valid_copies_def)
  have par: "sector_bytes g = 512" "67 \<le> drive_sectors g"
    using assms(3) by (simp_all add: CheckParameters_success)
  define g' where "g' = repair_headers g"
  note r = GptRepair_entries [OF assms, folded g'_def]
  have eq: "primary_entries g' = primary_entries g" "secondary_entries g' = secondary_entries g"
    "sector_bytes g' = 512" "drive_sectors g' = drive_sectors g"
    using par by (simp_all add: g'_def)
  note h = h [folded g'_def]
  consider (p) "valid_entries g = MASK_PRIMARY" "CheckEntries (primary_entries g) (good_header g) = GPT_SUCCESS"
    | (s) "valid_entries g = MASK_SECONDARY" "CheckEntries (secondary_entries g) (good_header g) = GPT_SUCCESS"
    | (b) "valid_entries g = MASK_BOTH" "CheckEntries (primary_entries g) (good_header g) = GPT_SUCCESS"
      "CheckEntries (secondary_entries g) (good_header g) = GPT_SUCCESS"
    using e by blast
  then show ?thesis
  proof cases
    case p
    then show ?thesis unfolding r by (simp add: Let_def gpt_ok_def CheckParameters_success eq par h)
  next
    case s
    then show ?thesis unfolding r by (simp add: Let_def gpt_ok_def CheckParameters_success eq par h)
  next
    case b
    then show ?thesis unfolding r by (simp add: Let_def gpt_ok_def CheckParameters_success eq par h)
  qed
qed

subsection \<open>A drive with an empty table\<close>

text \<open>A concrete image for the examples below: the primary header of an empty table of 128 unused
  entries on a drive of \<open>n\<close> sectors, and the state that \<open>GptRepair\<close> would build from it.\<close>

definition blank_header :: "u64 \<Rightarrow> GptHeader" where
  "blank_header n = \<lparr>signature = GPT_HEADER_SIGNATURE, revision = GPT_HEADER_REVISION, h_size = 92,
     header_crc32 = 0, reserved_zero = 0, my_lba = 1, alternate_lba = n - 1, first_usable_lba = 34,
     last_usable_lba = n - 34, disk_uuid = guid_linux_data, entries_lba = 2, number_of_entries = 128,
     size_of_entry = 128, entries_crc32 = Crc32 (replicate 16384 0) TOTAL_ENTRIES_SIZE\<rparr>"

definition damaged_gpt :: "u64 \<Rightarrow> GptData" where
  "damaged_gpt n = \<lparr>primary_header = set_header_crc (put_hdr (blank_header n) (replicate 512 0)),
     secondary_header = replicate 512 0, primary_entries = replicate 16384 0,
     secondary_entries = replicate 16384 0, sector_bytes = 512, drive_sectors = n, modified = 0,
     current_kernel = -1, valid_headers = 0, valid_entries = 0, current_priority = 0\<rparr>"

lemma seg_replicate: "off + n \<le> m \<Longrightarrow> seg off n (replicate m x) = replicate n x"
  by (simp add: seg_def)

lemma not_replicate_0: "hd xs \<noteq> 0 \<Longrightarrow> replicate 8 (0 :: byte) \<noteq> xs"
  by auto

lemma dec_guid_zero: "dec_guid (replicate 16 0) = guid_unused"
  by (metis enc_guid_unused guid.dec_enc guid_wf_consts(1))

lemma unused_zero_entry: "128 * i + 128 \<le> m \<Longrightarrow> IsUnusedEntry (entry_at (replicate m 0) (128 * i))"
  by (simp add: IsUnusedEntry_def entry_at_def get_at_def dec_entry_def seg_replicate dec_guid_zero)

lemma table_valid_zero: "128 * n \<le> m \<Longrightarrow> table_valid h (entries_of n (replicate m 0))"
proof -
  assume "128 * n \<le> m"
  then have "\<not> used_at (entries_of n (replicate m 0)) i" for i
    by (auto simp: used_at_def unused_zero_entry)
  then show ?thesis by (simp add: table_valid_def)
qed

lemma header_wf_blank [simp]: "header_wf (blank_header n)"
  by (simp add: header_wf_def blank_header_def)

lemma unat_minus_le: "m \<le> n \<Longrightarrow> unat (n - m) = unat n - unat (m :: 'a::len word)"
  by (simp add: unat_sub)

lemma drive_room:
  assumes "68 \<le> (n :: u64)"
  shows "34 \<le> n - 34" "n - 34 < n - 33"
proof -
  have n: "68 \<le> unat n" using assms by (simp add: word_le_nat_alt)
  then have "unat (n - 34) = unat n - 34" "unat (n - 33) = unat n - 33"
    by (simp_all add: unat_minus_le word_le_nat_alt)
  with n show "34 \<le> n - 34" "n - 34 < n - 33" by (simp_all add: word_le_nat_alt word_less_nat_alt)
qed

lemma blank_header_common: "68 \<le> n \<Longrightarrow> header_common (blank_header n) n"
  using drive_room [of n] by (simp add: header_common_def blank_header_def)

lemma CheckEntries_blank:
  assumes "length ent = 16384" "ent = replicate 16384 0"
    "h = (blank_header n)\<lparr>header_crc32 := c\<rparr>"
  shows "CheckEntries ent h = GPT_SUCCESS"
proof -
  have "table_valid h (entries_of 128 (replicate 16384 0))" by (rule table_valid_zero) simp
  then show ?thesis using assms by (simp add: CheckEntries_success blank_header_def)
qed

lemma damaged_gpt_check:
  assumes "68 \<le> n"
  shows "GptSanityCheck (damaged_gpt n) =
    ((damaged_gpt n)\<lparr>valid_headers := MASK_PRIMARY, valid_entries := MASK_BOTH\<rparr>, GPT_SUCCESS)"
proof -
  have placed: "header_placed False (blank_header n) n" by (simp add: header_placed_def blank_header_def)
  have h1: "CheckHeader (primary_header (damaged_gpt n)) False n = 0"
    using CheckHeader_set_header_crc [OF header_wf_blank _ blank_header_common [OF assms] placed,
        of "replicate 512 0"] by (simp add: damaged_gpt_def)
  have "hdr (replicate 512 0) = hdr (secondary_header (damaged_gpt n))" by (simp add: damaged_gpt_def)
  moreover have "signature (hdr (replicate 512 0)) = replicate 8 0"
    by (simp add: get_at_def dec_header_def seg_replicate)
  moreover have "replicate 8 0 \<noteq> GPT_HEADER_SIGNATURE" "replicate 8 0 \<noteq> GPT_HEADER_SIGNATURE2"
    by (rule not_replicate_0, simp add: GPT_HEADER_SIGNATURE_def,
        rule not_replicate_0, simp add: GPT_HEADER_SIGNATURE2_def)
  ultimately have h2: "CheckHeader (secondary_header (damaged_gpt n)) True n \<noteq> 0"
    unfolding CheckHeader_valid_iff header_common_def by metis
  have "hdr (primary_header (damaged_gpt n)) =
      (blank_header n)\<lparr>header_crc32 := HeaderCrc (put_hdr (blank_header n) (replicate 512 0))\<rparr>"
    by (simp add: damaged_gpt_def set_header_crc_put)
  then have e: "CheckEntries (replicate 16384 0) (hdr (primary_header (damaged_gpt n))) = GPT_SUCCESS"
    by (intro CheckEntries_blank) auto
  have f: "drive_sectors (damaged_gpt n) = n" "sector_bytes (damaged_gpt n) = 512"
    "primary_entries (damaged_gpt n) = replicate 16384 0" "secondary_entries (damaged_gpt n) = replicate 16384 0"
    by (simp_all add: damaged_gpt_def)
  show ?thesis
    using assms order_trans [of 67 68 n] h1 h2 e by (simp add: GptSanityCheck_def Let_def headers_mask_def entries_mask_def
        CheckParameters_success f)
qed

lemma damaged_gpt_shape: "gpt_shape (damaged_gpt n)"
  by (simp add: gpt_shape_def damaged_gpt_def set_header_crc_put)

subsection \<open>Properties\<close>

text \<open>C10: When \<open>GptSanityCheck\<close> succeeds, running \<open>GptRepair\<close> on the checked state
  yields a state on which \<open>GptSanityCheck\<close> succeeds with both headers and both tables
  valid, and changes nothing any more: whichever of the copies was damaged, and also for a header
  whose \<open>size\<close> field is not 92.\<close>

theorem GptRepair_restores_validity:
  assumes "gpt_shape g" "GptSanityCheck g = (g', GPT_SUCCESS)"
  shows "GptSanityCheck (GptRepair g') = (GptRepair g', GPT_SUCCESS) \<and>
         valid_headers (GptRepair g') = MASK_BOTH \<and> valid_entries (GptRepair g') = MASK_BOTH"
proof -
  note sound = GptSanityCheck_sound [OF assms(2)]
  then have "gpt_shape g'" using assms(1) by (cases g') (auto simp: gpt_shape_def)
  then have ok: "gpt_ok (GptRepair g')" using sound by (blast intro: GptRepair_ok)
  have m: "valid_headers (GptRepair g') = MASK_BOTH" "valid_entries (GptRepair g') = MASK_BOTH"
    using sound by (simp_all add: repair_eq_headers Let_def)
  then have "(GptRepair g')\<lparr>valid_headers := MASK_BOTH, valid_entries := MASK_BOTH\<rparr> = GptRepair g'"
    by (cases "GptRepair g'") simp
  with GptSanityCheck_ok [OF ok] m show ?thesis by simp
qed

theorem GptRepair_restores_validity_witness:
  "GptSanityCheck (GptRepair (fst (GptSanityCheck (damaged_gpt 100)))) =
     (GptRepair (fst (GptSanityCheck (damaged_gpt 100))), GPT_SUCCESS)"
  using GptRepair_restores_validity [OF damaged_gpt_shape, OF damaged_gpt_check [of 100]]
  by (simp add: damaged_gpt_check)

end
