(* ===== verification/Guid_Text.thy ===== *)
theory Guid_Text
  imports Gpt_Data
begin

text \<open>
  The textual GUIDs of \<open>gpt/lib/cgpt_common.c\<close>: \<open>StrToGuid\<close>, \<open>GuidToStr\<close> and
  \<open>PMBRToStr\<close>, over the conversions of the C library that they use, \<open>%nX\<close> of
  \<open>sscanf\<close> and \<open>%0nX\<close> of \<open>snprintf\<close>.
\<close>

unbundle bit_operations_syntax

subsection \<open>Hexadecimal conversions\<close>

definition hex_val :: "char \<Rightarrow> nat option" where
  "hex_val c = (let n = of_char c in
     if 48 \<le> n \<and> n \<le> 57 then Some (n - 48)
     else if 65 \<le> n \<and> n \<le> 70 then Some (n - 55)
     else if 97 \<le> n \<and> n \<le> 102 then Some (n - 87)
     else None)"

definition is_space :: "char \<Rightarrow> bool" where
  "is_space c \<longleftrightarrow> (let n = of_char c :: nat in n = 32 \<or> 9 \<le> n \<and> n \<le> 13)"

text \<open>The digits of an input item of at most \<open>w\<close> characters: their value, how many there are,
  and what follows them.\<close>

fun scan_digits :: "nat \<Rightarrow> string \<Rightarrow> nat \<Rightarrow> nat \<Rightarrow> nat \<times> nat \<times> string" where
  "scan_digits 0 s acc k = (acc, k, s)"
| "scan_digits (Suc w) [] acc k = (acc, k, [])"
| "scan_digits (Suc w) (c # s) acc k =
    (case hex_val c of Some d \<Rightarrow> scan_digits w s (16 * acc + d) (Suc k) | None \<Rightarrow> (acc, k, c # s))"

text \<open>\<open>%wX\<close>: white space is skipped, a sign and a \<open>0x\<close> prefix are part of the item and count
  for its width, and an item without a digit is a matching failure. Eight digits always fit an
  \<open>unsigned int\<close>.\<close>

definition scan_X :: "nat \<Rightarrow> string \<Rightarrow> (u32 \<times> string) option" where
  "scan_X w s0 =
    (let s = dropWhile is_space s0;
         sgn = s \<noteq> [] \<and> (hd s = CHR ''-'' \<or> hd s = CHR ''+'');
         neg = (sgn \<and> hd s = CHR ''-'');
         (w1, s1) = (if sgn then (w - 1, tl s) else (w, s));
         pre = 2 \<le> w1 \<and> (take 2 s1 = ''0x'' \<or> take 2 s1 = ''0X'');
         (w2, s2) = (if pre then (w1 - 2, drop 2 s1) else (w1, s1));
         (v, k, rest) = scan_digits w2 s2 0 0
     in if k = 0 then None else Some (if neg then - of_nat v else of_nat v, rest))"

definition scan_dash :: "string \<Rightarrow> string option" where
  "scan_dash s = (case s of c # r \<Rightarrow> if c = CHR ''-'' then Some r else None | [] \<Rightarrow> None)"

fun hex_digits :: "nat \<Rightarrow> string" where
  "hex_digits v = (if v < 16 then [''0123456789ABCDEF'' ! v]
     else hex_digits (v div 16) @ [''0123456789ABCDEF'' ! (v mod 16)])"

definition print_X :: "nat \<Rightarrow> nat \<Rightarrow> string" where
  "print_X w v = (let ds = hex_digits v in replicate (w - length ds) CHR ''0'' @ ds)"

subsection \<open>The code\<close>

definition GUID_STRLEN :: nat where
  "GUID_STRLEN = 37"

text \<open>\<open>None\<close> is the conversion count other than 11, \<open>CGPT_FAILED\<close>.\<close>

definition scan_guid_chunks :: "string \<Rightarrow> u32 list option" where
  "scan_guid_chunks s = do {
     (c0, s) \<leftarrow> scan_X 8 s; s \<leftarrow> scan_dash s;
     (c1, s) \<leftarrow> scan_X 4 s; s \<leftarrow> scan_dash s;
     (c2, s) \<leftarrow> scan_X 4 s; s \<leftarrow> scan_dash s;
     (c3, s) \<leftarrow> scan_X 2 s; (c4, s) \<leftarrow> scan_X 2 s; s \<leftarrow> scan_dash s;
     (c5, s) \<leftarrow> scan_X 2 s; (c6, s) \<leftarrow> scan_X 2 s; (c7, s) \<leftarrow> scan_X 2 s;
     (c8, s) \<leftarrow> scan_X 2 s; (c9, s) \<leftarrow> scan_X 2 s; (c10, s) \<leftarrow> scan_X 2 s;
     Some [c0, c1, c2, c3, c4, c5, c6, c7, c8, c9, c10] }"

definition StrToGuid :: "string \<Rightarrow> Guid option" where
  "StrToGuid str = do {
     chunk \<leftarrow> scan_guid_chunks str;
     Some \<lparr>time_low = chunk ! 0 AND 0xffffffff,
           time_mid = ucast (chunk ! 1 AND 0xffff),
           time_high_and_version = ucast (chunk ! 2 AND 0xffff),
           clock_seq_high_and_reserved = ucast (chunk ! 3 AND 0xff),
           clock_seq_low = ucast (chunk ! 4 AND 0xff),
           node = map (\<lambda>i. ucast (chunk ! i AND 0xff)) [5..<11]\<rparr> }"

definition guid_text :: "Guid \<Rightarrow> string" where
  "guid_text g = print_X 8 (unat (time_low g)) @ ''-'' @ print_X 4 (unat (time_mid g)) @ ''-'' @
     print_X 4 (unat (time_high_and_version g)) @ ''-'' @
     print_X 2 (unat (clock_seq_high_and_reserved g)) @ print_X 2 (unat (clock_seq_low g)) @ ''-'' @
     concat (map (\<lambda>i. print_X 2 (unat (node g ! i))) [0..<6])"

text \<open>\<open>None\<close> is a failed \<open>require\<close>: a short buffer, or a text of another length.\<close>

definition GuidToStr :: "Guid \<Rightarrow> nat \<Rightarrow> string option" where
  "GuidToStr g buflen =
    (if buflen \<ge> GUID_STRLEN \<and> length (guid_text g) = GUID_STRLEN - 1 then Some (guid_text g) else None)"

definition PMBRToStr :: "pmbr \<Rightarrow> nat \<Rightarrow> string option" where
  "PMBRToStr p buflen =
    (if IsZero (boot_guid p) then (if length ''PMBR'' < buflen then Some ''PMBR'' else None)
     else do { buf \<leftarrow> GuidToStr (boot_guid p) GUID_STRLEN;
               let str = ''PMBR (Boot GUID: '' @ buf @ '')'' in
               if length str < buflen then Some str else None })"

subsection \<open>Printing and scanning a number\<close>

fun hex_fixed :: "nat \<Rightarrow> nat \<Rightarrow> string" where
  "hex_fixed 0 v = []"
| "hex_fixed (Suc n) v = hex_fixed n (v div 16) @ [''0123456789ABCDEF'' ! (v mod 16)]"

lemma length_hex_fixed [simp]: "length (hex_fixed n v) = n"
  by (induction n arbitrary: v) auto

lemma hex_fixed_0: "hex_fixed n 0 = replicate n CHR ''0''"
  by (induction n) (auto simp: replicate_append_same)

declare hex_digits.simps [simp del]

lemma hex_digits_fixed:
  assumes "v < 16 ^ n" "0 < n"
  shows "length (hex_digits v) \<le> n \<and> print_X n v = hex_fixed n v"
  using assms
proof (induction n arbitrary: v)
  case 0
  then show ?case by simp
next
  case (Suc n)
  show ?case
  proof (cases "v < 16")
    case True
    then show ?thesis by (simp add: print_X_def hex_digits.simps [of v] Let_def hex_fixed_0)
  next
    case False
    then have n: "0 < n" using Suc.prems by (cases n) auto
    have "v div 16 < 16 ^ n" using Suc.prems by (simp add: less_mult_imp_div_less)
    with Suc.IH n have ih: "length (hex_digits (v div 16)) \<le> n" "print_X n (v div 16) = hex_fixed n (v div 16)"
      by blast+
    then show ?thesis
      using False by (simp add: print_X_def hex_digits.simps [of v] Let_def flip: ih(2))
  qed
qed

lemma hex_digit_facts:
  "d < 16 \<Longrightarrow> hex_val (''0123456789ABCDEF'' ! d) = Some d"
  "d < 16 \<Longrightarrow> \<not> is_space (''0123456789ABCDEF'' ! d)"
  "d < 16 \<Longrightarrow> ''0123456789ABCDEF'' ! d \<notin> set ''-+xX''"
proof -
  have "list_all (\<lambda>d. hex_val (''0123456789ABCDEF'' ! d) = Some d \<and> \<not> is_space (''0123456789ABCDEF'' ! d) \<and>
      ''0123456789ABCDEF'' ! d \<notin> set ''-+xX'') [0..<16]" by code_simp
  then have "\<forall>d < 16. hex_val (''0123456789ABCDEF'' ! d) = Some d \<and> \<not> is_space (''0123456789ABCDEF'' ! d) \<and>
      ''0123456789ABCDEF'' ! d \<notin> set ''-+xX''" by (simp only: list_all_iff set_upt) auto
  then show "d < 16 \<Longrightarrow> hex_val (''0123456789ABCDEF'' ! d) = Some d"
    "d < 16 \<Longrightarrow> \<not> is_space (''0123456789ABCDEF'' ! d)"
    "d < 16 \<Longrightarrow> ''0123456789ABCDEF'' ! d \<notin> set ''-+xX''" by blast+
qed

lemma scan_digits_append:
  assumes "list_all (\<lambda>c. hex_val c \<noteq> None) xs" "length xs \<le> w"
  shows "scan_digits w (xs @ ys) acc k =
    scan_digits (w - length xs) ys (foldl (\<lambda>a c. 16 * a + the (hex_val c)) acc xs) (k + length xs)"
  using assms
proof (induction xs arbitrary: w acc k)
  case Nil
  then show ?case by simp
next
  case (Cons c xs)
  then obtain w' where "w = Suc w'" by (cases w) auto
  with Cons show ?case by auto
qed

lemma hex_fixed_chars: "c \<in> set (hex_fixed n v) \<Longrightarrow> \<exists>d < 16. c = ''0123456789ABCDEF'' ! d"
  by (induction n arbitrary: v) (auto, (metis mod_less_divisor zero_less_numeral)+)

lemma hex_fixed_value: "v < 16 ^ n \<Longrightarrow> foldl (\<lambda>a c. 16 * a + the (hex_val c)) 0 (hex_fixed n v) = v"
proof (induction n arbitrary: v)
  case 0
  then show ?case by simp
next
  case (Suc n)
  then have "v div 16 < 16 ^ n" by (simp add: less_mult_imp_div_less)
  with Suc.IH show ?case by (simp add: hex_digit_facts(1) mult_div_mod_eq)
qed

lemma scan_X_print:
  assumes "v < 16 ^ n" "0 < n"
  shows "scan_X n (print_X n v @ rest) = Some (of_nat v, rest)"
proof -
  let ?ds = "hex_fixed n v"
  have digs: "c \<in> set ?ds \<Longrightarrow> hex_val c \<noteq> None \<and> \<not> is_space c \<and> c \<notin> set ''-+xX''" for c
    using hex_fixed_chars [of c n v] hex_digit_facts by (metis option.distinct(1))
  obtain c cs where ds: "?ds = c # cs" using assms(2) length_hex_fixed [of n v] by (cases ?ds) auto
  have d0: "dropWhile is_space (?ds @ rest) = ?ds @ rest" using digs [of c] by (simp add: ds)
  have sgn: "hd (?ds @ rest) \<noteq> CHR ''-''" "hd (?ds @ rest) \<noteq> CHR ''+''" using digs [of c] by (auto simp: ds)
  have pre: "\<not> (2 \<le> n \<and> (take 2 (?ds @ rest) = ''0x'' \<or> take 2 (?ds @ rest) = ''0X''))"
  proof
    assume a: "2 \<le> n \<and> (take 2 (?ds @ rest) = ''0x'' \<or> take 2 (?ds @ rest) = ''0X'')"
    then obtain c2 cs2 where "cs = c2 # cs2" using length_hex_fixed [of n v] ds by (cases cs) auto
    with a digs [of c2] show False by (auto simp: ds)
  qed
  have "list_all (\<lambda>c. hex_val c \<noteq> None) ?ds" using digs by (auto simp: list_all_iff)
  then have "scan_digits n (?ds @ rest) 0 0 = (v, n, rest)"
    using scan_digits_append [of ?ds n rest 0 0] hex_fixed_value [OF assms(1)] by simp
  moreover have "scan_X n s = Some (of_nat v, rest)"
    if "dropWhile is_space s = s" "hd s \<noteq> CHR ''-''" "hd s \<noteq> CHR ''+''"
      "\<not> (2 \<le> n \<and> (take 2 s = ''0x'' \<or> take 2 s = ''0X''))" "scan_digits n s 0 0 = (v, n, rest)" for s
    using that assms(2) by (auto simp: scan_X_def Let_def)
  ultimately show ?thesis
    using hex_digits_fixed [OF assms] d0 sgn pre by presburger
qed

lemma length_print_X: "v < 16 ^ n \<Longrightarrow> 0 < n \<Longrightarrow> length (print_X n v) = n"
  using hex_digits_fixed by simp

subsection \<open>Printing and scanning a GUID\<close>

lemma scan_X_word:
  fixes w :: "'a::len word"
  assumes "LENGTH('a) = 4 * n"
  shows "scan_X n (print_X n (unat w) @ rest) = Some (of_nat (unat w), rest)"
    and "length (print_X n (unat w)) = n"
proof -
  have "unat w < 2 ^ (4 * n)" using assms by (metis unsigned_less)
  then have b: "unat w < 16 ^ n" by (simp add: power_mult)
  have n: "0 < n" using assms len_gt_0 [where ?'a = 'a] by linarith
  show "scan_X n (print_X n (unat w) @ rest) = Some (of_nat (unat w), rest)" by (rule scan_X_print [OF b n])
  show "length (print_X n (unat w)) = n" by (rule length_print_X [OF b n])
qed

lemma scan_dash_append [simp]: "scan_dash (''-'' @ rest) = Some rest" "scan_dash (CHR ''-'' # rest) = Some rest"
  by (simp_all add: scan_dash_def)

lemma ucast_mask_back:
  "ucast (ucast (b :: byte) AND 0xff :: u32) = b"
  "ucast (ucast (h :: u16) AND 0xffff :: u32) = h"
  "(w :: u32) AND 0xffffffff = w"
proof -
  have m: "(0xff :: u32) = mask 8" "(0xffff :: u32) = mask 16" "(0xffffffff :: u32) = mask 32"
    by (simp_all add: mask_eq_exp_minus_1)
  show "ucast (ucast b AND 0xff :: u32) = b" "ucast (ucast h AND 0xffff :: u32) = h"
    unfolding m by (intro bit_word_eqI; simp add: bit_ucast_iff bit_and_iff bit_mask_iff)+
  show "w AND 0xffffffff = w"
    unfolding m by (intro bit_word_eqI) (auto simp: bit_and_iff bit_mask_iff)
qed

lemma guid_text_scan:
  assumes "guid_wf g"
  shows "StrToGuid (guid_text g @ rest) = Some g" and "length (guid_text g) = 36"
proof -
  obtain a b c d e f where n: "node g = [a, b, c, d, e, f]"
    using assms by (auto simp: guid_wf_def numeral_eq_Suc length_Suc_conv)
  have u: "[0..<6] = [0, 1, 2, 3, 4, 5]" "[5..<11] = [5, 6, 7, 8, 9, 10]" by (simp_all add: upt_conv_Cons)
  note sc = scan_X_word(1) [where ?'a = 32, of 8, simplified] scan_X_word(1) [where ?'a = 16, of 4, simplified]
    scan_X_word(1) [where ?'a = 8, of 2, simplified]
  note ln = scan_X_word(2) [where ?'a = 32, of 8, simplified] scan_X_word(2) [where ?'a = 16, of 4, simplified]
    scan_X_word(2) [where ?'a = 8, of 2, simplified]
  show "length (guid_text g) = 36" by (simp add: guid_text_def ln n u)
  show "StrToGuid (guid_text g @ rest) = Some g"
    by (simp add: StrToGuid_def scan_guid_chunks_def guid_text_def sc n u ucast_mask_back)
qed

text \<open>Every GUID the tool prints it reads back: \<open>GuidToStr\<close> into a buffer of \<open>GUID_STRLEN\<close> bytes never
  aborts, its text has 36 characters, and \<open>StrToGuid\<close> of the text, whatever follows it, is the GUID itself.\<close>

theorem guid_text_round_trip:
  assumes "guid_wf g" "GUID_STRLEN \<le> buflen"
  shows "GuidToStr g buflen = Some (guid_text g) \<and> length (guid_text g) = 36 \<and>
    StrToGuid (guid_text g @ rest) = Some g"
  using guid_text_scan [OF assms(1)] assms(2) by (simp add: GuidToStr_def GUID_STRLEN_def)

theorem guid_text_round_trip_witness:
  "StrToGuid ''C12A7328-F81F-11D2-BA4B-00A0C93EC93B'' = Some guid_efi"
proof -
  have "guid_text guid_efi = ''C12A7328-F81F-11D2-BA4B-00A0C93EC93B''"
    by (simp add: guid_text_def guid_efi_def print_X_def hex_digits.simps upt_conv_Cons)
  moreover have "guid_wf guid_efi" "GUID_STRLEN \<le> 37" by (simp_all add: guid_wf_def guid_efi_def GUID_STRLEN_def)
  ultimately show ?thesis using guid_text_round_trip [of guid_efi 37 "[]"] by simp
qed

end
