(* ===== verification/Blkdev.thy ===== *)
theory Blkdev
  imports Prov_Prelude
begin

text \<open>
  The files and block devices that the tools read and write. The system calls are not part of the
  sources; what the code uses of them is modelled here with their failures: \<open>lseek64\<close> refuses a
  negative offset and, on a block device, one beyond its end; \<open>read\<close> returns what is there, which
  may be less than asked for; \<open>write\<close> extends a regular file, stops at the end of a block device and fails there;
  any position may have a defect that makes the transfer fail.

  The clients see a device through the interface \<open>byte_store\<close>: what has been written is read
  back, and nothing else has changed.
\<close>

record blkdev =
  bytes :: buffer
  regular :: bool
  stat_ok :: bool
  blk_size :: "u64 option"
  blk_ssz :: "u32 option"
  bad_read :: "nat \<Rightarrow> bool"
  bad_write :: "nat \<Rightarrow> bool"

type_synonym fs = "string \<Rightarrow> blkdev option"

text \<open>The new position, or \<open>None\<close> for \<open>-1\<close>.\<close>

definition lseek64 :: "blkdev \<Rightarrow> u64 \<Rightarrow> nat option" where
  "lseek64 d off = (if sint off < 0 then None
     else if \<not> regular d \<and> length (bytes d) < unat off then None else Some (unat off))"

text \<open>\<open>None\<close> is a result of \<open>-1\<close>.\<close>

definition dev_read :: "blkdev \<Rightarrow> nat \<Rightarrow> nat \<Rightarrow> buffer option" where
  "dev_read d pos n = (if bad_read d pos then None else Some (seg pos n (bytes d)))"

definition dev_write :: "blkdev \<Rightarrow> nat \<Rightarrow> buffer \<Rightarrow> (nat \<times> blkdev) option" where
  "dev_write d pos bs =
    (if bad_write d pos then None
     else if regular d then
       Some (length bs, d\<lparr>bytes := overlay pos bs (bytes d @ replicate (pos + length bs - length (bytes d)) 0)\<rparr>)
     else if bs \<noteq> [] \<and> length (bytes d) \<le> pos then None
     else let n = min (length bs) (length (bytes d) - pos)
          in Some (n, d\<lparr>bytes := overlay pos (take n bs) (bytes d)\<rparr>))"

text \<open>A device without defects, of a size that an offset can name.\<close>

definition healthy :: "blkdev \<Rightarrow> bool" where
  "healthy d \<longleftrightarrow> stat_ok d \<and> bad_read d = (\<lambda>_. False) \<and> bad_write d = (\<lambda>_. False) \<and> length (bytes d) < 2 ^ 63"

subsection \<open>The interface\<close>

locale byte_store =
  fixes rd :: "'d \<Rightarrow> nat \<Rightarrow> nat \<Rightarrow> buffer option"
    and wr :: "'d \<Rightarrow> nat \<Rightarrow> buffer \<Rightarrow> (nat \<times> 'd) option"
    and cap :: "'d \<Rightarrow> nat" and ok :: "'d \<Rightarrow> bool"
  assumes rd_total: "ok d \<Longrightarrow> p + n \<le> cap d \<Longrightarrow> \<exists>bs. rd d p n = Some bs \<and> length bs = n"
    and wr_total: "ok d \<Longrightarrow> p + length bs \<le> cap d \<Longrightarrow>
      \<exists>d'. wr d p bs = Some (length bs, d') \<and> ok d' \<and> cap d' = cap d"
    and rd_wr_same: "ok d \<Longrightarrow> p + length bs \<le> cap d \<Longrightarrow> wr d p bs = Some (k, d') \<Longrightarrow>
      rd d' p (length bs) = Some bs"
    and rd_wr_other: "ok d \<Longrightarrow> p + length bs \<le> cap d \<Longrightarrow> wr d p bs = Some (k, d') \<Longrightarrow>
      q + n \<le> p \<or> p + length bs \<le> q \<Longrightarrow> rd d' q n = rd d q n"
begin

text \<open>Several writes in order, \<open>None\<close> if one of them is refused or short.\<close>

fun wr_all :: "'d \<Rightarrow> (nat \<times> buffer) list \<Rightarrow> 'd option" where
  "wr_all d [] = Some d"
| "wr_all d ((p, bs) # ws) =
    (case wr d p bs of Some (k, d') \<Rightarrow> if k = length bs then wr_all d' ws else None | None \<Rightarrow> None)"

definition apart :: "nat \<Rightarrow> nat \<Rightarrow> (nat \<times> buffer) list \<Rightarrow> bool" where
  "apart q n ws \<longleftrightarrow> (\<forall>(p, bs) \<in> set ws. q + n \<le> p \<or> p + length bs \<le> q)"

lemma wr_all_total:
  assumes "ok d" "\<forall>(p, bs) \<in> set ws. p + length bs \<le> cap d"
  shows "\<exists>d'. wr_all d ws = Some d' \<and> ok d' \<and> cap d' = cap d"
  using assms
proof (induction ws arbitrary: d)
  case Nil
  then show ?case by simp
next
  case (Cons w ws)
  obtain p bs where w: "w = (p, bs)" by (cases w)
  with Cons.prems wr_total [of d p bs] obtain d' where d': "wr d p bs = Some (length bs, d')" "ok d'" "cap d' = cap d"
    by auto
  with Cons.IH [of d'] Cons.prems w show ?case by auto
qed

lemma rd_wr_all_apart:
  assumes "ok d" "wr_all d ws = Some d'" "\<forall>(p, bs) \<in> set ws. p + length bs \<le> cap d" "apart q n ws"
  shows "rd d' q n = rd d q n"
  using assms
proof (induction ws arbitrary: d)
  case Nil
  then show ?case by simp
next
  case (Cons w ws)
  obtain p bs where w: "w = (p, bs)" by (cases w)
  with Cons.prems wr_total [of d p bs] obtain d1 where d1: "wr d p bs = Some (length bs, d1)" "ok d1" "cap d1 = cap d"
    by auto
  with Cons.prems w have "rd d' q n = rd d1 q n" by (intro Cons.IH) (auto simp: apart_def)
  also have "\<dots> = rd d q n"
    using Cons.prems w d1 by (intro rd_wr_other [of d p bs "length bs"]) (auto simp: apart_def)
  finally show ?case .
qed

text \<open>What a sequence of writes leaves is what each later read sees, if the later writes are
  elsewhere.\<close>

lemma rd_wr_all:
  assumes "ok d" "wr_all d (ws @ (p, bs) # vs) = Some d'"
    "\<forall>(p, bs) \<in> set (ws @ (p, bs) # vs). p + length bs \<le> cap d" "apart p (length bs) vs"
  shows "rd d' p (length bs) = Some bs"
  using assms
proof (induction ws arbitrary: d)
  case Nil
  then obtain d1 where d1: "wr d p bs = Some (length bs, d1)" "ok d1" "cap d1 = cap d"
    using wr_total [of d p bs] by auto
  have "rd d' p (length bs) = rd d1 p (length bs)"
    using Nil d1 by (intro rd_wr_all_apart [of d1 vs]) auto
  also have "\<dots> = Some bs" using Nil d1 by (intro rd_wr_same [of d p bs]) auto
  finally show ?case .
next
  case (Cons w ws)
  obtain q cs where w: "w = (q, cs)" by (cases w)
  with Cons.prems wr_total [of d q cs] obtain d1 where d1: "wr d q cs = Some (length cs, d1)" "ok d1" "cap d1 = cap d"
    by auto
  with Cons.prems w show ?case by (intro Cons.IH [of d1]) auto
qed

end

lemma overlay_idle: "off \<le> length b \<Longrightarrow> overlay off [] b = b"
  by (simp add: overlay_def)

lemma dev_write_healthy:
  assumes "healthy d" "p + length bs \<le> length (bytes d)"
  shows "dev_write d p bs = Some (length bs, d\<lparr>bytes := overlay p bs (bytes d)\<rparr>)"
  using assms by (cases bs) (auto simp: dev_write_def healthy_def Let_def overlay_def)

interpretation disk: byte_store dev_read dev_write "\<lambda>d. length (bytes d)" healthy
proof
  fix d :: blkdev and p n :: nat
  assume "healthy d" "p + n \<le> length (bytes d)"
  then show "\<exists>bs. dev_read d p n = Some bs \<and> length bs = n" by (simp add: dev_read_def healthy_def)
next
  fix d :: blkdev and p and bs :: buffer
  assume a: "healthy d" "p + length bs \<le> length (bytes d)"
  then show "\<exists>d'. dev_write d p bs = Some (length bs, d') \<and> healthy d' \<and> length (bytes d') = length (bytes d)"
    by (simp add: dev_write_healthy healthy_def)
next
  fix d d' :: blkdev and p k and bs :: buffer
  assume "healthy d" "p + length bs \<le> length (bytes d)" "dev_write d p bs = Some (k, d')"
  then show "dev_read d' p (length bs) = Some bs"
    by (auto simp: dev_write_healthy dev_read_def healthy_def)
next
  fix d d' :: blkdev and p k q n and bs :: buffer
  assume "healthy d" "p + length bs \<le> length (bytes d)" "dev_write d p bs = Some (k, d')"
    "q + n \<le> p \<or> p + length bs \<le> q"
  then show "dev_read d' q n = dev_read d q n"
    by (auto simp: dev_write_healthy dev_read_def healthy_def seg_overlay_disjoint)
qed

end
