(* ===== verification/Util.thy ===== *)
theory Util
  imports Blkdev "HOL-Library.Char_ord"
begin

text \<open>
  The helpers of \<open>util.c\<close>: complete reads and writes, whole files, hexadecimal dumps and the checksum byte.
  System calls are not interrupted by signals. Messages on the terminal are not modelled.
\<close>

subsection \<open>Transfers\<close>

text \<open>\<open>safe_read\<close> of \<open>util.c\<close>, and the loop around \<open>write\<close> that \<open>file_write\<close>, \<open>write_OSIP\<close>
  and \<open>write_stitch_image_ex\<close> share. A transfer of nothing is a failure.\<close>

function safe_read :: "blkdev \<Rightarrow> nat \<Rightarrow> nat \<Rightarrow> buffer option" where
  "safe_read d pos n =
    (if n = 0 then Some [] else
     case dev_read d pos n of None \<Rightarrow> None
     | Some bs \<Rightarrow> if bs = [] then None
         else map_option ((@) bs) (safe_read d (pos + length bs) (n - length bs)))"
  by auto
termination by (relation "measure (\<lambda>(d, pos, n). n)") auto

function write_all :: "blkdev \<Rightarrow> nat \<Rightarrow> buffer \<Rightarrow> bool \<times> blkdev" where
  "write_all d pos bs =
    (if bs = [] then (True, d) else
     case dev_write d pos bs of None \<Rightarrow> (False, d)
     | Some (k, d') \<Rightarrow> if k = 0 then (False, d') else write_all d' (pos + k) (drop k bs))"
  by auto
termination by (relation "measure (\<lambda>(d, pos, bs). length bs)") auto

declare safe_read.simps [simp del] write_all.simps [simp del]

text \<open>\<open>lseek\<close> with the 32-bit \<open>off_t\<close> of the target.\<close>

definition lseek :: "blkdev \<Rightarrow> u32 \<Rightarrow> nat option" where
  "lseek d off = lseek64 d (scast off)"

subsection \<open>Files\<close>

text \<open>The size that \<open>stat\<close> reports: that of a regular file, 0 for a block device.\<close>

definition st_size :: "blkdev \<Rightarrow> nat" where
  "st_size d = (if regular d then length (bytes d) else 0)"

definition file_read :: "fs \<Rightarrow> string \<Rightarrow> buffer option" where
  "file_read files filename =
    (case files filename of None \<Rightarrow> None
     | Some d \<Rightarrow> if \<not> stat_ok d then None else safe_read d 0 (st_size d))"

text \<open>\<open>open\<close> with \<open>O_CREAT | O_TRUNC\<close>: a missing file is created (\<open>creatable\<close> says where that is
  possible), a regular file becomes empty, a block device keeps its contents.\<close>

definition empty_file :: blkdev where
  "empty_file = \<lparr>bytes = [], regular = True, stat_ok = True, blk_size = None, blk_ssz = None,
     bad_read = (\<lambda>_. False), bad_write = (\<lambda>_. False)\<rparr>"

definition open_trunc :: "(string \<Rightarrow> bool) \<Rightarrow> fs \<Rightarrow> string \<Rightarrow> blkdev option" where
  "open_trunc creatable files filename =
    (case files filename of None \<Rightarrow> if creatable filename then Some empty_file else None
     | Some d \<Rightarrow> Some (if regular d then d\<lparr>bytes := []\<rparr> else d))"

definition file_write :: "(string \<Rightarrow> bool) \<Rightarrow> string \<Rightarrow> buffer \<Rightarrow> fs \<Rightarrow> int \<times> fs" where
  "file_write creatable filename data files =
    (case open_trunc creatable files filename of None \<Rightarrow> (-1, files)
     | Some d \<Rightarrow> let (ok, d) = write_all d 0 data in (if ok then 0 else -1, files(filename \<mapsto> d)))"

definition file_string_write :: "(string \<Rightarrow> bool) \<Rightarrow> string \<Rightarrow> string \<Rightarrow> fs \<Rightarrow> int \<times> fs" where
  "file_string_write creatable filename what files =
    file_write creatable filename (map of_char (takeWhile (\<lambda>c. c \<noteq> CHR 0x00) what)) files"

text \<open>\<open>sendfile\<close> copies in one call; its failure is reported but \<open>file_copy\<close> still returns 0.
  \<open>None\<close> for a file name is a null pointer.\<close>

definition file_copy :: "(string \<Rightarrow> bool) \<Rightarrow> string option \<Rightarrow> string option \<Rightarrow> fs \<Rightarrow> int \<times> fs" where
  "file_copy creatable src dst files =
    (case (src, dst) of (Some s, Some t) \<Rightarrow>
       (case files s of None \<Rightarrow> (-1, files)
        | Some _ \<Rightarrow>
          (case open_trunc creatable files t of None \<Rightarrow> (-1, files)
           | Some out \<Rightarrow>
             let files = files(t \<mapsto> out); inp = the (files s) in
             if \<not> stat_ok inp then (0, files)
             else case dev_read inp 0 (st_size inp) of None \<Rightarrow> (0, files)
               | Some bs \<Rightarrow>
                 (case dev_write out 0 bs of None \<Rightarrow> (0, files)
                  | Some (_, out') \<Rightarrow> (0, files(t \<mapsto> out')))))
     | _ \<Rightarrow> (-1, files))"

definition file_size :: "fs \<Rightarrow> string \<Rightarrow> int" where
  "file_size files filename =
    (case files filename of None \<Rightarrow> -1
     | Some d \<Rightarrow> if stat_ok d then sint (of_nat (st_size d) :: u32) else -1)"

subsection \<open>Dumps and checksums\<close>

definition hex_char :: "nat \<Rightarrow> char" where
  "hex_char n = ''0123456789abcdef'' ! n"

definition hex2 :: "byte \<Rightarrow> string" where
  "hex2 b = [hex_char (unat b div 16), hex_char (unat b mod 16), CHR '' '']"

text \<open>The text that \<open>snhexdump\<close> stores; its result is the length of the text.\<close>

fun snhexdump :: "nat \<Rightarrow> buffer \<Rightarrow> string" where
  "snhexdump sz [] = []"
| "snhexdump sz (b # bs) = (if sz > 4 then hex2 b @ snhexdump (sz - 3) bs else [])"

text \<open>The rows given to \<open>printrow\<close>. With \<open>bytes_per_row = 0\<close> the loop does not end.\<close>

partial_function (option) hexdump_buffer :: "buffer \<Rightarrow> nat \<Rightarrow> string list option" where
  "hexdump_buffer buf bytes_per_row =
    (if buf = [] then Some []
     else let row = (if length buf < bytes_per_row then length buf else bytes_per_row);
              txt = snhexdump 1023 (take row buf) in
       do { rows \<leftarrow> hexdump_buffer (drop row buf) bytes_per_row;
            Some ((txt @ take (1022 - length txt) ''\<newline>'') # rows) })"

definition twoscomplement :: "buffer \<Rightarrow> byte" where
  "twoscomplement buf = NOT (foldl (+) 0 buf) + 1"

definition is_hex :: "char \<Rightarrow> bool" where
  "is_hex c \<longleftrightarrow> CHR ''0'' \<le> c \<and> c \<le> CHR ''9'' \<or> CHR ''A'' \<le> c \<and> c \<le> CHR ''F'' \<or> CHR ''a'' \<le> c \<and> c \<le> CHR ''f''"

subsection \<open>Transfers on a device without defects\<close>

lemma safe_read_healthy:
  assumes "healthy d" "pos + n \<le> length (bytes d)"
  shows "safe_read d pos n = Some (seg pos n (bytes d))"
  using assms by (subst safe_read.simps) (simp add: dev_read_def healthy_def safe_read.simps seg_def)

lemma write_all_healthy:
  assumes "healthy d" "pos + length bs \<le> length (bytes d)"
  shows "write_all d pos bs = (True, d\<lparr>bytes := overlay pos bs (bytes d)\<rparr>)"
  using assms by (subst write_all.simps) (simp add: dev_write_healthy write_all.simps overlay_idle)

lemma healthy_overlay [simp]:
  "healthy d \<Longrightarrow> off + length bs \<le> length (bytes d) \<Longrightarrow> healthy (d\<lparr>bytes := overlay off bs (bytes d)\<rparr>)"
  by (simp add: healthy_def)

subsection \<open>Properties\<close>

lemma write_all_empty:
  assumes "regular d" "bad_write d = (\<lambda>_. False)" "bytes d = []"
  shows "write_all d 0 data = (True, d\<lparr>bytes := data\<rparr>)"
  using assms
  by (subst write_all.simps) (simp add: dev_write_def write_all.simps overlay_def)

text \<open>A file that \<open>file_write\<close> has written is read back by \<open>file_read\<close> with exactly the same contents,
  whatever it held before, and no other file changes.\<close>

theorem file_write_read:
  assumes "file = None \<and> creatable name \<or>
    (\<exists>d. file = Some d \<and> regular d \<and> stat_ok d \<and> bad_read d = (\<lambda>_. False) \<and> bad_write d = (\<lambda>_. False))"
    and "files name = file"
  shows "\<exists>files'. file_write creatable name data files = (0, files') \<and> file_read files' name = Some data \<and>
    (\<forall>other. other \<noteq> name \<longrightarrow> files' other = files other)"
proof -
  obtain d where d: "open_trunc creatable files name = Some d" "regular d" "stat_ok d" "bytes d = []"
      "bad_read d = (\<lambda>_. False)" "bad_write d = (\<lambda>_. False)"
    using assms by (auto simp: open_trunc_def empty_file_def)
  have "safe_read (d\<lparr>bytes := data\<rparr>) 0 (length data) = Some data"
    by (subst safe_read.simps) (simp add: dev_read_def d(5) safe_read.simps)
  then show ?thesis
    using d write_all_empty [of d data] by (simp add: file_write_def file_read_def st_size_def)
qed

theorem file_write_read_witness:
  "\<exists>files'. file_write (\<lambda>_. True) ''/tmp/image'' [1, 2, 3] (\<lambda>_. None) = (0, files') \<and>
    file_read files' ''/tmp/image'' = Some [1, 2, 3] \<and>
    (\<forall>other. other \<noteq> ''/tmp/image'' \<longrightarrow> files' other = None)"
  using file_write_read [of None "\<lambda>_. True" "''/tmp/image''" "\<lambda>_. None" "[1, 2, 3]"] by simp

lemma length_hex2 [simp]: "length (hex2 b) = 3"
  by (simp add: hex2_def)

lemma snhexdump_all: "3 * length bs + 1 < sz \<Longrightarrow> snhexdump sz bs = concat (map hex2 bs)"
  by (induction bs arbitrary: sz) auto

lemma snhexdump_first: "snhexdump (3 + 3 * k) bs = concat (map hex2 (take k bs))"
proof (induction bs arbitrary: k)
  case (Cons b bs)
  then show ?case by (cases k) auto
qed simp

lemma snhexdump_bound: "0 < sz \<Longrightarrow> length (snhexdump sz bs) < sz"
proof (induction bs arbitrary: sz)
  case (Cons b bs)
  then have "length (snhexdump (sz - 3) bs) < sz - 3" if "4 < sz" using that by simp
  with Cons.prems show ?case by (auto simp: less_diff_conv)
qed simp

fun rows_of :: "nat \<Rightarrow> nat \<Rightarrow> buffer \<Rightarrow> buffer list" where
  "rows_of 0 n buf = []"
| "rows_of (Suc k) n buf = (if buf = [] then [] else take n buf # rows_of k n (drop n buf))"

text \<open>C40: \<open>hexdump_buffer\<close> ends for every buffer and every row length that is not 0. The rows are the buffer cut into pieces of
  \<open>bytes_per_row\<close>; of each piece the first 340 bytes, as many as the text buffer of 1024 characters holds, are printed as two
  hexadecimal digits and a blank each, followed by a newline. So with at most 340 bytes per row every byte of the buffer is printed,
  and in longer rows the bytes from the 341st on are silently left out.\<close>

theorem hexdump_prints_all:
  assumes "0 < n"
  shows "hexdump_buffer buf n = Some (map (\<lambda>r. concat (map hex2 (take 340 r)) @ ''\<newline>'') (rows_of (length buf) n buf)) \<and>
    concat (rows_of (length buf) n buf) = buf \<and>
    (n \<le> 340 \<longrightarrow> map (take 340) (rows_of (length buf) n buf) = rows_of (length buf) n buf)"
proof -
  have "hexdump_buffer buf n = Some (map (\<lambda>r. concat (map hex2 (take 340 r)) @ ''\<newline>'') (rows_of k n buf)) \<and>
      concat (rows_of k n buf) = buf" if "length buf \<le> k" for k
    using that
  proof (induction k arbitrary: buf)
    case 0
    then show ?case by (subst hexdump_buffer.simps) simp
  next
    case (Suc k)
    show ?case
    proof (cases "buf = []")
      case True
      then show ?thesis by (subst hexdump_buffer.simps) simp
    next
      case False
      let ?row = "if length buf < n then length buf else n"
      have len: "length (concat (map hex2 xs)) = 3 * length xs" for xs by (induction xs) auto
      have cut: "take ?row buf = take n buf" "drop ?row buf = drop n buf" by auto
      have "snhexdump 1023 (take n buf) = concat (map hex2 (take 340 (take n buf)))"
        using snhexdump_first [of 340 "take n buf"] by simp
      moreover have "take (1022 - length (concat (map hex2 (take 340 (take n buf))))) ''\<newline>'' = ''\<newline>''"
        by (auto simp: len)
      moreover have "length (drop n buf) \<le> k" using Suc.prems assms(1) False by (cases buf) auto
      ultimately show ?thesis
        using Suc.IH [of "drop n buf"] False
        by (subst hexdump_buffer.simps) (simp add: cut Let_def del: take_take)
    qed
  qed
  moreover have "map (take 340) (rows_of k n buf) = rows_of k n buf" if "n \<le> 340" for k
    using that by (induction k arbitrary: buf) (simp_all add: min_def)
  ultimately show ?thesis by blast
qed

theorem hexdump_prints_all_witness:
  "hexdump_buffer [0x0f, 0xa0, 0xff] 2 = Some [''0f a0 \<newline>'', ''ff \<newline>'']"
proof -
  have "map (\<lambda>r. concat (map hex2 r) @ ''\<newline>'') (rows_of (length [0x0f, 0xa0, 0xff :: byte]) 2 [0x0f, 0xa0, 0xff]) =
      [''0f a0 \<newline>'', ''ff \<newline>'']"
    by code_simp
  then show ?thesis using hexdump_prints_all [of 2 "[0x0f, 0xa0, 0xff]"] by simp
qed

end
