(* ===== verification/Stdio.thy ===== *)
theory Stdio
  imports Util
begin

text \<open>
  Streams of the C library over the files of \<open>Blkdev\<close>: reading a stream to its end, writing a block, opening a file for
  writing, and what these do on files without errors. Used by the host tools and by the update of the IFWI.
\<close>

subsection \<open>Reading and writing\<close>

text \<open>\<open>fread\<close> in a loop until it returns nothing.\<close>

abbreviation (input) "BUFSIZ \<equiv> 8192 :: nat"

function read_stream :: "blkdev \<Rightarrow> nat \<Rightarrow> buffer" where
  "read_stream d pos =
    (case dev_read d pos BUFSIZ of None \<Rightarrow> [] | Some bs \<Rightarrow> if bs = [] then [] else bs @ read_stream d (pos + length bs))"
  by auto
termination
proof (relation "measure (\<lambda>(d, pos). length (bytes d) - pos)")
  fix d :: blkdev and pos bs
  assume "dev_read d pos BUFSIZ = Some bs" "bs \<noteq> []"
  then show "((d, pos + length bs), d, pos) \<in> measure (\<lambda>(d, pos). length (bytes d) - pos)"
    by (auto simp: dev_read_def seg_def split: if_splits)
qed simp

declare read_stream.simps [simp del]

text \<open>\<open>fwrite\<close> of single bytes: how many have been written.\<close>

definition fwrite :: "blkdev \<Rightarrow> nat \<Rightarrow> buffer \<Rightarrow> nat \<times> blkdev" where
  "fwrite d pos bs = (case dev_write d pos bs of None \<Rightarrow> (0, d) | Some (n, d') \<Rightarrow> (n, d'))"

subsection \<open>Streams without errors\<close>

definition ok_file :: "blkdev \<Rightarrow> bool" where
  "ok_file d \<longleftrightarrow> regular d \<and> stat_ok d \<and> bad_read d = (\<lambda>_. False) \<and> bad_write d = (\<lambda>_. False)"

lemma ok_file_bytes [simp]: "ok_file (d\<lparr>bytes := b\<rparr>) = ok_file d"
  by (simp add: ok_file_def)

lemma dev_read_ok: "ok_file d \<Longrightarrow> dev_read d pos n = Some (seg pos n (bytes d))"
  by (simp add: dev_read_def ok_file_def)

lemma safe_read_ok:
  assumes "ok_file d" "pos + n \<le> length (bytes d)"
  shows "safe_read d pos n = Some (seg pos n (bytes d))"
  using assms by (subst safe_read.simps) (simp add: dev_read_ok safe_read.simps seg_def)

lemma take_drop_rest: "take n xs @ drop (length (take n xs)) xs = xs"
  by (cases "length xs < n") simp_all

lemma read_stream_ok: "ok_file d \<Longrightarrow> read_stream d pos = drop pos (bytes d)"
proof (induction d pos rule: read_stream.induct)
  case (1 d pos)
  show ?case
  proof (cases "length (bytes d) \<le> pos")
    case True
    then show ?thesis using 1(2) by (subst read_stream.simps) (simp add: dev_read_ok seg_def)
  next
    case False
    then have ne: "seg pos 8192 (bytes d) \<noteq> []" by (simp add: seg_def)
    have "seg pos 8192 (bytes d) @ drop (pos + length (seg pos 8192 (bytes d))) (bytes d) = drop pos (bytes d)"
      using take_drop_rest [of 8192 "drop pos (bytes d)"] by (simp add: seg_def add.commute)
    then show ?thesis
      using 1(1) [OF dev_read_ok [OF 1(2)] ne 1(2)] ne 1(2) by (subst read_stream.simps) (simp add: dev_read_ok)
  qed
qed

lemma write_all_append:
  assumes "ok_file d" "pos = length (bytes d)"
  shows "write_all d pos bs = (True, d\<lparr>bytes := bytes d @ bs\<rparr>)"
proof -
  have "overlay pos bs (bytes d @ replicate (length bs) 0) = bytes d @ bs"
    using assms(2) by (simp add: overlay_def)
  then show ?thesis
    using assms by (subst write_all.simps) (simp add: dev_write_def ok_file_def write_all.simps)
qed

text \<open>A path to which a file can be written.\<close>

definition writable_path :: "(string \<Rightarrow> bool) \<Rightarrow> fs \<Rightarrow> string \<Rightarrow> bool" where
  "writable_path creatable files p \<longleftrightarrow> (case files p of None \<Rightarrow> creatable p | Some d \<Rightarrow> ok_file d)"

lemma open_trunc_writable:
  assumes "writable_path creatable files p"
  obtains d where "open_trunc creatable files p = Some d" "ok_file d" "bytes d = []"
  using assms by (cases "files p") (auto simp: writable_path_def open_trunc_def ok_file_def empty_file_def)

lemma file_write_ok:
  assumes "writable_path creatable files p"
  obtains d where "ok_file d" "file_write creatable p data files = (0, files(p \<mapsto> d\<lparr>bytes := data\<rparr>))"
proof -
  obtain d where d: "open_trunc creatable files p = Some d" "ok_file d" "bytes d = []"
    by (rule open_trunc_writable [OF assms])
  then have "file_write creatable p data files = (0, files(p \<mapsto> d\<lparr>bytes := data\<rparr>))"
    by (simp add: file_write_def write_all_append)
  with d(2) show ?thesis by (rule that)
qed

lemma file_read_ok: "files p = Some d \<Longrightarrow> ok_file d \<Longrightarrow> file_read files p = Some (bytes d)"
  using safe_read_ok [of d 0 "length (bytes d)"] by (simp add: file_read_def st_size_def ok_file_def)

end
