(* ===== verification/Boot_Tools.thy ===== *)
theory Boot_Tools
  imports Stdio
begin

text \<open>
  The host tools \<open>intel-boot-tools/pack.c\<close> and \<open>unpack.c\<close>: \<open>pack\<close> puts a kernel and a ramdisk behind the
  boot stub of an existing image, \<open>unpack\<close> takes them out again. The files are those of \<open>Blkdev\<close>; \<open>None\<close> is a
  process that does not end, or whose behaviour is undefined. Memory is sufficient.
\<close>

unbundle bit_operations_syntax

subsection \<open>The header\<close>

abbreviation (input) "HEADER_SIZE \<equiv> 56 :: nat"
abbreviation (input) "CMDLINE_END \<equiv> 2016 :: nat"
abbreviation (input) "BOOTHEADER \<equiv> 13280 :: nat"

record bootheader =
  bh_magic :: "byte list"
  bh_xor :: byte
  bh_id :: "byte list"
  sectors :: u32
  imageType :: u32
  head_padding :: "byte list"
  unknown :: "byte list"
  cmdline :: "byte list"
  bzImageSize :: u32
  initrdSize :: u32
  SPIUARTSuppression :: u32
  SPIType :: u32
  padding1 :: "byte list"
  bootstubStack :: "byte list"

definition enc_bootheader :: "bootheader \<Rightarrow> buffer" where
  [codec_defs]: "enc_bootheader h = bh_magic h @ [bh_xor h] @ bh_id h @ le_bytes 4 (sectors h) @ le_bytes 4 (imageType h) @
     head_padding h @ unknown h @ cmdline h @ le_bytes 4 (bzImageSize h) @ le_bytes 4 (initrdSize h) @
     le_bytes 4 (SPIUARTSuppression h) @ le_bytes 4 (SPIType h) @ padding1 h @ bootstubStack h"

definition dec_bootheader :: "buffer \<Rightarrow> bootheader" where
  [codec_defs]: "dec_bootheader b = \<lparr>bh_magic = seg 0 7 b, bh_xor = b ! 7, bh_id = seg 8 40 b,
     sectors = le_word (seg 48 4 b), imageType = le_word (seg 52 4 b), head_padding = seg 56 456 b,
     unknown = seg 512 480 b, cmdline = seg 992 1024 b, bzImageSize = le_word (seg 2016 4 b),
     initrdSize = le_word (seg 2020 4 b), SPIUARTSuppression = le_word (seg 2024 4 b), SPIType = le_word (seg 2028 4 b),
     padding1 = seg 2032 3056 b, bootstubStack = seg 5088 8192 b\<rparr>"

definition bootheader_wf :: "bootheader \<Rightarrow> bool" where
  "bootheader_wf h \<longleftrightarrow> length (bh_magic h) = 7 \<and> length (bh_id h) = 40 \<and> length (head_padding h) = 456 \<and>
     length (unknown h) = 480 \<and> length (cmdline h) = 1024 \<and> length (padding1 h) = 3056 \<and> length (bootstubStack h) = 8192"

interpretation bh: struct_codec enc_bootheader dec_bootheader 13280 bootheader_wf
proof
  fix x :: bootheader
  assume wf: "bootheader_wf x"
  show "length (enc_bootheader x) = 13280" using wf by (simp add: enc_bootheader_def bootheader_wf_def)
  show "dec_bootheader (enc_bootheader x) = x"
    using wf by (simp add: enc_bootheader_def dec_bootheader_def bootheader_wf_def buf_simps nth_append del: append_Cons)
next
  fix bs :: buffer
  assume len: "length bs = 13280"
  show "enc_bootheader (dec_bootheader bs) = bs" using len by (simp add: enc_bootheader_def dec_bootheader_def buf_simps)
  show "bootheader_wf (dec_bootheader bs)" using len by (simp add: bootheader_wf_def dec_bootheader_def)
qed

subsection \<open>pack\<close>

definition calculate_checksum :: "bootheader \<Rightarrow> byte" where
  "calculate_checksum h = foldl (XOR) (bh_xor h) (take HEADER_SIZE (enc_bootheader h))"

text \<open>\<open>totalImageSize\<close> before the padding, the padding of a size that is not a multiple of 512, and the patched boot stub for
  the size with the padding.\<close>

definition totalImageSize :: "u32 \<Rightarrow> u32 \<Rightarrow> u32" where
  "totalImageSize bz rd = bz + of_nat BOOTHEADER + rd"

definition paddings :: "u32 \<Rightarrow> u32" where
  "paddings sz = 512 - sz mod 512"

definition patch_stub :: "buffer \<Rightarrow> u32 \<Rightarrow> u32 \<Rightarrow> u32 \<Rightarrow> bootheader" where
  "patch_stub stub bz rd sz =
    (let file = (dec_bootheader stub)\<lparr>bzImageSize := bz, initrdSize := rd, sectors := sz div 512 - 1\<rparr>
     in file\<lparr>bh_xor := calculate_checksum file\<rparr>)"

text \<open>The variable \<open>paddings\<close> is set only when the size is not a multiple of the sector size, and read in either
  case.\<close>

definition pack_main :: "(string \<Rightarrow> bool) \<Rightarrow> string list \<Rightarrow> fs \<Rightarrow> (int \<times> fs) option" where
  "pack_main creatable args files =
    (case args of
       [origin, bzImage, ramdisk, output] \<Rightarrow>
         (case (files origin, open_trunc creatable files output) of
            (Some _, Some foutput) \<Rightarrow>
              let files = files(output \<mapsto> foutput) in
              (case safe_read (the (files origin)) 0 BOOTHEADER of
                 None \<Rightarrow> Some (1, files)
               | Some stub \<Rightarrow>
                 (case (files bzImage, files ramdisk) of
                    (Some fbz, Some frd) \<Rightarrow>
                      if \<not> stat_ok fbz \<or> \<not> stat_ok frd then Some (1, files)
                      else
                        let bz = of_nat (st_size fbz) :: u32; rd = of_nat (st_size frd) :: u32;
                            total = totalImageSize bz rd;
                            file = patch_stub stub bz rd (if total mod 512 > 0 then total + paddings total else total);
                            (ok, out) = write_all foutput 0 (enc_bootheader file) in
                        if \<not> ok then Some (1, files(output \<mapsto> out))
                        else if total mod 512 = 0 then None
                        else
                            let k = read_stream fbz 0; r = read_stream frd 0;
                                (_, out) = write_all out BOOTHEADER k;
                                (_, out) = write_all out (BOOTHEADER + length k) r;
                                (ok, out) = write_all out (BOOTHEADER + length k + length r) (replicate (unat (paddings total)) 0xff)
                            in Some (if ok then 0 else 1, files(output \<mapsto> out))
                  | _ \<Rightarrow> Some (1, files)))
          | (_, Some foutput) \<Rightarrow> Some (1, files(output \<mapsto> foutput))
          | _ \<Rightarrow> Some (1, files))
     | _ \<Rightarrow> Some (1, files))"

subsection \<open>unpack\<close>

text \<open>The loop that copies \<open>missing\<close> bytes. At the end of the file \<open>fread\<close> returns 0 again and again, and the loop
  does not end.\<close>

partial_function (option) copy_missing :: "blkdev \<Rightarrow> nat \<Rightarrow> nat \<Rightarrow> buffer option" where
  "copy_missing d pos missing =
    (if missing = 0 then Some []
     else let bs = (case dev_read d pos (min missing BUFSIZ) of None \<Rightarrow> [] | Some bs \<Rightarrow> bs) in
       do { rest \<leftarrow> copy_missing d (pos + length bs) (missing - length bs); Some (bs @ rest) })"

text \<open>The position of the ramdisk: the sum is one of 32 bits, and the argument of \<open>fseek\<close> a \<open>long\<close>, also of 32 bits. A position
  of 2 GiB or more is a negative one, with which \<open>fseek\<close> fails.\<close>

definition ramdisk_pos :: "u32 \<Rightarrow> nat option" where
  "ramdisk_pos bzImageLen = (let off = of_nat BOOTHEADER + bzImageLen in if 2 ^ 31 \<le> unat off then None else Some (unat off))"

text \<open>The test of the output files checks the name \<open>bzImage\<close> instead of the stream \<open>fbzImage\<close>; without that
  stream the first write has no defined behaviour.\<close>

definition unpack_main :: "(string \<Rightarrow> bool) \<Rightarrow> string list \<Rightarrow> fs \<Rightarrow> (int \<times> fs) option" where
  "unpack_main creatable args files =
    (case args of
       [origin, bzImage, ramdisk] \<Rightarrow>
         let forigin = files origin;
             fbz = open_trunc creatable files bzImage;
             files = (case fbz of None \<Rightarrow> files | Some d \<Rightarrow> files(bzImage \<mapsto> d));
             frd = open_trunc creatable files ramdisk;
             files = (case frd of None \<Rightarrow> files | Some d \<Rightarrow> files(ramdisk \<mapsto> d)) in
         (case (forigin, frd) of
            (Some _, Some rd) \<Rightarrow>
              let f = the (files origin) in
              (case (safe_read f CMDLINE_END 4, safe_read f (CMDLINE_END + 4) 4) of
                 (Some a, Some b) \<Rightarrow>
                   let bzImageLen = unat (le_word a :: u32); ramdiskLen = unat (le_word b :: u32) in
                   do { k \<leftarrow> copy_missing f BOOTHEADER bzImageLen;
                        files \<leftarrow> (case fbz of None \<Rightarrow> if k = [] then Some files else None
                                  | Some bz \<Rightarrow> Some (files(bzImage \<mapsto> snd (write_all bz 0 k))));
                        case ramdisk_pos (le_word a) of None \<Rightarrow> Some (1, files)
                        | Some pos \<Rightarrow> do { r \<leftarrow> copy_missing f pos ramdiskLen;
                                           Some (0, files(ramdisk \<mapsto> snd (write_all rd 0 r))) } }
               | _ \<Rightarrow> Some (1, files))
          | _ \<Rightarrow> Some (1, files))
     | _ \<Rightarrow> Some (1, files))"

subsection \<open>Copying\<close>

lemma ramdisk_pos_small:
  assumes "n + BOOTHEADER < 2 ^ 31"
  shows "ramdisk_pos (of_nat n) = Some (BOOTHEADER + n)"
proof -
  have u: "unat (of_nat (BOOTHEADER + n) :: u32) = BOOTHEADER + n"
    using assms by (simp only: unat_of_nat) (simp add: take_bit_nat_eq_self)
  then show ?thesis using assms by (simp add: ramdisk_pos_def)
qed


lemma copy_missing_ok:
  assumes "ok_file d" "pos + missing \<le> length (bytes d)"
  shows "copy_missing d pos missing = Some (seg pos missing (bytes d))"
  using assms(2)
proof (induction missing arbitrary: pos rule: less_induct)
  case (less missing)
  show ?case
  proof (cases "missing = 0")
    case True
    then show ?thesis by (simp add: copy_missing.simps seg_def)
  next
    case False
    let ?k = "min missing 8192"
    have l: "length (seg pos ?k (bytes d)) = ?k" using less.prems by (simp add: seg_def)
    have "copy_missing d (pos + ?k) (missing - ?k) = Some (seg (pos + ?k) (missing - ?k) (bytes d))"
      using False less.prems by (intro less.IH) auto
    moreover have "seg pos ?k (bytes d) @ seg (pos + ?k) (missing - ?k) (bytes d) = seg pos missing (bytes d)"
      by (subst seg_join) simp_all
    ultimately show ?thesis
      using False assms(1) l by (subst copy_missing.simps) (simp add: dev_read_ok Let_def)
  qed
qed

subsection \<open>The checksum\<close>

lemma foldl_xor_start: "foldl (XOR) a xs = a XOR foldl (XOR) 0 xs" for a :: byte
proof (induction xs arbitrary: a)
  case (Cons x xs)
  have "foldl (XOR) a (x # xs) = (a XOR x) XOR foldl (XOR) 0 xs" by (simp only: foldl_Cons Cons.IH [of "a XOR x"])
  moreover have "foldl (XOR) 0 (x # xs) = x XOR foldl (XOR) 0 xs" by (simp only: foldl_Cons Cons.IH [of "0 XOR x"]) simp
  ultimately show ?case by (simp only: xor.assoc)
qed simp

lemma header_bytes:
  "bootheader_wf h \<Longrightarrow> take 56 (enc_bootheader h) = bh_magic h @ [bh_xor h] @ bh_id h @ le_bytes 4 (sectors h) @ le_bytes 4 (imageType h)"
  by (simp add: enc_bootheader_def bootheader_wf_def)

lemma checksum_correct:
  assumes "bootheader_wf h"
  shows "foldl (XOR) 0 (take 56 (enc_bootheader (h\<lparr>bh_xor := calculate_checksum h\<rparr>))) = 0"
proof -
  let ?X = "foldl (XOR) (0 :: byte)"
  let ?r = "bh_id h @ le_bytes 4 (sectors h) @ le_bytes 4 (imageType h)"
  have wf: "bootheader_wf (h\<lparr>bh_xor := c\<rparr>)" for c using assms by (simp add: bootheader_wf_def)
  have split: "?X (bh_magic h @ [c] @ ?r) = ?X (bh_magic h) XOR (c XOR ?X ?r)" for c
    using foldl_xor_start [of "?X (bh_magic h) XOR c" ?r] by (simp add: xor.assoc)
  have "calculate_checksum h = bh_xor h XOR (?X (bh_magic h) XOR (bh_xor h XOR ?X ?r))"
    using foldl_xor_start [of "bh_xor h" "take 56 (enc_bootheader h)"] header_bytes [OF assms] split [of "bh_xor h"]
    by (simp add: calculate_checksum_def)
  then have "calculate_checksum h = ?X (bh_magic h) XOR ?X ?r" by (simp add: ac_simps)
  then show ?thesis
    using header_bytes [OF wf [of "calculate_checksum h"]] split [of "calculate_checksum h"] by (simp add: ac_simps)
qed

subsection \<open>What pack writes\<close>

text \<open>The image: the boot stub with the sizes, the number of sectors and the checksum, then the kernel, the ramdisk, and
  the bytes up to the end of the sector.\<close>

definition packed :: "buffer \<Rightarrow> buffer \<Rightarrow> buffer \<Rightarrow> buffer" where
  "packed stub k r =
    (let n = BOOTHEADER + length k + length r; pad = 512 - n mod 512;
         h = (dec_bootheader stub)\<lparr>bzImageSize := of_nat (length k), initrdSize := of_nat (length r), sectors := of_nat ((n + pad) div 512 - 1)\<rparr>
     in enc_bootheader (h\<lparr>bh_xor := calculate_checksum h\<rparr>) @ k @ r @ replicate pad 0xff)"

lemma pack_writes:
  assumes paths: "output \<notin> {origin, bzImage, ramdisk}" "writable_path creatable files output"
    and origin: "files origin = Some fo" "ok_file fo" "BOOTHEADER \<le> length (bytes fo)"
    and parts: "files bzImage = Some fk" "ok_file fk" "files ramdisk = Some fr" "ok_file fr"
    and size: "(BOOTHEADER + length (bytes fk) + length (bytes fr)) mod 512 \<noteq> 0"
      "BOOTHEADER + length (bytes fk) + length (bytes fr) + 512 < 2 ^ 32"
  obtains d where "ok_file d"
    "pack_main creatable [origin, bzImage, ramdisk, output] files =
      Some (0, files(output \<mapsto> d\<lparr>bytes := packed (take BOOTHEADER (bytes fo)) (bytes fk) (bytes fr)\<rparr>))"
proof -
  obtain d where d: "open_trunc creatable files output = Some d" "ok_file d" "bytes d = []"
    using open_trunc_writable [OF paths(2)] .
  let ?stub = "dec_bootheader (take BOOTHEADER (bytes fo))"
  define n where "n = BOOTHEADER + length (bytes fk) + length (bytes fr)"
  define pad where "pad = 512 - n mod 512"
  define total :: u32 where "total = totalImageSize (of_nat (length (bytes fk))) (of_nat (length (bytes fr)))"
  define h where "h = ?stub\<lparr>bzImageSize := of_nat (length (bytes fk)), initrdSize := of_nat (length (bytes fr)),
    sectors := of_nat ((n + pad) div 512 - 1)\<rparr>"
  define img where "img = enc_bootheader (h\<lparr>bh_xor := calculate_checksum h\<rparr>)"
  have total: "total = of_nat n" by (simp add: total_def totalImageSize_def n_def)
  have n: "n + 512 < 2 ^ 32" "0 < n" "n mod 512 \<noteq> 0" using size by (simp_all add: n_def)
  have ut: "unat total = n" unfolding total using n(1) by (simp only: unat_of_nat) (simp add: take_bit_nat_eq_self)
  have m: "unat (total mod 512) = n mod 512" by (simp only: unat_mod ut) simp
  then have nz: "total mod 512 \<noteq> 0" using n(3) by (metis unat_0)
  have e1: "(of_nat pad :: u32) = 512 - of_nat (n mod 512)" by (simp add: pad_def of_nat_diff less_imp_le)
  have e2: "(of_nat (n mod 512) :: u32) = total mod 512" using arg_cong [OF m, of "of_nat :: nat \<Rightarrow> u32"] by simp
  have p: "paddings total = of_nat pad" unfolding e1 e2 paddings_def by (rule refl)
  have up: "unat (paddings total) = pad"
    unfolding p by (simp only: unat_of_nat) (simp add: pad_def take_bit_nat_eq_self)
  have sum: "total + paddings total = of_nat (n + pad)" unfolding p by (simp add: total)
  moreover have "unat (of_nat (n + pad) :: u32) = n + pad"
    using n(1) by (simp only: unat_of_nat) (simp add: pad_def take_bit_nat_eq_self)
  ultimately have dv: "unat ((total + paddings total) div 512) = (n + pad) div 512" by (simp only: unat_div) simp
  have "1 \<le> (n + pad) div 512" using n(2) by (simp add: n_def div_greater_zero_iff Suc_le_eq)
  moreover have "(total + paddings total) div 512 = of_nat ((n + pad) div 512)"
    using arg_cong [OF dv, of "of_nat :: nat \<Rightarrow> u32"] by simp
  ultimately have "(total + paddings total) div 512 - 1 = of_nat ((n + pad) div 512 - 1)"
    by (simp add: of_nat_diff)
  then have sec: "patch_stub (take BOOTHEADER (bytes fo)) (of_nat (length (bytes fk))) (of_nat (length (bytes fr))) (total + paddings total) =
      h\<lparr>bh_xor := calculate_checksum h\<rparr>"
    by (simp add: patch_stub_def h_def Let_def)
  have wf: "bootheader_wf ?stub" using origin(3) by (intro bh.wf_dec) simp
  then have "length img = BOOTHEADER"
    unfolding img_def by (intro bh.length_enc) (simp add: h_def bootheader_wf_def)
  then have w: "write_all d 0 img = (True, d\<lparr>bytes := img\<rparr>)"
      "write_all (d\<lparr>bytes := img\<rparr>) BOOTHEADER k = (True, d\<lparr>bytes := img @ k\<rparr>)"
      "write_all (d\<lparr>bytes := img @ k\<rparr>) (BOOTHEADER + length k) r = (True, d\<lparr>bytes := img @ k @ r\<rparr>)"
      "write_all (d\<lparr>bytes := img @ k @ r\<rparr>) (BOOTHEADER + length k + length r) q = (True, d\<lparr>bytes := img @ k @ r @ q\<rparr>)" for k r q
    using d by (simp_all add: write_all_append)
  have ne: "origin \<noteq> output" "bzImage \<noteq> output" "ramdisk \<noteq> output" using paths(1) by auto
  have rd: "safe_read fo 0 BOOTHEADER = Some (take BOOTHEADER (bytes fo))"
    using safe_read_ok [of fo 0 BOOTHEADER] origin by (simp add: seg_def)
  have pk: "packed (take BOOTHEADER (bytes fo)) (bytes fk) (bytes fr) = img @ bytes fk @ bytes fr @ replicate pad 0xff"
    by (simp add: packed_def Let_def n_def pad_def img_def h_def)
  have sz: "st_size fk = length (bytes fk)" "st_size fr = length (bytes fr)" "stat_ok fk" "stat_ok fr"
    using parts by (simp_all add: st_size_def ok_file_def)
  have "pack_main creatable [origin, bzImage, ramdisk, output] files =
      Some (0, files(output \<mapsto> d\<lparr>bytes := packed (take BOOTHEADER (bytes fo)) (bytes fk) (bytes fr)\<rparr>))"
    using d ne origin(1) parts(1,3) rd nz nz [unfolded word_neq_0_conv] sz
    unfolding pk pack_main_def
    by (simp add: Let_def total_def [symmetric] sec up img_def [symmetric] w
        read_stream_ok [OF parts(2)] read_stream_ok [OF parts(4)])
  with d(2) show ?thesis by (rule that)
qed

lemma packed_header:
  fixes stub k r :: buffer
  assumes "length stub = BOOTHEADER"
  defines "h \<equiv> dec_bootheader (take BOOTHEADER (packed stub k r))"
  shows "bzImageSize h = of_nat (length k)" "initrdSize h = of_nat (length r)"
    "sectors h = of_nat (length (packed stub k r) div 512 - 1)" "foldl (XOR) 0 (take 56 (packed stub k r)) = 0"
    "h\<lparr>bzImageSize := x, initrdSize := y, sectors := z, bh_xor := c\<rparr> =
      (dec_bootheader stub)\<lparr>bzImageSize := x, initrdSize := y, sectors := z, bh_xor := c\<rparr>"
    "seg BOOTHEADER (length k) (packed stub k r) = k" "seg (BOOTHEADER + length k) (length r) (packed stub k r) = r"
    "512 dvd length (packed stub k r)" "BOOTHEADER + length k + length r \<le> length (packed stub k r)"
    "length (packed stub k r) \<le> BOOTHEADER + length k + length r + 512"
proof -
  define n where "n = BOOTHEADER + length k + length r"
  define g where "g = (dec_bootheader stub)\<lparr>bzImageSize := of_nat (length k), initrdSize := of_nat (length r),
    sectors := of_nat ((n + (512 - n mod 512)) div 512 - 1)\<rparr>"
  have wf: "bootheader_wf (g\<lparr>bh_xor := c\<rparr>)" "bootheader_wf g" for c
    using bh.wf_dec [OF assms(1)] by (simp_all add: g_def bootheader_wf_def)
  have pk: "packed stub k r = enc_bootheader (g\<lparr>bh_xor := calculate_checksum g\<rparr>) @ k @ r @ replicate (512 - n mod 512) 0xff"
    by (simp add: packed_def g_def n_def Let_def)
  have len: "length (packed stub k r) = n + (512 - n mod 512)" using bh.length_enc [OF wf(1)] by (simp add: pk n_def)
  have h: "h = g\<lparr>bh_xor := calculate_checksum g\<rparr>"
    using bh.length_enc [OF wf(1)] by (simp add: h_def pk bh.dec_enc [OF wf(1)])
  show "bzImageSize h = of_nat (length k)" "initrdSize h = of_nat (length r)"
      "h\<lparr>bzImageSize := x, initrdSize := y, sectors := z, bh_xor := c\<rparr> =
        (dec_bootheader stub)\<lparr>bzImageSize := x, initrdSize := y, sectors := z, bh_xor := c\<rparr>"
      "sectors h = of_nat (length (packed stub k r) div 512 - 1)"
    by (simp_all add: h g_def len)
  show "seg BOOTHEADER (length k) (packed stub k r) = k" "seg (BOOTHEADER + length k) (length r) (packed stub k r) = r"
    using bh.length_enc [OF wf(1)] by (simp_all add: pk seg_def)
  show "foldl (XOR) 0 (take 56 (packed stub k r)) = 0"
    using checksum_correct [OF wf(2)] bh.length_enc [OF wf(1)] by (simp add: pk)
  have "n mod 512 \<le> n" "n mod 512 \<le> 512" by (simp_all add: less_imp_le)
  then have "n + (512 - n mod 512) = n - n mod 512 + 512" by simp
  then have "n + (512 - n mod 512) = 512 * (n div 512 + 1)" by (simp add: minus_mod_eq_mult_div)
  then show "512 dvd length (packed stub k r)" unfolding len by simp
  show "BOOTHEADER + length k + length r \<le> length (packed stub k r)"
    "length (packed stub k r) \<le> BOOTHEADER + length k + length r + 512" by (simp_all add: len n_def)
qed

subsection \<open>Properties\<close>

text \<open>The image that \<open>pack\<close> writes is well formed: a whole number of sectors, one more than its header says; the exclusive or of the
  first 56 bytes is 0, as the boot loader requires; the sizes are those of the kernel and the ramdisk, which follow the boot
  stub; and every other field of the stub is that of the original image.\<close>

theorem pack_image_well_formed:
  assumes "output \<notin> {origin, bzImage, ramdisk}" "writable_path creatable files output"
    and "files origin = Some fo" "ok_file fo" "BOOTHEADER \<le> length (bytes fo)"
    and "files bzImage = Some fk" "ok_file fk" "files ramdisk = Some fr" "ok_file fr"
    and "(BOOTHEADER + length (bytes fk) + length (bytes fr)) mod 512 \<noteq> 0"
      "BOOTHEADER + length (bytes fk) + length (bytes fr) + 512 < 2 ^ 32"
  shows "\<exists>d h. pack_main creatable [origin, bzImage, ramdisk, output] files = Some (0, files(output \<mapsto> d)) \<and>
    h = dec_bootheader (take BOOTHEADER (bytes d)) \<and> foldl (XOR) 0 (take HEADER_SIZE (bytes d)) = 0 \<and>
    length (bytes d) = 512 * (unat (sectors h) + 1) \<and> unat (bzImageSize h) = length (bytes fk) \<and> unat (initrdSize h) = length (bytes fr) \<and>
    seg BOOTHEADER (length (bytes fk) + length (bytes fr)) (bytes d) = bytes fk @ bytes fr \<and>
    h\<lparr>bzImageSize := 0, initrdSize := 0, sectors := 0, bh_xor := 0\<rparr> =
      (dec_bootheader (take BOOTHEADER (bytes fo)))\<lparr>bzImageSize := 0, initrdSize := 0, sectors := 0, bh_xor := 0\<rparr>"
proof -
  let ?stub = "take BOOTHEADER (bytes fo)" and ?k = "bytes fk" and ?r = "bytes fr"
  obtain d where d: "ok_file d" "pack_main creatable [origin, bzImage, ramdisk, output] files =
      Some (0, files(output \<mapsto> d\<lparr>bytes := packed ?stub ?k ?r\<rparr>))"
    by (rule pack_writes [where creatable = creatable, OF assms])
  have stub: "length ?stub = BOOTHEADER" using assms(5) by simp
  note ph = packed_header [OF stub, where k = ?k and r = ?r]
  have small: "unat (of_nat x :: u32) = x" if "x < 2 ^ 32" for x using that by (simp add: unat_of_nat take_bit_nat_eq_self)
  obtain q where q: "length (packed ?stub ?k ?r) = 512 * q" using ph(8) by (auto elim: dvdE)
  have "0 < q" using ph(9) q by (cases q) auto
  then have "512 * (unat (of_nat (length (packed ?stub ?k ?r) div 512 - 1) :: u32) + 1) = length (packed ?stub ?k ?r)"
    using small [of "q - 1"] ph(10) assms(11) q by simp
  moreover have "seg BOOTHEADER (length ?k + length ?r) (packed ?stub ?k ?r) = ?k @ ?r"
    using ph(6,7) by (simp flip: seg_join [of "BOOTHEADER + length ?k" BOOTHEADER "length ?k"])
  ultimately show ?thesis
    using d(2) ph assms(11) small
    by (intro exI [of _ "d\<lparr>bytes := packed ?stub ?k ?r\<rparr>"] exI [of _ "dec_bootheader (take BOOTHEADER (packed ?stub ?k ?r))"]) simp
qed

text \<open>When the kernel and the ramdisk end at the end of a sector, \<open>paddings\<close> is read without having been set.\<close>

lemma pack_undefined_on_full_sector:
  assumes "output \<notin> {origin, bzImage, ramdisk}" "writable_path creatable files output"
    and "files origin = Some fo" "ok_file fo" "BOOTHEADER \<le> length (bytes fo)"
    and "files bzImage = Some fk" "ok_file fk" "files ramdisk = Some fr" "ok_file fr"
    and "(BOOTHEADER + length (bytes fk) + length (bytes fr)) mod 512 = 0"
  shows "pack_main creatable [origin, bzImage, ramdisk, output] files = None"
proof -
  obtain d where d: "open_trunc creatable files output = Some d" "ok_file d" "bytes d = []"
    using open_trunc_writable [OF assms(2)] .
  define n where "n = BOOTHEADER + length (bytes fk) + length (bytes fr)"
  have total: "totalImageSize (of_nat (length (bytes fk))) (of_nat (length (bytes fr))) = of_nat n" by (simp add: totalImageSize_def n_def)
  have z: "(of_nat n :: u32) mod 512 = 0"
  proof -
    have "(512 :: nat) dvd 2 ^ 32" by simp
    then have "(n mod 2 ^ 32) mod 512 = n mod 512" by (rule mod_mod_cancel)
    then have "unat (of_nat n :: u32) mod 512 = 0" using assms(10) by (simp only: unat_of_nat n_def) simp
    then have "unat ((of_nat n :: u32) mod 512) = 0" by (simp add: unat_mod)
    then show ?thesis by (simp only: unat_eq_zero)
  qed
  have ne: "origin \<noteq> output" "bzImage \<noteq> output" "ramdisk \<noteq> output" using assms(1) by auto
  have rd: "safe_read fo 0 BOOTHEADER = Some (take BOOTHEADER (bytes fo))"
    using safe_read_ok [of fo 0 BOOTHEADER] assms(4,5) by (simp add: seg_def)
  have w: "write_all d 0 bs = (True, d\<lparr>bytes := bs\<rparr>)" for bs using d(2,3) by (simp add: write_all_append)
  have sz: "st_size fk = length (bytes fk)" "st_size fr = length (bytes fr)" "stat_ok fk" "stat_ok fr"
    using assms(7,9) by (simp_all add: st_size_def ok_file_def)
  show ?thesis using d(1) ne assms(3,6,8) rd sz z by (simp add: pack_main_def Let_def total w)
qed

text \<open>C33: What \<open>pack\<close> has put into an image, \<open>unpack\<close> takes out again: unpacking the image gives files with exactly the contents of the
  kernel and of the ramdisk. This holds when boot stub, kernel and ramdisk together do not end at the end of a sector of 512 bytes and
  stay, with the padding, below 2 GiB, when the three input files can be read and the first of them has a whole boot stub, and when
  the output files can be written and are different from each other and from the files that are still to be read. At a multiple of
  512 bytes \<open>pack\<close> decides with a variable that was never set whether and how much it writes behind the image, so that its behaviour
  is undefined; from 2 GiB on \<open>unpack\<close> cannot position the stream at the ramdisk.\<close>

theorem pack_unpack_round_trip:
  assumes "output \<notin> {origin, bzImage, ramdisk}" "writable_path creatable files output"
    and "files origin = Some fo" "ok_file fo" "BOOTHEADER \<le> length (bytes fo)"
    and "files bzImage = Some fk" "ok_file fk" "files ramdisk = Some fr" "ok_file fr"
    and "(BOOTHEADER + length (bytes fk) + length (bytes fr)) mod 512 \<noteq> 0"
      "BOOTHEADER + length (bytes fk) + length (bytes fr) + 512 < 2 ^ 31"
    and out: "kernel_out \<noteq> output" "ramdisk_out \<noteq> output" "kernel_out \<noteq> ramdisk_out"
      "writable_path creatable files kernel_out" "writable_path creatable files ramdisk_out"
  shows "\<exists>files1 files2. pack_main creatable [origin, bzImage, ramdisk, output] files = Some (0, files1) \<and>
    unpack_main creatable [output, kernel_out, ramdisk_out] files1 = Some (0, files2) \<and>
    file_read files2 kernel_out = Some (bytes fk) \<and> file_read files2 ramdisk_out = Some (bytes fr)"
proof -
  let ?stub = "take BOOTHEADER (bytes fo)" and ?k = "bytes fk" and ?r = "bytes fr"
  let ?img = "packed ?stub ?k ?r"
  obtain d where d: "ok_file d" "pack_main creatable [origin, bzImage, ramdisk, output] files = Some (0, files(output \<mapsto> d\<lparr>bytes := ?img\<rparr>))"
    using assms(11) by - (rule pack_writes [where creatable = creatable, OF assms(1-10)], auto)
  let ?f1 = "files(output \<mapsto> d\<lparr>bytes := ?img\<rparr>)"
  have "writable_path creatable ?f1 kernel_out" using out by (simp add: writable_path_def)
  then obtain dk where dk: "open_trunc creatable ?f1 kernel_out = Some dk" "ok_file dk" "bytes dk = []"
    by (rule open_trunc_writable)
  have "writable_path creatable (?f1(kernel_out \<mapsto> dk)) ramdisk_out" using out by (simp add: writable_path_def)
  then obtain dr where dr: "open_trunc creatable (?f1(kernel_out \<mapsto> dk)) ramdisk_out = Some dr" "ok_file dr" "bytes dr = []"
    by (rule open_trunc_writable)
  have stub: "length ?stub = BOOTHEADER" using assms(5) by simp
  note ph = packed_header [OF stub, where k = ?k and r = ?r]
  have ok: "ok_file (d\<lparr>bytes := ?img\<rparr>)" using d(1) by simp
  have small: "unat (of_nat x :: u32) = x" if "x < 2 ^ 32" for x using that by (simp add: unat_of_nat take_bit_nat_eq_self)
  have a: "safe_read (d\<lparr>bytes := ?img\<rparr>) CMDLINE_END 4 = Some (seg CMDLINE_END 4 ?img)"
      "safe_read (d\<lparr>bytes := ?img\<rparr>) (CMDLINE_END + 4) 4 = Some (seg (CMDLINE_END + 4) 4 ?img)"
    using safe_read_ok [OF ok] ph(9) by simp_all
  have l: "unat (le_word (seg CMDLINE_END 4 ?img) :: u32) = length ?k" "unat (le_word (seg (CMDLINE_END + 4) 4 ?img) :: u32) = length ?r"
    using ph(1,2) small assms(11) by (simp_all add: dec_bootheader_def buf_simps)
  have p: "ramdisk_pos (le_word (seg CMDLINE_END 4 ?img)) = Some (BOOTHEADER + length ?k)"
    using ramdisk_pos_small [of "length ?k"] assms(11) ph(1) by (simp add: dec_bootheader_def buf_simps)
  have c: "copy_missing (d\<lparr>bytes := ?img\<rparr>) BOOTHEADER (length ?k) = Some ?k"
      "copy_missing (d\<lparr>bytes := ?img\<rparr>) (BOOTHEADER + length ?k) (length ?r) = Some ?r"
    using copy_missing_ok [OF ok] ph(6,7,9) by simp_all
  have w: "write_all dk 0 ?k = (True, dk\<lparr>bytes := ?k\<rparr>)" "write_all dr 0 ?r = (True, dr\<lparr>bytes := ?r\<rparr>)"
    using dk dr by (simp_all add: write_all_append)
  have "unpack_main creatable [output, kernel_out, ramdisk_out] ?f1 =
      Some (0, ?f1(kernel_out \<mapsto> dk, ramdisk_out \<mapsto> dr, kernel_out \<mapsto> dk\<lparr>bytes := ?k\<rparr>, ramdisk_out \<mapsto> dr\<lparr>bytes := ?r\<rparr>))"
    using out(1,2) dk(1) dr(1) a l p c w by (simp add: unpack_main_def Let_def)
  moreover have "file_read (?f1(kernel_out \<mapsto> dk, ramdisk_out \<mapsto> dr, kernel_out \<mapsto> dk\<lparr>bytes := ?k\<rparr>, ramdisk_out \<mapsto> dr\<lparr>bytes := ?r\<rparr>)) kernel_out = Some ?k"
      "file_read (?f1(kernel_out \<mapsto> dk, ramdisk_out \<mapsto> dr, kernel_out \<mapsto> dk\<lparr>bytes := ?k\<rparr>, ramdisk_out \<mapsto> dr\<lparr>bytes := ?r\<rparr>)) ramdisk_out = Some ?r"
    using out(3) dk(2) dr(2) safe_read_ok [of "dk\<lparr>bytes := ?k\<rparr>" 0 "length ?k"] safe_read_ok [of "dr\<lparr>bytes := ?r\<rparr>" 0 "length ?r"]
    by (simp_all add: file_read_def st_size_def ok_file_def)
  ultimately show ?thesis using d(2) by blast
qed

text \<open>An image of zeros, a kernel and a ramdisk.\<close>

definition tool_files :: fs where
  "tool_files = [''img'' \<mapsto> empty_file\<lparr>bytes := replicate 13280 0\<rparr>, ''bz'' \<mapsto> empty_file\<lparr>bytes := [1, 2, 3]\<rparr>,
     ''rd'' \<mapsto> empty_file\<lparr>bytes := [4, 5]\<rparr>]"

lemma tool_files_facts:
  "tool_files ''img'' = Some (empty_file\<lparr>bytes := replicate 13280 0\<rparr>)" "tool_files ''bz'' = Some (empty_file\<lparr>bytes := [1, 2, 3]\<rparr>)"
  "tool_files ''rd'' = Some (empty_file\<lparr>bytes := [4, 5]\<rparr>)" "ok_file (empty_file\<lparr>bytes := b\<rparr>)"
  "writable_path (\<lambda>_. True) tool_files ''out''" "writable_path (\<lambda>_. True) tool_files ''bz2''" "writable_path (\<lambda>_. True) tool_files ''rd2''"
  by (simp_all add: tool_files_def ok_file_def empty_file_def writable_path_def)

lemmas tool_hyps = tool_files_facts(5,1) tool_files_facts(4) tool_files_facts(2) tool_files_facts(4) tool_files_facts(3) tool_files_facts(4)

lemma tool_sizes:
  "''out'' \<notin> {''img'', ''bz'', ''rd''}" "BOOTHEADER \<le> length (bytes (empty_file\<lparr>bytes := replicate 13280 0\<rparr>))"
  "(BOOTHEADER + length (bytes (empty_file\<lparr>bytes := [1, 2, 3]\<rparr>)) + length (bytes (empty_file\<lparr>bytes := [4, 5]\<rparr>))) mod 512 \<noteq> 0"
  "BOOTHEADER + length (bytes (empty_file\<lparr>bytes := [1, 2, 3]\<rparr>)) + length (bytes (empty_file\<lparr>bytes := [4, 5]\<rparr>)) + 512 < 2 ^ 32"
  "BOOTHEADER + length (bytes (empty_file\<lparr>bytes := [1, 2, 3]\<rparr>)) + length (bytes (empty_file\<lparr>bytes := [4, 5]\<rparr>)) + 512 < 2 ^ 31"
  by simp_all

theorem pack_image_well_formed_witness:
  "\<exists>d. pack_main (\<lambda>_. True) [''img'', ''bz'', ''rd'', ''out''] tool_files = Some (0, tool_files(''out'' \<mapsto> d)) \<and>
    foldl (XOR) 0 (take 56 (bytes d)) = 0 \<and> seg 13280 5 (bytes d) = [1, 2, 3, 4, 5]"
proof -
  have five: "length (bytes (empty_file\<lparr>bytes := [1, 2, 3]\<rparr>)) + length (bytes (empty_file\<lparr>bytes := [4, 5]\<rparr>)) = 5" by simp
  obtain d where d: "pack_main (\<lambda>_. True) [''img'', ''bz'', ''rd'', ''out''] tool_files = Some (0, tool_files(''out'' \<mapsto> d))"
      "foldl (XOR) 0 (take 56 (bytes d)) = 0"
      "seg 13280 (length (bytes (empty_file\<lparr>bytes := [1, 2, 3]\<rparr>)) + length (bytes (empty_file\<lparr>bytes := [4, 5]\<rparr>))) (bytes d) =
        bytes (empty_file\<lparr>bytes := [1, 2, 3]\<rparr>) @ bytes (empty_file\<lparr>bytes := [4, 5]\<rparr>)"
    using pack_image_well_formed [OF tool_sizes(1) tool_hyps(1-3) tool_sizes(2) tool_hyps(4-7) tool_sizes(3,4)] by metis
  from d(3) have "seg 13280 5 (bytes d) = [1, 2, 3, 4, 5]" unfolding five by simp
  with d show ?thesis by blast
qed

theorem pack_unpack_round_trip_witness:
  "\<exists>files1 files2. pack_main (\<lambda>_. True) [''img'', ''bz'', ''rd'', ''out''] tool_files = Some (0, files1) \<and>
    unpack_main (\<lambda>_. True) [''out'', ''bz2'', ''rd2''] files1 = Some (0, files2) \<and>
    file_read files2 ''bz2'' = Some [1, 2, 3] \<and> file_read files2 ''rd2'' = Some [4, 5]"
  using pack_unpack_round_trip [OF tool_sizes(1) tool_hyps(1-3) tool_sizes(2) tool_hyps(4-7) tool_sizes(3,5),
      of "''bz2''" "''rd2''"] tool_files_facts(6,7) by simp

text \<open>\<open>unpack\<close> does not end on a truncated image: a copy that returns has found all the bytes it was asked for.\<close>

lemma copy_missing_in_file:
  assumes "copy_missing d pos missing = Some r"
  shows "ok_file d \<longrightarrow> missing = 0 \<or> pos + missing \<le> length (bytes d)"
proof (rule copy_missing.raw_induct [where P = "\<lambda>d pos missing r. ok_file d \<longrightarrow> missing = 0 \<or> pos + missing \<le> length (bytes d)", OF _ assms])
  fix copy :: "blkdev \<Rightarrow> nat \<Rightarrow> nat \<Rightarrow> buffer option" and d pos missing r
  assume ih: "\<And>d pos missing r. copy d pos missing = Some r \<Longrightarrow> ok_file d \<longrightarrow> missing = 0 \<or> pos + missing \<le> length (bytes d)"
    and body: "(if missing = 0 then Some []
       else let bs = (case dev_read d pos (min missing BUFSIZ) of None \<Rightarrow> [] | Some bs \<Rightarrow> bs) in
         do { rest \<leftarrow> copy d (pos + length bs) (missing - length bs); Some (bs @ rest) }) = Some r"
  let ?bs = "seg pos (min missing 8192) (bytes d)"
  show "ok_file d \<longrightarrow> missing = 0 \<or> pos + missing \<le> length (bytes d)"
  proof (intro impI)
    assume ok: "ok_file d"
    show "missing = 0 \<or> pos + missing \<le> length (bytes d)"
    proof (cases "missing = 0")
      case False
      then obtain rest where "copy d (pos + length ?bs) (missing - length ?bs) = Some rest"
        using body ok by (auto simp: dev_read_ok Let_def bind_eq_Some_conv)
      then have "missing - length ?bs = 0 \<or> pos + length ?bs + (missing - length ?bs) \<le> length (bytes d)"
        using ih ok by blast
      moreover have "length ?bs = min (min missing 8192) (length (bytes d) - pos)" by (rule length_seg)
      ultimately show ?thesis using False by linarith
    qed simp
  qed
qed

end
