(* ===== verification/Fw_Version.thy ===== *)
theory Fw_Version
  imports Guid_Text Util
begin

text \<open>
  Firmware versions (\<open>fw_version_check.c\<close>): the versions that the SCU reports through sysfs, those in the
  FIP headers of an IFWI image, and their comparison. The two FIP headers are read at the offsets of their
  fields (44 bytes, and 352 bytes for the long form). \<open>sz\<close> is the length of the image.
\<close>

subsection \<open>Versions\<close>

record fw_version =
  major :: byte
  minor :: byte

record firmware_versions =
  ifwi :: fw_version
  scu :: fw_version
  oem :: fw_version
  punit :: fw_version
  ia32 :: fw_version
  supp_ia32 :: fw_version
  chaabi_icache :: fw_version
  chaabi_res :: fw_version
  chaabi_ext :: fw_version

record fw_version_long =
  major_long :: u16
  minor_long :: u16

record firmware_versions_long =
  lscubootstrap :: fw_version_long
  lscu :: fw_version_long
  lia32 :: fw_version_long
  lvalhooks :: fw_version_long
  lifwi :: fw_version_long
  lchaabi :: fw_version_long
  lmia :: fw_version_long

definition no_version :: fw_version where
  "no_version = \<lparr>major = 0, minor = 0\<rparr>"

definition no_versions :: firmware_versions where
  "no_versions = \<lparr>ifwi = no_version, scu = no_version, oem = no_version, punit = no_version, ia32 = no_version,
     supp_ia32 = no_version, chaabi_icache = no_version, chaabi_res = no_version, chaabi_ext = no_version\<rparr>"

definition no_version_long :: fw_version_long where
  "no_version_long = \<lparr>major_long = 0, minor_long = 0\<rparr>"

definition no_versions_long :: firmware_versions_long where
  "no_versions_long = \<lparr>lscubootstrap = no_version_long, lscu = no_version_long, lia32 = no_version_long,
     lvalhooks = no_version_long, lifwi = no_version_long, lchaabi = no_version_long, lmia = no_version_long\<rparr>"

subsection \<open>The versions of the SCU\<close>

text \<open>\<open>strtok_r\<close> with the separator \<open>" "\<close>.\<close>

fun split_blank :: "string \<Rightarrow> string \<Rightarrow> string list" where
  "split_blank [] w = [w]"
| "split_blank (c # s) w = (if c = CHR '' '' then w # split_blank s [] else split_blank s (w @ [c]))"

definition tokens :: "string \<Rightarrow> string list" where
  "tokens s = filter (\<lambda>w. w \<noteq> []) (split_blank s [])"

text \<open>\<open>sscanf(p, "%x", ..)\<close>: the count and the value. \<open>None\<close> is a number of more than eight digits, for
  which C leaves the result undefined.\<close>

definition sscanf_x :: "string \<Rightarrow> (int \<times> u32) option" where
  "sscanf_x p =
    (if list_all is_space p then Some (-1, 0)
     else case scan_X (length p) p of None \<Rightarrow> Some (0, 0)
       | Some (v, rest) \<Rightarrow> if length p - length rest > 11 then None else Some (1, v))"

fun parse_revs :: "string list \<Rightarrow> nat \<Rightarrow> nat \<Rightarrow> u32 list \<Rightarrow> (int \<times> u32 list) option" where
  "parse_revs [] i len revs = Some (0, revs)"
| "parse_revs (p # ps) i len revs =
    (if i < len then
       do { (ret, v) \<leftarrow> sscanf_x p;
            if ret \<noteq> 1 then Some (ret, revs) else parse_revs ps (i + 1) len (revs[i := v]) }
     else Some (0, revs))"

definition DEVICE_NAME :: string where
  "DEVICE_NAME = ''/sys/devices/ipc/intel_fw_update.0/fw_info/fw_version''"

definition DEVICE_NAME_ALT :: string where
  "DEVICE_NAME_ALT = ''/sys/kernel/fw_update/fw_info/fw_version''"

definition read_fw_revision :: "fs \<Rightarrow> nat \<Rightarrow> (int \<times> u32 list) option" where
  "read_fw_revision files len =
    (case (case files DEVICE_NAME of Some d \<Rightarrow> Some d | None \<Rightarrow> files DEVICE_NAME_ALT) of
       None \<Rightarrow> Some (-1, replicate len 0)
     | Some d \<Rightarrow>
       (case dev_read d 0 255 of None \<Rightarrow> Some (-1, replicate len 0)
        | Some bs \<Rightarrow>
          parse_revs (tokens (map (\<lambda>b. char_of (unat b)) (takeWhile (\<lambda>b. b \<noteq> 0) bs))) 0 len (replicate len 0)))"

text \<open>The result and, when it is 0, the versions.\<close>

definition version_at :: "u32 list \<Rightarrow> nat \<Rightarrow> fw_version" where
  "version_at revs i = \<lparr>major = ucast (revs ! (i + 1)), minor = ucast (revs ! i)\<rparr>"

definition get_current_fw_rev :: "fs \<Rightarrow> (int \<times> firmware_versions option) option" where
  "get_current_fw_rev files =
    do { (ret, revs) \<leftarrow> read_fw_revision files 16;
         Some (if ret \<noteq> 0 then (ret, None)
               else (ret, Some \<lparr>ifwi = version_at revs 14, scu = version_at revs 0, oem = version_at revs 10,
                  punit = version_at revs 4, ia32 = version_at revs 6, supp_ia32 = version_at revs 8,
                  chaabi_icache = no_version, chaabi_res = no_version, chaabi_ext = no_version\<rparr>)) }"

definition version_long_at :: "u32 list \<Rightarrow> nat \<Rightarrow> fw_version_long" where
  "version_long_at revs i =
    \<lparr>major_long = ucast (push_bit 8 (revs ! (i + 3)) OR revs ! (i + 2)),
     minor_long = ucast (push_bit 8 (revs ! (i + 1)) OR revs ! i)\<rparr>"

definition get_current_fw_rev_long :: "fs \<Rightarrow> (int \<times> firmware_versions_long option) option" where
  "get_current_fw_rev_long files =
    do { (ret, revs) \<leftarrow> read_fw_revision files 32;
         Some (if ret \<noteq> 0 then (ret, None)
               else (ret, Some \<lparr>lscubootstrap = version_long_at revs 0, lscu = version_long_at revs 4,
                  lia32 = version_long_at revs 8, lvalhooks = version_long_at revs 12,
                  lifwi = version_long_at revs 16, lchaabi = version_long_at revs 20,
                  lmia = version_long_at revs 24\<rparr>)) }"

definition fw_vercmp :: "firmware_versions \<Rightarrow> firmware_versions \<Rightarrow> int" where
  "fw_vercmp v1 v2 =
    (let ver1 = push_bit 8 (ucast (major (ifwi v1))) + ucast (minor (ifwi v1)) :: u16;
         ver2 = push_bit 8 (ucast (major (ifwi v2))) + ucast (minor (ifwi v2)) :: u16
     in if ver1 < ver2 then -1 else if ver1 > ver2 then 1 else 0)"

subsection \<open>The versions in an image\<close>

definition FIP_PATTERN :: u32 where "FIP_PATTERN = 0x50494624"
definition SMIP_PATTERN :: u32 where "SMIP_PATTERN = 0x50494D53"
definition PTI_FIELD_OFFSET :: nat where "PTI_FIELD_OFFSET = 0x030C"

text \<open>\<open>if (fip.x.major != 0) v->x.major = fip.x.major\<close> and the same for the minor version; the arguments are the
  offsets of the two bytes.\<close>

definition newer :: "buffer \<Rightarrow> nat \<Rightarrow> nat \<Rightarrow> fw_version \<Rightarrow> fw_version" where
  "newer fip mj mn v = \<lparr>major = (if fip ! mj \<noteq> 0 then fip ! mj else major v),
     minor = (if fip ! mn \<noteq> 0 then fip ! mn else minor v)\<rparr>"

definition merge_fip :: "firmware_versions \<Rightarrow> buffer \<Rightarrow> firmware_versions" where
  "merge_fip v fip = \<lparr>ifwi = newer fip 41 40 (ifwi v), scu = newer fip 26 25 (scu v), oem = newer fip 18 17 (oem v),
     punit = newer fip 14 13 (punit v), ia32 = newer fip 10 9 (ia32 v), supp_ia32 = newer fip 22 21 (supp_ia32 v),
     chaabi_icache = newer fip 30 29 (chaabi_icache v), chaabi_res = newer fip 34 33 (chaabi_res v),
     chaabi_ext = newer fip 38 37 (chaabi_ext v)\<rparr>"

definition newer_long :: "buffer \<Rightarrow> nat \<Rightarrow> fw_version_long \<Rightarrow> fw_version_long" where
  "newer_long fip off v =
    (let mn = le_word (seg off 2 fip); mj = le_word (seg (off + 2) 2 fip) in
     \<lparr>major_long = (if mj \<noteq> 0 then mj else major_long v), minor_long = (if mn \<noteq> 0 then mn else minor_long v)\<rparr>)"

definition merge_fip_long :: "firmware_versions_long \<Rightarrow> buffer \<Rightarrow> firmware_versions_long" where
  "merge_fip_long v fip = \<lparr>lscubootstrap = no_version_long, lscu = newer_long fip 60 (lscu v),
     lia32 = newer_long fip 84 (lia32 v), lvalhooks = newer_long fip 92 (lvalhooks v),
     lifwi = newer_long fip 344 (lifwi v), lchaabi = newer_long fip 36 (lchaabi v), lmia = newer_long fip 76 (lmia v)\<rparr>"

text \<open>The inner loop: the rest of the image at the next magic number, and \<open>magic_found\<close>.\<close>

function scan_magic :: "nat \<Rightarrow> buffer \<Rightarrow> bool \<Rightarrow> buffer \<times> bool" where
  "scan_magic n b found =
    (if length b < n \<or> n < 4 then (b, found)
     else if le_word (take 4 b) = FIP_PATTERN then (b, True)
     else scan_magic n (drop 4 b) found)"
  by auto
termination by (relation "measure (\<lambda>(n, b, found). length b)") auto

declare scan_magic.simps [simp del]

lemma length_scan_magic: "length (fst (scan_magic n b found)) \<le> length b"
proof (induction n b found rule: scan_magic.induct)
  case (1 n b found)
  then show ?case by (subst scan_magic.simps) (auto simp: le_diff_conv intro: order_trans)
qed

function fip_loop :: "nat \<Rightarrow> ('v \<Rightarrow> buffer \<Rightarrow> 'v) \<Rightarrow> buffer \<Rightarrow> bool \<Rightarrow> 'v \<Rightarrow> int \<times> 'v" where
  "fip_loop n merge b found v =
    (if length b < n \<or> n < 4 then (0, v)
     else let (b', found') = scan_magic n b found in
       if \<not> found' then (-1, v)
       else if length b' < n then (0, v)
       else fip_loop n merge (drop 4 b') found' (merge v (take n b')))"
  by auto
termination
proof (relation "measure (\<lambda>(n, merge, b, found, v). length b)")
  fix n merge b found v r b' found'
  assume a: "\<not> (length b < n \<or> n < 4)" "r = scan_magic n b found" "(b', found') = r" "\<not> length b' < n"
  then have "length b' \<le> length b" using length_scan_magic [of n b found] by (metis fst_conv)
  with a show "((n, merge, drop 4 b', found', merge v (take n b')), n, merge, b, found, v) \<in>
      measure (\<lambda>(n, merge, b, found, v). length b)"
    by simp
qed simp

declare fip_loop.simps [simp del]

text \<open>For a \<open>v\<close> that is not null, which is what every caller passes.\<close>

definition get_image_fw_rev :: "buffer \<Rightarrow> int \<times> firmware_versions" where
  "get_image_fw_rev data = fip_loop 44 merge_fip data False no_versions"

definition get_image_fw_rev_long :: "buffer \<Rightarrow> int \<times> firmware_versions_long" where
  "get_image_fw_rev_long data = fip_loop 352 merge_fip_long data False no_versions_long"

text \<open>Searching a file byte by byte. The file is its contents, \<open>None\<close> if it cannot be opened; a read error has the
  effect of the end of the file.\<close>

function find_pattern :: "u32 \<Rightarrow> buffer \<Rightarrow> nat \<Rightarrow> nat option" where
  "find_pattern pat b pos =
    (if length b < pos + 4 then None
     else if le_word (seg pos 4 b) = pat then Some pos
     else find_pattern pat b (pos + 1))"
  by auto
termination by (relation "measure (\<lambda>(pat, b, pos). length b - pos)") auto

declare find_pattern.simps [simp del]

lemma find_pattern_bounds: "find_pattern pat b pos = Some p \<Longrightarrow> pos \<le> p \<and> p + 4 \<le> length b"
proof (induction pat b pos rule: find_pattern.induct)
  case (1 pat b pos)
  then show ?case by (subst (asm) (2) find_pattern.simps) (auto split: if_splits)
qed

function crack_from :: "buffer \<Rightarrow> nat \<Rightarrow> fw_version option" where
  "crack_from b pos =
    (case find_pattern FIP_PATTERN b pos of None \<Rightarrow> None
     | Some p \<Rightarrow>
       if length b < p + 44 then None
       else let v = \<lparr>major = b ! (p + 41), minor = b ! (p + 40)\<rparr> in
         if minor v = 0 \<and> major v = 0 then crack_from b (p + 44) else Some v)"
  by auto
termination
proof (relation "measure (\<lambda>(b, pos). length b - pos)")
  fix b pos p and v :: fw_version
  assume "find_pattern FIP_PATTERN b pos = Some p" "\<not> length b < p + 44"
  then show "((b, p + 44), b, pos) \<in> measure (\<lambda>(b, pos). length b - pos)"
    using find_pattern_bounds [of FIP_PATTERN b pos p] by auto
qed simp

declare crack_from.simps [simp del]

definition crack_update_fw :: "buffer option \<Rightarrow> fw_version option" where
  "crack_update_fw fw_file = do { b \<leftarrow> fw_file; crack_from b 0 }"

definition crack_update_fw_pti_field :: "buffer option \<Rightarrow> byte option" where
  "crack_update_fw_pti_field fw_file =
    do { b \<leftarrow> fw_file;
         location \<leftarrow> find_pattern SMIP_PATTERN b 0;
         if location + PTI_FIELD_OFFSET < length b then Some (b ! (location + PTI_FIELD_OFFSET)) else None }"

subsection \<open>Properties\<close>

text \<open>\<open>fw_vercmp\<close> orders versions lexicographically: first by the major, then by the minor number of the IFWI;
  the sum in 16 bits never wraps.\<close>

theorem fw_vercmp_lexicographic:
  "fw_vercmp v1 v2 =
    (let p1 = (unat (major (ifwi v1)), unat (minor (ifwi v1)));
         p2 = (unat (major (ifwi v2)), unat (minor (ifwi v2)))
     in if fst p1 < fst p2 \<or> fst p1 = fst p2 \<and> snd p1 < snd p2 then -1
        else if p1 = p2 then 0 else 1)"
proof -
  have lt: "unat x < 256" for x :: byte using unsigned_less [of x] by simp
  have u: "unat (push_bit 8 (ucast a) + ucast b :: u16) = unat a * 256 + unat b" for a b :: byte
  proof -
    have "unat a * 256 + unat b < 2 ^ 16" using lt [of a] lt [of b] by simp
    moreover have "(push_bit 8 (ucast a) + ucast b :: u16) = of_nat (unat a * 256 + unat b)"
      by (simp add: push_bit_eq_mult mult.commute)
    ultimately show ?thesis by (simp only: unat_of_nat) simp
  qed
  have lex: "x * 256 + y < z * 256 + w \<longleftrightarrow> x < z \<or> x = z \<and> y < w" if "y < 256" "w < 256" for x y z w :: nat
    using that by (cases "x < z"; cases "x = z") linarith+
  show ?thesis
    by (auto simp: fw_vercmp_def Let_def word_less_nat_alt u lex [OF lt lt])
qed

text \<open>The headers of an image: the blocks of \<open>n\<close> bytes at the offsets divisible by 4 that begin with the magic
  number and lie in the image.\<close>

abbreviation magic_at :: "buffer \<Rightarrow> nat \<Rightarrow> bool" where
  "magic_at b p \<equiv> le_word (seg p 4 b) = FIP_PATTERN"

definition fip_blocks :: "nat \<Rightarrow> buffer \<Rightarrow> buffer list" where
  "fip_blocks n b = map (\<lambda>k. seg (4 * k) n b) (filter (\<lambda>k. 4 * k + n \<le> length b \<and> magic_at b (4 * k)) [0..<length b])"

function windows :: "nat \<Rightarrow> buffer \<Rightarrow> buffer list" where
  "windows n b = (if length b < n \<or> n < 4 then []
     else (if magic_at b 0 then [take n b] else []) @ windows n (drop 4 b))"
  by auto
termination by (relation "measure (\<lambda>(n, b). length b)") auto

declare windows.simps [simp del]

lemma seg_drop4: "seg (4 * k) n (drop 4 b) = seg (4 * Suc k) n b"
  by (simp add: seg_def add.commute)

lemma windows_blocks:
  assumes "4 \<le> n" "length b \<le> m"
  shows "windows n b = map (\<lambda>k. seg (4 * k) n b)
    (filter (\<lambda>k. 4 * k + n \<le> length b \<and> magic_at b (4 * k)) [0..<m])"
  using assms
proof (induction n b arbitrary: m rule: windows.induct)
  case (1 n b)
  show ?case
  proof (cases "length b < n")
    case True
    then show ?thesis by (subst windows.simps) (auto simp: filter_empty_conv)
  next
    case False
    then obtain m' where m: "m = Suc m'" using 1 by (cases m) auto
    have "[0..<m] = 0 # map Suc [0..<m']" unfolding m by (simp add: upt_conv_Cons map_Suc_upt)
    moreover have "windows n (drop 4 b) = map (\<lambda>k. seg (4 * k) n (drop 4 b))
        (filter (\<lambda>k. 4 * k + n \<le> length (drop 4 b) \<and> magic_at (drop 4 b) (4 * k)) [0..<m'])"
      using 1 False m by (intro "1.IH") auto
    moreover have "4 * k + n \<le> length (drop 4 b) \<longleftrightarrow> 4 * Suc k + n \<le> length b" for k
      using False 1 by auto
    moreover have "take n b = seg 0 n b" by (simp add: seg_def)
    ultimately show ?thesis
      using False 1 by (subst windows.simps) (simp add: filter_map o_def seg_drop4)
  qed
qed

lemma windows_eq_blocks: "4 \<le> n \<Longrightarrow> windows n b = fip_blocks n b"
  using windows_blocks [of n b "length b"] by (simp add: fip_blocks_def)

lemma scan_magic_windows:
  assumes "4 \<le> n" "scan_magic n b found = (b', found')"
  shows "windows n b' = windows n b \<and>
    (if length b' < n then found' = found \<and> windows n b = [] else found' \<and> magic_at b' 0)"
  using assms
proof (induction n b found rule: scan_magic.induct)
  case (1 n b found)
  show ?case
  proof (cases "length b < n \<or> magic_at b 0")
    case True
    then have "b' = b \<and> found' = (if length b < n then found else True)"
      using 1 by (subst (asm) (2) scan_magic.simps) (auto simp: seg_def)
    then show ?thesis using True by (auto simp: windows.simps)
  next
    case False
    then have "scan_magic n (drop 4 b) found = (b', found')"
      using 1 by (subst (asm) (2) scan_magic.simps) (auto simp: seg_def)
    moreover have "windows n b = windows n (drop 4 b)" using False 1 by (subst windows.simps) auto
    ultimately show ?thesis using 1 False by (auto simp: seg_def)
  qed
qed

lemma fip_loop_windows:
  assumes "4 \<le> n"
  shows "fip_loop n merge b found v =
    (if n \<le> length b \<and> \<not> found \<and> windows n b = [] then (-1, v) else (0, foldl merge v (windows n b)))"
  using assms
proof (induction n merge b found v rule: fip_loop.induct)
  case (1 n merge b found v)
  show ?case
  proof (cases "length b < n")
    case True
    then show ?thesis by (simp add: fip_loop.simps windows.simps)
  next
    case False
    obtain b' found' where sc: "scan_magic n b found = (b', found')" by (cases "scan_magic n b found")
    note w = scan_magic_windows [OF 1(2) sc]
    show ?thesis
    proof (cases "length b' < n")
      case True
      then show ?thesis using w sc False 1(2) by (subst fip_loop.simps) auto
    next
      case l: False
      have "windows n b = take n b' # windows n (drop 4 b')"
        using w l 1(2) by (subst (asm) windows.simps) auto
      moreover have "fip_loop n merge (drop 4 b') True (merge v (take n b')) =
          (0, foldl merge (merge v (take n b')) (windows n (drop 4 b')))"
        using "1.IH" [OF _ sc [symmetric] refl] False w l 1(2) by auto
      ultimately show ?thesis using w l sc False 1(2) by (subst fip_loop.simps) auto
    qed
  qed
qed

text \<open>\<open>get_image_fw_rev\<close> reports, for each component, the last nonzero version numbers among all the FIP headers
  of the image at offsets divisible by 4, and fails exactly when the image is at least as long as a header and
  has none. An image shorter than a header is not an error: it has the version 0.0 throughout.\<close>

theorem get_image_fw_rev_merges:
  "get_image_fw_rev data =
    (if 44 \<le> length data \<and> fip_blocks 44 data = [] then (-1, no_versions)
     else (0, foldl merge_fip no_versions (fip_blocks 44 data))) \<and>
   get_image_fw_rev_long data =
    (if 352 \<le> length data \<and> fip_blocks 352 data = [] then (-1, no_versions_long)
     else (0, foldl merge_fip_long no_versions_long (fip_blocks 352 data)))"
  by (simp add: get_image_fw_rev_def get_image_fw_rev_long_def fip_loop_windows windows_eq_blocks)

text \<open>An unreadable version is taken for version 0.0: when the first word of the sysfs file is not a hexadecimal number,
  \<open>sscanf\<close> returns 0, \<open>read_fw_revision\<close> returns that 0 as its own result, and
  \<open>get_current_fw_rev\<close> reports success with every version 0.\<close>

theorem bad_revision_accepted:
  assumes "files DEVICE_NAME = Some d" "dev_read d 0 255 = Some bs"
    and "tokens (map (\<lambda>b. char_of (unat b)) (takeWhile (\<lambda>b. b \<noteq> 0) bs)) = p # ps" "sscanf_x p = Some (0, v)"
  shows "get_current_fw_rev files = Some (0, Some no_versions)"
  using assms
  by (simp add: get_current_fw_rev_def read_fw_revision_def version_at_def no_versions_def no_version_def)

definition text_file :: "string \<Rightarrow> blkdev" where
  "text_file t = empty_file\<lparr>bytes := map of_char t\<rparr>"

theorem bad_revision_accepted_witness:
  "get_current_fw_rev [DEVICE_NAME \<mapsto> text_file ''n/a''] = Some (0, Some no_versions)"
proof (rule bad_revision_accepted)
  show "[DEVICE_NAME \<mapsto> text_file ''n/a''] DEVICE_NAME = Some (text_file ''n/a'')" by simp
  show "dev_read (text_file ''n/a'') 0 255 = Some [0x6e, 0x2f, 0x61]"
    by (simp add: text_file_def empty_file_def dev_read_def seg_def)
  show "tokens (map (\<lambda>b. char_of (unat b)) (takeWhile (\<lambda>b. b \<noteq> 0) [0x6e, 0x2f, 0x61 :: byte])) = ''n/a'' # []"
    by code_simp
  show "sscanf_x ''n/a'' = Some (0, 0)" by code_simp
qed

end
