(* ===== verification/Ifwi_Emmc.thy ===== *)
theory Ifwi_Emmc
  imports Fw_Version
begin

text \<open>
  The firmware (IFWI) in the two boot partitions of the eMMC (\<open>flash_scu_emmc/ifwi.c\<close>): the checksums of its header
  area (UMIP), writing an image or a part of it, and the version gate. A boot partition is a device of \<open>Blkdev\<close>, mapped into
  memory; \<open>mmap_ok\<close> says for which paths the mapping succeeds, and an access beyond the end of the device, or beyond the
  caller's buffer, is \<open>None\<close>. Memory is sufficient.
\<close>

unbundle bit_operations_syntax

abbreviation (input) "BOOT_IFWI_SIZE \<equiv> 0x400000 :: nat"
abbreviation (input) "BOOT_UMIP_SIZE \<equiv> 0x10000 :: nat"
abbreviation (input) "BOOT_UMIP_SECTOR_SIZE \<equiv> 0x200 :: nat"
abbreviation (input) "BOOT_UMIP_XOR_OFFSET \<equiv> 7 :: nat"
abbreviation (input) "BOOT_UMIP_3GPP_OFFSET \<equiv> 0x76F :: nat"
abbreviation (input) "BOOT_IFWI_XOR_OFFSET \<equiv> 0x0112d8 :: nat"
abbreviation (input) "BOOT_DNX_TIMEOUT_OFFSET \<equiv> 0x400 :: nat"
abbreviation (input) "IFWI_OFFSET \<equiv> 0 :: nat"
abbreviation (input) "TOKEN_UMIP_AREA_OFFSET \<equiv> 0x4000 :: nat"
abbreviation (input) "TOKEN_UMIP_AREA_SIZE \<equiv> 0x2C00 :: nat"
abbreviation (input) "IFWI_TYPE_LSH \<equiv> 12 :: nat"

subsection \<open>Checksums\<close>

text \<open>The loop of \<open>xor_compute\<close> over the words at \<open>i, i + 1, \<dots>\<close>, \<open>k\<close> of them.\<close>

fun xor_words :: "buffer \<Rightarrow> nat \<Rightarrow> nat \<Rightarrow> u32 \<Rightarrow> u32" where
  "xor_words b i 0 x = x"
| "xor_words b i (Suc k) x = xor_words b (Suc i) k (x XOR le_word (seg (4 * i) 4 b))"

definition xor_compute :: "buffer \<Rightarrow> nat \<Rightarrow> u32" where
  "xor_compute b n = xor_words b 0 ((n + 3) div 4) 0"

definition xor_factorize :: "u32 \<Rightarrow> byte" where
  "xor_factorize x = ucast ((x AND 0xff) XOR (drop_bit 8 x AND 0xff) XOR (drop_bit 16 x AND 0xff) XOR (drop_bit 24 x AND 0xff))"

text \<open>The loop over the sectors \<open>i, i + 1, \<dots>\<close>, \<open>k\<close> of them.\<close>

fun sector_xors :: "nat \<Rightarrow> nat \<Rightarrow> buffer \<Rightarrow> buffer" where
  "sector_xors i 0 b = b"
| "sector_xors i (Suc k) b =
    sector_xors (Suc i) k (overlay (4 * i) (le_bytes 4 (xor_compute (drop (i * BOOT_UMIP_SECTOR_SIZE) b) BOOT_UMIP_SECTOR_SIZE)) b)"

definition xor_update :: "buffer \<Rightarrow> buffer" where
  "xor_update b =
    (let b = sector_xors 2 126 b;
         b = b[BOOT_UMIP_XOR_OFFSET := 0];
         b = b[BOOT_UMIP_XOR_OFFSET := xor_factorize (xor_compute b BOOT_UMIP_SIZE)];
         b = overlay BOOT_IFWI_XOR_OFFSET (le_bytes 4 (0 :: u32)) b
     in overlay BOOT_IFWI_XOR_OFFSET (le_bytes 4 (xor_compute b BOOT_IFWI_SIZE)) b)"

subsection \<open>The boot partitions\<close>

text \<open>The result is 0 also when nothing has been written.\<close>

definition force_rw :: "string \<Rightarrow> fs \<Rightarrow> int \<times> fs" where
  "force_rw path files =
    (case files path of None \<Rightarrow> (- 1, files)
     | Some d \<Rightarrow> (case dev_write d 0 [0x30, 0] of None \<Rightarrow> (- 1, files) | Some (_, d') \<Rightarrow> (0, files(path \<mapsto> d'))))"

definition boot_partition_path :: "nat \<Rightarrow> string" where
  "boot_partition_path i = ''/dev/block/mmcblk0boot'' @ (if i = 0 then ''0'' else ''1'')"

definition boot_force_ro_path :: "nat \<Rightarrow> string" where
  "boot_force_ro_path i = ''/sys/block/mmcblk0boot'' @ (if i = 0 then ''0'' else ''1'') @ ''/force_ro''"

text \<open>What is stored at \<open>ptr + addr_offset\<close>; a null pointer \<open>data\<close> stores zeros.\<close>

definition umip_data :: "buffer option \<Rightarrow> nat \<Rightarrow> buffer option" where
  "umip_data data sz = (case data of None \<Rightarrow> Some (replicate sz 0) | Some bs \<Rightarrow> if sz \<le> length bs then Some (take sz bs) else None)"

text \<open>The mapped partition after the store, with the tokens of the UMIP kept when it is a whole image that is stored.\<close>

definition umip_store :: "nat \<Rightarrow> buffer \<Rightarrow> buffer \<Rightarrow> buffer" where
  "umip_store addr_offset bs b =
    (let token_data = seg TOKEN_UMIP_AREA_OFFSET TOKEN_UMIP_AREA_SIZE b;
         b = overlay addr_offset bs b;
         b = (if addr_offset = IFWI_OFFSET then overlay TOKEN_UMIP_AREA_OFFSET token_data b else b)
     in xor_update b)"

text \<open>One pass of the loop: whether it went on, and the files. The sum in the bound check is one of 32 bits; \<open>None\<close> is an access behind
  the mapping, for which the check would have to wrap around.\<close>

definition write_boot :: "(string \<Rightarrow> bool) \<Rightarrow> nat \<Rightarrow> buffer option \<Rightarrow> nat \<Rightarrow> nat \<Rightarrow> fs \<Rightarrow> (bool \<times> fs) option" where
  "write_boot mmap_ok addr_offset data sz i files =
    (let (r, files) = force_rw (boot_force_ro_path i) files; path = boot_partition_path i in
     if r \<noteq> 0 then Some (False, files)
     else case files path of
       None \<Rightarrow> Some (False, files)
     | Some d \<Rightarrow>
         if \<not> mmap_ok path then Some (False, files)
         else if (addr_offset + sz) mod 2 ^ 32 \<le> BOOT_IFWI_SIZE then
           (if length (bytes d) < BOOT_IFWI_SIZE \<or> BOOT_IFWI_SIZE < addr_offset + sz then None
            else do { bs \<leftarrow> umip_data data sz;
                      let b = take BOOT_IFWI_SIZE (bytes d);
                      Some (True, files(path \<mapsto> d\<lparr>bytes := overlay 0 (umip_store addr_offset bs b) (bytes d)\<rparr>)) })
         else Some (False, files))"

definition write_umip_emmc :: "(string \<Rightarrow> bool) \<Rightarrow> nat \<Rightarrow> buffer option \<Rightarrow> nat \<Rightarrow> fs \<Rightarrow> (int \<times> fs) option" where
  "write_umip_emmc mmap_ok addr_offset data sz files =
    (let sz = (if addr_offset = IFWI_OFFSET then min sz BOOT_IFWI_SIZE else sz) in
     do { (go_on, files) \<leftarrow> write_boot mmap_ok addr_offset data sz 0 files;
          if \<not> go_on then Some (- 1, files)
          else do { (go_on, files) \<leftarrow> write_boot mmap_ok addr_offset data sz 1 files;
                    Some (if go_on then 0 else - 1, files) } })"

text \<open>The value is a \<open>char\<close>, which has a sign on the device: \<open>0xff\<close> is not told from an error.\<close>

definition readbyte_umip_emmc :: "(string \<Rightarrow> bool) \<Rightarrow> nat \<Rightarrow> fs \<Rightarrow> (int \<times> fs) option" where
  "readbyte_umip_emmc mmap_ok addr_offset files =
    (let (r, files) = force_rw (boot_force_ro_path 0) files; path = boot_partition_path 0 in
     if r \<noteq> 0 then Some (- 1, files)
     else case files path of
       None \<Rightarrow> Some (- 1, files)
     | Some d \<Rightarrow>
         if \<not> mmap_ok path then Some (- 1, files)
         else if addr_offset < BOOT_UMIP_SIZE then
           (if addr_offset < length (bytes d) then Some (sint (bytes d ! addr_offset), files) else None)
         else Some (- 1, files))"

subsection \<open>The operations\<close>

definition check_ifwi_file_scu_emmc :: "buffer \<Rightarrow> fs \<Rightarrow> int option" where
  "check_ifwi_file_scu_emmc data files =
    (let (r, img) = get_image_fw_rev_long data in
     if r \<noteq> 0 then Some (- 1)
     else do { (r, dev) \<leftarrow> get_current_fw_rev_long files;
               case dev of None \<Rightarrow> Some (- 1)
               | Some dev \<Rightarrow>
                 if r \<noteq> 0 then Some (- 1)
                 else if major_long (lifwi img) \<noteq> major_long (lifwi dev) then Some 0
                 else if drop_bit IFWI_TYPE_LSH (minor_long (lifwi img)) \<noteq> drop_bit IFWI_TYPE_LSH (minor_long (lifwi dev)) then Some 0
                 else Some 1 })"

definition update_ifwi_file_scu_emmc :: "(string \<Rightarrow> bool) \<Rightarrow> buffer \<Rightarrow> fs \<Rightarrow> (int \<times> fs) option" where
  "update_ifwi_file_scu_emmc mmap_ok data = write_umip_emmc mmap_ok IFWI_OFFSET (Some data) (length data)"

definition flash_token_umip_scu_emmc :: "(string \<Rightarrow> bool) \<Rightarrow> buffer \<Rightarrow> fs \<Rightarrow> (int \<times> fs) option" where
  "flash_token_umip_scu_emmc mmap_ok data = write_umip_emmc mmap_ok TOKEN_UMIP_AREA_OFFSET (Some data) TOKEN_UMIP_AREA_SIZE"

definition flash_custom_boot_scu_emmc :: "(string \<Rightarrow> bool) \<Rightarrow> buffer \<Rightarrow> fs \<Rightarrow> (int \<times> fs) option" where
  "flash_custom_boot_scu_emmc mmap_ok data = write_umip_emmc mmap_ok BOOT_UMIP_3GPP_OFFSET (Some data) 1"

definition erase_token_umip_scu_emmc :: "(string \<Rightarrow> bool) \<Rightarrow> fs \<Rightarrow> (int \<times> fs) option" where
  "erase_token_umip_scu_emmc mmap_ok = write_umip_emmc mmap_ok TOKEN_UMIP_AREA_OFFSET None TOKEN_UMIP_AREA_SIZE"

definition flash_dnx_timeout_scu_emmc :: "(string \<Rightarrow> bool) \<Rightarrow> buffer \<Rightarrow> fs \<Rightarrow> (int \<times> fs) option" where
  "flash_dnx_timeout_scu_emmc mmap_ok data = write_umip_emmc mmap_ok BOOT_DNX_TIMEOUT_OFFSET (Some data) 1"

definition read_dnx_timeout_scu_emmc :: "(string \<Rightarrow> bool) \<Rightarrow> fs \<Rightarrow> (int \<times> fs) option" where
  "read_dnx_timeout_scu_emmc mmap_ok = readbyte_umip_emmc mmap_ok BOOT_DNX_TIMEOUT_OFFSET"

definition flash_dnx_scu_emmc :: "buffer \<Rightarrow> fs \<Rightarrow> (int \<times> fs) option" where
  "flash_dnx_scu_emmc data files = Some (0, files)"

definition flash_ifwi_scu_emmc :: "(string \<Rightarrow> bool) \<Rightarrow> buffer \<Rightarrow> fs \<Rightarrow> (int \<times> fs) option" where
  "flash_ifwi_scu_emmc mmap_ok data files =
    do { ret \<leftarrow> check_ifwi_file_scu_emmc data files;
         if ret > 0 then update_ifwi_file_scu_emmc mmap_ok data files else Some (ret, files) }"

text \<open>\<open>property_get\<close> returns the length of the value, 0 for the default.\<close>

definition is_scu_emmc :: "(string \<Rightarrow> string) \<Rightarrow> bool" where
  "is_scu_emmc property \<longleftrightarrow> length (property ''sys.mia.version'') > 0"

subsection \<open>Exclusive ors\<close>

definition word_at :: "buffer \<Rightarrow> nat \<Rightarrow> u32" where
  "word_at b j = le_word (seg (4 * j) 4 b)"

definition xsum :: "('a \<Rightarrow> 'b::len word) \<Rightarrow> 'a list \<Rightarrow> 'b word" where
  "xsum f js = foldr (\<lambda>j x. f j XOR x) js 0"

lemma xsum_simps [simp]: "xsum f [] = 0" "xsum f (j # js) = f j XOR xsum f js" "xsum f (js @ ks) = xsum f js XOR xsum f ks"
proof -
  show "xsum f (js @ ks) = xsum f js XOR xsum f ks" by (induction js) (simp_all add: xsum_def xor.assoc)
qed (simp_all add: xsum_def)

lemma xsum_cong: "(\<And>j. j \<in> set js \<Longrightarrow> f j = g j) \<Longrightarrow> xsum f js = xsum g js"
  by (induction js) simp_all

lemma xsum_change:
  assumes "distinct js" "j \<in> set js" "\<And>i. i \<in> set js \<Longrightarrow> i \<noteq> j \<Longrightarrow> g i = f i"
  shows "xsum g js = xsum f js XOR f j XOR g j"
proof -
  obtain xs ys where js: "js = xs @ j # ys" using split_list [OF assms(2)] by blast
  then have "xsum g xs = xsum f xs" "xsum g ys = xsum f ys" using assms by (auto intro!: xsum_cong)
  then show ?thesis unfolding js by (intro bit_word_eqI) (auto simp: bit_xor_iff)
qed

lemma xor_words_xsum: "xor_words b i k x = x XOR xsum (word_at b) [i..<i + k]"
proof (induction k arbitrary: i x)
  case (Suc k)
  have "[i..<i + Suc k] = i # [Suc i..<Suc i + k]" by (simp add: upt_conv_Cons)
  then show ?case using Suc [of "Suc i"] by (simp add: word_at_def xor.assoc)
qed simp

lemma xor_compute_xsum: "xor_compute b (4 * k) = xsum (word_at b) [0..<k]"
proof -
  have "(4 * k + 3) div 4 = k" by simp
  then show ?thesis using xor_words_xsum [of b 0 k 0] by (simp add: xor_compute_def)
qed

lemma word_at_overlay:
  assumes "4 * j + 4 \<le> length b"
  shows "word_at (overlay (4 * j) (le_bytes 4 (w :: u32)) b) i = (if i = j then w else word_at b i)"
proof (cases "i = j")
  case False
  then have "4 * i + 4 \<le> 4 * j \<or> 4 * j + 4 \<le> 4 * i" by linarith
  then show ?thesis using assms False by (simp add: word_at_def seg_overlay_disjoint)
qed (use assms in \<open>simp add: word_at_def\<close>)

text \<open>The word that makes the exclusive or of all the words 0.\<close>

lemma xor_word_cancels:
  assumes "j < k" "4 * k \<le> length b"
  defines "b0 \<equiv> overlay (4 * j) (le_bytes 4 (0 :: u32)) b"
  shows "xor_compute (overlay (4 * j) (le_bytes 4 (xor_compute b0 (4 * k))) b0) (4 * k) = 0"
proof -
  let ?b1 = "overlay (4 * j) (le_bytes 4 (xor_compute b0 (4 * k))) b0"
  have len: "4 * j + 4 \<le> length b" "4 * j + 4 \<le> length b0" using assms(1,2) by (simp_all add: b0_def overlay_def)
  have "xsum (word_at ?b1) [0..<k] = xsum (word_at b0) [0..<k] XOR word_at b0 j XOR word_at ?b1 j"
    using assms(1) len by (intro xsum_change) (simp_all add: word_at_overlay)
  moreover have "word_at b0 j = 0" "word_at ?b1 j = xor_compute b0 (4 * k)"
    using len by (simp_all add: word_at_overlay b0_def)
  ultimately show ?thesis by (simp add: xor_compute_xsum)
qed

text \<open>The bytes of the words.\<close>

lemma xor_factorize_xor: "xor_factorize (x XOR y) = xor_factorize x XOR xor_factorize y"
  by (rule bit_word_eqI) (auto simp: xor_factorize_def bit_simps)

lemma xor_factorize_le_bytes: "xor_factorize x = xsum (\<lambda>c. c) (le_bytes 4 x)"
proof -
  have ff: "(0xff :: u32) = mask 8" by (simp add: mask_eq_exp_minus_1)
  have u: "ucast (y AND 0xff :: u32) = (ucast y :: byte)" for y
    unfolding ff by (rule bit_word_eqI) (auto simp: bit_ucast_iff bit_and_iff bit_mask_iff)
  have four: "(4 :: nat) = Suc (Suc (Suc (Suc 0)))" by simp
  have lb: "le_bytes 4 x = [ucast x, ucast (drop_bit 8 x), ucast (drop_bit 16 x), ucast (drop_bit 24 x)]"
    by (simp only: four le_bytes.simps drop_bit_drop_bit) simp
  show ?thesis unfolding lb by (simp add: xor_factorize_def unsigned_xor_eq u xor.assoc)
qed

lemma xor_factorize_word: "length bs = 4 \<Longrightarrow> xor_factorize (le_word bs) = xsum (\<lambda>c. c) bs"
  by (simp add: xor_factorize_le_bytes)

lemma xor_factorize_bytes: "4 * k \<le> length b \<Longrightarrow> xor_factorize (xor_compute b (4 * k)) = xsum (\<lambda>c. c) (take (4 * k) b)"
proof (induction k)
  case 0
  then show ?case using xor_compute_xsum [of b 0] by (simp add: xor_factorize_def)
next
  case (Suc k)
  have "take (4 * Suc k) b = take (4 * k) b @ seg (4 * k) 4 b" 
    by (simp only: mult_Suc_right add.commute [of 4] take_add seg_def)
  then show ?case
    using Suc unfolding xor_compute_xsum by (simp add: xor_factorize_xor word_at_def xor_factorize_word)
qed

lemma xsum_update:
  assumes "i < n" "n \<le> length b"
  shows "xsum (\<lambda>c. c) (take n (b[i := c])) = xsum (\<lambda>c. c) (take n (b[i := 0])) XOR c"
proof -
  have "take n (b[i := x]) = take i (take n b) @ x # drop (Suc i) (take n b)" for x
    unfolding take_update_swap using assms by (intro upd_conv_take_nth_drop) simp
  then show ?thesis by (simp add: ac_simps)
qed

subsection \<open>The update of the checksums\<close>

lemma length_sector_xors [simp]: "i + k \<le> 128 \<Longrightarrow> BOOT_UMIP_SIZE \<le> length b \<Longrightarrow> length (sector_xors i k b) = length b"
  by (induction i k b rule: sector_xors.induct) (simp_all add: overlay_def)

lemma xor_compute_cong: "take (4 * k) b = take (4 * k) b' \<Longrightarrow> xor_compute b (4 * k) = xor_compute b' (4 * k)"
proof -
  assume a: "take (4 * k) b = take (4 * k) b'"
  have "seg (4 * j) 4 b = seg (4 * j) 4 b'" if "j < k" for j
    using that seg_take [of "4 * j" 4 "4 * k"] a by (metis Suc_leI mult_Suc_right add.commute mult_le_mono2)
  then show ?thesis unfolding xor_compute_xsum by (intro xsum_cong) (simp add: word_at_def)
qed

text \<open>Only the table of the sector checksums changes, and it has the checksum of each sector.\<close>

lemma sector_xors_table:
  assumes "2 \<le> i" "i + k \<le> 128" "BOOT_UMIP_SIZE \<le> length b"
  shows "drop 512 (sector_xors i k b) = drop 512 b \<and> take (4 * i) (sector_xors i k b) = take (4 * i) b \<and>
    (\<forall>j. i \<le> j \<longrightarrow> j < i + k \<longrightarrow> word_at (sector_xors i k b) j = xor_compute (drop (j * 512) b) 512)"
  using assms
proof (induction i k b rule: sector_xors.induct)
  case (2 i k b)
  let ?b = "overlay (4 * i) (le_bytes 4 (xor_compute (drop (i * 512) b) 512)) b"
  let ?s = "sector_xors (Suc i) k ?b"
  have len: "4 * i + 4 \<le> 512" "length ?b = length b" using "2.prems" by (simp_all add: overlay_def)
  have ih: "drop 512 ?s = drop 512 ?b" "take (4 * Suc i) ?s = take (4 * Suc i) ?b"
      "\<And>j. Suc i \<le> j \<Longrightarrow> j < i + Suc k \<Longrightarrow> word_at ?s j = xor_compute (drop (j * 512) ?b) 512"
    using "2.IH" "2.prems" len by simp_all
  have d: "drop 512 ?b = drop 512 b" and t: "take (4 * i) ?b = take (4 * i) b"
    using len "2.prems" by (simp_all add: overlay_def)
  have dj: "drop (j * 512) ?b = drop (j * 512) b" if "2 \<le> j" for j
  proof -
    have "drop (j * 512) xs = drop (j * 512 - 512) (drop 512 xs)" for xs :: buffer using that by simp
    then show ?thesis using d by metis
  qed
  have "take (4 * i) ?s = take (4 * i) (take (4 * Suc i) ?s)" by (simp add: min_def)
  also have "\<dots> = take (4 * i) b" unfolding ih(2) using t by (simp add: min_def)
  finally have tk: "take (4 * i) ?s = take (4 * i) b" .
  have "seg (4 * i) 4 ?s = seg (4 * i) 4 ?b"
    using ih(2) seg_take [of "4 * i" 4 "4 * Suc i" ?s] seg_take [of "4 * i" 4 "4 * Suc i" ?b] by simp
  then have w: "word_at ?s i = xor_compute (drop (i * 512) b) 512"
    using "2.prems" word_at_overlay [of i b _ i] by (simp add: word_at_def)
  have "word_at ?s j = xor_compute (drop (j * 512) b) 512" if "i \<le> j" "j < i + Suc k" for j
    using that w ih(3) [of j] dj [of j] "2.prems" by (cases "j = i") simp_all
  then show ?case using ih(1) d tk by simp
qed simp

text \<open>The three checksums of an image: for each sector from 2 on the exclusive or of its words, in the table at the
  beginning; one byte that makes the exclusive or of the bytes of the UMIP 0; one word that makes the exclusive or of the words of
  the whole image 0.\<close>

definition ifwi_checked :: "buffer \<Rightarrow> bool" where
  "ifwi_checked b \<longleftrightarrow>
    (\<forall>j. 2 \<le> j \<longrightarrow> j < 128 \<longrightarrow> word_at b j = xsum (word_at b) [128 * j..<128 * j + 128]) \<and>
    xsum (\<lambda>c. c) (take BOOT_UMIP_SIZE b) = 0 \<and> xsum (word_at b) [0..<0x100000] = 0"

text \<open>The bytes that are not checksums.\<close>

definition same_contents :: "buffer \<Rightarrow> buffer \<Rightarrow> bool" where
  "same_contents b b' \<longleftrightarrow> length b' = length b \<and> take 7 b' = take 7 b \<and>
     seg 512 (BOOT_IFWI_XOR_OFFSET - 512) b' = seg 512 (BOOT_IFWI_XOR_OFFSET - 512) b \<and>
     drop (BOOT_IFWI_XOR_OFFSET + 4) b' = drop (BOOT_IFWI_XOR_OFFSET + 4) b"

lemma xsum_map: "xsum f (map g js) = xsum (\<lambda>j. f (g j)) js"
  by (induction js) simp_all

lemma xor_compute_sector: "xor_compute (drop (j * 512) b) 512 = xsum (word_at b) [128 * j..<128 * j + 128]"
proof -
  have "xor_compute (drop (j * 512) b) (4 * 128) = xsum (word_at (drop (j * 512) b)) [0..<128]" by (rule xor_compute_xsum)
  also have "\<dots> = xsum (\<lambda>i. word_at b (i + 128 * j)) [0..<128]"
    by (intro xsum_cong) (simp add: word_at_def seg_def algebra_simps)
  also have "\<dots> = xsum (word_at b) (map (\<lambda>i. i + 128 * j) [0..<128])" by (simp only: xsum_map)
  also have "map (\<lambda>i. i + 128 * j) [0..<128] = [128 * j..<128 * j + 128]"
    using map_add_upt [of "128 * j" 128] by (simp add: add.commute)
  finally show ?thesis by simp
qed

lemma xor_update_checked:
  assumes "BOOT_IFWI_SIZE \<le> length b"
  shows "ifwi_checked (xor_update b) \<and> same_contents b (xor_update b)"
proof -
  define b1 where "b1 = sector_xors 2 126 b"
  define c where "c = xor_factorize (xor_compute (b1[7 := 0]) BOOT_UMIP_SIZE)"
  define b3 where "b3 = b1[7 := c]"
  define b4 where "b4 = overlay BOOT_IFWI_XOR_OFFSET (le_bytes 4 (0 :: u32)) b3"
  define b5 where "b5 = overlay BOOT_IFWI_XOR_OFFSET (le_bytes 4 (xor_compute b4 BOOT_IFWI_SIZE)) b4"
  have b5: "xor_update b = b5"
    by (simp add: xor_update_def Let_def b1_def c_def b3_def b4_def b5_def)
  have tab: "drop 512 b1 = drop 512 b" "take 8 b1 = take 8 b"
      "\<And>j. 2 \<le> j \<Longrightarrow> j < 128 \<Longrightarrow> word_at b1 j = xor_compute (drop (j * 512) b) 512"
    using sector_xors_table [of 2 126 b] assms by (simp_all add: b1_def)
  have len: "length b1 = length b" "length b3 = length b" "length b4 = length b" "length b5 = length b"
    using assms by (simp_all add: b1_def b3_def b4_def b5_def overlay_def)
  have t: "take n b5 = take n b3" if "n \<le> BOOT_IFWI_XOR_OFFSET" for n
    using that assms len by (simp add: b5_def b4_def overlay_def min_def)
  have d: "drop (BOOT_IFWI_XOR_OFFSET + 4) b5 = drop (BOOT_IFWI_XOR_OFFSET + 4) b3"
    using assms len by (simp add: b5_def b4_def overlay_def)
  have s13: "seg off n b3 = seg off n b1" if "8 \<le> off" for off n
    using that by (simp add: b3_def seg_def drop_update_cancel)
  have s5: "seg off n b5 = seg off n b1" if "8 \<le> off" "off + n \<le> BOOT_IFWI_XOR_OFFSET" for off n
    using that t [OF that(2)] s13 [OF that(1)] seg_take [of off n "off + n" b5] seg_take [of off n "off + n" b3] by simp
  have s1: "seg off n b1 = seg off n b" if "512 \<le> off" for off n
  proof -
    have "drop off xs = drop (off - 512) (drop 512 xs)" for xs :: buffer using that by simp
    then show ?thesis using tab(1) unfolding seg_def by metis
  qed
  have w: "word_at b5 j = xsum (word_at b5) [128 * j..<128 * j + 128]" if "2 \<le> j" "j < 128" for j
  proof -
    have "word_at b5 j = word_at b1 j" using s5 that by (simp add: word_at_def)
    also have "\<dots> = xsum (word_at b) [128 * j..<128 * j + 128]" using tab(3) [OF that] by (simp only: xor_compute_sector)
    also have "\<dots> = xsum (word_at b5) [128 * j..<128 * j + 128]"
      using that by (intro xsum_cong) (simp add: word_at_def s5 s1)
    finally show ?thesis .
  qed
  have "c = xsum (\<lambda>c. c) (take BOOT_UMIP_SIZE (b1[7 := 0]))"
    using xor_factorize_bytes [of "0x4000" "b1[7 := 0]"] assms len by (simp add: c_def)
  then have "xsum (\<lambda>c. c) (take BOOT_UMIP_SIZE b3) = 0"
    using xsum_update [of 7 BOOT_UMIP_SIZE b1 c] assms len by (simp add: b3_def)
  then have u: "xsum (\<lambda>c. c) (take BOOT_UMIP_SIZE b5) = 0" using t [of BOOT_UMIP_SIZE] by simp
  have "xor_compute b5 (4 * 0x100000) = 0"
    using xor_word_cancels [of 17590 "0x100000" b3] assms len by (simp add: b5_def b4_def)
  then have x: "xsum (word_at b5) [0..<0x100000] = 0" by (simp only: xor_compute_xsum)
  have "take 7 b5 = take 7 b"
    using t [of 7] arg_cong [OF tab(2), of "take 7"] by (simp add: b3_def)
  moreover have "drop (BOOT_IFWI_XOR_OFFSET + 4) b3 = drop (BOOT_IFWI_XOR_OFFSET + 4) b"
  proof -
    have e: "drop 70364 xs = drop 69852 (drop 512 xs)" for xs :: buffer by simp
    have "drop 70364 b1 = drop 70364 b" unfolding e tab(1) by (rule refl)
    then show ?thesis by (simp add: b3_def)
  qed
  ultimately show ?thesis
    unfolding b5 ifwi_checked_def same_contents_def using w u x d len s5 s1 by simp
qed

subsection \<open>Writing both partitions\<close>

lemma boot_paths:
  "boot_partition_path i \<noteq> boot_force_ro_path j" "boot_partition_path 0 \<noteq> boot_partition_path 1"
  by (simp_all add: boot_partition_path_def boot_force_ro_path_def)

lemma force_rw_other: "force_rw path files = (r, files') \<Longrightarrow> p \<noteq> path \<Longrightarrow> files' p = files p"
  by (auto simp: force_rw_def split: option.splits prod.splits)

text \<open>What a partition holds after a successful write.\<close>

definition written :: "nat \<Rightarrow> buffer option \<Rightarrow> nat \<Rightarrow> blkdev option \<Rightarrow> blkdev option \<Rightarrow> bool" where
  "written addr_offset data sz old new \<longleftrightarrow> (\<exists>d bs. old = Some d \<and> BOOT_IFWI_SIZE \<le> length (bytes d) \<and> addr_offset + sz \<le> BOOT_IFWI_SIZE \<and>
     umip_data data sz = Some bs \<and>
     new = Some (d\<lparr>bytes := overlay 0 (umip_store addr_offset bs (take BOOT_IFWI_SIZE (bytes d))) (bytes d)\<rparr>))"

lemma write_boot_success:
  assumes "write_boot mmap_ok addr_offset data sz i files = Some (True, files')"
  shows "written addr_offset data sz (files (boot_partition_path i)) (files' (boot_partition_path i)) \<and>
    (\<forall>p. p \<noteq> boot_partition_path i \<longrightarrow> p \<noteq> boot_force_ro_path i \<longrightarrow> files' p = files p)"
proof -
  obtain r files1 where f: "force_rw (boot_force_ro_path i) files = (r, files1)" by fastforce
  have o: "files1 p = files p" if "p \<noteq> boot_force_ro_path i" for p using force_rw_other [OF f that] .
  have p: "files1 (boot_partition_path i) = files (boot_partition_path i)" using o boot_paths(1) by simp
  show ?thesis
    using assms f o p unfolding write_boot_def written_def Let_def
    by (auto split: if_splits option.splits simp: bind_eq_Some_conv not_less)
qed

lemma write_umip_success:
  assumes "write_umip_emmc mmap_ok addr_offset data sz files = Some (0, files')" "i < 2"
  shows "written addr_offset data (if addr_offset = 0 then min sz BOOT_IFWI_SIZE else sz)
    (files (boot_partition_path i)) (files' (boot_partition_path i))"
proof -
  define n where "n = (if addr_offset = 0 then min sz BOOT_IFWI_SIZE else sz)"
  obtain files1 where w: "write_boot mmap_ok addr_offset data n 0 files = Some (True, files1)"
      "write_boot mmap_ok addr_offset data n 1 files1 = Some (True, files')"
    using assms(1) by (auto simp: write_umip_emmc_def Let_def n_def bind_eq_Some_conv split: if_splits)
  note s = write_boot_success [OF w(1)] write_boot_success [OF w(2)]
  have "i = 0 \<or> i = 1" using assms(2) by auto
  then show ?thesis using s boot_paths unfolding n_def [symmetric] by (metis boot_paths)
qed

lemma length_umip_data: "umip_data data sz = Some bs \<Longrightarrow> length bs = sz"
  by (auto simp: umip_data_def split: option.splits if_splits)

lemma umip_store_checked:
  assumes "length b = BOOT_IFWI_SIZE" "addr_offset + length bs \<le> BOOT_IFWI_SIZE"
  defines "b' \<equiv> (if addr_offset = 0 then overlay TOKEN_UMIP_AREA_OFFSET (seg TOKEN_UMIP_AREA_OFFSET TOKEN_UMIP_AREA_SIZE b) (overlay addr_offset bs b)
    else overlay addr_offset bs b)"
  shows "ifwi_checked (umip_store addr_offset bs b) \<and> same_contents b' (umip_store addr_offset bs b) \<and> length b' = BOOT_IFWI_SIZE"
proof -
  define b1 where "b1 = overlay addr_offset bs b"
  have "length b1 = BOOT_IFWI_SIZE" using assms(1,2) by (simp add: b1_def)
  then have "length b' = BOOT_IFWI_SIZE" using assms(1) unfolding b'_def b1_def [symmetric] by simp
  then show ?thesis using xor_update_checked [of b'] by (simp add: umip_store_def b'_def Let_def)
qed

lemma nth_overlay:
  "off + length bs \<le> length b \<Longrightarrow> j < length b \<Longrightarrow>
    overlay off bs b ! j = (if off \<le> j \<and> j < off + length bs then bs ! (j - off) else b ! j)"
  by (auto simp: overlay_def nth_append)

text \<open>The places of the checksums.\<close>

definition checksum_place :: "nat \<Rightarrow> bool" where
  "checksum_place j \<longleftrightarrow> 7 \<le> j \<and> j < 512 \<or> BOOT_IFWI_XOR_OFFSET \<le> j \<and> j < BOOT_IFWI_XOR_OFFSET + 4"

lemma nth_seg: "off \<le> j \<Longrightarrow> j < off + n \<Longrightarrow> j < length b \<Longrightarrow> b ! j = seg off n b ! (j - off)"
  by (simp add: seg_def)

lemma same_contents_nth:
  assumes "same_contents b b'" "j < length b" "\<not> checksum_place j"
  shows "b' ! j = b ! j"
proof -
  note s = assms(1) [unfolded same_contents_def]
  consider "j < 7" | "512 \<le> j" "j < BOOT_IFWI_XOR_OFFSET" | "BOOT_IFWI_XOR_OFFSET + 4 \<le> j"
    using assms(3) unfolding checksum_place_def by linarith
  then show ?thesis
  proof cases
    case 1
    then show ?thesis using s nth_take [of j 7] by metis
  next
    case 2
    then show ?thesis
      using s assms(2) nth_seg [of 512 j "BOOT_IFWI_XOR_OFFSET - 512" b] nth_seg [of 512 j "BOOT_IFWI_XOR_OFFSET - 512" b'] by simp
  next
    case 3
    have "xs ! j = drop (BOOT_IFWI_XOR_OFFSET + 4) xs ! (j - (BOOT_IFWI_XOR_OFFSET + 4))" if "length xs = length b" for xs :: buffer
      using 3 that assms(2) by simp
    from this [of b] this [of b'] show ?thesis using s by simp
  qed
qed

text \<open>The byte at \<open>j\<close> that a request asks for: that of the data, or what was there, outside the data and in the token area when
  a whole image is written.\<close>

definition requested_byte :: "nat \<Rightarrow> buffer option \<Rightarrow> nat \<Rightarrow> buffer \<Rightarrow> nat \<Rightarrow> byte" where
  "requested_byte addr_offset data sz old j =
    (if j < addr_offset \<or> addr_offset + sz \<le> j \<or> addr_offset = 0 \<and> 0x4000 \<le> j \<and> j < 0x6C00 then old ! j
     else case data of None \<Rightarrow> 0 | Some bs \<Rightarrow> bs ! (j - addr_offset))"

lemma umip_store_nth:
  assumes "length b = BOOT_IFWI_SIZE" "addr_offset + sz \<le> BOOT_IFWI_SIZE" "umip_data data sz = Some bs"
    and "j < BOOT_IFWI_SIZE" "\<not> checksum_place j"
  shows "umip_store addr_offset bs b ! j = requested_byte addr_offset data sz b j"
proof -
  have l: "length bs = sz" using length_umip_data [OF assms(3)] .
  have bs: "bs ! i = (case data of None \<Rightarrow> 0 | Some cs \<Rightarrow> cs ! i)" if "i < sz" for i
    using assms(3) that by (auto simp: umip_data_def split: option.splits if_splits)
  define b1 where "b1 = overlay addr_offset bs b"
  define b2 where "b2 = overlay TOKEN_UMIP_AREA_OFFSET (seg TOKEN_UMIP_AREA_OFFSET TOKEN_UMIP_AREA_SIZE b) b1"
  have len: "length b1 = BOOT_IFWI_SIZE" using assms(1,2) l by (simp add: b1_def)
  have n1: "b1 ! j = (if addr_offset \<le> j \<and> j < addr_offset + sz then bs ! (j - addr_offset) else b ! j)"
    unfolding b1_def using assms(1,2,4) l by (subst nth_overlay) simp_all
  have n2: "b2 ! j = (if 0x4000 \<le> j \<and> j < 0x6C00 then b ! j else b1 ! j)"
    unfolding b2_def using assms(1,4) len nth_seg [of "0x4000" j "0x2C00" b] by (subst nth_overlay) simp_all
  have "same_contents (if addr_offset = 0 then b2 else b1) (umip_store addr_offset bs b) \<and>
      length (if addr_offset = 0 then b2 else b1) = BOOT_IFWI_SIZE"
    using umip_store_checked [of b addr_offset bs] assms(1,2) l unfolding b2_def b1_def by simp
  then have "umip_store addr_offset bs b ! j = (if addr_offset = 0 then b2 else b1) ! j"
    using same_contents_nth assms(4,5) by (metis (no_types, lifting))
  then show ?thesis using n1 n2 bs [of "j - addr_offset"] by (auto simp: requested_byte_def)
qed

text \<open>When it does succeed.\<close>

definition boot_writable :: "(string \<Rightarrow> bool) \<Rightarrow> nat \<Rightarrow> fs \<Rightarrow> bool" where
  "boot_writable mmap_ok i files \<longleftrightarrow> mmap_ok (boot_partition_path i) \<and>
    (\<exists>r d. files (boot_force_ro_path i) = Some r \<and> dev_write r 0 [0x30, 0] \<noteq> None \<and>
       files (boot_partition_path i) = Some d \<and> BOOT_IFWI_SIZE \<le> length (bytes d))"

lemma write_boot_succeeds:
  assumes "boot_writable mmap_ok i files" "addr_offset + sz \<le> BOOT_IFWI_SIZE" "umip_data data sz \<noteq> None"
  shows "\<exists>files'. write_boot mmap_ok addr_offset data sz i files = Some (True, files')"
  using assms boot_paths(1) [of i i] order_trans [OF mod_less_eq_dividend assms(2), of "2 ^ 32"]
  by (auto simp: boot_writable_def write_boot_def force_rw_def split: option.splits)

lemma write_umip_succeeds:
  assumes "boot_writable mmap_ok 0 files" "boot_writable mmap_ok 1 files" "addr_offset + sz \<le> BOOT_IFWI_SIZE" "umip_data data sz \<noteq> None"
  shows "\<exists>files'. write_umip_emmc mmap_ok addr_offset data sz files = Some (0, files')"
proof -
  obtain files1 where w: "write_boot mmap_ok addr_offset data sz 0 files = Some (True, files1)"
    using write_boot_succeeds [OF assms(1,3,4)] by blast
  have "files1 (boot_partition_path 1) = files (boot_partition_path 1)" "files1 (boot_force_ro_path 1) = files (boot_force_ro_path 1)"
    using write_boot_success [OF w] boot_paths by (simp_all add: boot_partition_path_def boot_force_ro_path_def)
  then have "boot_writable mmap_ok 1 files1" using assms(2) by (simp only: boot_writable_def)
  from write_boot_succeeds [OF this assms(3,4)] w
  show ?thesis using assms(3) by (auto simp: write_umip_emmc_def min_def)
qed

lemma umip_written:
  assumes "write_umip_emmc mmap_ok addr_offset data sz files = Some (0, files')" "i < 2"
  shows "\<exists>d d'. files (boot_partition_path i) = Some d \<and> files' (boot_partition_path i) = Some d' \<and>
    ifwi_checked (take BOOT_IFWI_SIZE (bytes d')) \<and> drop BOOT_IFWI_SIZE (bytes d') = drop BOOT_IFWI_SIZE (bytes d) \<and>
    (\<forall>j<BOOT_IFWI_SIZE. \<not> checksum_place j \<longrightarrow>
       bytes d' ! j = requested_byte addr_offset data (if addr_offset = 0 then min sz BOOT_IFWI_SIZE else sz) (bytes d) j)"
proof -
  define n where "n = (if addr_offset = 0 then min sz BOOT_IFWI_SIZE else sz)"
  have "written addr_offset data n (files (boot_partition_path i)) (files' (boot_partition_path i))"
    using write_umip_success [OF assms] unfolding n_def .
  then obtain d bs where d: "files (boot_partition_path i) = Some d" "BOOT_IFWI_SIZE \<le> length (bytes d)" "addr_offset + n \<le> BOOT_IFWI_SIZE"
      "umip_data data n = Some bs"
      "files' (boot_partition_path i) = Some (d\<lparr>bytes := overlay 0 (umip_store addr_offset bs (take BOOT_IFWI_SIZE (bytes d))) (bytes d)\<rparr>)"
    unfolding written_def by blast
  let ?b = "take BOOT_IFWI_SIZE (bytes d)"
  let ?s = "umip_store addr_offset bs ?b"
  have s: "ifwi_checked ?s" "length ?s = BOOT_IFWI_SIZE"
    using umip_store_checked [of ?b addr_offset bs] d(2,3) length_umip_data [OF d(4)] by (simp_all add: same_contents_def)
  have r: "?s ! j = requested_byte addr_offset data n (bytes d) j" if "j < BOOT_IFWI_SIZE" "\<not> checksum_place j" for j
    using umip_store_nth [OF _ d(3,4) that, of ?b] d(2) that(1) by (simp add: requested_byte_def)
  then show ?thesis using d s unfolding n_def [symmetric] by (simp add: overlay_def nth_append)
qed

text \<open>What a write leaves alone, and that the partitions stay writable.\<close>

lemma write_umip_steps:
  assumes "write_umip_emmc mmap_ok addr_offset data sz files = Some (0, files')"
  obtains n files1 where "write_boot mmap_ok addr_offset data n 0 files = Some (True, files1)"
    "write_boot mmap_ok addr_offset data n 1 files1 = Some (True, files')"
  using assms by (auto simp: write_umip_emmc_def Let_def bind_eq_Some_conv split: if_splits)

lemma write_umip_frame:
  assumes "write_umip_emmc mmap_ok addr_offset data sz files = Some (0, files')"
    and "\<And>i. p \<noteq> boot_partition_path i" "\<And>i. p \<noteq> boot_force_ro_path i"
  shows "files' p = files p"
  using write_umip_steps [OF assms(1)] write_boot_success assms(2,3) by metis

lemma dev_write_again: "dev_write d pos bs = Some (n, d') \<Longrightarrow> dev_write d' pos bs \<noteq> None"
  by (auto simp: dev_write_def Let_def split: if_splits)

lemma write_boot_writable:
  assumes "write_boot mmap_ok addr_offset data sz j files = Some (True, files')" "boot_writable mmap_ok i files" "i < 2" "j < 2"
  shows "boot_writable mmap_ok i files'"
proof -
  obtain r d where rd: "files (boot_force_ro_path i) = Some r" "dev_write r 0 [0x30, 0] \<noteq> None"
      "files (boot_partition_path i) = Some d" "BOOT_IFWI_SIZE \<le> length (bytes d)" "mmap_ok (boot_partition_path i)"
    using assms(2) unfolding boot_writable_def by blast
  have ij: "boot_partition_path i \<noteq> boot_partition_path j" "boot_force_ro_path i \<noteq> boot_force_ro_path j" if "i \<noteq> j"
    using that assms(3,4) by (auto simp: boot_partition_path_def boot_force_ro_path_def)
  note s = write_boot_success [OF assms(1)]
  have "\<exists>r'. files' (boot_force_ro_path i) = Some r' \<and> dev_write r' 0 [0x30, 0] \<noteq> None"
  proof (cases "i = j")
    case True
    obtain k r' where r': "dev_write r 0 [0x30, 0] = Some (k, r')" using rd(2) by auto
    have "files' (boot_force_ro_path j) = Some r'"
      using assms(1) rd(1) r' boot_paths(1) [of j j] unfolding write_boot_def force_rw_def True
      by (auto split: if_splits option.splits simp: bind_eq_Some_conv Let_def)
    then show ?thesis using dev_write_again [OF r'] True by simp
  next
    case False
    then show ?thesis using s ij boot_paths(1) rd by (metis boot_paths(1))
  qed
  moreover have "\<exists>d'. files' (boot_partition_path i) = Some d' \<and> BOOT_IFWI_SIZE \<le> length (bytes d')"
  proof (cases "i = j")
    case True
    then obtain d0 bs where "files (boot_partition_path i) = Some d0" "BOOT_IFWI_SIZE \<le> length (bytes d0)" "addr_offset + length bs \<le> BOOT_IFWI_SIZE"
        "files' (boot_partition_path i) = Some (d0\<lparr>bytes := overlay 0 (umip_store addr_offset bs (take BOOT_IFWI_SIZE (bytes d0))) (bytes d0)\<rparr>)"
      using s length_umip_data unfolding written_def by blast
    moreover from this have "length (umip_store addr_offset bs (take BOOT_IFWI_SIZE (bytes d0))) = BOOT_IFWI_SIZE"
      using umip_store_checked [of "take BOOT_IFWI_SIZE (bytes d0)" addr_offset bs] by (simp add: same_contents_def)
    ultimately show ?thesis by simp
  next
    case False
    then show ?thesis using s ij boot_paths(1) rd by metis
  qed
  ultimately show ?thesis using rd(5) by (auto simp: boot_writable_def)
qed

lemma write_umip_writable:
  assumes "write_umip_emmc mmap_ok addr_offset data sz files = Some (0, files')" "boot_writable mmap_ok i files" "i < 2"
  shows "boot_writable mmap_ok i files'"
proof -
  obtain n files1 where w: "write_boot mmap_ok addr_offset data n 0 files = Some (True, files1)"
      "write_boot mmap_ok addr_offset data n 1 files1 = Some (True, files')"
    by (rule write_umip_steps [OF assms(1)])
  have "boot_writable mmap_ok i files1" using write_boot_writable [OF w(1) assms(2,3)] by simp
  from write_boot_writable [OF w(2) this assms(3)] show ?thesis by simp
qed

subsection \<open>Properties\<close>

text \<open>C15: A write to the boot partitions stores what it was asked to and leaves valid checksums. When \<open>write_umip_emmc\<close> succeeds, whatever
  the partitions held, then in both of them each sector from 2 to 127 of the UMIP has its checksum in the table, the bytes of the
  UMIP and the words of the whole image have the exclusive or 0, every byte outside the checksums is the one that was asked for (in
  particular the tokens are as before when a whole image is written), and the bytes behind the image are as before.\<close>

theorem umip_write_correct:
  assumes "write_umip_emmc mmap_ok addr_offset data sz files = Some (0, files')" "i < 2"
  shows "\<exists>d d'. files (boot_partition_path i) = Some d \<and> files' (boot_partition_path i) = Some d' \<and>
    ifwi_checked (take BOOT_IFWI_SIZE (bytes d')) \<and> drop BOOT_IFWI_SIZE (bytes d') = drop BOOT_IFWI_SIZE (bytes d) \<and>
    (\<forall>j<BOOT_IFWI_SIZE. \<not> checksum_place j \<longrightarrow>
       bytes d' ! j = requested_byte addr_offset data (if addr_offset = 0 then min sz BOOT_IFWI_SIZE else sz) (bytes d) j)"
  using assms by (rule umip_written)

text \<open>The tokens are erased on a device whose two boot partitions have 4 MB.\<close>

definition sample_dev :: "bool \<Rightarrow> buffer \<Rightarrow> blkdev" where
  "sample_dev reg b = \<lparr>bytes = b, regular = reg, stat_ok = True, blk_size = None, blk_ssz = None,
     bad_read = (\<lambda>_. False), bad_write = (\<lambda>_. False)\<rparr>"

definition sample_boot_files :: fs where
  "sample_boot_files =
    [boot_force_ro_path 0 \<mapsto> sample_dev True [0x31, 0], boot_force_ro_path 1 \<mapsto> sample_dev True [0x31, 0],
     boot_partition_path 0 \<mapsto> sample_dev False (replicate BOOT_IFWI_SIZE 0), boot_partition_path 1 \<mapsto> sample_dev False (replicate BOOT_IFWI_SIZE 0)]"

theorem umip_write_correct_witness:
  "\<exists>files'. write_umip_emmc (\<lambda>_. True) TOKEN_UMIP_AREA_OFFSET None TOKEN_UMIP_AREA_SIZE sample_boot_files = Some (0, files') \<and>
    (\<exists>d. files' (boot_partition_path 1) = Some d \<and> ifwi_checked (take BOOT_IFWI_SIZE (bytes d)))"
proof -
  have "boot_writable (\<lambda>_. True) 0 sample_boot_files" "boot_writable (\<lambda>_. True) 1 sample_boot_files"
    by (simp_all add: boot_writable_def sample_boot_files_def boot_partition_path_def boot_force_ro_path_def sample_dev_def dev_write_def)
  then obtain files' where "write_umip_emmc (\<lambda>_. True) TOKEN_UMIP_AREA_OFFSET None TOKEN_UMIP_AREA_SIZE sample_boot_files = Some (0, files')"
    using write_umip_succeeds [of "\<lambda>_. True" sample_boot_files TOKEN_UMIP_AREA_OFFSET TOKEN_UMIP_AREA_SIZE None] by (auto simp: umip_data_def)
  then show ?thesis using umip_write_correct [of "\<lambda>_. True" TOKEN_UMIP_AREA_OFFSET None TOKEN_UMIP_AREA_SIZE sample_boot_files files' 1] by auto
qed

end
