(* ===== verification/Ifwi_Ipc.thy ===== *)
theory Ifwi_Ipc
  imports Fw_Version Stdio
begin

text \<open>
  The update of the firmware (IFWI) through the SCU driver (\<open>flash_scu_ipc/ifwi.c\<close>): the gate on the versions, the transfer of
  the downloader (DNX) and of the image to the files of the driver, and the update by one \<open>ioctl\<close>. \<open>clvt\<close> is the
  build flag \<open>CLVT\<close>. \<open>None\<close> is a version number that C leaves undefined.
\<close>

unbundle bit_operations_syntax

subsection \<open>Definitions\<close>

definition DNX_SYSFS_INT :: string where "DNX_SYSFS_INT = ''/sys/devices/ipc/intel_fw_update.0/dnx''"
definition DNX_SYSFS_INT_ALT :: string where "DNX_SYSFS_INT_ALT = ''/sys/kernel/fw_update/dnx''"
definition IFWI_SYSFS_INT :: string where "IFWI_SYSFS_INT = ''/sys/devices/ipc/intel_fw_update.0/ifwi''"
definition IFWI_SYSFS_INT_ALT :: string where "IFWI_SYSFS_INT_ALT = ''/sys/kernel/fw_update/ifwi''"
definition BIN_DNX :: string where "BIN_DNX = ''/tmp/__dnx.bin''"
definition BIN_IFWI :: string where "BIN_IFWI = ''/tmp/__ifwi.bin''"
definition IPC_DEVICE_NAME :: string where "IPC_DEVICE_NAME = ''/dev/mid_ipc''"

abbreviation (input) "BUF_SIZ \<equiv> 4096 :: nat"

text \<open>What a stream on the file reads.\<close>

definition stream_of :: "fs \<Rightarrow> string \<Rightarrow> buffer option" where
  "stream_of files p = map_option (\<lambda>d. read_stream d 0) (files p)"

definition ifwi_downgrade_allowed :: "fs \<Rightarrow> string \<Rightarrow> int" where
  "ifwi_downgrade_allowed files ifwi_file =
    (case crack_update_fw_pti_field (stream_of files ifwi_file) of None \<Rightarrow> - 1
     | Some pti_field \<Rightarrow> if pti_field AND 0x80 \<noteq> 0 then 1 else 0)"

text \<open>The loop with the bytes written so far and the attempts that are left.\<close>

fun retry_loop :: "nat \<Rightarrow> buffer \<Rightarrow> nat \<Rightarrow> nat \<Rightarrow> blkdev \<Rightarrow> nat \<times> blkdev" where
  "retry_loop 0 buf w_bytes pos d = (w_bytes, d)"
| "retry_loop (Suc k) buf w_bytes pos d =
    (if w_bytes < length buf then
       let (n, d) = fwrite d (pos + w_bytes) (drop w_bytes buf) in retry_loop k buf (w_bytes + n) pos d
     else (w_bytes, d))"

definition retry_write :: "buffer \<Rightarrow> nat \<Rightarrow> blkdev \<Rightarrow> int \<times> blkdev" where
  "retry_write buf pos d = (let (w_bytes, d) = retry_loop 3 buf 0 pos d in (if w_bytes < length buf then - 1 else 0, d))"

text \<open>The loop over the blocks of the source, whose stream yields \<open>bs\<close>.\<close>

function copy_blocks :: "buffer \<Rightarrow> nat \<Rightarrow> blkdev \<Rightarrow> int \<times> blkdev" where
  "copy_blocks bs pos d =
    (if bs = [] then (0, d)
     else let (r, d) = retry_write (take BUF_SIZ bs) pos d in
       if r = - 1 then (- 1, d) else copy_blocks (drop BUF_SIZ bs) (pos + length (take BUF_SIZ bs)) d)"
  by auto
termination by (relation "measure (\<lambda>(bs, pos, d). length bs)") auto

declare copy_blocks.simps [simp del]

text \<open>Opening the file of the driver, or the alternative one, and copying the source to it.\<close>

definition send_file :: "(string \<Rightarrow> bool) \<Rightarrow> string \<Rightarrow> string \<Rightarrow> string \<Rightarrow> fs \<Rightarrow> int \<times> fs" where
  "send_file creatable src dst dst_alt files =
    (case files src of None \<Rightarrow> (- 1, files)
     | Some _ \<Rightarrow>
       (case (case open_trunc creatable files dst of Some d \<Rightarrow> Some (dst, d)
              | None \<Rightarrow> map_option (Pair dst_alt) (open_trunc creatable files dst_alt)) of
          None \<Rightarrow> (- 1, files)
        | Some (path, d) \<Rightarrow>
          let files = files(path \<mapsto> d);
              (r, d) = copy_blocks (the (stream_of files src)) 0 d
          in (r, files(path \<mapsto> d))))"

text \<open>The gate: whether the image is flashed.\<close>

definition ifwi_accepted :: "bool \<Rightarrow> fw_version \<Rightarrow> fw_version \<Rightarrow> int \<Rightarrow> bool" where
  "ifwi_accepted clvt img dev ifwi_allowed =
    (if major img \<noteq> major dev then False
     else if clvt \<and> minor img AND 0x80 \<noteq> minor dev AND 0x80 then False
     else if minor img < minor dev \<and> ifwi_allowed = 0 then False
     else if minor img = minor dev then False
     else True)"

definition update_ifwi_file_scu_ipc :: "bool \<Rightarrow> (string \<Rightarrow> bool) \<Rightarrow> string \<Rightarrow> string \<Rightarrow> fs \<Rightarrow> (int \<times> fs) option" where
  "update_ifwi_file_scu_ipc clvt creatable dnx_file ifwi_file files =
    (case crack_update_fw (stream_of files ifwi_file) of None \<Rightarrow> Some (- 1, files)
     | Some img_ifwi_rev \<Rightarrow>
       do { (r, dev) \<leftarrow> get_current_fw_rev files;
            case dev of None \<Rightarrow> Some (- 1, files)
            | Some dev_fw_rev \<Rightarrow>
              if r \<noteq> 0 then Some (- 1, files)
              else
                let ifwi_allowed = ifwi_downgrade_allowed files ifwi_file in
                if ifwi_allowed = - 1 then Some (- 1, files)
                else if \<not> ifwi_accepted clvt img_ifwi_rev (ifwi dev_fw_rev) ifwi_allowed then Some (0, files)
                else
                  let (ret, files) = send_file creatable dnx_file DNX_SYSFS_INT DNX_SYSFS_INT_ALT files in
                  if ret \<noteq> 0 then Some (ret, files)
                  else Some (send_file creatable ifwi_file IFWI_SYSFS_INT IFWI_SYSFS_INT_ALT files) })"

text \<open>The packet: the size of the image, the flag, a reserved word, and the image.\<close>

definition update_packet :: "buffer \<Rightarrow> u32 \<Rightarrow> buffer" where
  "update_packet data reset_flag = le_bytes 4 (of_nat (length data) :: u32) @ le_bytes 4 reset_flag @ le_bytes 4 (0 :: u32) @ data"

text \<open>\<open>ioctl\<close> is the result of the driver for a packet. The value has the result and the packet that has been sent.\<close>

definition update_ifwi_image_scu_ipc :: "(buffer \<Rightarrow> int) \<Rightarrow> buffer \<Rightarrow> u32 \<Rightarrow> fs \<Rightarrow> (int \<times> buffer option) option" where
  "update_ifwi_image_scu_ipc ioctl data reset_flag files =
    (let (r, img_fw_rev) = get_image_fw_rev data in
     if r \<noteq> 0 then Some (- 1, None)
     else do { (r, dev) \<leftarrow> get_current_fw_rev files;
               case dev of None \<Rightarrow> Some (- 1, None)
               | Some dev_fw_rev \<Rightarrow>
                 if r \<noteq> 0 then Some (- 1, None)
                 else if major (ifwi img_fw_rev) \<noteq> major (ifwi dev_fw_rev) then Some (- 1, None)
                 else let packet = update_packet data reset_flag in
                   case files IPC_DEVICE_NAME of None \<Rightarrow> Some (- 1, None)
                   | Some _ \<Rightarrow> Some (ioctl packet, Some packet) })"

definition flash_dnx_scu_ipc :: "(string \<Rightarrow> bool) \<Rightarrow> buffer \<Rightarrow> fs \<Rightarrow> int \<times> fs" where
  "flash_dnx_scu_ipc creatable data files =
    (let (r, files) = file_write creatable BIN_DNX data files in (if r \<noteq> 0 then - 1 else 0, files))"

definition flash_ifwi_scu_ipc :: "bool \<Rightarrow> (string \<Rightarrow> bool) \<Rightarrow> buffer \<Rightarrow> fs \<Rightarrow> (int \<times> fs) option" where
  "flash_ifwi_scu_ipc clvt creatable data files =
    (if files BIN_DNX = None then Some (- 1, files)
     else if fst (get_image_fw_rev data) \<noteq> 0 then Some (- 1, files)
     else
       let (r, files) = file_write creatable BIN_IFWI data files in
       if r \<noteq> 0 then Some (- 1, files)
       else do { (r, files) \<leftarrow> update_ifwi_file_scu_ipc clvt creatable BIN_DNX BIN_IFWI files;
                 Some (if r \<noteq> 0 then - 1 else 0, files) })"

definition is_scu_ipc :: "(string \<Rightarrow> string) \<Rightarrow> bool" where
  "is_scu_ipc property \<longleftrightarrow> length (property ''sys.mia.version'') = 0"


subsection \<open>The transfer on files without errors\<close>

lemma fwrite_append: "ok_file d \<Longrightarrow> fwrite d (length (bytes d)) bs = (length bs, d\<lparr>bytes := bytes d @ bs\<rparr>)"
  by (simp add: fwrite_def dev_write_def ok_file_def overlay_def)

lemma retry_write_append:
  assumes "ok_file d"
  shows "retry_write bs (length (bytes d)) d = (0, d\<lparr>bytes := bytes d @ bs\<rparr>)"
proof (cases "bs = []")
  case True
  then show ?thesis by (simp add: retry_write_def numeral_3_eq_3)
next
  case False
  then show ?thesis using fwrite_append [OF assms, of bs] by (simp add: retry_write_def numeral_3_eq_3)
qed

lemma copy_blocks_append: "ok_file d \<Longrightarrow> copy_blocks bs (length (bytes d)) d = (0, d\<lparr>bytes := bytes d @ bs\<rparr>)"
proof (induction bs "length (bytes d)" d rule: copy_blocks.induct)
  case (1 bs d)
  show ?case
  proof (cases "bs = []")
    case True
    then show ?thesis by (simp add: copy_blocks.simps)
  next
    case False
    let ?d = "d\<lparr>bytes := bytes d @ take BUF_SIZ bs\<rparr>"
    have w: "retry_write (take BUF_SIZ bs) (length (bytes d)) d = (0, ?d)" using retry_write_append [OF 1(2)] .
    have "copy_blocks (drop BUF_SIZ bs) (length (bytes ?d)) ?d = (0, ?d\<lparr>bytes := bytes ?d @ drop BUF_SIZ bs\<rparr>)"
      using 1(2) w False by (intro 1(1)) auto
    then show ?thesis using False w by (subst copy_blocks.simps) simp
  qed
qed

lemma stream_ok: "files p = Some d \<Longrightarrow> ok_file d \<Longrightarrow> stream_of files p = Some (bytes d)"
  by (simp add: stream_of_def read_stream_ok)

lemma send_file_ok:
  assumes "files src = Some f" "ok_file f" "writable_path creatable files dst" "src \<noteq> dst"
  obtains d where "ok_file d" "send_file creatable src dst dst_alt files = (0, files(dst \<mapsto> d\<lparr>bytes := bytes f\<rparr>))"
proof -
  obtain d where d: "open_trunc creatable files dst = Some d" "ok_file d" "bytes d = []"
    by (rule open_trunc_writable [OF assms(3)])
  have "stream_of (files(dst \<mapsto> d)) src = Some (bytes f)" using assms by (intro stream_ok) simp_all
  moreover have "copy_blocks (bytes f) 0 d = (0, d\<lparr>bytes := bytes f\<rparr>)"
    using copy_blocks_append [OF d(2), of "bytes f"] d(3) by simp
  ultimately have "send_file creatable src dst dst_alt files = (0, files(dst \<mapsto> d\<lparr>bytes := bytes f\<rparr>))"
    using assms(1) d(1) by (simp add: send_file_def)
  with d(2) show ?thesis by (rule that)
qed

lemma get_current_fw_rev_cong:
  "files' DEVICE_NAME = files DEVICE_NAME \<Longrightarrow> files' DEVICE_NAME_ALT = files DEVICE_NAME_ALT \<Longrightarrow>
    get_current_fw_rev files' = get_current_fw_rev files"
  unfolding get_current_fw_rev_def read_fw_revision_def by (simp only:)

lemmas ipc_paths = DNX_SYSFS_INT_def IFWI_SYSFS_INT_def BIN_DNX_def BIN_IFWI_def DEVICE_NAME_def DEVICE_NAME_ALT_def

subsection \<open>Properties\<close>

text \<open>The versions that may be flashed: those of the same major number, which stands for the kind of device, and newer, or
  older when the image is one for development (bit 7 of its PTI field).\<close>

definition may_flash :: "bool \<Rightarrow> fw_version \<Rightarrow> fw_version \<Rightarrow> byte \<Rightarrow> bool" where
  "may_flash clvt img dev pti \<longleftrightarrow> major img = major dev \<and> (clvt \<longrightarrow> bit (minor img) 7 = bit (minor dev) 7) \<and>
    (unat (minor dev) < unat (minor img) \<or> unat (minor img) < unat (minor dev) \<and> bit pti 7)"

lemma and_128: "x AND 0x80 = (if bit x 7 then 0x80 else 0)" for x :: byte
proof (rule bit_word_eqI)
  fix n
  have "bit (0x80 :: byte) n = (n = 7)" using bit_exp_iff [where 'a = "8 word", of 7 n] by auto
  then show "bit (x AND 0x80) n = bit (if bit x 7 then 0x80 else 0 :: byte) n"
    by (cases "bit x 7"; cases "n = 7") (simp_all only: bit_and_iff if_True if_False bit_0_eq bot_apply simp_thms bot_bool_def)
qed

lemma ifwi_accepted_iff:
  "ifwi_accepted clvt img dev (if pti AND 0x80 \<noteq> 0 then 1 else 0) = may_flash clvt img dev pti"
  by (auto simp: ifwi_accepted_def may_flash_def and_128 word_less_nat_alt word_unat_eq_iff)

lemma update_file_result:
  assumes "crack_update_fw (stream_of files ifwi_file) = Some img" "get_current_fw_rev files = Some (0, Some dev)"
    and "crack_update_fw_pti_field (stream_of files ifwi_file) = Some pti"
  shows "update_ifwi_file_scu_ipc clvt creatable dnx_file ifwi_file files =
    Some (if may_flash clvt img (ifwi dev) pti then
        (let (ret, files) = send_file creatable dnx_file DNX_SYSFS_INT DNX_SYSFS_INT_ALT files in
         if ret \<noteq> 0 then (ret, files) else send_file creatable ifwi_file IFWI_SYSFS_INT IFWI_SYSFS_INT_ALT files)
      else (0, files))"
proof -
  have a: "ifwi_downgrade_allowed files ifwi_file = (if pti AND 0x80 \<noteq> 0 then 1 else 0)"
    using assms(3) by (simp add: ifwi_downgrade_allowed_def)
  show ?thesis
    unfolding update_ifwi_file_scu_ipc_def assms(1,2) a using ifwi_accepted_iff [of clvt img "ifwi dev" pti]
    by (auto simp: Let_def split: prod.splits)
qed

text \<open>The firmware files of the driver are written only for an image that may be flashed: whenever
  \<open>update_ifwi_file_scu_ipc\<close> changes any file, the image and the device have versions that were read without an error, the
  major numbers agree, and the minor number is newer, or older with the development bit of the image set.\<close>

theorem ifwi_written_only_if_allowed:
  assumes "update_ifwi_file_scu_ipc clvt creatable dnx_file ifwi_file files = Some (r, files')" "files' \<noteq> files"
  shows "\<exists>img dev pti. crack_update_fw (stream_of files ifwi_file) = Some img \<and> get_current_fw_rev files = Some (0, Some dev) \<and>
    crack_update_fw_pti_field (stream_of files ifwi_file) = Some pti \<and> may_flash clvt img (ifwi dev) pti"
proof -
  obtain img where img: "crack_update_fw (stream_of files ifwi_file) = Some img"
    using assms by (auto simp: update_ifwi_file_scu_ipc_def split: option.splits)
  obtain dev where dev: "get_current_fw_rev files = Some (0, Some dev)"
    using assms img
    by (cases "get_current_fw_rev files") (auto simp: update_ifwi_file_scu_ipc_def split: option.splits if_splits)
  obtain pti where pti: "crack_update_fw_pti_field (stream_of files ifwi_file) = Some pti"
    using assms img dev
    by (cases "crack_update_fw_pti_field (stream_of files ifwi_file)")
      (auto simp: update_ifwi_file_scu_ipc_def ifwi_downgrade_allowed_def)
  have "may_flash clvt img (ifwi dev) pti"
    using assms update_file_result [OF img dev pti, of clvt creatable dnx_file] by (auto split: if_splits)
  with img dev pti show ?thesis by blast
qed

lemma dnx_then_readable_ifwi:
  assumes "writable_path creatable files BIN_DNX" "writable_path creatable files BIN_IFWI"
    and "writable_path creatable files DNX_SYSFS_INT" "writable_path creatable files IFWI_SYSFS_INT"
    and "fst (get_image_fw_rev fw) = 0" "crack_update_fw (Some fw) = Some img"
    and "crack_update_fw_pti_field (Some fw) = Some pti" "get_current_fw_rev files = Some (0, Some dev)"
  shows "\<exists>files1 files2. flash_dnx_scu_ipc creatable dnx files = (0, files1) \<and>
    flash_ifwi_scu_ipc clvt creatable fw files1 = Some (0, files2) \<and>
    (if may_flash clvt img (ifwi dev) pti
     then file_read files2 DNX_SYSFS_INT = Some dnx \<and> file_read files2 IFWI_SYSFS_INT = Some fw
     else files2 DNX_SYSFS_INT = files DNX_SYSFS_INT \<and> files2 IFWI_SYSFS_INT = files IFWI_SYSFS_INT)"
proof -
  obtain d1 where d1: "ok_file d1" "file_write creatable BIN_DNX dnx files = (0, files(BIN_DNX \<mapsto> d1\<lparr>bytes := dnx\<rparr>))"
    by (rule file_write_ok [OF assms(1)])
  define f1 where "f1 = files(BIN_DNX \<mapsto> d1\<lparr>bytes := dnx\<rparr>)"
  have "writable_path creatable f1 BIN_IFWI" using assms(2) by (simp add: f1_def writable_path_def ipc_paths)
  then obtain d2 where d2: "ok_file d2" "file_write creatable BIN_IFWI fw f1 = (0, f1(BIN_IFWI \<mapsto> d2\<lparr>bytes := fw\<rparr>))"
    by (rule file_write_ok)
  define f2 where "f2 = f1(BIN_IFWI \<mapsto> d2\<lparr>bytes := fw\<rparr>)"
  have other: "f2 p = files p" if "p \<noteq> BIN_DNX" "p \<noteq> BIN_IFWI" for p using that by (simp add: f2_def f1_def)
  have bin: "f2 BIN_DNX = Some (d1\<lparr>bytes := dnx\<rparr>)" "f2 BIN_IFWI = Some (d2\<lparr>bytes := fw\<rparr>)"
    by (simp_all add: f2_def f1_def ipc_paths)
  have cur: "get_current_fw_rev f2 = Some (0, Some dev)"
    using assms(8) get_current_fw_rev_cong [of f2 files] other by (simp add: ipc_paths)
  have st: "stream_of f2 BIN_IFWI = Some fw" using bin(2) d2(1) by (simp add: stream_of_def read_stream_ok)
  note upd = update_file_result [of f2 BIN_IFWI img dev pti clvt creatable BIN_DNX, unfolded st, OF assms(6) cur assms(7)]
  have fl: "flash_dnx_scu_ipc creatable dnx files = (0, f1)" by (simp add: flash_dnx_scu_ipc_def d1(2) f1_def)
  have fi: "flash_ifwi_scu_ipc clvt creatable fw f1 = Some (0, files2)"
    if "update_ifwi_file_scu_ipc clvt creatable BIN_DNX BIN_IFWI f2 = Some (0, files2)" for files2
    using that d2(2) assms(5) by (simp add: flash_ifwi_scu_ipc_def f2_def [symmetric]) (simp add: f1_def)
  have ne: "BIN_DNX \<noteq> DNX_SYSFS_INT" "BIN_IFWI \<noteq> DNX_SYSFS_INT" "BIN_IFWI \<noteq> IFWI_SYSFS_INT" "DNX_SYSFS_INT \<noteq> IFWI_SYSFS_INT"
      "BIN_DNX \<noteq> IFWI_SYSFS_INT" by (simp_all add: ipc_paths)
  show ?thesis
  proof (cases "may_flash clvt img (ifwi dev) pti")
    case False
    then show ?thesis using fl fi [of f2] upd other ne by (intro exI [of _ f1] exI [of _ f2]) simp
  next
    case True
    have "writable_path creatable f2 DNX_SYSFS_INT" using assms(3) other ne by (simp add: writable_path_def)
    then obtain d3 where d3: "ok_file d3" "send_file creatable BIN_DNX DNX_SYSFS_INT DNX_SYSFS_INT_ALT f2 =
        (0, f2(DNX_SYSFS_INT \<mapsto> d3\<lparr>bytes := dnx\<rparr>))"
      using send_file_ok [of f2 BIN_DNX "d1\<lparr>bytes := dnx\<rparr>" creatable DNX_SYSFS_INT] bin(1) d1(1) ne by auto
    define f3 where "f3 = f2(DNX_SYSFS_INT \<mapsto> d3\<lparr>bytes := dnx\<rparr>)"
    have "writable_path creatable f3 IFWI_SYSFS_INT" using assms(4) other ne by (simp add: writable_path_def f3_def)
    moreover have "f3 BIN_IFWI = Some (d2\<lparr>bytes := fw\<rparr>)" using bin(2) ne by (simp add: f3_def)
    ultimately obtain d4 where d4: "ok_file d4" "send_file creatable BIN_IFWI IFWI_SYSFS_INT IFWI_SYSFS_INT_ALT f3 =
        (0, f3(IFWI_SYSFS_INT \<mapsto> d4\<lparr>bytes := fw\<rparr>))"
      using send_file_ok [of f3 BIN_IFWI "d2\<lparr>bytes := fw\<rparr>" creatable IFWI_SYSFS_INT] d2(1) ne by auto
    define f4 where "f4 = f3(IFWI_SYSFS_INT \<mapsto> d4\<lparr>bytes := fw\<rparr>)"
    have "update_ifwi_file_scu_ipc clvt creatable BIN_DNX BIN_IFWI f2 = Some (0, f4)"
      using upd True d3(2) d4(2) by (simp add: f3_def f4_def)
    moreover have "file_read f4 DNX_SYSFS_INT = Some dnx" "file_read f4 IFWI_SYSFS_INT = Some fw"
      using file_read_ok [of f4] d3(1) d4(1) ne by (simp_all add: f4_def f3_def)
    ultimately show ?thesis using fl fi [of f4] True by (intro exI [of _ f1] exI [of _ f4]) simp
  qed
qed

text \<open>An image is readable if the three searches in it succeed, and the versions of the device are if they were read without an error.\<close>

definition readable_ifwi :: "buffer \<Rightarrow> int \<times> firmware_versions option \<Rightarrow> bool" where
  "readable_ifwi fw cur \<longleftrightarrow> fst (get_image_fw_rev fw) = 0 \<and> crack_update_fw (Some fw) \<noteq> None \<and>
    crack_update_fw_pti_field (Some fw) \<noteq> None \<and> fst cur = 0 \<and> snd cur \<noteq> None"

lemma update_unreadable:
  assumes "stream_of files ifwi_file = Some fw" "get_current_fw_rev files = Some cur" "\<not> readable_ifwi fw cur"
    and "fst (get_image_fw_rev fw) = 0"
  shows "update_ifwi_file_scu_ipc clvt creatable dnx_file ifwi_file files = Some (- 1, files)"
  using assms
  by (cases cur) (auto simp: update_ifwi_file_scu_ipc_def readable_ifwi_def ifwi_downgrade_allowed_def split: option.splits)

lemma dnx_then_unreadable_ifwi:
  assumes "writable_path creatable files BIN_DNX" "writable_path creatable files BIN_IFWI"
    and "get_current_fw_rev files = Some cur" "\<not> readable_ifwi fw cur"
  shows "\<exists>files1 files2. flash_dnx_scu_ipc creatable dnx files = (0, files1) \<and>
    flash_ifwi_scu_ipc clvt creatable fw files1 = Some (- 1, files2) \<and>
    files2 DNX_SYSFS_INT = files DNX_SYSFS_INT \<and> files2 IFWI_SYSFS_INT = files IFWI_SYSFS_INT"
proof -
  obtain d1 where d1: "ok_file d1" "file_write creatable BIN_DNX dnx files = (0, files(BIN_DNX \<mapsto> d1\<lparr>bytes := dnx\<rparr>))"
    by (rule file_write_ok [OF assms(1)])
  define f1 where "f1 = files(BIN_DNX \<mapsto> d1\<lparr>bytes := dnx\<rparr>)"
  have "writable_path creatable f1 BIN_IFWI" using assms(2) by (simp add: f1_def writable_path_def ipc_paths)
  then obtain d2 where d2: "ok_file d2" "file_write creatable BIN_IFWI fw f1 = (0, f1(BIN_IFWI \<mapsto> d2\<lparr>bytes := fw\<rparr>))"
    by (rule file_write_ok)
  define f2 where "f2 = f1(BIN_IFWI \<mapsto> d2\<lparr>bytes := fw\<rparr>)"
  have other: "f2 p = files p" "f1 p = files p" if "p \<noteq> BIN_DNX" "p \<noteq> BIN_IFWI" for p using that by (simp_all add: f2_def f1_def)
  have fl: "flash_dnx_scu_ipc creatable dnx files = (0, f1)" by (simp add: flash_dnx_scu_ipc_def d1(2) f1_def)
  have ne: "DNX_SYSFS_INT \<notin> {BIN_DNX, BIN_IFWI}" "IFWI_SYSFS_INT \<notin> {BIN_DNX, BIN_IFWI}" by (simp_all add: ipc_paths)
  show ?thesis
  proof (cases "fst (get_image_fw_rev fw) = 0")
    case False
    then show ?thesis using fl other ne by (intro exI [of _ f1]) (simp add: flash_ifwi_scu_ipc_def f1_def)
  next
    case True
    have cur: "get_current_fw_rev f2 = Some cur" using assms(3) get_current_fw_rev_cong [of f2 files] other by (simp add: ipc_paths)
    have st: "stream_of f2 BIN_IFWI = Some fw" using d2(1) by (simp add: stream_of_def read_stream_ok f2_def)
    have "flash_ifwi_scu_ipc clvt creatable fw f1 = Some (- 1, f2)"
      using True d2(2) update_unreadable [OF st cur assms(4) True, of clvt creatable BIN_DNX]
      by (simp add: flash_ifwi_scu_ipc_def f2_def [symmetric]) (simp add: f1_def)
    then show ?thesis using fl other ne by (intro exI [of _ f1] exI [of _ f2]) simp
  qed
qed


text \<open>An image of version 0.1 that is newer than the version 0.0 of the device.\<close>

definition sample_ifwi :: buffer where
  "sample_ifwi = le_bytes 4 FIP_PATTERN @ le_bytes 4 SMIP_PATTERN @ replicate 32 0 @ [1, 0, 0, 0] @ replicate 740 0 @ [0x80]"

definition sample_ipc_files :: fs where
  "sample_ipc_files = [DEVICE_NAME \<mapsto> empty_file, DNX_SYSFS_INT \<mapsto> empty_file, IFWI_SYSFS_INT \<mapsto> empty_file]"

lemma le_bytes_SMIP: "le_bytes 4 SMIP_PATTERN = [0x53, 0x4D, 0x49, 0x50]"
  and le_bytes_FIP: "le_bytes 4 FIP_PATTERN = [0x24, 0x46, 0x49, 0x50]"
proof -
  have four: "(4 :: nat) = Suc (Suc (Suc (Suc 0)))" by simp
  show "le_bytes 4 SMIP_PATTERN = [0x53, 0x4D, 0x49, 0x50]" "le_bytes 4 FIP_PATTERN = [0x24, 0x46, 0x49, 0x50]"
    unfolding four by (simp_all add: FIP_PATTERN_def SMIP_PATTERN_def)
qed

lemma sample_ifwi_bytes:
  "sample_ifwi = [0x24, 0x46, 0x49, 0x50, 0x53, 0x4D, 0x49, 0x50] @ replicate 32 0 @ [1, 0, 0, 0] @ replicate 740 0 @ [0x80]"
  by (simp add: sample_ifwi_def le_bytes_SMIP le_bytes_FIP)

lemma sample_ifwi_length: "length sample_ifwi = 785"
  by (simp add: sample_ifwi_bytes)

lemma sample_ifwi_patterns:
  "seg 0 4 sample_ifwi = le_bytes 4 FIP_PATTERN" "seg 4 4 sample_ifwi = le_bytes 4 SMIP_PATTERN"
  by (simp_all add: sample_ifwi_def seg_def)

lemma sample_crack: "crack_update_fw (Some sample_ifwi) = Some \<lparr>major = 0, minor = 1\<rparr>"
proof -
  have "find_pattern FIP_PATTERN sample_ifwi 0 = Some 0"
    by (subst find_pattern.simps) (simp add: sample_ifwi_length sample_ifwi_patterns)
  moreover have "sample_ifwi ! 40 = 1" "sample_ifwi ! 41 = 0" by (simp_all add: sample_ifwi_bytes nth_append nth_Cons')
  ultimately show ?thesis by (simp add: crack_update_fw_def crack_from.simps sample_ifwi_length)
qed

lemma sample_pti: "crack_update_fw_pti_field (Some sample_ifwi) = Some 0x80"
proof -
  have s: "le_word (seg i 4 sample_ifwi) \<noteq> SMIP_PATTERN" if "i < 4" for i
  proof
    assume a: "le_word (seg i 4 sample_ifwi) = SMIP_PATTERN"
    have "seg i 4 sample_ifwi = le_bytes 4 SMIP_PATTERN"
      using le_bytes_le_word [where 'a = 32, of "seg i 4 sample_ifwi" 4] a that by (simp add: sample_ifwi_length)
    then have "sample_ifwi ! i = 0x53" using seg_nth [of 0 4 i sample_ifwi, symmetric] that sample_ifwi_length le_bytes_SMIP by simp
    moreover have "i = 0 \<or> i = 1 \<or> i = 2 \<or> i = 3" using that by linarith
    ultimately show False by (auto simp: sample_ifwi_bytes)
  qed
  have "find_pattern SMIP_PATTERN sample_ifwi i = find_pattern SMIP_PATTERN sample_ifwi (i + 1)" if "i < 4" for i
    using s [OF that] that by (subst find_pattern.simps) (simp add: sample_ifwi_length)
  from this [of 0] this [of 1] this [of 2] this [of 3]
  have "find_pattern SMIP_PATTERN sample_ifwi 0 = find_pattern SMIP_PATTERN sample_ifwi 4" by (simp add: numeral_eq_Suc)
  also have "\<dots> = Some 4" by (subst find_pattern.simps) (simp add: sample_ifwi_length sample_ifwi_patterns)
  finally show ?thesis by (simp add: crack_update_fw_pti_field_def PTI_FIELD_OFFSET_def sample_ifwi_length) (simp add: sample_ifwi_bytes nth_append)
qed

lemma scan_magic_found: "snd (scan_magic n b True)"
  by (induction n b True rule: scan_magic.induct) (subst scan_magic.simps, simp)

lemma fip_loop_found: "fst (fip_loop n merge b True v) = 0"
proof (induction n merge b True v rule: fip_loop.induct)
  case (1 n merge b v)
  obtain b' f where s: "scan_magic n b True = (b', f)" by fastforce
  then have "f" using scan_magic_found [of n b] by simp
  then show ?case using 1 s by (subst fip_loop.simps) (auto simp: Let_def)
qed

lemma sample_rev: "fst (get_image_fw_rev sample_ifwi) = 0"
proof -
  have "take 4 sample_ifwi = le_bytes 4 FIP_PATTERN" by (simp add: sample_ifwi_def)
  then have "scan_magic 44 sample_ifwi False = (sample_ifwi, True)"
    by (subst scan_magic.simps) (simp add: sample_ifwi_length)
  then show ?thesis unfolding get_image_fw_rev_def
    by (subst fip_loop.simps) (simp add: sample_ifwi_length fip_loop_found)
qed

lemma sample_ipc_facts:
  "writable_path (\<lambda>_. True) sample_ipc_files p"
  "get_current_fw_rev sample_ipc_files = Some (0, Some no_versions)"
proof -
  have "ok_file empty_file" by (simp add: ok_file_def empty_file_def)
  then show "writable_path (\<lambda>_. True) sample_ipc_files p"
    by (simp add: writable_path_def sample_ipc_files_def split: option.splits)
  have "dev_read empty_file 0 255 = Some []" by (simp add: dev_read_def empty_file_def seg_def)
  then have "read_fw_revision sample_ipc_files 16 = Some (0, replicate 16 0)"
    by (simp add: read_fw_revision_def sample_ipc_files_def ipc_paths tokens_def)
  then show "get_current_fw_rev sample_ipc_files = Some (0, Some no_versions)"
    by (simp add: get_current_fw_rev_def version_at_def no_versions_def no_version_def)
qed

lemma sample_may_flash: "may_flash clvt \<lparr>major = 0, minor = 1\<rparr> (ifwi no_versions) 0x80"
proof -
  have "\<not> bit (1 :: byte) 7" "\<not> bit (0 :: byte) 7" by simp_all
  then show ?thesis by (simp add: may_flash_def no_versions_def no_version_def)
qed


theorem ifwi_written_only_if_allowed_witness:
  "\<exists>files r files'. update_ifwi_file_scu_ipc True (\<lambda>_. True) BIN_DNX BIN_IFWI files = Some (r, files') \<and> files' \<noteq> files \<and>
    (\<exists>img dev pti. crack_update_fw (stream_of files BIN_IFWI) = Some img \<and> get_current_fw_rev files = Some (0, Some dev) \<and>
      crack_update_fw_pti_field (stream_of files BIN_IFWI) = Some pti \<and> may_flash True img (ifwi dev) pti)"
proof -
  let ?e = "empty_file" let ?dnx = "?e\<lparr>bytes := [1, 2, 3]\<rparr>" let ?fw = "?e\<lparr>bytes := sample_ifwi\<rparr>"
  define files where "files = sample_ipc_files(BIN_DNX \<mapsto> ?dnx, BIN_IFWI \<mapsto> ?fw)"
  have e: "ok_file ?e" by (simp add: ok_file_def empty_file_def)
  then have st: "stream_of files BIN_IFWI = Some sample_ifwi"
    using stream_ok [of files BIN_IFWI ?fw] by (simp add: files_def)
  have cur: "get_current_fw_rev files = Some (0, Some no_versions)"
    using get_current_fw_rev_cong [of files sample_ipc_files] sample_ipc_facts(2) by (simp add: files_def ipc_paths)
  note upd = update_file_result [of files BIN_IFWI _ no_versions _ True "\<lambda>_. True" BIN_DNX, unfolded st, OF sample_crack cur sample_pti]
  have wr: "writable_path (\<lambda>_. True) f p" if "\<forall>d. f p = Some d \<longrightarrow> ok_file d" for f p
    using that by (simp add: writable_path_def split: option.splits)
  have f: "files BIN_DNX = Some ?dnx" "files BIN_IFWI = Some ?fw" "files DNX_SYSFS_INT = Some ?e" "files IFWI_SYSFS_INT = Some ?e"
    by (simp_all add: files_def sample_ipc_files_def ipc_paths)
  obtain d3 where d3: "ok_file d3" "send_file (\<lambda>_. True) BIN_DNX DNX_SYSFS_INT DNX_SYSFS_INT_ALT files =
      (0, files(DNX_SYSFS_INT \<mapsto> d3\<lparr>bytes := bytes ?dnx\<rparr>))"
    by (rule send_file_ok [of files BIN_DNX ?dnx "\<lambda>_. True" DNX_SYSFS_INT]) (use f e wr in \<open>auto simp: ipc_paths\<close>)
  let ?f3 = "files(DNX_SYSFS_INT \<mapsto> d3\<lparr>bytes := bytes ?dnx\<rparr>)"
  obtain d4 where d4: "ok_file d4" "send_file (\<lambda>_. True) BIN_IFWI IFWI_SYSFS_INT IFWI_SYSFS_INT_ALT ?f3 =
      (0, ?f3(IFWI_SYSFS_INT \<mapsto> d4\<lparr>bytes := bytes ?fw\<rparr>))"
    by (rule send_file_ok [of ?f3 BIN_IFWI ?fw "\<lambda>_. True" IFWI_SYSFS_INT]) (use f e wr in \<open>auto simp: ipc_paths\<close>)
  let ?f4 = "?f3(IFWI_SYSFS_INT \<mapsto> d4\<lparr>bytes := bytes ?fw\<rparr>)"
  have u: "update_ifwi_file_scu_ipc True (\<lambda>_. True) BIN_DNX BIN_IFWI files = Some (0, ?f4)"
    using upd sample_may_flash d3(2) d4(2) by simp
  have "bytes (the (?f4 IFWI_SYSFS_INT)) \<noteq> bytes (the (files IFWI_SYSFS_INT))" using f(4) by (simp add: sample_ifwi_bytes empty_file_def)
  then have ne: "?f4 \<noteq> files" by metis
  show ?thesis using ifwi_written_only_if_allowed [OF u ne] u ne by blast
qed

end
