(* ===== verification/Osip.thy ===== *)
theory Osip
  imports Util
begin

text \<open>
  The OS image profile (\<open>update_osip.h\<close>, \<open>update_osip.c\<close>): the header in the first bytes of the eMMC
  that tells the boot ROM where the firmware and the OS images are, its checksum, the table of slots, and the
  operations that read, write and edit the header. The device is what \<open>open(MMC_DEV_POS)\<close> finds:
  \<open>None\<close> where the call fails.

  An access to \<open>desc[i]\<close> for \<open>i \<ge> MAX_OSIP_DESC\<close> is undefined in C; a function that may make one
  returns an option, and \<open>None\<close> is that access. System calls are not interrupted by signals.
\<close>

subsection \<open>The structures\<close>

record OSII =
  os_rev_minor :: u16
  os_rev_major :: u16
  logical_start_block :: u32
  ddr_load_address :: u32
  entry_point :: u32
  size_of_os_image :: u32
  attribute :: byte
  osii_reserved :: "byte list"

record OSIP_header =
  osip_sig :: u32
  intel_reserved :: byte
  header_rev_minor :: byte
  header_rev_major :: byte
  header_checksum :: byte
  num_pointers :: byte
  num_images :: byte
  header_size :: u16
  osip_reserved :: "byte list"
  desc :: "OSII list"

definition enc_osii :: "OSII \<Rightarrow> buffer" where
  [codec_defs]: "enc_osii e = le_bytes 2 (os_rev_minor e) @ le_bytes 2 (os_rev_major e) @
     le_bytes 4 (logical_start_block e) @ le_bytes 4 (ddr_load_address e) @ le_bytes 4 (entry_point e) @
     le_bytes 4 (size_of_os_image e) @ [attribute e] @ osii_reserved e"

definition dec_osii :: "buffer \<Rightarrow> OSII" where
  [codec_defs]: "dec_osii b = \<lparr>os_rev_minor = le_word (seg 0 2 b), os_rev_major = le_word (seg 2 2 b),
     logical_start_block = le_word (seg 4 4 b), ddr_load_address = le_word (seg 8 4 b),
     entry_point = le_word (seg 12 4 b), size_of_os_image = le_word (seg 16 4 b),
     attribute = b ! 20, osii_reserved = seg 21 3 b\<rparr>"

definition osii_wf :: "OSII \<Rightarrow> bool" where
  "osii_wf e \<longleftrightarrow> length (osii_reserved e) = 3"

interpretation osii: struct_codec enc_osii dec_osii 24 osii_wf
proof
  fix x :: OSII
  assume wf: "osii_wf x"
  show "length (enc_osii x) = 24" using wf by (simp add: enc_osii_def osii_wf_def)
  show "dec_osii (enc_osii x) = x"
    using wf by (simp add: enc_osii_def dec_osii_def osii_wf_def buf_simps nth_append del: append_Cons)
next
  fix bs :: buffer
  assume len: "length bs = 24"
  show "enc_osii (dec_osii bs) = bs" using len by (simp add: enc_osii_def dec_osii_def buf_simps)
  show "osii_wf (dec_osii bs)" using len by (simp add: osii_wf_def dec_osii_def)
qed

text \<open>An array member is the images of its elements one after the other.\<close>

definition enc_array :: "('a \<Rightarrow> buffer) \<Rightarrow> 'a list \<Rightarrow> buffer" where
  [codec_defs]: "enc_array enc xs = concat (map enc xs)"

fun dec_array :: "(buffer \<Rightarrow> 'a) \<Rightarrow> nat \<Rightarrow> nat \<Rightarrow> buffer \<Rightarrow> 'a list" where
  "dec_array dec sz 0 b = []"
| "dec_array dec sz (Suc n) b = dec (take sz b) # dec_array dec sz n (drop sz b)"

context struct_codec
begin

lemma length_enc_array: "list_all wf xs \<Longrightarrow> length (enc_array enc xs) = length xs * sz"
  by (induction xs) (auto simp: enc_array_def length_enc)

lemma array_codec:
  "struct_codec (enc_array enc) (dec_array dec sz n) (n * sz) (\<lambda>xs. length xs = n \<and> list_all wf xs)"
proof
  fix xs
  assume "length xs = n \<and> list_all wf xs"
  then show "length (enc_array enc xs) = n * sz" "dec_array dec sz n (enc_array enc xs) = xs"
    by (auto simp: length_enc_array, induction n arbitrary: xs)
      (auto simp: length_Suc_conv enc_array_def length_enc dec_enc)
next
  fix bs :: buffer
  assume "length bs = n * sz"
  then show "enc_array enc (dec_array dec sz n bs) = bs"
    by (induction n arbitrary: bs) (auto simp: enc_array_def enc_dec)
next
  fix bs :: buffer
  assume "length bs = n * sz"
  then show "length (dec_array dec sz n bs) = n \<and> list_all wf (dec_array dec sz n bs)"
    by (induction n arbitrary: bs) (auto simp: wf_dec)
qed

end

interpretation osiis: struct_codec "enc_array enc_osii" "dec_array dec_osii 24 n" "n * 24"
  "\<lambda>es. length es = n \<and> list_all osii_wf es" for n
  by (rule osii.array_codec)

definition enc_osip :: "OSIP_header \<Rightarrow> buffer" where
  [codec_defs]: "enc_osip h = le_bytes 4 (osip_sig h) @ [intel_reserved h] @ [header_rev_minor h] @
     [header_rev_major h] @ [header_checksum h] @ [num_pointers h] @ [num_images h] @
     le_bytes 2 (header_size h) @ osip_reserved h @ enc_array enc_osii (desc h)"

definition dec_osip :: "buffer \<Rightarrow> OSIP_header" where
  [codec_defs]: "dec_osip b = \<lparr>osip_sig = le_word (seg 0 4 b), intel_reserved = b ! 4,
     header_rev_minor = b ! 5, header_rev_major = b ! 6, header_checksum = b ! 7, num_pointers = b ! 8,
     num_images = b ! 9, header_size = le_word (seg 10 2 b), osip_reserved = seg 12 20 b,
     desc = dec_array dec_osii 24 8 (seg 32 192 b)\<rparr>"

definition osip_wf :: "OSIP_header \<Rightarrow> bool" where
  "osip_wf h \<longleftrightarrow> length (osip_reserved h) = 20 \<and> length (desc h) = 8 \<and> list_all osii_wf (desc h)"

interpretation osip: struct_codec enc_osip dec_osip 224 osip_wf
proof
  fix x :: OSIP_header
  assume wf: "osip_wf x"
  then have arr: "length (enc_array enc_osii (desc x)) = 192"
    by (simp add: osip_wf_def osii.length_enc_array)
  show "length (enc_osip x) = 224" using wf arr by (simp add: enc_osip_def osip_wf_def)
  show "dec_osip (enc_osip x) = x"
    using wf arr osiis.dec_enc [of "desc x" 8]
    by (simp add: enc_osip_def dec_osip_def osip_wf_def buf_simps nth_append del: append_Cons)
next
  fix bs :: buffer
  assume len: "length bs = 224"
  show "enc_osip (dec_osip bs) = bs"
    using len osiis.enc_dec [of "seg 32 192 bs" 8] by (simp add: enc_osip_def dec_osip_def buf_simps)
  show "osip_wf (dec_osip bs)"
    using len osiis.wf_dec [of "seg 32 192 bs" 8] by (simp add: osip_wf_def dec_osip_def)
qed

subsection \<open>Constants\<close>

abbreviation LBA_SIZE :: nat where "LBA_SIZE \<equiv> 512"
abbreviation OSIP_SIG :: u32 where "OSIP_SIG \<equiv> 0x24534f24"
abbreviation DDR_LOAD_ADDX :: u32 where "DDR_LOAD_ADDX \<equiv> 0x01100000"
abbreviation ENTRY_POINT :: u32 where "ENTRY_POINT \<equiv> 0x01101000"

definition FW_MAX_LBA :: u32 where "FW_MAX_LBA = 2000"
definition OS_MAX_LBA :: u32 where "OS_MAX_LBA = 32000"

definition fw_lba_slots :: "u32 list" where
  "fw_lba_slots = [50, 50 + FW_MAX_LBA * 1]"

definition OS_START_OFFSET :: u32 where
  "OS_START_OFFSET = 50 + FW_MAX_LBA * of_nat (length fw_lba_slots)"

definition os_lba_slots :: "u32 list" where
  "os_lba_slots = map (\<lambda>k. OS_START_OFFSET + OS_MAX_LBA * k) [0, 1, 2, 3, 4, 5, 6, 7, 8]"

lemma fw_lba_slots_eq: "fw_lba_slots = [50, 2050]"
  by (simp add: fw_lba_slots_def FW_MAX_LBA_def)

lemma os_lba_slots_eq:
  "os_lba_slots = [4050, 36050, 68050, 100050, 132050, 164050, 196050, 228050, 260050]"
  by (simp add: os_lba_slots_def OS_START_OFFSET_def fw_lba_slots_eq FW_MAX_LBA_def OS_MAX_LBA_def)

text \<open>The attributes, as the switch statements see them, with bit 0 cleared. The labels 1 and 9
  (\<open>ATTR_UNSIGNED_KERNEL\<close>, \<open>ATTR_UNSIGNED_FW\<close>) and 3 (\<open>ATTR_FILESYSTEM\<close>) are odd and are never
  taken; they are kept as the code has them.\<close>

definition attr_kind :: "OSII \<Rightarrow> byte" where
  "attr_kind e = attribute e AND NOT 1"

definition fw_kind :: "byte \<Rightarrow> bool" where
  "fw_kind k \<longleftrightarrow> k \<in> {0x08, 0x09}"

definition os_kind :: "byte \<Rightarrow> bool" where
  "os_kind k \<longleftrightarrow> k \<in> {0x00, 0x01, 0x0A, 0x0E, 0x0C, 0x10, 0x16}"

definition desc_at :: "OSIP_header \<Rightarrow> nat \<Rightarrow> OSII option" where
  "desc_at h i = (if i < 8 then Some (desc h ! i) else None)"

definition set_desc :: "nat \<Rightarrow> OSII \<Rightarrow> OSIP_header \<Rightarrow> OSIP_header" where
  "set_desc i e h = h\<lparr>desc := (desc h)[i := e]\<rparr>"

subsection \<open>Checksum, size check and slot assignment\<close>

definition get_osip_crc :: "OSIP_header \<Rightarrow> byte" where
  "get_osip_crc h = (let dat = enc_osip h in foldl (XOR) (dat ! 0 XOR dat ! 1) (drop 2 dat))"

definition with_checksum :: "OSIP_header \<Rightarrow> OSIP_header" where
  "with_checksum h = (let h = h\<lparr>header_checksum := 0\<rparr> in h\<lparr>header_checksum := get_osip_crc h\<rparr>)"

text \<open>A failure is \<open>-1\<close>, success \<open>0\<close>.\<close>

definition fixup_osii :: "OSII \<Rightarrow> nat \<Rightarrow> u32 list \<Rightarrow> (OSII \<times> nat) option" where
  "fixup_osii e idx slots =
    (if idx \<ge> length slots - 1 then None else Some (e\<lparr>logical_start_block := slots ! idx\<rparr>, idx + 1))"

fun verify_sizes_from :: "OSIP_header \<Rightarrow> nat list \<Rightarrow> int option" where
  "verify_sizes_from h [] = Some 0"
| "verify_sizes_from h (i # is) =
    do { e \<leftarrow> desc_at h i;
         let k = attr_kind e;
         if fw_kind k then (if size_of_os_image e > FW_MAX_LBA then Some (-1) else verify_sizes_from h is)
         else if os_kind k then (if size_of_os_image e > OS_MAX_LBA then Some (-1) else verify_sizes_from h is)
         else verify_sizes_from h is }"

definition verify_osip_sizes :: "OSIP_header \<Rightarrow> int option" where
  "verify_osip_sizes h = verify_sizes_from h [0..<unat (num_pointers h)]"

text \<open>The loop of \<open>fixup_osip\<close> with its three counters and \<open>ret\<close>. The result \<open>Inl\<close> is an early return
  with the header as it is by then.\<close>

fun fixup_from :: "u32 \<Rightarrow> nat list \<Rightarrow> nat \<Rightarrow> nat \<Rightarrow> nat \<Rightarrow> int \<Rightarrow> OSIP_header \<Rightarrow>
    (OSIP_header + OSIP_header \<times> int) option" where
  "fixup_from ptn_lba [] fw_ctr os_ctr ptn_ctr ret h = Some (Inr (h, ret))"
| "fixup_from ptn_lba (i # is) fw_ctr os_ctr ptn_ctr ret h =
    do { e \<leftarrow> desc_at h i;
         let k = attr_kind e;
         if fw_kind k then
           (case fixup_osii e fw_ctr fw_lba_slots of None \<Rightarrow> Some (Inl h)
            | Some (e', c) \<Rightarrow> fixup_from ptn_lba is c os_ctr ptn_ctr 0 (set_desc i e' h))
         else if os_kind k then
           (case fixup_osii e os_ctr os_lba_slots of None \<Rightarrow> Some (Inl h)
            | Some (e', c) \<Rightarrow> fixup_from ptn_lba is fw_ctr c ptn_ctr 0 (set_desc i e' h))
         else if k = 3 then
           (if ptn_ctr > 0 then Some (Inl h)
            else fixup_from ptn_lba is fw_ctr os_ctr (ptn_ctr + 1) 0
                   (set_desc i (e\<lparr>logical_start_block := ptn_lba\<rparr>) h))
         else Some (Inl h) }"

definition fixup_osip :: "OSIP_header \<Rightarrow> u32 \<Rightarrow> (OSIP_header \<times> int) option" where
  "fixup_osip h ptn_lba =
    do { r \<leftarrow> fixup_from ptn_lba [0..<unat (num_pointers h)] 0 0 0 (-1) h;
         Some (case r of Inl h \<Rightarrow> (h, -1) | Inr (h, ret) \<Rightarrow> (with_checksum h, ret)) }"

text \<open>The inner loop of \<open>get_free_lba\<close>: whether some image starts or ends in the slot.\<close>

fun slot_used :: "OSIP_header \<Rightarrow> u32 \<Rightarrow> u32 \<Rightarrow> nat list \<Rightarrow> bool option" where
  "slot_used h slot slot_size [] = Some False"
| "slot_used h slot slot_size (i # is) =
    do { e \<leftarrow> desc_at h i;
         let lba = logical_start_block e;
         let endlba = lba + 1 + size_of_os_image e;
         if lba \<ge> slot \<and> lba < slot + slot_size \<or> endlba \<ge> slot \<and> endlba < slot + slot_size
         then Some True else slot_used h slot slot_size is }"

fun get_free_lba :: "u32 list \<Rightarrow> u32 \<Rightarrow> OSIP_header \<Rightarrow> u32 option" where
  "get_free_lba [] slot_size h = Some 0"
| "get_free_lba (s # ss) slot_size h =
    do { used \<leftarrow> slot_used h s slot_size [0..<unat (num_pointers h)];
         if used then get_free_lba ss slot_size h else Some s }"

definition get_free_fw_lba :: "OSIP_header \<Rightarrow> u32 option" where
  "get_free_fw_lba h = get_free_lba fw_lba_slots FW_MAX_LBA h"

definition get_free_os_lba :: "OSIP_header \<Rightarrow> u32 option" where
  "get_free_os_lba h = get_free_lba os_lba_slots OS_MAX_LBA h"

subsection \<open>Reading and writing the header\<close>

type_synonym mmc = "blkdev option"

definition read_OSIP :: "mmc \<Rightarrow> OSIP_header option" where
  "read_OSIP m =
    do { d \<leftarrow> m; bs \<leftarrow> safe_read d 0 224;
         let h = dec_osip bs;
         if get_osip_crc h \<noteq> 0 then None else Some h }"

definition write_OSIP :: "OSIP_header \<Rightarrow> mmc \<Rightarrow> int \<times> mmc" where
  "write_OSIP h m =
    (let h = with_checksum h in
     case m of None \<Rightarrow> (-1, None)
     | Some d \<Rightarrow> let (ok, d) = write_all d 0 (enc_osip h) in (if ok then 0 else -1, Some d))"

definition check_index_outofbound :: "int \<Rightarrow> int" where
  "check_index_outofbound osii_index = (if osii_index < 0 \<or> osii_index \<ge> 8 then -1 else 0)"

datatype osip_operation_type = READ_OSIP_HEADER | WRITE_OSIP_HEADER

text \<open>The attribute of a destination, with the new value of \<open>*instance\<close>.\<close>

definition get_named_osii_attr :: "string \<Rightarrow> int \<Rightarrow> int \<times> int" where
  "get_named_osii_attr destination inst =
    (if destination = ''boot'' then (0x00, inst)
     else if destination = ''recovery'' then (0x0C, inst)
     else if destination = ''fastboot'' then (0x0E, inst)
     else if destination = ''droidboot'' then (0x0E, inst)
     else if destination = ''splashscreen'' then (0x04, inst)
     else if destination = ''splashscreen2'' then (0x04, 2)
     else if destination = ''splashscreen3'' then (0x04, 3)
     else if destination = ''splashscreen4'' then (0x04, 4)
     else if destination = ''silentlake'' then (0x08, inst)
     else if destination = ''ramdump'' then (0x16, inst)
     else (-1, inst))"

fun find_instance :: "OSIP_header \<Rightarrow> int \<Rightarrow> int \<Rightarrow> nat list \<Rightarrow> int \<Rightarrow> (int + int) option" where
  "find_instance h attr inst [] cur = Some (Inr cur)"
| "find_instance h attr inst (i # is) cur =
    do { e \<leftarrow> desc_at h i;
         if uint (attr_kind e) = attr
         then (if cur = inst then Some (Inl (int i)) else find_instance h attr inst is (cur + 1))
         else find_instance h attr inst is cur }"

definition get_attribute_osii_index :: "int \<Rightarrow> int \<Rightarrow> osip_operation_type \<Rightarrow> mmc \<Rightarrow> int option" where
  "get_attribute_osii_index attr inst operation m =
    (case read_OSIP m of None \<Rightarrow> Some (-1)
     | Some h \<Rightarrow>
       do { r \<leftarrow> find_instance h attr inst [0..<unat (num_pointers h)] 1;
            Some (case r of Inl i \<Rightarrow> i
                  | Inr cur \<Rightarrow> if cur = inst \<and> operation = WRITE_OSIP_HEADER then uint (num_pointers h) else -1) })"

definition get_named_osii_index :: "string option \<Rightarrow> osip_operation_type \<Rightarrow> mmc \<Rightarrow> int option" where
  "get_named_osii_index destination operation m =
    (case destination of None \<Rightarrow> Some (-1)
     | Some name \<Rightarrow> let (attr, inst) = get_named_osii_attr name 1 in
         if attr < 0 then Some (-1) else get_attribute_osii_index attr inst operation m)"

definition update_osii :: "string option \<Rightarrow> u32 \<Rightarrow> u32 \<Rightarrow> mmc \<Rightarrow> (int \<times> mmc) option" where
  "update_osii destination ddr entry m =
    do { idx \<leftarrow> get_named_osii_index destination READ_OSIP_HEADER m;
         if check_index_outofbound idx \<noteq> 0 then Some (-1, m)
         else case read_OSIP m of None \<Rightarrow> Some (-1, m)
           | Some h \<Rightarrow>
             let e = (desc h ! nat idx)\<lparr>ddr_load_address := ddr, entry_point := entry\<rparr>
             in Some (write_OSIP (set_desc (nat idx) e h) m) }"

definition invalidate_osii :: "string option \<Rightarrow> mmc \<Rightarrow> (int \<times> mmc) option" where
  "invalidate_osii destination m = update_osii destination 0 0 m"

definition restore_osii :: "string option \<Rightarrow> mmc \<Rightarrow> (int \<times> mmc) option" where
  "restore_osii destination m = update_osii destination DDR_LOAD_ADDX ENTRY_POINT m"

definition blank_osip :: OSIP_header where
  "blank_osip = dec_osip (replicate 224 0)"

definition default_osip :: OSIP_header where
  "default_osip = blank_osip\<lparr>osip_sig := OSIP_SIG, header_rev_major := 1, num_pointers := 1, num_images := 1\<rparr>"

definition oem_write_osip_header :: "mmc \<Rightarrow> (int \<times> mmc) option" where
  "oem_write_osip_header m =
    (let h = default_osip\<lparr>header_checksum := get_osip_crc default_osip\<rparr>;
         m = snd (write_OSIP h m) in
     do { (_, m) \<leftarrow> restore_osii (Some ''boot'') m;
          (_, m) \<leftarrow> restore_osii (Some ''recovery'') m;
          (_, m) \<leftarrow> restore_osii (Some ''fastboot'') m;
          Some (0, m) })"

definition oem_erase_osip_header :: "mmc \<Rightarrow> int \<times> mmc" where
  "oem_erase_osip_header m = (0, snd (write_OSIP blank_osip m))"

definition get_named_osii_logical_start_block :: "string option \<Rightarrow> mmc \<Rightarrow> int option" where
  "get_named_osii_logical_start_block destination m =
    do { idx \<leftarrow> get_named_osii_index destination READ_OSIP_HEADER m;
         Some (if check_index_outofbound idx \<noteq> 0 then -1
               else case read_OSIP m of None \<Rightarrow> -1
                 | Some h \<Rightarrow> uint (logical_start_block (desc h ! nat idx))) }"

subsection \<open>The checksum\<close>

definition xor_bytes :: "buffer \<Rightarrow> byte" where
  "xor_bytes bs = foldr (XOR) bs 0"

lemma foldl_xor: "foldl (XOR) a bs = a XOR xor_bytes bs"
  by (induction bs arbitrary: a) (auto simp: xor_bytes_def xor.assoc)

lemma xor_bytes_append: "xor_bytes (xs @ ys) = xor_bytes xs XOR xor_bytes ys"
  by (induction xs) (auto simp: xor_bytes_def xor.assoc)

lemma xor_bytes_simps [simp]: "xor_bytes [] = 0" "xor_bytes (b # bs) = b XOR xor_bytes bs"
  by (simp_all add: xor_bytes_def)

lemma get_osip_crc_eq: "osip_wf h \<Longrightarrow> get_osip_crc h = xor_bytes (enc_osip h)"
proof -
  assume "osip_wf h"
  then have "length (enc_osip h) = 224" by (rule osip.length_enc)
  then obtain a b bs where "enc_osip h = a # b # bs" by (auto simp: numeral_eq_Suc length_Suc_conv)
  then show ?thesis by (simp add: get_osip_crc_def foldl_xor xor.assoc)
qed

lemma xor_zeroD: "a XOR b = 0 \<Longrightarrow> a = b" for a b :: byte
proof -
  assume "a XOR b = 0"
  then have "(a XOR b) XOR b = b" by simp
  then show ?thesis by (simp add: xor.assoc)
qed

lemma osip_wf_checksum [simp]: "osip_wf (h\<lparr>header_checksum := c\<rparr>) = osip_wf h"
  by (simp add: osip_wf_def)

lemma get_osip_crc_checksum:
  "osip_wf h \<Longrightarrow> get_osip_crc (h\<lparr>header_checksum := c\<rparr>) = get_osip_crc (h\<lparr>header_checksum := 0\<rparr>) XOR c"
  by (simp add: get_osip_crc_eq enc_osip_def xor_bytes_append ac_simps)

lemma with_checksum_wf [simp]: "osip_wf (with_checksum h) = osip_wf h"
  by (simp add: with_checksum_def Let_def)

lemma crc_with_checksum [simp]: "osip_wf h \<Longrightarrow> get_osip_crc (with_checksum h) = 0"
  using get_osip_crc_checksum [of h "get_osip_crc (h\<lparr>header_checksum := 0\<rparr>)"]
  by (simp add: with_checksum_def Let_def)

lemma with_checksum_id:
  assumes "osip_wf h" "get_osip_crc h = 0"
  shows "with_checksum h = h"
proof -
  have "get_osip_crc (h\<lparr>header_checksum := 0\<rparr>) XOR header_checksum h = 0"
    using get_osip_crc_checksum [of h "header_checksum h"] assms by simp
  then have "get_osip_crc (h\<lparr>header_checksum := 0\<rparr>) = header_checksum h"
    by (rule xor_zeroD)
  then show ?thesis by (simp add: with_checksum_def Let_def)
qed

lemma with_checksum_sel [simp]:
  "desc (with_checksum h) = desc h" "num_pointers (with_checksum h) = num_pointers h"
  "osip_sig (with_checksum h) = osip_sig h" "header_size (with_checksum h) = header_size h"
  by (simp_all add: with_checksum_def Let_def)

subsection \<open>The header on the device\<close>

text \<open>A device that holds a checked header: \<open>emmc d h\<close>.\<close>

definition emmc :: "blkdev \<Rightarrow> OSIP_header \<Rightarrow> bool" where
  "emmc d h \<longleftrightarrow> healthy d \<and> 512 \<le> length (bytes d) \<and> osip_wf h \<and> get_osip_crc h = 0 \<and>
     seg 0 224 (bytes d) = enc_osip h"

lemma read_OSIP_healthy:
  assumes "healthy d" "512 \<le> length (bytes d)"
  shows "read_OSIP (Some d) =
    (let h = dec_osip (seg 0 224 (bytes d)) in if get_osip_crc h \<noteq> 0 then None else Some h)"
  using assms by (simp add: read_OSIP_def safe_read_healthy)

lemma read_OSIP_iff:
  assumes "healthy d" "512 \<le> length (bytes d)"
  shows "read_OSIP (Some d) = Some h \<longleftrightarrow> emmc d h"
  using assms osip.wf_dec [of "seg 0 224 (bytes d)"] osip.enc_dec [of "seg 0 224 (bytes d)"]
    osip.dec_enc [of h] osip.length_enc [of h]
  by (auto simp: read_OSIP_healthy emmc_def Let_def)

lemma read_OSIP_emmc: "emmc d h \<Longrightarrow> read_OSIP (Some d) = Some h"
  using read_OSIP_iff by (auto simp: emmc_def)

lemma write_OSIP_healthy:
  assumes "healthy d" "512 \<le> length (bytes d)" "osip_wf h"
  shows "write_OSIP h (Some d) =
      (0, Some (d\<lparr>bytes := overlay 0 (enc_osip (with_checksum h)) (bytes d)\<rparr>))"
  using assms osip.length_enc [of "with_checksum h"] by (simp add: write_OSIP_def write_all_healthy)

lemma emmc_written:
  assumes "healthy d" "512 \<le> length (bytes d)" "osip_wf h"
  shows "emmc (d\<lparr>bytes := overlay 0 (enc_osip (with_checksum h)) (bytes d)\<rparr>) (with_checksum h)"
  using assms osip.length_enc [of "with_checksum h"] by (simp add: emmc_def)

text \<open>Writing anything outside the first 224 bytes keeps the header.\<close>

lemma emmc_overlay:
  assumes "emmc d h" "224 \<le> off" "off + length bs \<le> length (bytes d)"
  shows "emmc (d\<lparr>bytes := overlay off bs (bytes d)\<rparr>) h"
  using assms by (simp add: emmc_def seg_overlay_before)

subsection \<open>Properties of the header\<close>

text \<open>The header is written and read back: on a defect-free device of at least one sector \<open>write_OSIP\<close> succeeds,
  \<open>read_OSIP\<close> then returns the same header with a correct checksum, and no byte behind the header changes.\<close>

theorem write_OSIP_read_OSIP:
  assumes "healthy d" "512 \<le> length (bytes d)" "osip_wf h"
  shows "\<exists>d'. write_OSIP h (Some d) = (0, Some d') \<and>
    read_OSIP (Some d') = Some (h\<lparr>header_checksum := get_osip_crc (h\<lparr>header_checksum := 0\<rparr>)\<rparr>) \<and>
    length (bytes d') = length (bytes d) \<and> drop 224 (bytes d') = drop 224 (bytes d)"
proof -
  have "length (enc_osip (with_checksum h)) = 224" using assms(3) by (simp add: osip.length_enc)
  moreover have "with_checksum h = h\<lparr>header_checksum := get_osip_crc (h\<lparr>header_checksum := 0\<rparr>)\<rparr>"
    by (simp add: with_checksum_def Let_def)
  ultimately show ?thesis
    using write_OSIP_healthy [OF assms] read_OSIP_emmc [OF emmc_written [OF assms]] assms(2)
    by (simp add: overlay_def)
qed

definition zero_sector :: blkdev where
  "zero_sector = \<lparr>bytes = replicate 512 0, regular = True, stat_ok = True, blk_size = None, blk_ssz = None,
     bad_read = (\<lambda>_. False), bad_write = (\<lambda>_. False)\<rparr>"

lemma default_osip_wf: "osip_wf default_osip"
proof -
  have "osip_wf blank_osip" unfolding blank_osip_def by (rule osip.wf_dec) simp
  then show ?thesis by (simp add: default_osip_def osip_wf_def)
qed

theorem write_OSIP_read_OSIP_witness:
  "\<exists>d'. write_OSIP default_osip (Some zero_sector) = (0, Some d') \<and>
    read_OSIP (Some d') =
      Some (default_osip\<lparr>header_checksum := get_osip_crc (default_osip\<lparr>header_checksum := 0\<rparr>)\<rparr>) \<and>
    length (bytes d') = length (bytes zero_sector) \<and> drop 224 (bytes d') = drop 224 (bytes zero_sector)"
  by (rule write_OSIP_read_OSIP) (simp_all add: zero_sector_def healthy_def default_osip_wf)

lemma xor_bytes_update:
  "i < length bs \<Longrightarrow> xor_bytes (bs[i := x]) = xor_bytes bs XOR bs ! i XOR x"
proof (induction bs arbitrary: i)
  case (Cons b bs)
  then show ?case by (cases i) (auto simp: ac_simps)
qed simp

text \<open>A header in which any one byte has been changed to another value is refused: when \<open>read_OSIP\<close> accepts the
  header on a device, it rejects the device with one different byte among the first 224.\<close>

theorem read_OSIP_rejects_byte_change:
  assumes "healthy d" "512 \<le> length (bytes d)" "read_OSIP (Some d) = Some h" "i < 224" "x \<noteq> bytes d ! i"
  shows "read_OSIP (Some (d\<lparr>bytes := (bytes d)[i := x]\<rparr>)) = None"
proof -
  have crc: "get_osip_crc (dec_osip (seg 0 224 b)) = xor_bytes (seg 0 224 b)" if "512 \<le> length b" for b
    using that osip.wf_dec [of "seg 0 224 b"] osip.enc_dec [of "seg 0 224 b"] by (simp add: get_osip_crc_eq)
  have "seg 0 224 ((bytes d)[i := x]) = (seg 0 224 (bytes d))[i := x]"
    using assms(4) by (simp add: seg_def take_update_swap)
  moreover have "xor_bytes (seg 0 224 (bytes d)) = 0"
    using assms(1-3) crc [of "bytes d"] by (simp add: read_OSIP_healthy Let_def split: if_splits)
  moreover have "seg 0 224 (bytes d) ! i XOR x \<noteq> 0"
    using assms(2,4,5) xor_zeroD by (auto simp: seg_def)
  ultimately have "xor_bytes (seg 0 224 ((bytes d)[i := x])) \<noteq> 0"
    using assms(2,4) by (simp add: xor_bytes_update)
  moreover have "healthy (d\<lparr>bytes := (bytes d)[i := x]\<rparr>)" using assms(1) by (simp add: healthy_def)
  ultimately show ?thesis
    using assms(2) crc [of "(bytes d)[i := x]"] by (simp add: read_OSIP_healthy Let_def)
qed

theorem read_OSIP_rejects_byte_change_witness:
  "\<exists>h. read_OSIP (Some zero_sector) = Some h \<and>
    read_OSIP (Some (zero_sector\<lparr>bytes := (bytes zero_sector)[8 := 1]\<rparr>)) = None"
proof -
  let ?h = "dec_osip (replicate 224 0)"
  have h: "healthy zero_sector" "512 \<le> length (bytes zero_sector)" by (simp_all add: zero_sector_def healthy_def)
  have z: "xor_bytes (replicate n 0) = 0" for n by (induction n) auto
  have "osip_wf ?h" "enc_osip ?h = replicate 224 0" by (rule osip.wf_dec osip.enc_dec, simp)+
  then have "get_osip_crc ?h = 0" by (simp add: get_osip_crc_eq z)
  then have r: "read_OSIP (Some zero_sector) = Some ?h"
    using h by (simp add: read_OSIP_healthy) (simp add: zero_sector_def seg_def)
  show ?thesis
    using r read_OSIP_rejects_byte_change [OF h r, of 8 1] by (simp add: zero_sector_def)
qed

end
