(* ===== verification/Osip_Slots.thy ===== *)
theory Osip_Slots
  imports Osip
begin

text \<open>
  The table of slots: what \<open>fixup_osip\<close> assigns, what \<open>get_free_lba\<close> finds, and that the images of a
  header that was laid out by this code never share a block.
\<close>

subsection \<open>Extents of images\<close>

definition extent :: "OSII \<Rightarrow> nat set" where
  "extent e = {unat (logical_start_block e) ..< unat (logical_start_block e) + unat (size_of_os_image e)}"

definition slot_extent :: "u32 \<Rightarrow> u32 \<Rightarrow> nat set" where
  "slot_extent s n = {unat s ..< unat s + unat n}"

text \<open>An image in a slot of its kind that is large enough for it, or an entry with no image.\<close>

definition in_slot :: "OSII \<Rightarrow> bool" where
  "in_slot e \<longleftrightarrow>
     logical_start_block e \<in> set fw_lba_slots \<and> size_of_os_image e \<le> FW_MAX_LBA \<or>
     logical_start_block e \<in> set os_lba_slots \<and> size_of_os_image e \<le> OS_MAX_LBA \<or>
     logical_start_block e = 0 \<and> size_of_os_image e = 0"

abbreviation live :: "OSIP_header \<Rightarrow> nat" where
  "live h \<equiv> unat (num_pointers h)"

definition laid_out :: "OSIP_header \<Rightarrow> bool" where
  "laid_out h \<longleftrightarrow> live h \<le> 8 \<and> (\<forall>i < live h. in_slot (desc h ! i)) \<and>
     (\<forall>i < live h. \<forall>j < live h. i \<noteq> j \<longrightarrow> extent (desc h ! i) \<inter> extent (desc h ! j) = {})"

lemma extent_in_slot:
  assumes "in_slot e"
  shows "extent e = {} \<or>
    logical_start_block e \<in> set fw_lba_slots \<and> extent e \<subseteq> slot_extent (logical_start_block e) FW_MAX_LBA \<or>
    logical_start_block e \<in> set os_lba_slots \<and> extent e \<subseteq> slot_extent (logical_start_block e) OS_MAX_LBA"
  using assms by (auto simp: in_slot_def extent_def slot_extent_def word_le_nat_alt)

lemma slots_apart:
  assumes "s \<in> set fw_lba_slots \<and> n = FW_MAX_LBA \<or> s \<in> set os_lba_slots \<and> n = OS_MAX_LBA"
    and "t \<in> set fw_lba_slots \<and> k = FW_MAX_LBA \<or> t \<in> set os_lba_slots \<and> k = OS_MAX_LBA"
    and "s \<noteq> t"
  shows "slot_extent s n \<inter> slot_extent t k = {}"
  using assms
  by (auto simp: slot_extent_def fw_lba_slots_eq os_lba_slots_eq FW_MAX_LBA_def OS_MAX_LBA_def)

lemma in_slot_apart:
  assumes "in_slot e" "s \<in> set fw_lba_slots \<and> n = FW_MAX_LBA \<or> s \<in> set os_lba_slots \<and> n = OS_MAX_LBA"
    and "logical_start_block e \<noteq> s"
  shows "extent e \<inter> slot_extent s n = {}"
  using extent_in_slot [OF assms(1)] slots_apart [OF assms(2), of "logical_start_block e"] assms(3) by blast

lemma in_slot_disjoint:
  assumes "in_slot e" "in_slot e'" "logical_start_block e \<noteq> logical_start_block e'"
  shows "extent e \<inter> extent e' = {}"
  using extent_in_slot [OF assms(2)] in_slot_apart [OF assms(1) _ assms(3)] by blast

subsection \<open>The size check\<close>

definition size_ok :: "OSII \<Rightarrow> bool" where
  "size_ok e \<longleftrightarrow> (fw_kind (attr_kind e) \<longrightarrow> size_of_os_image e \<le> FW_MAX_LBA) \<and>
     (os_kind (attr_kind e) \<longrightarrow> size_of_os_image e \<le> OS_MAX_LBA)"

lemma kinds_exclusive: "fw_kind k \<Longrightarrow> \<not> os_kind k"
  by (auto simp: fw_kind_def os_kind_def)

lemma verify_sizes_from_eq:
  "\<forall>i \<in> set is. i < 8 \<Longrightarrow>
   verify_sizes_from h is = Some (if \<forall>i \<in> set is. size_ok (desc h ! i) then 0 else -1)"
  by (induction "is") (auto simp: desc_at_def Let_def size_ok_def linorder_not_less kinds_exclusive)

lemma verify_osip_sizes_eq:
  assumes "live h \<le> 8"
  shows "verify_osip_sizes h = Some (if \<forall>i < live h. size_ok (desc h ! i) then 0 else -1)"
  using assms verify_sizes_from_eq [of "[0..<live h]" h] by (simp add: verify_osip_sizes_def Ball_def)

subsection \<open>Free slots\<close>

definition blocks_slot :: "OSII \<Rightarrow> u32 \<Rightarrow> u32 \<Rightarrow> bool" where
  "blocks_slot e slot n \<longleftrightarrow>
    (let lba = logical_start_block e; endlba = lba + 1 + size_of_os_image e in
     lba \<ge> slot \<and> lba < slot + n \<or> endlba \<ge> slot \<and> endlba < slot + n)"

lemma slot_used_eq:
  "\<forall>i \<in> set is. i < 8 \<Longrightarrow> slot_used h slot n is = Some (\<exists>i \<in> set is. blocks_slot (desc h ! i) slot n)"
  by (induction "is") (auto simp: desc_at_def blocks_slot_def Let_def)

lemma get_free_lba_eq:
  assumes "live h \<le> 8"
  shows "get_free_lba slots n h =
    Some (case filter (\<lambda>s. \<forall>i < live h. \<not> blocks_slot (desc h ! i) s n) slots of [] \<Rightarrow> 0 | s # _ \<Rightarrow> s)"
proof (induction slots)
  case Nil
  then show ?case by simp
next
  case (Cons s slots)
  have "slot_used h s n [0..<live h] = Some (\<exists>i < live h. blocks_slot (desc h ! i) s n)"
    using assms by (subst slot_used_eq) auto
  with Cons show ?case by auto
qed

lemma filter_eq_ConsD': "filter P xs = y # ys \<Longrightarrow> y \<in> set xs \<and> P y"
proof -
  assume eq: "filter P xs = y # ys"
  have "y \<in> set (filter P xs)" unfolding eq by simp
  then show ?thesis by simp
qed

lemma free_slot:
  assumes "live h \<le> 8" "get_free_lba slots n h = Some s" "s \<noteq> 0"
  shows "s \<in> set slots \<and> (\<forall>i < live h. \<not> blocks_slot (desc h ! i) s n)"
proof -
  let ?free = "filter (\<lambda>s. \<forall>i < live h. \<not> blocks_slot (desc h ! i) s n) slots"
  from assms obtain ss where "?free = s # ss" by (auto simp: get_free_lba_eq split: list.splits)
  then show ?thesis by (rule filter_eq_ConsD')
qed

lemma get_free_lba_total: "live h \<le> 8 \<Longrightarrow> \<exists>s. get_free_lba slots n h = Some s"
  by (simp add: get_free_lba_eq)

lemma not_blocked_apart:
  assumes "in_slot e" "\<not> blocks_slot e s n"
    and s: "s \<in> set fw_lba_slots \<and> n = FW_MAX_LBA \<or> s \<in> set os_lba_slots \<and> n = OS_MAX_LBA"
  shows "extent e \<inter> slot_extent s n = {}"
proof -
  have "s < s + n" using s
    by (auto simp: fw_lba_slots_eq os_lba_slots_eq FW_MAX_LBA_def OS_MAX_LBA_def)
  then have "logical_start_block e \<noteq> s" using assms(2) by (auto simp: blocks_slot_def Let_def)
  then show ?thesis using assms(1) s in_slot_apart by blast
qed

text \<open>An image that leaves the last two blocks of its slot free blocks no other slot.\<close>

definition roomy :: "OSII \<Rightarrow> bool" where
  "roomy e \<longleftrightarrow>
     logical_start_block e \<in> set fw_lba_slots \<and> unat (size_of_os_image e) + 2 \<le> unat FW_MAX_LBA \<or>
     logical_start_block e \<in> set os_lba_slots \<and> unat (size_of_os_image e) + 2 \<le> unat OS_MAX_LBA \<or>
     logical_start_block e = 0 \<and> size_of_os_image e = 0"

lemma unat_endlba:
  assumes "unat (x :: u32) + 1 + unat y < 2 ^ 32"
  shows "unat (x + 1 + y) = unat x + 1 + unat y"
proof -
  have "unat (x + 1) = unat x + 1" using assms by (intro unat_add_lem [THEN iffD1, THEN trans]) auto
  then show ?thesis using assms unat_add_lem [of "x + 1" y] by simp
qed

lemma roomy_blocks:
  assumes "roomy e" "s \<in> set os_lba_slots" "blocks_slot e s OS_MAX_LBA"
  shows "s = logical_start_block e"
proof -
  have "unat (logical_start_block e + 1 + size_of_os_image e) =
      unat (logical_start_block e) + 1 + unat (size_of_os_image e)"
    using assms(1) by (intro unat_endlba)
      (auto simp: roomy_def fw_lba_slots_eq os_lba_slots_eq FW_MAX_LBA_def OS_MAX_LBA_def)
  then show ?thesis using assms
    by (auto simp: roomy_def blocks_slot_def Let_def word_le_nat_alt word_less_nat_alt
        fw_lba_slots_eq os_lba_slots_eq FW_MAX_LBA_def OS_MAX_LBA_def)
qed

lemma free_os_slot:
  assumes "live h \<le> 8" "\<forall>i < live h. roomy (desc h ! i)"
  shows "\<exists>s \<in> set os_lba_slots. get_free_os_lba h = Some s \<and> (\<forall>i < live h. \<not> blocks_slot (desc h ! i) s OS_MAX_LBA)"
proof -
  let ?B = "\<lambda>i s. blocks_slot (desc h ! i) s OS_MAX_LBA"
  have "\<exists>s \<in> set os_lba_slots. \<forall>i < live h. \<not> ?B i s"
  proof (rule ccontr)
    assume "\<not> ?thesis"
    then have "\<forall>s \<in> set os_lba_slots. \<exists>i < live h. ?B i s" by blast
    then have "\<forall>s \<in> set os_lba_slots. \<exists>i < live h. s = logical_start_block (desc h ! i)"
      using assms(2) roomy_blocks by blast
    then have "set os_lba_slots \<subseteq> (\<lambda>i. logical_start_block (desc h ! i)) ` {..<live h}" by blast
    then have "card (set os_lba_slots) \<le> card {..<live h}" by (meson card_image_le card_mono finite_imageI finite_lessThan le_trans)
    then show False using assms(1) by (simp add: os_lba_slots_eq)
  qed
  then have "filter (\<lambda>s. \<forall>i < live h. \<not> ?B i s) os_lba_slots \<noteq> []" by (auto simp: filter_empty_conv)
  then obtain s ss where "filter (\<lambda>s. \<forall>i < live h. \<not> ?B i s) os_lba_slots = s # ss"
    by (cases "filter (\<lambda>s. \<forall>i < live h. \<not> ?B i s) os_lba_slots") auto
  with filter_eq_ConsD' [OF this] have s: "get_free_os_lba h = Some s" "s \<in> set os_lba_slots"
      "\<forall>i < live h. \<not> ?B i s"
    using assms(1) by (simp_all add: get_free_os_lba_def get_free_lba_eq)
  then show ?thesis by blast
qed

lemma roomy_in_slot: "roomy e \<Longrightarrow> in_slot e"
  by (auto simp: roomy_def in_slot_def word_le_nat_alt)

text \<open>C39: There is always a slot for a new OS image: when no image reaches into the last two blocks of its slot,
  \<open>get_free_os_lba\<close> finds a slot for every header of at most eight images, and the slot shares no block with
  any of them.\<close>

theorem os_slot_available:
  assumes "live h \<le> 8" "\<forall>i < live h. roomy (desc h ! i)"
  shows "\<exists>s \<in> set os_lba_slots. get_free_os_lba h = Some s \<and>
    (\<forall>i < live h. extent (desc h ! i) \<inter> slot_extent s OS_MAX_LBA = {})"
  using free_os_slot [OF assms] assms(2) not_blocked_apart roomy_in_slot by blast

definition image_at :: "u32 \<Rightarrow> u32 \<Rightarrow> byte \<Rightarrow> OSII" where
  "image_at lba n attr = \<lparr>os_rev_minor = 0, os_rev_major = 0, logical_start_block = lba, ddr_load_address = DDR_LOAD_ADDX,
     entry_point = ENTRY_POINT, size_of_os_image = n, attribute = attr, osii_reserved = [0, 0, 0]\<rparr>"

definition header_of :: "OSII list \<Rightarrow> OSIP_header" where
  "header_of es = \<lparr>osip_sig = OSIP_SIG, intel_reserved = 0, header_rev_minor = 0, header_rev_major = 1,
     header_checksum = 0, num_pointers = of_nat (length es), num_images = of_nat (length es),
     header_size = of_nat (length es) * 0x18 + 0x20, osip_reserved = replicate 20 0,
     desc = es @ replicate (8 - length es) (image_at 0 0 0)\<rparr>"

definition empty_os_slot :: "OSIP_header \<Rightarrow> u32 \<Rightarrow> bool" where
  "empty_os_slot h s \<longleftrightarrow> s \<in> set os_lba_slots \<and>
     (\<forall>i < live h. extent (desc h ! i) \<inter> slot_extent s OS_MAX_LBA = {})"

lemmas sample_defs = header_of_def image_at_def

theorem os_slot_available_witness:
  "\<exists>s \<in> set os_lba_slots. get_free_os_lba (header_of [image_at 4050 20000 0, image_at 50 1000 8]) = Some s \<and>
    (\<forall>i < live (header_of [image_at 4050 20000 0, image_at 50 1000 8]).
       extent (desc (header_of [image_at 4050 20000 0, image_at 50 1000 8]) ! i) \<inter> slot_extent s OS_MAX_LBA = {})"
  by (rule os_slot_available)
    (auto simp: sample_defs roomy_def less_2_cases_iff fw_lba_slots_eq os_lba_slots_eq FW_MAX_LBA_def OS_MAX_LBA_def)

text \<open>The spare slot is lost when the images are large: \<open>verify_osip_sizes\<close> accepts five OS images of 31999
  blocks, one block less than a slot holds, in the slots 0, 2, 4, 6 and 8, no two of them share a block, and
  \<open>get_free_os_lba\<close> reports that no slot is free, although four of the nine are empty.\<close>

theorem large_images_block_two_slots:
  "let h = header_of (map (\<lambda>s. image_at s 31999 0) [4050, 68050, 132050, 196050, 260050]) in
   verify_osip_sizes h = Some 0 \<and> laid_out h \<and> get_free_os_lba h = Some 0 \<and>
   list_all (empty_os_slot h) [36050, 100050, 164050, 228050]"
proof -
  let ?h = "header_of (map (\<lambda>s. image_at s 31999 0) [4050, 68050, 132050, 196050, 260050])"
  have n: "live ?h = 5" by (simp add: sample_defs)
  then have n8: "live ?h \<le> 8" by simp
  have five: "(\<forall>i < 5. P i) \<longleftrightarrow> P 0 \<and> P 1 \<and> P 2 \<and> P 3 \<and> P (4 :: nat)" for P
    by (auto simp: numeral_eq_Suc less_Suc_eq)
  have "verify_osip_sizes ?h = Some 0"
    unfolding verify_osip_sizes_eq [OF n8] n five
    by (simp add: sample_defs size_ok_def attr_kind_def fw_kind_def os_kind_def OS_MAX_LBA_def)
  moreover have "laid_out ?h"
    unfolding laid_out_def n five by (simp add: sample_defs in_slot_def extent_def os_lba_slots_eq OS_MAX_LBA_def)
  moreover have "get_free_os_lba ?h = Some 0"
    unfolding get_free_os_lba_def get_free_lba_eq [OF n8] n five by (simp add: sample_defs blocks_slot_def os_lba_slots_eq OS_MAX_LBA_def)
  moreover have "list_all (empty_os_slot ?h) [36050, 100050, 164050, 228050]"
    unfolding empty_os_slot_def n five by (simp add: sample_defs extent_def slot_extent_def os_lba_slots_eq OS_MAX_LBA_def)
  ultimately show ?thesis unfolding Let_def by blast
qed

subsection \<open>What fixup\_osip assigns\<close>

text \<open>The number of entries of a kind before entry \<open>i\<close>; the slot that entry \<open>i\<close> gets; the header whose first
  \<open>i\<close> entries have got theirs.\<close>

definition rank_of :: "(byte \<Rightarrow> bool) \<Rightarrow> OSIP_header \<Rightarrow> nat \<Rightarrow> nat" where
  "rank_of K h i = length (filter (\<lambda>j. K (attr_kind (desc h ! j))) [0..<i])"

definition fits_slot :: "OSIP_header \<Rightarrow> nat \<Rightarrow> bool" where
  "fits_slot h i \<longleftrightarrow> fw_kind (attr_kind (desc h ! i)) \<and> rank_of fw_kind h i < 1 \<or>
     os_kind (attr_kind (desc h ! i)) \<and> rank_of os_kind h i < 8"

definition slot_for :: "OSIP_header \<Rightarrow> nat \<Rightarrow> u32" where
  "slot_for h i = (if fw_kind (attr_kind (desc h ! i)) then fw_lba_slots ! rank_of fw_kind h i
     else os_lba_slots ! rank_of os_kind h i)"

definition given_slot :: "OSIP_header \<Rightarrow> nat \<Rightarrow> OSII" where
  "given_slot h i = (desc h ! i)\<lparr>logical_start_block := slot_for h i\<rparr>"

definition assigned :: "OSIP_header \<Rightarrow> nat \<Rightarrow> OSIP_header" where
  "assigned h n = h\<lparr>desc := map (given_slot h) [0..<n] @ drop n (desc h)\<rparr>"

lemma rank_of_Suc [simp]:
  "rank_of K h (Suc i) = rank_of K h i + (if K (attr_kind (desc h ! i)) then 1 else 0)"
  by (simp add: rank_of_def)

lemma rank_of_0 [simp]: "rank_of K h 0 = 0"
  by (simp add: rank_of_def)

lemma rank_of_mono: "i \<le> j \<Longrightarrow> rank_of K h i \<le> rank_of K h j"
  by (induction j) (auto simp: le_Suc_eq)

lemma rank_of_less: "i < j \<Longrightarrow> K (attr_kind (desc h ! i)) \<Longrightarrow> rank_of K h i < rank_of K h j"
  using rank_of_mono [of "Suc i" j K h] by simp

lemma rank_of_le: "rank_of K h i \<le> i"
  by (induction i) auto

lemma attr_kind_not_3: "attr_kind e \<noteq> 3"
proof
  assume "attr_kind e = 3"
  then have "bit (attr_kind e) 0 = bit (3 :: byte) 0" by simp
  then show False by (simp add: attr_kind_def bit_and_iff bit_not_iff)
qed

lemma assigned_Suc:
  assumes "i < length (desc h)"
  shows "set_desc i (given_slot h i) (assigned h i) = assigned h (Suc i)"
  using assms by (simp add: assigned_def set_desc_def list_update_append flip: Cons_nth_drop_Suc)

lemma assigned_nth: "i < n \<Longrightarrow> desc (assigned h n) ! i = given_slot h i"
  by (simp add: assigned_def nth_append)

lemma assigned_nth_rest: "n \<le> i \<Longrightarrow> i < length (desc h) \<Longrightarrow> desc (assigned h n) ! i = desc h ! i"
  by (simp add: assigned_def nth_append)

lemma fixup_step:
  assumes "i < 8" "length (desc h) = 8"
  shows "fixup_from p (i # is) (rank_of fw_kind h i) (rank_of os_kind h i) 0 r (assigned h i) =
    (if fits_slot h i
     then fixup_from p is (rank_of fw_kind h (Suc i)) (rank_of os_kind h (Suc i)) 0 0 (assigned h (Suc i))
     else Some (Inl (assigned h i)))"
  using assms assigned_Suc [of i h]
  by (auto simp: desc_at_def assigned_nth_rest Let_def fits_slot_def fixup_osii_def given_slot_def slot_for_def
      kinds_exclusive attr_kind_not_3 fw_lba_slots_eq os_lba_slots_eq)

lemma fixup_from_eq:
  assumes "n \<le> 8" "length (desc h) = 8" "i \<le> n"
  shows "\<exists>h'. fixup_from p [i..<n] (rank_of fw_kind h i) (rank_of os_kind h i) 0 r (assigned h i) =
    Some (if \<forall>j. i \<le> j \<and> j < n \<longrightarrow> fits_slot h j then Inr (assigned h n, if i < n then 0 else r) else Inl h')"
  using assms(3)
proof (induction i arbitrary: r rule: inc_induct)
  case base
  then show ?case by simp
next
  case (step i)
  from step.hyps have upt: "[i..<n] = i # [Suc i..<n]" by (simp add: upt_conv_Cons)
  have all: "(\<forall>j. i \<le> j \<and> j < n \<longrightarrow> P j) \<longleftrightarrow> P i \<and> (\<forall>j. Suc i \<le> j \<and> j < n \<longrightarrow> P j)" for P
    using step.hyps nat_less_le [of i] by (auto simp: Suc_le_eq)
  show ?case
    using step.IH [of 0] step.hyps assms
    unfolding upt all by (subst fixup_step) auto
qed

lemma slot_for_in:
  assumes "fits_slot h i" "i < 8"
  shows "slot_for h i \<in> set (if fw_kind (attr_kind (desc h ! i)) then fw_lba_slots else os_lba_slots)"
  using assms by (auto simp: slot_for_def fits_slot_def kinds_exclusive fw_lba_slots_eq os_lba_slots_eq
      intro!: nth_mem simp del: nth_Cons_0 nth_Cons_Suc list.set)

lemma slots_distinct: "distinct (fw_lba_slots @ os_lba_slots)"
  by (simp add: fw_lba_slots_eq os_lba_slots_eq)

lemma length_slots [simp]: "length fw_lba_slots = 2" "length os_lba_slots = 9"
  by (simp_all add: fw_lba_slots_eq os_lba_slots_eq)

lemma slot_for_less:
  assumes "fits_slot h i" "fits_slot h j" "i < j" "j < 8"
  shows "slot_for h i \<noteq> slot_for h j"
proof (cases "fw_kind (attr_kind (desc h ! i)) = fw_kind (attr_kind (desc h ! j))")
  case True
  then show ?thesis
    using assms rank_of_less [OF assms(3), of fw_kind h] rank_of_less [OF assms(3), of os_kind h] slots_distinct
    by (auto simp: slot_for_def fits_slot_def kinds_exclusive nth_eq_iff_index_eq)
next
  case False
  then show ?thesis
    using slot_for_in [OF assms(1)] slot_for_in [OF assms(2)] assms(3,4) slots_distinct
    by (auto split: if_splits)
qed

lemma assigned_laid_out:
  assumes "live h \<le> 8" "length (desc h) = 8" "\<forall>i < live h. size_ok (desc h ! i) \<and> fits_slot h i"
  shows "laid_out (assigned h (live h))"
proof -
  let ?h = "assigned h (live h)"
  have n: "live ?h = live h" by (simp add: assigned_def)
  have e: "desc ?h ! i = given_slot h i" if "i < live h" for i using that by (rule assigned_nth)
  have "in_slot (given_slot h i)" if "i < live h" for i
    using assms that slot_for_in [of h i]
    by (auto simp: in_slot_def given_slot_def size_ok_def fits_slot_def split: if_splits)
  moreover have "logical_start_block (given_slot h i) \<noteq> logical_start_block (given_slot h j)"
    if "i < live h" "j < live h" "i \<noteq> j" for i j
    using that assms(1,3) slot_for_less [of h i j] slot_for_less [of h j i] by (auto simp: given_slot_def neq_iff)
  ultimately show ?thesis using assms(1) unfolding laid_out_def n
    by (metis e in_slot_disjoint)
qed

lemma laid_out_with_checksum [simp]: "laid_out (with_checksum h) = laid_out h"
  by (simp add: laid_out_def)

lemma list_all_desc_assigned:
  "osip_wf h \<Longrightarrow> n \<le> 8 \<Longrightarrow> osip_wf (assigned h n)"
  by (auto simp: osip_wf_def assigned_def list_all_iff given_slot_def osii_wf_def dest: in_set_dropD)

text \<open>\<open>fixup_osip\<close> on a header of at most eight entries whose sizes \<open>verify_osip_sizes\<close> accepts succeeds exactly
  when there is at least one entry, every entry is a firmware or an OS image, and at most one is firmware. It
  then puts the \<open>k\<close>-th OS image into slot \<open>k\<close>, changes nothing else but the checksum, and leaves a header that
  \<open>read_OSIP\<close> accepts and whose images share no block.\<close>

theorem fixup_osip_lays_out:
  assumes "osip_wf h" "live h \<le> 8" "verify_osip_sizes h = Some 0"
  shows "\<exists>h' st. fixup_osip h p = Some (h', st) \<and>
    (st = 0 \<longleftrightarrow> 1 \<le> live h \<and> (\<forall>i < live h. fits_slot h i)) \<and>
    (st = 0 \<longrightarrow> h' = with_checksum (assigned h (live h)) \<and> laid_out h' \<and> get_osip_crc h' = 0)"
proof -
  have len: "length (desc h) = 8" using assms(1) by (simp add: osip_wf_def)
  have sizes: "\<forall>i < live h. size_ok (desc h ! i)"
    using assms(2,3) by (auto simp: verify_osip_sizes_eq split: if_splits)
  obtain h' where loop: "fixup_from p [0..<live h] 0 0 0 (-1) h =
      Some (if \<forall>j < live h. fits_slot h j then Inr (assigned h (live h), if 0 < live h then 0 else -1) else Inl h')"
    using fixup_from_eq [OF assms(2) len, of 0 p "-1"] by (auto simp: assigned_def)
  show ?thesis
    using loop assms(1,2) sizes assigned_laid_out [OF assms(2) len] list_all_desc_assigned [of h "live h"]
    by (auto simp: fixup_osip_def)
qed

theorem fixup_osip_lays_out_witness:
  "let h = header_of [image_at 1 20000 0, image_at 1 1000 8, image_at 1 30000 0x0C] in
   \<exists>h' st. fixup_osip h 0 = Some (h', st) \<and>
    (st = 0 \<longleftrightarrow> 1 \<le> live h \<and> (\<forall>i < live h. fits_slot h i)) \<and>
    (st = 0 \<longrightarrow> h' = with_checksum (assigned h (live h)) \<and> laid_out h' \<and> get_osip_crc h' = 0)"
proof -
  let ?h = "header_of [image_at 1 20000 0, image_at 1 1000 8, image_at 1 30000 0x0C]"
  have n: "live ?h = 3" by (simp add: sample_defs)
  then have n8: "live ?h \<le> 8" by simp
  have "osip_wf ?h" by (simp add: sample_defs osip_wf_def osii_wf_def list_all_iff)
  moreover have "\<forall>i < live ?h. size_ok (desc ?h ! i)"
    unfolding n by (simp add: numeral_eq_Suc All_less_Suc)
      (simp add: sample_defs size_ok_def attr_kind_def fw_kind_def os_kind_def OS_MAX_LBA_def FW_MAX_LBA_def)
  ultimately show ?thesis
    unfolding Let_def by (intro fixup_osip_lays_out) (simp_all add: verify_osip_sizes_eq [OF n8] n8)
qed

end
