(* ===== verification/Osip_Image.thy ===== *)
theory Osip_Image
  imports Osip_Slots
begin

text \<open>
  Reading and writing whole OS images (\<open>update_osip.c\<close>). A stitched image is one sector that starts with an
  OSIP header describing the one image, followed by the image. The caller's buffer is part of the result of
  \<open>write_stitch_image_ex\<close>, which stores the chosen start block in it. \<open>size_t\<close> has 32 bits.
\<close>

subsection \<open>Definitions\<close>

text \<open>\<open>crack_stitched_image\<close>: \<open>None\<close> when it reads past the end of the buffer (it prints all the entries
  that the header claims to have), \<open>Some None\<close> for \<open>-1\<close>; else the entry that \<open>*rec\<close> points to, at
  offset 32. The data are then at offset \<open>LBA_SIZE\<close>.\<close>

definition crack_stitched_image :: "buffer \<Rightarrow> OSII option option" where
  "crack_stitched_image data =
    (if length data < 32 \<or> length data < 32 + 24 * unat (data ! 8) then None
     else if data ! 8 \<noteq> 1 then Some None
     else Some (Some (get_at dec_osii 24 32 data)))"

definition OSIP_BACKUP_OFFSET :: u32 where "OSIP_BACKUP_OFFSET = 0xE0"

definition destroy_the_osip_backup :: "mmc \<Rightarrow> int \<times> mmc" where
  "destroy_the_osip_backup m =
    (case m of None \<Rightarrow> (-1, None)
     | Some d \<Rightarrow>
       let pos = (case lseek d OSIP_BACKUP_OFFSET of None \<Rightarrow> 0 | Some p \<Rightarrow> p) in
       case safe_read d pos 4 of None \<Rightarrow> (-1, Some d)
       | Some bs \<Rightarrow>
         if le_word bs = OSIP_SIG then
           let pos = (case lseek d OSIP_BACKUP_OFFSET of None \<Rightarrow> pos + 4 | Some p \<Rightarrow> p) in
           (0, Some (case dev_write d pos (le_bytes 4 (NOT 0 :: u32)) of None \<Rightarrow> d | Some (_, d') \<Rightarrow> d'))
         else (0, Some d))"

text \<open>The image that a destination is read into, for \<open>bsdiff\<close>. \<open>heap\<close> is what \<open>malloc\<close> returned: the
  requested number of bytes with arbitrary contents, or nothing. An index outside \<open>desc\<close>, and a blob
  that is too small for its first sector (the size wraps at \<open>2\<^sup>3\<^sup>2\<close>), are undefined.\<close>

definition file_osip_for :: "OSII \<Rightarrow> OSIP_header" where
  "file_osip_for e =
    (let h = (blank_osip)\<lparr>osip_sig := OSIP_SIG, header_rev_minor := 0, header_rev_major := 1,
                 num_pointers := 1, num_images := 1, header_size := 1 * 0x18 + 0x20\<rparr>;
         e = e\<lparr>logical_start_block := 1\<rparr>;
         e = (if attribute e \<noteq> 8 \<and> attribute e \<noteq> 9
              then e\<lparr>entry_point := ENTRY_POINT, ddr_load_address := DDR_LOAD_ADDX\<rparr> else e)
     in with_checksum (set_desc 0 e h))"

definition first_sector :: "OSII \<Rightarrow> buffer \<Rightarrow> buffer" where
  "first_sector e blob =
    (let blob = put_at enc_osip 0 (file_osip_for e) blob;
         blob = overlay 0x38 (replicate 384 0xFF) blob
     in overlay (0x38 + 384 + 70) [0x55, 0xAA] blob)"

definition read_osimage_data :: "(nat \<Rightarrow> buffer option) \<Rightarrow> int \<Rightarrow> mmc \<Rightarrow> buffer option option" where
  "read_osimage_data heap osii_index m =
    (case read_OSIP m of None \<Rightarrow> Some None
     | Some h \<Rightarrow>
       if osii_index < 0 then None else
       do { e \<leftarrow> desc_at h (nat osii_index);
            let blob_size = unat ((size_of_os_image e + 1) * 512);
            (case heap blob_size of None \<Rightarrow> Some None
             | Some blob \<Rightarrow>
               if length blob < 512 then None else
               let blob = first_sector e blob in
               case m of None \<Rightarrow> Some None
               | Some d \<Rightarrow>
                 (case lseek d (logical_start_block e * 512) of None \<Rightarrow> Some None
                  | Some pos \<Rightarrow>
                    (case safe_read d pos (blob_size - 512) of None \<Rightarrow> Some None
                     | Some bs \<Rightarrow> Some (Some (overlay 512 bs blob))))) })"

text \<open>Where the new image goes and how large it may be (the first switch of \<open>write_stitch_image_ex\<close>):
  \<open>Some None\<close> for an unknown attribute.\<close>

definition splash_kind :: "byte \<Rightarrow> bool" where
  "splash_kind k \<longleftrightarrow> k = 0x04"

definition choose_slot :: "OSII \<Rightarrow> bool \<Rightarrow> OSIP_header \<Rightarrow> (u32 \<times> u32) option option" where
  "choose_slot e large_image h =
    (let k = attr_kind e in
     if os_kind k \<or> splash_kind k then
       (if large_image then Some (Some (OS_START_OFFSET, OS_MAX_LBA * of_nat (length os_lba_slots)))
        else do { lba \<leftarrow> get_free_os_lba h; Some (Some (lba, OS_MAX_LBA)) })
     else if fw_kind k then do { lba \<leftarrow> get_free_fw_lba h; Some (Some (lba, FW_MAX_LBA)) }
     else Some None)"

text \<open>The new header (lines 563-595), with the entry as it is by then. \<open>None\<close> is a store to
  \<open>desc[num_pointers]\<close> outside the array.\<close>

definition set_num_pointers :: "byte \<Rightarrow> OSIP_header \<Rightarrow> OSIP_header" where
  "set_num_pointers n h = h\<lparr>num_pointers := n, header_size := ucast n * 0x18 + 0x20\<rparr>"

definition keep_invalid :: "nat \<Rightarrow> OSIP_header \<Rightarrow> OSII \<Rightarrow> OSII" where
  "keep_invalid idx h e =
    (let old = desc h ! idx in
     if idx < unat (num_pointers h) \<and> ddr_load_address old = 0 \<and> entry_point old = 0
     then e\<lparr>ddr_load_address := ddr_load_address old, entry_point := entry_point old\<rparr> else e)"

definition replace_desc :: "nat \<Rightarrow> OSII \<Rightarrow> OSIP_header \<Rightarrow> OSIP_header option" where
  "replace_desc idx e h0 =
    (let h = (if idx \<ge> unat (num_pointers h0) then set_num_pointers (of_nat idx + 1) h0 else h0);
         old = desc h ! idx in
     if os_kind (attr_kind old) \<or> attr_kind old = 0xff AND NOT 1 \<or> attr_kind old = attr_kind e
     then Some (set_desc idx e h)
     else if unat (num_pointers h) \<ge> 8 then None
     else Some (set_num_pointers (num_pointers h + 1)
                 (set_desc idx e (set_desc (unat (num_pointers h)) old h))))"

text \<open>Everything up to the write of the header: \<open>Inl\<close> is a failure with the buffer and the device it leaves;
  \<open>Inr\<close> the header to write.\<close>

definition stage_image :: "buffer \<Rightarrow> nat \<Rightarrow> bool \<Rightarrow> mmc \<Rightarrow>
    (buffer \<times> mmc + OSIP_header \<times> buffer \<times> mmc) option" where
  "stage_image data idx large_image m =
    do { c \<leftarrow> crack_stitched_image data;
         (case c of None \<Rightarrow> Some (Inl (data, m)) | Some e \<Rightarrow>
          if size_of_os_image e * 512 \<noteq> of_nat (length data) - 512 then Some (Inl (data, m)) else
          case read_OSIP m of None \<Rightarrow> Some (Inl (data, m)) | Some h \<Rightarrow>
          let m = snd (destroy_the_osip_backup m) in
          do { ch \<leftarrow> choose_slot e large_image h;
               (case ch of None \<Rightarrow> Some (Inl (data, m))
                | Some (lba, max_size_lba) \<Rightarrow>
                  let e = e\<lparr>logical_start_block := lba\<rparr>;
                      data = put_at enc_osii 32 e data in
                  if lba = 0 \<or> size_of_os_image e > max_size_lba then Some (Inl (data, m)) else
                  let e = keep_invalid idx h e;
                      data = put_at enc_osii 32 e data in
                  do { h' \<leftarrow> replace_desc idx e h;
                       (case m of None \<Rightarrow> Some (Inl (data, m))
                        | Some d \<Rightarrow>
                          (case lseek d (logical_start_block e * 512) of None \<Rightarrow> Some (Inl (data, m))
                           | Some pos \<Rightarrow>
                             let (ok, d) = write_all d pos (drop 512 data) in
                             Some (if ok then Inr (h', data, Some d) else Inl (data, Some d)))) }) }) }"

definition write_stitch_image_ex :: "buffer \<Rightarrow> int \<Rightarrow> bool \<Rightarrow> mmc \<Rightarrow> (int \<times> buffer \<times> mmc) option" where
  "write_stitch_image_ex data osii_index large_image m =
    (if check_index_outofbound osii_index \<noteq> 0 then Some (-1, data, m)
     else do { r \<leftarrow> stage_image data (nat osii_index) large_image m;
               Some (case r of Inl (data, m) \<Rightarrow> (-1, data, m)
                     | Inr (h, data, m) \<Rightarrow> let (st, m) = write_OSIP h m in (st, data, m)) })"

definition write_stitch_image :: "buffer \<Rightarrow> int \<Rightarrow> mmc \<Rightarrow> (int \<times> buffer \<times> mmc) option" where
  "write_stitch_image data osii_index m = write_stitch_image_ex data osii_index False m"

subsection \<open>Images on the device\<close>

text \<open>The bytes of an image, and a device that has room for every slot.\<close>

definition image_of :: "OSII \<Rightarrow> blkdev \<Rightarrow> buffer" where
  "image_of e d = seg (unat (logical_start_block e) * 512) (unat (size_of_os_image e) * 512) (bytes d)"

definition roomy_device :: "blkdev \<Rightarrow> bool" where
  "roomy_device d \<longleftrightarrow> (260050 + 32000) * 512 \<le> length (bytes d)"

text \<open>A slot with the number of blocks it has.\<close>

definition is_slot :: "u32 \<Rightarrow> u32 \<Rightarrow> bool" where
  "is_slot s n \<longleftrightarrow> s \<in> set fw_lba_slots \<and> n = FW_MAX_LBA \<or> s \<in> set os_lba_slots \<and> n = OS_MAX_LBA"

lemma is_slot_bounds:
  "is_slot s n \<Longrightarrow> 50 \<le> unat s \<and> unat s + unat n \<le> 292050 \<and> unat n \<le> 32000 \<and> s \<noteq> 0"
  by (auto simp: is_slot_def fw_lba_slots_eq os_lba_slots_eq FW_MAX_LBA_def OS_MAX_LBA_def)

lemma lseek_slot:
  assumes "is_slot s n" "roomy_device d"
  shows "lseek d (s * 512) = Some (unat s * 512)"
  using assms by (auto simp: is_slot_def lseek_def lseek64_def roomy_device_def fw_lba_slots_eq os_lba_slots_eq)

lemma seg_image_apart:
  assumes "extent e \<inter> slot_extent s n = {}"
    "length bs \<le> unat n * 512" "unat s * 512 + length bs \<le> length (bytes d)"
  shows "image_of e (d\<lparr>bytes := overlay (unat s * 512) bs (bytes d)\<rparr>) = image_of e d"
proof (cases "size_of_os_image e = 0 \<or> bs = []")
  case True
  then show ?thesis using assms by (auto simp: image_of_def overlay_idle)
next
  case False
  let ?l = "unat (logical_start_block e)" and ?k = "unat (size_of_os_image e)"
  from False have pos: "0 < ?k" "0 < length bs" by (auto simp: unat_gt_0)
  then have "0 < unat n" using assms(2) by (cases "unat n") auto
  with pos have "?l + ?k \<le> unat s \<or> unat s + unat n \<le> ?l"
    using assms(1) by (auto simp: extent_def slot_extent_def disjoint_iff)
  then have "?l * 512 + ?k * 512 \<le> unat s * 512 \<or> unat s * 512 + length bs \<le> ?l * 512"
    using assms(2) by arith
  then show ?thesis using assms(3) by (simp add: image_of_def seg_overlay_disjoint)
qed

text \<open>The device after \<open>destroy_the_osip_backup\<close>.\<close>

definition backup_gone :: "blkdev \<Rightarrow> blkdev" where
  "backup_gone d = (if le_word (seg 224 4 (bytes d)) = OSIP_SIG
     then d\<lparr>bytes := overlay 224 (le_bytes 4 (NOT 0 :: u32)) (bytes d)\<rparr> else d)"

lemma destroy_backup_emmc:
  assumes "emmc d h"
  shows "destroy_the_osip_backup (Some d) = (0, Some (backup_gone d))"
proof -
  have "healthy d" "512 \<le> length (bytes d)" using assms by (auto simp: emmc_def)
  moreover from this have "lseek d OSIP_BACKUP_OFFSET = Some 224"
    by (simp add: lseek_def lseek64_def OSIP_BACKUP_OFFSET_def)
  ultimately show ?thesis
    by (simp add: destroy_the_osip_backup_def safe_read_healthy dev_write_healthy backup_gone_def)
qed

lemma backup_gone_emmc: "emmc d h \<Longrightarrow> emmc (backup_gone d) h"
  using emmc_overlay [of d h 224 "le_bytes 4 (NOT 0 :: u32)"] by (simp add: backup_gone_def emmc_def)

lemma length_backup_gone [simp]: "emmc d h \<Longrightarrow> length (bytes (backup_gone d)) = length (bytes d)"
  by (simp add: backup_gone_def emmc_def)

lemma roomy_backup_gone: "emmc d h \<Longrightarrow> roomy_device (backup_gone d) = roomy_device d"
  by (simp add: roomy_device_def)

lemma seg_backup_gone: "emmc d h \<Longrightarrow> 228 \<le> off \<Longrightarrow> seg off n (bytes (backup_gone d)) = seg off n (bytes d)"
  by (simp add: backup_gone_def emmc_def seg_overlay_after)

lemma image_backup_gone:
  assumes "emmc d h" "in_slot e"
  shows "image_of e (backup_gone d) = image_of e d"
proof (cases "size_of_os_image e = 0")
  case True
  then show ?thesis by (simp add: image_of_def)
next
  case False
  then have "50 \<le> unat (logical_start_block e)"
    using assms(2) by (auto simp: in_slot_def fw_lba_slots_eq os_lba_slots_eq)
  then show ?thesis using assms(1) by (simp add: image_of_def seg_backup_gone)
qed

text \<open>What is known of the entry that a run of \<open>write_stitch_image_ex\<close> writes, when it reaches the write of
  the image: its slot is free, and the buffer holds exactly the image behind its first sector.\<close>

definition placeable :: "buffer \<Rightarrow> nat \<Rightarrow> OSIP_header \<Rightarrow> OSII \<Rightarrow> bool" where
  "placeable data idx h e \<longleftrightarrow> (\<exists>e0 lba n. crack_stitched_image data = Some (Some e0) \<and>
     choose_slot e0 False h = Some (Some (lba, n)) \<and> is_slot lba n \<and>
     (\<forall>i < live h. \<not> blocks_slot (desc h ! i) lba n) \<and>
     size_of_os_image e0 \<le> n \<and> length data = 512 + 512 * unat (size_of_os_image e0) \<and>
     e = keep_invalid idx h (e0\<lparr>logical_start_block := lba\<rparr>))"

lemma choose_slot_is_slot:
  assumes "live h \<le> 8" "choose_slot e False h = Some (Some (lba, n))" "lba \<noteq> 0"
  shows "is_slot lba n \<and> (\<forall>i < live h. \<not> blocks_slot (desc h ! i) lba n)"
  using assms free_slot [OF assms(1), of os_lba_slots] free_slot [OF assms(1), of fw_lba_slots]
  by (auto simp: choose_slot_def is_slot_def get_free_os_lba_def get_free_fw_lba_def Let_def
      split: if_splits Option.bind_splits)

lemma size_check:
  assumes "size_of_os_image e * 512 = of_nat (length data) - 512" "length data < 2 ^ 32"
    "unat (size_of_os_image e) \<le> 32000"
  shows "length data = 512 + 512 * unat (size_of_os_image e)"
proof -
  have "(of_nat (length data) :: u32) = of_nat (unat (size_of_os_image e) * 512 + 512)"
    using assms(1) by (simp add: algebra_simps)
  then have "unat (of_nat (length data) :: u32) = unat (of_nat (unat (size_of_os_image e) * 512 + 512) :: u32)"
    by simp
  moreover have "unat (of_nat (unat (size_of_os_image e) * 512 + 512) :: u32) = unat (size_of_os_image e) * 512 + 512"
    unfolding unat_of_nat using assms(3) by simp
  moreover have "unat (of_nat (length data) :: u32) = length data"
    unfolding unat_of_nat using assms(2) by simp
  ultimately show ?thesis by simp
qed

text \<open>The run that reaches the write of the image, at any place that is on the device.\<close>

lemma stage_image_at:
  fixes idx :: nat
  assumes d: "emmc d h" and len: "length data = 512 + 512 * unat (size_of_os_image e0)"
    and e0: "crack_stitched_image data = Some (Some e0)"
    and ch: "choose_slot e0 large h = Some (Some (lba, n))" "size_of_os_image e0 \<le> n" "lba \<noteq> 0"
    and sk: "lseek (backup_gone d) (lba * 512) = Some (unat lba * 512)"
    and room: "unat lba * 512 + 512 * unat (size_of_os_image e0) \<le> length (bytes d)"
  defines "e \<equiv> keep_invalid idx h (e0\<lparr>logical_start_block := lba\<rparr>)"
  shows "stage_image data idx large (Some d) = map_option (\<lambda>h'. Inr (h', put_at enc_osii 32 e data,
      Some ((backup_gone d)\<lparr>bytes := overlay (unat lba * 512) (drop 512 data) (bytes (backup_gone d))\<rparr>)))
      (replace_desc idx e h)"
proof -
  let ?d = "backup_gone d"
  have gone: "snd (destroy_the_osip_backup (Some d)) = Some ?d" by (simp add: destroy_backup_emmc [OF d])
  have size: "size_of_os_image e0 * 512 = of_nat (length data) - 512" by (simp add: len algebra_simps)
  have lbe: "logical_start_block e = lba" by (simp add: e_def keep_invalid_def Let_def)
  have "osii_wf e0" using e0 len osii.wf_get [of 32 data] by (auto simp: crack_stitched_image_def split: if_splits)
  then have lens: "length (enc_osii (e0\<lparr>logical_start_block := lba\<rparr>)) = 24" "length (enc_osii e) = 24"
    by (auto intro!: osii.length_enc simp: osii_wf_def e_def keep_invalid_def Let_def)
  have data: "put_at enc_osii 32 e (put_at enc_osii 32 (e0\<lparr>logical_start_block := lba\<rparr>) data) = put_at enc_osii 32 e data"
    "drop 512 (put_at enc_osii 32 e data) = drop 512 data"
    using lens len by (simp_all add: put_at_def) (simp add: overlay_def)
  have "unat lba * 512 + length (drop 512 data) \<le> length (bytes ?d)" using room len d by simp
  moreover have "healthy ?d" using backup_gone_emmc [OF d] by (simp add: emmc_def)
  ultimately have wr: "write_all ?d (unat lba * 512) (drop 512 data) =
      (True, ?d\<lparr>bytes := overlay (unat lba * 512) (drop 512 data) (bytes ?d)\<rparr>)"
    by (intro write_all_healthy)
  show ?thesis
    using e0 size ch sk wr read_OSIP_emmc [OF d] data lbe
    by (cases "replace_desc idx e h")
      (simp_all add: stage_image_def gone Let_def linorder_not_less [symmetric] flip: e_def)
qed

text \<open>The same for an image that is written to a slot.\<close>

lemma stage_image_writes:
  fixes idx :: nat
  assumes d: "emmc d h" "roomy_device d" and len: "length data = 512 + 512 * unat (size_of_os_image e0)"
    and e0: "crack_stitched_image data = Some (Some e0)"
    and ch: "choose_slot e0 False h = Some (Some (lba, n))" "is_slot lba n" "size_of_os_image e0 \<le> n"
  defines "e \<equiv> keep_invalid idx h (e0\<lparr>logical_start_block := lba\<rparr>)"
  shows "stage_image data idx False (Some d) = map_option (\<lambda>h'. Inr (h', put_at enc_osii 32 e data,
      Some ((backup_gone d)\<lparr>bytes := overlay (unat lba * 512) (drop 512 data) (bytes (backup_gone d))\<rparr>)))
      (replace_desc idx e h)"
  unfolding e_def
proof (rule stage_image_at [OF d(1) len e0 ch(1,3)])
  show "lba \<noteq> 0" using is_slot_bounds [OF ch(2)] by simp
  show "lseek (backup_gone d) (lba * 512) = Some (unat lba * 512)"
    using ch(2) d by (intro lseek_slot) (auto simp: roomy_backup_gone)
  have "unat (size_of_os_image e0) \<le> unat n" using ch(3) by (simp add: word_le_nat_alt)
  then show "unat lba * 512 + 512 * unat (size_of_os_image e0) \<le> length (bytes d)"
    using is_slot_bounds [OF ch(2)] d(2) by (simp add: roomy_device_def)
qed

text \<open>The three ways out before the header is written.\<close>

lemma stage_image_cases:
  assumes d: "emmc d h" "roomy_device d" "live h \<le> 8" and len: "length data < 2 ^ 32"
    and st: "stage_image data idx False (Some d) = Some r"
  shows "(\<exists>data' d'. r = Inl (data', Some d') \<and> (d' = d \<or> d' = backup_gone d)) \<or>
    (\<exists>e h' data'. placeable data idx h e \<and> replace_desc idx e h = Some h' \<and>
       r = Inr (h', data', Some ((backup_gone d)\<lparr>bytes :=
             overlay (unat (logical_start_block e) * 512) (drop 512 data) (bytes (backup_gone d))\<rparr>)))"
proof (cases "\<exists>e0 lba n. crack_stitched_image data = Some (Some e0) \<and>
      size_of_os_image e0 * 512 = of_nat (length data) - 512 \<and>
      choose_slot e0 False h = Some (Some (lba, n)) \<and> lba \<noteq> 0 \<and> size_of_os_image e0 \<le> n")
  case False
  have "snd (destroy_the_osip_backup (Some d)) = Some (backup_gone d)" by (simp add: destroy_backup_emmc [OF d(1)])
  with False show ?thesis using st read_OSIP_emmc [OF d(1)]
    by (auto simp: stage_image_def Let_def split: Option.bind_splits option.splits if_splits)
next
  case True
  then obtain e0 lba n where e0: "crack_stitched_image data = Some (Some e0)"
      "size_of_os_image e0 * 512 = of_nat (length data) - 512"
    and ch: "choose_slot e0 False h = Some (Some (lba, n))" "lba \<noteq> 0" "size_of_os_image e0 \<le> n" by blast
  have slot: "is_slot lba n" "\<forall>i < live h. \<not> blocks_slot (desc h ! i) lba n"
    using choose_slot_is_slot [OF d(3)] ch by auto
  then have dlen: "length data = 512 + 512 * unat (size_of_os_image e0)"
    using size_check [OF e0(2) len] ch(3) is_slot_bounds [OF slot(1)] by (auto simp: word_le_nat_alt)
  let ?e = "keep_invalid idx h (e0\<lparr>logical_start_block := lba\<rparr>)"
  have "placeable data idx h ?e" unfolding placeable_def using e0 ch slot dlen by blast
  moreover have "logical_start_block ?e = lba" by (simp add: keep_invalid_def Let_def)
  ultimately show ?thesis
    using st stage_image_writes [OF d(1,2) dlen e0(1) ch(1) slot(1) ch(3), of idx] by auto
qed

subsection \<open>The new header\<close>

text \<open>The entries behind the last one are as \<open>oem_write_osip_header\<close> leaves them: not firmware, so that
  \<open>replace_desc\<close> overwrites them.\<close>

definition tidy :: "OSIP_header \<Rightarrow> bool" where
  "tidy h \<longleftrightarrow> (\<forall>i < 8. live h \<le> i \<longrightarrow> os_kind (attr_kind (desc h ! i)))"

text \<open>Where an entry of the new header comes from, for all entries but the written one.\<close>

definition origin :: "nat \<Rightarrow> OSIP_header \<Rightarrow> nat \<Rightarrow> nat" where
  "origin idx h j = (if j = live h then idx else j)"

lemma set_desc_sel [simp]:
  "num_pointers (set_desc i e h) = num_pointers h" "header_checksum (set_desc i e h) = header_checksum h"
  "osip_reserved (set_desc i e h) = osip_reserved h" "osip_sig (set_desc i e h) = osip_sig h"
  "desc (set_desc i e h) = (desc h)[i := e]"
  by (simp_all add: set_desc_def)

lemma set_num_pointers_sel [simp]:
  "num_pointers (set_num_pointers n h) = n" "desc (set_num_pointers n h) = desc h"
  "osip_reserved (set_num_pointers n h) = osip_reserved h" "osip_sig (set_num_pointers n h) = osip_sig h"
  by (simp_all add: set_num_pointers_def)

lemma unat_Suc_byte: "unat (b :: byte) < 8 \<Longrightarrow> unat (b + 1) = Suc (unat b)"
  by (subst unat_add_lem [THEN iffD1]) auto

lemma list_all_update: "list_all P xs \<Longrightarrow> P x \<Longrightarrow> list_all P (xs[i := x])"
  by (auto simp: list_all_iff dest: set_update_subset_insert [THEN subsetD])

lemma osip_wf_nth: "osip_wf h \<Longrightarrow> i < 8 \<Longrightarrow> osii_wf (desc h ! i)"
  by (simp add: osip_wf_def list_all_length)

text \<open>\<open>replace_desc\<close> at an index up to the number of entries: replace, append, or move the old entry to the
  end.\<close>

lemma replace_desc_cases:
  assumes "osip_wf h" "live h \<le> 8" "idx \<le> live h" "idx < 8" "tidy h" "replace_desc idx e h = Some h'"
  shows "h' = set_desc idx e h \<and> idx < live h \<or>
    h' = set_desc idx e (set_num_pointers (of_nat idx + 1) h) \<and> idx = live h \<or>
    h' = set_num_pointers (num_pointers h + 1) (set_desc idx e (set_desc (live h) (desc h ! idx) h)) \<and>
      idx < live h \<and> live h < 8"
proof (cases "idx < live h")
  case True
  then show ?thesis using assms(6) by (auto simp: replace_desc_def Let_def split: if_splits)
next
  case False
  then show ?thesis using assms by (auto simp: replace_desc_def Let_def tidy_def split: if_splits)
qed

lemma replace_desc_facts:
  assumes h: "osip_wf h" "live h \<le> 8" "idx \<le> live h" "idx < 8" "tidy h" "replace_desc idx e h = Some h'"
    and e: "osii_wf e"
  shows "osip_wf h'" "live h \<le> live h'" "live h' \<le> 8" "idx < live h'" "desc h' ! idx = e" "tidy h'"
    and "\<And>j. j < live h \<Longrightarrow> j \<noteq> idx \<Longrightarrow> desc h' ! j = desc h ! j"
    and "\<And>j. j < live h' \<Longrightarrow> j \<noteq> idx \<Longrightarrow> origin idx h j < live h \<and> desc h' ! j = desc h ! origin idx h j"
    and "\<And>i j. i < live h' \<Longrightarrow> j < live h' \<Longrightarrow> i \<noteq> idx \<Longrightarrow> j \<noteq> idx \<Longrightarrow> i \<noteq> j \<Longrightarrow> origin idx h i \<noteq> origin idx h j"
proof -
  have len: "length (desc h) = 8" using h(1) by (simp add: osip_wf_def)
  have u: "unat ((of_nat idx :: byte) + 1) = Suc idx" using h(4) by (subst unat_Suc_byte) (auto simp: unat_of_nat)
  have us: "live h < 8 \<Longrightarrow> unat (num_pointers h + 1) = Suc (live h)" by (rule unat_Suc_byte)
  note cases = replace_desc_cases [OF h]
  show "osip_wf h'"
    using cases h(1) e h(4) osip_wf_nth [OF h(1) h(4)] by (auto simp: osip_wf_def list_all_update)
  show "live h \<le> live h'" "live h' \<le> 8" "idx < live h'" "desc h' ! idx = e"
    using cases h len u us by auto
  show "tidy h'" using cases h(5,4) len u us by (auto simp: tidy_def)
  show "\<And>j. j < live h \<Longrightarrow> j \<noteq> idx \<Longrightarrow> desc h' ! j = desc h ! j"
    using cases h len by auto
  show "\<And>j. j < live h' \<Longrightarrow> j \<noteq> idx \<Longrightarrow> origin idx h j < live h \<and> desc h' ! j = desc h ! origin idx h j"
    using cases h len u us by (auto simp: origin_def less_Suc_eq)
  show "\<And>i j. i < live h' \<Longrightarrow> j < live h' \<Longrightarrow> i \<noteq> idx \<Longrightarrow> j \<noteq> idx \<Longrightarrow> i \<noteq> j \<Longrightarrow> origin idx h i \<noteq> origin idx h j"
    by (auto simp: origin_def)
qed

lemma keep_invalid_sel [simp]:
  "logical_start_block (keep_invalid idx h e) = logical_start_block e"
  "size_of_os_image (keep_invalid idx h e) = size_of_os_image e"
  "attribute (keep_invalid idx h e) = attribute e" "osii_wf (keep_invalid idx h e) = osii_wf e"
  by (simp_all add: keep_invalid_def Let_def osii_wf_def)

lemma osii_wf_update [simp]:
  "osii_wf (e\<lparr>logical_start_block := x\<rparr>) = osii_wf e"
  "osii_wf (e\<lparr>ddr_load_address := y, entry_point := z\<rparr>) = osii_wf e"
  by (simp_all add: osii_wf_def)

lemma placeable_facts:
  assumes "placeable data idx h e"
  obtains n where "is_slot (logical_start_block e) n" "\<forall>i < live h. \<not> blocks_slot (desc h ! i) (logical_start_block e) n"
    "size_of_os_image e \<le> n" "length data = 512 + 512 * unat (size_of_os_image e)" "osii_wf e" "in_slot e"
proof -
  from assms obtain e0 lba n where p: "crack_stitched_image data = Some (Some e0)" "is_slot lba n"
      "\<forall>i < live h. \<not> blocks_slot (desc h ! i) lba n" "size_of_os_image e0 \<le> n"
      "length data = 512 + 512 * unat (size_of_os_image e0)" "e = keep_invalid idx h (e0\<lparr>logical_start_block := lba\<rparr>)"
    by (auto simp: placeable_def)
  moreover have "osii_wf e0"
    using p(1,5) osii.wf_get [of 32 data] by (auto simp: crack_stitched_image_def split: if_splits)
  moreover have "in_slot e" using p(2,4,6) by (auto simp: in_slot_def is_slot_def)
  ultimately show thesis using that [of n] by simp
qed

lemma laid_out_replaced:
  assumes h: "osip_wf h" "laid_out h" "idx \<le> live h" "idx < 8" "tidy h" "replace_desc idx e h = Some h'"
    and e: "placeable data idx h e"
  shows "laid_out h'"
proof -
  from e obtain n where n: "is_slot (logical_start_block e) n"
      "\<forall>i < live h. \<not> blocks_slot (desc h ! i) (logical_start_block e) n" "size_of_os_image e \<le> n"
      "osii_wf e" "in_slot e" by (rule placeable_facts)
  have l8: "live h \<le> 8" using h(2) by (simp add: laid_out_def)
  note f = replace_desc_facts [OF h(1) l8 h(3-6) n(4)]
  have sub: "extent e \<subseteq> slot_extent (logical_start_block e) n"
    using n(3) by (auto simp: extent_def slot_extent_def word_le_nat_alt)
  have old: "in_slot (desc h ! i)" if "i < live h" for i using h(2) that by (simp add: laid_out_def)
  have apart: "extent (desc h ! i) \<inter> extent e = {}" if "i < live h" for i
    using not_blocked_apart [OF old [OF that]] n(1,2) that sub unfolding is_slot_def by blast
  have "in_slot (desc h' ! j)" if "j < live h'" for j
    using that f(5,8) old n(5) by (cases "j = idx") auto
  moreover have "extent (desc h' ! i) \<inter> extent (desc h' ! j) = {}" if "i < live h'" "j < live h'" "i \<noteq> j" for i j
  proof (cases "i = idx \<or> j = idx")
    case True
    then show ?thesis using that f(5,8) apart by (metis Int_commute)
  next
    case False
    then show ?thesis using that f(8,9) h(2) by (simp add: laid_out_def)
  qed
  ultimately show ?thesis using f(3) by (simp add: laid_out_def)
qed

subsection \<open>Properties\<close>

text \<open>A device whose header was laid out by this code.\<close>

definition flashed :: "blkdev \<Rightarrow> OSIP_header \<Rightarrow> bool" where
  "flashed d h \<longleftrightarrow> emmc d h \<and> roomy_device d \<and> laid_out h \<and> tidy h"

text \<open>The device while the image is being written: the backup signature is gone and \<open>k\<close> bytes of the image
  have reached the slot.\<close>

definition partly_written :: "blkdev \<Rightarrow> OSII \<Rightarrow> buffer \<Rightarrow> nat \<Rightarrow> blkdev" where
  "partly_written d e data k = (backup_gone d)\<lparr>bytes :=
     overlay (unat (logical_start_block e) * 512) (take k (drop 512 data)) (bytes (backup_gone d))\<rparr>"

lemma partly_written_keeps:
  assumes "flashed d h" "placeable data idx h e"
  shows "emmc (partly_written d e data k) h \<and> roomy_device (partly_written d e data k) \<and>
    (\<forall>i < live h. image_of (desc h ! i) (partly_written d e data k) = image_of (desc h ! i) d)"
proof -
  from assms(2) obtain n where n: "is_slot (logical_start_block e) n"
      "\<forall>i < live h. \<not> blocks_slot (desc h ! i) (logical_start_block e) n" "size_of_os_image e \<le> n"
      "length data = 512 + 512 * unat (size_of_os_image e)" by (rule placeable_facts)
  have d: "emmc d h" "roomy_device d" and old: "\<And>i. i < live h \<Longrightarrow> in_slot (desc h ! i)"
    using assms(1) by (auto simp: flashed_def laid_out_def)
  let ?off = "unat (logical_start_block e) * 512" and ?bs = "take k (drop 512 data)"
  have len: "length ?bs \<le> unat n * 512" using n(3,4) by (simp add: word_le_nat_alt)
  then have room: "?off + length ?bs \<le> length (bytes (backup_gone d))"
    using is_slot_bounds [OF n(1)] d by (simp add: roomy_device_def)
  have "emmc (partly_written d e data k) h"
    unfolding partly_written_def using is_slot_bounds [OF n(1)] room
    by (intro emmc_overlay backup_gone_emmc [OF d(1)]) auto
  moreover have "roomy_device (partly_written d e data k)"
    using d room by (simp add: partly_written_def roomy_device_def)
  moreover have "image_of (desc h ! i) (partly_written d e data k) = image_of (desc h ! i) d" if "i < live h" for i
    unfolding partly_written_def
    using seg_image_apart [of "desc h ! i" _ n ?bs "backup_gone d"] not_blocked_apart [OF old [OF that]]
      n(1,2) that len room image_backup_gone [OF d(1) old [OF that]]
    unfolding is_slot_def by auto
  ultimately show ?thesis by blast
qed

text \<open>C2: A power cut while an OS or firmware image is being written through \<open>write_stitch_image\<close> does not brick the device. On a
  device laid out by this code, for every file below 4 GiB (the range of its 32-bit length) and every valid index, unless the behaviour is
  undefined (a file shorter than its header and the entries that this announces, or a descriptor stored behind the table), the code either fails
  before it writes the image, with the old header and every listed image in place, or writes to one free slot, and at every number \<open>k\<close>
  of bytes written so far the device still holds the old header and every image it lists, byte for byte. This does not hold for the
  images that \<open>flash_image_osip\<close> writes for \<open>testos\<close> with the flag for large images: they go to \<open>OS_START_OFFSET\<close>, free or not.\<close>

theorem power_cut_keeps_images:
  assumes "flashed d h" "length data < 2 ^ 32" "stage_image data idx False (Some d) = Some r"
  shows "(\<exists>data' d'. r = Inl (data', Some d') \<and> read_OSIP (Some d') = Some h \<and>
      (\<forall>i < live h. image_of (desc h ! i) d' = image_of (desc h ! i) d)) \<or>
    (\<exists>e h' data'. r = Inr (h', data', Some (partly_written d e data (length data))) \<and>
      (\<forall>k. read_OSIP (Some (partly_written d e data k)) = Some h \<and>
        (\<forall>i < live h. image_of (desc h ! i) (partly_written d e data k) = image_of (desc h ! i) d)))"
proof -
  have d: "emmc d h" "roomy_device d" "live h \<le> 8" and old: "\<And>i. i < live h \<Longrightarrow> in_slot (desc h ! i)"
    using assms(1) by (auto simp: flashed_def laid_out_def)
  from stage_image_cases [OF d assms(2,3)] show ?thesis
  proof (elim disjE exE conjE)
    fix data' d'
    assume r: "r = Inl (data', Some d')" "d' = d"
    then show ?thesis using read_OSIP_emmc [OF d(1)] by blast
  next
    fix data' d'
    assume "r = Inl (data', Some d')" "d' = backup_gone d"
    then show ?thesis using read_OSIP_emmc [OF backup_gone_emmc [OF d(1)]] image_backup_gone [OF d(1) old] by blast
  next
    fix e h' data'
    assume p: "placeable data idx h e" and r: "r = Inr (h', data', Some ((backup_gone d)\<lparr>bytes :=
        overlay (unat (logical_start_block e) * 512) (drop 512 data) (bytes (backup_gone d))\<rparr>))"
    then have "r = Inr (h', data', Some (partly_written d e data (length data)))"
      by (simp add: partly_written_def)
    then show ?thesis using partly_written_keeps [OF assms(1) p] read_OSIP_emmc by blast
  qed
qed

subsection \<open>Installing an image\<close>

text \<open>The header written over the first bytes leaves the images alone.\<close>

definition header_written :: "blkdev \<Rightarrow> OSIP_header \<Rightarrow> blkdev" where
  "header_written d h = d\<lparr>bytes := overlay 0 (enc_osip (with_checksum h)) (bytes d)\<rparr>"

lemma header_written_facts:
  assumes "emmc d h0" "osip_wf h"
  shows "write_OSIP h (Some d) = (0, Some (header_written d h))" "emmc (header_written d h) (with_checksum h)"
    "roomy_device (header_written d h) = roomy_device d"
  using assms write_OSIP_healthy [of d h] emmc_written [of d h] osip.length_enc [of "with_checksum h"]
  by (auto simp: header_written_def emmc_def roomy_device_def)

lemma image_header_written:
  assumes "emmc d h0" "osip_wf h" "in_slot e"
  shows "image_of e (header_written d h) = image_of e d"
proof (cases "size_of_os_image e = 0")
  case True
  then show ?thesis by (simp add: image_of_def)
next
  case False
  then have "224 \<le> unat (logical_start_block e) * 512"
    using assms(3) by (auto simp: in_slot_def fw_lba_slots_eq os_lba_slots_eq)
  then show ?thesis using assms(1,2) osip.length_enc [of "with_checksum h"]
    by (simp add: image_of_def header_written_def emmc_def seg_overlay_after)
qed

lemma tidy_with_checksum [simp]: "tidy (with_checksum h) = tidy h"
  by (simp add: tidy_def)

text \<open>All that a run of \<open>write_stitch_image\<close> can do, at an index that \<open>get_named_osii_index\<close> can return.\<close>

lemma write_stitch_image_cases:
  assumes f: "flashed d h" and idx: "idx \<le> live h" "idx < 8" and len: "length data < 2 ^ 32"
    and w: "write_stitch_image data (int idx) (Some d) = Some (st, data', m)"
  shows "st = -1 \<and> (m = Some d \<or> m = Some (backup_gone d)) \<or>
    st = 0 \<and> (\<exists>e h'. placeable data idx h e \<and> replace_desc idx e h = Some h' \<and>
      m = Some (header_written (partly_written d e data (length data)) h'))"
proof -
  have d: "emmc d h" "roomy_device d" "live h \<le> 8" "osip_wf h" "tidy h"
    using f by (auto simp: flashed_def laid_out_def emmc_def)
  from w idx obtain r where r: "stage_image data idx False (Some d) = Some r"
    and res: "(st, data', m) = (case r of Inl (data, m) \<Rightarrow> (-1, data, m)
                     | Inr (h, data, m) \<Rightarrow> let (st, m) = write_OSIP h m in (st, data, m))"
    by (auto simp: write_stitch_image_def write_stitch_image_ex_def check_index_outofbound_def
        split: Option.bind_splits)
  from stage_image_cases [OF d(1-3) len r] show ?thesis
  proof (elim disjE exE conjE)
    fix data1 d1
    assume "r = Inl (data1, Some d1)" "d1 = d"
    then show ?thesis using res by simp
  next
    fix data1 d1
    assume "r = Inl (data1, Some d1)" "d1 = backup_gone d"
    then show ?thesis using res by simp
  next
    fix e h' data1
    assume p: "placeable data idx h e" and h': "replace_desc idx e h = Some h'"
      and r: "r = Inr (h', data1, Some ((backup_gone d)\<lparr>bytes :=
        overlay (unat (logical_start_block e) * 512) (drop 512 data) (bytes (backup_gone d))\<rparr>))"
    have "osii_wf e" using p by (rule placeable_facts)
    then have "osip_wf h'" using replace_desc_facts(1) [OF d(4,3) idx d(5) h'] by simp
    moreover have "emmc (partly_written d e data (length data)) h" using partly_written_keeps [OF f p] by simp
    moreover have "r = Inr (h', data1, Some (partly_written d e data (length data)))"
      using r by (simp add: partly_written_def)
    ultimately show ?thesis using res header_written_facts(1) p h' by auto
  qed
qed

lemma installed:
  assumes f: "flashed d h" and idx: "idx \<le> live h" "idx < 8"
    and p: "placeable data idx h e" and h': "replace_desc idx e h = Some h'"
  defines "d' \<equiv> header_written (partly_written d e data (length data)) h'"
  shows "flashed d' (with_checksum h')" "desc h' ! idx = e" "image_of e d' = drop 512 data"
    "\<forall>j < live h. j \<noteq> idx \<longrightarrow> desc h' ! j = desc h ! j \<and> image_of (desc h ! j) d' = image_of (desc h ! j) d"
proof -
  let ?p = "partly_written d e data (length data)"
  have d: "emmc d h" "live h \<le> 8" "osip_wf h" "tidy h" "laid_out h" "roomy_device d"
    using f by (auto simp: flashed_def laid_out_def emmc_def)
  from p obtain n where n: "osii_wf e" "in_slot e" "is_slot (logical_start_block e) n"
      "length data = 512 + 512 * unat (size_of_os_image e)" "size_of_os_image e \<le> n" by (rule placeable_facts)
  note r = replace_desc_facts [OF d(3,2) idx d(4) h' n(1)]
  have pw: "emmc ?p h" "roomy_device ?p" "\<forall>i < live h. image_of (desc h ! i) ?p = image_of (desc h ! i) d"
    using partly_written_keeps [OF f p] by auto
  note hw = header_written_facts [OF pw(1) r(1)]
  have img: "image_of e' d' = image_of e' ?p" if "in_slot e'" for e'
    unfolding d'_def using pw(1) r(1) that by (rule image_header_written)
  show "flashed d' (with_checksum h')"
    using hw pw r(6) laid_out_replaced [OF d(3,5) idx d(4) h' p] by (simp add: flashed_def d'_def)
  show "desc h' ! idx = e" by (rule r(5))
  have "unat (logical_start_block e) * 512 + length (drop 512 data) \<le> length (bytes (backup_gone d))"
    using n(4,5) is_slot_bounds [OF n(3)] d(1,6) by (simp add: roomy_device_def word_le_nat_alt)
  then have "image_of e ?p = drop 512 data"
    using n(4) by (simp add: image_of_def partly_written_def mult.commute)
  then show "image_of e d' = drop 512 data" using img [OF n(2)] by simp
  show "\<forall>j < live h. j \<noteq> idx \<longrightarrow> desc h' ! j = desc h ! j \<and> image_of (desc h ! j) d' = image_of (desc h ! j) d"
    using r(7) pw(3) img d(5) by (simp add: laid_out_def)
qed

lemma stitch_written:
  assumes f: "flashed d h" and idx: "idx \<le> live h" "idx < 8"
    and e0: "crack_stitched_image data = Some (Some e0)" "length data = 512 + 512 * unat (size_of_os_image e0)"
    and ch: "choose_slot e0 False h = Some (Some (lba, n))" "lba \<noteq> 0" "size_of_os_image e0 \<le> n"
    and room: "live h < 8 \<or> os_kind (attr_kind (desc h ! idx)) \<or> attr_kind (desc h ! idx) \<in> {attr_kind e0, 0xfe}"
  defines "e \<equiv> keep_invalid idx h (e0\<lparr>logical_start_block := lba\<rparr>)"
  shows "\<exists>h'. placeable data idx h e \<and> replace_desc idx e h = Some h' \<and>
    write_stitch_image data (int idx) (Some d) = Some (0, put_at enc_osii 32 e data,
      Some (header_written (partly_written d e data (length data)) h'))"
proof -
  have d: "emmc d h" "roomy_device d" "live h \<le> 8" "osip_wf h" "tidy h"
    using f by (auto simp: flashed_def laid_out_def emmc_def)
  have slot: "is_slot lba n" "\<forall>i < live h. \<not> blocks_slot (desc h ! i) lba n"
    using choose_slot_is_slot [OF d(3)] ch by auto
  have p: "placeable data idx h e" unfolding placeable_def e_def using e0 ch slot by blast
  have "unat ((of_nat idx :: byte) + 1) = Suc idx" using idx(2) by (subst unat_Suc_byte) (auto simp: unat_of_nat)
  moreover have "attr_kind e = attr_kind e0" by (simp add: e_def attr_kind_def)
  ultimately have "replace_desc idx e h \<noteq> None"
    using room idx d(5) by (cases "idx < live h") (auto simp: replace_desc_def Let_def tidy_def)
  then obtain h' where h': "replace_desc idx e h = Some h'" by blast
  have "osii_wf e" using p by (rule placeable_facts)
  note r = replace_desc_facts [OF d(4,3) idx d(5) h' this]
  have "stage_image data idx False (Some d) = Some (Inr (h', put_at enc_osii 32 e data,
      Some (partly_written d e data (length data))))"
    using stage_image_writes [OF d(1,2) e0(2,1) ch(1) slot(1) ch(3), of idx] h' by (simp add: partly_written_def e_def)
  moreover have "write_OSIP h' (Some (partly_written d e data (length data))) =
      (0, Some (header_written (partly_written d e data (length data)) h'))"
    using partly_written_keeps [OF f p] r(1) header_written_facts(1) by blast
  ultimately have "write_stitch_image data (int idx) (Some d) = Some (0, put_at enc_osii 32 e data,
      Some (header_written (partly_written d e data (length data)) h'))"
    using idx(2) by (simp add: write_stitch_image_def write_stitch_image_ex_def check_index_outofbound_def)
  with p h' show ?thesis by blast
qed

text \<open>The remaining case: all eight entries are in use, and the one at the index is neither an OS entry nor unused nor of the kind of the
  new image. The code then moves the old entry behind the end of the table.\<close>

lemma full_table_overrun:
  assumes f: "flashed d h" and idx: "live h = 8" "idx < 8"
    and e0: "crack_stitched_image data = Some (Some e0)" "length data = 512 + 512 * unat (size_of_os_image e0)"
    and ch: "choose_slot e0 False h = Some (Some (lba, n))" "lba \<noteq> 0" "size_of_os_image e0 \<le> n"
    and old: "\<not> os_kind (attr_kind (desc h ! idx))" "attr_kind (desc h ! idx) \<notin> {attr_kind e0, 0xfe}"
  shows "write_stitch_image data (int idx) (Some d) = None"
proof -
  have d: "emmc d h" "roomy_device d" "live h \<le> 8" using f by (auto simp: flashed_def laid_out_def)
  have slot: "is_slot lba n" using choose_slot_is_slot [OF d(3)] ch by auto
  let ?e = "keep_invalid idx h (e0\<lparr>logical_start_block := lba\<rparr>)"
  have "attr_kind ?e = attr_kind e0" by (simp add: attr_kind_def)
  then have "replace_desc idx ?e h = None" using old idx by (simp add: replace_desc_def Let_def)
  then show ?thesis
    using stage_image_writes [OF d(1,2) e0(2,1) ch(1) slot ch(3), of idx] idx(2)
    by (simp add: write_stitch_image_def write_stitch_image_ex_def check_index_outofbound_def)
qed

text \<open>C8: Flashing an image works and touches nothing else. On a device laid out by this code, for a well-formed stitched image, an index
  below 8 and up to the number of entries, a free slot and an image that fits, \<open>write_stitch_image\<close> succeeds, provided that the
  header has fewer than eight entries, or the old entry at the index is an OS entry, marked as unused, or of the kind of the new image.
  Afterwards the header is valid and laid out again, the entry describes the image in the chosen slot, the slot holds exactly the bytes
  behind the first sector of the file, and every other entry and its image are unchanged. In the one case left, eight entries and an
  entry of another kind at the index, the code stores the old entry behind the end of the table.\<close>

theorem write_stitch_image_installs:
  assumes f: "flashed d h" and idx: "idx \<le> live h" "idx < 8"
    and e0: "crack_stitched_image data = Some (Some e0)" "length data = 512 + 512 * unat (size_of_os_image e0)"
    and ch: "choose_slot e0 False h = Some (Some (lba, n))" "lba \<noteq> 0" "size_of_os_image e0 \<le> n"
    and room: "live h < 8 \<or> os_kind (attr_kind (desc h ! idx)) \<or> attr_kind (desc h ! idx) \<in> {attr_kind e0, 0xfe}"
  shows "\<exists>data' d' h'. write_stitch_image data (int idx) (Some d) = Some (0, data', Some d') \<and>
    flashed d' h' \<and> idx < live h' \<and>
    desc h' ! idx = keep_invalid idx h (e0\<lparr>logical_start_block := lba\<rparr>) \<and>
    image_of (desc h' ! idx) d' = drop 512 data \<and>
    (\<forall>j < live h. j \<noteq> idx \<longrightarrow> desc h' ! j = desc h ! j \<and> image_of (desc h ! j) d' = image_of (desc h ! j) d)"
proof -
  let ?e = "keep_invalid idx h (e0\<lparr>logical_start_block := lba\<rparr>)"
  obtain h' where w: "placeable data idx h ?e" "replace_desc idx ?e h = Some h'"
      "write_stitch_image data (int idx) (Some d) = Some (0, put_at enc_osii 32 ?e data,
        Some (header_written (partly_written d ?e data (length data)) h'))"
    using stitch_written [OF assms] by blast
  have d: "live h \<le> 8" "osip_wf h" "tidy h" using f by (auto simp: flashed_def laid_out_def emmc_def)
  have "osii_wf ?e" using w(1) by (rule placeable_facts)
  note r = replace_desc_facts [OF d(2,1) idx d(3) w(2) this]
  show ?thesis using installed [OF f idx w(1,2)] r(4) w(3) by (intro exI [of _ "with_checksum h'"] exI conjI) auto
qed

subsection \<open>Reading an image back\<close>

lemma osip_image_fields:
  assumes "osip_wf h"
  shows "enc_osip h ! 8 = num_pointers h" "dec_osii (seg 32 24 (enc_osip h)) = desc h ! 0"
proof -
  note dec = osip.dec_enc [OF assms]
  show "enc_osip h ! 8 = num_pointers h" using arg_cong [OF dec, of num_pointers] by (simp add: dec_osip_def)
  have first: "dec_array f 24 8 b ! 0 = f (take 24 b)" for f :: "buffer \<Rightarrow> OSII" and b
    by (simp add: numeral_eq_Suc)
  have "dec_array dec_osii 24 8 (seg 32 192 (enc_osip h)) ! 0 = desc h ! 0"
    using arg_cong [OF dec, of "\<lambda>h. desc h ! 0"] by (simp add: dec_osip_def)
  then show "dec_osii (seg 32 24 (enc_osip h)) = desc h ! 0" by (simp only: first) (simp add: seg_def)
qed

text \<open>The entry of the file: block 1, and for an OS image the pointers of a valid image.\<close>

definition file_entry :: "OSII \<Rightarrow> OSII" where
  "file_entry e = (let e = e\<lparr>logical_start_block := 1\<rparr> in
     if attribute e \<noteq> 8 \<and> attribute e \<noteq> 9
     then e\<lparr>entry_point := ENTRY_POINT, ddr_load_address := DDR_LOAD_ADDX\<rparr> else e)"

lemma file_osip_facts:
  assumes "osii_wf e"
  shows "osip_wf (file_osip_for e)" "num_pointers (file_osip_for e) = 1" "desc (file_osip_for e) ! 0 = file_entry e"
proof -
  have b: "osip_wf blank_osip" unfolding blank_osip_def by (rule osip.wf_dec) simp
  then have b': "length (osip_reserved blank_osip) = 20" "length (desc blank_osip) = 8" "list_all osii_wf (desc blank_osip)"
    by (auto simp: osip_wf_def)
  have "osii_wf (file_entry e)" using assms by (simp add: file_entry_def Let_def osii_wf_def)
  moreover have "file_osip_for e = with_checksum (set_desc 0 (file_entry e)
      (blank_osip\<lparr>osip_sig := OSIP_SIG, header_rev_minor := 0, header_rev_major := 1,
         num_pointers := 1, num_images := 1, header_size := 1 * 0x18 + 0x20\<rparr>))"
    by (simp add: file_osip_for_def file_entry_def Let_def)
  ultimately show "osip_wf (file_osip_for e)" "num_pointers (file_osip_for e) = 1" "desc (file_osip_for e) ! 0 = file_entry e"
    using b' by (simp_all add: osip_wf_def list_all_update with_checksum_def Let_def)
qed

lemma first_sector_facts:
  assumes "osii_wf e" "512 \<le> length blob"
  shows "length (first_sector e blob) = length blob" "first_sector e blob ! 8 = 1"
    "get_at dec_osii 24 32 (first_sector e blob) = file_entry e"
proof -
  note f = file_osip_facts [OF assms(1)]
  note len = osip.length_enc [OF f(1)]
  let ?b = "overlay 0 (enc_osip (file_osip_for e)) blob"
  have lb: "length ?b = length blob" using len assms(2) by simp
  have seg: "seg off n (first_sector e blob) = seg off n (enc_osip (file_osip_for e))" if "off + n \<le> 56" for off n
  proof -
    have "seg off n (first_sector e blob) = seg off n ?b"
      using that lb assms(2) by (simp add: first_sector_def put_at_def seg_overlay_before)
    also have "\<dots> = seg off n (take 224 ?b)" using that by (simp add: seg_take)
    finally show ?thesis using len by (simp add: overlay_def)
  qed
  show "length (first_sector e blob) = length blob"
    using lb assms(2) by (simp add: first_sector_def put_at_def)
  then show "first_sector e blob ! 8 = 1"
    using seg [of 8 1] seg_nth [of 0 1 8 "first_sector e blob"] seg_nth [of 0 1 8 "enc_osip (file_osip_for e)"]
      len osip_image_fields [OF f(1)] f(2) assms(2) by simp
  show "get_at dec_osii 24 32 (first_sector e blob) = file_entry e"
    using seg [of 32 24] osip_image_fields [OF f(1)] f(3) by (simp add: get_at_def)
qed

text \<open>What \<open>read_osimage_data\<close> returns is again an image that can be flashed: for an entry of a device laid out
  by this code, whatever was in the memory it got, the file has the size of the image and one sector,
  \<open>crack_stitched_image\<close> accepts it and finds the entry with its pointers restored, and behind the first sector
  are exactly the bytes of the image on the device.\<close>

theorem read_osimage_data_is_stitched:
  assumes f: "flashed d h" and i: "i < live h" and heap: "\<forall>n. \<exists>b. heap n = Some b \<and> length b = n"
  shows "\<exists>blob. read_osimage_data heap (int i) (Some d) = Some (Some blob) \<and>
    length blob = 512 + 512 * unat (size_of_os_image (desc h ! i)) \<and>
    crack_stitched_image blob = Some (Some (file_entry (desc h ! i))) \<and>
    drop 512 blob = image_of (desc h ! i) d"
proof -
  let ?e = "desc h ! i" let ?n = "unat (size_of_os_image ?e)"
  have d: "emmc d h" "healthy d" "roomy_device d" "in_slot ?e" "i < 8" "osii_wf ?e"
    using f i osip_wf_nth [of h i] by (auto simp: flashed_def laid_out_def emmc_def)
  have n: "?n \<le> 32000" "unat (logical_start_block ?e) \<le> 260050"
    using d(4) by (auto simp: in_slot_def fw_lba_slots_eq os_lba_slots_eq FW_MAX_LBA_def OS_MAX_LBA_def word_le_nat_alt)
  have "((size_of_os_image ?e + 1) * 512) = of_nat (512 + 512 * ?n)" by (simp add: algebra_simps)
  then have sz: "unat ((size_of_os_image ?e + 1) * 512) = 512 + 512 * ?n"
    using n(1) by (simp only: unat_of_nat) simp
  obtain b where b: "heap (512 + 512 * ?n) = Some b" "length b = 512 + 512 * ?n" using heap by blast
  note fs = first_sector_facts [OF d(6), of b]
  have sk: "lseek d (logical_start_block ?e * 512) = Some (unat (logical_start_block ?e) * 512)"
  proof (cases "logical_start_block ?e = 0")
    case False
    then have "is_slot (logical_start_block ?e) FW_MAX_LBA \<or> is_slot (logical_start_block ?e) OS_MAX_LBA"
      using d(4) by (auto simp: in_slot_def is_slot_def)
    then show ?thesis using lseek_slot d(3) by blast
  qed (simp add: lseek_def lseek64_def)
  have rd: "safe_read d (unat (logical_start_block ?e) * 512) (512 * ?n) = Some (image_of ?e d)"
    using d n by (subst safe_read_healthy) (auto simp: roomy_device_def image_of_def mult.commute)
  have len: "length (image_of ?e d) = 512 * ?n" using d n by (simp add: image_of_def roomy_device_def)
  let ?blob = "overlay 512 (image_of ?e d) (first_sector ?e b)"
  have "read_osimage_data heap (int i) (Some d) = Some (Some ?blob)"
    using read_OSIP_emmc [OF d(1)] d(5) sz b sk rd by (simp add: read_osimage_data_def desc_at_def)
  moreover have "crack_stitched_image ?blob = Some (Some (file_entry ?e))"
    using fs b len by (simp add: crack_stitched_image_def get_at_def seg_overlay_before) (simp add: overlay_def nth_append)
  moreover have "drop 512 ?blob = image_of ?e d" "length ?blob = 512 + 512 * ?n"
    using fs b len by (simp_all add: overlay_def)
  ultimately show ?thesis by blast
qed

subsection \<open>A sample device and a sample image\<close>

definition sample_device :: "OSIP_header \<Rightarrow> blkdev" where
  "sample_device h = \<lparr>bytes = enc_osip (with_checksum h) @ replicate 149529600 0, regular = False, stat_ok = True,
     blk_size = None, blk_ssz = None, bad_read = (\<lambda>_. False), bad_write = (\<lambda>_. False)\<rparr>"

definition sample_image :: "OSII \<Rightarrow> buffer \<Rightarrow> buffer" where
  "sample_image e img = enc_osip (header_of [e]) @ replicate 288 0 @ img"

lemma header_of_wf: "length es \<le> 8 \<Longrightarrow> list_all osii_wf es \<Longrightarrow> osip_wf (header_of es)"
  by (auto simp: header_of_def osip_wf_def list_all_iff osii_wf_def image_at_def)

lemma image_at_sel [simp]:
  "logical_start_block (image_at lba n a) = lba" "size_of_os_image (image_at lba n a) = n"
  "attribute (image_at lba n a) = a" "osii_wf (image_at lba n a)"
  by (simp_all add: image_at_def osii_wf_def)

lemma sample_device_emmc:
  assumes "osip_wf h"
  shows "emmc (sample_device h) (with_checksum h)" "roomy_device (sample_device h)"
  using assms osip.length_enc [of "with_checksum h"]
  by (auto simp: emmc_def sample_device_def healthy_def roomy_device_def seg_here)

lemma crack_sample:
  assumes "osii_wf e"
  shows "crack_stitched_image (sample_image e img) = Some (Some e)" "length (sample_image e img) = 512 + length img"
    "drop 512 (sample_image e img) = img"
proof -
  have wf: "osip_wf (header_of [e])" using assms by (simp add: header_of_wf)
  note len = osip.length_enc [OF wf]
  show "crack_stitched_image (sample_image e img) = Some (Some e)"
    using len osip_image_fields [OF wf] seg_take [of 32 24 224 "sample_image e img"]
    by (simp add: crack_stitched_image_def sample_image_def get_at_def nth_append) (simp add: header_of_def)
  show "length (sample_image e img) = 512 + length img" "drop 512 (sample_image e img) = img"
    using len by (simp_all add: sample_image_def)
qed

text \<open>A device with a boot image of 20000 blocks and firmware of 1000 blocks.\<close>

definition two_images :: OSIP_header where
  "two_images = header_of [image_at 4050 20000 0, image_at 50 1000 8]"

lemma live_two_images: "live (with_checksum two_images) = 2"
  by (simp add: two_images_def header_of_def)

lemma two_images_flashed: "flashed (sample_device two_images) (with_checksum two_images)"
proof -
  have wf: "osip_wf two_images" by (simp add: two_images_def header_of_wf)
  have l: "live two_images = 2" using live_two_images by simp
  have "laid_out two_images"
    unfolding laid_out_def l
    by (simp add: numeral_2_eq_2 All_less_Suc)
      (simp add: two_images_def header_of_def in_slot_def extent_def fw_lba_slots_eq os_lba_slots_eq FW_MAX_LBA_def OS_MAX_LBA_def)
  moreover have "tidy two_images"
    unfolding tidy_def l
    by (auto simp: two_images_def header_of_def nth_Cons numeral_eq_Suc less_Suc_eq attr_kind_def os_kind_def split: nat.splits)
  ultimately show ?thesis using sample_device_emmc [OF wf] by (simp add: flashed_def)
qed

lemma free_in_two_images: "get_free_os_lba (with_checksum two_images) = Some 36050"
proof -
  have "live (with_checksum two_images) \<le> 8" unfolding live_two_images by simp
  then show ?thesis
    unfolding get_free_os_lba_def get_free_lba_eq [OF \<open>live (with_checksum two_images) \<le> 8\<close>] live_two_images
    by (simp add: numeral_2_eq_2 All_less_Suc)
      (simp add: two_images_def header_of_def blocks_slot_def os_lba_slots_eq OS_MAX_LBA_def)
qed

text \<open>A recovery image of one block.\<close>

definition recovery_image :: buffer where
  "recovery_image = sample_image (image_at 1 1 0x0C) (replicate 512 7)"

lemma recovery_image_facts:
  "crack_stitched_image recovery_image = Some (Some (image_at 1 1 0x0C))" "length recovery_image = 1024"
  "drop 512 recovery_image = replicate 512 7"
  "choose_slot (image_at 1 1 0x0C) False (with_checksum two_images) = Some (Some (36050, OS_MAX_LBA))"
  using crack_sample [of "image_at 1 1 0x0C" "replicate 512 7"] free_in_two_images
  by (simp_all add: recovery_image_def choose_slot_def attr_kind_def os_kind_def)

lemma stage_recovery: "\<exists>r. stage_image recovery_image 2 False (Some (sample_device two_images)) = Some r"
proof -
  have f: "emmc (sample_device two_images) (with_checksum two_images)" "roomy_device (sample_device two_images)"
    using two_images_flashed by (auto simp: flashed_def)
  have "os_kind (attr_kind (desc two_images ! 2))"
    by (simp add: two_images_def header_of_def attr_kind_def os_kind_def)
  then have "replace_desc 2 e (with_checksum two_images) \<noteq> None" for e
    using live_two_images by (simp add: replace_desc_def Let_def)
  then show ?thesis
    using stage_image_writes [OF f _ recovery_image_facts(1,4), of 2] recovery_image_facts(2)
    by (auto simp: is_slot_def os_lba_slots_eq OS_MAX_LBA_def)
qed

text \<open>With the flag for large images the recovery image is written over the boot image that the header lists.\<close>

lemma large_image_overwrites:
  "\<exists>h' data' d'. stage_image recovery_image 2 True (Some (sample_device two_images)) = Some (Inr (h', data', Some d')) \<and>
    image_of (desc (with_checksum two_images) ! 0) d' \<noteq> image_of (desc (with_checksum two_images) ! 0) (sample_device two_images)"
proof -
  let ?d = "sample_device two_images" let ?h = "with_checksum two_images" let ?img = "image_at 1 1 0x0C"
  have f: "emmc ?d ?h" "roomy_device ?d" using two_images_flashed by (auto simp: flashed_def)
  have ch: "choose_slot ?img True ?h = Some (Some (4050, 288000))"
    by (simp add: choose_slot_def attr_kind_def os_kind_def OS_START_OFFSET_def FW_MAX_LBA_def fw_lba_slots_eq OS_MAX_LBA_def os_lba_slots_eq)
  have slot: "is_slot 4050 OS_MAX_LBA" by (simp add: is_slot_def os_lba_slots_eq)
  have sk: "lseek (backup_gone ?d) (4050 * 512) = Some (unat (4050 :: u32) * 512)"
    by (rule lseek_slot [OF slot]) (use f roomy_backup_gone in simp)
  have room: "unat (4050 :: u32) * 512 + 512 * unat (size_of_os_image ?img) \<le> length (bytes ?d)"
    using f(2) by (simp add: roomy_device_def)
  let ?e = "keep_invalid 2 ?h (?img\<lparr>logical_start_block := 4050\<rparr>)"
  have "os_kind (attr_kind (desc two_images ! 2))" by (simp add: two_images_def header_of_def attr_kind_def os_kind_def)
  then obtain h' where h': "replace_desc 2 ?e ?h = Some h'" using live_two_images by (simp add: replace_desc_def Let_def)
  let ?d' = "(backup_gone ?d)\<lparr>bytes := overlay (unat (4050 :: u32) * 512) (drop 512 recovery_image) (bytes (backup_gone ?d))\<rparr>"
  have "stage_image recovery_image 2 True (Some ?d) = Some (Inr (h', put_at enc_osii 32 ?e recovery_image, Some ?d'))"
    using stage_image_at [OF f(1) _ recovery_image_facts(1) ch _ _ sk room, of 2] h' recovery_image_facts(2) by simp
  moreover have "image_of (desc ?h ! 0) ?d' \<noteq> image_of (desc ?h ! 0) ?d"
  proof
    assume a: "image_of (desc ?h ! 0) ?d' = image_of (desc ?h ! 0) ?d"
    have e: "logical_start_block (desc ?h ! 0) = 4050" "size_of_os_image (desc ?h ! 0) = 20000" by (simp_all add: two_images_def header_of_def)
    have hd: "image_of (desc ?h ! 0) x ! 0 = bytes x ! 2073600" if "12313600 \<le> length (bytes x)" for x :: blkdev
      using that e by (simp add: image_of_def seg_def)
    have lb: "length (bytes (backup_gone ?d)) = length (bytes ?d)" using f(1) by simp
    have l: "149529600 \<le> length (bytes ?d)" by (simp add: sample_device_def)
    have "length (enc_osip ?h) = 224" using f(1) by (intro osip.length_enc) (simp add: emmc_def)
    then have "bytes ?d ! 2073600 = 0" by (simp add: sample_device_def nth_append)
    moreover have "bytes ?d' ! 2073600 = 7" using lb l recovery_image_facts(3) by (simp add: overlay_def nth_append)
    ultimately show False using a hd [of ?d] hd [of ?d'] lb l recovery_image_facts(2) by simp
  qed
  ultimately show ?thesis by blast
qed

theorem power_cut_keeps_images_witness:
  "\<exists>r. stage_image recovery_image 2 False (Some (sample_device two_images)) = Some r \<and>
    (let d = sample_device two_images; h = with_checksum two_images in
     (\<exists>data' d'. r = Inl (data', Some d') \<and> read_OSIP (Some d') = Some h \<and>
      (\<forall>i < live h. image_of (desc h ! i) d' = image_of (desc h ! i) d)) \<or>
    (\<exists>e h' data'. r = Inr (h', data', Some (partly_written d e recovery_image (length recovery_image))) \<and>
      (\<forall>k. read_OSIP (Some (partly_written d e recovery_image k)) = Some h \<and>
        (\<forall>i < live h. image_of (desc h ! i) (partly_written d e recovery_image k) = image_of (desc h ! i) d))))"
proof -
  obtain r where r: "stage_image recovery_image 2 False (Some (sample_device two_images)) = Some r"
    using stage_recovery by blast
  show ?thesis
    unfolding Let_def using power_cut_keeps_images [OF two_images_flashed _ r] r recovery_image_facts(2) by auto
qed

theorem write_stitch_image_installs_witness:
  "let d = sample_device two_images; h = with_checksum two_images in
   \<exists>data' d' h'. write_stitch_image recovery_image (int 2) (Some d) = Some (0, data', Some d') \<and>
    flashed d' h' \<and> 2 < live h' \<and>
    desc h' ! 2 = keep_invalid 2 h ((image_at 1 1 0x0C)\<lparr>logical_start_block := 36050\<rparr>) \<and>
    image_of (desc h' ! 2) d' = drop 512 recovery_image \<and>
    (\<forall>j < live h. j \<noteq> 2 \<longrightarrow> desc h' ! j = desc h ! j \<and> image_of (desc h ! j) d' = image_of (desc h ! j) d)"
  unfolding Let_def
proof (rule write_stitch_image_installs)
  show "flashed (sample_device two_images) (with_checksum two_images)" by (rule two_images_flashed)
  show "crack_stitched_image recovery_image = Some (Some (image_at 1 1 0x0C))" by (rule recovery_image_facts)
  show "choose_slot (image_at 1 1 0x0C) False (with_checksum two_images) = Some (Some (36050, OS_MAX_LBA))"
    by (rule recovery_image_facts)
  show "live (with_checksum two_images) < 8 \<or> os_kind (attr_kind (desc (with_checksum two_images) ! 2)) \<or>
      attr_kind (desc (with_checksum two_images) ! 2) \<in> {attr_kind (image_at 1 1 0x0C), 0xfe}"
    unfolding live_two_images by simp
qed (use live_two_images in \<open>simp_all add: recovery_image_facts OS_MAX_LBA_def\<close>)

theorem read_osimage_data_is_stitched_witness:
  "\<exists>blob. read_osimage_data (\<lambda>n. Some (replicate n 0)) (int 1) (Some (sample_device two_images)) = Some (Some blob) \<and>
    length blob = 512 + 512 * unat (size_of_os_image (desc (with_checksum two_images) ! 1)) \<and>
    crack_stitched_image blob = Some (Some (file_entry (desc (with_checksum two_images) ! 1))) \<and>
    drop 512 blob = image_of (desc (with_checksum two_images) ! 1) (sample_device two_images)"
  by (rule read_osimage_data_is_stitched [OF two_images_flashed]) (use live_two_images in simp_all)

end
