(* ===== verification/Osip_Flash.thy ===== *)
theory Osip_Flash
  imports Osip_Image
begin

text \<open>
  The boot images of a device with an OSIP (\<open>flash_osip/bootimage.c\<close>), the OSIP commands of \<open>flashtool.c\<close>,
  and sessions: sequences of the operations that change the header or the images, with the invariant that
  every one of them keeps.
\<close>

subsection \<open>Definitions\<close>

text \<open>What \<open>safe_read\<close> has stored when it returns, successful or not.\<close>

function read_so_far :: "blkdev \<Rightarrow> nat \<Rightarrow> nat \<Rightarrow> buffer" where
  "read_so_far d pos n =
    (if n = 0 then [] else
     case dev_read d pos n of None \<Rightarrow> []
     | Some bs \<Rightarrow> if bs = [] then [] else bs @ read_so_far d (pos + length bs) (n - length bs))"
  by auto
termination by (relation "measure (\<lambda>(d, pos, n). n)") auto

declare read_so_far.simps [simp del]

text \<open>\<open>is_osip\<close> ignores the result of \<open>read_OSIP\<close> and looks at the signature in any case.\<close>

definition is_osip :: "mmc \<Rightarrow> bool" where
  "is_osip m =
    (let buf = (case m of None \<Rightarrow> replicate 224 0 | Some d \<Rightarrow> overlay 0 (read_so_far d 0 224) (replicate 224 0))
     in osip_sig (dec_osip buf) = OSIP_SIG)"

definition read_image_osip :: "(nat \<Rightarrow> buffer option) \<Rightarrow> string \<Rightarrow> mmc \<Rightarrow> buffer option option" where
  "read_image_osip heap name m =
    do { index \<leftarrow> get_named_osii_index (Some name) READ_OSIP_HEADER m;
         if check_index_outofbound index \<noteq> 0 then Some None
         else read_osimage_data heap index m }"

text \<open>The attribute of \<open>desc[0]\<close> is the byte at offset 52 of the buffer.\<close>

definition flash_image_osip :: "buffer \<Rightarrow> string \<Rightarrow> mmc \<Rightarrow> (int \<times> buffer \<times> mmc) option" where
  "flash_image_osip data name m =
    (if name = ''testos'' then
       do { (_, m) \<leftarrow> oem_write_osip_header m; write_stitch_image_ex data 0 True m }
     else do { index \<leftarrow> get_named_osii_index (Some name) WRITE_OSIP_HEADER m;
               if length data < 53 then None
               else let attr = fst (get_named_osii_attr name 1);
                        signed_image = data ! 52 AND 1;
                        data = data[52 := word_of_int attr + signed_image] in
                 if check_index_outofbound index \<noteq> 0 then Some (-1, data, m)
                 else write_stitch_image data index m })"

definition OSIP_SIG_SIZE :: nat where "OSIP_SIG_SIZE = 480"

text \<open>\<open>read_image_signature_osip\<close> takes the start block from a local \<open>osip\<close> that nothing has filled:
  \<open>garbage\<close> is what the stack holds there.\<close>

definition read_image_signature_osip ::
    "OSIP_header \<Rightarrow> (nat \<Rightarrow> buffer option) \<Rightarrow> string \<Rightarrow> mmc \<Rightarrow> buffer option option" where
  "read_image_signature_osip garbage heap name m =
    do { index \<leftarrow> get_named_osii_index (Some name) READ_OSIP_HEADER m;
         Some (if check_index_outofbound index \<noteq> 0 then None
               else do { d \<leftarrow> m;
                         pos \<leftarrow> lseek d (logical_start_block (desc garbage ! nat index) * 512);
                         _ \<leftarrow> heap OSIP_SIG_SIZE;
                         safe_read d pos OSIP_SIG_SIZE }) }"

definition is_image_signed_osip :: "string \<Rightarrow> mmc \<Rightarrow> int option" where
  "is_image_signed_osip name m =
    (case read_OSIP m of None \<Rightarrow> Some (-1)
     | Some h \<Rightarrow>
       do { recovery_index \<leftarrow> get_named_osii_index (Some ''recovery'') READ_OSIP_HEADER m;
            Some (if check_index_outofbound recovery_index \<noteq> 0 then -1
                  else if attribute (desc h ! nat recovery_index) AND 1 \<noteq> 0 then 0 else 1) })"

text \<open>The commands of \<open>flashtool\<close>: \<open>Inl\<close> is \<open>exit(1)\<close>.\<close>

definition cmd_read_osip :: "(string \<Rightarrow> bool) \<Rightarrow> (nat \<Rightarrow> buffer option) \<Rightarrow> string option \<Rightarrow> string option \<Rightarrow>
    fs \<Rightarrow> mmc \<Rightarrow> (fs + fs) option" where
  "cmd_read_osip creatable heap entry filename files m =
    (case (entry, filename) of (Some e, Some f) \<Rightarrow>
       do { index \<leftarrow> get_named_osii_index (Some e) READ_OSIP_HEADER m;
            if check_index_outofbound index \<noteq> 0 then Some (Inl files)
            else do { r \<leftarrow> read_osimage_data heap index m;
                      Some (case r of None \<Rightarrow> Inl files
                            | Some data \<Rightarrow> let (st, files) = file_write creatable f data files
                                           in if st \<noteq> 0 then Inl files else Inr files) } }
     | _ \<Rightarrow> Some (Inl files))"

definition cmd_write_osip :: "string option \<Rightarrow> string option \<Rightarrow> fs \<Rightarrow> mmc \<Rightarrow> (mmc + mmc) option" where
  "cmd_write_osip entry filename files m =
    (case (entry, filename) of (Some e, Some f) \<Rightarrow>
       do { index \<leftarrow> get_named_osii_index (Some e) WRITE_OSIP_HEADER m;
            if check_index_outofbound index \<noteq> 0 then Some (Inl m)
            else case file_read files f of None \<Rightarrow> Some (Inl m)
              | Some data \<Rightarrow>
                do { (st, _, m) \<leftarrow> write_stitch_image data index m;
                     Some (if st \<noteq> 0 then Inl m else Inr m) } }
     | _ \<Rightarrow> Some (Inl m))"

subsection \<open>Looking up an entry\<close>

text \<open>The index that \<open>get_named_osii_index\<close> finds depends only on the attributes of the entries.\<close>

definition same_attrs :: "OSIP_header \<Rightarrow> OSIP_header \<Rightarrow> bool" where
  "same_attrs h h' \<longleftrightarrow> num_pointers h = num_pointers h' \<and> (\<forall>i < 8. attr_kind (desc h ! i) = attr_kind (desc h' ! i))"

lemma find_instance_range:
  "\<forall>i \<in> set is. i < 8 \<Longrightarrow> find_instance h a inst is cur \<noteq> None \<and>
   (\<forall>i. find_instance h a inst is cur = Some (Inl i) \<longrightarrow> (\<exists>j \<in> set is. i = int j))"
proof (induction "is" arbitrary: cur)
  case (Cons i "is")
  then show ?case by (auto simp: desc_at_def)
qed simp

lemma find_instance_cong:
  assumes "same_attrs h h'"
  shows "find_instance h a inst is cur = find_instance h' a inst is cur"
proof (induction "is" arbitrary: cur)
  case (Cons i "is")
  then show ?case using assms by (auto simp: desc_at_def same_attrs_def)
qed simp

lemma attr_index_bounds:
  assumes "emmc d h" "live h \<le> 8"
  shows "\<exists>i. get_attribute_osii_index a inst op (Some d) = Some i \<and>
    (i = -1 \<or> 0 \<le> i \<and> (nat i < live h \<or> op = WRITE_OSIP_HEADER \<and> nat i = live h))"
proof -
  obtain r where r: "find_instance h a inst [0..<live h] 1 = Some r"
      "\<And>i. r = Inl i \<Longrightarrow> \<exists>j < live h. i = int j"
    using find_instance_range [of "[0..<live h]" h a inst 1] assms(2) by fastforce
  then show ?thesis using read_OSIP_emmc [OF assms(1)]
    by (cases r) (auto simp: get_attribute_osii_index_def)
qed

lemma named_index_bounds:
  assumes "emmc d h" "live h \<le> 8"
  shows "\<exists>i. get_named_osii_index (Some name) op (Some d) = Some i \<and>
    (i = -1 \<or> 0 \<le> i \<and> (nat i < live h \<or> op = WRITE_OSIP_HEADER \<and> nat i = live h))"
  using attr_index_bounds [OF assms] by (auto simp: get_named_osii_index_def split: prod.splits)

lemma named_index_cong:
  assumes "emmc d h" "emmc d' h'" "same_attrs h h'"
  shows "get_named_osii_index name op (Some d) = get_named_osii_index name op (Some d')"
  using read_OSIP_emmc [OF assms(1)] read_OSIP_emmc [OF assms(2)] find_instance_cong [OF assms(3)] assms(3)
  by (auto simp: get_named_osii_index_def get_attribute_osii_index_def same_attrs_def
      split: prod.splits option.splits cong del: if_weak_cong sum.case_cong_weak)

subsection \<open>The pointers of an image\<close>

definition with_pointers :: "u32 \<Rightarrow> u32 \<Rightarrow> nat \<Rightarrow> OSIP_header \<Rightarrow> OSIP_header" where
  "with_pointers ddr entry i h = set_desc i ((desc h ! i)\<lparr>ddr_load_address := ddr, entry_point := entry\<rparr>) h"

lemma with_pointers_wf: "osip_wf h \<Longrightarrow> i < 8 \<Longrightarrow> osip_wf (with_pointers ddr entry i h)"
  using osip_wf_nth [of h i] by (simp add: osip_wf_def with_pointers_def list_all_update)

lemma with_pointers_nth:
  assumes "osip_wf h" "i < 8" "j < 8"
  shows "desc (with_pointers ddr entry i h) ! j =
    (if j = i then (desc h ! i)\<lparr>ddr_load_address := ddr, entry_point := entry\<rparr> else desc h ! j)"
  using assms by (simp add: with_pointers_def osip_wf_def)

lemma with_pointers_same:
  assumes "osip_wf h" "i < 8"
  shows "same_attrs h (with_checksum (with_pointers ddr entry i h))"
    "num_pointers (with_pointers ddr entry i h) = num_pointers h"
    "\<And>j. j < 8 \<Longrightarrow> extent (desc (with_pointers ddr entry i h) ! j) = extent (desc h ! j)"
    "\<And>j. j < 8 \<Longrightarrow> in_slot (desc (with_pointers ddr entry i h) ! j) = in_slot (desc h ! j)"
    "\<And>j. j < 8 \<Longrightarrow> attr_kind (desc (with_pointers ddr entry i h) ! j) = attr_kind (desc h ! j)"
proof -
  show n: "num_pointers (with_pointers ddr entry i h) = num_pointers h" by (simp add: with_pointers_def)
  show "extent (desc (with_pointers ddr entry i h) ! j) = extent (desc h ! j)"
    "in_slot (desc (with_pointers ddr entry i h) ! j) = in_slot (desc h ! j)"
    "attr_kind (desc (with_pointers ddr entry i h) ! j) = attr_kind (desc h ! j)" if "j < 8" for j
    using with_pointers_nth [OF assms that] by (simp_all add: extent_def in_slot_def attr_kind_def)
  then show "same_attrs h (with_checksum (with_pointers ddr entry i h))" using n by (simp add: same_attrs_def)
qed

lemma with_pointers_laid_out:
  assumes "osip_wf h" "i < 8" "laid_out h" "tidy h"
  shows "laid_out (with_pointers ddr entry i h)" "tidy (with_pointers ddr entry i h)"
proof -
  note s = with_pointers_same [OF assms(1,2), where ddr = ddr and entry = entry]
  show "laid_out (with_pointers ddr entry i h)" using assms(3) s(2-4) by (simp add: laid_out_def)
  show "tidy (with_pointers ddr entry i h)" using assms(4) s(2,5) by (simp add: tidy_def)
qed

lemma update_osii_found:
  assumes "emmc d h" "get_named_osii_index (Some name) READ_OSIP_HEADER (Some d) = Some (int i)" "i < 8"
  shows "update_osii (Some name) ddr entry (Some d) = Some (0, Some (header_written d (with_pointers ddr entry i h)))"
proof -
  have "osip_wf h" using assms(1) by (simp add: emmc_def)
  then show ?thesis
    using assms read_OSIP_emmc [OF assms(1)] header_written_facts(1) [OF assms(1) with_pointers_wf]
    by (simp add: update_osii_def check_index_outofbound_def with_pointers_def)
qed

text \<open>A step of a session keeps this.\<close>

definition keeps_layout :: "blkdev \<Rightarrow> bool" where
  "keeps_layout d \<longleftrightarrow> (\<exists>h. flashed d h)"

text \<open>Headers that differ only in the pointers of their entries.\<close>

definition but_pointers :: "OSIP_header \<Rightarrow> OSIP_header \<Rightarrow> bool" where
  "but_pointers h h' \<longleftrightarrow> num_pointers h' = num_pointers h \<and>
    (\<forall>i < 8. \<exists>ddr entry. desc h' ! i = (desc h ! i)\<lparr>ddr_load_address := ddr, entry_point := entry\<rparr>)"

lemma but_pointers_refl: "but_pointers h h"
proof -
  have "\<exists>ddr entry. e = e\<lparr>ddr_load_address := ddr, entry_point := entry\<rparr>" for e :: OSII by (cases e) auto
  then show ?thesis by (auto simp: but_pointers_def)
qed

lemma but_pointers_trans: "but_pointers h h' \<Longrightarrow> but_pointers h' h'' \<Longrightarrow> but_pointers h h''"
  unfolding but_pointers_def by fastforce

lemma with_pointers_but: "osip_wf h \<Longrightarrow> i < 8 \<Longrightarrow> but_pointers h (with_checksum (with_pointers ddr entry i h))"
  using but_pointers_refl [of h] with_pointers_nth [of h i _ ddr entry] by (auto simp: but_pointers_def with_pointers_def)

lemma update_osii_but_pointers:
  assumes "flashed d h"
  shows "\<exists>st d' h'. update_osii (Some name) ddr entry (Some d) = Some (st, Some d') \<and> flashed d' h' \<and> but_pointers h h'"
proof -
  have d: "emmc d h" "roomy_device d" "laid_out h" "tidy h" "live h \<le> 8" "osip_wf h"
    using assms by (auto simp: flashed_def laid_out_def emmc_def)
  obtain i where i: "get_named_osii_index (Some name) READ_OSIP_HEADER (Some d) = Some i" "i = -1 \<or> 0 \<le> i \<and> nat i < live h"
    using named_index_bounds [OF d(1,5), of name READ_OSIP_HEADER] by auto
  show ?thesis
  proof (cases "i = -1")
    case True
    then show ?thesis using i assms but_pointers_refl [of h] by (auto simp: update_osii_def check_index_outofbound_def)
  next
    case False
    with i d(5) have n: "nat i < 8" "int (nat i) = i" by auto
    have "flashed (header_written d (with_pointers ddr entry (nat i) h)) (with_checksum (with_pointers ddr entry (nat i) h))"
      using header_written_facts [OF d(1) with_pointers_wf [OF d(6) n(1)]] d(2) with_pointers_laid_out [OF d(6) n(1) d(3,4)]
      by (simp add: flashed_def)
    then show ?thesis
      using update_osii_found [OF d(1), of name "nat i"] i n with_pointers_but [OF d(6) n(1)] by auto
  qed
qed

lemma update_osii_flashed:
  assumes "flashed d h"
  shows "\<exists>st d'. update_osii (Some name) ddr entry (Some d) = Some (st, Some d') \<and> keeps_layout d'"
  using update_osii_but_pointers [OF assms, of name ddr entry] by (auto simp: keeps_layout_def)

text \<open>Invalidating an OS image and restoring it is the identity on the device. When the named image exists and has
  the standard load address and entry point, \<open>invalidate_osii\<close> succeeds and leaves a valid header in which
  exactly the two pointers of that image are 0, and \<open>restore_osii\<close> gives back every byte of the device.\<close>

theorem invalidate_restore_round_trip:
  assumes "emmc d h" "get_named_osii_index (Some name) READ_OSIP_HEADER (Some d) = Some (int i)" "i < 8"
    and "ddr_load_address (desc h ! i) = DDR_LOAD_ADDX" "entry_point (desc h ! i) = ENTRY_POINT"
  shows "\<exists>d'. invalidate_osii (Some name) (Some d) = Some (0, Some d') \<and>
    read_OSIP (Some d') = Some (with_checksum (with_pointers 0 0 i h)) \<and>
    restore_osii (Some name) (Some d') = Some (0, Some d)"
proof -
  have wf: "osip_wf h" "get_osip_crc h = 0" using assms(1) by (auto simp: emmc_def)
  let ?h = "with_pointers 0 0 i h" let ?d = "header_written d ?h"
  note hw = header_written_facts [OF assms(1) with_pointers_wf [OF wf(1) assms(3), of 0 0]]
  have "get_named_osii_index (Some name) READ_OSIP_HEADER (Some ?d) = Some (int i)"
    using named_index_cong [OF assms(1) hw(2) with_pointers_same(1) [OF wf(1) assms(3)]] assms(2) by simp
  then have r: "restore_osii (Some name) (Some ?d) =
      Some (0, Some (header_written ?d (with_pointers DDR_LOAD_ADDX ENTRY_POINT i (with_checksum ?h))))"
    using update_osii_found [OF hw(2)] assms(3) by (simp add: restore_osii_def)
  have len: "i < length (desc h)" using wf(1) assms(3) by (simp add: osip_wf_def)
  have "(desc h ! i)\<lparr>ddr_load_address := DDR_LOAD_ADDX, entry_point := ENTRY_POINT\<rparr> = desc h ! i"
    using assms(4,5) by (simp flip: assms(4,5))
  then have "with_checksum (with_pointers DDR_LOAD_ADDX ENTRY_POINT i (with_checksum ?h)) = with_checksum h"
    using len by (simp add: with_pointers_def set_desc_def with_checksum_def Let_def)
  then have "with_checksum (with_pointers DDR_LOAD_ADDX ENTRY_POINT i (with_checksum ?h)) = h"
    by (simp add: with_checksum_id [OF wf])
  moreover have "length (enc_osip (with_checksum ?h)) = 224"
    using with_pointers_wf [OF wf(1) assms(3)] by (intro osip.length_enc) simp
  ultimately have "header_written ?d (with_pointers DDR_LOAD_ADDX ENTRY_POINT i (with_checksum ?h)) = d"
    using assms(1) osip.length_enc [OF wf(1)] overlay_seg_id [of 0 224 "bytes d"]
    by (simp add: header_written_def emmc_def)
  then show ?thesis
    using r update_osii_found [OF assms(1-3)] read_OSIP_emmc [OF hw(2)] by (simp add: invalidate_osii_def)
qed

subsection \<open>Fresh headers\<close>

lemma blank_osip_facts:
  "osip_wf blank_osip" "num_pointers blank_osip = 0" "get_osip_crc blank_osip = 0"
  "i < 8 \<Longrightarrow> desc blank_osip ! i = dec_osii (replicate 24 0)"
proof -
  show wf: "osip_wf blank_osip" unfolding blank_osip_def by (rule osip.wf_dec) simp
  show "num_pointers blank_osip = 0" by (simp add: blank_osip_def dec_osip_def)
  have "enc_osip blank_osip = replicate 224 0" unfolding blank_osip_def by (rule osip.enc_dec) simp
  moreover have "xor_bytes (replicate n 0) = 0" for n by (induction n) auto
  ultimately show "get_osip_crc blank_osip = 0" using wf by (simp add: get_osip_crc_eq)
  have "dec_array f 24 n (replicate (n * 24) 0) ! i = f (replicate 24 0)" if "i < n" for n i and f :: "buffer \<Rightarrow> OSII"
    using that by (induction n arbitrary: i) (auto simp: nth_Cons split: nat.splits)
  from this [of i 8] show "i < 8 \<Longrightarrow> desc blank_osip ! i = dec_osii (replicate 24 0)"
    by (simp add: blank_osip_def dec_osip_def seg_def)
qed

lemma zero_osii: "in_slot (dec_osii (replicate 24 0))" "extent (dec_osii (replicate 24 0)) = {}"
  "os_kind (attr_kind (dec_osii (replicate 24 0)))"
proof -
  have "le_word (replicate 4 0) = (0 :: u32)" by (simp add: numeral_eq_Suc)
  then have "logical_start_block (dec_osii (replicate 24 0)) = 0" "size_of_os_image (dec_osii (replicate 24 0)) = 0"
    "attribute (dec_osii (replicate 24 0)) = 0"
    by (simp_all add: dec_osii_def seg_def)
  then show "in_slot (dec_osii (replicate 24 0))" "extent (dec_osii (replicate 24 0)) = {}"
    "os_kind (attr_kind (dec_osii (replicate 24 0)))"
    by (simp_all add: in_slot_def extent_def os_kind_def attr_kind_def)
qed

lemma default_osip_facts: "osip_wf default_osip" "laid_out default_osip" "tidy default_osip"
  "osip_wf (default_osip\<lparr>header_checksum := c\<rparr>)"
  using blank_osip_facts zero_osii
  by (simp_all add: default_osip_def osip_wf_def laid_out_def tidy_def)

lemma blank_osip_laid_out: "laid_out blank_osip" "tidy blank_osip"
  using blank_osip_facts zero_osii by (simp_all add: laid_out_def tidy_def)

lemma write_OSIP_fresh:
  assumes "healthy d" "roomy_device d" "osip_wf h" "laid_out h" "tidy h"
  shows "\<exists>d'. write_OSIP h (Some d) = (0, Some d') \<and> flashed d' (with_checksum h)"
proof -
  have "512 \<le> length (bytes d)" using assms(2) by (simp add: roomy_device_def)
  with assms show ?thesis
    using write_OSIP_healthy [of d h] emmc_written [of d h] osip.length_enc [of "with_checksum h"]
    by (simp add: flashed_def roomy_device_def)
qed

text \<open>The header that \<open>oem_write_osip_header\<close> writes has one entry, of no blocks.\<close>

lemma oem_write_default:
  assumes "healthy d" "roomy_device d"
  shows "\<exists>d' h. oem_write_osip_header (Some d) = Some (0, Some d') \<and> flashed d' h \<and> but_pointers default_osip h"
proof -
  let ?h = "default_osip\<lparr>header_checksum := get_osip_crc default_osip\<rparr>"
  have "laid_out ?h" "tidy ?h" using default_osip_facts(2,3) by (simp_all add: laid_out_def tidy_def)
  then obtain d0 where d0: "write_OSIP ?h (Some d) = (0, Some d0)" "flashed d0 (with_checksum ?h)"
    using write_OSIP_fresh [OF assms default_osip_facts(4)] by blast
  have b0: "but_pointers default_osip (with_checksum ?h)" using but_pointers_refl [of default_osip] by (simp add: but_pointers_def)
  obtain s1 d1 h1 where d1: "restore_osii (Some ''boot'') (Some d0) = Some (s1, Some d1)" "flashed d1 h1" "but_pointers (with_checksum ?h) h1"
    using update_osii_but_pointers [OF d0(2)] unfolding restore_osii_def by blast
  obtain s2 d2 h2 where d2: "restore_osii (Some ''recovery'') (Some d1) = Some (s2, Some d2)" "flashed d2 h2" "but_pointers h1 h2"
    using update_osii_but_pointers [OF d1(2)] unfolding restore_osii_def by blast
  obtain s3 d3 h3 where d3: "restore_osii (Some ''fastboot'') (Some d2) = Some (s3, Some d3)" "flashed d3 h3" "but_pointers h2 h3"
    using update_osii_but_pointers [OF d2(2)] unfolding restore_osii_def by blast
  have "but_pointers default_osip h3" using b0 d1(3) d2(3) d3(3) by (blast intro: but_pointers_trans)
  then show ?thesis using d0(1) d1(1) d2(1) d3(1,2) by (auto simp: oem_write_osip_header_def Let_def)
qed

lemma oem_write_flashed:
  assumes "healthy d" "roomy_device d"
  shows "\<exists>d'. oem_write_osip_header (Some d) = Some (0, Some d') \<and> keeps_layout d'"
  using oem_write_default [OF assms] by (auto simp: keeps_layout_def)

lemma default_entry:
  assumes "but_pointers default_osip h"
  shows "live h = 1" "attr_kind (desc h ! 0) = 0" "logical_start_block (desc h ! 0) = 0" "size_of_os_image (desc h ! 0) = 0"
proof -
  have z: "le_word (replicate 4 0) = (0 :: u32)" by (simp add: numeral_eq_Suc)
  have "desc default_osip ! 0 = dec_osii (replicate 24 0)" using blank_osip_facts(4) [of 0] by (simp add: default_osip_def)
  then have "attribute (desc default_osip ! 0) = 0" "logical_start_block (desc default_osip ! 0) = 0" "size_of_os_image (desc default_osip ! 0) = 0"
    using z by (simp_all add: dec_osii_def seg_def)
  moreover obtain ddr entry where "desc h ! 0 = (desc default_osip ! 0)\<lparr>ddr_load_address := ddr, entry_point := entry\<rparr>"
    using assms zero_less_numeral unfolding but_pointers_def by blast
  ultimately show "attr_kind (desc h ! 0) = 0" "logical_start_block (desc h ! 0) = 0" "size_of_os_image (desc h ! 0) = 0"
    by (simp_all add: attr_kind_def)
  show "live h = 1" using assms by (simp add: but_pointers_def default_osip_def)
qed

subsection \<open>Sessions\<close>

text \<open>The operations, each with whatever arguments; a step needs its behaviour to be defined, and the length of a file is a number of
  32 bits.\<close>

datatype osip_op = Flash string buffer | Invalidate string | Restore string | WriteHeader | EraseHeader

inductive osip_step :: "blkdev \<Rightarrow> osip_op \<Rightarrow> blkdev \<Rightarrow> bool" where
  flash: "osip_step d (Flash name data) d'"
    if "flash_image_osip data name (Some d) = Some (st, data', Some d')" "length data < 2 ^ 32"
| invalidate: "osip_step d (Invalidate name) d'" if "invalidate_osii (Some name) (Some d) = Some (st, Some d')"
| restore: "osip_step d (Restore name) d'" if "restore_osii (Some name) (Some d) = Some (st, Some d')"
| write_header: "osip_step d WriteHeader d'" if "oem_write_osip_header (Some d) = Some (st, Some d')"
| erase_header: "osip_step d EraseHeader d'" if "oem_erase_osip_header (Some d) = (st, Some d')"

inductive osip_session :: "blkdev \<Rightarrow> osip_op list \<Rightarrow> blkdev \<Rightarrow> bool" where
  nil: "osip_session d [] d"
| cons: "osip_session d (x # xs) d''" if "osip_step d x d'" "osip_session d' xs d''"

inductive_cases osip_stepE: "osip_step d x d'"

lemma flash_keeps_layout:
  assumes f: "flashed d h" and w: "flash_image_osip data name (Some d) = Some (st, data', Some d')"
    and "name \<noteq> ''testos''" "length data < 2 ^ 32"
  shows "keeps_layout d'"
proof -
  have d: "emmc d h" "live h \<le> 8" "laid_out h" "roomy_device d" "tidy h"
    using f by (auto simp: flashed_def laid_out_def)
  obtain i where i: "get_named_osii_index (Some name) WRITE_OSIP_HEADER (Some d) = Some i"
      "i = -1 \<or> 0 \<le> i \<and> nat i \<le> live h"
    using named_index_bounds [OF d(1,2), of name WRITE_OSIP_HEADER] by auto
  show ?thesis
  proof (cases "check_index_outofbound i = 0")
    case False
    then show ?thesis using w i f assms(3) by (auto simp: flash_image_osip_def keeps_layout_def Let_def split: if_splits)
  next
    case True
    then have n: "nat i < 8" "int (nat i) = i" "nat i \<le> live h"
      using i(2) by (auto simp: check_index_outofbound_def split: if_splits)
    obtain data1 where "write_stitch_image data1 (int (nat i)) (Some d) = Some (st, data', Some d')"
        "length data1 < 2 ^ 32"
      using w i True n(2) assms(3,4) by (auto simp: flash_image_osip_def Let_def split: if_splits)
    from write_stitch_image_cases [OF f n(3,1) this(2,1)] show ?thesis
    proof (elim disjE conjE exE)
      assume "Some d' = Some d"
      then show ?thesis using f by (auto simp: keeps_layout_def)
    next
      assume "Some d' = Some (backup_gone d)"
      then show ?thesis using backup_gone_emmc [OF d(1)] roomy_backup_gone [OF d(1)] d
        by (auto simp: keeps_layout_def flashed_def)
    next
      fix e h'
      assume p: "placeable data1 (nat i) h e" "replace_desc (nat i) e h = Some h'"
        "Some d' = Some (header_written (partly_written d e data1 (length data1)) h')"
      then show ?thesis using installed(1) [OF f n(3,1) p(1,2)] by (auto simp: keeps_layout_def)
    qed
  qed
qed

text \<open>The one operation that takes the path for large images.\<close>

definition flashes_testos :: "osip_op \<Rightarrow> bool" where
  "flashes_testos x \<longleftrightarrow> (\<exists>data. x = Flash ''testos'' data)"

lemma osip_step_keeps_layout:
  assumes "keeps_layout d" "osip_step d x d'" "\<not> flashes_testos x"
  shows "keeps_layout d'"
  using assms(2)
proof cases
  case (flash data name st data')
  then show ?thesis using assms(1,3) flash_keeps_layout by (auto simp: keeps_layout_def flashes_testos_def)
next
  case (invalidate name st)
  then show ?thesis using assms(1) update_osii_flashed [of d _ name 0 0]
    by (auto simp: keeps_layout_def invalidate_osii_def)
next
  case (restore name st)
  then show ?thesis using assms(1) update_osii_flashed [of d _ name DDR_LOAD_ADDX ENTRY_POINT]
    by (auto simp: keeps_layout_def restore_osii_def)
next
  case (write_header st)
  then show ?thesis using assms(1) oem_write_flashed [of d] by (auto simp: keeps_layout_def flashed_def emmc_def)
next
  case (erase_header st)
  have "healthy d" "roomy_device d" using assms(1) by (auto simp: keeps_layout_def flashed_def emmc_def)
  then obtain d1 where "write_OSIP blank_osip (Some d) = (0, Some d1)" "flashed d1 (with_checksum blank_osip)"
    using write_OSIP_fresh [OF _ _ blank_osip_facts(1) blank_osip_laid_out] by blast
  then show ?thesis using erase_header by (auto simp: keeps_layout_def oem_erase_osip_header_def)
qed

text \<open>C4: The layout of the images is an invariant. Start from any defect-free device that has room for the slots, run
  \<open>oem_write_osip_header\<close>, and then any sequence of flashing images under any name but \<open>testos\<close>, invalidating, restoring, rewriting and
  erasing, with any arguments (files below 4 GiB) and whether the single steps succeed or fail, as long as the behaviour of each step is
  defined: the device always holds a header that \<open>read_OSIP\<close> accepts, of at most eight entries, whose images are in slots large enough
  for them and share no block. Flashing \<open>testos\<close>, for which \<open>flash_image_osip\<close> asks for a large image, is excluded: it stores an image
  of up to nine slots and so breaks this layout.\<close>

theorem osip_session_invariant:
  assumes "healthy d" "roomy_device d" "oem_write_osip_header (Some d) = Some (st, Some d')"
    and "osip_session d' ops d''" "\<not> list_ex flashes_testos ops"
  shows "\<exists>h. read_OSIP (Some d'') = Some h \<and> laid_out h"
proof -
  have "keeps_layout d'" using oem_write_flashed [OF assms(1,2)] assms(3) by auto
  with assms(4,5) have "keeps_layout d''"
    by (induction rule: osip_session.induct) (auto intro: osip_step_keeps_layout)
  then show ?thesis using read_OSIP_emmc by (auto simp: keeps_layout_def flashed_def)
qed

text \<open>A new device, and a session that flashes a recovery image, restores it and erases the header.\<close>

definition new_device :: blkdev where
  "new_device = \<lparr>bytes = replicate 149529600 0, regular = False, stat_ok = True, blk_size = None, blk_ssz = None,
     bad_read = (\<lambda>_. False), bad_write = (\<lambda>_. False)\<rparr>"

lemma new_device_facts: "healthy new_device" "roomy_device new_device"
  by (simp_all add: new_device_def healthy_def roomy_device_def)

lemma restore_step: "flashed d h \<Longrightarrow> \<exists>d'. osip_step d (Restore name) d' \<and> keeps_layout d'"
  using update_osii_flashed [of d h name DDR_LOAD_ADDX ENTRY_POINT] by (metis osip_step.restore restore_osii_def)

lemma recovery_byte: "recovery_image[52 := word_of_int (fst (get_named_osii_attr ''recovery'' 1)) + (recovery_image ! 52 AND 1)] = recovery_image"
proof -
  have "get_at dec_osii 24 32 recovery_image = image_at 1 1 0x0C"
    using recovery_image_facts(1) by (auto simp: crack_stitched_image_def split: if_splits)
  then have "seg 32 24 recovery_image ! 20 = 0x0C" by (simp add: get_at_def dec_osii_def image_at_def)
  then have "recovery_image ! 52 = 0x0C" using recovery_image_facts(2) by (simp add: seg_def)
  then show ?thesis using recovery_image_facts(2) list_update_id [of recovery_image 52] by (simp add: get_named_osii_attr_def)
qed

lemma free_in_default:
  assumes "but_pointers default_osip h"
  shows "get_free_os_lba h = Some 4050"
proof -
  note e = default_entry [OF assms]
  have "live h \<le> 8" using e(1) by simp
  then show ?thesis
    unfolding get_free_os_lba_def get_free_lba_eq [OF \<open>live h \<le> 8\<close>] e(1) using e(3,4)
    by (simp add: blocks_slot_def os_lba_slots_eq OS_MAX_LBA_def word_le_nat_alt)
qed

lemma flash_recovery:
  assumes "flashed d h" "but_pointers default_osip h"
  shows "\<exists>data' d' h'. flash_image_osip recovery_image ''recovery'' (Some d) = Some (0, data', Some d') \<and> flashed d' h'"
proof -
  note e = default_entry [OF assms(2)]
  have "emmc d h" using assms(1) by (simp add: flashed_def)
  moreover have "uint (num_pointers h) = 1" using e(1) by (metis int_nat_eq of_nat_1 uint_nat unsigned_greater_eq)
  ultimately have ix: "get_named_osii_index (Some ''recovery'') WRITE_OSIP_HEADER (Some d) = Some (int 1)"
    using read_OSIP_emmc [of d h] e(1,2)
    by (simp add: get_named_osii_index_def get_named_osii_attr_def get_attribute_osii_index_def desc_at_def)
  have ch: "choose_slot (image_at 1 1 0x0C) False h = Some (Some (4050, OS_MAX_LBA))"
    using free_in_default [OF assms(2)] by (simp add: choose_slot_def attr_kind_def os_kind_def)
  have idx: "1 \<le> live h" "(1 :: nat) < 8" "live h < 8" using e(1) by simp_all
  let ?e = "keep_invalid 1 h ((image_at 1 1 0x0C)\<lparr>logical_start_block := 4050\<rparr>)"
  obtain h' where w: "placeable recovery_image 1 h ?e" "replace_desc 1 ?e h = Some h'"
      "write_stitch_image recovery_image (int 1) (Some d) = Some (0, put_at enc_osii 32 ?e recovery_image,
        Some (header_written (partly_written d ?e recovery_image (length recovery_image)) h'))"
    using stitch_written [OF assms(1) idx(1,2) recovery_image_facts(1) _ ch] idx(3) recovery_image_facts(2)
    by (auto simp: OS_MAX_LBA_def)
  have "flash_image_osip recovery_image ''recovery'' (Some d) = write_stitch_image recovery_image (int 1) (Some d)"
    using ix recovery_byte recovery_image_facts(2) by (simp add: flash_image_osip_def check_index_outofbound_def Let_def)
  then show ?thesis using w installed(1) [OF assms(1) idx(1,2) w(1,2)] by auto
qed

theorem osip_session_invariant_witness:
  "\<exists>st d' d''. oem_write_osip_header (Some new_device) = Some (st, Some d') \<and>
    osip_session d' [Flash ''recovery'' recovery_image, Restore ''recovery'', EraseHeader] d'' \<and>
    (\<exists>h. read_OSIP (Some d'') = Some h \<and> laid_out h)"
proof -
  obtain d' h where d': "oem_write_osip_header (Some new_device) = Some (0, Some d')" "flashed d' h" "but_pointers default_osip h"
    using oem_write_default [OF new_device_facts] by blast
  obtain data1 d1 h1 where d1: "flash_image_osip recovery_image ''recovery'' (Some d') = Some (0, data1, Some d1)" "flashed d1 h1"
    using flash_recovery [OF d'(2,3)] by blast
  have f: "osip_step d' (Flash ''recovery'' recovery_image) d1" using d1(1) recovery_image_facts(2) by (auto intro: osip_step.flash)
  obtain d2 where d2: "osip_step d1 (Restore ''recovery'') d2" "keeps_layout d2" using restore_step [OF d1(2)] by blast
  have "healthy d2" "roomy_device d2" using d2(2) by (auto simp: keeps_layout_def flashed_def emmc_def)
  then obtain d3 where "write_OSIP blank_osip (Some d2) = (0, Some d3)"
    using write_OSIP_fresh [OF _ _ blank_osip_facts(1) blank_osip_laid_out] by blast
  then have "osip_step d2 EraseHeader d3" by (auto simp: oem_erase_osip_header_def intro: osip_step.erase_header)
  with f d2(1) have s: "osip_session d' [Flash ''recovery'' recovery_image, Restore ''recovery'', EraseHeader] d3"
    by (auto intro: osip_session.intros)
  from osip_session_invariant [OF new_device_facts d'(1) s] s d'(1) show ?thesis by (auto simp: flashes_testos_def)
qed

text \<open>Flashing \<open>testos\<close> with an image that is one block larger than a slot: it succeeds, and the header then lists an image that is not in
  a slot.\<close>

definition big_image :: buffer where
  "big_image = sample_image (image_at 1 32001 0) (replicate 16384512 7)"

lemma testos_breaks_layout:
  assumes "healthy d" "roomy_device d"
  shows "\<exists>d' h. osip_step d (Flash ''testos'' big_image) d' \<and> read_OSIP (Some d') = Some h \<and> \<not> laid_out h"
proof -
  obtain d1 h1 where d1: "oem_write_osip_header (Some d) = Some (0, Some d1)" "flashed d1 h1" "but_pointers default_osip h1"
    using oem_write_default [OF assms] by blast
  note e = default_entry [OF d1(3)]
  have f: "emmc d1 h1" "roomy_device d1" "osip_wf h1" using d1(2) by (auto simp: flashed_def emmc_def)
  let ?img = "image_at 1 32001 0" let ?e = "keep_invalid 0 h1 (?img\<lparr>logical_start_block := 4050\<rparr>)" let ?h = "set_desc 0 ?e h1"
  have img: "crack_stitched_image big_image = Some (Some ?img)" "length big_image = 16385024"
    using crack_sample [of ?img "replicate 16384512 7"] by (simp_all add: big_image_def)
  have ch: "choose_slot ?img True h1 = Some (Some (4050, 288000))"
    by (simp add: choose_slot_def attr_kind_def os_kind_def OS_START_OFFSET_def FW_MAX_LBA_def fw_lba_slots_eq OS_MAX_LBA_def os_lba_slots_eq)
  have sk: "lseek (backup_gone d1) (4050 * 512) = Some (unat (4050 :: u32) * 512)"
    by (rule lseek_slot [of _ OS_MAX_LBA]) (use f roomy_backup_gone in \<open>simp_all add: is_slot_def os_lba_slots_eq\<close>)
  have room: "unat (4050 :: u32) * 512 + 512 * unat (size_of_os_image ?img) \<le> length (bytes d1)" using f(2) by (simp add: roomy_device_def)
  have r: "replace_desc 0 ?e h1 = Some ?h" using e(1,2) by (simp add: replace_desc_def Let_def os_kind_def)
  let ?d2 = "(backup_gone d1)\<lparr>bytes := overlay (unat (4050 :: u32) * 512) (drop 512 big_image) (bytes (backup_gone d1))\<rparr>"
  have st: "stage_image big_image 0 True (Some d1) = Some (Inr (?h, put_at enc_osii 32 ?e big_image, Some ?d2))"
    using stage_image_at [OF f(1) _ img(1) ch _ _ sk room, of 0] r img(2) by simp
  have wf: "osip_wf ?h" using f(3) by (simp add: osip_wf_def list_all_update)
  have "emmc ?d2 h1" using f(1) room img(2) by (intro emmc_overlay backup_gone_emmc [OF f(1)]) auto
  note hw = header_written_facts [OF this wf]
  have "flash_image_osip big_image ''testos'' (Some d) = Some (0, put_at enc_osii 32 ?e big_image, Some (header_written ?d2 ?h))"
    using d1(1) st hw(1) by (simp add: flash_image_osip_def write_stitch_image_ex_def check_index_outofbound_def)
  then have "osip_step d (Flash ''testos'' big_image) (header_written ?d2 ?h)" using img(2) by (auto intro: osip_step.flash)
  moreover have "\<not> laid_out (with_checksum ?h)"
  proof -
    have "desc ?h ! 0 = ?e" using f(3) by (simp add: osip_wf_def)
    moreover have "\<not> in_slot ?e" by (simp add: in_slot_def FW_MAX_LBA_def OS_MAX_LBA_def)
    ultimately show ?thesis using e(1) by (auto simp: laid_out_def)
  qed
  ultimately show ?thesis using read_OSIP_emmc [OF hw(2)] by blast
qed

lemma two_images_emmc: "emmc (sample_device two_images) (with_checksum two_images)"
  using two_images_flashed by (simp add: flashed_def)

lemma two_images_boot: "get_named_osii_index (Some ''boot'') READ_OSIP_HEADER (Some (sample_device two_images)) = Some (int 0)"
proof -
  have "[0..<live (with_checksum two_images)] = [0, 1]" unfolding live_two_images by (simp add: upt_rec)
  moreover have "attr_kind (desc two_images ! 0) = 0"
    by (simp add: two_images_def header_of_def attr_kind_def)
  ultimately show ?thesis
    using read_OSIP_emmc [OF two_images_emmc]
    by (simp add: get_named_osii_index_def get_named_osii_attr_def get_attribute_osii_index_def desc_at_def)
qed

theorem invalidate_restore_round_trip_witness:
  "\<exists>d'. invalidate_osii (Some ''boot'') (Some (sample_device two_images)) = Some (0, Some d') \<and>
    read_OSIP (Some d') = Some (with_checksum (with_pointers 0 0 0 (with_checksum two_images))) \<and>
    restore_osii (Some ''boot'') (Some d') = Some (0, Some (sample_device two_images))"
proof (rule invalidate_restore_round_trip)
  show "emmc (sample_device two_images) (with_checksum two_images)" by (rule two_images_emmc)
  show "get_named_osii_index (Some ''boot'') READ_OSIP_HEADER (Some (sample_device two_images)) = Some (int 0)"
    by (rule two_images_boot)
qed (simp_all add: two_images_def header_of_def image_at_def)

end
