(* ===== verification/Flash_Ops.thy ===== *)
theory Flash_Ops
  imports Osip_Flash
begin

text \<open>
  Boot images on a device with a GPT (\<open>flash_gpt/bootimage.c\<close>), the choice between the two kinds of device
  (\<open>flash_ops.c\<close>), and the entry points of \<open>flash.c\<close> for boot images. The firmware and capsule operations
  are in \<open>Flash_Firmware\<close>.

  The header of a boot image is declared in \<open>bootimg.h\<close>, which is not part of the sources: its size, its
  magic number and the fields that the code reads are the parameter \<open>boot_img_layout\<close>.
\<close>

subsection \<open>Definitions\<close>

record boot_img_layout =
  hdr_size :: nat
  magic_ok :: "buffer \<Rightarrow> bool"
  kernel_size :: "buffer \<Rightarrow> u32"
  ramdisk_size :: "buffer \<Rightarrow> u32"
  second_size :: "buffer \<Rightarrow> u32"
  page_size :: "buffer \<Rightarrow> u32"

definition try_prefix :: "fs \<Rightarrow> string \<Rightarrow> string \<Rightarrow> string option" where
  "try_prefix files prefix name =
    (let path = prefix @ ''/'' @ name in
     case files path of None \<Rightarrow> None
     | Some d \<Rightarrow> if stat_ok d \<and> \<not> regular d then Some path else None)"

definition PREFIXES :: "string list" where
  "PREFIXES = [''/dev/block/by-name'', ''/dev/disk/by-label'', ''/dev/block/platform/intel/by-label'']"

fun first_prefix :: "fs \<Rightarrow> string list \<Rightarrow> string \<Rightarrow> string option" where
  "first_prefix files [] name = None"
| "first_prefix files (p # ps) name =
    (case try_prefix files p name of Some path \<Rightarrow> Some path | None \<Rightarrow> first_prefix files ps name)"

definition get_device_path :: "fs \<Rightarrow> string option \<Rightarrow> string option" where
  "get_device_path files name = do { n \<leftarrow> name; first_prefix files PREFIXES n }"

definition is_gpt :: "fs \<Rightarrow> bool" where
  "is_gpt files \<longleftrightarrow> get_device_path files (Some ''fastboot'') \<noteq> None"

definition flash_image_gpt :: "(string \<Rightarrow> bool) \<Rightarrow> buffer \<Rightarrow> string \<Rightarrow> fs \<Rightarrow> int \<times> fs" where
  "flash_image_gpt creatable data name files =
    (let name = (if name = ''testos'' then ''boot'' else name) in
     case get_device_path files (Some name) of None \<Rightarrow> (-1, files)
     | Some block_dev \<Rightarrow> file_write creatable block_dev data files)"

text \<open>\<open>None\<close> is the division by a page size of 0.\<close>

definition pages :: "boot_img_layout \<Rightarrow> buffer \<Rightarrow> u32 \<Rightarrow> u32 option" where
  "pages L hdr blob_size =
    (if page_size L hdr = 0 then None
     else Some ((blob_size + page_size L hdr - 1) div page_size L hdr))"

definition open_bootimage :: "fs \<Rightarrow> string \<Rightarrow> blkdev option" where
  "open_bootimage files name = do { block_dev \<leftarrow> get_device_path files (Some name); files block_dev }"

text \<open>The size of the image, \<open>-1\<close> for an error.\<close>

definition bootimage_size :: "boot_img_layout \<Rightarrow> blkdev \<Rightarrow> int option" where
  "bootimage_size L d =
    (case safe_read d 0 (hdr_size L) of None \<Rightarrow> Some (-1)
     | Some hdr \<Rightarrow>
       if \<not> magic_ok L hdr then Some (-1)
       else do { k \<leftarrow> pages L hdr (kernel_size L hdr);
                 r \<leftarrow> pages L hdr (ramdisk_size L hdr);
                 s \<leftarrow> pages L hdr (second_size L hdr);
                 Some (sint ((1 + k + r + s) * page_size L hdr)) })"

text \<open>The image, or \<open>Some None\<close> for a failure.\<close>

definition read_image_gpt :: "boot_img_layout \<Rightarrow> string \<Rightarrow> fs \<Rightarrow> buffer option option" where
  "read_image_gpt L name files =
    (case open_bootimage files name of None \<Rightarrow> Some None
     | Some d \<Rightarrow>
       do { sz \<leftarrow> bootimage_size L d;
            Some (if sz \<le> 0 then None
                  else do { pos \<leftarrow> lseek d 0; safe_read d pos (nat sz) }) })"

definition read_image_signature_gpt :: "string \<Rightarrow> fs \<Rightarrow> buffer option option" where
  "read_image_signature_gpt name files = Some None"

definition is_image_signed_gpt :: "string \<Rightarrow> fs \<Rightarrow> int option" where
  "is_image_signed_gpt name files = Some 0"

text \<open>Which operations \<open>bootimage_ops\<close> selects; \<open>None\<close> is the null pointer. \<open>mmc\<close> is the path of the
  eMMC, a constant of the build.\<close>

datatype bootimage_operations = gpt_bootimage_operations | osip_bootimage_operations

definition bootimage_ops :: "string \<Rightarrow> fs \<Rightarrow> bootimage_operations option" where
  "bootimage_ops mmc files =
    (if is_gpt files then Some gpt_bootimage_operations
     else if is_osip (files mmc) then Some osip_bootimage_operations
     else None)"

text \<open>\<open>ops_call\<close>: the selected operation, or the stub that returns \<open>-1\<close>. The result has the caller's buffer as
  the operation leaves it.\<close>

definition flash_image :: "string \<Rightarrow> (string \<Rightarrow> bool) \<Rightarrow> buffer \<Rightarrow> string \<Rightarrow> fs \<Rightarrow> (int \<times> buffer \<times> fs) option" where
  "flash_image mmc creatable data name files =
    (case bootimage_ops mmc files of
       Some gpt_bootimage_operations \<Rightarrow> let (st, files) = flash_image_gpt creatable data name files in Some (st, data, files)
     | Some osip_bootimage_operations \<Rightarrow>
         do { (st, data, m) \<leftarrow> flash_image_osip data name (files mmc); Some (st, data, files(mmc := m)) }
     | None \<Rightarrow> Some (-1, data, files))"

definition read_image :: "string \<Rightarrow> boot_img_layout \<Rightarrow> (nat \<Rightarrow> buffer option) \<Rightarrow> string \<Rightarrow> fs \<Rightarrow> buffer option option" where
  "read_image mmc L heap name files =
    (case bootimage_ops mmc files of
       Some gpt_bootimage_operations \<Rightarrow> read_image_gpt L name files
     | Some osip_bootimage_operations \<Rightarrow> read_image_osip heap name (files mmc)
     | None \<Rightarrow> Some None)"

definition read_image_signature :: "string \<Rightarrow> OSIP_header \<Rightarrow> (nat \<Rightarrow> buffer option) \<Rightarrow> string \<Rightarrow> fs \<Rightarrow> buffer option option" where
  "read_image_signature mmc garbage heap name files =
    (case bootimage_ops mmc files of
       Some gpt_bootimage_operations \<Rightarrow> read_image_signature_gpt name files
     | Some osip_bootimage_operations \<Rightarrow> read_image_signature_osip garbage heap name (files mmc)
     | None \<Rightarrow> Some None)"

definition is_image_signed :: "string \<Rightarrow> string \<Rightarrow> fs \<Rightarrow> int option" where
  "is_image_signed mmc name files =
    (case bootimage_ops mmc files of
       Some gpt_bootimage_operations \<Rightarrow> is_image_signed_gpt name files
     | Some osip_bootimage_operations \<Rightarrow> is_image_signed_osip name (files mmc)
     | None \<Rightarrow> Some (-1))"

definition flash_android_kernel :: "string \<Rightarrow> (string \<Rightarrow> bool) \<Rightarrow> buffer \<Rightarrow> fs \<Rightarrow> (int \<times> buffer \<times> fs) option" where
  "flash_android_kernel mmc creatable data = flash_image mmc creatable data ''boot''"

definition flash_recovery_kernel :: "string \<Rightarrow> (string \<Rightarrow> bool) \<Rightarrow> buffer \<Rightarrow> fs \<Rightarrow> (int \<times> buffer \<times> fs) option" where
  "flash_recovery_kernel mmc creatable data = flash_image mmc creatable data ''recovery''"

definition flash_fastboot_kernel :: "string \<Rightarrow> (string \<Rightarrow> bool) \<Rightarrow> buffer \<Rightarrow> fs \<Rightarrow> (int \<times> buffer \<times> fs) option" where
  "flash_fastboot_kernel mmc creatable data = flash_image mmc creatable data ''fastboot''"

definition flash_splashscreen_image1 :: "string \<Rightarrow> (string \<Rightarrow> bool) \<Rightarrow> buffer \<Rightarrow> fs \<Rightarrow> (int \<times> buffer \<times> fs) option" where
  "flash_splashscreen_image1 mmc creatable data = flash_image mmc creatable data ''splashscreen''"

definition flash_splashscreen_image2 :: "string \<Rightarrow> (string \<Rightarrow> bool) \<Rightarrow> buffer \<Rightarrow> fs \<Rightarrow> (int \<times> buffer \<times> fs) option" where
  "flash_splashscreen_image2 mmc creatable data = flash_image mmc creatable data ''splashscreen2''"

definition flash_splashscreen_image3 :: "string \<Rightarrow> (string \<Rightarrow> bool) \<Rightarrow> buffer \<Rightarrow> fs \<Rightarrow> (int \<times> buffer \<times> fs) option" where
  "flash_splashscreen_image3 mmc creatable data = flash_image mmc creatable data ''splashscreen3''"

definition flash_splashscreen_image4 :: "string \<Rightarrow> (string \<Rightarrow> bool) \<Rightarrow> buffer \<Rightarrow> fs \<Rightarrow> (int \<times> buffer \<times> fs) option" where
  "flash_splashscreen_image4 mmc creatable data = flash_image mmc creatable data ''splashscreen4''"

definition flash_silent_binary :: "string \<Rightarrow> (string \<Rightarrow> bool) \<Rightarrow> buffer \<Rightarrow> fs \<Rightarrow> (int \<times> buffer \<times> fs) option" where
  "flash_silent_binary mmc creatable data = flash_image mmc creatable data ''silentlake''"

definition flash_esp :: "string \<Rightarrow> (string \<Rightarrow> bool) \<Rightarrow> buffer \<Rightarrow> fs \<Rightarrow> (int \<times> buffer \<times> fs) option" where
  "flash_esp mmc creatable data = flash_image mmc creatable data ''ESP''"

definition flash_testos :: "string \<Rightarrow> (string \<Rightarrow> bool) \<Rightarrow> buffer \<Rightarrow> fs \<Rightarrow> (int \<times> buffer \<times> fs) option" where
  "flash_testos mmc creatable data = flash_image mmc creatable data ''testos''"

definition flash_ramdump :: "string \<Rightarrow> (string \<Rightarrow> bool) \<Rightarrow> buffer \<Rightarrow> fs \<Rightarrow> (int \<times> buffer \<times> fs) option" where
  "flash_ramdump mmc creatable data = flash_image mmc creatable data ''ramdump''"

subsection \<open>Properties\<close>

text \<open>Replacing a block device by another block device at the same path does not change which path is found.\<close>

lemma first_prefix_update:
  assumes "first_prefix files ps name = Some path" "stat_ok d" "\<not> regular d"
    and "files path = Some d0" "stat_ok d0" "\<not> regular d0"
  shows "first_prefix (files(path \<mapsto> d)) qs n = first_prefix files qs n"
  using assms(2-) by (induction qs) (auto simp: try_prefix_def Let_def split: option.splits)

lemma first_prefix_found:
  "first_prefix files ps name = Some path \<Longrightarrow> \<exists>d. files path = Some d \<and> stat_ok d \<and> \<not> regular d"
  by (induction ps) (auto simp: try_prefix_def Let_def split: option.splits if_splits)

lemma gpt_flash_writes:
  assumes gpt: "is_gpt files" and path: "get_device_path files (Some name) = Some path"
    and d: "files path = Some d" "healthy d" "length data \<le> length (bytes d)" and n: "name \<noteq> ''testos''"
  defines "files' \<equiv> files(path \<mapsto> d\<lparr>bytes := overlay 0 data (bytes d)\<rparr>)"
  shows "flash_image mmc creatable data name files = Some (0, data, files')" "get_device_path files' = get_device_path files"
proof -
  have blk: "stat_ok d" "\<not> regular d"
    using path d(1) first_prefix_found [of files PREFIXES name path] by (auto simp: get_device_path_def)
  show "get_device_path files' = get_device_path files"
    using path d(1) blk first_prefix_update [of files PREFIXES name path "d\<lparr>bytes := overlay 0 data (bytes d)\<rparr>" d]
    by (auto simp: get_device_path_def fun_eq_iff files'_def split: option.splits)
  show "flash_image mmc creatable data name files = Some (0, data, files')"
    using gpt path d blk n
    by (simp add: flash_image_def bootimage_ops_def flash_image_gpt_def file_write_def open_trunc_def write_all_healthy files'_def)
qed

lemma gpt_flash_read:
  assumes gpt: "is_gpt files" and path: "get_device_path files (Some name) = Some path"
    and d: "files path = Some d" "healthy d" "length data \<le> length (bytes d)" and n: "name \<noteq> ''testos''"
    and sz: "hdr_size L \<le> length data" "0 < length data"
      "bootimage_size L (empty_file\<lparr>bytes := data\<rparr>) = Some (int (length data))"
  shows "\<exists>files'. flash_image mmc creatable data name files = Some (0, data, files') \<and>
    (\<forall>p. p \<noteq> path \<longrightarrow> files' p = files p) \<and> read_image mmc L heap name files' = Some (Some data) \<and> is_gpt files'"
proof -
  let ?d = "d\<lparr>bytes := overlay 0 data (bytes d)\<rparr>" let ?files = "files(path \<mapsto> ?d)"
  have w: "flash_image mmc creatable data name files = Some (0, data, ?files)" and paths: "get_device_path ?files = get_device_path files"
    using gpt_flash_writes [OF gpt path d n] by blast+
  have h: "healthy ?d" using d by simp
  have pre: "safe_read ?d 0 k = Some (take k data)" if "k \<le> length data" for k
    using that d h by (subst safe_read_healthy) (auto simp: seg_def overlay_def)
  have "safe_read (empty_file\<lparr>bytes := data\<rparr>) 0 (hdr_size L) = Some (take (hdr_size L) data)"
    using sz(1,2) by (subst safe_read.simps) (simp add: dev_read_def empty_file_def seg_def safe_read.simps)
  then have "bootimage_size L ?d = Some (int (length data))"
    using sz pre by (simp add: bootimage_size_def)
  then have "read_image mmc L heap name ?files = Some (Some data)"
    using gpt path sz(2) pre
    by (simp add: read_image_def bootimage_ops_def is_gpt_def paths read_image_gpt_def open_bootimage_def lseek_def lseek64_def)
  moreover have "is_gpt ?files" using gpt by (simp add: is_gpt_def paths)
  ultimately show ?thesis using w by auto
qed

text \<open>An image without the magic of a boot image is written all the same, but \<open>read_image\<close> refuses to read it back.\<close>

lemma other_image_not_read:
  assumes gpt: "is_gpt files" and path: "get_device_path files (Some name) = Some path"
    and d: "files path = Some d" "healthy d" "length data \<le> length (bytes d)" and n: "name \<noteq> ''testos''"
    and hdr: "hdr_size L \<le> length data" "\<not> magic_ok L (take (hdr_size L) data)"
  shows "\<exists>files'. flash_image mmc creatable data name files = Some (0, data, files') \<and> read_image mmc L heap name files' = Some None"
proof -
  let ?d = "d\<lparr>bytes := overlay 0 data (bytes d)\<rparr>" let ?files = "files(path \<mapsto> ?d)"
  have w: "flash_image mmc creatable data name files = Some (0, data, ?files)" and paths: "get_device_path ?files = get_device_path files"
    using gpt_flash_writes [OF gpt path d n] by blast+
  have "healthy ?d" using d by simp
  then have "safe_read ?d 0 (hdr_size L) = Some (take (hdr_size L) data)"
    using d hdr(1) by (subst safe_read_healthy) (auto simp: seg_def overlay_def)
  then have "read_image mmc L heap name ?files = Some None"
    using gpt path hdr(2)
    by (simp add: read_image_def bootimage_ops_def is_gpt_def paths read_image_gpt_def open_bootimage_def bootimage_size_def)
  with w show ?thesis by blast
qed

text \<open>On a device with a GPT, what is flashed is what is read: if the partition of that name is a defect-free block
  device large enough for the image, and the size computed from the header of the image is the length of the
  file, then \<open>flash_image\<close> succeeds, changes no other device, and \<open>read_image\<close> then returns exactly the file.\<close>

theorem gpt_image_round_trip:
  assumes gpt: "is_gpt files" and path: "get_device_path files (Some name) = Some path"
    and d: "files path = Some d" "healthy d" "length data \<le> length (bytes d)" and n: "name \<noteq> ''testos''"
    and sz: "hdr_size L \<le> length data" "0 < length data"
      "bootimage_size L (empty_file\<lparr>bytes := data\<rparr>) = Some (int (length data))"
  shows "\<exists>files'. flash_image mmc creatable data name files = Some (0, data, files') \<and>
    (\<forall>p. p \<noteq> path \<longrightarrow> files' p = files p) \<and> read_image mmc L heap name files' = Some (Some data)"
  using gpt_flash_read [OF assms] by blast

text \<open>A layout with a header of one byte and pages of two bytes.\<close>

definition tiny_layout :: boot_img_layout where
  "tiny_layout = \<lparr>hdr_size = 1, magic_ok = (\<lambda>b. b = [1]), kernel_size = (\<lambda>_. 1), ramdisk_size = (\<lambda>_. 0),
     second_size = (\<lambda>_. 0), page_size = (\<lambda>_. 2)\<rparr>"

definition block_device :: "nat \<Rightarrow> blkdev" where
  "block_device n = \<lparr>bytes = replicate n 0, regular = False, stat_ok = True, blk_size = Some (of_nat n),
     blk_ssz = Some 512, bad_read = (\<lambda>_. False), bad_write = (\<lambda>_. False)\<rparr>"

definition gpt_files :: fs where
  "gpt_files = [''/dev/block/by-name/fastboot'' \<mapsto> block_device 8, ''/dev/block/by-name/boot'' \<mapsto> block_device 8]"

theorem gpt_image_round_trip_witness:
  "\<exists>files'. flash_image ''/dev/block/mmcblk0'' (\<lambda>_. False) [1, 2, 3, 4] ''boot'' gpt_files = Some (0, [1, 2, 3, 4], files') \<and>
    (\<forall>p. p \<noteq> ''/dev/block/by-name/boot'' \<longrightarrow> files' p = gpt_files p) \<and>
    read_image ''/dev/block/mmcblk0'' tiny_layout (\<lambda>_. None) ''boot'' files' = Some (Some [1, 2, 3, 4])"
proof (rule gpt_image_round_trip)
  show "is_gpt gpt_files"
    by (simp add: is_gpt_def get_device_path_def PREFIXES_def try_prefix_def gpt_files_def block_device_def)
  show "get_device_path gpt_files (Some ''boot'') = Some ''/dev/block/by-name/boot''"
    by (simp add: get_device_path_def PREFIXES_def try_prefix_def gpt_files_def block_device_def)
  show "gpt_files ''/dev/block/by-name/boot'' = Some (block_device 8)" by (simp add: gpt_files_def)
  show "healthy (block_device 8)" by (simp add: block_device_def healthy_def)
  have "safe_read (empty_file\<lparr>bytes := [1, 2, 3, 4]\<rparr>) 0 1 = Some [1]"
    by (subst safe_read.simps) (simp add: dev_read_def empty_file_def seg_def safe_read.simps)
  then show "bootimage_size tiny_layout (empty_file\<lparr>bytes := [1, 2, 3, 4]\<rparr>) = Some (int (length [1, 2, 3, 4 :: byte]))"
    by (simp add: bootimage_size_def tiny_layout_def pages_def)
qed (simp_all add: block_device_def tiny_layout_def)

end
