(* ===== verification/Capsule.thy ===== *)
theory Capsule
  imports Flash_Ops Fw_Version Stdio
begin

text \<open>
  Firmware capsules (\<open>flash_fdk/capsule.c\<close>, \<open>flash_edk2/esp.c\<close>): the search for the version tag \<open>$MN2\<close> in the regions of a
  capsule, the comparison with the versions of the device, and writing the capsule to its partition or to the EFI system
  partition. \<open>None\<close> is an access outside the capsule, or a number in a property that is too large for its conversion.
\<close>

unbundle bit_operations_syntax

subsection \<open>The capsule\<close>

record capsule_refs =
  iafw_stage1_offset :: u32
  iafw_stage1_size :: u32
  iafw_stage2_offset :: u32
  iafw_stage2_size :: u32
  pdr_offset :: u32
  pdr_size :: u32
  sec_offset :: u32
  sec_size :: u32

definition enc_refs :: "capsule_refs \<Rightarrow> buffer" where
  [codec_defs]: "enc_refs r = le_bytes 4 (iafw_stage1_offset r) @ le_bytes 4 (iafw_stage1_size r) @ le_bytes 4 (iafw_stage2_offset r) @
     le_bytes 4 (iafw_stage2_size r) @ le_bytes 4 (pdr_offset r) @ le_bytes 4 (pdr_size r) @ le_bytes 4 (sec_offset r) @ le_bytes 4 (sec_size r)"

definition dec_refs :: "buffer \<Rightarrow> capsule_refs" where
  [codec_defs]: "dec_refs b = \<lparr>iafw_stage1_offset = le_word (seg 0 4 b), iafw_stage1_size = le_word (seg 4 4 b),
     iafw_stage2_offset = le_word (seg 8 4 b), iafw_stage2_size = le_word (seg 12 4 b), pdr_offset = le_word (seg 16 4 b),
     pdr_size = le_word (seg 20 4 b), sec_offset = le_word (seg 24 4 b), sec_size = le_word (seg 28 4 b)\<rparr>"

interpretation refs: struct_codec enc_refs dec_refs 32 "\<lambda>_. True"
proof
  fix x :: capsule_refs
  show "length (enc_refs x) = 32" by (simp add: enc_refs_def)
  show "dec_refs (enc_refs x) = x" by (simp add: enc_refs_def dec_refs_def buf_simps)
next
  fix bs :: buffer
  assume len: "length bs = 32"
  show "enc_refs (dec_refs bs) = bs" using len by (simp add: enc_refs_def dec_refs_def buf_simps)
qed simp

text \<open>The sizes of \<open>struct capsule_signature\<close> and of \<open>struct capsule_header\<close>; the references are the last part of the header.\<close>

abbreviation (input) "SIG_SIZE \<equiv> 552 :: nat"
abbreviation (input) "CAPSULE_HEADER_SIZE \<equiv> 608 :: nat"

definition capsule_references :: "buffer \<Rightarrow> capsule_refs" where
  "capsule_references c = dec_refs (seg 576 32 c)"

record sec_version_t =
  val_0 :: u32
  val_1 :: u32
  val_2 :: u32

subsection \<open>Versions in a capsule\<close>

definition CAPSULE_FW_VERSION_TAG :: u32 where "CAPSULE_FW_VERSION_TAG = 0x244d4e32"

text \<open>The loop with the pattern so far; the result is the new pointer when the tag is found.\<close>

function tag_loop :: "buffer \<Rightarrow> nat \<Rightarrow> nat \<Rightarrow> u32 \<Rightarrow> nat option option" where
  "tag_loop c end_ptr p patt =
    (if p < end_ptr then
       if length c \<le> p then None
       else let patt = push_bit 8 patt OR ucast (c ! p) in
         if patt = CAPSULE_FW_VERSION_TAG then Some (Some (p + 5)) else tag_loop c end_ptr (p + 1) patt
     else Some None)"
  by auto
termination by (relation "measure (\<lambda>(c, end_ptr, p, patt). end_ptr - p)") auto

declare tag_loop.simps [simp del]

definition get_fw_version_tag_offset :: "buffer \<Rightarrow> nat \<Rightarrow> nat \<Rightarrow> nat option option" where
  "get_fw_version_tag_offset c p end_ptr = tag_loop c end_ptr p 0"

definition MN2_VER_BYTESREORDER :: "buffer \<Rightarrow> nat \<Rightarrow> u32 option" where
  "MN2_VER_BYTESREORDER c p =
    (if length c < p + 4 then None
     else Some (push_bit 24 (ucast (c ! (p + 1))) OR push_bit 16 (ucast (c ! p)) OR push_bit 8 (ucast (c ! (p + 3))) OR ucast (c ! (p + 2))))"

text \<open>The version of the PDR or IAFW region: none when the region is empty or has no tag.\<close>

definition region_version :: "buffer \<Rightarrow> u32 \<Rightarrow> u32 \<Rightarrow> u32 option option" where
  "region_version c off sz =
    (if sz = 0 then Some None
     else let p = unat off + SIG_SIZE in
       do { found \<leftarrow> get_fw_version_tag_offset c p (p + unat sz);
            case found of None \<Rightarrow> Some None
            | Some q \<Rightarrow> do { v \<leftarrow> MN2_VER_BYTESREORDER c q; Some (Some v) } })"

definition sec_version_at :: "buffer \<Rightarrow> nat \<Rightarrow> sec_version_t option" where
  "sec_version_at c p =
    do { v2 \<leftarrow> MN2_VER_BYTESREORDER c p;
         if length c < p + 8 then None
         else Some \<lparr>val_0 = push_bit 8 (ucast (c ! (p + 7))) OR ucast (c ! (p + 6)),
                    val_1 = push_bit 8 (ucast (c ! (p + 5))) OR ucast (c ! (p + 4)), val_2 = v2\<rparr> }"

lemma tag_loop_ahead: "tag_loop c e p patt = Some (Some q) \<Longrightarrow> p < q \<and> p < e"
proof (induction c e p patt rule: tag_loop.induct)
  case (1 c e p patt)
  show ?case using 1(2) 1(1) by (subst (asm) tag_loop.simps) (auto simp: Let_def split: if_splits)
qed

text \<open>The loop over the tags of the SEC region: whether some version differs, and whether some tag has been seen.\<close>

function sec_loop :: "buffer \<Rightarrow> nat \<Rightarrow> sec_version_t \<Rightarrow> nat \<Rightarrow> bool \<Rightarrow> (bool \<times> bool) option" where
  "sec_loop c end_ptr sec_version p match =
    (case get_fw_version_tag_offset c p end_ptr of None \<Rightarrow> None
     | Some None \<Rightarrow> Some (False, match)
     | Some (Some q) \<Rightarrow>
       (case sec_version_at c q of None \<Rightarrow> None
        | Some v \<Rightarrow> if v \<noteq> sec_version then Some (True, match) else sec_loop c end_ptr sec_version q True))"
  by pat_completeness auto
termination
  by (relation "measure (\<lambda>(c, end_ptr, sec_version, p, match). end_ptr - p)")
    (auto simp: get_fw_version_tag_offset_def dest!: tag_loop_ahead)

declare sec_loop.simps [simp del]

text \<open>Whether the capsule is to be flashed. The end of the SEC region is computed from the beginning of the capsule instead
  of that of the region.\<close>

definition check_capsule :: "buffer \<Rightarrow> u32 \<Rightarrow> sec_version_t \<Rightarrow> u32 \<Rightarrow> bool option" where
  "check_capsule c iafw_version sec_version pdr_version =
    (let refs = capsule_references c in
     do { pdr \<leftarrow> region_version c (pdr_offset refs) (pdr_size refs);
          if pdr \<noteq> None \<and> pdr \<noteq> Some pdr_version then Some True
          else do {
            iafw \<leftarrow> region_version c (iafw_stage2_offset refs) (iafw_stage2_size refs);
            if iafw \<noteq> None \<and> iafw \<noteq> Some iafw_version then Some True
            else do {
              let match = (pdr \<noteq> None \<or> iafw \<noteq> None);
              (differs, match) \<leftarrow>
                (if sec_size refs = 0 then Some (False, match)
                 else sec_loop c (unat (sec_size refs)) sec_version (unat (sec_offset refs) + SIG_SIZE) match);
              Some (differs \<or> \<not> match) } } })"

subsection \<open>Flashing a capsule\<close>

text \<open>\<open>sscanf\<close> with \<open>%x\<close> and \<open>%d\<close>: \<open>Some None\<close> is a matching failure.\<close>

definition scan_x :: "string \<Rightarrow> (u32 \<times> string) option option" where
  "scan_x s =
    (case scan_X (length s) s of None \<Rightarrow> Some None
     | Some (v, rest) \<Rightarrow> if length (dropWhile is_space s) - length rest > 11 then None else Some (Some (v, rest)))"

definition scan_d :: "string \<Rightarrow> (u32 \<times> string) option option" where
  "scan_d s0 =
    (let s = dropWhile is_space s0;
         neg = s \<noteq> [] \<and> hd s = CHR ''-'';
         s = (if s \<noteq> [] \<and> (hd s = CHR ''-'' \<or> hd s = CHR ''+'') then tl s else s);
         ds = takeWhile (\<lambda>c. 48 \<le> (of_char c :: nat) \<and> (of_char c :: nat) \<le> 57) s;
         v = foldl (\<lambda>a c. 10 * a + (of_char c - 48)) (0 :: nat) ds
     in if ds = [] then Some None
        else if 2 ^ 31 \<le> v then None
        else Some (Some (if neg then - of_nat v else of_nat v, drop (length ds) s)))"

definition scan_dot :: "string \<Rightarrow> string option" where
  "scan_dot s = (case s of c # r \<Rightarrow> if c = CHR ''.'' then Some r else None | [] \<Rightarrow> None)"

text \<open>\<open>"%x.%x"\<close> into two words that are 0 before, and the two joined.\<close>

definition hex_version :: "string \<Rightarrow> u32 option" where
  "hex_version s =
    do { a \<leftarrow> scan_x s;
         case a of None \<Rightarrow> Some 0
         | Some (msb, s) \<Rightarrow>
           (case scan_dot s of None \<Rightarrow> Some (push_bit 16 msb)
            | Some s \<Rightarrow> do { b \<leftarrow> scan_x s; Some ((case b of None \<Rightarrow> 0 | Some (lsb, _) \<Rightarrow> lsb) OR push_bit 16 msb) }) }"

text \<open>One \<open>".%d"\<close>: the value and the rest, or \<open>Some None\<close> where the conversions end.\<close>

definition scan_dot_d :: "string \<Rightarrow> (u32 \<times> string) option option" where
  "scan_dot_d s = (case scan_dot s of None \<Rightarrow> Some None | Some s \<Rightarrow> scan_d s)"

text \<open>\<open>"%*d.%d.%d.%d"\<close>: what is not converted keeps the contents of the uninitialised variable.\<close>

definition sec_version_of :: "sec_version_t \<Rightarrow> string \<Rightarrow> sec_version_t option" where
  "sec_version_of garbage s =
    do { a \<leftarrow> scan_d s;
         case a of None \<Rightarrow> Some garbage
         | Some (_, s) \<Rightarrow> do {
             b \<leftarrow> scan_dot_d s;
             case b of None \<Rightarrow> Some garbage
             | Some (v2, s) \<Rightarrow> do {
                 d \<leftarrow> scan_dot_d s;
                 case d of None \<Rightarrow> Some (garbage\<lparr>val_2 := v2\<rparr>)
                 | Some (v1, s) \<Rightarrow> do {
                     e \<leftarrow> scan_dot_d s;
                     case e of None \<Rightarrow> Some (garbage\<lparr>val_2 := v2, val_1 := v1\<rparr>)
                     | Some (v0, _) \<Rightarrow> Some \<lparr>val_0 = v0, val_1 = v1, val_2 = v2\<rparr> } } } }"

definition property_get :: "(string \<Rightarrow> string) \<Rightarrow> string \<Rightarrow> string \<Rightarrow> string" where
  "property_get property key def = (if property key = [] then def else property key)"

definition CAPSULE_UPDATE_FLAG_PATH :: string where "CAPSULE_UPDATE_FLAG_PATH = ''/sys/firmware/osnib/fw_update''"

definition is_fdk :: "fs \<Rightarrow> bool" where
  "is_fdk files \<longleftrightarrow> get_device_path files (Some ''FWUP'') \<noteq> None"

definition flash_capsule_fdk :: "sec_version_t \<Rightarrow> (string \<Rightarrow> string) \<Rightarrow> (string \<Rightarrow> bool) \<Rightarrow> buffer option \<Rightarrow> fs \<Rightarrow> (int \<times> fs) option" where
  "flash_capsule_fdk garbage property creatable data files =
    do { iafw_version \<leftarrow> hex_version (property_get property ''sys.ia32.version'' ''00.00'');
         sec_version \<leftarrow> sec_version_of garbage (property_get property ''sys.chaabi.version'' ''00.00'');
         pdr_version \<leftarrow> hex_version (property_get property ''sys.pdr.version'' ''00.00'');
         case data of None \<Rightarrow> Some (- 1, files)
         | Some c \<Rightarrow>
           if length c \<le> CAPSULE_HEADER_SIZE then Some (- 1, files)
           else do {
             capsule_update \<leftarrow> check_capsule c iafw_version sec_version pdr_version;
             if \<not> capsule_update then Some (0, files)
             else case get_device_path files (Some ''FWUP'') of None \<Rightarrow> Some (- 1, files)
               | Some dev_path \<Rightarrow>
                 let (r, files) = file_write creatable dev_path c files in
                 if r \<noteq> 0 then Some (r, files)
                 else Some (file_write creatable CAPSULE_UPDATE_FLAG_PATH [0x31] files) } }"

subsection \<open>The EFI system partition\<close>

text \<open>What \<open>mkdir\<close> and \<open>mount\<close> do: \<open>None\<close> is success, \<open>Some busy\<close> a failure, whether with the error number
  (\<open>EEXIST\<close>, \<open>EBUSY\<close>) that says it has already been done. \<open>mount\<close> also yields the files below the mount point.\<close>

record esp_env =
  esp_mkdir :: "bool option"
  esp_mount :: "string \<Rightarrow> fs \<Rightarrow> bool option \<times> fs"

definition is_edk2 :: "fs \<Rightarrow> bool" where
  "is_edk2 files \<longleftrightarrow> get_device_path files (Some ''ESP'') \<noteq> None"

text \<open>After a successful \<open>mount\<close> the error number is that of an earlier call: \<open>EEXIST\<close> or none, so that the result is
  0 either way.\<close>

definition ensure_esp_mounted :: "esp_env \<Rightarrow> fs \<Rightarrow> int \<times> fs" where
  "ensure_esp_mounted env files =
    (case get_device_path files (Some ''ESP'') of None \<Rightarrow> (- 1, files)
     | Some path \<Rightarrow>
       if esp_mkdir env = Some False then (- 1, files)
       else case esp_mount env path files of
         (Some False, files) \<Rightarrow> (- 1, files)
       | (_, files) \<Rightarrow> (0, files))"

definition CAPSULE_BIN_FILE :: string where "CAPSULE_BIN_FILE = ''/ESP/BiosUpdate.fv''"

definition flash_capsule_esp :: "esp_env \<Rightarrow> (string \<Rightarrow> bool) \<Rightarrow> buffer \<Rightarrow> fs \<Rightarrow> int \<times> fs" where
  "flash_capsule_esp env creatable data files =
    (let (r, files) = ensure_esp_mounted env files in
     if r \<noteq> 0 then (r, files) else file_write creatable CAPSULE_BIN_FILE data files)"

text \<open>The archive functions of \<open>minzip\<close>, which are not part of the sources: opening an archive and extracting it.\<close>

record zip_env =
  mzOpenZipArchive :: "buffer \<Rightarrow> int"
  mzExtractRecursive :: "buffer \<Rightarrow> string \<Rightarrow> fs \<Rightarrow> bool \<times> fs"

definition flash_esp_update :: "esp_env \<Rightarrow> zip_env \<Rightarrow> buffer \<Rightarrow> fs \<Rightarrow> int \<times> fs" where
  "flash_esp_update env zenv data files =
    (let (r, files) = ensure_esp_mounted env files in
     if r \<noteq> 0 then (r, files)
     else if mzOpenZipArchive zenv data \<noteq> 0 then (mzOpenZipArchive zenv data, files)
     else let (success, files) = mzExtractRecursive zenv data ''/ESP'' files in (if success then 0 else 1, files))"

subsection \<open>The search for the tag\<close>

abbreviation (input) "MN2 \<equiv> [0x24, 0x4d, 0x4e, 0x32] :: buffer"

text \<open>The pattern is the word of the last four bytes, the latest one lowest.\<close>

lemma shift_in:
  "push_bit 8 (le_word [z, y, x, w] :: u32) OR ucast b = le_word [b, z, y, x]"
proof -
  have "push_bit 8 (push_bit 8 (push_bit 8 (push_bit 8 (ucast w :: u32)))) = 0"
    by (simp add: push_bit_push_bit)
  then show ?thesis by (simp add: or.commute push_bit_or)
qed

lemma tag_word: "(le_word [z, y, x, w] = CAPSULE_FW_VERSION_TAG) = ([w, x, y, z] = MN2)"
proof -
  have four: "(4 :: nat) = Suc (Suc (Suc (Suc 0)))" by simp
  have t: "le_bytes 4 CAPSULE_FW_VERSION_TAG = rev MN2" unfolding four by (simp add: CAPSULE_FW_VERSION_TAG_def)
  have inj: "le_bytes 4 (le_word [z, y, x, w] :: u32) = [z, y, x, w]" by (rule le_bytes_le_word) simp_all
  show ?thesis
  proof
    assume "le_word [z, y, x, w] = CAPSULE_FW_VERSION_TAG"
    then show "[w, x, y, z] = MN2" using inj t by simp
  next
    assume "[w, x, y, z] = MN2"
    then have "le_bytes 4 (le_word [z, y, x, w] :: u32) = le_bytes 4 CAPSULE_FW_VERSION_TAG" using inj t by simp
    then have "le_word (le_bytes 4 (le_word [z, y, x, w] :: u32)) = (le_word (le_bytes 4 CAPSULE_FW_VERSION_TAG) :: u32)" by (simp only:)
    then show "le_word [z, y, x, w] = CAPSULE_FW_VERSION_TAG" by simp
  qed
qed

text \<open>The bytes before the position, with zeros before the beginning of the region.\<close>

definition window :: "buffer \<Rightarrow> nat \<Rightarrow> nat \<Rightarrow> buffer" where
  "window c start q = seg (q - start) 4 (replicate 4 0 @ drop start c)"

lemma tl_seg: "k < length b \<Longrightarrow> tl (seg k (Suc n) b) = seg (Suc k) n b"
  by (simp add: seg_def flip: Cons_nth_drop_Suc)

lemma find_skip: "find P xs = None \<Longrightarrow> find P (xs @ ys) = find P ys"
  by (induction xs) (auto split: if_splits)

lemma window_simps:
  assumes "start \<le> q" "q < length c"
  shows "length (window c start q) = 4" "window c start (Suc q) = tl (window c start q) @ [c ! q]"
proof -
  let ?z = "replicate 4 0 @ drop start c"
  show l: "length (window c start q) = 4" using assms by (simp add: window_def)
  have "seg (Suc (q - start)) 4 ?z = seg (Suc (q - start)) 3 ?z @ seg (Suc (q - start) + 3) 1 ?z"
    by (subst seg_join) simp_all
  moreover have "tl (seg (q - start) 4 ?z) = seg (Suc (q - start)) 3 ?z"
    using tl_seg [of "q - start" ?z 3] assms by simp
  moreover have "seg (Suc (q - start) + 3) 1 ?z = [c ! q]"
    using assms by (simp add: seg_def take_Suc_conv_app_nth)
  ultimately show "window c start (Suc q) = tl (window c start q) @ [c ! q]"
    using assms by (simp add: window_def Suc_diff_le)
qed

lemma window_start: "window c start start = [0, 0, 0, 0]"
  by (simp add: window_def seg_def numeral_eq_Suc)

lemma window_match:
  assumes "start \<le> q" "q < length c"
  shows "window c start (Suc q) = MN2 \<longleftrightarrow> start + 3 \<le> q \<and> seg (q - 3) 4 c = MN2"
proof (cases "start + 3 \<le> q")
  case True
  then have "window c start (Suc q) = seg (q - 3) 4 c"
    by (simp add: window_def seg_def algebra_simps)
  then show ?thesis using True by simp
next
  case False
  have "Suc q - start < 4" "q < 3 + start" using False by simp_all
  then have "window c start (Suc q) ! 0 = 0" using assms by (simp add: window_def seg_def nth_append)
  then show ?thesis using False by auto
qed

lemma tag_loop_window:
  assumes "start \<le> p" "e \<le> length c"
  shows "tag_loop c e p (le_word (rev (window c start p))) =
    Some (map_option (\<lambda>q. q + 5) (find (\<lambda>q. window c start (Suc q) = MN2) [p..<e]))"
  using assms(1)
proof (induction "e - p" arbitrary: p)
  case 0
  then show ?case by (subst tag_loop.simps) simp
next
  case (Suc n)
  then have p: "p < e" "p < length c" "start \<le> p" using assms(2) by auto
  obtain w x y z where w: "window c start p = [w, x, y, z]"
    using window_simps(1) [OF p(3,2)] by (auto simp: length_Suc_conv numeral_eq_Suc)
  then have s: "window c start (Suc p) = [x, y, z, c ! p]" using window_simps(2) [OF p(3,2)] by simp
  have patt: "push_bit 8 (le_word (rev (window c start p)) :: u32) OR ucast (c ! p) = le_word (rev (window c start (Suc p)))"
    unfolding w s using shift_in [of z y x w "c ! p"] by simp
  have tag: "(le_word (rev (window c start (Suc p))) = CAPSULE_FW_VERSION_TAG) = (window c start (Suc p) = MN2)"
    unfolding s using tag_word [of "c ! p" z y x] by simp
  have "[p..<e] = p # [Suc p..<e]" using p(1) by (simp add: upt_conv_Cons)
  then show ?case
    using p Suc(1) [of "Suc p"] Suc(2) by (subst tag_loop.simps) (simp add: Let_def patt tag)
qed

lemma find_shift:
  assumes "\<And>q. s \<le> q \<Longrightarrow> q < e \<Longrightarrow> Q q \<longleftrightarrow> s + 3 \<le> q \<and> P (q - 3)"
  shows "find Q [s..<e] = map_option (\<lambda>p. p + 3) (find P [s..<e - 3])"
proof (cases "s + 3 \<le> e")
  case True
  have up: "map (\<lambda>p. p + 3) [s..<m] = [s + 3..<m + 3]" for m by (rule nth_equalityI) simp_all
  have "find Q [s..<s + 3] = None" using assms True by (auto simp: find_None_iff)
  moreover have "[s..<e] = [s..<s + 3] @ [s + 3..<e]" using True upt_add_eq_append [of s "s + 3" "e - (s + 3)"] by simp
  ultimately have "find Q [s..<e] = find Q [s + 3..<e]" by (simp add: find_skip)
  moreover have "[s + 3..<e] = map (\<lambda>p. p + 3) [s..<e - 3]" using True up [of "e - 3"] by simp
  moreover have "find Q (map (\<lambda>p. p + 3) xs) = map_option (\<lambda>p. p + 3) (find P xs)" if "set xs \<subseteq> {s..<e - 3}" for xs
    using that assms by (induction xs) auto
  ultimately show ?thesis by auto
next
  case False
  then have "find Q [s..<e] = None" using assms by (auto simp: find_None_iff)
  then show ?thesis using False by simp
qed

lemma tag_search:
  assumes "p \<le> end_ptr" "end_ptr \<le> length c"
  shows "get_fw_version_tag_offset c p end_ptr = Some (map_option (\<lambda>q. q + 8) (find (\<lambda>q. seg q 4 c = MN2) [p..<end_ptr - 3]))"
proof -
  have "le_word (rev (window c p p)) = (0 :: u32)" by (simp add: window_start)
  moreover have "find (\<lambda>q. window c p (Suc q) = MN2) [p..<end_ptr] = map_option (\<lambda>q. q + 3) (find (\<lambda>q. seg q 4 c = MN2) [p..<end_ptr - 3])"
    using assms by (intro find_shift window_match) auto
  ultimately show ?thesis
    using tag_loop_window [of p p end_ptr c] assms by (simp add: get_fw_version_tag_offset_def option.map_comp o_def add.commute)
qed

text \<open>The search for the version tag is a search for the first occurrence: in a region that lies in the capsule, the shift register of
  \<open>get_fw_version_tag_offset\<close> finds the first place at which the four bytes \<open>$MN2\<close> stand, wholly in the region, and the
  pointer it leaves is eight bytes behind it; without one it reports none. It reads only bytes of the region.\<close>

theorem tag_search_finds_first:
  assumes "p \<le> end_ptr" "end_ptr \<le> length c"
  shows "get_fw_version_tag_offset c p end_ptr = Some (map_option (\<lambda>q. q + 8) (find (\<lambda>q. seg q 4 c = MN2) [p..<end_ptr - 3]))"
  using assms by (rule tag_search)


text \<open>The first \<open>$MN2\<close> of a region and the version behind it: two little-endian halves, the high one first.\<close>

definition first_version :: "buffer \<Rightarrow> u32 \<Rightarrow> u32 \<Rightarrow> u32 option" where
  "first_version c off sz =
    map_option (\<lambda>q. push_bit 16 (le_word (seg (q + 8) 2 c)) OR le_word (seg (q + 10) 2 c))
      (find (\<lambda>q. seg q 4 c = MN2) [unat off + SIG_SIZE..<unat off + SIG_SIZE + unat sz - 3])"

text \<open>The region and the eight bytes behind it, into which the version of a tag at its end reaches, lie in the capsule.\<close>

definition region_inside :: "buffer \<Rightarrow> u32 \<Rightarrow> u32 \<Rightarrow> bool" where
  "region_inside c off sz \<longleftrightarrow> unat off + SIG_SIZE + unat sz + 8 \<le> length c"

lemma seg_two: "p + 2 \<le> length c \<Longrightarrow> seg p 2 c = [c ! p, c ! (p + 1)]"
  by (simp add: seg_def numeral_2_eq_2 flip: Cons_nth_drop_Suc)

lemma version_bytes:
  assumes "p + 4 \<le> length c"
  shows "MN2_VER_BYTESREORDER c p = Some (push_bit 16 (le_word (seg p 2 c)) OR le_word (seg (p + 2) 2 c))"
proof -
  have "push_bit 24 x = push_bit 16 (push_bit 8 x)" for x :: u32 by (simp add: push_bit_push_bit)
  moreover have "c ! Suc (Suc (Suc p)) = c ! (p + 3)" by (simp add: numeral_eq_Suc)
  ultimately show ?thesis
    using assms seg_two [of p c] seg_two [of "p + 2" c]
    by (simp add: MN2_VER_BYTESREORDER_def push_bit_or or.commute or.left_commute or.assoc numeral_eq_Suc)
qed

lemma region_version_first:
  assumes "region_inside c off sz"
  shows "region_version c off sz = Some (first_version c off sz)"
proof (cases "sz = 0")
  case True
  then show ?thesis by (simp add: region_version_def first_version_def)
next
  case False
  let ?p = "unat off + SIG_SIZE"
  let ?f = "find (\<lambda>q. seg q 4 c = MN2) [?p..<?p + unat sz - 3]"
  have s: "get_fw_version_tag_offset c ?p (?p + unat sz) = Some (map_option (\<lambda>q. q + 8) ?f)"
    using assms by (intro tag_search) (auto simp: region_inside_def)
  show ?thesis
  proof (cases ?f)
    case None
    then show ?thesis using False s by (simp add: region_version_def first_version_def)
  next
    case (Some q)
    then have "q < ?p + unat sz - 3" by (auto simp: find_Some_iff)
    then have "q + 8 + 4 \<le> length c" using assms by (simp add: region_inside_def)
    then show ?thesis
      using False s Some version_bytes [of "q + 8" c] by (simp add: region_version_def first_version_def add.commute)
  qed
qed

text \<open>When a capsule is to be flashed, whatever its SEC region.\<close>

definition versions_differ :: "buffer \<Rightarrow> u32 \<Rightarrow> u32 \<Rightarrow> bool" where
  "versions_differ c iafw_version pdr_version \<longleftrightarrow>
    (let r = capsule_references c;
         pdr = first_version c (pdr_offset r) (pdr_size r); iafw = first_version c (iafw_stage2_offset r) (iafw_stage2_size r)
     in pdr \<notin> {None, Some pdr_version} \<or> iafw \<notin> {None, Some iafw_version} \<or> pdr = None \<and> iafw = None)"

lemma check_capsule_versions:
  fixes c :: buffer
  defines "r \<equiv> capsule_references c"
  assumes "region_inside c (pdr_offset r) (pdr_size r)" "region_inside c (iafw_stage2_offset r) (iafw_stage2_size r)"
    and "unat (sec_size r) \<le> unat (sec_offset r) + SIG_SIZE"
  shows "check_capsule c iafw_version sec_version pdr_version = Some (versions_differ c iafw_version pdr_version)"
proof -
  have "sec_loop c (unat (sec_size r)) sec_version (unat (sec_offset r) + SIG_SIZE) match = Some (False, match)" for match
    using assms(4) by (subst sec_loop.simps) (simp add: get_fw_version_tag_offset_def tag_loop.simps)
  then show ?thesis
    using region_version_first [OF assms(2)] region_version_first [OF assms(3)]
    unfolding check_capsule_def versions_differ_def r_def [symmetric] by (auto simp: Let_def)
qed

lemma equal_versions_keep:
  assumes "first_version c (pdr_offset (capsule_references c)) (pdr_size (capsule_references c)) = Some pdr_version"
    and "first_version c (iafw_stage2_offset (capsule_references c)) (iafw_stage2_size (capsule_references c)) \<in> {None, Some iafw_version}"
  shows "\<not> versions_differ c iafw_version pdr_version"
  using assms by (auto simp: versions_differ_def Let_def)



theorem tag_search_finds_first_witness:
  "get_fw_version_tag_offset [0, 0x24, 0x24, 0x4d, 0x4e, 0x32, 7] 0 7 = Some (Some 10)"
proof -
  have "[0..<7 - 3] = [0, 1, 2, 3 :: nat]" by (simp add: upt_conv_Cons)
  then show ?thesis using tag_search_finds_first [of 0 7 "[0, 0x24, 0x24, 0x4d, 0x4e, 0x32, 7]"] by (simp add: seg_def)
qed

text \<open>A capsule with an IAFW region of version 0.1, for a device of version 0.0.\<close>

definition sample_refs :: capsule_refs where
  "sample_refs = \<lparr>iafw_stage1_offset = 0, iafw_stage1_size = 0, iafw_stage2_offset = 56, iafw_stage2_size = 4,
     pdr_offset = 0, pdr_size = 0, sec_offset = 0, sec_size = 100\<rparr>"

definition sample_capsule :: buffer where
  "sample_capsule = replicate 576 0 @ enc_refs sample_refs @ MN2 @ [0, 0, 0, 0, 0, 0, 1, 0]"

definition sample_capsule_files :: fs where
  "sample_capsule_files = [''/dev/block/by-name/FWUP'' \<mapsto> block_device 1024]"

definition no_sec_version :: sec_version_t where
  "no_sec_version = \<lparr>val_0 = 0, val_1 = 0, val_2 = 0\<rparr>"

lemma sample_capsule_facts:
  "length sample_capsule = 620" "capsule_references sample_capsule = sample_refs"
  "first_version sample_capsule 0 0 = None" "first_version sample_capsule 56 4 = Some 1"
proof -
  have e: "length (enc_refs sample_refs) = 32" by (simp add: refs.length_enc)
  show "length sample_capsule = 620" by (simp add: sample_capsule_def e)
  have "seg 576 32 sample_capsule = enc_refs sample_refs" by (simp add: sample_capsule_def seg_def e)
  then show "capsule_references sample_capsule = sample_refs" by (simp add: capsule_references_def refs.dec_enc)
  show "first_version sample_capsule 0 0 = None" by (simp add: first_version_def)
  have "seg 608 4 sample_capsule = MN2" "seg 616 2 sample_capsule = [0, 0]" "seg 618 2 sample_capsule = [1, 0]"
    by (simp_all add: sample_capsule_def seg_def e)
  then show "first_version sample_capsule 56 4 = Some 1" by (simp add: first_version_def)
qed


end
