(* ===== verification/Flash_Firmware.thy ===== *)
theory Flash_Firmware
  imports Ifwi_Emmc Ifwi_Ipc Capsule
begin

text \<open>
  The choice of the firmware operations (\<open>flash_ops.c\<close>, the tables of \<open>flash_ops_*.h\<close>) and the functions of \<open>flash.c\<close> for
  firmware and capsules. \<open>build_config\<close> has the configuration of the build, \<open>platform\<close> what the operations need of the
  system: properties, which files can be created or mapped, the driver's \<open>ioctl\<close>, and what \<open>mkdir\<close> and \<open>mount\<close> do.
\<close>

record build_config =
  CONFIG_SCU_IPC :: bool
  CONFIG_SCU_EMMC :: bool
  CONFIG_EDK2 :: bool
  CONFIG_FDK :: bool
  CLVT :: bool

record platform =
  property :: "string \<Rightarrow> string"
  creatable :: "string \<Rightarrow> bool"
  mmap_ok :: "string \<Rightarrow> bool"
  fw_ioctl :: "buffer \<Rightarrow> int"
  esp :: esp_env
  stack_sec_version :: sec_version_t

subsection \<open>The tables\<close>

datatype ifwi_operations = scu_ipc_ifwi_operations | scu_emmc_ifwi_operations

datatype capsule_operations = edk2_capsule_operations | fdk_capsule_operations

definition ifwi_ops :: "build_config \<Rightarrow> platform \<Rightarrow> ifwi_operations option" where
  "ifwi_ops cfg pl =
    (if CONFIG_SCU_IPC cfg \<and> is_scu_ipc (property pl) then Some scu_ipc_ifwi_operations
     else if CONFIG_SCU_EMMC cfg \<and> is_scu_emmc (property pl) then Some scu_emmc_ifwi_operations
     else None)"

definition capsule_ops :: "build_config \<Rightarrow> fs \<Rightarrow> capsule_operations option" where
  "capsule_ops cfg files =
    (if CONFIG_EDK2 cfg \<and> is_edk2 files then Some edk2_capsule_operations
     else if CONFIG_FDK cfg \<and> is_fdk files then Some fdk_capsule_operations
     else None)"

subsection \<open>The functions\<close>

text \<open>\<open>ops_call\<close> for an operation of which the table for the SCU driver has no entry: the stub returns \<open>-1\<close>.\<close>

definition emmc_call :: "build_config \<Rightarrow> platform \<Rightarrow> (fs \<Rightarrow> (int \<times> fs) option) \<Rightarrow> fs \<Rightarrow> (int \<times> fs) option" where
  "emmc_call cfg pl func files =
    (case ifwi_ops cfg pl of
       Some scu_emmc_ifwi_operations \<Rightarrow> func files
     | Some scu_ipc_ifwi_operations \<Rightarrow> Some (- 1, files)
     | None \<Rightarrow> Some (- 1, files))"

definition flash_dnx_timeout :: "build_config \<Rightarrow> platform \<Rightarrow> buffer \<Rightarrow> fs \<Rightarrow> (int \<times> fs) option" where
  "flash_dnx_timeout cfg pl data = emmc_call cfg pl (flash_dnx_timeout_scu_emmc (mmap_ok pl) data)"

definition read_dnx_timeout :: "build_config \<Rightarrow> platform \<Rightarrow> fs \<Rightarrow> (int \<times> fs) option" where
  "read_dnx_timeout cfg pl = emmc_call cfg pl (read_dnx_timeout_scu_emmc (mmap_ok pl))"

definition erase_token_umip :: "build_config \<Rightarrow> platform \<Rightarrow> fs \<Rightarrow> (int \<times> fs) option" where
  "erase_token_umip cfg pl = emmc_call cfg pl (erase_token_umip_scu_emmc (mmap_ok pl))"

definition flash_custom_boot :: "build_config \<Rightarrow> platform \<Rightarrow> buffer \<Rightarrow> fs \<Rightarrow> (int \<times> fs) option" where
  "flash_custom_boot cfg pl data = emmc_call cfg pl (flash_custom_boot_scu_emmc (mmap_ok pl) data)"

definition flash_token_umip :: "build_config \<Rightarrow> platform \<Rightarrow> buffer \<Rightarrow> fs \<Rightarrow> (int \<times> fs) option" where
  "flash_token_umip cfg pl data = emmc_call cfg pl (flash_token_umip_scu_emmc (mmap_ok pl) data)"

definition update_ifwi_file :: "build_config \<Rightarrow> platform \<Rightarrow> buffer \<Rightarrow> fs \<Rightarrow> (int \<times> fs) option" where
  "update_ifwi_file cfg pl data = emmc_call cfg pl (update_ifwi_file_scu_emmc (mmap_ok pl) data)"

definition check_ifwi_file :: "build_config \<Rightarrow> platform \<Rightarrow> buffer \<Rightarrow> fs \<Rightarrow> (int \<times> fs) option" where
  "check_ifwi_file cfg pl data =
    emmc_call cfg pl (\<lambda>files. map_option (\<lambda>r. (r, files)) (check_ifwi_file_scu_emmc data files))"

text \<open>The result and the packet that has been sent to the driver.\<close>

definition update_ifwi_image :: "build_config \<Rightarrow> platform \<Rightarrow> buffer \<Rightarrow> u32 \<Rightarrow> fs \<Rightarrow> (int \<times> buffer option) option" where
  "update_ifwi_image cfg pl data reset_flag files =
    (case ifwi_ops cfg pl of
       Some scu_ipc_ifwi_operations \<Rightarrow> update_ifwi_image_scu_ipc (fw_ioctl pl) data reset_flag files
     | Some scu_emmc_ifwi_operations \<Rightarrow> Some (- 1, None)
     | None \<Rightarrow> Some (- 1, None))"

definition flash_ifwi :: "build_config \<Rightarrow> platform \<Rightarrow> buffer \<Rightarrow> fs \<Rightarrow> (int \<times> fs) option" where
  "flash_ifwi cfg pl data files =
    (case ifwi_ops cfg pl of
       Some scu_ipc_ifwi_operations \<Rightarrow> flash_ifwi_scu_ipc (CLVT cfg) (creatable pl) data files
     | Some scu_emmc_ifwi_operations \<Rightarrow> flash_ifwi_scu_emmc (mmap_ok pl) data files
     | None \<Rightarrow> Some (- 1, files))"

definition flash_dnx :: "build_config \<Rightarrow> platform \<Rightarrow> buffer \<Rightarrow> fs \<Rightarrow> (int \<times> fs) option" where
  "flash_dnx cfg pl data files =
    (case ifwi_ops cfg pl of
       Some scu_ipc_ifwi_operations \<Rightarrow> Some (flash_dnx_scu_ipc (creatable pl) data files)
     | Some scu_emmc_ifwi_operations \<Rightarrow> flash_dnx_scu_emmc data files
     | None \<Rightarrow> Some (- 1, files))"

definition flash_capsule :: "build_config \<Rightarrow> platform \<Rightarrow> buffer \<Rightarrow> fs \<Rightarrow> (int \<times> fs) option" where
  "flash_capsule cfg pl data files =
    (case capsule_ops cfg files of
       Some edk2_capsule_operations \<Rightarrow> Some (flash_capsule_esp (esp pl) (creatable pl) data files)
     | Some fdk_capsule_operations \<Rightarrow> flash_capsule_fdk (stack_sec_version pl) (property pl) (creatable pl) (Some data) files
     | None \<Rightarrow> Some (- 1, files))"

subsection \<open>Properties\<close>

lemma check_ifwi_file_cong:
  "files' DEVICE_NAME = files DEVICE_NAME \<Longrightarrow> files' DEVICE_NAME_ALT = files DEVICE_NAME_ALT \<Longrightarrow>
    check_ifwi_file_scu_emmc data files' = check_ifwi_file_scu_emmc data files"
  unfolding check_ifwi_file_scu_emmc_def get_current_fw_rev_long_def read_fw_revision_def by (simp only:)

lemma device_name_not_boot:
  "DEVICE_NAME \<noteq> boot_partition_path i" "DEVICE_NAME \<noteq> boot_force_ro_path i"
  "DEVICE_NAME_ALT \<noteq> boot_partition_path i" "DEVICE_NAME_ALT \<noteq> boot_force_ro_path i"
  by (simp_all add: DEVICE_NAME_def DEVICE_NAME_ALT_def boot_partition_path_def boot_force_ro_path_def)

lemma token_area_no_checksum: "TOKEN_UMIP_AREA_OFFSET \<le> j \<Longrightarrow> j < TOKEN_UMIP_AREA_OFFSET + TOKEN_UMIP_AREA_SIZE \<Longrightarrow> \<not> checksum_place j"
  by (simp add: checksum_place_def)

text \<open>C16: Tokens survive a firmware update. On a device that keeps the firmware in its boot partitions, when the tokens (at least as many
  bytes as their area has) have been flashed and then an image of the device's own version and type, and of at least the size of the
  firmware area, is flashed, both operations succeed and both partitions hold the tokens, an
  image with valid checksums, and elsewhere the bytes of the new image.\<close>

theorem tokens_survive_ifwi_update:
  assumes cfg: "ifwi_ops cfg pl = Some scu_emmc_ifwi_operations"
    and parts: "boot_writable (mmap_ok pl) 0 files" "boot_writable (mmap_ok pl) 1 files"
    and tok: "TOKEN_UMIP_AREA_SIZE \<le> length tokens_data"
    and img: "check_ifwi_file_scu_emmc fw files = Some 1" "BOOT_IFWI_SIZE \<le> length fw"
  shows "\<exists>files1 files2. flash_token_umip cfg pl tokens_data files = Some (0, files1) \<and>
    flash_ifwi cfg pl fw files1 = Some (0, files2) \<and>
    (\<forall>i<2. \<exists>d. files2 (boot_partition_path i) = Some d \<and> ifwi_checked (take BOOT_IFWI_SIZE (bytes d)) \<and>
      (\<forall>j<BOOT_IFWI_SIZE. \<not> checksum_place j \<longrightarrow>
        bytes d ! j = (if 0x4000 \<le> j \<and> j < 0x6C00 then tokens_data ! (j - 0x4000) else fw ! j)))"
proof -
  obtain files1 where w1: "write_umip_emmc (mmap_ok pl) TOKEN_UMIP_AREA_OFFSET (Some tokens_data) TOKEN_UMIP_AREA_SIZE files = Some (0, files1)"
    using write_umip_succeeds [OF parts, of TOKEN_UMIP_AREA_OFFSET TOKEN_UMIP_AREA_SIZE "Some tokens_data"] tok
    by (auto simp: umip_data_def)
  have p1: "boot_writable (mmap_ok pl) 0 files1" "boot_writable (mmap_ok pl) 1 files1"
    using write_umip_writable [OF w1] parts by simp_all
  obtain files2 where w2: "write_umip_emmc (mmap_ok pl) IFWI_OFFSET (Some fw) BOOT_IFWI_SIZE files1 = Some (0, files2)"
    using write_umip_succeeds [OF p1, of IFWI_OFFSET BOOT_IFWI_SIZE "Some fw"] img(2) by (auto simp: umip_data_def)
  have "min (length fw) BOOT_IFWI_SIZE = BOOT_IFWI_SIZE" using img(2) by simp
  then have "write_umip_emmc (mmap_ok pl) IFWI_OFFSET (Some fw) (length fw) files1 =
      write_umip_emmc (mmap_ok pl) IFWI_OFFSET (Some fw) BOOT_IFWI_SIZE files1"
    by (simp add: write_umip_emmc_def)
  moreover have "check_ifwi_file_scu_emmc fw files1 = Some 1"
    using img(1) check_ifwi_file_cong [of files1 files fw] write_umip_frame [OF w1] device_name_not_boot by metis
  ultimately have f2: "flash_ifwi cfg pl fw files1 = Some (0, files2)"
    using cfg w2 by (simp add: flash_ifwi_def flash_ifwi_scu_emmc_def update_ifwi_file_scu_emmc_def)
  have f1: "flash_token_umip cfg pl tokens_data files = Some (0, files1)"
    using cfg w1 by (simp add: flash_token_umip_def emmc_call_def flash_token_umip_scu_emmc_def)
  have "\<exists>d. files2 (boot_partition_path i) = Some d \<and> ifwi_checked (take BOOT_IFWI_SIZE (bytes d)) \<and>
      (\<forall>j<BOOT_IFWI_SIZE. \<not> checksum_place j \<longrightarrow>
        bytes d ! j = (if 0x4000 \<le> j \<and> j < 0x6C00 then tokens_data ! (j - 0x4000) else fw ! j))" if i: "i < 2" for i
  proof -
    obtain d0 d1 :: blkdev where d1: "files1 (boot_partition_path i) = Some d1"
        "\<forall>j<BOOT_IFWI_SIZE. \<not> checksum_place j \<longrightarrow>
          bytes d1 ! j = requested_byte TOKEN_UMIP_AREA_OFFSET (Some tokens_data) TOKEN_UMIP_AREA_SIZE (bytes d0) j"
      using umip_written [OF w1 i] by simp blast
    obtain d2 :: blkdev where d2: "files2 (boot_partition_path i) = Some d2" "ifwi_checked (take BOOT_IFWI_SIZE (bytes d2))"
        "\<forall>j<BOOT_IFWI_SIZE. \<not> checksum_place j \<longrightarrow> bytes d2 ! j = requested_byte IFWI_OFFSET (Some fw) BOOT_IFWI_SIZE (bytes d1) j"
      using umip_written [OF w2 i] d1(1) by simp blast
    show ?thesis using d1(2) d2 by (auto simp: requested_byte_def)
  qed
  then show ?thesis using f1 f2 by blast
qed

text \<open>A device of version 0.0 and an image of that version.\<close>

definition sample_fw :: buffer where
  "sample_fw = le_bytes 4 FIP_PATTERN @ replicate 0x3FFFFC 0"

definition sample_platform :: platform where
  "sample_platform = \<lparr>property = (\<lambda>_. ''1''), creatable = (\<lambda>_. False), mmap_ok = (\<lambda>_. True), fw_ioctl = (\<lambda>_. 0),
     esp = \<lparr>esp_mkdir = None, esp_mount = (\<lambda>_ files. (None, files))\<rparr>, stack_sec_version = no_sec_version\<rparr>"

definition sample_config :: build_config where
  "sample_config = \<lparr>CONFIG_SCU_IPC = False, CONFIG_SCU_EMMC = True, CONFIG_EDK2 = False, CONFIG_FDK = True, CLVT = False\<rparr>"

definition sample_fw_files :: fs where
  "sample_fw_files = sample_boot_files(DEVICE_NAME \<mapsto> empty_file)"

lemma windows_zero: "windows n (replicate m 0) = []"
proof (induction m rule: less_induct)
  case (less m)
  show ?case
  proof (cases "m < n \<or> n < 4")
    case True
    then show ?thesis by (subst windows.simps) simp
  next
    case False
    then have "seg 0 4 (replicate m 0) = replicate 4 (0 :: byte)" by (simp add: seg_def min_def)
    moreover have "replicate 4 (0 :: byte) = [0, 0, 0, 0]" by (simp add: numeral_eq_Suc)
    then have "le_word (replicate 4 0) \<noteq> FIP_PATTERN" by (simp add: FIP_PATTERN_def)
    ultimately show ?thesis using False less [of "m - 4"] by (subst windows.simps) simp
  qed
qed

lemma sample_fw_rev: "get_image_fw_rev_long sample_fw = (0, no_versions_long)"
proof -
  let ?h = "take 352 sample_fw"
  have z: "drop 4 sample_fw = replicate 0x3FFFFC 0" "length sample_fw = 0x400000" by (simp_all add: sample_fw_def)
  have "seg 0 4 sample_fw = le_bytes 4 FIP_PATTERN" by (simp add: sample_fw_def seg_def)
  then have "windows 352 sample_fw = [?h]"
    using z windows_zero [of 352 "0x3FFFFC"] by (subst windows.simps) simp
  then have r: "get_image_fw_rev_long sample_fw = (0, merge_fip_long no_versions_long ?h)"
    by (simp add: get_image_fw_rev_long_def fip_loop_windows)
  have "seg off 2 ?h = [0, 0]" if "4 \<le> off" "off + 2 \<le> 352" for off
    using that by (simp add: seg_def sample_fw_def min_def numeral_2_eq_2)
  then have "newer_long ?h off no_version_long = no_version_long" if "4 \<le> off" "off + 4 \<le> 352" for off
    using that by (simp add: newer_long_def no_version_long_def)
  then show ?thesis by (simp add: r merge_fip_long_def no_versions_long_def)
qed

theorem tokens_survive_ifwi_update_witness:
  "\<exists>files1 files2 d. flash_token_umip sample_config sample_platform (replicate 0x2C00 7) sample_fw_files = Some (0, files1) \<and>
    flash_ifwi sample_config sample_platform sample_fw files1 = Some (0, files2) \<and>
    files2 (boot_partition_path 0) = Some d \<and> ifwi_checked (take BOOT_IFWI_SIZE (bytes d)) \<and> bytes d ! 0x4000 = 7"
proof -
  let ?pl = sample_platform
  have cfg: "ifwi_ops sample_config ?pl = Some scu_emmc_ifwi_operations"
    by (simp add: ifwi_ops_def sample_config_def sample_platform_def is_scu_emmc_def)
  have parts: "boot_writable (mmap_ok ?pl) 0 sample_fw_files" "boot_writable (mmap_ok ?pl) 1 sample_fw_files"
    by (simp_all add: boot_writable_def sample_fw_files_def sample_boot_files_def boot_partition_path_def boot_force_ro_path_def
        sample_dev_def dev_write_def sample_platform_def DEVICE_NAME_def)
  have "dev_read empty_file 0 255 = Some []" by (simp add: dev_read_def empty_file_def seg_def)
  then have "read_fw_revision sample_fw_files 32 = Some (0, replicate 32 0)"
    by (simp add: read_fw_revision_def sample_fw_files_def tokens_def)
  then have "get_current_fw_rev_long sample_fw_files = Some (0, Some no_versions_long)"
    by (simp add: get_current_fw_rev_long_def version_long_at_def no_versions_long_def no_version_long_def)
  then have chk: "check_ifwi_file_scu_emmc sample_fw sample_fw_files = Some 1"
    by (simp add: check_ifwi_file_scu_emmc_def sample_fw_rev)
  have len: "TOKEN_UMIP_AREA_SIZE \<le> length (replicate 0x2C00 (7 :: byte))" "BOOT_IFWI_SIZE \<le> length sample_fw"
    by (simp_all add: sample_fw_def)
  obtain files1 files2 where f: "flash_token_umip sample_config ?pl (replicate 0x2C00 7) sample_fw_files = Some (0, files1)"
      "flash_ifwi sample_config ?pl sample_fw files1 = Some (0, files2)"
      "\<forall>i<2. \<exists>d. files2 (boot_partition_path i) = Some d \<and> ifwi_checked (take BOOT_IFWI_SIZE (bytes d)) \<and>
        (\<forall>j<BOOT_IFWI_SIZE. \<not> checksum_place j \<longrightarrow>
          bytes d ! j = (if 0x4000 \<le> j \<and> j < 0x6C00 then replicate 0x2C00 7 ! (j - 0x4000) else sample_fw ! j))"
    using tokens_survive_ifwi_update [OF cfg parts len(1) chk len(2)] by blast
  obtain d :: blkdev where d: "files2 (boot_partition_path 0) = Some d" "ifwi_checked (take BOOT_IFWI_SIZE (bytes d))"
      "\<forall>j<BOOT_IFWI_SIZE. \<not> checksum_place j \<longrightarrow>
        bytes d ! j = (if 0x4000 \<le> j \<and> j < 0x6C00 then replicate 0x2C00 7 ! (j - 0x4000) else sample_fw ! j)"
    using spec [OF f(3), of 0] by auto
  have "bytes d ! 0x4000 = 7" using d(3) [rule_format, of "0x4000"] by (simp add: checksum_place_def)
  with f d(1,2) show ?thesis by blast
qed

end
