(* ===== verification/Bootloader.thy ===== *)
theory Bootloader
  imports Stdio
begin

text \<open>
  The bootloader image (\<open>bootloader.c\<close>): a header and a sequence of components, each with a magic, a size and a flag, and the
  function that flashes the flagged ones in the order of their kinds; and the firmware of the ULPMC (\<open>ulpmc.c\<close>). The function
  \<open>aboot_flash\<close> of droidboot, which looks up the flash command of a name, is not part of the sources and is an argument.
  Pointers are offsets into the image; with the 32-bit pointers of the device they wrap around, so that a walk may go on for
  ever, which is the result \<open>None\<close>, as is an access outside the image.
\<close>

unbundle bit_operations_syntax

subsection \<open>The image\<close>

record component_hdr =
  c_magic :: "byte list"
  c_size :: u32
  c_flags :: byte
  c_reserved :: "byte list"

definition enc_component :: "component_hdr \<Rightarrow> buffer" where
  [codec_defs]: "enc_component h = c_magic h @ le_bytes 4 (c_size h) @ [c_flags h] @ c_reserved h"

definition dec_component :: "buffer \<Rightarrow> component_hdr" where
  [codec_defs]: "dec_component b = \<lparr>c_magic = seg 0 8 b, c_size = le_word (seg 8 4 b), c_flags = b ! 12, c_reserved = seg 13 3 b\<rparr>"

definition component_wf :: "component_hdr \<Rightarrow> bool" where
  "component_wf h \<longleftrightarrow> length (c_magic h) = 8 \<and> length (c_reserved h) = 3"

interpretation ch: struct_codec enc_component dec_component 16 component_wf
proof
  fix x :: component_hdr
  assume wf: "component_wf x"
  show "length (enc_component x) = 16" using wf by (simp add: enc_component_def component_wf_def)
  show "dec_component (enc_component x) = x"
    using wf by (simp add: enc_component_def dec_component_def component_wf_def buf_simps nth_append del: append_Cons)
next
  fix bs :: buffer
  assume len: "length bs = 16"
  show "enc_component (dec_component bs) = bs" using len by (simp add: enc_component_def dec_component_def buf_simps)
  show "component_wf (dec_component bs)" using len by (simp add: component_wf_def dec_component_def)
qed

abbreviation (input) "HDR_SIZE \<equiv> 16 :: nat"

definition to_bytes :: "string \<Rightarrow> buffer" where
  "to_bytes s = map of_char s"

definition BOOTLOADER_MAGIC :: buffer where "BOOTLOADER_MAGIC = to_bytes ''BOOTLDR!''"
definition DROIDBOOT_MAGIC :: buffer where "DROIDBOOT_MAGIC = to_bytes ''DROIDBT!''"
definition IFWI_MAGIC :: buffer where "IFWI_MAGIC = to_bytes ''IFWI!!!!''"
definition SPLASHSCREEN_MAGIC :: buffer where "SPLASHSCREEN_MAGIC = to_bytes ''SPLASHS!''"
definition CAPSULE_MAGIC :: buffer where "CAPSULE_MAGIC = to_bytes ''CAPSULE!''"
definition ESP_MAGIC :: buffer where "ESP_MAGIC = to_bytes ''ESP!!!!!''"

subsection \<open>The walk\<close>

definition component_at :: "buffer \<Rightarrow> u32 \<Rightarrow> component_hdr option" where
  "component_at data p = (if unat p + HDR_SIZE \<le> length data then Some (dec_component (seg (unat p) 16 data)) else None)"

text \<open>The result and the new \<open>c_hdr\<close>; \<open>None\<close> for \<open>c_hdr\<close> is the null pointer.\<close>

definition next_component :: "buffer \<Rightarrow> u32 option \<Rightarrow> (bool \<times> u32) option" where
  "next_component data c_hdr =
    (case c_hdr of None \<Rightarrow> Some (True, 16)
     | Some p \<Rightarrow> do { h \<leftarrow> component_at data p; let q = p + 16 + c_size h; Some (unat q < length data, q) })"

text \<open>\<open>Some None\<close> is the end of the walk.\<close>

partial_function (option) next_component_filter :: "buffer \<Rightarrow> buffer \<Rightarrow> u32 option \<Rightarrow> u32 option option" where
  "next_component_filter data magic c_hdr =
    do { (more, p) \<leftarrow> next_component data c_hdr;
         if \<not> more then Some None
         else do { h \<leftarrow> component_at data p;
                   if c_magic h = magic \<and> c_flags h AND 1 \<noteq> 0 then Some (Some p)
                   else next_component_filter data magic (Some p) } }"

text \<open>The loop over the components of one kind: \<open>Inl\<close> is a return from the function, \<open>Inr\<close> the values of \<open>present\<close>,
  \<open>flashed\<close> and \<open>ret\<close> after it. \<open>EPERM\<close> is 1.\<close>

partial_function (option) flash_kind ::
  "(string \<Rightarrow> buffer \<Rightarrow> 's \<Rightarrow> int \<times> 's) \<Rightarrow> buffer \<Rightarrow> buffer \<Rightarrow> string \<Rightarrow> u32 option \<Rightarrow> bool \<times> bool \<times> int \<Rightarrow> 's \<Rightarrow>
    ((int + bool \<times> bool \<times> int) \<times> 's) option" where
  "flash_kind aboot_flash data magic name c_hdr vars s =
    do { found \<leftarrow> next_component_filter data magic c_hdr;
         case found of None \<Rightarrow> Some (Inr vars, s)
         | Some p \<Rightarrow>
           do { h \<leftarrow> component_at data p;
                if length data < unat p + HDR_SIZE + unat (c_size h) then None
                else let (ret, s) = aboot_flash name (seg (unat p + HDR_SIZE) (unat (c_size h)) data) s in
                  if ret \<noteq> 0 \<and> ret \<noteq> - 1 then Some (Inl ret, s)
                  else flash_kind aboot_flash data magic name (Some p) (True, fst (snd vars) \<or> ret = 0, ret) s } }"

fun flash_kinds ::
  "(string \<Rightarrow> buffer \<Rightarrow> 's \<Rightarrow> int \<times> 's) \<Rightarrow> buffer \<Rightarrow> (buffer \<times> string) list \<Rightarrow> int \<Rightarrow> 's \<Rightarrow> (int \<times> 's) option" where
  "flash_kinds aboot_flash data [] ret s = Some (0, s)"
| "flash_kinds aboot_flash data ((magic, name) # kinds) ret s =
    do { (r, s) \<leftarrow> flash_kind aboot_flash data magic name None (False, False, ret) s;
         case r of Inl ret \<Rightarrow> Some (ret, s)
         | Inr (present, flashed, ret) \<Rightarrow>
           if present \<and> \<not> flashed \<and> name = ''fastboot'' then Some (ret, s)
           else flash_kinds aboot_flash data kinds ret s }"

definition kinds :: "(buffer \<times> string) list" where
  "kinds = [(DROIDBOOT_MAGIC, ''fastboot''), (IFWI_MAGIC, ''ifwi''), (SPLASHSCREEN_MAGIC, ''splashscreen''),
     (CAPSULE_MAGIC, ''capsule''), (ESP_MAGIC, ''esp_update'')]"

definition flash_bootloader :: "(string \<Rightarrow> buffer \<Rightarrow> 's \<Rightarrow> int \<times> 's) \<Rightarrow> buffer \<Rightarrow> 's \<Rightarrow> (int \<times> 's) option" where
  "flash_bootloader aboot_flash data s =
    (if length data < HDR_SIZE then Some (- 1, s)
     else if take 8 data \<noteq> BOOTLOADER_MAGIC then Some (- 1, s)
     else flash_kinds aboot_flash data kinds (- 1) s)"

definition flash_ulpmc :: "(string \<Rightarrow> bool) \<Rightarrow> buffer \<Rightarrow> fs \<Rightarrow> int \<times> fs" where
  "flash_ulpmc creatable data files =
    (let (r, files) = file_write creatable ''/dev/ulpmc-fwupdate'' data files in (if r \<noteq> 0 then - 1 else 0, files))"

subsection \<open>Images as lists of components\<close>

type_synonym component = "component_hdr \<times> buffer"

definition component_ok :: "component \<Rightarrow> bool" where
  "component_ok c \<longleftrightarrow> component_wf (fst c) \<and> length (snd c) < 2 ^ 32 \<and> c_size (fst c) = of_nat (length (snd c))"

definition enc_components :: "component list \<Rightarrow> buffer" where
  "enc_components cs = concat (map (\<lambda>c. enc_component (fst c) @ snd c) cs)"

text \<open>The components of one kind that are to be flashed.\<close>

definition flagged :: "buffer \<Rightarrow> component list \<Rightarrow> buffer list" where
  "flagged magic cs = map snd (filter (\<lambda>c. c_magic (fst c) = magic \<and> bit (c_flags (fst c)) 0) cs)"

text \<open>Flashing a list of payloads under one name.\<close>

fun flash_list :: "(string \<Rightarrow> buffer \<Rightarrow> 's \<Rightarrow> int \<times> 's) \<Rightarrow> string \<Rightarrow> buffer list \<Rightarrow> bool \<times> bool \<times> int \<Rightarrow> 's \<Rightarrow>
    (int + bool \<times> bool \<times> int) \<times> 's" where
  "flash_list flash name [] vars s = (Inr vars, s)"
| "flash_list flash name (b # bs) vars s =
    (let (ret, s) = flash name b s in
     if ret \<noteq> 0 \<and> ret \<noteq> - 1 then (Inl ret, s) else flash_list flash name bs (True, fst (snd vars) \<or> ret = 0, ret) s)"

fun flash_spec :: "(string \<Rightarrow> buffer \<Rightarrow> 's \<Rightarrow> int \<times> 's) \<Rightarrow> component list \<Rightarrow> (buffer \<times> string) list \<Rightarrow> int \<Rightarrow> 's \<Rightarrow> int \<times> 's" where
  "flash_spec flash cs [] ret s = (0, s)"
| "flash_spec flash cs ((magic, name) # ks) ret s =
    (case flash_list flash name (flagged magic cs) (False, False, ret) s of
       (Inl ret, s) \<Rightarrow> (ret, s)
     | (Inr (present, flashed, ret), s) \<Rightarrow>
         if present \<and> \<not> flashed \<and> name = ''fastboot'' then (ret, s) else flash_spec flash cs ks ret s)"

lemma enc_components_simps [simp]:
  "enc_components [] = []" "enc_components (c # cs) = enc_component (fst c) @ snd c @ enc_components cs"
  by (simp_all add: enc_components_def)

lemma unat_offset: "k \<le> n \<Longrightarrow> n < 2 ^ 32 \<Longrightarrow> unat (of_nat k :: u32) = k"
  by (simp add: unat_of_nat take_bit_nat_eq_self)

text \<open>What stands at the offset of a component.\<close>

lemma component_here:
  assumes "data = pre @ enc_components (c # cs)" "component_ok c" "length data < 2 ^ 32"
  defines "p \<equiv> of_nat (length pre) :: u32"
  shows "unat p = length pre" "component_at data p = Some (fst c)" "unat (c_size (fst c)) = length (snd c)"
    "seg (unat p + HDR_SIZE) (length (snd c)) data = snd c"
    "next_component data (Some p) = Some (cs \<noteq> [], of_nat (length (pre @ enc_component (fst c) @ snd c)))"
proof -
  have wf: "component_wf (fst c)" "length (snd c) < 2 ^ 32" "c_size (fst c) = of_nat (length (snd c))"
    using assms(2) by (simp_all add: component_ok_def)
  have len: "length (enc_component (fst c)) = 16" by (rule ch.length_enc [OF wf(1)])
  have n: "length data = length pre + 16 + length (snd c) + length (enc_components cs)" using assms(1) len by simp
  show p: "unat p = length pre" unfolding p_def using assms(1,3) by (intro unat_offset [where n = "length data"]) simp_all
  show sz: "unat (c_size (fst c)) = length (snd c)" unfolding wf(3) using wf(2) by (intro unat_offset [where n = "length (snd c)"]) simp_all
  have "seg (length pre) 16 data = enc_component (fst c)" using assms(1) len by (simp add: seg_def)
  then show at: "component_at data p = Some (fst c)"
    using n p by (simp add: component_at_def ch.dec_enc [OF wf(1)])
  show "seg (unat p + HDR_SIZE) (length (snd c)) data = snd c" unfolding p using assms(1) len by (simp add: seg_def)
  have q: "p + 16 + c_size (fst c) = of_nat (length (pre @ enc_component (fst c) @ snd c))"
    by (simp add: p_def wf(3) len)
  have "unat (of_nat (length (pre @ enc_component (fst c) @ snd c)) :: u32) = length pre + 16 + length (snd c)"
    using assms(3) n len by (subst unat_offset [where n = "length data"]) simp_all
  moreover have "enc_components cs \<noteq> [] \<longleftrightarrow> cs \<noteq> []" if "\<forall>c \<in> set cs. True"
  proof (cases cs)
    case (Cons d ds)
    then show ?thesis by (simp add: enc_component_def)
  qed simp
  ultimately show "next_component data (Some p) = Some (cs \<noteq> [], of_nat (length (pre @ enc_component (fst c) @ snd c)))"
    using at q n by (simp add: next_component_def Let_def)
qed

lemma and_1_bit: "(x AND 1 \<noteq> 0) = bit x 0" for x :: byte
  by (simp add: and_one_eq bit_0 odd_iff_mod_2_eq_one)

text \<open>From any place before the components \<open>cs\<close> the search stops at the first one of the kind that is flagged.\<close>

lemma filter_finds:
  assumes "next_component data c_hdr = Some (cs \<noteq> [], of_nat (length pre))" "data = pre @ enc_components cs"
    and "list_all component_ok cs" "length data < 2 ^ 32"
  shows "flagged magic cs = [] \<and> next_component_filter data magic c_hdr = Some None \<or>
    (\<exists>pre' c cs'. data = pre' @ enc_components (c # cs') \<and> list_all component_ok (c # cs') \<and> length cs' < length cs \<and>
      next_component_filter data magic c_hdr = Some (Some (of_nat (length pre'))) \<and> flagged magic cs = snd c # flagged magic cs')"
  using assms
proof (induction cs arbitrary: c_hdr pre)
  case Nil
  then show ?case by (subst next_component_filter.simps) (simp add: flagged_def)
next
  case (Cons c cs)
  have ok: "component_ok c" "list_all component_ok cs" using Cons.prems(3) by simp_all
  note h = component_here [OF Cons.prems(2) ok(1) Cons.prems(4)]
  let ?hit = "c_magic (fst c) = magic \<and> c_flags (fst c) AND 1 \<noteq> 0"
  have step: "next_component_filter data magic c_hdr =
      (if ?hit then Some (Some (of_nat (length pre))) else next_component_filter data magic (Some (of_nat (length pre))))"
    using Cons.prems(1) h(2) by (subst next_component_filter.simps) simp
  show ?case
  proof (cases ?hit)
    case True
    then have "flagged magic (c # cs) = snd c # flagged magic cs" by (simp add: flagged_def and_1_bit)
    then show ?thesis using True step Cons.prems(2,3) by (intro disjI2 exI [of _ pre] exI [of _ c] exI [of _ cs]) simp
  next
    case False
    have d: "data = (pre @ enc_component (fst c) @ snd c) @ enc_components cs" using Cons.prems(2) by simp
    have fl: "flagged magic (c # cs) = flagged magic cs" using False by (auto simp: flagged_def and_1_bit)
    have e: "next_component_filter data magic c_hdr = next_component_filter data magic (Some (of_nat (length pre)))"
      using step False by (simp only: if_False)
    have "length cs' < length (c # cs)" if "length cs' < length cs" for cs' :: "component list" using that by simp
    then show ?thesis using Cons.IH [OF h(5) d ok(2) Cons.prems(4)] unfolding fl e by blast
  qed
qed

lemma flash_kind_list:
  assumes "next_component data c_hdr = Some (cs \<noteq> [], of_nat (length pre))" "data = pre @ enc_components cs"
    and "list_all component_ok cs" "length data < 2 ^ 32"
  shows "flash_kind flash data magic name c_hdr vars s = Some (flash_list flash name (flagged magic cs) vars s)"
  using assms
proof (induction "length cs" arbitrary: cs c_hdr pre vars s rule: less_induct)
  case less
  from filter_finds [OF less.prems, of magic] show ?case
  proof (elim disjE exE conjE)
    assume "flagged magic cs = []" "next_component_filter data magic c_hdr = Some None"
    then show ?thesis by (subst flash_kind.simps) simp
  next
    fix pre' c cs'
    assume a: "data = pre' @ enc_components (c # cs')" "list_all component_ok (c # cs')" "length cs' < length cs"
      "next_component_filter data magic c_hdr = Some (Some (of_nat (length pre')))" "flagged magic cs = snd c # flagged magic cs'"
    then have ok: "component_ok c" "list_all component_ok cs'" by simp_all
    note h = component_here [OF a(1) ok(1) less.prems(4)]
    have d: "data = (pre' @ enc_component (fst c) @ snd c) @ enc_components cs'" using a(1) by simp
    have len: "length pre' + HDR_SIZE + length (snd c) \<le> length data"
      using a(1) ok(1) ch.length_enc [of "fst c"] by (simp add: component_ok_def)
    obtain ret s' where f: "flash name (snd c) s = (ret, s')" by fastforce
    have "flash_kind flash data magic name (Some (of_nat (length pre'))) v s' =
        Some (flash_list flash name (flagged magic cs') v s')" for v
      by (rule less.hyps [OF a(3) h(5) d ok(2) less.prems(4)])
    then show ?thesis
      using a(4,5) h(1-4) len f by (subst flash_kind.simps) (simp add: Let_def)
  qed
qed

lemma flash_kinds_spec:
  assumes "data = hdr @ enc_components cs" "length hdr = HDR_SIZE" "cs \<noteq> []" "list_all component_ok cs" "length data < 2 ^ 32"
  shows "flash_kinds flash data ks ret s = Some (flash_spec flash cs ks ret s)"
proof (induction ks arbitrary: ret s)
  case (Cons k ks)
  obtain magic name where k: "k = (magic, name)" by fastforce
  have "next_component data None = Some (cs \<noteq> [], of_nat (length hdr))" using assms(2,3) by (simp add: next_component_def)
  then have "flash_kind flash data magic name None (False, False, ret) s = Some (flash_list flash name (flagged magic cs) (False, False, ret) s)"
    by (rule flash_kind_list [OF _ assms(1,4,5)])
  then show ?case using Cons.IH by (auto simp: k split: prod.splits sum.splits)
qed simp

subsection \<open>Properties\<close>

text \<open>C22: A bootloader image is flashed component by component. For an image that is a header with the right magic and any sequence of
  components, at least one, whose sizes are those of their contents, \<open>flash_bootloader\<close> returns, and it has called
  \<open>aboot_flash\<close> on exactly the flagged components, kind by kind in the order of the table and in the order of the image
  within a kind, with their contents and the name of the kind; the first error other than \<open>-EPERM\<close> ends it with that result, and so
  does a droidboot of which no version could be flashed.\<close>

theorem bootloader_flashes_components:
  assumes "length hdr = HDR_SIZE" "take 8 hdr = BOOTLOADER_MAGIC" "cs \<noteq> []" "list_all component_ok cs"
    and "length (hdr @ enc_components cs) < 2 ^ 32"
  shows "flash_bootloader aboot_flash (hdr @ enc_components cs) s = Some (flash_spec aboot_flash cs kinds (- 1) s)"
  using assms flash_kinds_spec [OF refl assms(1,3,4,5)] by (simp add: flash_bootloader_def)

text \<open>An image of an IFWI and a droidboot, and a flash function that records its calls.\<close>

definition sample_components :: "component list" where
  "sample_components =
    [(\<lparr>c_magic = IFWI_MAGIC, c_size = 2, c_flags = 1, c_reserved = [0, 0, 0]\<rparr>, [1, 2]),
     (\<lparr>c_magic = CAPSULE_MAGIC, c_size = 1, c_flags = 0, c_reserved = [0, 0, 0]\<rparr>, [9]),
     (\<lparr>c_magic = DROIDBOOT_MAGIC, c_size = 1, c_flags = 1, c_reserved = [0, 0, 0]\<rparr>, [3])]"

theorem bootloader_flashes_components_witness:
  "flash_bootloader (\<lambda>name b log. (0, log @ [(name, b)])) (BOOTLOADER_MAGIC @ replicate 8 0 @ enc_components sample_components) [] =
    Some (0, [(''fastboot'', [3]), (''ifwi'', [1, 2])])"
proof -
  have m: "length BOOTLOADER_MAGIC = 8" "length IFWI_MAGIC = 8" "length CAPSULE_MAGIC = 8" "length DROIDBOOT_MAGIC = 8"
    by (simp_all add: BOOTLOADER_MAGIC_def IFWI_MAGIC_def CAPSULE_MAGIC_def DROIDBOOT_MAGIC_def to_bytes_def)
  have ok: "list_all component_ok sample_components" "sample_components \<noteq> []"
    by (simp_all add: sample_components_def component_ok_def component_wf_def m)
  have len: "length ((BOOTLOADER_MAGIC @ replicate 8 0) @ enc_components sample_components) < 2 ^ 32"
    by (simp add: sample_components_def enc_component_def m)
  have d: "DROIDBOOT_MAGIC \<noteq> IFWI_MAGIC" "DROIDBOOT_MAGIC \<noteq> CAPSULE_MAGIC" "IFWI_MAGIC \<noteq> CAPSULE_MAGIC"
      "SPLASHSCREEN_MAGIC \<notin> {IFWI_MAGIC, CAPSULE_MAGIC, DROIDBOOT_MAGIC}" "ESP_MAGIC \<notin> {IFWI_MAGIC, CAPSULE_MAGIC, DROIDBOOT_MAGIC}"
    by (simp_all add: IFWI_MAGIC_def CAPSULE_MAGIC_def DROIDBOOT_MAGIC_def SPLASHSCREEN_MAGIC_def ESP_MAGIC_def to_bytes_def)
  have f: "flagged DROIDBOOT_MAGIC sample_components = [[3]]" "flagged IFWI_MAGIC sample_components = [[1, 2]]"
      "flagged SPLASHSCREEN_MAGIC sample_components = []" "flagged CAPSULE_MAGIC sample_components = []"
      "flagged ESP_MAGIC sample_components = []"
    using d by (auto simp: flagged_def sample_components_def)
  show ?thesis
    using bootloader_flashes_components [OF _ _ ok(2,1) len, of "\<lambda>name b log. (0, log @ [(name, b)])" "[]"] m(1)
    by (simp add: kinds_def f)
qed

text \<open>The walk does not end for a component whose size leads back to its own header: nothing bounds the size that a header
  gives.\<close>

lemma endless_walk:
  assumes "component_at data 16 = Some h" "c_size h = - 16" "c_magic h \<noteq> magic"
  shows "next_component_filter data magic None = None"
proof (rule ccontr)
  assume "next_component_filter data magic None \<noteq> None"
  then obtain r where r: "next_component_filter data magic None = Some r" by blast
  let ?P = "\<lambda>b f c r. b = data \<longrightarrow> f = magic \<longrightarrow> c \<noteq> None \<and> c \<noteq> Some (16 :: u32)"
  have "?P data magic None r"
  proof (rule next_component_filter.raw_induct [where P = ?P, OF _ r])
    fix walk :: "buffer \<Rightarrow> buffer \<Rightarrow> u32 option \<Rightarrow> u32 option option" and b f c r
    assume ih: "\<And>b f c r. walk b f c = Some r \<Longrightarrow> ?P b f c r"
      and body: "do { (more, p) \<leftarrow> next_component b c;
         if \<not> more then Some None
         else do { h \<leftarrow> component_at b p; if c_magic h = f \<and> c_flags h AND 1 \<noteq> 0 then Some (Some p) else walk b f (Some p) } } = Some r"
    show "?P b f c r"
    proof (intro impI)
      assume bf: "b = data" "f = magic"
      show "c \<noteq> None \<and> c \<noteq> Some 16"
      proof (rule ccontr)
        assume "\<not> (c \<noteq> None \<and> c \<noteq> Some 16)"
        then have "next_component data c = Some (True, 16)"
          using assms(1,2) by (auto simp: next_component_def component_at_def split: if_splits)
        then have "walk data magic (Some 16) = Some r" using body bf assms(1,3) by simp
        then show False using ih by blast
      qed
    qed
  qed
  then show False by simp
qed

end
