(* ===== verification/Cgpt_Common.thy ===== *)
theory Cgpt_Common
  imports Gpt_Repair
begin

text \<open>
  The part of \<open>gpt/lib/cgpt_common.c\<close> that works on the loaded tables: the entry accessors
  and attribute setters, the type names, \<open>UpdateCrc\<close>, and the repair of one copy from the
  other that the commands use after an edit. \<open>require(..)\<close> failing is \<open>None\<close>.
\<close>

unbundle bit_operations_syntax

subsection \<open>Type names\<close>

definition supported_types :: "(Guid \<times> string \<times> string) list" where
  "supported_types = [
    (guid_chromeos_firmware, ''firmware'', ''ChromeOS firmware''),
    (guid_chromeos_kernel, ''kernel'', ''ChromeOS kernel''),
    (guid_chromeos_rootfs, ''rootfs'', ''ChromeOS rootfs''),
    (guid_linux_data, ''data'', ''Linux data''),
    (guid_chromeos_reserved, ''reserved'', ''ChromeOS reserved''),
    (guid_efi, ''efi'', ''EFI System Partition''),
    (guid_unused, ''unused'', ''Unused (nonexistent) partition'')]"

fun resolve_in :: "Guid \<Rightarrow> (Guid \<times> string \<times> string) list \<Rightarrow> string option" where
  "resolve_in g [] = None"
| "resolve_in g ((t, nm, desc) # ts) = (if GuidEqual g t then Some desc else resolve_in g ts)"

text \<open>\<open>Some\<close> description for \<open>CGPT_OK\<close>, \<open>None\<close> for \<open>CGPT_FAILED\<close>.\<close>

definition ResolveType :: "Guid \<Rightarrow> string option" where
  "ResolveType g = resolve_in g supported_types"

fun supported_in :: "string \<Rightarrow> (Guid \<times> string \<times> string) list \<Rightarrow> Guid option" where
  "supported_in n [] = None"
| "supported_in n ((t, nm, desc) # ts) = (if n = nm then Some t else supported_in n ts)"

definition SupportedType :: "string \<Rightarrow> Guid option" where
  "SupportedType n = supported_in n supported_types"

subsection \<open>Entries\<close>

datatype which_table = PRIMARY | SECONDARY | ANY_VALID

definition GetNumberOfEntries :: "GptData \<Rightarrow> u32" where
  "GetNumberOfEntries gpt =
    (if valid_headers gpt AND MASK_PRIMARY \<noteq> 0 then number_of_entries (hdr (primary_header gpt))
     else if valid_headers gpt AND MASK_SECONDARY \<noteq> 0 then number_of_entries (hdr (secondary_header gpt))
     else 0)"

definition GetSizeOfEntries :: "GptData \<Rightarrow> u32" where
  "GetSizeOfEntries gpt =
    (if valid_headers gpt AND MASK_PRIMARY \<noteq> 0 then size_of_entry (hdr (primary_header gpt))
     else if valid_headers gpt AND MASK_SECONDARY \<noteq> 0 then size_of_entry (hdr (secondary_header gpt))
     else 0)"

text \<open>The pointer that \<open>GetEntry\<close> returns: the table it points into (\<open>True\<close> for the
  secondary one) and the byte offset.\<close>

type_synonym entry_ref = "bool \<times> nat"

definition GetEntry :: "GptData \<Rightarrow> which_table \<Rightarrow> u32 \<Rightarrow> entry_ref option" where
  "GetEntry gpt secondary entry_index =
    (let stride = GetSizeOfEntries gpt in
     if stride = 0 then None
     else if \<not> entry_index < GetNumberOfEntries gpt then None
     else let off = unat (stride * entry_index) in
       case secondary of
         PRIMARY \<Rightarrow> Some (False, off)
       | SECONDARY \<Rightarrow> Some (True, off)
       | ANY_VALID \<Rightarrow>
           if valid_entries gpt AND MASK_PRIMARY \<noteq> 0 then Some (False, off)
           else if valid_entries gpt AND MASK_SECONDARY \<noteq> 0 then Some (True, off)
           else None)"

definition load_entry :: "GptData \<Rightarrow> entry_ref \<Rightarrow> GptEntry" where
  "load_entry gpt r = entry_at (if fst r then secondary_entries gpt else primary_entries gpt) (snd r)"

definition store_entry :: "GptData \<Rightarrow> entry_ref \<Rightarrow> GptEntry \<Rightarrow> GptData" where
  "store_entry gpt r e =
    (if fst r then gpt\<lparr>secondary_entries := put_entry (snd r) e (secondary_entries gpt)\<rparr>
     else gpt\<lparr>primary_entries := put_entry (snd r) e (primary_entries gpt)\<rparr>)"

text \<open>The three setters have the same shape: find the entry, \<open>require\<close> the value in range,
  clear the field, or in the shifted value (an \<open>unsigned int\<close>).\<close>

definition set_attr :: "u64 \<Rightarrow> u64 \<Rightarrow> nat \<Rightarrow> GptData \<Rightarrow> which_table \<Rightarrow> u32 \<Rightarrow> u32 \<Rightarrow> GptData option" where
  "set_attr maxv msk off gpt secondary entry_index v =
    do { r \<leftarrow> GetEntry gpt secondary entry_index;
         if ucast v \<le> maxv
         then Some (store_entry gpt r (attr_or (ucast (push_bit off v)) (attr_clear msk (load_entry gpt r))))
         else None }"

definition SetPriority :: "GptData \<Rightarrow> which_table \<Rightarrow> u32 \<Rightarrow> u32 \<Rightarrow> GptData option" where
  "SetPriority = set_attr CGPT_ATTRIBUTE_MAX_PRIORITY CGPT_ATTRIBUTE_PRIORITY_MASK CGPT_ATTRIBUTE_PRIORITY_OFFSET"

definition GetPriority :: "GptData \<Rightarrow> which_table \<Rightarrow> u32 \<Rightarrow> nat option" where
  "GetPriority gpt secondary i = map_option (\<lambda>r. GetEntryPriority (load_entry gpt r)) (GetEntry gpt secondary i)"

definition SetTries :: "GptData \<Rightarrow> which_table \<Rightarrow> u32 \<Rightarrow> u32 \<Rightarrow> GptData option" where
  "SetTries = set_attr CGPT_ATTRIBUTE_MAX_TRIES CGPT_ATTRIBUTE_TRIES_MASK CGPT_ATTRIBUTE_TRIES_OFFSET"

definition GetTries :: "GptData \<Rightarrow> which_table \<Rightarrow> u32 \<Rightarrow> nat option" where
  "GetTries gpt secondary i = map_option (\<lambda>r. GetEntryTries (load_entry gpt r)) (GetEntry gpt secondary i)"

definition SetSuccessful :: "GptData \<Rightarrow> which_table \<Rightarrow> u32 \<Rightarrow> u32 \<Rightarrow> GptData option" where
  "SetSuccessful = set_attr CGPT_ATTRIBUTE_MAX_SUCCESSFUL CGPT_ATTRIBUTE_SUCCESSFUL_MASK CGPT_ATTRIBUTE_SUCCESSFUL_OFFSET"

definition GetSuccessful :: "GptData \<Rightarrow> which_table \<Rightarrow> u32 \<Rightarrow> nat option" where
  "GetSuccessful gpt secondary i = map_option (\<lambda>r. GetEntrySuccessful (load_entry gpt r)) (GetEntry gpt secondary i)"

definition GptError :: "nat \<Rightarrow> string" where
  "GptError errnum =
    (let error_string = [''GPT_SUCCESS'', ''GPT_ERROR_NO_VALID_KERNEL'', ''GPT_ERROR_INVALID_HEADERS'',
       ''GPT_ERROR_INVALID_ENTRIES'', ''GPT_ERROR_INVALID_SECTOR_SIZE'',
       ''GPT_ERROR_INVALID_SECTOR_NUMBER'', ''GPT_ERROR_INVALID_UPDATE_TYPE'']
     in if errnum \<ge> length error_string then ''<illegal value>'' else error_string ! errnum)"

subsection \<open>Checksums after an edit\<close>

text \<open>Storing the checksum of the first \<open>sizeof(GptHeader)\<close> bytes, with the field zeroed.\<close>

definition crc_header92 :: "buffer \<Rightarrow> buffer" where
  "crc_header92 b0 =
    (let b = put_hdr ((hdr b0)\<lparr>header_crc32 := 0\<rparr>) b0
     in put_hdr ((hdr b)\<lparr>header_crc32 := Crc32 b 92\<rparr>) b)"

definition UpdateCrc :: "GptData \<Rightarrow> GptData" where
  "UpdateCrc gpt0 =
    (let gpt = gpt0;
         gpt = (if modified gpt AND GPT_MODIFIED_ENTRIES1 \<noteq> 0 \<and>
                   seg 0 9 (primary_header gpt) \<noteq> GPT_HEADER_SIGNATURE2 @ [0]
                then gpt\<lparr>primary_header :=
                  put_hdr ((hdr (primary_header gpt))
                    \<lparr>entries_crc32 := Crc32 (primary_entries gpt) TOTAL_ENTRIES_SIZE\<rparr>) (primary_header gpt)\<rparr>
                else gpt);
         gpt = (if modified gpt AND GPT_MODIFIED_ENTRIES2 \<noteq> 0
                then gpt\<lparr>secondary_header :=
                  put_hdr ((hdr (secondary_header gpt))
                    \<lparr>entries_crc32 := Crc32 (secondary_entries gpt) TOTAL_ENTRIES_SIZE\<rparr>) (secondary_header gpt)\<rparr>
                else gpt);
         gpt = (if modified gpt AND GPT_MODIFIED_HEADER1 \<noteq> 0
                then gpt\<lparr>primary_header := crc_header92 (primary_header gpt)\<rparr> else gpt);
         gpt = (if modified gpt AND GPT_MODIFIED_HEADER2 \<noteq> 0
                then gpt\<lparr>secondary_header := crc_header92 (secondary_header gpt)\<rparr> else gpt)
     in gpt)"

subsection \<open>Repair of one copy from the other\<close>

definition IsSynonymous :: "GptHeader \<Rightarrow> GptHeader \<Rightarrow> bool" where
  "IsSynonymous a b \<longleftrightarrow> first_usable_lba a = first_usable_lba b \<and> last_usable_lba a = last_usable_lba b \<and>
     number_of_entries a = number_of_entries b \<and> size_of_entry a = size_of_entry b \<and>
     GuidEqual (disk_uuid a) (disk_uuid b)"

text \<open>\<open>RepairEntries\<close> and \<open>RepairHeader\<close> return the changed state and the mask for
  \<open>modified\<close>; neither recomputes a checksum.\<close>

definition RepairEntries :: "GptData \<Rightarrow> u32 \<Rightarrow> GptData \<times> byte" where
  "RepairEntries gpt valid =
    (if signature (hdr (primary_header gpt)) = GPT_HEADER_SIGNATURE2 then (gpt, 0)
     else let copy12 = gpt\<lparr>secondary_entries :=
                 overlay 0 (seg 0 16384 (primary_entries gpt)) (secondary_entries gpt)\<rparr>;
              copy21 = gpt\<lparr>primary_entries :=
                 overlay 0 (seg 0 16384 (secondary_entries gpt)) (primary_entries gpt)\<rparr>
     in if valid = MASK_BOTH then
          (if seg 0 16384 (primary_entries gpt) \<noteq> seg 0 16384 (secondary_entries gpt)
           then (copy12, GPT_MODIFIED_ENTRIES2) else (gpt, 0))
        else if valid = MASK_PRIMARY then (copy12, GPT_MODIFIED_ENTRIES2)
        else if valid = MASK_SECONDARY then (copy21, GPT_MODIFIED_ENTRIES1)
        else (gpt, 0))"

definition CopySynonymousParts :: "GptHeader \<Rightarrow> GptHeader \<Rightarrow> GptHeader" where
  "CopySynonymousParts target source = target\<lparr>first_usable_lba := first_usable_lba source,
     last_usable_lba := last_usable_lba source, number_of_entries := number_of_entries source,
     size_of_entry := size_of_entry source, disk_uuid := disk_uuid source\<rparr>"

definition RepairHeader :: "GptData \<Rightarrow> u32 \<Rightarrow> GptData \<times> byte" where
  "RepairHeader gpt valid =
    (let h1 = hdr (primary_header gpt); h2 = hdr (secondary_header gpt) in
     if valid = MASK_BOTH then
       (if \<not> IsSynonymous h1 h2
        then (gpt\<lparr>secondary_header := put_hdr (CopySynonymousParts h2 h1) (secondary_header gpt)\<rparr>,
              GPT_MODIFIED_HEADER2)
        else (gpt, 0))
     else if valid = MASK_PRIMARY then
       (let b = overlay 0 (seg 0 92 (primary_header gpt)) (secondary_header gpt);
            lba = drive_sectors gpt - 1
        in (gpt\<lparr>secondary_header := put_hdr ((hdr b)\<lparr>my_lba := lba, alternate_lba := my_lba h1,
                 entries_lba := lba - GPT_ENTRIES_SECTORS\<rparr>) b\<rparr>, GPT_MODIFIED_HEADER2))
     else if valid = MASK_SECONDARY then
       (let b = overlay 0 (seg 0 92 (secondary_header gpt)) (primary_header gpt)
        in (gpt\<lparr>primary_header := put_hdr ((hdr b)\<lparr>my_lba := GPT_PMBR_SECTOR,
                 alternate_lba := my_lba h2,
                 entries_lba := GPT_PMBR_SECTOR + GPT_HEADER_SECTOR\<rparr>) b\<rparr>, GPT_MODIFIED_HEADER1))
     else (gpt, 0))"

text \<open>The sequence that \<open>cgpt_add\<close>, \<open>cgpt_set_attributes\<close> and \<open>cgpt_prioritize\<close> share
  after an edit of the primary table: both \<open>Repair\<close> calls from the primary copy, all four
  parts marked modified, \<open>UpdateCrc\<close>.\<close>

definition MODIFIED_ALL :: byte where
  "MODIFIED_ALL = GPT_MODIFIED_HEADER1 OR GPT_MODIFIED_ENTRIES1 OR GPT_MODIFIED_HEADER2 OR GPT_MODIFIED_ENTRIES2"

definition commit_primary :: "GptData \<Rightarrow> GptData" where
  "commit_primary gpt =
    (let gpt = fst (RepairEntries gpt MASK_PRIMARY);
         gpt = fst (RepairHeader gpt MASK_PRIMARY);
         gpt = gpt\<lparr>modified := modified gpt OR MODIFIED_ALL\<rparr>
     in UpdateCrc gpt)"

subsection \<open>What committing an edit does\<close>

lemma crc_header92_eq:
  assumes "92 \<le> length b" "h_size (hdr b) = 92"
  shows "crc_header92 b = set_header_crc b"
  using assms by (simp add: crc_header92_def set_header_crc_def HeaderCrc_def)

lemma modified_all_bits [simp]:
  "(m OR MODIFIED_ALL) AND 1 \<noteq> 0" "(m OR MODIFIED_ALL) AND 2 \<noteq> 0"
  "(m OR MODIFIED_ALL) AND 4 \<noteq> 0" "(m OR MODIFIED_ALL) AND 8 \<noteq> 0"
proof -
  have b: "w AND 2 ^ k = 0 \<longleftrightarrow> \<not> bit w k" if "k < 8" for w :: byte and k
    by (rule and_exp_eq_0_iff_not_bit)
  have "bit (m OR MODIFIED_ALL) k" if "k < 4" for k
    using that by (auto simp: MODIFIED_ALL_def bit_or_iff less_Suc_eq numeral_eq_Suc)
  then show "(m OR MODIFIED_ALL) AND 1 \<noteq> 0" "(m OR MODIFIED_ALL) AND 2 \<noteq> 0"
    "(m OR MODIFIED_ALL) AND 4 \<noteq> 0" "(m OR MODIFIED_ALL) AND 8 \<noteq> 0"
    using b [of 0 "m OR MODIFIED_ALL"] b [of 1 "m OR MODIFIED_ALL"] b [of 2 "m OR MODIFIED_ALL"]
      b [of 3 "m OR MODIFIED_ALL"] by simp_all
qed

lemma signature_seg9:
  assumes "92 \<le> length b" "signature (hdr b) = GPT_HEADER_SIGNATURE"
  shows "seg 0 9 b \<noteq> GPT_HEADER_SIGNATURE2 @ [0]"
proof
  assume "seg 0 9 b = GPT_HEADER_SIGNATURE2 @ [0]"
  then have "take 8 (seg 0 9 b) = GPT_HEADER_SIGNATURE2" by simp
  then have "seg 0 8 b = GPT_HEADER_SIGNATURE2" by (simp add: seg_def)
  moreover have "seg 0 8 b = GPT_HEADER_SIGNATURE"
    using assms by (simp add: get_at_def dec_header_def seg_seg)
  ultimately show False by simp
qed

lemma commit_primary_eq:
  assumes len: "92 \<le> length (primary_header g)" "92 \<le> length (secondary_header g)"
      "length (primary_entries g) = 16384" "length (secondary_entries g) = 16384"
    and sgn: "signature (hdr (primary_header g)) = GPT_HEADER_SIGNATURE" and sz: "h_size (hdr (primary_header g)) = 92"
  defines "h \<equiv> (hdr (primary_header g))\<lparr>entries_crc32 := Crc32 (primary_entries g) TOTAL_ENTRIES_SIZE\<rparr>"
  shows "commit_primary g = g\<lparr>
      primary_header := set_header_crc (put_hdr h (primary_header g)),
      secondary_header := set_header_crc (put_hdr (h\<lparr>my_lba := drive_sectors g - 1, alternate_lba := my_lba h,
         entries_lba := drive_sectors g - 1 - GPT_ENTRIES_SECTORS\<rparr>) (secondary_header g)),
      secondary_entries := primary_entries g,
      modified := modified g OR MODIFIED_ALL\<rparr>"
proof -
  have ne: "GPT_HEADER_SIGNATURE \<noteq> GPT_HEADER_SIGNATURE2" by simp
  have ent: "overlay 0 (seg 0 16384 (primary_entries g)) (secondary_entries g) = primary_entries g"
    using len by (simp add: overlay_all)
  have e1: "fst (RepairEntries g MASK_PRIMARY) = g\<lparr>secondary_entries := primary_entries g\<rparr>"
    using sgn ne by (simp add: RepairEntries_def Let_def ent)
  let ?lba = "drive_sectors g - 1"
  let ?h2 = "(hdr (primary_header g))\<lparr>my_lba := ?lba, alternate_lba := my_lba (hdr (primary_header g)),
      entries_lba := ?lba - GPT_ENTRIES_SECTORS\<rparr>"
  have e2: "fst (RepairHeader (g\<lparr>secondary_entries := primary_entries g\<rparr>) MASK_PRIMARY) =
      g\<lparr>secondary_entries := primary_entries g, secondary_header := put_hdr ?h2 (secondary_header g)\<rparr>"
    using len by (simp add: RepairHeader_def Let_def hdr_overlay_header put_hdr_overlay)
  have s9: "seg 0 9 (primary_header g) \<noteq> GPT_HEADER_SIGNATURE2 @ [0]"
    using signature_seg9 [OF len(1) sgn] .
  have p: "crc_header92 (put_hdr h (primary_header g)) = set_header_crc (put_hdr h (primary_header g))"
    using len sz by (intro crc_header92_eq) (simp_all add: h_def)
  have s: "crc_header92 (put_hdr (?h2\<lparr>entries_crc32 := c\<rparr>) (secondary_header g)) =
      set_header_crc (put_hdr (?h2\<lparr>entries_crc32 := c\<rparr>) (secondary_header g))" for c
    using len sz by (intro crc_header92_eq) simp_all
  have o: "h\<lparr>my_lba := ?lba, alternate_lba := my_lba h, entries_lba := ?lba - GPT_ENTRIES_SECTORS\<rparr> =
      ?h2\<lparr>entries_crc32 := Crc32 (primary_entries g) TOTAL_ENTRIES_SIZE\<rparr>" by (simp add: h_def)
  show ?thesis
    unfolding commit_primary_def e1 Let_def e2 o
    using len s9 p s by (intro GptData.equality) (simp_all add: UpdateCrc_def Let_def h_def)
qed

text \<open>Committing an edited primary table gives a state whose two copies are valid and equal, when
  the primary header is the common kind (\<open>EFI PART\<close>, 92 bytes) and the edited table is valid.\<close>

lemma commit_primary_ok:
  assumes shape: "gpt_shape g" and par: "CheckParameters g = GPT_SUCCESS"
    and hdr1: "header_common (hdr (primary_header g)) (drive_sectors g)"
      "header_placed False (hdr (primary_header g)) (drive_sectors g)"
    and sgn: "signature (hdr (primary_header g)) = GPT_HEADER_SIGNATURE" and sz: "h_size (hdr (primary_header g)) = 92"
    and tab: "table_valid (hdr (primary_header g)) (entries_of 128 (primary_entries g))"
  shows "gpt_ok (commit_primary g)"
proof -
  have len: "92 \<le> length (primary_header g)" "92 \<le> length (secondary_header g)"
      "length (primary_entries g) = 16384" "length (secondary_entries g) = 16384"
    using shape par by (simp_all add: gpt_shape_def CheckParameters_success)
  define h where "h = (hdr (primary_header g))\<lparr>entries_crc32 := Crc32 (primary_entries g) TOTAL_ENTRIES_SIZE\<rparr>"
  define h2 where "h2 = h\<lparr>my_lba := drive_sectors g - 1, alternate_lba := my_lba h,
         entries_lba := drive_sectors g - 1 - GPT_ENTRIES_SECTORS\<rparr>"
  have wf: "header_wf h" "header_wf h2" using len by (simp_all add: h_def h2_def)
  have com: "header_common h (drive_sectors g)" "header_placed False h (drive_sectors g)"
    "header_common h2 (drive_sectors g)" "header_placed True h2 (drive_sectors g)"
    using hdr1 by (simp_all add: h_def h2_def header_common_def header_placed_def)
  note eq = commit_primary_eq [OF len sgn sz, folded h_def, folded h2_def]
  have p: "hdr (primary_header (commit_primary g)) = h\<lparr>header_crc32 := HeaderCrc (put_hdr h (primary_header g))\<rparr>"
    using wf len by (simp add: eq set_header_crc_put)
  have c: "CheckHeader (primary_header (commit_primary g)) False (drive_sectors g) = 0"
    "CheckHeader (secondary_header (commit_primary g)) True (drive_sectors g) = 0"
    using wf len com by (simp_all add: eq CheckHeader_set_header_crc)
  have same: "HeaderFieldsSame (hdr (primary_header (commit_primary g))) (hdr (secondary_header (commit_primary g))) = 0"
    using wf len by (simp add: eq set_header_crc_put HeaderFieldsSame_def h2_def)
  have "table_valid (hdr (primary_header (commit_primary g))) (entries_of 128 (primary_entries g))"
    using tab unfolding p by (simp add: table_valid_def in_region_def h_def)
  moreover have "number_of_entries h = 128" "size_of_entry h = 128" using com by (simp_all add: header_common_def)
  ultimately have "CheckEntries (primary_entries g) (hdr (primary_header (commit_primary g))) = GPT_SUCCESS"
    unfolding CheckEntries_success p by (simp add: h_def)
  moreover have "CheckParameters (commit_primary g) = GPT_SUCCESS"
    using par by (simp add: eq CheckParameters_success)
  ultimately show ?thesis
    using c same by (simp add: gpt_ok_def eq)
qed

end
