(* ===== verification/Drive.thy ===== *)
theory Drive
  imports Blkdev Cgpt_Common
begin

text \<open>
  Opening and closing a drive (\<open>gpt/lib/cgpt_common.c\<close>): \<open>Load\<close>, \<open>Save\<close>, the protective
  MBR, \<open>DriveOpen\<close> and \<open>DriveClose\<close>. The open file is kept in the drive record, the way
  the descriptor refers to it. \<open>None\<close> is a process that has ended (a failed \<open>require\<close>, a
  division by zero).
\<close>

unbundle bit_operations_syntax

record drive =
  fd :: blkdev
  writable :: bool
  dsize :: u64
  gpt :: GptData
  dpmbr :: pmbr

definition CheckValid :: "drive \<Rightarrow> cgpt_status" where
  "CheckValid d = (if valid_headers (gpt d) \<noteq> MASK_BOTH \<or> valid_entries (gpt d) \<noteq> MASK_BOTH
     then CGPT_FAILED else CGPT_OK)"

text \<open>\<open>Some None\<close> is \<open>CGPT_FAILED\<close>. The byte count is an \<open>int\<close>; a negative one makes
  \<open>malloc\<close> fail.\<close>

definition Load :: "blkdev \<Rightarrow> u64 \<Rightarrow> u64 \<Rightarrow> u64 \<Rightarrow> buffer option option" where
  "Load f sector sector_bytes' sector_count =
    (if sector_count = 0 \<or> sector_bytes' = 0 then Some None
     else if sector_bytes' > 0xFFFFFFFFFFFFFFFF div sector_count then Some None
     else let count = sint (ucast (sector_bytes' * sector_count) :: u32) in
       if count < 0 then None
       else case lseek64 f (sector * sector_bytes') of
         None \<Rightarrow> Some None
       | Some pos \<Rightarrow>
           (case dev_read f pos (nat count) of
              None \<Rightarrow> Some None
            | Some buf \<Rightarrow> if length buf < nat count then Some None else Some (Some buf)))"

definition ReadPMBR :: "drive \<Rightarrow> cgpt_status \<times> drive" where
  "ReadPMBR d = (case lseek64 (fd d) 0 of
      None \<Rightarrow> (CGPT_FAILED, d)
    | Some pos \<Rightarrow>
       (case dev_read (fd d) pos 512 of
          None \<Rightarrow> (CGPT_FAILED, d)
        | Some bs \<Rightarrow> (if length bs \<noteq> 512 then CGPT_FAILED else CGPT_OK,
                     d\<lparr>dpmbr := dec_pmbr (overlay 0 bs (enc_pmbr (dpmbr d)))\<rparr>)))"

text \<open>\<open>write\<close> on the descriptor: it fails when the drive was opened read-only.\<close>

definition fd_write :: "drive \<Rightarrow> nat \<Rightarrow> buffer \<Rightarrow> (nat \<times> blkdev) option" where
  "fd_write d pos bs = (if writable d then dev_write (fd d) pos bs else None)"

definition WritePMBR :: "drive \<Rightarrow> cgpt_status \<times> drive" where
  "WritePMBR d = (case lseek64 (fd d) 0 of
      None \<Rightarrow> (CGPT_FAILED, d)
    | Some pos \<Rightarrow>
       (case fd_write d pos (enc_pmbr (dpmbr d)) of
          None \<Rightarrow> (CGPT_FAILED, d)
        | Some (nwrote, f) \<Rightarrow> (if nwrote \<noteq> 512 then CGPT_FAILED else CGPT_OK, d\<lparr>fd := f\<rparr>)))"

definition Save :: "drive \<Rightarrow> buffer \<Rightarrow> u64 \<Rightarrow> u64 \<Rightarrow> u64 \<Rightarrow> (cgpt_status \<times> drive) option" where
  "Save d buf sector sector_bytes' sector_count =
    (if buf = [] then None
     else let count = sint (ucast (sector_bytes' * sector_count) :: u32) in
       case lseek64 (fd d) (sector * sector_bytes') of
         None \<Rightarrow> Some (CGPT_FAILED, d)
       | Some pos \<Rightarrow>
           (case fd_write d pos (take (nat count) buf) of
              None \<Rightarrow> Some (CGPT_FAILED, d)
            | Some (nwrote, f) \<Rightarrow>
                Some (if int nwrote < count then CGPT_FAILED else CGPT_OK, d\<lparr>fd := f\<rparr>)))"

definition zero_gpt :: GptData where
  "zero_gpt = \<lparr>primary_header = [], secondary_header = [], primary_entries = [], secondary_entries = [],
     sector_bytes = 0, drive_sectors = 0, modified = 0, current_kernel = 0, valid_headers = 0,
     valid_entries = 0, current_priority = 0\<rparr>"

definition zero_pmbr :: pmbr where
  "zero_pmbr = dec_pmbr (replicate 512 0)"

text \<open>The size and the sector size: from the inode of a regular file, from two \<open>ioctl\<close>s
  otherwise.\<close>

definition media_size :: "blkdev \<Rightarrow> (u64 \<times> u32) option" where
  "media_size f = (if regular f then Some (of_nat (length (bytes f)), 512)
     else do { sz \<leftarrow> blk_size f; ssz \<leftarrow> blk_ssz f; Some (sz, ssz) })"

text \<open>The four loads; \<open>Some None\<close> closes the drive and fails.\<close>

definition load_gpt :: "blkdev \<Rightarrow> GptData \<Rightarrow> GptData option option" where
  "load_gpt f g =
    (let sb = ucast (sector_bytes g); n = drive_sectors g in
     do { r1 \<leftarrow> Load f GPT_PMBR_SECTOR sb GPT_HEADER_SECTOR;
          case r1 of None \<Rightarrow> Some None | Some h1 \<Rightarrow>
     do { r2 \<leftarrow> Load f (n - GPT_PMBR_SECTOR) sb GPT_HEADER_SECTOR;
          case r2 of None \<Rightarrow> Some None | Some h2 \<Rightarrow>
     do { r3 \<leftarrow> Load f (GPT_PMBR_SECTOR + GPT_HEADER_SECTOR) sb GPT_ENTRIES_SECTORS;
          case r3 of None \<Rightarrow> Some None | Some e1 \<Rightarrow>
     do { r4 \<leftarrow> Load f (n - GPT_HEADER_SECTOR - GPT_ENTRIES_SECTORS) sb GPT_ENTRIES_SECTORS;
          case r4 of None \<Rightarrow> Some None | Some e2 \<Rightarrow>
            Some (Some (g\<lparr>primary_header := h1, secondary_header := h2,
                           primary_entries := e1, secondary_entries := e2\<rparr>)) }}}})"

definition DriveOpen :: "fs \<Rightarrow> string \<Rightarrow> bool \<Rightarrow> drive option option" where
  "DriveOpen files drive_path rdwr =
    (case files drive_path of
       None \<Rightarrow> Some None
     | Some f \<Rightarrow>
         if \<not> stat_ok f then Some None
         else case media_size f of
           None \<Rightarrow> Some None
         | Some (sz, ssz) \<Rightarrow>
             if ssz = 0 then None
             else if sz mod ucast ssz \<noteq> 0 then Some None
             else do { r \<leftarrow> load_gpt f (zero_gpt\<lparr>sector_bytes := ssz, drive_sectors := sz div ucast ssz\<rparr>);
                       Some (map_option (\<lambda>g. \<lparr>fd = f, writable = rdwr, dsize = sz, gpt = g, dpmbr = zero_pmbr\<rparr>) r) })"

text \<open>One of the four conditional saves of \<open>DriveClose\<close>, counting errors.\<close>

definition save_part :: "byte \<Rightarrow> (GptData \<Rightarrow> buffer) \<Rightarrow> u64 \<Rightarrow> u64 \<Rightarrow> nat \<times> drive \<Rightarrow> (nat \<times> drive) option" where
  "save_part flag sel sector sector_count st =
    (let (errors, d) = st in
     if modified (gpt d) AND flag \<noteq> 0 then
       do { (r, d') \<leftarrow> Save d (sel (gpt d)) sector (ucast (sector_bytes (gpt d))) sector_count;
            Some (if r = CGPT_OK then errors else Suc errors, d') }
     else Some (errors, d))"

definition DriveClose :: "drive \<Rightarrow> bool \<Rightarrow> (cgpt_status \<times> blkdev) option" where
  "DriveClose d update_as_needed =
    (let n = drive_sectors (gpt d) in
     do { st \<leftarrow> (if update_as_needed then
            do { st \<leftarrow> save_part GPT_MODIFIED_HEADER1 primary_header GPT_PMBR_SECTOR GPT_HEADER_SECTOR (0, d);
                 st \<leftarrow> save_part GPT_MODIFIED_HEADER2 secondary_header (n - GPT_PMBR_SECTOR) GPT_HEADER_SECTOR st;
                 st \<leftarrow> save_part GPT_MODIFIED_ENTRIES1 primary_entries (GPT_PMBR_SECTOR + GPT_HEADER_SECTOR)
                         GPT_ENTRIES_SECTORS st;
                 save_part GPT_MODIFIED_ENTRIES2 secondary_entries
                   (n - GPT_HEADER_SECTOR - GPT_ENTRIES_SECTORS) GPT_ENTRIES_SECTORS st }
            else Some (0, d));
          let (errors, d') = st in
          Some (if errors \<noteq> 0 then CGPT_FAILED else CGPT_OK, fd d') })"

subsection \<open>A drive without defects\<close>

text \<open>A healthy file or device of \<open>n\<close> sectors of 512 bytes, with room for one copy of the table.\<close>

definition media :: "blkdev \<Rightarrow> nat \<Rightarrow> bool" where
  "media f n \<longleftrightarrow> healthy f \<and> length (bytes f) = 512 * n \<and> 34 \<le> n \<and>
     (regular f \<or> blk_size f = Some (of_nat (512 * n)) \<and> blk_ssz f = Some 512)"

text \<open>The tables as they lie on such a drive.\<close>

definition gpt_of :: "nat \<Rightarrow> buffer \<Rightarrow> GptData" where
  "gpt_of n b = zero_gpt\<lparr>primary_header := seg 512 512 b, secondary_header := seg (512 * (n - 1)) 512 b,
     primary_entries := seg 1024 16384 b, secondary_entries := seg (512 * (n - 33)) 16384 b,
     sector_bytes := 512, drive_sectors := of_nat n\<rparr>"

lemma media_bound: "media f n \<Longrightarrow> 34 \<le> n \<and> 512 * n < 2 ^ 63 \<and> n < 2 ^ 54"
  by (simp add: media_def healthy_def)

lemma media_size_media: "media f n \<Longrightarrow> media_size f = Some (of_nat (512 * n), 512)"
  by (auto simp: media_def media_size_def)

lemma small_u64:
  assumes "k < 2 ^ 63"
  shows "unat (of_nat k :: u64) = k" "0 \<le> sint (of_nat k :: u64)"
proof -
  show "unat (of_nat k :: u64) = k" using assms by (simp add: unat_of_nat take_bit_nat_eq_self)
  have "sint (of_nat k :: u64) = int k"
    using assms by (simp only: signed_of_nat) (simp add: signed_take_bit_int_eq_self)
  then show "0 \<le> sint (of_nat k :: u64)" by simp
qed

lemma sector_offset:
  assumes "512 * unat (s :: u64) < 2 ^ 63"
  shows "unat (s * 512) = 512 * unat s" "0 \<le> sint (s * 512)"
proof -
  have "s * 512 = (of_nat (512 * unat s) :: u64)" by simp
  then show "unat (s * 512) = 512 * unat s" "0 \<le> sint (s * 512)"
    using small_u64 [OF assms] by metis+
qed

lemma sector_from_end:
  assumes "n < 2 ^ 54" "34 \<le> n"
  shows "unat (of_nat n - 1 :: u64) = n - 1 \<and> unat (of_nat n - 33 :: u64) = n - 33"
proof -
  have "(of_nat n - 1 :: u64) = of_nat (n - 1)" "(of_nat n - 33 :: u64) = of_nat (n - 33)"
    using assms by (simp_all add: of_nat_diff)
  moreover have "n - 1 < 2 ^ 63" "n - 33 < 2 ^ 63" using assms by simp_all
  ultimately show ?thesis using small_u64(1) by metis
qed

lemma lseek_media:
  assumes "media f n" "unat s \<le> n"
  shows "lseek64 f (s * 512) = Some (512 * unat s)"
proof -
  have "512 * unat s < 2 ^ 63" using assms media_bound [OF assms(1)] by simp
  then show ?thesis using assms sector_offset [of s] by (simp add: lseek64_def media_def)
qed

lemma sector_counts:
  assumes "c = 1 \<or> c = (32 :: u64)"
  shows "sint (ucast (512 * c) :: u32) = int (512 * unat c)" "512 \<le> 0xFFFFFFFFFFFFFFFF div c" "c \<noteq> 0"
  using assms by auto

lemma Load_media:
  assumes "media f n" "unat s + unat c \<le> n" "c = 1 \<or> c = 32"
  shows "Load f s 512 c = Some (Some (seg (512 * unat s) (512 * unat c) (bytes f)))"
proof -
  have len: "length (bytes f) = 512 * n" "bad_read f = (\<lambda>_. False)" using assms(1) by (simp_all add: media_def healthy_def)
  then have "length (seg (512 * unat s) (512 * unat c) (bytes f)) = 512 * unat c" using assms(2) by simp
  moreover have "nat (sint (ucast (512 * c) :: u32)) = 512 * unat c" "\<not> sint (ucast (512 * c) :: u32) < 0"
    unfolding sector_counts(1) [OF assms(3)] by (simp_all only: nat_int of_nat_less_0_iff) simp
  ultimately show ?thesis
    using sector_counts(2,3) [OF assms(3)] lseek_media [OF assms(1), of s] len(2) assms(2)
    by (simp add: Load_def Let_def dev_read_def not_less)
qed

lemma DriveOpen_media:
  assumes "files path = Some f" "media f n"
  shows "DriveOpen files path rdwr = Some (Some \<lparr>fd = f, writable = rdwr, dsize = of_nat (512 * n),
    gpt = gpt_of n (bytes f), dpmbr = zero_pmbr\<rparr>)"
proof -
  have n: "34 \<le> n" "n < 2 ^ 54" "512 * n < 2 ^ 63" using media_bound [OF assms(2)] by simp_all
  have st: "stat_ok f" using assms(2) by (simp add: media_def healthy_def)
  note e = sector_from_end [OF n(2,1)]
  have u: "unat (of_nat (512 * n) :: u64) = 512 * n" "unat (of_nat n :: u64) = n"
    using n by (simp_all only: small_u64)
  have q: "(of_nat (512 * n) :: u64) mod 512 = 0" "(of_nat (512 * n) :: u64) div 512 = of_nat n"
    using u by (simp_all only: word_unat_eq_iff unat_mod unat_div) simp_all
  have loads: "Load f 1 512 1 = Some (Some (seg 512 512 (bytes f)))"
    "Load f (of_nat n - 1) 512 1 = Some (Some (seg (512 * (n - 1)) 512 (bytes f)))"
    "Load f 2 512 32 = Some (Some (seg 1024 16384 (bytes f)))"
    "Load f (of_nat n - 33) 512 32 = Some (Some (seg (512 * (n - 33)) 16384 (bytes f)))"
    using Load_media [OF assms(2), of 1 1] Load_media [OF assms(2), of "of_nat n - 1" 1]
      Load_media [OF assms(2), of 2 32] Load_media [OF assms(2), of "of_nat n - 33" 32] e n by simp_all
  show ?thesis
    using assms(1) st q loads
    by (simp add: DriveOpen_def media_size_media [OF assms(2)] load_gpt_def Let_def gpt_of_def zero_gpt_def)
qed

text \<open>On a writable drive without defects every save succeeds, and writes its sectors only.\<close>

lemma Save_media:
  assumes "media (fd d) n" "writable d" "unat s + unat c \<le> n" "c = 1 \<or> c = 32" "length buf = 512 * unat c"
  shows "Save d buf s 512 c = Some (CGPT_OK, d\<lparr>fd := (fd d)\<lparr>bytes := overlay (512 * unat s) buf (bytes (fd d))\<rparr>\<rparr>)"
    and "media ((fd d)\<lparr>bytes := overlay (512 * unat s) buf (bytes (fd d))\<rparr>) n"
proof -
  have m: "healthy (fd d)" "length (bytes (fd d)) = 512 * n" using assms(1) by (simp_all add: media_def)
  have room: "512 * unat s + length buf \<le> length (bytes (fd d))" using m assms(3,5) by simp
  have c: "nat (sint (ucast (512 * c) :: u32)) = 512 * unat c" "\<not> int (512 * unat c) < sint (ucast (512 * c) :: u32)"
    unfolding sector_counts(1) [OF assms(4)] by (simp_all only: nat_int)
  have "buf \<noteq> []" using assms(4,5) by auto
  then show "Save d buf s 512 c = Some (CGPT_OK, d\<lparr>fd := (fd d)\<lparr>bytes := overlay (512 * unat s) buf (bytes (fd d))\<rparr>\<rparr>)"
    using c lseek_media [OF assms(1), of s] assms(2,3,5) dev_write_healthy [OF m(1) room]
    by (simp add: Save_def Let_def fd_write_def)
  show "media ((fd d)\<lparr>bytes := overlay (512 * unat s) buf (bytes (fd d))\<rparr>) n"
    using assms(1) room by (simp add: media_def healthy_def)
qed

text \<open>The image after the conditional saves, in the order of \<open>DriveClose\<close>.\<close>

definition put_part :: "byte \<Rightarrow> byte \<Rightarrow> nat \<Rightarrow> buffer \<Rightarrow> buffer \<Rightarrow> buffer" where
  "put_part m flag off buf b = (if m AND flag \<noteq> 0 then overlay off buf b else b)"

definition store_gpt :: "nat \<Rightarrow> GptData \<Rightarrow> buffer \<Rightarrow> buffer" where
  "store_gpt n g b =
     put_part (modified g) GPT_MODIFIED_ENTRIES2 (512 * (n - 33)) (secondary_entries g)
    (put_part (modified g) GPT_MODIFIED_ENTRIES1 1024 (primary_entries g)
    (put_part (modified g) GPT_MODIFIED_HEADER2 (512 * (n - 1)) (secondary_header g)
    (put_part (modified g) GPT_MODIFIED_HEADER1 512 (primary_header g) b)))"

lemma save_part_media:
  assumes "media (fd d) n" "writable d" "unat s + unat c \<le> n" "c = 1 \<or> c = 32" "sector_bytes (gpt d) = 512"
    "length (sel (gpt d)) = 512 * unat c" "off = 512 * unat s"
    and d': "d' = d\<lparr>fd := (fd d)\<lparr>bytes := put_part (modified (gpt d)) flag off (sel (gpt d)) (bytes (fd d))\<rparr>\<rparr>"
  shows "save_part flag sel s c (e, d) = Some (e, d') \<and> media (fd d') n"
  using assms(1-7) Save_media [OF assms(1-4,6)]
  by (simp add: save_part_def put_part_def d')

lemma DriveClose_media:
  assumes "media (fd d) n" "writable d" "gpt_shape (gpt d)" "sector_bytes (gpt d) = 512" "drive_sectors (gpt d) = of_nat n"
  defines "f' \<equiv> (fd d)\<lparr>bytes := store_gpt n (gpt d) (bytes (fd d))\<rparr>"
  shows "DriveClose d True = Some (CGPT_OK, f') \<and> media f' n"
proof -
  have n: "34 \<le> n" "n < 2 ^ 54" using media_bound [OF assms(1)] by simp_all
  note e = sector_from_end [OF n(2,1)]
  have len: "length (primary_header (gpt d)) = 512" "length (secondary_header (gpt d)) = 512"
    "length (primary_entries (gpt d)) = 16384" "length (secondary_entries (gpt d)) = 16384"
    using assms(3,4) by (simp_all add: gpt_shape_def)
  let ?m = "modified (gpt d)"
  define d1 where "d1 = d\<lparr>fd := (fd d)\<lparr>bytes := put_part ?m 1 512 (primary_header (gpt d)) (bytes (fd d))\<rparr>\<rparr>"
  define d2 where "d2 = d1\<lparr>fd := (fd d1)\<lparr>bytes := put_part ?m 2 (512 * (n - 1)) (secondary_header (gpt d)) (bytes (fd d1))\<rparr>\<rparr>"
  define d3 where "d3 = d2\<lparr>fd := (fd d2)\<lparr>bytes := put_part ?m 4 1024 (primary_entries (gpt d)) (bytes (fd d2))\<rparr>\<rparr>"
  define d4 where "d4 = d3\<lparr>fd := (fd d3)\<lparr>bytes := put_part ?m 8 (512 * (n - 33)) (secondary_entries (gpt d)) (bytes (fd d3))\<rparr>\<rparr>"
  have g: "gpt d1 = gpt d" "gpt d2 = gpt d" "gpt d3 = gpt d" "writable d1" "writable d2" "writable d3"
    using assms(2) by (simp_all add: d1_def d2_def d3_def)
  have 1: "save_part 1 primary_header 1 1 (0, d) = Some (0, d1) \<and> media (fd d1) n"
    using save_part_media [OF assms(1,2), of 1 1 primary_header 512 d1 1 0] n assms(4) len by (simp add: d1_def)
  have 2: "save_part 2 secondary_header (of_nat n - 1) 1 (0, d1) = Some (0, d2) \<and> media (fd d2) n"
    using save_part_media [of d1 n "of_nat n - 1" 1 secondary_header "512 * (n - 1)" d2 2 0] 1 e n assms(4) len g
    by (simp add: d2_def)
  have 3: "save_part 4 primary_entries 2 32 (0, d2) = Some (0, d3) \<and> media (fd d3) n"
    using save_part_media [of d2 n 2 32 primary_entries 1024 d3 4 0] 2 n assms(4) len g by (simp add: d3_def)
  have 4: "save_part 8 secondary_entries (of_nat n - 33) 32 (0, d3) = Some (0, d4) \<and> media (fd d4) n"
    using save_part_media [of d3 n "of_nat n - 33" 32 secondary_entries "512 * (n - 33)" d4 8 0] 3 e n assms(4) len g
    by (simp add: d4_def)
  have "fd d4 = f'" by (simp add: d4_def d3_def d2_def d1_def f'_def store_gpt_def)
  with 1 2 3 4 show ?thesis by (simp add: DriveClose_def assms(5))
qed

subsection \<open>Reading back\<close>

lemma put_part_rules:
  assumes "off + length buf \<le> length b"
  shows "length (put_part m flag off buf b) = length b"
    and "q + k \<le> off \<or> off + length buf \<le> q \<Longrightarrow> seg q k (put_part m flag off buf b) = seg q k b"
    and "k = length buf \<Longrightarrow> m AND flag \<noteq> 0 \<or> buf = seg off k b \<Longrightarrow> seg off k (put_part m flag off buf b) = buf"
  using assms by (auto simp: put_part_def seg_overlay_disjoint)

text \<open>Every part of the state that differs from the drive is flagged for writing.\<close>

definition in_sync :: "GptData \<Rightarrow> GptData \<Rightarrow> bool" where
  "in_sync g0 g \<longleftrightarrow>
     (modified g AND GPT_MODIFIED_HEADER1 \<noteq> 0 \<or> primary_header g = primary_header g0) \<and>
     (modified g AND GPT_MODIFIED_HEADER2 \<noteq> 0 \<or> secondary_header g = secondary_header g0) \<and>
     (modified g AND GPT_MODIFIED_ENTRIES1 \<noteq> 0 \<or> primary_entries g = primary_entries g0) \<and>
     (modified g AND GPT_MODIFIED_ENTRIES2 \<noteq> 0 \<or> secondary_entries g = secondary_entries g0)"

text \<open>The state as a new \<open>DriveOpen\<close> sees it: the four buffers, nothing marked.\<close>

definition fresh :: "GptData \<Rightarrow> GptData" where
  "fresh g = g\<lparr>modified := 0, current_kernel := 0, valid_headers := 0, valid_entries := 0, current_priority := 0\<rparr>"

lemma fresh_fields [simp]:
  "primary_header (fresh g) = primary_header g" "secondary_header (fresh g) = secondary_header g"
  "primary_entries (fresh g) = primary_entries g" "secondary_entries (fresh g) = secondary_entries g"
  "sector_bytes (fresh g) = sector_bytes g" "drive_sectors (fresh g) = drive_sectors g" "modified (fresh g) = 0"
  by (simp_all add: fresh_def)

lemma gpt_of_store_gpt:
  assumes n: "67 \<le> n" and b: "length b = 512 * n" and s: "gpt_shape g" "sector_bytes g = 512" "drive_sectors g = of_nat n"
    and sync: "in_sync (gpt_of n b) g"
  shows "gpt_of n (store_gpt n g b) = fresh g"
proof -
  have len: "length (primary_header g) = 512" "length (secondary_header g) = 512"
    "length (primary_entries g) = 16384" "length (secondary_entries g) = 16384"
    using s by (simp_all add: gpt_shape_def)
  define b1 where "b1 = put_part (modified g) 1 512 (primary_header g) b"
  define b2 where "b2 = put_part (modified g) 2 (512 * (n - 1)) (secondary_header g) b1"
  define b3 where "b3 = put_part (modified g) 4 1024 (primary_entries g) b2"
  define b4 where "b4 = put_part (modified g) 8 (512 * (n - 33)) (secondary_entries g) b3"
  have l: "length b1 = 512 * n" "length b2 = 512 * n" "length b3 = 512 * n"
    using n b len by (simp_all add: b1_def b2_def b3_def put_part_rules(1))
  have fit: "512 + length (primary_header g) \<le> length b" "512 * (n - 1) + length (secondary_header g) \<le> length b1"
    "1024 + length (primary_entries g) \<le> length b2" "512 * (n - 33) + length (secondary_entries g) \<le> length b3"
    using n b len l by simp_all
  have n1: "17408 \<le> 512 * (n - 33)" "512 * (n - 33) + 16384 = 512 * (n - 1)" "17408 \<le> 512 * (n - 1)" using n by auto
  have o: "modified g AND 1 \<noteq> 0 \<or> primary_header g = seg 512 512 b"
    "modified g AND 2 \<noteq> 0 \<or> secondary_header g = seg (512 * (n - 1)) 512 b"
    "modified g AND 4 \<noteq> 0 \<or> primary_entries g = seg 1024 16384 b"
    "modified g AND 8 \<noteq> 0 \<or> secondary_entries g = seg (512 * (n - 33)) 16384 b"
    using sync by (auto simp: in_sync_def gpt_of_def)
  have k1: "seg q k b1 = seg q k b" if "q + k \<le> 512 \<or> 1024 \<le> q" for q k
    unfolding b1_def by (rule put_part_rules(2) [OF fit(1)]) (use that len in simp)
  have k2: "seg q k b2 = seg q k b1" if "q + k \<le> 512 * (n - 1) \<or> 512 * (n - 1) + 512 \<le> q" for q k
    unfolding b2_def by (rule put_part_rules(2) [OF fit(2)]) (use that len in simp)
  have k3: "seg q k b3 = seg q k b2" if "q + k \<le> 1024 \<or> 17408 \<le> q" for q k
    unfolding b3_def by (rule put_part_rules(2) [OF fit(3)]) (use that len in simp)
  have k4: "seg q k b4 = seg q k b3" if "q + k \<le> 512 * (n - 33) \<or> 512 * (n - 1) \<le> q" for q k
    unfolding b4_def by (rule put_part_rules(2) [OF fit(4)]) (use that len n1 in simp)
  have "seg 512 512 b1 = primary_header g"
    unfolding b1_def by (rule put_part_rules(3) [OF fit(1)]) (use len o in simp_all)
  then have h1: "seg 512 512 b4 = primary_header g" using n1 by (simp add: k4 k3 k2)
  have "seg (512 * (n - 1)) 512 b2 = secondary_header g"
    unfolding b2_def by (rule put_part_rules(3) [OF fit(2)]) (use len o n1 in \<open>simp_all add: k1\<close>)
  then have h2: "seg (512 * (n - 1)) 512 b4 = secondary_header g" using n1 by (simp add: k4 k3)
  have "seg 1024 16384 b3 = primary_entries g"
    unfolding b3_def by (rule put_part_rules(3) [OF fit(3)]) (use len o n1 in \<open>simp_all add: k1 k2\<close>)
  then have e1: "seg 1024 16384 b4 = primary_entries g" using n1 by (simp add: k4)
  have e2: "seg (512 * (n - 33)) 16384 b4 = secondary_entries g"
    unfolding b4_def by (rule put_part_rules(3) [OF fit(4)]) (use len o n1 in \<open>simp_all add: k1 k2 k3\<close>)
  have "store_gpt n g b = b4" by (simp add: store_gpt_def b4_def b3_def b2_def b1_def)
  then show ?thesis using h1 h2 e1 e2 s(2,3) by (simp add: gpt_of_def fresh_def zero_gpt_def)
qed

subsection \<open>Valid drives\<close>

text \<open>The file at \<open>path\<close> is a drive of \<open>n\<close> sectors with two valid and agreeing copies of the
  table.\<close>

definition valid_drive :: "fs \<Rightarrow> string \<Rightarrow> nat \<Rightarrow> bool" where
  "valid_drive files path n \<longleftrightarrow>
     (case files path of None \<Rightarrow> False | Some f \<Rightarrow> media f n \<and> gpt_ok (gpt_of n (bytes f)))"

text \<open>The bytes of the drive that do not belong to the tables: the protective MBR and the
  partitions.\<close>

definition same_data :: "nat \<Rightarrow> buffer \<Rightarrow> buffer \<Rightarrow> bool" where
  "same_data n b b' \<longleftrightarrow> seg 0 512 b' = seg 0 512 b \<and>
     seg 17408 (512 * (n - 33) - 17408) b' = seg 17408 (512 * (n - 33) - 17408) b"

lemma gpt_of_fields [simp]:
  "sector_bytes (gpt_of n b) = 512" "drive_sectors (gpt_of n b) = of_nat n" "modified (gpt_of n b) = 0"
  "primary_header (gpt_of n b) = seg 512 512 b" "secondary_header (gpt_of n b) = seg (512 * (n - 1)) 512 b"
  "primary_entries (gpt_of n b) = seg 1024 16384 b" "secondary_entries (gpt_of n b) = seg (512 * (n - 33)) 16384 b"
  by (simp_all add: gpt_of_def zero_gpt_def)

lemma gpt_of_shape:
  assumes "media f n"
  shows "gpt_shape (gpt_of n (bytes f))"
proof -
  have "length (bytes f) = 512 * n" "34 \<le> n" using assms by (simp_all add: media_def)
  moreover from this have "512 * (n - 1) + 512 \<le> length (bytes f)" "512 * (n - 33) + 16384 \<le> length (bytes f)" by auto
  ultimately show ?thesis by (simp add: gpt_shape_def)
qed

lemma gpt_ok_fresh [simp]: "gpt_ok (fresh g) = gpt_ok g"
  by (simp add: gpt_ok_def fresh_def CheckParameters_def)

lemma gpt_ok_masks [simp]:
  "gpt_ok (g\<lparr>valid_headers := a\<rparr>) = gpt_ok g" "gpt_ok (g\<lparr>valid_entries := a\<rparr>) = gpt_ok g"
  "gpt_ok (g\<lparr>modified := m\<rparr>) = gpt_ok g"
  by (simp_all add: gpt_ok_def CheckParameters_def)

lemma store_gpt_data:
  assumes "67 \<le> n" "length b = 512 * n" "gpt_shape g" "sector_bytes g = 512"
  shows "same_data n b (store_gpt n g b)"
proof -
  have len: "length (primary_header g) = 512" "length (secondary_header g) = 512"
    "length (primary_entries g) = 16384" "length (secondary_entries g) = 16384"
    using assms(3,4) by (simp_all add: gpt_shape_def)
  have frame: "seg q k (store_gpt n g b) = seg q k b"
    if "q + k \<le> 512 \<or> 17408 \<le> q \<and> q + k \<le> 512 * (n - 33)" for q k
    unfolding store_gpt_def
    by (subst put_part_rules(2); (use that assms(1,2) len in \<open>auto simp: put_part_rules(1)\<close>)?)+
  show ?thesis using assms(1) by (simp add: same_data_def frame)
qed

text \<open>Closing a drive with an edited state, for all the commands: the status, and what the file holds
  then.\<close>

lemma DriveClose_commit:
  assumes "media (fd d) n" "writable d" "67 \<le> n" "gpt_shape (gpt d)" "sector_bytes (gpt d) = 512"
    "drive_sectors (gpt d) = of_nat n" "in_sync (gpt_of n (bytes (fd d))) (gpt d)"
  shows "\<exists>f'. DriveClose d True = Some (CGPT_OK, f') \<and> media f' n \<and> gpt_of n (bytes f') = fresh (gpt d) \<and>
    same_data n (bytes (fd d)) (bytes f')"
proof -
  have b: "length (bytes (fd d)) = 512 * n" using assms(1) by (simp add: media_def)
  show ?thesis
    using DriveClose_media [OF assms(1,2,4-6)] gpt_of_store_gpt [OF assms(3) b assms(4-7)]
      store_gpt_data [OF assms(3) b assms(4,5)] by auto
qed

text \<open>The tables and the rest make up the whole image.\<close>

lemma image_eqI:
  assumes "67 \<le> n" "length b = 512 * n" "length b' = 512 * n" "gpt_of n b = gpt_of n b'" "same_data n b' b"
  shows "b = b'"
proof -
  have k: "17408 + (512 * (n - 33) - 17408) = 512 * (n - 33)" "512 * (n - 1) = 512 * (n - 33) + 16384"
    "512 * (n - 33) + 16384 + 512 = 512 * n" using assms(1) by simp_all
  have cut: "b = seg 0 512 b @ seg 512 512 b @ seg 1024 16384 b @ seg 17408 (512 * (n - 33) - 17408) b @
      seg (512 * (n - 33)) 16384 b @ seg (512 * (n - 1)) 512 b" if "length b = 512 * n" for b :: buffer
  proof -
    have "seg 0 512 b @ seg 512 512 b @ seg 1024 16384 b @ seg 17408 (512 * (n - 33) - 17408) b @
      seg (512 * (n - 33)) 16384 b @ seg (512 * (n - 1)) 512 b = seg 0 (512 * n) b"
      using seg_join [of 512 0 512 b 512] seg_join [of 1024 0 1024 b 16384]
        seg_join [of 17408 0 17408 b "512 * (n - 33) - 17408"] seg_join [of "512 * (n - 33)" 0 _ b 16384]
        seg_join [of "512 * (n - 1)" 0 "512 * (n - 33) + 16384" b 512] k
      by (simp del: append_assoc flip: append_assoc)
    with that show ?thesis by simp
  qed
  have "seg 512 512 b = seg 512 512 b'" "seg (512 * (n - 1)) 512 b = seg (512 * (n - 1)) 512 b'"
    "seg 1024 16384 b = seg 1024 16384 b'" "seg (512 * (n - 33)) 16384 b = seg (512 * (n - 33)) 16384 b'"
    using assms(4) by (metis gpt_of_fields(4-7))+
  with assms(5) cut [OF assms(2)] cut [OF assms(3)] show ?thesis unfolding same_data_def by metis
qed

lemma same_data_trans: "same_data n a b \<Longrightarrow> same_data n b c \<Longrightarrow> same_data n a c"
  by (simp add: same_data_def)

lemma DriveClose_readonly: "DriveClose d False = Some (CGPT_OK, fd d)"
  by (simp add: DriveClose_def)

lemma DriveClose_clean: "modified (gpt d) = 0 \<Longrightarrow> DriveClose d True = Some (CGPT_OK, fd d)"
  by (simp add: DriveClose_def save_part_def)

text \<open>C11: What \<open>DriveClose\<close> writes, the next \<open>DriveOpen\<close> reads: on a defect-free drive of at least 67
  sectors, when every changed part of the tables is flagged as modified, closing succeeds, reopening
  yields exactly the four buffers that were in memory, and neither the protective MBR nor any byte of
  the partition area has changed.\<close>

theorem close_open_round_trip:
  assumes "media (fd d) n" "writable d" "67 \<le> n" "gpt_shape (gpt d)" "sector_bytes (gpt d) = 512"
    "drive_sectors (gpt d) = of_nat n" "in_sync (gpt_of n (bytes (fd d))) (gpt d)"
  shows "\<exists>f' d'. DriveClose d True = Some (CGPT_OK, f') \<and>
    DriveOpen [path \<mapsto> f'] path rdwr = Some (Some d') \<and> gpt d' = fresh (gpt d) \<and>
    same_data n (bytes (fd d)) (bytes f')"
proof -
  obtain f' where f': "DriveClose d True = Some (CGPT_OK, f')" "media f' n" "gpt_of n (bytes f') = fresh (gpt d)"
    "same_data n (bytes (fd d)) (bytes f')" using DriveClose_commit [OF assms] by blast
  with DriveOpen_media [of "[path \<mapsto> f']" path f' n rdwr] show ?thesis by simp
qed

text \<open>A file of zeroes as an example of a drive.\<close>

definition blank_file :: "nat \<Rightarrow> blkdev" where
  "blank_file n = \<lparr>bytes = replicate (512 * n) 0, regular = True, stat_ok = True, blk_size = None, blk_ssz = None,
     bad_read = (\<lambda>_. False), bad_write = (\<lambda>_. False)\<rparr>"

lemma blank_file_media: "34 \<le> n \<Longrightarrow> 512 * n < 2 ^ 63 \<Longrightarrow> media (blank_file n) n"
  by (simp add: media_def blank_file_def healthy_def)

theorem close_open_round_trip_witness:
  "\<exists>f' d'. DriveClose \<lparr>fd = blank_file 100, writable = True, dsize = 51200,
      gpt = (gpt_of 100 (bytes (blank_file 100)))\<lparr>primary_header := replicate 512 7, modified := 1\<rparr>,
      dpmbr = zero_pmbr\<rparr> True = Some (CGPT_OK, f') \<and>
    DriveOpen [''img'' \<mapsto> f'] ''img'' False = Some (Some d') \<and> primary_header (gpt d') = replicate 512 7"
  (is "\<exists>f' d'. DriveClose ?d True = _ \<and> _")
proof -
  have m: "media (blank_file 100) 100" by (rule blank_file_media) simp_all
  have "\<exists>f' d'. DriveClose ?d True = Some (CGPT_OK, f') \<and> DriveOpen [''img'' \<mapsto> f'] ''img'' False = Some (Some d') \<and>
      gpt d' = fresh (gpt ?d) \<and> same_data 100 (bytes (fd ?d)) (bytes f')"
    by (rule close_open_round_trip)
      (use m gpt_of_shape [OF m] in \<open>simp_all add: gpt_shape_def in_sync_def\<close>)
  then show ?thesis by (auto simp: fresh_def)
qed

end
