(* ===== verification/Cgpt_Cmds.thy ===== *)
theory Cgpt_Cmds
  imports Drive
begin

text \<open>
  The commands that work on a whole table: \<open>cgpt_create.c\<close>, \<open>cgpt_repair.c\<close> and
  \<open>cgpt_legacy.c\<close>. A command maps the files of the system to its status and
  the files it leaves; \<open>None\<close> is a process that has ended before it returned. The pointer
  \<open>params\<close> is an option, null being \<open>None\<close>, and the function behind \<open>uuid_generator\<close> is
  given by the 16 bytes it stores, \<open>None\<close> when the pointer is not set.
\<close>

unbundle bit_operations_syntax

type_synonym command_result = "(cgpt_status \<times> fs) option"

definition cgpt_uuid_generate :: "buffer option \<Rightarrow> buffer" where
  "cgpt_uuid_generate urandom =
    (case urandom of None \<Rightarrow> replicate 16 0 | Some stream \<Rightarrow> overlay 0 (take 16 stream) (replicate 16 0))"

text \<open>\<open>return DriveClose(&drive, 1)\<close>, and the label \<open>bad:\<close>.\<close>

definition close_drive :: "string \<Rightarrow> fs \<Rightarrow> drive \<Rightarrow> bool \<Rightarrow> command_result" where
  "close_drive path files d update = do { (st, f) \<leftarrow> DriveClose d update; Some (st, files(path \<mapsto> f)) }"

definition close_failed :: "string \<Rightarrow> fs \<Rightarrow> drive \<Rightarrow> command_result" where
  "close_failed path files d = do { (st, files') \<leftarrow> close_drive path files d False; Some (CGPT_FAILED, files') }"

subsection \<open>create\<close>

record CgptCreateParams =
  cr_drive_name :: string
  zap :: bool

definition zero_buffers :: "GptData \<Rightarrow> GptData" where
  "zero_buffers g = (let z = (\<lambda>n b. overlay 0 (replicate n 0) b);
      h = unat (sector_bytes g); e = unat (sector_bytes g * 32)
    in g\<lparr>primary_header := z h (primary_header g), secondary_header := z h (secondary_header g),
         primary_entries := z e (primary_entries g), secondary_entries := z e (secondary_entries g)\<rparr>)"

definition init_header :: "u64 \<Rightarrow> buffer \<Rightarrow> GptHeader \<Rightarrow> GptHeader" where
  "init_header sectors uuid h = h\<lparr>signature := GPT_HEADER_SIGNATURE, revision := GPT_HEADER_REVISION, h_size := 92,
     my_lba := 1, alternate_lba := sectors - 1, first_usable_lba := 1 + 1 + GPT_ENTRIES_SECTORS,
     last_usable_lba := sectors - 1 - GPT_ENTRIES_SECTORS - 1, disk_uuid := dec_guid uuid,
     entries_lba := 2, number_of_entries := 128, size_of_entry := 128\<rparr>"

definition cgpt_create :: "buffer option \<Rightarrow> CgptCreateParams option \<Rightarrow> fs \<Rightarrow> command_result" where
  "cgpt_create uuid_generator params files =
    (case params of None \<Rightarrow> Some (CGPT_FAILED, files) | Some p \<Rightarrow>
     do { r \<leftarrow> DriveOpen files (cr_drive_name p) True;
          case r of None \<Rightarrow> Some (CGPT_FAILED, files) | Some d \<Rightarrow>
          let g = (zero_buffers (gpt d))\<lparr>modified := modified (gpt d) OR MODIFIED_ALL\<rparr>
          in if zap p then close_drive (cr_drive_name p) files (d\<lparr>gpt := g\<rparr>) True
             else (case uuid_generator of
                None \<Rightarrow> close_failed (cr_drive_name p) files (d\<lparr>gpt := g\<rparr>)
              | Some uuid \<Rightarrow>
                  let g = g\<lparr>primary_header := put_hdr (init_header (drive_sectors g) uuid (hdr (primary_header g)))
                              (primary_header g)\<rparr>;
                      g = UpdateCrc (fst (RepairHeader g MASK_PRIMARY))
                  in close_drive (cr_drive_name p) files (d\<lparr>gpt := g\<rparr>) True) })"

subsection \<open>repair\<close>

record CgptRepairParams =
  rp_drive_name :: string
  rp_verbose :: bool

definition cgpt_repair :: "CgptRepairParams option \<Rightarrow> fs \<Rightarrow> command_result" where
  "cgpt_repair params files =
    (case params of None \<Rightarrow> Some (CGPT_FAILED, files) | Some p \<Rightarrow>
     do { r \<leftarrow> DriveOpen files (rp_drive_name p) True;
          case r of None \<Rightarrow> Some (CGPT_FAILED, files) | Some d \<Rightarrow>
          close_drive (rp_drive_name p) files (d\<lparr>gpt := GptRepair (fst (GptSanityCheck (gpt d)))\<rparr>) True })"

subsection \<open>legacy\<close>

record CgptLegacyParams =
  lg_drive_name :: string
  efipart :: bool

definition set_signatures :: "byte list \<Rightarrow> GptData \<Rightarrow> GptData" where
  "set_signatures s g = g\<lparr>
     primary_header := put_hdr ((hdr (primary_header g))\<lparr>signature := s\<rparr>) (primary_header g),
     secondary_header := put_hdr ((hdr (secondary_header g))\<lparr>signature := s\<rparr>) (secondary_header g)\<rparr>"

definition legacy_edit :: "bool \<Rightarrow> GptData \<Rightarrow> GptData" where
  "legacy_edit efi g =
    (let g = (if efi then fst (RepairEntries (set_signatures GPT_HEADER_SIGNATURE g) MASK_SECONDARY)
              else let g = set_signatures GPT_HEADER_SIGNATURE2 g
                   in g\<lparr>primary_entries := overlay 0 (replicate (unat (sector_bytes g)) 0) (primary_entries g)\<rparr>);
         g = g\<lparr>modified := modified g OR (GPT_MODIFIED_HEADER1 OR GPT_MODIFIED_ENTRIES1 OR GPT_MODIFIED_HEADER2)\<rparr>
     in UpdateCrc g)"

definition cgpt_legacy :: "CgptLegacyParams option \<Rightarrow> fs \<Rightarrow> command_result" where
  "cgpt_legacy params files =
    (case params of None \<Rightarrow> Some (CGPT_FAILED, files) | Some p \<Rightarrow>
     do { r \<leftarrow> DriveOpen files (lg_drive_name p) True;
          case r of None \<Rightarrow> Some (CGPT_FAILED, files) | Some d \<Rightarrow>
          close_drive (lg_drive_name p) files (d\<lparr>gpt := legacy_edit (efipart p) (gpt d)\<rparr>) True })"

subsection \<open>Closing with a committed table\<close>

lemma zero_buffers_gpt_of:
  assumes "media f n"
  shows "zero_buffers (gpt_of n (bytes f)) = (gpt_of n (bytes f))\<lparr>primary_header := replicate 512 0,
     secondary_header := replicate 512 0, primary_entries := replicate 16384 0, secondary_entries := replicate 16384 0\<rparr>"
  using gpt_of_shape [OF assms] by (simp add: zero_buffers_def gpt_shape_def overlay_all Let_def)

lemma commit_primary_frame:
  assumes "gpt_shape g" "sector_bytes g = 512" "signature (hdr (primary_header g)) = GPT_HEADER_SIGNATURE"
    "h_size (hdr (primary_header g)) = 92"
  shows "gpt_shape (commit_primary g)" "sector_bytes (commit_primary g) = 512"
    "drive_sectors (commit_primary g) = drive_sectors g" "in_sync g0 (commit_primary g)"
    "primary_entries (commit_primary g) = primary_entries g" "secondary_entries (commit_primary g) = primary_entries g"
    "modified (commit_primary g) = modified g OR MODIFIED_ALL"
proof -
  have len: "92 \<le> length (primary_header g)" "92 \<le> length (secondary_header g)"
      "length (primary_entries g) = 16384" "length (secondary_entries g) = 16384"
      "length (primary_header g) = 512" "length (secondary_header g) = 512"
    using assms(1,2) by (simp_all add: gpt_shape_def)
  note eq = commit_primary_eq [OF len(1-4) assms(3,4)]
  show "gpt_shape (commit_primary g)"
    using len assms(2) unfolding eq by (simp add: gpt_shape_def set_header_crc_put)
  show "in_sync g0 (commit_primary g)" unfolding eq by (simp add: in_sync_def)
  show "sector_bytes (commit_primary g) = 512" "drive_sectors (commit_primary g) = drive_sectors g"
    "primary_entries (commit_primary g) = primary_entries g" "secondary_entries (commit_primary g) = primary_entries g"
    "modified (commit_primary g) = modified g OR MODIFIED_ALL"
    unfolding eq using assms(2) by simp_all
qed

lemma close_committed:
  assumes m: "media (fd d) n" and w: "writable d" and n: "67 \<le> n" and g: "gpt d = commit_primary g"
    and s: "gpt_shape g" "sector_bytes g = 512" "drive_sectors g = of_nat n"
    and h: "header_common (hdr (primary_header g)) (of_nat n)" "header_placed False (hdr (primary_header g)) (of_nat n)"
      "signature (hdr (primary_header g)) = GPT_HEADER_SIGNATURE" "h_size (hdr (primary_header g)) = 92"
    and t: "table_valid (hdr (primary_header g)) (entries_of 128 (primary_entries g))"
  shows "\<exists>f'. close_drive path files d True = Some (CGPT_OK, files(path \<mapsto> f')) \<and> media f' n \<and>
    gpt_of n (bytes f') = fresh (commit_primary g) \<and> gpt_ok (gpt_of n (bytes f')) \<and> same_data n (bytes (fd d)) (bytes f')"
proof -
  have u: "unat (of_nat n :: u64) = n" using media_bound [OF m] by (intro small_u64) simp
  have par: "CheckParameters g = GPT_SUCCESS" using s n u by (simp add: CheckParameters_success word_le_nat_alt)
  have ok: "gpt_ok (commit_primary g)"
    by (rule commit_primary_ok [OF s(1) par]) (use h t s(3) in simp_all)
  note fr = commit_primary_frame [OF s(1,2) h(3,4)]
  obtain f' where "DriveClose d True = Some (CGPT_OK, f')" "media f' n" "gpt_of n (bytes f') = fresh (gpt d)"
      "same_data n (bytes (fd d)) (bytes f')"
    using DriveClose_commit [OF m w n] fr s(3) g by metis
  with ok g show ?thesis by (auto simp: close_drive_def)
qed

lemma update_is_commit:
  assumes "92 \<le> length (primary_header g)" "length (primary_entries g) = 16384"
    "signature (hdr (primary_header g)) = GPT_HEADER_SIGNATURE" "secondary_entries g = primary_entries g"
    "modified g = m OR MODIFIED_ALL"
  shows "UpdateCrc (fst (RepairHeader g MASK_PRIMARY)) = commit_primary g"
proof -
  have "fst (RepairEntries g MASK_PRIMARY) = g"
    using assms by (simp add: RepairEntries_def Let_def overlay_all)
  moreover have "modified (fst (RepairHeader g MASK_PRIMARY)) = m OR MODIFIED_ALL"
    using assms by (simp add: RepairHeader_def Let_def)
  then have "(fst (RepairHeader g MASK_PRIMARY))\<lparr>modified := modified (fst (RepairHeader g MASK_PRIMARY)) OR MODIFIED_ALL\<rparr>
      = fst (RepairHeader g MASK_PRIMARY)"
    by (simp add: or.assoc)
  ultimately show ?thesis by (simp add: commit_primary_def Let_def)
qed

subsection \<open>The entries of a valid table\<close>

lemma valid_gpt_entries:
  assumes "gpt_ok g"
  defines "g' \<equiv> g\<lparr>valid_headers := MASK_BOTH, valid_entries := MASK_BOTH\<rparr>"
  shows "GetNumberOfEntries g' = 128" "i < 128 \<Longrightarrow> GetEntry g' ANY_VALID (of_nat i) = Some (False, 128 * i)"
    "i < 128 \<Longrightarrow> GetEntry g' PRIMARY (of_nat i) = Some (False, 128 * i)"
    "i < 128 \<Longrightarrow> load_entry g' (False, 128 * i) = entries_of 128 (primary_entries g) ! i"
proof -
  have h: "number_of_entries (hdr (primary_header g)) = 128" "size_of_entry (hdr (primary_header g)) = 128"
    using assms(1) by (auto simp: gpt_ok_def CheckHeader_valid_iff header_common_def)
  then show num: "GetNumberOfEntries g' = 128" by (simp add: g'_def GetNumberOfEntries_def)
  have sz: "GetSizeOfEntries g' = 128" using h by (simp add: g'_def GetSizeOfEntries_def)
  have "unat (128 * of_nat i :: u32) = 128 * i" "(of_nat i :: u32) < 128" if "i < 128"
  proof -
    have "(128 * of_nat i :: u32) = of_nat (128 * i)" by simp
    then show "unat (128 * of_nat i :: u32) = 128 * i" using that by (simp only: unat_of_nat) (simp add: take_bit_nat_eq_self)
    show "(of_nat i :: u32) < 128" using that by (simp add: word_less_nat_alt unat_of_nat take_bit_nat_eq_self)
  qed
  then show "i < 128 \<Longrightarrow> GetEntry g' ANY_VALID (of_nat i) = Some (False, 128 * i)"
    "i < 128 \<Longrightarrow> GetEntry g' PRIMARY (of_nat i) = Some (False, 128 * i)"
    using num sz by (simp_all add: GetEntry_def Let_def) (simp_all add: g'_def)
  show "i < 128 \<Longrightarrow> load_entry g' (False, 128 * i) = entries_of 128 (primary_entries g) ! i"
    by (simp add: load_entry_def g'_def)
qed

subsection \<open>Creating a table\<close>

text \<open>The state that \<open>cgpt_create\<close> commits.\<close>

definition created :: "nat \<Rightarrow> buffer \<Rightarrow> buffer \<Rightarrow> GptData" where
  "created n uuid b = (gpt_of n b)\<lparr>secondary_header := replicate 512 0,
     primary_entries := replicate 16384 0, secondary_entries := replicate 16384 0, modified := MODIFIED_ALL,
     primary_header := put_hdr (init_header (of_nat n) uuid (hdr (replicate 512 0))) (replicate 512 0)\<rparr>"

lemma le_word_zero: "le_word (replicate k 0) = 0"
  by (induction k) simp_all

lemma init_header_facts:
  assumes "length uuid = 16" "media f n" "68 \<le> n"
  defines "h \<equiv> init_header (of_nat n) uuid (hdr (replicate 512 0))"
  shows "header_wf h" "header_common h (of_nat n)" "header_placed False h (of_nat n)"
    "signature h = GPT_HEADER_SIGNATURE" "h_size h = 92"
proof -
  have u: "unat (of_nat n :: u64) = n" using media_bound [OF assms(2)] by (intro small_u64) simp
  have n: "(68 :: u64) \<le> of_nat n" using assms(3) u by (simp add: word_le_nat_alt)
  have wf: "header_wf (hdr (replicate 512 0))" by simp
  then show "header_wf h" using assms(1) by (simp add: h_def init_header_def header_wf_def guid.wf_dec)
  have "reserved_zero (hdr (replicate 512 0)) = 0"
    by (simp add: get_at_def dec_header_def seg_replicate le_word_zero)
  then show "header_common h (of_nat n)"
    using drive_room [OF n] by (simp add: h_def init_header_def header_common_def)
  show "header_placed False h (of_nat n)" "signature h = GPT_HEADER_SIGNATURE" "h_size h = 92"
    by (simp_all add: h_def init_header_def header_placed_def)
qed

text \<open>A table in its usual form: the \<open>EFI PART\<close> signature and a header of 92 bytes.\<close>

definition usual_gpt :: "GptData \<Rightarrow> bool" where
  "usual_gpt g \<longleftrightarrow> signature (hdr (primary_header g)) = GPT_HEADER_SIGNATURE \<and> h_size (hdr (primary_header g)) = 92"

lemma created_facts:
  assumes f: "media f n" and n: "68 \<le> n" and u: "length uuid = 16"
  defines "g \<equiv> created n uuid (bytes f)"
  shows "hdr (primary_header g) = init_header (of_nat n) uuid (hdr (replicate 512 0))"
    and "gpt_shape g" "sector_bytes g = 512" "drive_sectors g = of_nat n"
    and "table_valid (hdr (primary_header g)) (entries_of 128 (primary_entries g))"
    and "UpdateCrc (fst (RepairHeader g MASK_PRIMARY)) = commit_primary g"
    and "gpt_ok (commit_primary g)" "usual_gpt g"
proof -
  note h = init_header_facts [OF u f n]
  show hg: "hdr (primary_header g) = init_header (of_nat n) uuid (hdr (replicate 512 0))"
    and shape: "gpt_shape g" "sector_bytes g = 512" "drive_sectors g = of_nat n"
    using h(1) by (simp_all add: g_def created_def gpt_shape_def)
  show t: "table_valid (hdr (primary_header g)) (entries_of 128 (primary_entries g))"
    by (simp add: g_def created_def table_valid_zero)
  show "UpdateCrc (fst (RepairHeader g MASK_PRIMARY)) = commit_primary g"
    by (rule update_is_commit [where m = MODIFIED_ALL])
      (use h hg in \<open>simp_all add: g_def created_def\<close>)
  have nn: "unat (of_nat n :: u64) = n" using media_bound [OF f] by (intro small_u64) simp
  have par: "CheckParameters g = GPT_SUCCESS" using shape n nn by (simp add: CheckParameters_success word_le_nat_alt)
  show "gpt_ok (commit_primary g)"
    by (rule commit_primary_ok [OF shape(1) par]) (use h hg t shape(3) in simp_all)
  show "usual_gpt g" using h hg by (simp add: usual_gpt_def)
qed

lemma cgpt_create_result:
  assumes f: "files path = Some f" "media f n" and n: "68 \<le> n" and u: "length uuid = 16"
  shows "\<exists>f'. cgpt_create (Some uuid) (Some \<lparr>cr_drive_name = path, zap = False\<rparr>) files =
      Some (CGPT_OK, files(path \<mapsto> f')) \<and> media f' n \<and> gpt_of n (bytes f') = fresh (commit_primary (created n uuid (bytes f))) \<and>
      same_data n (bytes f) (bytes f')"
proof -
  define d where "d = \<lparr>fd = f, writable = True, dsize = of_nat (512 * n), gpt = gpt_of n (bytes f), dpmbr = zero_pmbr\<rparr>"
  define g where "g = created n uuid (bytes f)"
  note c = created_facts [OF f(2) n u, folded g_def] and h = init_header_facts [OF u f(2) n]
  have run: "cgpt_create (Some uuid) (Some \<lparr>cr_drive_name = path, zap = False\<rparr>) files =
      close_drive path files (d\<lparr>gpt := commit_primary g\<rparr>) True"
    using DriveOpen_media [of files path, OF f] zero_buffers_gpt_of [OF f(2)]
    by (simp add: cgpt_create_def Let_def d_def flip: c(6)) (simp add: g_def created_def)
  have "\<exists>f'. close_drive path files (d\<lparr>gpt := commit_primary g\<rparr>) True = Some (CGPT_OK, files(path \<mapsto> f')) \<and>
      media f' n \<and> gpt_of n (bytes f') = fresh (commit_primary g) \<and> gpt_ok (gpt_of n (bytes f')) \<and>
      same_data n (bytes (fd (d\<lparr>gpt := commit_primary g\<rparr>))) (bytes f')"
    by (rule close_committed [where g = g]) (use f(2) n c h in \<open>simp_all add: d_def\<close>)
  then show ?thesis using run by (auto simp: d_def g_def)
qed

lemma created_entries:
  assumes "media f n" "68 \<le> n" "length uuid = 16"
  shows "primary_entries (commit_primary (created n uuid (bytes f))) = replicate 16384 0"
    "secondary_entries (commit_primary (created n uuid (bytes f))) = replicate 16384 0"
  using commit_primary_frame(5,6) [OF created_facts(2,3) [OF assms]] created_facts(1,8) [OF assms] unfolding usual_gpt_def
  by (simp_all add: created_def)

text \<open>C30: \<open>cgpt_create\<close> on any defect-free drive of at least 68 sectors, whatever it holds, succeeds and
  leaves two valid, agreeing copies of an empty table; the protective MBR and the partition area keep
  their bytes.\<close>

theorem cgpt_create_makes_valid:
  assumes "files path = Some f" "media f n" "68 \<le> n" "length uuid = 16"
  shows "\<exists>f'. cgpt_create (Some uuid) (Some \<lparr>cr_drive_name = path, zap = False\<rparr>) files =
      Some (CGPT_OK, files(path \<mapsto> f')) \<and> valid_drive (files(path \<mapsto> f')) path n \<and>
      seg 1024 16384 (bytes f') = replicate 16384 0 \<and> same_data n (bytes f) (bytes f')"
proof -
  from cgpt_create_result [of files path, OF assms] obtain f' where
    "cgpt_create (Some uuid) (Some \<lparr>cr_drive_name = path, zap = False\<rparr>) files = Some (CGPT_OK, files(path \<mapsto> f'))"
    "media f' n" "gpt_of n (bytes f') = fresh (commit_primary (created n uuid (bytes f)))"
    "same_data n (bytes f) (bytes f')" by blast
  moreover from this have "seg 1024 16384 (bytes f') = primary_entries (fresh (commit_primary (created n uuid (bytes f))))"
    by (metis gpt_of_fields(6))
  ultimately show ?thesis
    using created_facts(7) [OF assms(2-4)] created_entries [OF assms(2-4)]
    by (intro exI [of _ f']) (simp add: valid_drive_def)
qed

theorem cgpt_create_makes_valid_witness:
  "\<exists>f'. cgpt_create (Some (replicate 16 5)) (Some \<lparr>cr_drive_name = ''img'', zap = False\<rparr>) [''img'' \<mapsto> blank_file 100] =
      Some (CGPT_OK, [''img'' \<mapsto> f']) \<and> valid_drive [''img'' \<mapsto> f'] ''img'' 100"
proof -
  have m: "media (blank_file 100) 100" by (rule blank_file_media) simp_all
  show ?thesis
    using cgpt_create_makes_valid [of "[''img'' \<mapsto> blank_file 100]" "''img''" "blank_file 100" 100 "replicate 16 5"] m
    by auto
qed

text \<open>On a drive of 67 sectors, the smallest that \<open>CheckParameters\<close> accepts, \<open>cgpt_create\<close> reports
  success but writes headers that \<open>GptSanityCheck\<close> rejects: the region it computes is empty, its
  first usable sector 34 lying behind its last one 33.\<close>

theorem cgpt_create_67_sectors:
  assumes "files path = Some f" "media f 67" "length uuid = 16"
  shows "\<exists>f'. cgpt_create (Some uuid) (Some \<lparr>cr_drive_name = path, zap = False\<rparr>) files =
      Some (CGPT_OK, files(path \<mapsto> f')) \<and>
      CheckParameters (gpt_of 67 (bytes f')) = GPT_SUCCESS \<and>
      snd (GptSanityCheck (gpt_of 67 (bytes f'))) = GPT_ERROR_INVALID_HEADERS"
proof -
  define d where "d = \<lparr>fd = f, writable = True, dsize = of_nat (512 * 67), gpt = gpt_of 67 (bytes f), dpmbr = zero_pmbr\<rparr>"
  define g where "g = created 67 uuid (bytes f)"
  define h where "h = init_header (of_nat 67) uuid (hdr (replicate 512 0))"
  have wf: "header_wf h" using assms(3) by (simp add: h_def init_header_def header_wf_def guid.wf_dec)
  have hg: "hdr (primary_header g) = h" "signature h = GPT_HEADER_SIGNATURE" "h_size h = 92"
      "first_usable_lba h = 34" "last_usable_lba h = 33"
    and shape: "gpt_shape g" "sector_bytes g = 512" "drive_sectors g = of_nat 67"
    using wf by (simp_all add: g_def created_def gpt_shape_def h_def) (simp_all add: init_header_def)
  have len: "92 \<le> length (primary_header g)" "92 \<le> length (secondary_header g)"
      "length (primary_entries g) = 16384" "length (secondary_entries g) = 16384"
    using shape by (simp_all add: gpt_shape_def)
  have commit: "UpdateCrc (fst (RepairHeader g MASK_PRIMARY)) = commit_primary g"
    by (rule update_is_commit [OF len(1,3), where m = MODIFIED_ALL]) (use hg in simp, simp_all add: g_def created_def)
  have run: "cgpt_create (Some uuid) (Some \<lparr>cr_drive_name = path, zap = False\<rparr>) files =
      close_drive path files (d\<lparr>gpt := commit_primary g\<rparr>) True"
    using DriveOpen_media [of files path, OF assms(1,2)] zero_buffers_gpt_of [OF assms(2)]
    by (simp add: cgpt_create_def Let_def d_def flip: commit) (simp add: g_def created_def)
  note fr = commit_primary_frame [OF shape(1,2), unfolded hg, OF refl refl]
  obtain f' where f': "DriveClose (d\<lparr>gpt := commit_primary g\<rparr>) True = Some (CGPT_OK, f')"
      "gpt_of 67 (bytes f') = fresh (commit_primary g)"
    using DriveClose_commit [of "d\<lparr>gpt := commit_primary g\<rparr>" 67] fr shape(3) assms(2) by (auto simp: d_def)
  have bad: "\<not> header_common (hdr (primary_header (commit_primary g))) k" "\<not> header_common (hdr (secondary_header (commit_primary g))) k" for k
    using hg wf len by (simp_all add: commit_primary_eq [OF len] set_header_crc_put header_common_def)
  have "headers_mask (fresh (commit_primary g)\<lparr>valid_headers := 0, valid_entries := 0\<rparr>) = 0"
    using bad by (simp add: headers_mask_def CheckHeader_valid_iff fresh_def)
  then have "snd (GptSanityCheck (fresh (commit_primary g))) = GPT_ERROR_INVALID_HEADERS"
    and "CheckParameters (fresh (commit_primary g)) = GPT_SUCCESS"
    using fr shape by (simp_all add: GptSanityCheck_def Let_def fresh_def CheckParameters_success)
  then show ?thesis using f' run by (auto simp: close_drive_def)
qed

theorem cgpt_create_67_sectors_witness:
  "\<exists>f'. cgpt_create (Some (replicate 16 5)) (Some \<lparr>cr_drive_name = ''img'', zap = False\<rparr>) [''img'' \<mapsto> blank_file 67] =
      Some (CGPT_OK, [''img'' \<mapsto> f']) \<and> snd (GptSanityCheck (gpt_of 67 (bytes f'))) = GPT_ERROR_INVALID_HEADERS"
proof -
  have m: "media (blank_file 67) 67" by (rule blank_file_media) simp_all
  show ?thesis
    using cgpt_create_67_sectors [of "[''img'' \<mapsto> blank_file 67]" "''img''" "blank_file 67" "replicate 16 5"] m
    by auto
qed

text \<open>The drive that \<open>cgpt_create\<close> makes of 100 sectors of zeroes, for the examples.\<close>

definition new_gpt :: GptData where
  "new_gpt = commit_primary (created 100 (replicate 16 5) (bytes (blank_file 100)))"

definition new_file :: blkdev where
  "new_file = (blank_file 100)\<lparr>bytes := store_gpt 100 new_gpt (bytes (blank_file 100))\<rparr>"

lemma new_file_facts:
  "media new_file 100" "gpt_of 100 (bytes new_file) = fresh new_gpt" "gpt_ok new_gpt" "usual_gpt new_gpt"
  "primary_entries new_gpt = replicate 16384 0" "secondary_entries new_gpt = replicate 16384 0"
  "first_usable_lba (hdr (primary_header new_gpt)) = 34" "last_usable_lba (hdr (primary_header new_gpt)) = 66"
proof -
  have m: "media (blank_file 100) 100" by (rule blank_file_media) simp_all
  let ?g = "created 100 (replicate 16 5) (bytes (blank_file 100))"
  define d where "d = \<lparr>fd = blank_file 100, writable = True, dsize = of_nat (512 * 100), gpt = new_gpt, dpmbr = zero_pmbr\<rparr>"
  note c = created_facts [OF m, of "replicate 16 5", simplified]
  have u: "signature (hdr (primary_header ?g)) = GPT_HEADER_SIGNATURE" "h_size (hdr (primary_header ?g)) = 92"
    using c(8) by (simp_all add: usual_gpt_def)
  note fr = commit_primary_frame [OF c(2,3) u, folded new_gpt_def]
  have ds: "drive_sectors new_gpt = of_nat 100" using fr(3) c(4) by simp
  have l: "length (bytes (blank_file 100)) = 512 * 100" by (simp add: blank_file_def)
  show "gpt_of 100 (bytes new_file) = fresh new_gpt"
    using gpt_of_store_gpt [OF _ l fr(1,2) ds fr(4)] by (simp add: new_file_def)
  have "fd d = blank_file 100" "gpt d = new_gpt" "writable d" by (simp_all add: d_def)
  with DriveClose_media [of d 100] m fr(1,2) ds show "media new_file 100" by (simp add: new_file_def)
  show "gpt_ok new_gpt" using c(7) by (simp add: new_gpt_def)
  have len: "92 \<le> length (primary_header ?g)" "92 \<le> length (secondary_header ?g)"
    "length (primary_entries ?g) = 16384" "length (secondary_entries ?g) = 16384"
    using c(2,3) by (simp_all add: gpt_shape_def)
  show "usual_gpt new_gpt"
    using u len unfolding new_gpt_def commit_primary_eq [OF len u] by (simp add: usual_gpt_def set_header_crc_put)
  show "first_usable_lba (hdr (primary_header new_gpt)) = 34" "last_usable_lba (hdr (primary_header new_gpt)) = 66"
    using len unfolding new_gpt_def commit_primary_eq [OF len u]
    by (simp_all add: set_header_crc_put) (simp_all add: c(1) init_header_def)
  show "primary_entries new_gpt = replicate 16384 0" "secondary_entries new_gpt = replicate 16384 0"
    using created_entries [OF m, of "replicate 16 5"] by (simp_all add: new_gpt_def)
qed

subsection \<open>Repairing a drive\<close>

lemma GptSanityCheck_failed:
  assumes "snd (GptSanityCheck g) \<noteq> GPT_SUCCESS"
  shows "GptRepair (fst (GptSanityCheck g)) = fst (GptSanityCheck g) \<and> modified (fst (GptSanityCheck g)) = modified g"
proof -
  define g0 where "g0 = g\<lparr>valid_headers := 0, valid_entries := 0\<rparr>"
  have "(valid_headers (fst (GptSanityCheck g)) = 0 \<or> valid_entries (fst (GptSanityCheck g)) = 0) \<and>
      modified (fst (GptSanityCheck g)) = modified g"
  proof (cases "CheckParameters g0 = GPT_SUCCESS \<and> headers_mask g0 \<noteq> 0")
    case False
    then show ?thesis by (auto simp: GptSanityCheck_def Let_def g0_def [symmetric]) (simp_all add: g0_def)
  next
    case True
    then show ?thesis
      using assms unfolding GptSanityCheck_def Let_def g0_def [symmetric]
      by (simp split: if_splits) (simp_all add: g0_def)
  qed
  then show ?thesis by (auto simp: GptRepair_def)
qed

lemma or_flag [simp]: "(m OR 1) AND 1 \<noteq> (0 :: byte)" "(m OR 2) AND 2 \<noteq> (0 :: byte)"
  "(m OR 4) AND 4 \<noteq> (0 :: byte)" "(m OR 8) AND 8 \<noteq> (0 :: byte)"
proof -
  have b: "(m OR 2 ^ k) AND 2 ^ k \<noteq> 0" if "k < 8" for k
    using that by (simp add: and_exp_eq_0_iff_not_bit bit_or_iff bit_exp_iff)
  show "(m OR 1) AND 1 \<noteq> 0" "(m OR 2) AND 2 \<noteq> 0" "(m OR 4) AND 4 \<noteq> 0" "(m OR 8) AND 8 \<noteq> 0"
    using b [of 0] b [of 1] b [of 2] b [of 3] by simp_all
qed

lemma GptRepair_frame:
  assumes "gpt_shape g" "valid_copies g" "CheckParameters g = GPT_SUCCESS" "modified g = 0"
  shows "in_sync g (GptRepair g)" "gpt_shape (GptRepair g)" "sector_bytes (GptRepair g) = 512"
    "drive_sectors (GptRepair g) = drive_sectors g"
proof -
  note r = GptRepair_entries [OF assms(1-3)]
  have s: "sector_bytes g = 512" using assms(3) by (simp add: CheckParameters_success)
  show "in_sync g (GptRepair g)" unfolding r Let_def repair_headers_def in_sync_def using assms(4) by auto
  show "gpt_shape (GptRepair g)" "sector_bytes (GptRepair g) = 512" "drive_sectors (GptRepair g) = drive_sectors g"
    using repair_headers_ok(5) [OF assms(1-3)] assms(1) s unfolding r by (auto simp: Let_def gpt_shape_def)
qed

text \<open>C3: When \<open>GptSanityCheck\<close> finds a usable header and a usable table on a defect-free drive,
  \<open>cgpt_repair\<close> succeeds and leaves two valid, agreeing copies, without changing the protective MBR
  or the partition area.\<close>

theorem cgpt_repair_makes_valid:
  assumes "files path = Some f" "media f n" "67 \<le> n" "snd (GptSanityCheck (gpt_of n (bytes f))) = GPT_SUCCESS"
  shows "\<exists>f'. cgpt_repair (Some \<lparr>rp_drive_name = path, rp_verbose = v\<rparr>) files = Some (CGPT_OK, files(path \<mapsto> f')) \<and>
    valid_drive (files(path \<mapsto> f')) path n \<and> same_data n (bytes f) (bytes f')"
proof -
  define d where "d = \<lparr>fd = f, writable = True, dsize = of_nat (512 * n), gpt = gpt_of n (bytes f), dpmbr = zero_pmbr\<rparr>"
  define g where "g = fst (GptSanityCheck (gpt_of n (bytes f)))"
  have "GptSanityCheck (gpt_of n (bytes f)) = (g, GPT_SUCCESS)" using assms(4) by (simp add: g_def prod_eq_iff)
  note c = GptSanityCheck_sound [OF this]
  then have eq: "g = (gpt_of n (bytes f))\<lparr>valid_headers := valid_headers g, valid_entries := valid_entries g\<rparr>" by blast
  have sh: "gpt_shape g" using gpt_of_shape [OF assms(2)] by (subst eq) (simp add: gpt_shape_def)
  have m0: "modified g = 0" "drive_sectors g = of_nat n" by (subst eq; simp)+
  note fr = GptRepair_frame [OF sh _ _ m0(1)]
  have sync: "in_sync (gpt_of n (bytes f)) g' = in_sync g g'" for g'
    using arg_cong [OF eq, of primary_header] arg_cong [OF eq, of secondary_header]
      arg_cong [OF eq, of primary_entries] arg_cong [OF eq, of secondary_entries] by (simp add: in_sync_def)
  obtain f' where f': "DriveClose (d\<lparr>gpt := GptRepair g\<rparr>) True = Some (CGPT_OK, f')" "media f' n"
      "gpt_of n (bytes f') = fresh (GptRepair g)" "same_data n (bytes f) (bytes f')"
    using DriveClose_commit [of "d\<lparr>gpt := GptRepair g\<rparr>" n] assms(2,3) fr c sync m0 by (auto simp: d_def)
  have "gpt_ok (gpt_of n (bytes f'))" using GptRepair_ok [OF sh] c f'(3) by simp
  moreover have "cgpt_repair (Some \<lparr>rp_drive_name = path, rp_verbose = v\<rparr>) files = Some (CGPT_OK, files(path \<mapsto> f'))"
    using DriveOpen_media [of files path, OF assms(1,2)] f'(1) by (simp add: cgpt_repair_def close_drive_def d_def g_def)
  ultimately show ?thesis using f' by (auto simp: valid_drive_def)
qed

lemma map_upd_same: "files path = Some f \<Longrightarrow> files(path \<mapsto> f) = files"
  by (simp add: fun_upd_idem)

text \<open>When no usable header or table is left, \<open>cgpt_repair\<close> leaves the drive byte for byte as it is,
  and returns \<open>CGPT_OK\<close> all the same.\<close>

theorem cgpt_repair_keeps_unusable:
  assumes "files path = Some f" "media f n" "snd (GptSanityCheck (gpt_of n (bytes f))) \<noteq> GPT_SUCCESS"
  shows "cgpt_repair (Some \<lparr>rp_drive_name = path, rp_verbose = v\<rparr>) files = Some (CGPT_OK, files)"
  using DriveOpen_media [of files path, OF assms(1,2)] GptSanityCheck_failed [OF assms(3)] map_upd_same [of files path, OF assms(1)]
  by (simp add: cgpt_repair_def close_drive_def DriveClose_clean)

text \<open>The image of the damaged state of \<open>Gpt_Repair\<close>, whose primary copy only is valid.\<close>

definition damaged_file :: blkdev where
  "damaged_file = (blank_file 100)\<lparr>bytes := overlay 512 (primary_header (damaged_gpt 100)) (replicate 51200 0)\<rparr>"

lemma damaged_file_media: "media damaged_file 100"
  using damaged_gpt_shape [of 100] by (simp add: media_def healthy_def damaged_file_def blank_file_def gpt_shape_def damaged_gpt_def)

lemma gpt_of_damaged_file: "gpt_of 100 (bytes damaged_file) = (damaged_gpt 100)\<lparr>current_kernel := 0\<rparr>"
proof -
  have "length (primary_header (damaged_gpt 100)) = 512"
    using damaged_gpt_shape [of 100] by (simp add: gpt_shape_def damaged_gpt_def)
  then show ?thesis
    by (intro GptData.equality)
      (simp_all add: gpt_of_def zero_gpt_def damaged_file_def seg_overlay_disjoint seg_replicate, simp_all add: damaged_gpt_def)
qed

lemma GptSanityCheck_kernel: "snd (GptSanityCheck (g\<lparr>current_kernel := k\<rparr>)) = snd (GptSanityCheck g)"
  by (simp add: GptSanityCheck_def Let_def headers_mask_def entries_mask_def CheckParameters_def)

theorem cgpt_repair_makes_valid_witness:
  "\<exists>f'. cgpt_repair (Some \<lparr>rp_drive_name = ''img'', rp_verbose = False\<rparr>) [''img'' \<mapsto> damaged_file] = Some (CGPT_OK, [''img'' \<mapsto> f']) \<and>
    valid_drive [''img'' \<mapsto> f'] ''img'' 100"
proof -
  have "snd (GptSanityCheck (gpt_of 100 (bytes damaged_file))) = GPT_SUCCESS"
    by (simp add: gpt_of_damaged_file GptSanityCheck_kernel damaged_gpt_check)
  then show ?thesis
    using cgpt_repair_makes_valid [of "[''img'' \<mapsto> damaged_file]" "''img''" damaged_file 100 False] damaged_file_media by auto
qed

lemma blank_file_check: "snd (GptSanityCheck (gpt_of 100 (bytes (blank_file 100)))) \<noteq> GPT_SUCCESS"
proof -
  have h: "hdr (replicate 512 0) = dec_header (replicate 92 0)" by (simp add: get_at_def seg_replicate)
  have "signature (hdr (replicate 512 0)) = replicate 8 0" by (simp add: h dec_header_def seg_replicate)
  moreover have "replicate 8 0 \<noteq> GPT_HEADER_SIGNATURE" "replicate 8 0 \<noteq> GPT_HEADER_SIGNATURE2"
    by (rule not_replicate_0, simp add: GPT_HEADER_SIGNATURE_def,
        rule not_replicate_0, simp add: GPT_HEADER_SIGNATURE2_def)
  ultimately have "\<not> header_common (hdr (replicate 512 0)) k" for k by (metis header_common_def)
  then have "headers_mask ((gpt_of 100 (bytes (blank_file 100)))\<lparr>valid_headers := 0, valid_entries := 0\<rparr>) = 0"
    by (simp add: headers_mask_def CheckHeader_valid_iff blank_file_def seg_replicate)
  then show ?thesis by (simp add: GptSanityCheck_def Let_def)
qed

theorem cgpt_repair_keeps_unusable_witness:
  "cgpt_repair (Some \<lparr>rp_drive_name = ''img'', rp_verbose = True\<rparr>) [''img'' \<mapsto> blank_file 100] = Some (CGPT_OK, [''img'' \<mapsto> blank_file 100])"
proof -
  have m: "media (blank_file 100) 100" by (rule blank_file_media) simp_all
  show ?thesis
    using cgpt_repair_keeps_unusable [of "[''img'' \<mapsto> blank_file 100]" "''img''" "blank_file 100" 100 True] m blank_file_check
    by simp
qed

subsection \<open>Legacy signatures and back\<close>

lemma header_wf_signature [simp]: "header_wf h \<Longrightarrow> length s = 8 \<Longrightarrow> header_wf (h\<lparr>signature := s\<rparr>)"
  by (simp add: header_wf_def)

lemma crc_header92_put:
  assumes "header_wf h" "92 \<le> length b"
  shows "crc_header92 (put_hdr h b) = put_hdr (h\<lparr>header_crc32 := Crc32 (put_hdr (h\<lparr>header_crc32 := 0\<rparr>) b) 92\<rparr>) b"
  using assms by (simp add: crc_header92_def Let_def)

lemma header_signature_bytes:
  assumes "header_wf h" "92 \<le> length b" "revision h = GPT_HEADER_REVISION"
  shows "seg 0 9 (put_hdr h b) = signature h @ [0]"
proof -
  have seg: "seg 0 9 (put_hdr h b) = take 9 (enc_header h)"
    using assms by (simp add: put_at_def overlay_def seg_def header.length_enc)
  have sz: "length (signature h) = 8" using assms(1) by (simp add: header_wf_def)
  have "le_bytes (Suc (Suc (Suc (Suc 0)))) GPT_HEADER_REVISION = [0, 0, 1, 0]" by simp
  moreover have "Suc (Suc (Suc (Suc 0))) = 4" by simp
  ultimately obtain rest where "enc_header h = signature h @ [0, 0, 1, 0] @ rest"
    unfolding enc_header_def assms(3) by metis
  then show ?thesis using sz seg by simp
qed

lemma header_back:
  assumes len: "92 \<le> length b" and h: "h = hdr b" "signature h = GPT_HEADER_SIGNATURE" "h_size h = 92" "header_crc32 h = HeaderCrc b"
  defines "b1 \<equiv> crc_header92 (put_hdr (h\<lparr>signature := GPT_HEADER_SIGNATURE2\<rparr>) b)"
  shows "put_hdr ((hdr b1)\<lparr>signature := GPT_HEADER_SIGNATURE\<rparr>) b1 = put_hdr (h\<lparr>header_crc32 := header_crc32 (hdr b1)\<rparr>) b"
    and "crc_header92 (put_hdr (h\<lparr>header_crc32 := c\<rparr>) b) = b" and "length b1 = length b"
proof -
  have wf: "header_wf h" using len h(1) by simp
  note b1 = b1_def [unfolded crc_header92_put [OF header_wf_signature [OF wf length_signatures(2)] len]]
  have upd: "h\<lparr>header_crc32 := k, signature := GPT_HEADER_SIGNATURE\<rparr> = h\<lparr>header_crc32 := k\<rparr>" for k
    using h(2) by (cases h) simp
  show "put_hdr ((hdr b1)\<lparr>signature := GPT_HEADER_SIGNATURE\<rparr>) b1 = put_hdr (h\<lparr>header_crc32 := header_crc32 (hdr b1)\<rparr>) b"
    using wf len upd by (simp add: b1)
  show "length b1 = length b" using wf len by (simp add: b1)
  have "HeaderCrc b = Crc32 (put_hdr (h\<lparr>header_crc32 := 0\<rparr>) b) 92"
    using h by (simp add: HeaderCrc_def)
  then have "h\<lparr>header_crc32 := Crc32 (put_hdr (h\<lparr>header_crc32 := 0\<rparr>) b) 92\<rparr> = h"
    using h(4) by (cases h) simp
  then show "crc_header92 (put_hdr (h\<lparr>header_crc32 := c\<rparr>) b) = b"
    using wf len h(1) by (simp add: crc_header92_put header.put_get)
qed

lemma legacy_flags [simp]: "(0 OR (1 OR 4 OR 2)) AND 1 \<noteq> (0 :: byte)" "(0 OR (1 OR 4 OR 2)) AND 2 \<noteq> (0 :: byte)"
  "(0 OR (1 OR 4 OR 2)) AND 4 \<noteq> (0 :: byte)" "(0 OR (1 OR 4 OR 2)) AND 8 = (0 :: byte)"
  by simp_all

lemma gpt_ok_headers:
  assumes "gpt_ok g" "usual_gpt g"
  shows "signature (hdr (primary_header g)) = GPT_HEADER_SIGNATURE" "signature (hdr (secondary_header g)) = GPT_HEADER_SIGNATURE"
    "h_size (hdr (primary_header g)) = 92" "h_size (hdr (secondary_header g)) = 92"
    "header_crc32 (hdr (primary_header g)) = HeaderCrc (primary_header g)"
    "header_crc32 (hdr (secondary_header g)) = HeaderCrc (secondary_header g)"
    "revision (hdr (primary_header g)) = GPT_HEADER_REVISION"
    "entries_crc32 (hdr (primary_header g)) = Crc32 (primary_entries g) TOTAL_ENTRIES_SIZE"
  using assms by (auto simp: gpt_ok_def usual_gpt_def CheckHeader_valid_iff HeaderFieldsSame_iff header_common_def CheckEntries_success)

lemma legacy_there:
  assumes "gpt_shape g" "sector_bytes g = 512" "gpt_ok g" "usual_gpt g" "modified g = 0"
  shows "legacy_edit False g = g\<lparr>
      primary_header := crc_header92 (put_hdr ((hdr (primary_header g))\<lparr>signature := GPT_HEADER_SIGNATURE2\<rparr>) (primary_header g)),
      secondary_header := crc_header92 (put_hdr ((hdr (secondary_header g))\<lparr>signature := GPT_HEADER_SIGNATURE2\<rparr>) (secondary_header g)),
      primary_entries := overlay 0 (replicate 512 0) (primary_entries g), modified := 7\<rparr>"
proof -
  have len: "92 \<le> length (primary_header g)" "92 \<le> length (secondary_header g)"
    using assms(1,2) by (simp_all add: gpt_shape_def)
  have "seg 0 9 (put_hdr ((hdr (primary_header g))\<lparr>signature := GPT_HEADER_SIGNATURE2\<rparr>) (primary_header g)) = GPT_HEADER_SIGNATURE2 @ [0]"
    using header_signature_bytes [of "(hdr (primary_header g))\<lparr>signature := GPT_HEADER_SIGNATURE2\<rparr>" "primary_header g"]
      len gpt_ok_headers(7) [OF assms(3,4)] by simp
  then show ?thesis
    using assms(2,5) by (intro GptData.equality) (simp_all add: legacy_edit_def set_signatures_def UpdateCrc_def Let_def)
qed

lemma legacy_back:
  assumes shape: "gpt_shape g" "sector_bytes g = 512" and ok: "gpt_ok g" "usual_gpt g"
    and ent: "secondary_entries g = primary_entries g" and m: "modified g = 0" "modified g' = 0"
    and g': "primary_header g' = crc_header92 (put_hdr ((hdr (primary_header g))\<lparr>signature := GPT_HEADER_SIGNATURE2\<rparr>) (primary_header g))"
      "secondary_header g' = crc_header92 (put_hdr ((hdr (secondary_header g))\<lparr>signature := GPT_HEADER_SIGNATURE2\<rparr>) (secondary_header g))"
      "primary_entries g' = overlay 0 (replicate 512 0) (primary_entries g)" "secondary_entries g' = secondary_entries g"
  shows "legacy_edit True g' = g'\<lparr>primary_header := primary_header g, secondary_header := secondary_header g,
      primary_entries := primary_entries g, modified := 7\<rparr>"
proof -
  have len: "92 \<le> length (primary_header g)" "92 \<le> length (secondary_header g)" "length (primary_entries g) = 16384"
    using shape by (simp_all add: gpt_shape_def)
  note k = gpt_ok_headers [OF ok]
  note p = header_back [OF len(1) refl k(1,3,5), folded g'(1)] and s = header_back [OF len(2) refl k(2,4,6), folded g'(2)]
  let ?h = "(hdr (primary_header g))\<lparr>header_crc32 := header_crc32 (hdr (primary_header g'))\<rparr>"
  have sg: "set_signatures GPT_HEADER_SIGNATURE g' = g'\<lparr>primary_header := put_hdr ?h (primary_header g),
      secondary_header := put_hdr ((hdr (secondary_header g))\<lparr>header_crc32 := header_crc32 (hdr (secondary_header g'))\<rparr>) (secondary_header g)\<rparr>"
    by (simp add: set_signatures_def p(1) s(1))
  have sig: "signature (hdr (put_hdr ?h (primary_header g))) = GPT_HEADER_SIGNATURE" using len k by simp
  then have s9: "seg 0 9 (put_hdr ?h (primary_header g)) \<noteq> GPT_HEADER_SIGNATURE2 @ [0]"
    using len by (intro signature_seg9) simp_all
  have e: "overlay 0 (seg 0 16384 (secondary_entries g)) (primary_entries g') = primary_entries g"
    using len ent g'(3) by (simp add: overlay_all)
  have crc: "?h\<lparr>entries_crc32 := Crc32 (primary_entries g) TOTAL_ENTRIES_SIZE\<rparr> = ?h"
    using k(8) by (cases "hdr (primary_header g)") simp
  have ph: "crc_header92 (put_hdr (?h\<lparr>entries_crc32 := Crc32 (primary_entries g) TOTAL_ENTRIES_SIZE\<rparr>) (primary_header g)) = primary_header g"
    unfolding crc by (rule p(2))
  show ?thesis
    unfolding legacy_edit_def sg using sig s9 e m(2) s(2) ph len g'(4)
    by (intro GptData.equality) (simp_all add: RepairEntries_def UpdateCrc_def Let_def)
qed

lemma legacy_close:
  assumes "files path = Some f" "media f n" "67 \<le> n" "gpt_shape (legacy_edit e (gpt_of n (bytes f)))"
    "in_sync (gpt_of n (bytes f)) (legacy_edit e (gpt_of n (bytes f)))"
    "sector_bytes (legacy_edit e (gpt_of n (bytes f))) = 512" "drive_sectors (legacy_edit e (gpt_of n (bytes f))) = of_nat n"
  shows "\<exists>f'. cgpt_legacy (Some \<lparr>lg_drive_name = path, efipart = e\<rparr>) files = Some (CGPT_OK, files(path \<mapsto> f')) \<and>
    media f' n \<and> gpt_of n (bytes f') = fresh (legacy_edit e (gpt_of n (bytes f))) \<and> same_data n (bytes f) (bytes f')"
  using DriveOpen_media [of files path, OF assms(1,2), of True] assms
    DriveClose_commit [of "\<lparr>fd = f, writable = True, dsize = of_nat (512 * n), gpt = legacy_edit e (gpt_of n (bytes f)), dpmbr = zero_pmbr\<rparr>" n]
  by (auto simp: cgpt_legacy_def close_drive_def)

text \<open>\<open>cgpt legacy\<close> followed by \<open>cgpt legacy -e\<close> gives back the original drive, byte for byte, when the
  drive had valid copies in the usual form (\<open>EFI PART\<close>, 92-byte headers) with the same table in both;
  although the first command erases the first sector of the primary table.\<close>

theorem legacy_round_trip:
  assumes "files path = Some f" "media f n" "67 \<le> n" "gpt_ok (gpt_of n (bytes f))" "usual_gpt (gpt_of n (bytes f))"
    "secondary_entries (gpt_of n (bytes f)) = primary_entries (gpt_of n (bytes f))"
  shows "\<exists>f1 f2. cgpt_legacy (Some \<lparr>lg_drive_name = path, efipart = False\<rparr>) files = Some (CGPT_OK, files(path \<mapsto> f1)) \<and>
    cgpt_legacy (Some \<lparr>lg_drive_name = path, efipart = True\<rparr>) (files(path \<mapsto> f1)) = Some (CGPT_OK, files(path \<mapsto> f2)) \<and>
    bytes f2 = bytes f"
proof -
  define g where "g = gpt_of n (bytes f)"
  have g: "gpt_shape g" "sector_bytes g = 512" "modified g = 0" "drive_sectors g = of_nat n"
    using gpt_of_shape [OF assms(2)] by (simp_all add: g_def)
  note there = legacy_there [OF g(1,2) assms(4,5) [folded g_def] g(3)]
  have len: "length (primary_header g) = 512" "length (secondary_header g) = 512" "length (primary_entries g) = 16384"
    using g by (simp_all add: gpt_shape_def)
  have shape1: "gpt_shape (legacy_edit False g)"
    using g len unfolding there by (simp add: gpt_shape_def crc_header92_put)
  obtain f1 where f1: "cgpt_legacy (Some \<lparr>lg_drive_name = path, efipart = False\<rparr>) files = Some (CGPT_OK, files(path \<mapsto> f1))"
      "media f1 n" "gpt_of n (bytes f1) = fresh (legacy_edit False g)" "same_data n (bytes f) (bytes f1)"
    using legacy_close [of files path f n False, OF assms(1-3)] shape1 g unfolding there g_def [symmetric]
    by (auto simp: in_sync_def)
  define g' where "g' = gpt_of n (bytes f1)"
  have rest: "legacy_edit True g' = g'\<lparr>primary_header := primary_header g, secondary_header := secondary_header g,
      primary_entries := primary_entries g, modified := 7\<rparr>"
    by (rule legacy_back [OF g(1,2) assms(4-6) [folded g_def] g(3)])
      (simp_all add: g'_def f1(3) there fresh_def)
  have e2: "secondary_entries g' = secondary_entries g" by (simp add: g'_def f1(3) there fresh_def)
  then have shape2: "gpt_shape (legacy_edit True g')"
    using g len unfolding rest by (simp add: gpt_shape_def g'_def)
  have fr2: "in_sync g' (legacy_edit True g')" "sector_bytes (legacy_edit True g') = 512"
    "drive_sectors (legacy_edit True g') = of_nat n"
    unfolding rest by (simp_all add: in_sync_def) (simp_all add: g'_def)
  obtain f2 where f2: "cgpt_legacy (Some \<lparr>lg_drive_name = path, efipart = True\<rparr>) (files(path \<mapsto> f1)) =
        Some (CGPT_OK, (files(path \<mapsto> f1))(path \<mapsto> f2))"
      "media f2 n" "gpt_of n (bytes f2) = fresh (legacy_edit True g')" "same_data n (bytes f1) (bytes f2)"
    using legacy_close [of "files(path \<mapsto> f1)" path f1 n True, OF _ f1(2) assms(3), folded g'_def, OF _ shape2 fr2] by auto
  have "gpt_of n (bytes f2) = g"
    unfolding f2(3) rest using e2 by (simp add: fresh_def g'_def g_def gpt_of_def zero_gpt_def)
  then have "bytes f2 = bytes f"
    using image_eqI [OF assms(3), of "bytes f2" "bytes f"] f2 f1 assms(2) same_data_trans by (metis g_def media_def)
  with f1 f2 show ?thesis by auto
qed

theorem legacy_round_trip_witness:
  "\<exists>f1 f2. cgpt_legacy (Some \<lparr>lg_drive_name = ''img'', efipart = False\<rparr>) [''img'' \<mapsto> new_file] = Some (CGPT_OK, [''img'' \<mapsto> f1]) \<and>
    cgpt_legacy (Some \<lparr>lg_drive_name = ''img'', efipart = True\<rparr>) [''img'' \<mapsto> f1] = Some (CGPT_OK, [''img'' \<mapsto> f2]) \<and>
    bytes f2 = bytes new_file"
proof -
  have "gpt_ok (gpt_of 100 (bytes new_file))" "usual_gpt (gpt_of 100 (bytes new_file))"
    "secondary_entries (gpt_of 100 (bytes new_file)) = primary_entries (gpt_of 100 (bytes new_file))"
    unfolding new_file_facts(2) using new_file_facts(3-6) by (simp_all add: usual_gpt_def)
  then show ?thesis
    using legacy_round_trip [of "[''img'' \<mapsto> new_file]" "''img''" new_file 100] new_file_facts(1) by simp
qed

end
