(* ===== verification/Utf.thy ===== *)
theory Utf
  imports Gpt_Data
begin

text \<open>
  The label conversions of \<open>gpt/lib/cgpt_common.c\<close>: \<open>UTF16ToUTF8\<close> and \<open>UTF8ToUTF16\<close>.
  Each loop is a recursion over the code units not yet read, with the C locals as arguments;
  the result is the returned status and the units stored in the output array, the terminator
  included. Against them stand the standard encodings of a code point.
\<close>

unbundle bit_operations_syntax

subsection \<open>The code\<close>

text \<open>The output step of \<open>UTF16ToUTF8\<close>: the bytes stored for a code point when \<open>maxoutput\<close>
  bytes are left, \<open>None\<close> for the buffer underrun branch.\<close>

definition utf8_store :: "u32 \<Rightarrow> nat \<Rightarrow> byte list option" where
  "utf8_store cp maxoutput =
    (if cp \<le> 0x7F \<and> maxoutput \<ge> 1 then Some [ucast (cp AND 0x7F)]
     else if cp \<le> 0x7FF \<and> maxoutput \<ge> 2 then
       Some [ucast (0xC0 OR drop_bit 6 cp), ucast (0x80 OR (cp AND 0x3F))]
     else if cp \<le> 0xFFFF \<and> maxoutput \<ge> 3 then
       Some [ucast (0xE0 OR drop_bit 12 cp), ucast (0x80 OR (drop_bit 6 cp AND 0x3F)),
             ucast (0x80 OR (cp AND 0x3F))]
     else if cp \<le> 0x10FFFF \<and> maxoutput \<ge> 4 then
       Some [ucast (0xF0 OR drop_bit 18 cp), ucast (0x80 OR (drop_bit 12 cp AND 0x3F)),
             ucast (0x80 OR (drop_bit 6 cp AND 0x3F)), ucast (0x80 OR (cp AND 0x3F))]
     else None)"

text \<open>\<open>None\<close> as the result is the failed \<open>require(code_point <= 0x10FFFF)\<close>.\<close>

fun utf16_loop :: "u16 list \<Rightarrow> u32 \<Rightarrow> bool \<Rightarrow> nat \<Rightarrow> byte list \<Rightarrow> (cgpt_status \<times> byte list) option" where
  "utf16_loop [] code_point ready maxoutput out = Some (CGPT_OK, out)"
| "utf16_loop (codeunit # rest) code_point ready maxoutput out =
    (if codeunit = 0 \<or> maxoutput = 0 then Some (CGPT_OK, out)
     else if ready \<and> codeunit \<ge> 0xD800 \<and> codeunit \<le> 0xDBFF
     then utf16_loop rest ((ucast codeunit AND 0x03FF) + 0x0040) False maxoutput out
     else if \<not> ready \<and> \<not> (codeunit \<ge> 0xDC00 \<and> codeunit \<le> 0xDFFF) then Some (CGPT_FAILED, out)
     else let cp = (if ready then ucast codeunit
                    else push_bit 10 code_point OR (ucast codeunit AND 0x03FF))
          in if \<not> cp \<le> 0x10FFFF then None
             else case utf8_store cp maxoutput of
                    None \<Rightarrow> Some (CGPT_FAILED, out)
                  | Some bs \<Rightarrow> utf16_loop rest cp True (maxoutput - length bs) (out @ bs))"

definition UTF16ToUTF8 :: "u16 list \<Rightarrow> nat \<Rightarrow> nat \<Rightarrow> (cgpt_status \<times> byte list) option" where
  "UTF16ToUTF8 utf16 maxinput maxoutput =
    (if maxinput = 0 \<or> maxoutput = 0 then Some (CGPT_FAILED, [])
     else map_option (\<lambda>(st, out). (st, out @ [0]))
            (utf16_loop (take maxinput utf16) 0 True (maxoutput - 1) []))"

text \<open>One byte of \<open>UTF8ToUTF16\<close>: the new \<open>code_point\<close>, \<open>expected_units\<close> and
  \<open>decoded_units\<close>; \<open>None\<close> where the code breaks with \<open>CGPT_FAILED\<close>.\<close>

definition utf8_unit :: "byte \<Rightarrow> u32 \<Rightarrow> nat \<Rightarrow> nat \<Rightarrow> (u32 \<times> nat \<times> nat) option" where
  "utf8_unit u code_point expected decoded =
    (if expected \<noteq> decoded then
       (if u AND 0xC0 = 0x80 then Some (push_bit 6 code_point OR (ucast u AND 0x3F), expected, Suc decoded)
        else None)
     else if u \<le> 0x7F then Some (ucast u, 1, 1)
     else if u \<le> 0xBF then None
     else if u \<ge> 0xC2 \<and> u \<le> 0xDF then Some (ucast u AND 0x1F, 2, 1)
     else if u \<ge> 0xE0 \<and> u \<le> 0xEF then Some (ucast u AND 0x0F, 3, 1)
     else if u \<ge> 0xF0 \<and> u \<le> 0xF4 then Some (ucast u AND 0x07, 4, 1)
     else None)"

text \<open>The shortest-form check and the output step.\<close>

definition utf16_store :: "u32 \<Rightarrow> nat \<Rightarrow> nat \<Rightarrow> u16 list option" where
  "utf16_store cp expected maxoutput =
    (if expected = 2 \<and> cp \<le> 0x7F \<or> expected = 3 \<and> cp \<le> 0x7FF \<or> expected = 4 \<and> cp \<le> 0xFFFF then None
     else if cp \<le> 0xD7FF \<or> cp \<ge> 0xE000 \<and> cp \<le> 0xFFFF then Some [ucast cp]
     else if cp \<ge> 0x10000 \<and> cp \<le> 0x10FFFF \<and> maxoutput \<ge> 2 then
       Some [ucast (0xD800 OR (drop_bit 10 cp - 0x0040)), ucast (0xDC00 OR (cp AND 0x03FF))]
     else None)"

fun utf8_loop :: "byte list \<Rightarrow> u32 \<Rightarrow> nat \<Rightarrow> nat \<Rightarrow> nat \<Rightarrow> u16 list \<Rightarrow> cgpt_status \<times> u16 list" where
  "utf8_loop [] code_point expected decoded maxoutput out =
    (if expected \<noteq> decoded then CGPT_FAILED else CGPT_OK, out)"
| "utf8_loop (u # rest) code_point expected decoded maxoutput out =
    (if u = 0 \<or> maxoutput = 0 then (if expected \<noteq> decoded then CGPT_FAILED else CGPT_OK, out)
     else case utf8_unit u code_point expected decoded of
       None \<Rightarrow> (CGPT_FAILED, out)
     | Some (cp, ex, de) \<Rightarrow>
         if ex = de then
           (case utf16_store cp ex maxoutput of
              None \<Rightarrow> (CGPT_FAILED, out)
            | Some ws \<Rightarrow> utf8_loop rest cp ex de (maxoutput - length ws) (out @ ws))
         else utf8_loop rest cp ex de maxoutput out)"

definition UTF8ToUTF16 :: "byte list \<Rightarrow> nat \<Rightarrow> cgpt_status \<times> u16 list" where
  "UTF8ToUTF16 utf8 maxoutput =
    (if maxoutput = 0 then (CGPT_FAILED, [])
     else let (st, out) = utf8_loop utf8 0 1 1 (maxoutput - 1) [] in (st, out @ [0]))"

subsection \<open>The encodings\<close>

definition scalar_value :: "u32 \<Rightarrow> bool" where
  "scalar_value cp \<longleftrightarrow> cp \<noteq> 0 \<and> cp \<le> 0x10FFFF \<and> \<not> (0xD800 \<le> cp \<and> cp \<le> 0xDFFF)"

definition utf8_enc :: "u32 \<Rightarrow> byte list" where
  "utf8_enc cp = (let c = unat cp in map of_nat
    (if c \<le> 0x7F then [c]
     else if c \<le> 0x7FF then [0xC0 + c div 64, 0x80 + c mod 64]
     else if c \<le> 0xFFFF then [0xE0 + c div 4096, 0x80 + c div 64 mod 64, 0x80 + c mod 64]
     else [0xF0 + c div 262144, 0x80 + c div 4096 mod 64, 0x80 + c div 64 mod 64, 0x80 + c mod 64]))"

definition utf16_enc :: "u32 \<Rightarrow> u16 list" where
  "utf16_enc cp = (let c = unat cp in map of_nat
    (if c \<le> 0xFFFF then [c] else [0xD800 + (c - 0x10000) div 1024, 0xDC00 + c mod 1024]))"

abbreviation utf8_string :: "u32 list \<Rightarrow> byte list" where
  "utf8_string cps \<equiv> concat (map utf8_enc cps)"

abbreviation utf16_string :: "u32 list \<Rightarrow> u16 list" where
  "utf16_string cps \<equiv> concat (map utf16_enc cps)"

subsection \<open>Words as numbers\<close>

lemma unat_and_mask: "unat (w AND mask k) = unat w mod 2 ^ k" for w :: "'a::len word"
  by (simp add: unsigned_and_eq take_bit_eq_mod [symmetric] take_bit_eq_mask [symmetric] unsigned_take_bit_eq)

lemma or_eq_plus:
  fixes c x :: "'a::len word"
  assumes "take_bit k c = 0" "unat x < 2 ^ k"
  shows "c OR x = c + x"
proof -
  have x: "take_bit k x = x"
    using assms(2) by (simp only: word_unat_eq_iff unsigned_take_bit_eq take_bit_nat_eq_self)
  have "c AND x = 0"
    by (rule bit_word_eqI) (use assms(1) x in \<open>metis bit_0_eq bit_and_iff bit_take_bit_iff bot_apply bot_bool_def\<close>)
  then show ?thesis by (simp add: disjunctive_add_eq_or)
qed

lemma ucast_or_tag:
  fixes c x :: u32
  assumes "take_bit k c = 0" "unat x < 2 ^ k" "unat c + unat x < 2 ^ 32"
  shows "ucast (c OR x) = (of_nat (unat c + unat x) :: 'b::len word)"
proof -
  have "unat (c OR x) = unat c + unat x"
    using assms by (simp add: or_eq_plus [OF assms(1,2)] unat_word_ariths)
  then show ?thesis by (metis of_nat_unat)
qed

lemma masks32:
  "(0x7F :: u32) = mask 7" "(0x3F :: u32) = mask 6" "(0x3FF :: u32) = mask 10"
  "(0x1F :: u32) = mask 5" "(0x0F :: u32) = mask 4" "(0x07 :: u32) = mask 3"
  by (simp_all add: mask_eq_exp_minus_1)

lemma unat_drop32: "unat (drop_bit k w) = unat w div 2 ^ k" for w :: u32
  by (metis drop_bit_eq_div unat_drop_bit_eq)

lemma utf8_tail: "ucast (0x80 OR (w AND 0x3F) :: u32) = (of_nat (0x80 + unat w mod 64) :: byte)"
proof -
  have "unat (w AND 0x3F) = unat w mod 64" by (simp only: masks32 unat_and_mask) simp
  moreover have "unat w mod 64 < 64" by simp
  then have "unat w mod 64 < 64" "128 + unat w mod 64 < 4294967296" by linarith+
  ultimately show ?thesis using ucast_or_tag [of 6 "0x80" "w AND 0x3F"] by simp
qed

lemma utf8_heads:
  "unat w \<le> 0x7FF \<Longrightarrow> ucast (0xC0 OR drop_bit 6 w :: u32) = (of_nat (0xC0 + unat w div 64) :: byte)"
  "unat w \<le> 0xFFFF \<Longrightarrow> ucast (0xE0 OR drop_bit 12 w :: u32) = (of_nat (0xE0 + unat w div 4096) :: byte)"
  "unat w \<le> 0x10FFFF \<Longrightarrow> ucast (0xF0 OR drop_bit 18 w :: u32) = (of_nat (0xF0 + unat w div 262144) :: byte)"
  using ucast_or_tag [of 5 "0xC0" "drop_bit 6 w"] ucast_or_tag [of 4 "0xE0" "drop_bit 12 w"]
    ucast_or_tag [of 3 "0xF0" "drop_bit 18 w"]
  by (simp_all add: unat_drop32 less_mult_imp_div_less div_less_iff_less_mult)

lemma word32_le: "(w :: u32) \<le> numeral n \<longleftrightarrow> unat w \<le> unat (numeral n :: u32)"
  "numeral n \<le> (w :: u32) \<longleftrightarrow> unat (numeral n :: u32) \<le> unat w"
  by (simp_all add: word_le_nat_alt)

lemma utf8_store_enc:
  assumes "cp \<le> 0x10FFFF" "length (utf8_enc cp) \<le> maxoutput"
  shows "utf8_store cp maxoutput = Some (utf8_enc cp)"
proof -
  have "ucast (cp AND 0x7F) = (of_nat (unat cp) :: byte)" if "unat cp \<le> 0x7F"
  proof -
    have "unat (cp AND 0x7F) = unat cp mod 2 ^ 7" by (simp only: masks32 unat_and_mask)
    with that have "cp AND 0x7F = cp" by (simp add: word_unat_eq_iff)
    then show ?thesis by simp
  qed
  then show ?thesis
    using assms utf8_heads [of cp] utf8_tail [of cp] utf8_tail [of "drop_bit 6 cp"] utf8_tail [of "drop_bit 12 cp"]
    by (simp add: utf8_store_def utf8_enc_def Let_def word32_le unat_drop32 split: if_splits)
qed

subsection \<open>Decoding what the encodings give\<close>

lemma unat_of_nat_byte: "k < 256 \<Longrightarrow> unat (of_nat k :: byte) = k"
  by (simp add: unat_of_nat)

lemma byte_cmp:
  "k < 256 \<Longrightarrow> (of_nat k :: byte) \<le> numeral n \<longleftrightarrow> k \<le> unat (numeral n :: byte)"
  "k < 256 \<Longrightarrow> numeral n \<le> (of_nat k :: byte) \<longleftrightarrow> unat (numeral n :: byte) \<le> k"
  "k < 256 \<Longrightarrow> (of_nat k :: byte) = 0 \<longleftrightarrow> k = 0"
  using unat_of_nat_byte [of k] by (simp_all add: word_le_nat_alt unat_eq_zero [symmetric])

lemma ucast_byte_and: "k < 256 \<Longrightarrow> (ucast (of_nat k :: byte) AND mask j :: u32) = of_nat (k mod 2 ^ j)"
proof -
  assume k: "k < 256"
  have "unat (ucast (of_nat k :: byte) AND mask j :: u32) = k mod 2 ^ j"
    using k unat_of_nat_byte [OF k] by (simp add: unat_and_mask unsigned_ucast_eq take_bit_nat_eq_self)
  then show ?thesis by (metis of_nat_unat ucast_id)
qed

lemma utf8_unit_lead:
  "k \<le> 0x7F \<Longrightarrow> utf8_unit (of_nat k) c n n = Some (of_nat k, 1, 1)"
  "0xC2 \<le> k \<Longrightarrow> k \<le> 0xDF \<Longrightarrow> utf8_unit (of_nat k) c n n = Some (of_nat (k - 0xC0), 2, 1)"
  "0xE0 \<le> k \<Longrightarrow> k \<le> 0xEF \<Longrightarrow> utf8_unit (of_nat k) c n n = Some (of_nat (k - 0xE0), 3, 1)"
  "0xF0 \<le> k \<Longrightarrow> k \<le> 0xF4 \<Longrightarrow> utf8_unit (of_nat k) c n n = Some (of_nat (k - 0xF0), 4, 1)"
proof -
  have u: "(ucast (of_nat k :: byte) :: u32) = of_nat k" if "k < 256"
    using that by (metis of_nat_unat unat_of_nat_byte)
  have low: "k mod n = k - q * n" if "q * n \<le> k" "k - q * n < n" for q n :: nat
    using that by (metis mod_less mod_mult_self3 le_add_diff_inverse)
  have m: "0xC0 \<le> k \<Longrightarrow> k \<le> 0xDF \<Longrightarrow> k mod 2 ^ 5 = k - 0xC0"
    "0xE0 \<le> k \<Longrightarrow> k \<le> 0xEF \<Longrightarrow> k mod 2 ^ 4 = k - 0xE0"
    "0xF0 \<le> k \<Longrightarrow> k \<le> 0xF4 \<Longrightarrow> k mod 2 ^ 3 = k - 0xF0"
    using low [of 6 32] low [of 14 16] low [of 30 8] by simp_all
  show "k \<le> 0x7F \<Longrightarrow> utf8_unit (of_nat k) c n n = Some (of_nat k, 1, 1)"
    by (simp add: utf8_unit_def byte_cmp u)
  show "0xC2 \<le> k \<Longrightarrow> k \<le> 0xDF \<Longrightarrow> utf8_unit (of_nat k) c n n = Some (of_nat (k - 0xC0), 2, 1)"
    using m(1) ucast_byte_and [of k 5] by (simp add: utf8_unit_def byte_cmp masks32)
  show "0xE0 \<le> k \<Longrightarrow> k \<le> 0xEF \<Longrightarrow> utf8_unit (of_nat k) c n n = Some (of_nat (k - 0xE0), 3, 1)"
    using m(2) ucast_byte_and [of k 4] by (simp add: utf8_unit_def byte_cmp masks32)
  show "0xF0 \<le> k \<Longrightarrow> k \<le> 0xF4 \<Longrightarrow> utf8_unit (of_nat k) c n n = Some (of_nat (k - 0xF0), 4, 1)"
    using m(3) ucast_byte_and [of k 3] by (simp add: utf8_unit_def byte_cmp masks32)
qed

lemma byte_tail_tag: "m < 64 \<Longrightarrow> (of_nat (0x80 + m) :: byte) AND 0xC0 = 0x80"
proof -
  have "list_all (\<lambda>m. (of_nat (0x80 + m) :: byte) AND 0xC0 = 0x80) [0..<64]" by code_simp
  then show "m < 64 \<Longrightarrow> (of_nat (0x80 + m) :: byte) AND 0xC0 = 0x80"
    by (simp only: list_all_iff set_upt) simp
qed

lemma utf8_unit_tail:
  assumes "m < 64" "e \<noteq> d" "a < 2 ^ 26"
  shows "utf8_unit (of_nat (0x80 + m)) (of_nat a) e d = Some (of_nat (64 * a + m), e, Suc d)"
proof -
  have "(0x80 + m) mod 2 ^ 6 = m" using assms(1) mod_mult_self3 [of 2 64 m] by simp
  then have x: "(ucast (of_nat (0x80 + m) :: byte) AND 0x3F :: u32) = of_nat m"
    using ucast_byte_and [of "0x80 + m" 6] assms(1) by (simp add: masks32)
  have "push_bit 6 (of_nat a) OR (of_nat m :: u32) = push_bit 6 (of_nat a) + of_nat m"
    by (rule or_eq_plus [where k = 6]) (use assms(1) in \<open>simp_all add: take_bit_push_bit unat_of_nat\<close>)
  also have "\<dots> = of_nat (64 * a + m)" by (simp add: push_bit_eq_mult)
  finally show ?thesis using assms(2) x byte_tail_tag [OF assms(1)] by (simp add: utf8_unit_def)
qed

lemma div_mod_join: "64 * (c div (64 * n)) + c div n mod 64 = c div n" for c n :: nat
  by (metis div_mult2_eq mult.commute mult_div_mod_eq)

lemma utf16_store_enc:
  assumes "scalar_value cp" "length (utf16_enc cp) \<le> maxoutput"
    and "e = 1 \<or> e = 2 \<and> unat cp > 0x7F \<or> e = 3 \<and> unat cp > 0x7FF \<or> e = 4 \<and> unat cp > 0xFFFF"
  shows "utf16_store cp e maxoutput = Some (utf16_enc cp)"
proof -
  have one: "ucast cp = (of_nat (unat cp) :: u16)" by simp
  have "unat (cp AND 0x3FF) = unat cp mod 1024" by (simp only: masks32 unat_and_mask) simp
  moreover have "unat cp mod 1024 < 1024" by simp
  then have "unat cp mod 1024 < 1024" "0xDC00 + unat cp mod 1024 < 4294967296" by linarith+
  ultimately have lo: "ucast (0xDC00 OR (cp AND 0x3FF)) = (of_nat (0xDC00 + unat cp mod 1024) :: u16)"
    using ucast_or_tag [of 10 "0xDC00" "cp AND 0x3FF"] by simp
  have hi: "ucast (0xD800 OR (drop_bit 10 cp - 0x40)) = (of_nat (0xD800 + (unat cp - 0x10000) div 1024) :: u16)"
    if "unat cp > 0xFFFF" "unat cp \<le> 0x10FFFF"
  proof -
    have ge: "0x40 \<le> unat cp div 1024" "unat cp div 1024 < 0x440"
      using that div_le_mono [of "0x10000" "unat cp" 1024] by (simp_all add: less_mult_imp_div_less)
    then have "unat (drop_bit 10 cp - 0x40) = unat cp div 1024 - 0x40"
      by (subst unat_sub) (simp_all add: word_le_nat_alt unat_drop32)
    moreover have "unat cp div 1024 - 0x40 = (unat cp - 0x10000) div 1024"
      using div_mult_self4 [of 1024 "0x40" "unat cp - 0x10000"] that by simp
    moreover have "(unat cp - 0x10000) div 1024 < 1024" using that by (simp add: less_mult_imp_div_less)
    ultimately show ?thesis using ucast_or_tag [of 10 "0xD800" "drop_bit 10 cp - 0x40"] by simp
  qed
  show ?thesis
    using assms one lo hi
    by (auto simp: utf16_store_def utf16_enc_def Let_def scalar_value_def word32_le split: if_splits)
qed

lemma utf8_loop_lead:
  assumes "utf8_unit (of_nat k) c n n = Some (of_nat a, e, 1)" "0 < k" "k < 256" "0 < m" "e \<noteq> 1"
  shows "utf8_loop (of_nat k # rest) c n n m out = utf8_loop rest (of_nat a) e 1 m out"
  using assms byte_cmp(3) [of k] by simp

lemma utf8_loop_tail:
  assumes "k < 64" "a < 2 ^ 26" "0 < m" "d' = Suc d" "e \<noteq> d" "e \<noteq> d'" "b = 64 * a + k"
  shows "utf8_loop (of_nat (0x80 + k) # rest) (of_nat a) e d m out = utf8_loop rest (of_nat b) e d' m out"
  using assms utf8_unit_tail [OF assms(1,5,2)] byte_cmp(3) [of "0x80 + k"] by simp

lemma utf8_loop_last:
  assumes "k < 64" "a < 2 ^ 26" "0 < m" "e = Suc d" "b = 64 * a + k" "utf16_store (of_nat b) e m = Some ws"
  shows "utf8_loop (of_nat (0x80 + k) # rest) (of_nat a) e d m out =
    utf8_loop rest (of_nat b) e e (m - length ws) (out @ ws)"
  using assms utf8_unit_tail [OF assms(1) _ assms(2), of e d] byte_cmp(3) [of "0x80 + k"] by simp

text \<open>The three multi-byte sequences, read from the lead byte to the last.\<close>

lemma utf8_loop_seq2:
  assumes "0x7F < v" "v \<le> 0x7FF" "0 < m" "utf16_store (of_nat v) 2 m = Some ws"
  shows "utf8_loop (of_nat (0xC0 + v div 64) # of_nat (0x80 + v mod 64) # rest) c n n m out =
    utf8_loop rest (of_nat v) 2 2 (m - length ws) (out @ ws)"
proof -
  have b: "2 \<le> v div 64" "v div 64 < 32"
    using assms(1,2) div_le_mono [of 128 v 64] by (simp_all add: less_mult_imp_div_less)
  have "utf8_unit (of_nat (0xC0 + v div 64)) c n n = Some (of_nat (v div 64), 2, 1)"
    using utf8_unit_lead(2) [of "0xC0 + v div 64" c n] b by simp
  then have "utf8_loop (of_nat (0xC0 + v div 64) # of_nat (0x80 + v mod 64) # rest) c n n m out =
      utf8_loop (of_nat (0x80 + v mod 64) # rest) (of_nat (v div 64)) 2 1 m out"
    by (rule utf8_loop_lead) (use b assms in simp_all)
  also have "\<dots> = utf8_loop rest (of_nat v) 2 2 (m - length ws) (out @ ws)"
    by (rule utf8_loop_last) (use b assms in simp_all)
  finally show ?thesis .
qed

lemma utf8_loop_seq3:
  assumes "v \<le> 0xFFFF" "0 < m" "utf16_store (of_nat v) 3 m = Some ws"
  shows "utf8_loop (of_nat (0xE0 + v div 4096) # of_nat (0x80 + v div 64 mod 64) # of_nat (0x80 + v mod 64) # rest)
      c n n m out = utf8_loop rest (of_nat v) 3 3 (m - length ws) (out @ ws)"
proof -
  have b: "v div 4096 < 16" "v div 64 < 1024" using assms(1) by (simp_all add: less_mult_imp_div_less)
  let ?r2 = "of_nat (0x80 + v mod 64) # rest" and ?r1 = "of_nat (0x80 + v div 64 mod 64) # of_nat (0x80 + v mod 64) # rest"
  have "utf8_unit (of_nat (0xE0 + v div 4096)) c n n = Some (of_nat (v div 4096), 3, 1)"
    using utf8_unit_lead(3) [of "0xE0 + v div 4096" c n] b by simp
  then have "utf8_loop (of_nat (0xE0 + v div 4096) # ?r1) c n n m out = utf8_loop ?r1 (of_nat (v div 4096)) 3 1 m out"
    by (rule utf8_loop_lead) (use b assms in simp_all)
  also have "\<dots> = utf8_loop ?r2 (of_nat (v div 64)) 3 2 m out"
    by (rule utf8_loop_tail) (use b assms div_mod_join [of v 64] in simp_all)
  also have "\<dots> = utf8_loop rest (of_nat v) 3 3 (m - length ws) (out @ ws)"
    by (rule utf8_loop_last) (use b assms in simp_all)
  finally show ?thesis .
qed

lemma utf8_loop_seq4:
  assumes "v \<le> 0x10FFFF" "0 < m" "utf16_store (of_nat v) 4 m = Some ws"
  shows "utf8_loop (of_nat (0xF0 + v div 262144) # of_nat (0x80 + v div 4096 mod 64) #
      of_nat (0x80 + v div 64 mod 64) # of_nat (0x80 + v mod 64) # rest) c n n m out =
    utf8_loop rest (of_nat v) 4 4 (m - length ws) (out @ ws)"
proof -
  have b: "v div 262144 \<le> 4" "v div 4096 < 1024" "v div 64 < 65536"
    using assms(1) div_le_mono [of v "0x10FFFF" 262144] by (simp_all add: less_mult_imp_div_less)
  let ?r3 = "of_nat (0x80 + v mod 64) # rest" and ?r2 = "of_nat (0x80 + v div 64 mod 64) # of_nat (0x80 + v mod 64) # rest"
    and ?r1 = "of_nat (0x80 + v div 4096 mod 64) # of_nat (0x80 + v div 64 mod 64) # of_nat (0x80 + v mod 64) # rest"
  have "utf8_unit (of_nat (0xF0 + v div 262144)) c n n = Some (of_nat (v div 262144), 4, 1)"
    using utf8_unit_lead(4) [of "0xF0 + v div 262144" c n] b by simp
  then have "utf8_loop (of_nat (0xF0 + v div 262144) # ?r1) c n n m out = utf8_loop ?r1 (of_nat (v div 262144)) 4 1 m out"
    by (rule utf8_loop_lead) (use b assms in simp_all)
  also have "\<dots> = utf8_loop ?r2 (of_nat (v div 4096)) 4 2 m out"
    by (rule utf8_loop_tail) (use b assms div_mod_join [of v 4096] in simp_all)
  also have "\<dots> = utf8_loop ?r3 (of_nat (v div 64)) 4 3 m out"
    by (rule utf8_loop_tail) (use b assms div_mod_join [of v 64] in simp_all)
  also have "\<dots> = utf8_loop rest (of_nat v) 4 4 (m - length ws) (out @ ws)"
    by (rule utf8_loop_last) (use b assms in simp_all)
  finally show ?thesis .
qed

lemma utf16_enc_nonempty: "0 < length (utf16_enc cp)"
  by (simp add: utf16_enc_def Let_def)

lemma utf8_loop_enc:
  assumes sv: "scalar_value cp" and fit: "length (utf16_enc cp) \<le> m"
  shows "\<exists>e. utf8_loop (utf8_enc cp @ rest) c n n m out =
    utf8_loop rest cp e e (m - length (utf16_enc cp)) (out @ utf16_enc cp)"
proof -
  define v where "v = unat cp"
  have cp: "cp = of_nat v" by (simp add: v_def)
  have v: "0 < v" "v \<le> 0x10FFFF"
    using sv by (auto simp: scalar_value_def v_def word32_le unat_gt_0)
  have m: "0 < m" using fit utf16_enc_nonempty [of cp] by linarith
  note st = utf16_store_enc [OF sv fit, folded v_def]
  note loops = utf8_loop_seq2 [where v = v, OF _ _ m] utf8_loop_seq3 [where v = v, OF _ m] utf8_loop_seq4 [where v = v, OF v(2) m]
  consider "v \<le> 0x7F" | "0x7F < v" "v \<le> 0x7FF" | "0x7FF < v" "v \<le> 0xFFFF" | "0xFFFF < v" by linarith
  then show ?thesis
  proof cases
    case 1
    then have e: "utf8_enc cp = [of_nat v]" by (simp add: utf8_enc_def v_def Let_def)
    have "utf8_unit (of_nat v) c n n = Some (cp, 1, 1)" using 1 cp utf8_unit_lead(1) [of v c n] by simp
    moreover have "(of_nat v :: byte) \<noteq> 0" using 1 v byte_cmp(3) [of v] by simp
    ultimately show ?thesis using m st [of 1] unfolding e by (intro exI [of _ 1]) simp
  next
    case 2
    then have "utf8_enc cp = [of_nat (0xC0 + v div 64), of_nat (0x80 + v mod 64)]"
      by (simp add: utf8_enc_def v_def Let_def)
    with loops(1) [OF 2] st [of 2] 2 show ?thesis unfolding cp [symmetric] by (metis append_Cons append_Nil)
  next
    case 3
    then have "utf8_enc cp = [of_nat (0xE0 + v div 4096), of_nat (0x80 + v div 64 mod 64), of_nat (0x80 + v mod 64)]"
      by (simp add: utf8_enc_def v_def Let_def)
    with loops(2) [OF 3(2)] st [of 3] 3 show ?thesis unfolding cp [symmetric] by (metis append_Cons append_Nil)
  next
    case 4
    then have "utf8_enc cp = [of_nat (0xF0 + v div 262144), of_nat (0x80 + v div 4096 mod 64),
        of_nat (0x80 + v div 64 mod 64), of_nat (0x80 + v mod 64)]"
      by (simp add: utf8_enc_def v_def Let_def)
    with loops(3) st [of 4] 4 show ?thesis unfolding cp [symmetric] by (metis append_Cons append_Nil)
  qed
qed

lemma utf8_loop_string:
  assumes "list_all scalar_value cps" "length (utf16_string cps) \<le> m"
  shows "utf8_loop (utf8_string cps) c n n m out = (CGPT_OK, out @ utf16_string cps)"
  using assms
proof (induction cps arbitrary: c n m out)
  case Nil
  then show ?case by simp
next
  case (Cons cp cps)
  obtain e where "utf8_loop (utf8_enc cp @ utf8_string cps) c n n m out =
      utf8_loop (utf8_string cps) cp e e (m - length (utf16_enc cp)) (out @ utf16_enc cp)"
    using utf8_loop_enc [of cp m "utf8_string cps" c n out] Cons.prems by (simp, blast)
  with Cons show ?case by simp
qed

subsection \<open>The other direction\<close>

lemma unat_of_nat_u16: "k < 65536 \<Longrightarrow> unat (of_nat k :: u16) = k"
  by (simp add: unat_of_nat)

lemma u16_cmp:
  "k < 65536 \<Longrightarrow> (of_nat k :: u16) \<le> numeral n \<longleftrightarrow> k \<le> unat (numeral n :: u16)"
  "k < 65536 \<Longrightarrow> numeral n \<le> (of_nat k :: u16) \<longleftrightarrow> unat (numeral n :: u16) \<le> k"
  "k < 65536 \<Longrightarrow> (of_nat k :: u16) = 0 \<longleftrightarrow> k = 0"
  using unat_of_nat_u16 [of k] by (simp_all add: word_le_nat_alt unat_eq_zero [symmetric])

lemma ucast_u16: "k < 65536 \<Longrightarrow> (ucast (of_nat k :: u16) :: u32) = of_nat k"
  by (metis of_nat_unat unat_of_nat_u16)

lemma ucast_u16_and: "k < 65536 \<Longrightarrow> (ucast (of_nat k :: u16) AND 0x3FF :: u32) = of_nat (k mod 1024)"
proof -
  assume k: "k < 65536"
  have "unat (ucast (of_nat k :: u16) AND 0x3FF :: u32) = k mod 1024"
    using k by (simp only: masks32 ucast_u16 unat_and_mask) (simp add: unat_of_nat)
  then show ?thesis by (metis of_nat_unat ucast_id)
qed

lemma utf8_enc_nonempty: "0 < length (utf8_enc cp)"
  by (simp add: utf8_enc_def Let_def)

lemma utf16_loop_enc:
  assumes sv: "scalar_value cp" and fit: "length (utf8_enc cp) \<le> m"
  shows "utf16_loop (utf16_enc cp @ rest) c True m out =
    utf16_loop rest cp True (m - length (utf8_enc cp)) (out @ utf8_enc cp)"
proof -
  define v where "v = unat cp"
  have cp: "cp = of_nat v" by (simp add: v_def)
  have v: "0 < v" "v \<le> 0x10FFFF" "\<not> (0xD800 \<le> v \<and> v \<le> 0xDFFF)" and le: "cp \<le> 0x10FFFF"
    using sv by (auto simp: scalar_value_def v_def word32_le unat_gt_0)
  have m: "0 < m" using fit utf8_enc_nonempty [of cp] by linarith
  note st = utf8_store_enc [OF le fit]
  show ?thesis
  proof (cases "v \<le> 0xFFFF")
    case True
    then have e: "utf16_enc cp = [of_nat v]" by (simp add: utf16_enc_def v_def Let_def)
    have "(of_nat v :: u16) \<noteq> 0" "\<not> (0xD800 \<le> (of_nat v :: u16) \<and> (of_nat v :: u16) \<le> 0xDBFF)"
      "(ucast (of_nat v :: u16) :: u32) = cp"
      using True v ucast_u16 [of v] cp by (auto simp: u16_cmp)
    then show ?thesis using st m le unfolding e by auto
  next
    case False
    let ?q = "(v - 0x10000) div 1024"
    have e: "utf16_enc cp = [of_nat (0xD800 + ?q), of_nat (0xDC00 + v mod 1024)]"
      using False by (simp add: utf16_enc_def v_def Let_def)
    have q: "?q < 1024" using v by (simp add: less_mult_imp_div_less)
    have "v mod 1024 < 1024" by simp
    then have r: "v mod 1024 < 1024" "v mod 1024 < 9216" by linarith+
    let ?hi = "of_nat (0xD800 + ?q) :: u16" and ?lo = "of_nat (0xDC00 + v mod 1024) :: u16"
    have hi: "?hi \<noteq> 0" "0xD800 \<le> ?hi" "?hi \<le> 0xDBFF" using q u16_cmp [of "0xD800 + ?q"] by simp_all
    have lo: "?lo \<noteq> 0" "0xDC00 \<le> ?lo" "?lo \<le> 0xDFFF" using r u16_cmp [of "0xDC00 + v mod 1024"] by simp_all
    have "(0xD800 + ?q) mod 1024 = ?q" "(0xDC00 + v mod 1024) mod 1024 = v mod 1024"
      using q mod_mult_self3 [of 54 1024 ?q] mod_mult_self3 [of 55 1024 "v mod 1024"] by simp_all
    then have parts: "(ucast ?hi AND 0x3FF :: u32) = of_nat ?q" "(ucast ?lo AND 0x3FF :: u32) = of_nat (v mod 1024)"
      using q r ucast_u16_and [of "0xD800 + ?q"] ucast_u16_and [of "0xDC00 + v mod 1024"] by simp_all
    have "push_bit 10 (of_nat ?q + 0x40) OR (of_nat (v mod 1024) :: u32) = push_bit 10 (of_nat ?q + 0x40) + of_nat (v mod 1024)"
      by (rule or_eq_plus [where k = 10]) (use r in \<open>simp_all add: take_bit_push_bit unat_of_nat\<close>)
    also have "\<dots> = of_nat (1024 * (?q + 0x40) + v mod 1024)" by (simp add: push_bit_eq_mult)
    also have "1024 * (?q + 0x40) + v mod 1024 = v"
      using False div_mult_self4 [of 1024 "0x40" "v - 0x10000"] mult_div_mod_eq [of 1024 v] by simp
    finally have join: "push_bit 10 (of_nat ?q + 0x40) OR (of_nat (v mod 1024) :: u32) = cp" by (simp add: cp)
    show ?thesis
      using hi lo m le st join parts unfolding e by (simp del: of_nat_add)
  qed
qed

lemma utf16_loop_string:
  assumes "list_all scalar_value cps" "length (utf8_string cps) \<le> m"
  shows "utf16_loop (utf16_string cps @ 0 # pad) c True m out = Some (CGPT_OK, out @ utf8_string cps)"
  using assms by (induction cps arbitrary: c m out) (simp_all add: utf16_loop_enc)

subsection \<open>The conversions are the standard ones\<close>

text \<open>Converting the UTF-8 encoding of any sequence of Unicode scalar values (no NUL, no surrogate)
  into an array with room for its UTF-16 encoding and a terminator succeeds and stores exactly that
  encoding: the hand-written decoder reads every one-, two-, three- and four-byte sequence of the standard.\<close>

theorem UTF8ToUTF16_encodes:
  assumes "list_all scalar_value cps" "length (utf16_string cps) < maxoutput"
  shows "UTF8ToUTF16 (utf8_string cps) maxoutput = (CGPT_OK, utf16_string cps @ [0])"
  using assms utf8_loop_string [of cps "maxoutput - 1" 0 1 "[]"] by (simp add: UTF8ToUTF16_def)

theorem UTF8ToUTF16_encodes_witness:
  "UTF8ToUTF16 [0x41, 0xC3, 0xA9, 0xE2, 0x82, 0xAC, 0xF0, 0x9F, 0x98, 0x80] 36 =
     (CGPT_OK, [0x41, 0xE9, 0x20AC, 0xD83D, 0xDE00, 0])"
proof -
  let ?cps = "[0x41, 0xE9, 0x20AC, 0x1F600]"
  have "list_all scalar_value ?cps" "length (utf16_string ?cps) < 36"
    by (simp_all add: scalar_value_def utf16_enc_def)
  moreover have "utf8_string ?cps = [0x41, 0xC3, 0xA9, 0xE2, 0x82, 0xAC, 0xF0, 0x9F, 0x98, 0x80]"
    "utf16_string ?cps = [0x41, 0xE9, 0x20AC, 0xD83D, 0xDE00]"
    by (simp_all add: utf8_enc_def utf16_enc_def)
  ultimately show ?thesis using UTF8ToUTF16_encodes [of ?cps 36] by simp
qed

text \<open>A label survives storing and showing: what \<open>UTF8ToUTF16\<close> writes into the name array of an
  entry, read back by \<open>UTF16ToUTF8\<close> with enough room, is the original UTF-8 string, whatever follows
  the terminator in the array.\<close>

theorem label_round_trip:
  assumes "list_all scalar_value cps" "length (utf16_string cps) < maxoutput"
    and "length (utf16_string cps) < maxinput" "length (utf8_string cps) < maxoutput'"
  shows "UTF16ToUTF8 (snd (UTF8ToUTF16 (utf8_string cps) maxoutput) @ pad) maxinput maxoutput' =
    Some (CGPT_OK, utf8_string cps @ [0])"
proof -
  have "snd (UTF8ToUTF16 (utf8_string cps) maxoutput) = utf16_string cps @ [0]"
    using assms(1,2) utf8_loop_string [of cps "maxoutput - 1" 0 1 "[]"] by (simp add: UTF8ToUTF16_def)
  moreover have "take maxinput (utf16_string cps @ 0 # pad) =
      utf16_string cps @ 0 # take (maxinput - Suc (length (utf16_string cps))) pad"
    using assms(3) by (simp add: take_Cons')
  ultimately show ?thesis
    using assms utf16_loop_string [of cps "maxoutput' - 1"] by (simp add: UTF16ToUTF8_def)
qed

theorem label_round_trip_witness:
  "UTF16ToUTF8 (snd (UTF8ToUTF16 [0x41, 0xE2, 0x82, 0xAC] 36) @ [7]) 36 72 = Some (CGPT_OK, [0x41, 0xE2, 0x82, 0xAC, 0])"
proof -
  let ?cps = "[0x41, 0x20AC]"
  have "list_all scalar_value ?cps" "length (utf16_string ?cps) < 36" "length (utf8_string ?cps) < 72"
    by (simp_all add: scalar_value_def utf16_enc_def utf8_enc_def)
  moreover have "utf8_string ?cps = [0x41, 0xE2, 0x82, 0xAC]" by (simp add: utf8_enc_def)
  ultimately show ?thesis using label_round_trip [of ?cps 36 36 72 "[7]"] by simp
qed

subsection \<open>Labels that do not fit\<close>

abbreviation ascii :: "byte \<Rightarrow> bool" where
  "ascii b \<equiv> b \<noteq> 0 \<and> b \<le> 0x7F"

lemma utf8_loop_ascii:
  assumes "list_all ascii bs"
  shows "utf8_loop bs c 1 1 m out = (CGPT_OK, out @ map ucast (take m bs))"
  using assms
proof (induction bs arbitrary: c m out)
  case Nil
  then show ?case by simp
next
  case (Cons b bs)
  then have b: "b \<noteq> 0" "b \<le> 0x7F" by simp_all
  then have "unat b \<le> 0x7F" by (simp add: word_le_nat_alt)
  then have "utf16_store (ucast b) 1 m = Some [ucast (ucast b :: u32)]"
    by (simp add: utf16_store_def word32_le unsigned_ucast_eq take_bit_nat_eq_self)
  moreover have "(ucast (ucast b :: u32) :: u16) = ucast b"
    by (rule bit_word_eqI) (auto simp: bit_ucast_iff dest: bit_imp_le_length)
  moreover have "utf8_unit b c 1 1 = Some (ucast b, 1, 1)" using b by (simp add: utf8_unit_def)
  ultimately show ?case using b Cons by (cases m) simp_all
qed

text \<open>A label that is too long for the array is not refused: \<open>UTF8ToUTF16\<close> stores as many units of
  an ASCII label as fit, terminates them and reports success, although the comment above it announces
  \<open>CGPT_FAILED\<close> when the output buffer is too short.\<close>

theorem UTF8ToUTF16_truncates:
  assumes "list_all ascii bs" "0 < maxoutput"
  shows "UTF8ToUTF16 bs maxoutput = (CGPT_OK, map ucast (take (maxoutput - 1) bs) @ [0])"
  using assms utf8_loop_ascii [of bs 0 "maxoutput - 1" "[]"] by (simp add: UTF8ToUTF16_def)

theorem UTF8ToUTF16_truncates_witness:
  "UTF8ToUTF16 [0x62, 0x6F, 0x6F, 0x74] 3 = (CGPT_OK, [0x62, 0x6F, 0])"
  using UTF8ToUTF16_truncates [of "[0x62, 0x6F, 0x6F, 0x74]" 3] by simp

end
