(* ===== verification/Cgpt_Add.thy ===== *)
theory Cgpt_Add
  imports Cgpt_Cmds Utf
begin

text \<open>
  Editing one entry (\<open>gpt/lib/cgpt_add.c\<close>): \<open>cgpt_add\<close>, \<open>cgpt_set_attributes\<close> and
  \<open>cgpt_get_partition_details\<close>. The commands work on the loaded byte tables; against them stands a
  specification on the list of entries.
\<close>

unbundle bit_operations_syntax

record CgptAddParams =
  ad_drive_name :: string
  ad_partition :: u32
  ad_begin :: u64
  ad_size :: u64
  type_guid :: Guid
  unique_guid :: Guid
  label :: "byte list option"
  successful :: u32
  tries :: u32
  priority :: u32
  raw_value :: u16
  set_begin :: bool
  set_size :: bool
  set_type :: bool
  set_unique :: bool
  set_successful :: bool
  set_tries :: bool
  set_priority :: bool
  set_raw :: bool

subsection \<open>The code\<close>

definition set_entry_attributes :: "GptData \<Rightarrow> entry_ref \<Rightarrow> u32 \<Rightarrow> CgptAddParams \<Rightarrow> GptData option" where
  "set_entry_attributes g entry index p =
    (if set_raw p then Some (store_entry g entry ((load_entry g entry)\<lparr>gpt_att := raw_value p\<rparr>))
     else do { g \<leftarrow> (if set_successful p then SetSuccessful g PRIMARY index (successful p) else Some g);
               g \<leftarrow> (if set_tries p then SetTries g PRIMARY index (tries p) else Some g);
               if set_priority p then SetPriority g PRIMARY index (priority p) else Some g })"

definition both_valid :: "GptData \<Rightarrow> bool" where
  "both_valid g \<longleftrightarrow> valid_headers g AND MASK_BOTH = MASK_BOTH \<and> valid_entries g AND MASK_BOTH = MASK_BOTH"

definition cgpt_set_attributes :: "CgptAddParams option \<Rightarrow> fs \<Rightarrow> command_result" where
  "cgpt_set_attributes params files =
    (case params of None \<Rightarrow> Some (CGPT_FAILED, files) | Some p \<Rightarrow>
     let path = ad_drive_name p in
     do { r \<leftarrow> DriveOpen files path True;
          case r of None \<Rightarrow> Some (CGPT_FAILED, files) | Some d \<Rightarrow>
          let (g, rv) = GptSanityCheck (gpt d); d = d\<lparr>gpt := g\<rparr> in
          if rv \<noteq> GPT_SUCCESS then close_failed path files d
          else if \<not> both_valid g then close_failed path files d
          else if ad_partition p = 0 then close_failed path files d
          else if ad_partition p > GetNumberOfEntries g then close_failed path files d
          else let index = ad_partition p - 1 in
            do { entry \<leftarrow> GetEntry g PRIMARY index;
                 g \<leftarrow> set_entry_attributes g entry index p;
                 close_drive path files (d\<lparr>gpt := commit_primary g\<rparr>) True } })"

text \<open>The search loops; \<open>Some None\<close> is a loop that ends without a match.\<close>

fun find_entry :: "GptData \<Rightarrow> (GptEntry \<Rightarrow> bool) \<Rightarrow> nat \<Rightarrow> nat \<Rightarrow> (nat \<times> entry_ref) option option" where
  "find_entry g P i 0 = Some None"
| "find_entry g P i (Suc k) =
    do { r \<leftarrow> GetEntry g PRIMARY (of_nat i);
         if P (load_entry g r) then Some (Some (i, r)) else find_entry g P (Suc i) k }"

definition read_details :: "GptData \<Rightarrow> entry_ref \<Rightarrow> u32 \<Rightarrow> CgptAddParams \<Rightarrow> CgptAddParams option" where
  "read_details g entry index p =
    (let e = load_entry g entry in
     do { s \<leftarrow> GetSuccessful g PRIMARY index; t \<leftarrow> GetTries g PRIMARY index; pr \<leftarrow> GetPriority g PRIMARY index;
          Some (p\<lparr>ad_begin := starting_lba e, ad_size := ending_lba e - starting_lba e + 1, type_guid := etype e,
                   unique_guid := unique e, raw_value := gpt_att e, successful := of_nat s, tries := of_nat t,
                   priority := of_nat pr\<rparr>) })"

definition cgpt_get_partition_details ::
    "CgptAddParams option \<Rightarrow> fs \<Rightarrow> (cgpt_status \<times> CgptAddParams option \<times> fs) option" where
  "cgpt_get_partition_details params files =
    (case params of None \<Rightarrow> Some (CGPT_FAILED, None, files) | Some p \<Rightarrow>
     let path = ad_drive_name p;
         finish = (\<lambda>d st p'. do { (_, files') \<leftarrow> close_drive path files d False; Some (st, Some p', files') }) in
     do { r \<leftarrow> DriveOpen files path True;
          case r of None \<Rightarrow> Some (CGPT_FAILED, Some p, files) | Some d \<Rightarrow>
          let (g, rv) = GptSanityCheck (gpt d); d = d\<lparr>gpt := g\<rparr> in
          if rv \<noteq> GPT_SUCCESS then finish d CGPT_FAILED p
          else if \<not> both_valid g then finish d CGPT_FAILED p
          else let max_part = GetNumberOfEntries g in
          if ad_partition p \<noteq> 0 then
            (if ad_partition p > max_part then finish d CGPT_FAILED p
             else do { entry \<leftarrow> GetEntry g PRIMARY (ad_partition p - 1);
                       p' \<leftarrow> read_details g entry (ad_partition p - 1) p;
                       finish d CGPT_OK p' })
          else if \<not> set_unique p then finish d CGPT_FAILED p
          else do { hit \<leftarrow> find_entry g (\<lambda>e. GuidEqual (unique e) (unique_guid p)) 0 (unat max_part);
                    case hit of
                      None \<Rightarrow> finish d CGPT_FAILED p
                    | Some (i, entry) \<Rightarrow>
                        do { p' \<leftarrow> read_details g entry (of_nat i) (p\<lparr>ad_partition := of_nat i + 1\<rparr>);
                             finish d CGPT_OK p' } } })"

text \<open>The choice of the entry in \<open>cgpt_add\<close>: its index and place, and the partition number left in
  \<open>params\<close>.\<close>

definition pick_entry :: "GptData \<Rightarrow> CgptAddParams \<Rightarrow> (u32 \<times> entry_ref) option option" where
  "pick_entry g p =
    (let max_part = GetNumberOfEntries g in
     if ad_partition p \<noteq> 0 then
       (if ad_partition p > max_part then Some None
        else do { r \<leftarrow> GetEntry g PRIMARY (ad_partition p - 1); Some (Some (ad_partition p - 1, r)) })
     else do { hit \<leftarrow> find_entry g (\<lambda>e. IsZero (etype e)) 0 (unat max_part);
               Some (map_option (\<lambda>(i, r). (of_nat i, r)) hit) })"

text \<open>The requirements on a new partition. The generator is called for every new partition, also when
  the unique GUID is given: the call is not in the branch its indentation suggests. \<open>None\<close> is a call
  through the null pointer, \<open>Some None\<close> a refusal.\<close>

definition new_unique :: "buffer option \<Rightarrow> CgptAddParams \<Rightarrow> GptEntry \<Rightarrow> GptEntry option option" where
  "new_unique uuid_generator p e =
    (if IsZero (etype e) then
       (if \<not> set_begin p \<or> \<not> set_size p \<or> \<not> set_type p then Some None
        else if IsZero (type_guid p) then Some None
        else if \<not> set_unique p \<and> uuid_generator = None then Some None
        else do { u \<leftarrow> uuid_generator; Some (Some (e\<lparr>unique := dec_guid u\<rparr>)) })
     else Some (Some e))"

definition edit_entry :: "CgptAddParams \<Rightarrow> GptEntry \<Rightarrow> GptEntry option" where
  "edit_entry p e0 =
    (let e = (if set_begin p then e0\<lparr>starting_lba := ad_begin p\<rparr> else e0);
         e = (if set_size p then e\<lparr>ending_lba := starting_lba e + ad_size p - 1\<rparr> else e);
         e = (if set_type p then e\<lparr>etype := type_guid p\<rparr> else e);
         e = (if set_unique p then e\<lparr>unique := unique_guid p\<rparr> else e)
     in case label p of
          None \<Rightarrow> Some e
        | Some l \<Rightarrow> (case UTF8ToUTF16 l 36 of
            (CGPT_OK, units) \<Rightarrow> Some (e\<lparr>name := overlay 0 units (name e)\<rparr>)
          | (CGPT_FAILED, _) \<Rightarrow> None))"

text \<open>The status, the partition number in \<open>params\<close>, and the files.\<close>

definition cgpt_add :: "buffer option \<Rightarrow> CgptAddParams option \<Rightarrow> fs \<Rightarrow> (cgpt_status \<times> u32 \<times> fs) option" where
  "cgpt_add uuid_generator params files =
    (case params of None \<Rightarrow> Some (CGPT_FAILED, 0, files) | Some p \<Rightarrow>
     let path = ad_drive_name p;
         bad = (\<lambda>d pn. do { (st, files') \<leftarrow> close_failed path files d; Some (st, pn, files') }) in
     do { r \<leftarrow> DriveOpen files path True;
          case r of None \<Rightarrow> Some (CGPT_FAILED, ad_partition p, files) | Some d \<Rightarrow>
          let (g, rv) = GptSanityCheck (gpt d); d = d\<lparr>gpt := g\<rparr> in
          if rv \<noteq> GPT_SUCCESS then bad d (ad_partition p)
          else if \<not> both_valid g then bad d (ad_partition p)
          else do { pick \<leftarrow> pick_entry g p;
            case pick of None \<Rightarrow> bad d (ad_partition p) | Some (index, entry) \<Rightarrow>
            let pn = index + 1 in
            do { e \<leftarrow> new_unique uuid_generator p (load_entry g entry);
              case e of None \<Rightarrow> bad d pn | Some e \<Rightarrow>
              (case edit_entry p e of None \<Rightarrow> bad d pn | Some e \<Rightarrow>
               do { g \<leftarrow> set_entry_attributes (store_entry g entry e) entry index p;
                    let g = commit_primary g;
                        rv = CheckEntries (primary_entries g) (hdr (primary_header g)) in
                    if rv \<noteq> GPT_SUCCESS then bad (d\<lparr>gpt := g\<rparr>) pn
                    else do { (st, files') \<leftarrow> close_drive path files (d\<lparr>gpt := g\<rparr>) True; Some (st, pn, files') } }) } } })"

subsection \<open>Stores into one entry\<close>

lemma GetEntry_store [simp]: "GetEntry (store_entry g r e) w k = GetEntry g w k"
  by (simp add: GetEntry_def GetSizeOfEntries_def GetNumberOfEntries_def store_entry_def Let_def)

lemma store_entry_rules:
  assumes "length (primary_entries g) = 16384" "i < 128" "entry_wf e"
  shows "load_entry (store_entry g (False, 128 * i) e) (False, 128 * i) = e"
    and "entry_wf e' \<Longrightarrow> store_entry (store_entry g (False, 128 * i) e) (False, 128 * i) e' = store_entry g (False, 128 * i) e'"
    and "length (primary_entries (store_entry g (False, 128 * i) e)) = 16384"
proof -
  show "load_entry (store_entry g (False, 128 * i) e) (False, 128 * i) = e"
    using assms by (simp add: load_entry_def store_entry_def entry_at_put_entry)
qed (use assms in \<open>simp_all add: store_entry_def put_entry_def entry.put_put entry.length_put\<close>)

lemma entry_wf_attr [simp]:
  "entry_wf (attr_or w e) = entry_wf e" "entry_wf (attr_clear w e) = entry_wf e" "entry_wf (e\<lparr>gpt_att := a\<rparr>) = entry_wf e"
  by (simp_all add: entry_wf_def attr_or_def attr_clear_def)

text \<open>The attributes of the request on an entry.\<close>

definition attr_edit :: "CgptAddParams \<Rightarrow> GptEntry \<Rightarrow> GptEntry" where
  "attr_edit p e =
    (if set_raw p then e\<lparr>gpt_att := raw_value p\<rparr>
     else let put = (\<lambda>b msk off v e. if b then attr_or (ucast (push_bit off (v :: u32))) (attr_clear msk e) else e);
              e = put (set_successful p) CGPT_ATTRIBUTE_SUCCESSFUL_MASK CGPT_ATTRIBUTE_SUCCESSFUL_OFFSET (successful p) e;
              e = put (set_tries p) CGPT_ATTRIBUTE_TRIES_MASK CGPT_ATTRIBUTE_TRIES_OFFSET (tries p) e
          in put (set_priority p) CGPT_ATTRIBUTE_PRIORITY_MASK CGPT_ATTRIBUTE_PRIORITY_OFFSET (priority p) e)"

definition attrs_in_range :: "CgptAddParams \<Rightarrow> bool" where
  "attrs_in_range p \<longleftrightarrow> set_raw p \<or> (\<not> set_successful p \<or> successful p \<le> 1) \<and>
     (\<not> set_tries p \<or> tries p \<le> 15) \<and> (\<not> set_priority p \<or> priority p \<le> 15)"

lemma entry_wf_attr_edit [simp]: "entry_wf (attr_edit p e) = entry_wf e"
  by (simp add: attr_edit_def Let_def)

lemma ucast_le_small: "(v :: u32) \<le> 1 \<Longrightarrow> (ucast v :: u64) \<le> 1" "v \<le> 15 \<Longrightarrow> (ucast v :: u64) \<le> 15"
  by (simp_all add: word_le_nat_alt unsigned_ucast_eq take_bit_nat_eq_self)

lemma set_attr_store:
  assumes "length (primary_entries g) = 16384" "i < 128" "GetEntry g PRIMARY idx = Some (False, 128 * i)" "entry_wf e"
    and "ucast v \<le> maxv"
  shows "set_attr maxv msk off (store_entry g (False, 128 * i) e) PRIMARY idx v =
    Some (store_entry g (False, 128 * i) (attr_or (ucast (push_bit off v)) (attr_clear msk e)))"
  using assms by (simp add: set_attr_def store_entry_rules)

lemma set_entry_attributes_eq:
  assumes "length (primary_entries g) = 16384" "i < 128" "GetEntry g PRIMARY idx = Some (False, 128 * i)" "entry_wf e"
    and r: "attrs_in_range p"
  shows "set_entry_attributes (store_entry g (False, 128 * i) e) (False, 128 * i) idx p =
    Some (store_entry g (False, 128 * i) (attr_edit p e))"
proof (cases "set_raw p")
  case True
  then show ?thesis using assms by (simp add: set_entry_attributes_def attr_edit_def store_entry_rules)
next
  case False
  note st = set_attr_store [OF assms(1-3)]
  have v: "set_successful p \<Longrightarrow> (ucast (successful p) :: u64) \<le> 1" "set_tries p \<Longrightarrow> (ucast (tries p) :: u64) \<le> 15"
    "set_priority p \<Longrightarrow> (ucast (priority p) :: u64) \<le> 15"
    using r False by (auto simp: attrs_in_range_def intro: ucast_le_small)
  show ?thesis
    using False v assms(4)
    by (simp add: set_entry_attributes_def attr_edit_def Let_def SetSuccessful_def SetTries_def SetPriority_def st)
qed

subsection \<open>The specification on the list of entries\<close>

fun find_index :: "('a \<Rightarrow> bool) \<Rightarrow> 'a list \<Rightarrow> nat option" where
  "find_index P [] = None"
| "find_index P (x # xs) = (if P x then Some 0 else map_option Suc (find_index P xs))"

lemma find_index_bound: "find_index P xs = Some i \<Longrightarrow> i < length xs \<and> P (xs ! i)"
  by (induction xs arbitrary: i) (auto split: if_splits)

definition add_index :: "CgptAddParams \<Rightarrow> GptEntry list \<Rightarrow> nat option" where
  "add_index p es =
    (if ad_partition p \<noteq> 0 then (if ad_partition p > 128 then None else Some (unat (ad_partition p) - 1))
     else find_index (\<lambda>e. IsZero (etype e)) es)"

definition fresh_entry :: "buffer \<Rightarrow> CgptAddParams \<Rightarrow> GptEntry \<Rightarrow> GptEntry option" where
  "fresh_entry u p e =
    (if \<not> IsZero (etype e) then Some e
     else if set_begin p \<and> set_size p \<and> set_type p \<and> \<not> IsZero (type_guid p) then Some (e\<lparr>unique := dec_guid u\<rparr>)
     else None)"

text \<open>What the request says of each field, then the entry that it asks for, with its index.\<close>

definition requested :: "CgptAddParams \<Rightarrow> GptEntry \<Rightarrow> GptEntry option" where
  "requested p e =
    (let first = (if set_begin p then ad_begin p else starting_lba e) in
     do { nm \<leftarrow> (case label p of None \<Rightarrow> Some (name e)
             | Some l \<Rightarrow> if fst (UTF8ToUTF16 l 36) = CGPT_OK then Some (overlay 0 (snd (UTF8ToUTF16 l 36)) (name e)) else None);
          Some (e\<lparr>starting_lba := first, ending_lba := (if set_size p then first + ad_size p - 1 else ending_lba e),
                  etype := (if set_type p then type_guid p else etype e),
                  unique := (if set_unique p then unique_guid p else unique e), name := nm\<rparr>) })"

definition add_spec :: "buffer \<Rightarrow> CgptAddParams \<Rightarrow> GptEntry list \<Rightarrow> (nat \<times> GptEntry) option" where
  "add_spec u p es = do { i \<leftarrow> add_index p es; e \<leftarrow> fresh_entry u p (es ! i); e \<leftarrow> requested p e; Some (i, attr_edit p e) }"

lemma edit_entry_requested: "edit_entry p e = requested p e"
proof (cases "label p")
  case None
  then show ?thesis by (simp add: edit_entry_def requested_def Let_def)
next
  case (Some l)
  obtain st units where "UTF8ToUTF16 l 36 = (st, units)" by (cases "UTF8ToUTF16 l 36")
  then show ?thesis using Some by (cases st) (simp_all add: edit_entry_def requested_def Let_def)
qed

lemma add_spec_edit:
  "add_spec u p es = do { i \<leftarrow> add_index p es; e \<leftarrow> fresh_entry u p (es ! i); e \<leftarrow> edit_entry p e; Some (i, attr_edit p e) }"
  by (simp add: add_spec_def edit_entry_requested)

definition request_wf :: "CgptAddParams \<Rightarrow> bool" where
  "request_wf p \<longleftrightarrow> guid_wf (type_guid p) \<and> guid_wf (unique_guid p) \<and> attrs_in_range p"

lemma add_index_bound: "add_index p es = Some i \<Longrightarrow> length es = 128 \<Longrightarrow> i < 128"
  using find_index_bound [of _ es i]
  by (auto simp: add_index_def word_less_nat_alt not_less unat_gt_0 split: if_splits)

lemma new_unique_generated: "new_unique (Some u) p e = Some (fresh_entry u p e)"
  by (auto simp: new_unique_def fresh_entry_def)

lemma utf8_loop_length: "length out + m = k \<Longrightarrow> length (snd (utf8_loop bs c ex de m out)) \<le> k"
proof (induction bs c ex de m out rule: utf8_loop.induct)
  case (1 code_point expected decoded maxoutput out)
  then show ?case by simp
next
  case (2 u rest code_point expected decoded maxoutput out)
  have w: "utf16_store cp ex maxoutput = Some ws \<Longrightarrow> maxoutput \<noteq> 0 \<Longrightarrow> length ws \<le> maxoutput" for cp ex ws
    by (auto simp: utf16_store_def split: if_splits)
  show ?case using 2 w by (auto simp: Let_def split: option.splits)
qed

lemma UTF8ToUTF16_length: "length (snd (UTF8ToUTF16 bs (Suc k))) \<le> Suc k"
  using utf8_loop_length [of "[]" k k bs 0 1 1] by (simp add: UTF8ToUTF16_def case_prod_beta)

lemma edit_entry_wf:
  assumes "edit_entry p e = Some e'" "entry_wf e" "request_wf p"
  shows "entry_wf e'"
proof -
  have l: "length (overlay 0 units nm) = 36" if "UTF8ToUTF16 l 36 = (st, units)" "length nm = 36" for l st units and nm :: "u16 list"
    using UTF8ToUTF16_length [of l 35] that by simp
  show ?thesis
    using assms l by (auto simp: edit_entry_def request_wf_def entry_wf_def Let_def split: option.splits prod.splits cgpt_status.splits if_splits)
qed

lemma add_spec_wf:
  assumes "add_spec u p es = Some (i, e)" "length es = 128" "list_all entry_wf es" "length u = 16" "request_wf p"
  shows "i < 128 \<and> entry_wf e"
proof -
  obtain e1 e2 where a: "add_index p es = Some i" "fresh_entry u p (es ! i) = Some e1" "edit_entry p e1 = Some e2" "e = attr_edit p e2"
    using assms(1) by (auto simp: add_spec_edit bind_eq_Some_conv)
  have i: "i < 128" using add_index_bound a(1) assms(2) by blast
  then have "entry_wf (es ! i)" using assms(2,3) by (simp add: list_all_length)
  then have "entry_wf e1" using a(2) assms(4) by (auto simp: fresh_entry_def entry_wf_def guid.wf_dec split: if_splits)
  then show ?thesis using edit_entry_wf [OF a(3)] assms(5) a(4) i by simp
qed

subsection \<open>The code does what the specification says\<close>

abbreviation marked :: "GptData \<Rightarrow> GptData" where
  "marked g \<equiv> g\<lparr>valid_headers := MASK_BOTH, valid_entries := MASK_BOTH\<rparr>"

lemma find_entry_first:
  assumes "gpt_ok g" "i + k = 128"
  shows "find_entry (marked g) P i k =
    Some (map_option (\<lambda>j. (i + j, (False, 128 * (i + j)))) (find_index P (drop i (entries_of 128 (primary_entries g)))))"
  using assms(2)
proof (induction k arbitrary: i)
  case 0
  then show ?case by simp
next
  case (Suc k)
  then have i: "i < 128" by simp
  have "drop i (entries_of 128 (primary_entries g)) =
      entries_of 128 (primary_entries g) ! i # drop (Suc i) (entries_of 128 (primary_entries g))"
    using i by (simp only: Cons_nth_drop_Suc length_entries_of)
  then show ?case
    using Suc.IH [of "Suc i"] Suc.prems valid_gpt_entries(3,4) [OF assms(1) i]
    by (simp add: option.map_comp comp_def add.left_commute)
qed

lemma pick_entry_eq:
  assumes "gpt_ok g"
  shows "pick_entry (marked g) p =
    Some (map_option (\<lambda>i. (of_nat i, (False, 128 * i))) (add_index p (entries_of 128 (primary_entries g))))"
proof (cases "ad_partition p = 0")
  case True
  have "find_entry (marked g) (\<lambda>e. IsZero (etype e)) 0 128 = Some (map_option (\<lambda>j. (j, (False, 128 * j)))
      (find_index (\<lambda>e. IsZero (etype e)) (entries_of 128 (primary_entries g))))"
    using find_entry_first [OF assms, of 0 128] by simp
  then show ?thesis
    using True valid_gpt_entries(1) [OF assms] by (simp add: pick_entry_def add_index_def Let_def option.map_comp comp_def)
next
  case False
  show ?thesis
  proof (cases "ad_partition p > 128")
    case True
    then show ?thesis using False valid_gpt_entries(1) [OF assms] by (simp add: pick_entry_def add_index_def Let_def)
  next
    case small: False
    define i where "i = unat (ad_partition p) - 1"
    have u: "0 < unat (ad_partition p)" "unat (ad_partition p) \<le> 128"
      using False small by (simp_all add: unat_gt_0 word_less_nat_alt not_less)
    then have i: "i < 128" "ad_partition p - 1 = of_nat i" by (auto simp: i_def of_nat_diff)
    show ?thesis
      using False small valid_gpt_entries(1) [OF assms] valid_gpt_entries(3) [OF assms i(1)]
      by (simp add: pick_entry_def add_index_def Let_def i(2)) (simp add: i_def)
  qed
qed

text \<open>After committing an edited table, the final check accepts it exactly if the table is valid.\<close>

lemma CheckEntries_commit:
  assumes "gpt_shape g" "sector_bytes g = 512" "usual_gpt g" "header_common (hdr (primary_header g)) drv"
  shows "CheckEntries (primary_entries (commit_primary g)) (hdr (primary_header (commit_primary g))) = GPT_SUCCESS \<longleftrightarrow>
    table_valid (hdr (primary_header g)) (entries_of 128 (primary_entries g))"
proof -
  have len: "92 \<le> length (primary_header g)" "92 \<le> length (secondary_header g)"
      "length (primary_entries g) = 16384" "length (secondary_entries g) = 16384"
    using assms(1,2) by (simp_all add: gpt_shape_def)
  note eq = commit_primary_eq [OF len, OF assms(3) [unfolded usual_gpt_def, THEN conjunct1] assms(3) [unfolded usual_gpt_def, THEN conjunct2]]
  have "number_of_entries (hdr (primary_header g)) = 128" "size_of_entry (hdr (primary_header g)) = 128"
    using assms(4) by (simp_all add: header_common_def)
  then show ?thesis
    using len by (simp add: eq set_header_crc_put CheckEntries_success table_valid_def in_region_def)
qed

lemma close_failed_eq:
  assumes "files path = Some (fd d)"
  shows "close_failed path files d = Some (CGPT_FAILED, files)"
  using map_upd_same [of files path, OF assms] by (simp add: close_failed_def close_drive_def DriveClose_readonly)

lemma both_valid_marked [simp]: "both_valid (marked g)"
  by (simp add: both_valid_def)

text \<open>Committing an entry into a valid drive.\<close>

lemma commit_entry:
  assumes f: "files path = Some f" "media f n" "67 \<le> n" and ok: "gpt_ok (gpt_of n (bytes f))" "usual_gpt (gpt_of n (bytes f))"
    and e: "i < 128" "entry_wf e"
  defines "d \<equiv> \<lparr>fd = f, writable = True, dsize = of_nat (512 * n), gpt = commit_primary (store_entry (marked (gpt_of n (bytes f))) (False, 128 * i) e), dpmbr = zero_pmbr\<rparr>"
    and "es' \<equiv> (entries_of 128 (primary_entries (gpt_of n (bytes f))))[i := e]" and "h \<equiv> hdr (primary_header (gpt_of n (bytes f)))"
  shows "CheckEntries (primary_entries (gpt d)) (hdr (primary_header (gpt d))) = GPT_SUCCESS \<longleftrightarrow> table_valid h es'"
    and "table_valid h es' \<Longrightarrow> \<exists>f'. close_drive path files d True = Some (CGPT_OK, files(path \<mapsto> f')) \<and>
      valid_drive (files(path \<mapsto> f')) path n \<and> entries_of 128 (primary_entries (gpt_of n (bytes f'))) = es' \<and>
      same_data n (bytes f) (bytes f')"
proof -
  define g where "g = store_entry (marked (gpt_of n (bytes f))) (False, 128 * i) e"
  have len: "length (primary_entries (gpt_of n (bytes f))) = 16384"
    using gpt_of_shape [OF f(2)] by (simp add: gpt_shape_def)
  have g: "gpt_shape g" "sector_bytes g = 512" "drive_sectors g = of_nat n" "primary_header g = primary_header (gpt_of n (bytes f))"
      "entries_of 128 (primary_entries g) = es'"
    using gpt_of_shape [OF f(2)] len e by (simp_all add: g_def store_entry_def gpt_shape_def es'_def entries_of_put_entry)
  have us: "usual_gpt g" "signature (hdr (primary_header g)) = GPT_HEADER_SIGNATURE" "h_size (hdr (primary_header g)) = 92"
    using ok(2) g(4) by (simp_all add: usual_gpt_def)
  have h: "header_common (hdr (primary_header g)) (of_nat n)" "header_placed False (hdr (primary_header g)) (of_nat n)"
    using ok(1) g(4) by (simp_all add: gpt_ok_def CheckHeader_valid_iff)
  show "CheckEntries (primary_entries (gpt d)) (hdr (primary_header (gpt d))) = GPT_SUCCESS \<longleftrightarrow> table_valid h es'"
    using CheckEntries_commit [OF g(1,2) us(1) h(1)] g(4,5) by (simp add: d_def g_def h_def)
  assume "table_valid h es'"
  then have t: "table_valid (hdr (primary_header g)) (entries_of 128 (primary_entries g))" using g(4,5) by (simp add: h_def)
  have "\<exists>f'. close_drive path files d True = Some (CGPT_OK, files(path \<mapsto> f')) \<and> media f' n \<and>
      gpt_of n (bytes f') = fresh (commit_primary g) \<and> gpt_ok (gpt_of n (bytes f')) \<and> same_data n (bytes (fd d)) (bytes f')"
    by (rule close_committed [OF _ _ f(3) _ g(1-3) h us(2,3) t]) (use f(2) in \<open>simp_all add: d_def g_def\<close>)
  then obtain f' where f': "close_drive path files d True = Some (CGPT_OK, files(path \<mapsto> f'))" "media f' n"
      "gpt_of n (bytes f') = fresh (commit_primary g)" "gpt_ok (gpt_of n (bytes f'))" "same_data n (bytes f) (bytes f')"
    by (auto simp: d_def)
  have "entries_of 128 (primary_entries (gpt_of n (bytes f'))) = es'"
    unfolding f'(3) using commit_primary_frame(5) [OF g(1,2) us(2,3)] g(5) by simp
  then show "\<exists>f'. close_drive path files d True = Some (CGPT_OK, files(path \<mapsto> f')) \<and>
      valid_drive (files(path \<mapsto> f')) path n \<and> entries_of 128 (primary_entries (gpt_of n (bytes f'))) = es' \<and>
      same_data n (bytes f) (bytes f')"
    using f' by (intro exI [of _ f'] conjI) (simp_all add: valid_drive_def)
qed

lemma cgpt_add_run:
  assumes f: "files (ad_drive_name p) = Some f" "media f n" "67 \<le> n"
    and ok: "gpt_ok (gpt_of n (bytes f))" "usual_gpt (gpt_of n (bytes f))" and r: "request_wf p" "length u = 16"
  defines "path \<equiv> ad_drive_name p" and "es \<equiv> entries_of 128 (primary_entries (gpt_of n (bytes f)))"
    and "h \<equiv> hdr (primary_header (gpt_of n (bytes f)))"
  shows "case add_spec u p es of
      None \<Rightarrow> \<exists>pn. cgpt_add (Some u) (Some p) files = Some (CGPT_FAILED, pn, files)
    | Some (i, e) \<Rightarrow>
        if table_valid h (es[i := e]) then
          \<exists>f'. cgpt_add (Some u) (Some p) files = Some (CGPT_OK, of_nat i + 1, files(path \<mapsto> f')) \<and>
             valid_drive (files(path \<mapsto> f')) path n \<and> entries_of 128 (primary_entries (gpt_of n (bytes f'))) = es[i := e] \<and>
             same_data n (bytes f) (bytes f')
        else \<exists>pn. cgpt_add (Some u) (Some p) files = Some (CGPT_FAILED, pn, files)"
proof -
  let ?g = "gpt_of n (bytes f)"
  define d where "d = \<lparr>fd = f, writable = True, dsize = of_nat (512 * n), gpt = marked ?g, dpmbr = zero_pmbr\<rparr>"
  have op: "DriveOpen files path True = Some (Some (d\<lparr>gpt := ?g\<rparr>))"
    using DriveOpen_media [of files path, OF f(1,2) [folded path_def]] by (simp add: d_def)
  have bad: "close_failed path files (d\<lparr>gpt := g\<rparr>) = Some (CGPT_FAILED, files)" for g
    using close_failed_eq [of files path "d\<lparr>gpt := g\<rparr>"] f(1) by (simp add: d_def path_def)
  have badd: "close_failed path files d = Some (CGPT_FAILED, files)" using bad [of "marked ?g"] by (simp add: d_def)
  have dd: "(d\<lparr>gpt := ?g\<rparr>)\<lparr>gpt := marked ?g\<rparr> = d" by (simp add: d_def)
  have run: "cgpt_add (Some u) (Some p) files = (case add_index p es of None \<Rightarrow> Some (CGPT_FAILED, ad_partition p, files)
      | Some i \<Rightarrow> (case fresh_entry u p (es ! i) of None \<Rightarrow> Some (CGPT_FAILED, of_nat i + 1, files) | Some e \<Rightarrow>
          (case edit_entry p e of None \<Rightarrow> Some (CGPT_FAILED, of_nat i + 1, files) | Some e \<Rightarrow>
           do { g \<leftarrow> set_entry_attributes (store_entry (marked ?g) (False, 128 * i) e) (False, 128 * i) (of_nat i) p;
                let g = commit_primary g in
                if CheckEntries (primary_entries g) (hdr (primary_header g)) \<noteq> GPT_SUCCESS then Some (CGPT_FAILED, of_nat i + 1, files)
                else do { (st, files') \<leftarrow> close_drive path files (d\<lparr>gpt := g\<rparr>) True; Some (st, of_nat i + 1, files') } })))"
  proof -
    have ld: "load_entry (marked ?g) (False, 128 * i) = es ! i" if "add_index p es = Some i" for i
      using valid_gpt_entries(4) [OF ok(1), of i] add_index_bound [OF that] by (simp add: es_def)
    show ?thesis
      unfolding cgpt_add_def option.case Let_def path_def [symmetric] op
      using GptSanityCheck_ok [OF ok(1)] dd badd bad pick_entry_eq [OF ok(1), of p, folded es_def] ld
      by (simp add: new_unique_generated Let_def split: option.split cong del: if_weak_cong)
  qed
  have wf: "list_all entry_wf es"
    using gpt_of_shape [OF f(2)] by (simp add: es_def list_all_length gpt_shape_def entry_wf_at)
  show ?thesis
  proof (cases "add_spec u p es")
    case None
    then show ?thesis unfolding run by (auto simp: add_spec_edit bind_eq_None_conv split: option.splits)
  next
    case (Some ie)
    obtain i e where ie: "ie = (i, e)" by (cases ie)
    with Some obtain e1 e2 where a: "add_index p es = Some i" "fresh_entry u p (es ! i) = Some e1" "edit_entry p e1 = Some e2" "e = attr_edit p e2"
      by (auto simp: add_spec_edit bind_eq_Some_conv)
    have i: "i < 128" "entry_wf e" using add_spec_wf [of u p es i e] Some ie wf r by (simp_all add: es_def)
    have len: "length (primary_entries (marked ?g)) = 16384" using gpt_of_shape [OF f(2)] by (simp add: gpt_shape_def)
    have st: "set_entry_attributes (store_entry (marked ?g) (False, 128 * i) e2) (False, 128 * i) (of_nat i) p =
        Some (store_entry (marked ?g) (False, 128 * i) e)"
      using set_entry_attributes_eq [OF len i(1) valid_gpt_entries(3) [OF ok(1) i(1)]] i(2) a(4) r(1) by (simp add: request_wf_def)
    note c = commit_entry [of files path, OF f(1,2,3) [folded path_def] ok i, folded es_def h_def]
    have dg: "d\<lparr>gpt := g\<rparr> = \<lparr>fd = f, writable = True, dsize = of_nat (512 * n), gpt = g, dpmbr = zero_pmbr\<rparr>" for g
      by (simp add: d_def)
    show ?thesis
    proof (cases "table_valid h (es[i := e])")
      case True
      then obtain f' where f': "close_drive path files (d\<lparr>gpt := commit_primary (store_entry (marked ?g) (False, 128 * i) e)\<rparr>) True =
            Some (CGPT_OK, files(path \<mapsto> f'))" "valid_drive (files(path \<mapsto> f')) path n"
          "entries_of 128 (primary_entries (gpt_of n (bytes f'))) = es[i := e]" "same_data n (bytes f) (bytes f')"
        using c(2) unfolding dg by blast
      have "cgpt_add (Some u) (Some p) files = Some (CGPT_OK, of_nat i + 1, files(path \<mapsto> f'))"
        using c(1) True f'(1) unfolding run by (simp add: a(1-3) st Let_def)
      with f' True show ?thesis unfolding Some ie by auto
    next
      case False
      then show ?thesis using c(1) unfolding run by (simp add: Some ie a(1-3) st Let_def)
    qed
  qed
qed

text \<open>C1: \<open>cgpt_add\<close> is an update of the list of entries. On a valid drive in the usual form, with the GUID
  generator set and attribute values in range, it returns; it changes the drive exactly when the request is
  complete (\<open>add_spec\<close>) and the table with the entry replaced satisfies the specification of a valid table
  (all used entries inside the usable region, pairwise disjoint, with different unique GUIDs). In that case
  both copies are valid afterwards and hold the updated list; in every other case the status is
  \<open>CGPT_FAILED\<close> and the drive is untouched.\<close>

theorem cgpt_add_refines_list_update:
  assumes "files (ad_drive_name p) = Some f" "media f n" "67 \<le> n" "gpt_ok (gpt_of n (bytes f))"
    "usual_gpt (gpt_of n (bytes f))" "request_wf p" "length u = 16"
  shows "case add_spec u p (entries_of 128 (primary_entries (gpt_of n (bytes f)))) of
      None \<Rightarrow> \<exists>pn. cgpt_add (Some u) (Some p) files = Some (CGPT_FAILED, pn, files)
    | Some (i, e) \<Rightarrow>
        if table_valid (hdr (primary_header (gpt_of n (bytes f)))) ((entries_of 128 (primary_entries (gpt_of n (bytes f))))[i := e]) then
          \<exists>f'. cgpt_add (Some u) (Some p) files = Some (CGPT_OK, of_nat i + 1, files(ad_drive_name p \<mapsto> f')) \<and>
             valid_drive (files(ad_drive_name p \<mapsto> f')) (ad_drive_name p) n \<and>
             entries_of 128 (primary_entries (gpt_of n (bytes f'))) = (entries_of 128 (primary_entries (gpt_of n (bytes f))))[i := e] \<and>
             same_data n (bytes f) (bytes f')
        else \<exists>pn. cgpt_add (Some u) (Some p) files = Some (CGPT_FAILED, pn, files)"
  by (rule cgpt_add_run [of files p, OF assms])

text \<open>A request for a partition of ten sectors on the drive of the examples.\<close>

definition sample_request :: CgptAddParams where
  "sample_request = \<lparr>ad_drive_name = ''img'', ad_partition = 0, ad_begin = 40, ad_size = 10, type_guid = guid_linux_data,
     unique_guid = guid_efi, label = Some [0x62], successful = 1, tries = 2, priority = 3, raw_value = 0,
     set_begin = True, set_size = True, set_type = True, set_unique = True, set_successful = True, set_tries = True,
     set_priority = True, set_raw = False\<rparr>"

lemma table_valid_single:
  assumes "\<And>j. \<not> used_at es j" "in_region h e"
  shows "table_valid h (es[i := e])"
proof -
  have "j = i \<and> i < length es" if "used_at (es[i := e]) j" for j
    using that assms(1) [of j] by (cases "j = i"; cases "i < length es") (auto simp: used_at_def)
  then show ?thesis using assms(2) unfolding table_valid_def by (metis nth_list_update_eq)
qed

lemma no_used_zero: "\<not> used_at (entries_of 128 (replicate 16384 0)) j"
  by (auto simp: used_at_def unused_zero_entry)

lemma sample_added: "\<exists>e. add_spec (replicate 16 5) sample_request (entries_of 128 (replicate 16384 0)) = Some (0, e) \<and>
    starting_lba e = 40 \<and> ending_lba e = 49"
proof -
  let ?es = "entries_of 128 (replicate 16384 0)"
  have z: "IsZero (etype (?es ! 0))" using unused_zero_entry [of 0 16384] by (simp add: IsUnusedEntry_def IsZero_def GuidEqual_def)
  have "?es = ?es ! 0 # drop 1 ?es" using Cons_nth_drop_Suc [of 0 ?es] by simp
  then have "find_index (\<lambda>e. IsZero (etype e)) ?es = Some 0" using z by (metis (mono_tags, lifting) find_index.simps(2))
  then have i: "add_index sample_request ?es = Some 0" by (simp add: add_index_def sample_request_def)
  have "\<not> IsZero guid_linux_data" by (simp add: IsZero_def GuidEqual_iff) (simp add: guid_linux_data_def guid_unused_def)
  then have f: "fresh_entry (replicate 16 5) sample_request (?es ! 0) = Some ((?es ! 0)\<lparr>unique := dec_guid (replicate 16 5)\<rparr>)"
    using z by (simp add: fresh_entry_def sample_request_def)
  have "UTF8ToUTF16 [0x62] 36 = (CGPT_OK, [0x62, 0])"
    by (simp add: UTF8ToUTF16_def utf8_unit_def utf16_store_def)
  then show ?thesis
    using i f by (simp add: add_spec_def requested_def sample_request_def attr_edit_def attr_or_def attr_clear_def Let_def)
qed

theorem cgpt_add_refines_list_update_witness:
  "\<exists>f'. cgpt_add (Some (replicate 16 5)) (Some sample_request) [''img'' \<mapsto> new_file] = Some (CGPT_OK, 1, [''img'' \<mapsto> f']) \<and>
    valid_drive [''img'' \<mapsto> f'] ''img'' 100"
proof -
  obtain e where e: "add_spec (replicate 16 5) sample_request (entries_of 128 (replicate 16384 0)) = Some (0, e)"
    "starting_lba e = 40" "ending_lba e = 49" using sample_added by blast
  have "table_valid (hdr (primary_header new_gpt)) ((entries_of 128 (replicate 16384 0))[0 := e])"
    using no_used_zero e new_file_facts(7,8) by (intro table_valid_single) (simp_all add: in_region_def)
  moreover have "request_wf sample_request" "ad_drive_name sample_request = ''img''"
    by (simp_all add: request_wf_def sample_request_def attrs_in_range_def)
  ultimately show ?thesis
    using cgpt_add_refines_list_update [of "[''img'' \<mapsto> new_file]" sample_request new_file 100 "replicate 16 5"]
      new_file_facts e(1) unfolding new_file_facts(2) by (auto simp: usual_gpt_def)
qed

subsection \<open>Attributes only\<close>

lemma attr_edit_fields [simp]:
  "etype (attr_edit p e) = etype e" "unique (attr_edit p e) = unique e" "starting_lba (attr_edit p e) = starting_lba e"
  "ending_lba (attr_edit p e) = ending_lba e" "name (attr_edit p e) = name e"
  by (simp_all add: attr_edit_def attr_or_def attr_clear_def Let_def)

lemma table_valid_attr:
  assumes "table_valid h es"
  shows "table_valid h (es[i := attr_edit p (es ! i)])"
proof -
  let ?es' = "es[i := attr_edit p (es ! i)]"
  have same: "used_at ?es' j = used_at es j" "used_at es j \<Longrightarrow> in_region h (?es' ! j) = in_region h (es ! j)"
    "used_at es j \<Longrightarrow> blocks (?es' ! j) = blocks (es ! j)" "used_at es j \<Longrightarrow> unique (?es' ! j) = unique (es ! j)" for j
    by (cases "j = i"; auto simp: used_at_def IsUnusedEntry_def in_region_def blocks_def)+
  show ?thesis using assms unfolding table_valid_def by (metis same)
qed

lemma store_load:
  assumes "length (primary_entries g) = 16384" "i < 128"
  shows "store_entry g (False, 128 * i) (load_entry g (False, 128 * i)) = g"
  using assms by (simp add: store_entry_def load_entry_def entry_at_def put_entry_def entry.put_get)

lemma partition_index:
  assumes "0 < (pn :: u32)" "pn \<le> 128"
  shows "unat pn - 1 < 128" "pn - 1 = of_nat (unat pn - 1)"
  using assms by (auto simp: word_less_nat_alt word_le_nat_alt of_nat_diff)

lemma valid_table:
  assumes "gpt_ok g"
  shows "table_valid (hdr (primary_header g)) (entries_of 128 (primary_entries g))"
proof -
  have "number_of_entries (hdr (primary_header g)) = 128"
    using assms by (auto simp: gpt_ok_def CheckHeader_valid_iff header_common_def)
  then show ?thesis using assms by (simp add: gpt_ok_def CheckEntries_success)
qed

text \<open>\<open>cgpt_set_attributes\<close> changes the attributes of the named partition and nothing else: on a valid
  drive in the usual form it succeeds for every partition number from 1 to 128 and values in range, both
  copies are valid afterwards, and every other entry and every other field of the entry is as before.\<close>

theorem cgpt_set_attributes_edits_entry:
  assumes "files (ad_drive_name p) = Some f" "media f n" "67 \<le> n" "gpt_ok (gpt_of n (bytes f))"
    "usual_gpt (gpt_of n (bytes f))" "attrs_in_range p" "0 < ad_partition p" "ad_partition p \<le> 128"
  shows "\<exists>f'. cgpt_set_attributes (Some p) files = Some (CGPT_OK, files(ad_drive_name p \<mapsto> f')) \<and>
    valid_drive (files(ad_drive_name p \<mapsto> f')) (ad_drive_name p) n \<and> same_data n (bytes f) (bytes f') \<and>
    entries_of 128 (primary_entries (gpt_of n (bytes f'))) =
      (let es = entries_of 128 (primary_entries (gpt_of n (bytes f))); i = unat (ad_partition p) - 1
       in es[i := attr_edit p (es ! i)])"
proof -
  let ?g = "gpt_of n (bytes f)" and ?path = "ad_drive_name p"
  let ?es = "entries_of 128 (primary_entries ?g)"
  define i where "i = unat (ad_partition p) - 1"
  note pi = partition_index [OF assms(7,8), folded i_def]
  have len: "length (primary_entries (marked ?g)) = 16384" using gpt_of_shape [OF assms(2)] by (simp add: gpt_shape_def)
  note ge = valid_gpt_entries(3,4) [OF assms(4) pi(1)]
  have wf: "entry_wf (?es ! i)" using pi(1) len by (simp add: entry_wf_at)
  have st: "set_entry_attributes (marked ?g) (False, 128 * i) (of_nat i) p =
      Some (store_entry (marked ?g) (False, 128 * i) (attr_edit p (?es ! i)))"
    using set_entry_attributes_eq [OF len pi(1) ge(1) wf assms(6)] store_load [OF len pi(1)] ge(2) by simp
  have "\<exists>f'. close_drive ?path files \<lparr>fd = f, writable = True, dsize = of_nat (512 * n),
        gpt = commit_primary (store_entry (marked ?g) (False, 128 * i) (attr_edit p (?es ! i))), dpmbr = zero_pmbr\<rparr> True =
      Some (CGPT_OK, files(?path \<mapsto> f')) \<and> valid_drive (files(?path \<mapsto> f')) ?path n \<and>
      entries_of 128 (primary_entries (gpt_of n (bytes f'))) = ?es[i := attr_edit p (?es ! i)] \<and> same_data n (bytes f) (bytes f')"
    by (rule commit_entry(2) [of files ?path, OF assms(1-5) pi(1)]) (use wf table_valid_attr [OF valid_table [OF assms(4)]] in simp_all)
  then obtain f' where f': "close_drive ?path files \<lparr>fd = f, writable = True, dsize = of_nat (512 * n),
        gpt = commit_primary (store_entry (marked ?g) (False, 128 * i) (attr_edit p (?es ! i))), dpmbr = zero_pmbr\<rparr> True =
      Some (CGPT_OK, files(?path \<mapsto> f'))" "valid_drive (files(?path \<mapsto> f')) ?path n"
      "entries_of 128 (primary_entries (gpt_of n (bytes f'))) = ?es[i := attr_edit p (?es ! i)]" "same_data n (bytes f) (bytes f')"
    by blast
  have "\<not> GetNumberOfEntries (marked ?g) < ad_partition p" "ad_partition p \<noteq> 0"
    using valid_gpt_entries(1) [OF assms(4)] assms(7,8) by auto
  then have "cgpt_set_attributes (Some p) files = Some (CGPT_OK, files(?path \<mapsto> f'))"
    using DriveOpen_media [of files ?path, OF assms(1,2)] GptSanityCheck_ok [OF assms(4)] pi(2) ge(1) st f'(1)
    by (simp add: cgpt_set_attributes_def Let_def)
  with f' show ?thesis unfolding Let_def i_def by blast
qed

theorem cgpt_set_attributes_edits_entry_witness:
  "\<exists>f'. cgpt_set_attributes (Some (sample_request\<lparr>ad_partition := 128\<rparr>)) [''img'' \<mapsto> new_file] = Some (CGPT_OK, [''img'' \<mapsto> f']) \<and>
    valid_drive [''img'' \<mapsto> f'] ''img'' 100"
  using cgpt_set_attributes_edits_entry [of "[''img'' \<mapsto> new_file]" "sample_request\<lparr>ad_partition := 128\<rparr>" new_file 100]
    new_file_facts unfolding new_file_facts(2)
  by (auto simp: usual_gpt_def sample_request_def attrs_in_range_def)

subsection \<open>Reading an entry\<close>

text \<open>What \<open>cgpt_get_partition_details\<close> reports of an entry.\<close>

definition details :: "CgptAddParams \<Rightarrow> nat \<Rightarrow> GptEntry \<Rightarrow> CgptAddParams" where
  "details p i e = p\<lparr>ad_partition := of_nat i + 1, ad_begin := starting_lba e, ad_size := ending_lba e - starting_lba e + 1,
     type_guid := etype e, unique_guid := unique e, raw_value := gpt_att e, successful := of_nat (GetEntrySuccessful e),
     tries := of_nat (GetEntryTries e), priority := of_nat (GetEntryPriority e)\<rparr>"

text \<open>\<open>cgpt_get_partition_details\<close> with a unique GUID and no partition number finds the first entry with
  that GUID, and reports its number, region, type, GUID and attribute fields; without a match it fails. The
  drive is untouched in both cases.\<close>

theorem get_partition_details_by_guid:
  assumes "files (ad_drive_name p) = Some f" "media f n" "gpt_ok (gpt_of n (bytes f))" "ad_partition p = 0" "set_unique p"
  shows "cgpt_get_partition_details (Some p) files =
    (let es = entries_of 128 (primary_entries (gpt_of n (bytes f))) in
     case find_index (\<lambda>e. GuidEqual (unique e) (unique_guid p)) es of
       None \<Rightarrow> Some (CGPT_FAILED, Some p, files)
     | Some i \<Rightarrow> Some (CGPT_OK, Some (details p i (es ! i)), files))"
proof -
  let ?g = "gpt_of n (bytes f)" and ?path = "ad_drive_name p"
  let ?es = "entries_of 128 (primary_entries ?g)" and ?P = "\<lambda>e. GuidEqual (unique e) (unique_guid p)"
  have fe: "find_entry (marked ?g) ?P 0 128 = Some (map_option (\<lambda>j. (j, (False, 128 * j))) (find_index ?P ?es))"
    using find_entry_first [OF assms(3), of 0 128 ?P] by simp
  have rd: "read_details (marked ?g) (False, 128 * i) (of_nat i) (p\<lparr>ad_partition := of_nat i + 1\<rparr>) = Some (details p i (?es ! i))"
    if "find_index ?P ?es = Some i" for i
  proof -
    have i: "i < 128" using find_index_bound [OF that] by simp
    show ?thesis
      using valid_gpt_entries(3,4) [OF assms(3) i]
      by (simp add: read_details_def GetSuccessful_def GetTries_def GetPriority_def details_def Let_def)
  qed
  show ?thesis
    using DriveOpen_media [of files ?path, OF assms(1,2)] GptSanityCheck_ok [OF assms(3)] valid_gpt_entries(1) [OF assms(3)]
      assms(4,5) fe rd map_upd_same [of files ?path, OF assms(1)]
    by (simp add: cgpt_get_partition_details_def Let_def close_drive_def DriveClose_readonly split: option.split)
qed

theorem get_partition_details_by_guid_witness:
  "cgpt_get_partition_details (Some (sample_request\<lparr>unique_guid := guid_unused\<rparr>)) [''img'' \<mapsto> new_file] =
    Some (CGPT_OK, Some (details (sample_request\<lparr>unique_guid := guid_unused\<rparr>) 0 (entry_at (replicate 16384 0) 0)), [''img'' \<mapsto> new_file])"
proof -
  let ?es = "entries_of 128 (replicate 16384 0)"
  have "unique (?es ! 0) = guid_unused" by (simp add: entry_at_def get_at_def dec_entry_def seg_replicate dec_guid_zero)
  then have z: "GuidEqual (unique (?es ! 0)) guid_unused" by simp
  have "?es = ?es ! 0 # drop 1 ?es" using Cons_nth_drop_Suc [of 0 ?es] by simp
  then have "find_index (\<lambda>e. GuidEqual (unique e) guid_unused) ?es = Some 0" using z by (metis (mono_tags, lifting) find_index.simps(2))
  moreover have "primary_entries (gpt_of 100 (bytes new_file)) = replicate 16384 0" unfolding new_file_facts(2) using new_file_facts(5) by simp
  ultimately show ?thesis
    using get_partition_details_by_guid [of "[''img'' \<mapsto> new_file]" "sample_request\<lparr>unique_guid := guid_unused\<rparr>" new_file 100]
      new_file_facts(1-3) by (simp add: sample_request_def Let_def)
qed

end
