(* ===== verification/Cgpt_Show.thy ===== *)
theory Cgpt_Show
  imports Cgpt_Add Guid_Text
begin

text \<open>
  Displaying the table (\<open>gpt/lib/cgpt_show.c\<close>): the text that \<open>cgpt_show\<close> writes on the standard
  output, and \<open>cgpt_get_num_non_empty_partitions\<close>. The conversions of \<open>printf\<close> that the code uses are
  functions to strings; the messages on the standard error are not modelled. \<open>None\<close> is a process that has
  ended in a failed \<open>require\<close>, or that reads beyond a buffer.
\<close>

unbundle bit_operations_syntax

subsection \<open>Conversions of \<open>printf\<close>\<close>

fun print_u :: "nat \<Rightarrow> string" where
  "print_u n = (if n < 10 then [''0123456789'' ! n] else print_u (n div 10) @ [''0123456789'' ! (n mod 10)])"

declare print_u.simps [simp del]

definition print_d :: "int \<Rightarrow> string" where
  "print_d i = (if i < 0 then CHR ''-'' # print_u (nat (- i)) else print_u (nat i))"

definition int32 :: "u64 \<Rightarrow> int" where
  "int32 w = sint (ucast w :: u32)"

definition lower_hex :: "char \<Rightarrow> char" where
  "lower_hex c = (if 65 \<le> (of_char c :: nat) \<and> (of_char c :: nat) \<le> 70 then char_of ((of_char c :: nat) + 32) else c)"

definition print_x :: "nat \<Rightarrow> nat \<Rightarrow> string" where
  "print_x w v = map lower_hex (print_X w v)"

definition field :: "nat \<Rightarrow> string \<Rightarrow> string" where
  "field w s = replicate (w - length s) CHR '' '' @ s"

definition newline :: string where
  "newline = [CHR 0x0A]"

definition c_string :: "byte list \<Rightarrow> string" where
  "c_string bs = map (\<lambda>b. char_of (unat b)) (takeWhile (\<lambda>b. b \<noteq> 0) bs)"

subsection \<open>The formats\<close>

definition TITLE_FMT :: "string \<Rightarrow> string \<Rightarrow> string \<Rightarrow> string \<Rightarrow> string" where
  "TITLE_FMT a b c d = field 12 a @ field 12 b @ field 8 c @ ''  '' @ d @ newline"

definition GPT_FMT :: "int \<Rightarrow> int \<Rightarrow> string \<Rightarrow> string \<Rightarrow> string" where
  "GPT_FMT a b c d = field 12 (print_d a) @ field 12 (print_d b) @ field 8 c @ ''  '' @ d @ newline"

definition GPT_MORE :: string where
  "GPT_MORE = field 12 '''' @ field 12 '''' @ field 8 '''' @ ''  ''"

definition PARTITION_FMT :: "int \<Rightarrow> int \<Rightarrow> int \<Rightarrow> string \<Rightarrow> string" where
  "PARTITION_FMT a b c d = field 12 (print_d a) @ field 12 (print_d b) @ field 8 (print_d c) @ ''  '' @ d @ newline"

definition PARTITION_MORE :: "string \<Rightarrow> string \<Rightarrow> string" where
  "PARTITION_MORE a b = GPT_MORE @ a @ b @ newline"

definition Uint8To2Chars :: "byte \<Rightarrow> char \<times> char" where
  "Uint8To2Chars t =
    (let digit = (\<lambda>h :: nat. char_of (if 0xA \<le> h then h - 0xA + 65 else h + 48)) in
     (digit (unat (drop_bit 4 t)), digit (unat (t AND 0xf))))"

fun raw_loop :: "byte list \<Rightarrow> nat \<Rightarrow> nat \<Rightarrow> string" where
  "raw_loop [] grp i = []"
| "raw_loop (b # bs) grp i =
    (let (h, l) = Uint8To2Chars b in
     h # l # (if bs \<noteq> [] \<and> (i + 1) mod grp = 0 then ''-'' else '''') @ raw_loop bs grp (i + 1))"

definition RawDump :: "byte list \<Rightarrow> nat \<Rightarrow> string" where
  "RawDump memory grp = ''['' @ raw_loop memory grp 0 @ '']''"

subsection \<open>Headers and entries\<close>

text \<open>The two checksums read as many bytes as the header says, valid or not.\<close>

definition HeaderDetails :: "buffer \<Rightarrow> buffer \<Rightarrow> string \<Rightarrow> bool \<Rightarrow> string option" where
  "HeaderDetails header entries indent raw =
    (let h = hdr header; size = size_of_entry h * number_of_entries h; s64 = (\<lambda>w :: u64. print_d (sint w)) in
     if length header < unat (h_size h) \<or> length entries < unat size then None
     else do { uuid \<leftarrow> GuidToStr (disk_uuid h) GUID_STRLEN;
       Some (
         indent @ ''Sig: '' @ (if \<not> raw then ''['' @ map (\<lambda>b. char_of (unat b)) (signature h) @ '']''
                               else RawDump (signature h) 1) @ newline @
         indent @ ''Rev: 0x'' @ print_x 8 (unat (revision h)) @ newline @
         indent @ ''Size: '' @ print_d (sint (h_size h)) @ newline @
         indent @ ''Header CRC: 0x'' @ print_x 8 (unat (header_crc32 h)) @ '' '' @
           (if HeaderCrc header \<noteq> header_crc32 h then ''(INVALID)'' else '''') @ newline @
         indent @ ''My LBA: '' @ s64 (my_lba h) @ newline @
         indent @ ''Alternate LBA: '' @ s64 (alternate_lba h) @ newline @
         indent @ ''First LBA: '' @ s64 (first_usable_lba h) @ newline @
         indent @ ''Last LBA: '' @ s64 (last_usable_lba h) @ newline @
         indent @ ''Disk UUID: '' @ uuid @ newline @
         indent @ ''Entries LBA: '' @ s64 (entries_lba h) @ newline @
         indent @ ''Number of entries: '' @ print_d (sint (number_of_entries h)) @ newline @
         indent @ ''Size of entry: '' @ print_d (sint (size_of_entry h)) @ newline @
         indent @ ''Entries CRC: 0x'' @ print_x 8 (unat (entries_crc32 h)) @ '' '' @
           (if entries_crc32 h \<noteq> Crc32 entries size then ''INVALID'' else '''') @ newline) })"

definition entry_label :: "GptEntry \<Rightarrow> nat \<Rightarrow> string option" where
  "entry_label e buflen = map_option (\<lambda>r. c_string (snd r)) (UTF16ToUTF8 (name e) 36 buflen)"

definition GPT_PARTNAME_LEN :: nat where
  "GPT_PARTNAME_LEN = 72"

definition require_fits :: "string \<Rightarrow> nat \<Rightarrow> string option" where
  "require_fits s buflen = (if length s < buflen then Some s else None)"

definition EntryDetails :: "GptEntry \<Rightarrow> u32 \<Rightarrow> bool \<Rightarrow> string option" where
  "EntryDetails e index raw =
    do { lab \<leftarrow> entry_label e GPT_PARTNAME_LEN;
         contents \<leftarrow> require_fits (''Label: \"'' @ lab @ ''\"'') 256;
         let line = PARTITION_FMT (int32 (starting_lba e)) (int32 (ending_lba e - starting_lba e + 1)) (sint (index + 1)) contents;
         type \<leftarrow> (case (if raw then None else ResolveType (etype e)) of
           Some t \<Rightarrow> Some t | None \<Rightarrow> GuidToStr (etype e) GUID_STRLEN);
         uniq \<leftarrow> GuidToStr (unique e) GUID_STRLEN;
         attr \<leftarrow> (if raw then do { c \<leftarrow> require_fits (''['' @ print_x 0 (unat (gpt_att e)) @ '']'') 256;
                                   Some (PARTITION_MORE ''Attr: '' c) }
                 else if GuidEqual guid_chromeos_kernel (etype e) then
                   do { c \<leftarrow> require_fits (''priority='' @ print_d (int (GetEntryPriority e)) @
                               '' tries='' @ print_d (int (GetEntryTries e)) @
                               '' successful='' @ print_d (int (GetEntrySuccessful e))) 256;
                        Some (PARTITION_MORE ''Attr: '' c) }
                 else Some '''');
         Some (line @ PARTITION_MORE ''Type: '' type @ PARTITION_MORE ''UUID: '' uniq @ attr) }"

text \<open>A loop over the entries \<open>i, i + 1, \<dots>\<close> of one table that skips the unused ones; the text of
  \<open>k\<close> entries.\<close>

fun show_entries :: "GptData \<Rightarrow> which_table \<Rightarrow> (GptEntry \<Rightarrow> u32 \<Rightarrow> string option) \<Rightarrow> nat \<Rightarrow> nat \<Rightarrow> string option" where
  "show_entries g w f i 0 = Some ''''"
| "show_entries g w f i (Suc k) =
    do { r \<leftarrow> GetEntry g w (of_nat i);
         line \<leftarrow> (if IsZero (etype (load_entry g r)) then Some '''' else f (load_entry g r) (of_nat i));
         rest \<leftarrow> show_entries g w f (Suc i) k;
         Some (line @ rest) }"

definition EntriesDetails :: "GptData \<Rightarrow> which_table \<Rightarrow> bool \<Rightarrow> string option" where
  "EntriesDetails g secondary raw =
    show_entries g secondary (\<lambda>e i. EntryDetails e i raw) 0 (unat (GetNumberOfEntries g))"

subsection \<open>The commands\<close>

record CgptShowParams =
  sh_drive_name :: string
  sh_numeric :: bool
  sh_verbose :: bool
  quick :: bool
  sh_partition :: u32
  single_item :: "char option"
  debug :: bool
  num_partitions :: int

text \<open>The loop of \<open>cgpt_get_num_non_empty_partitions\<close>.\<close>

fun count_used :: "GptData \<Rightarrow> nat \<Rightarrow> nat \<Rightarrow> int \<Rightarrow> int option" where
  "count_used g i 0 c = Some c"
| "count_used g i (Suc k) c =
    do { r \<leftarrow> GetEntry g ANY_VALID (of_nat i);
         count_used g (Suc i) k (if IsZero (etype (load_entry g r)) then c else c + 1) }"

definition cgpt_get_num_non_empty_partitions ::
    "CgptShowParams option \<Rightarrow> fs \<Rightarrow> (cgpt_status \<times> CgptShowParams option \<times> fs) option" where
  "cgpt_get_num_non_empty_partitions params files =
    (case params of None \<Rightarrow> Some (CGPT_FAILED, None, files) | Some p \<Rightarrow>
     let finish = (\<lambda>d st p'. do { (_, files') \<leftarrow> close_drive (sh_drive_name p) files d False; Some (st, Some p', files') }) in
     do { r \<leftarrow> DriveOpen files (sh_drive_name p) False;
          case r of None \<Rightarrow> Some (CGPT_FAILED, Some p, files) | Some d \<Rightarrow>
          let (g, rv) = GptSanityCheck (gpt d); d = d\<lparr>gpt := g\<rparr> in
          if rv \<noteq> GPT_SUCCESS then finish d CGPT_FAILED p
          else do { c \<leftarrow> count_used g 0 (nat (sint (GetNumberOfEntries g))) 0;
                    finish d CGPT_OK (p\<lparr>num_partitions := c\<rparr>) } })"

text \<open>One item of one partition; an item that the \<open>switch\<close> does not name prints nothing.\<close>

definition show_item :: "GptData \<Rightarrow> u32 \<Rightarrow> GptEntry \<Rightarrow> char \<Rightarrow> string option" where
  "show_item g index e c =
    (if c = CHR ''b'' then Some (print_d (sint (starting_lba e)) @ newline)
     else if c = CHR ''s'' then Some (print_d (sint (ending_lba e - starting_lba e + 1)) @ newline)
     else if c = CHR ''t'' then map_option (\<lambda>t. t @ newline) (GuidToStr (etype e) 256)
     else if c = CHR ''u'' then map_option (\<lambda>t. t @ newline) (GuidToStr (unique e) 256)
     else if c = CHR ''l'' then map_option (\<lambda>t. t @ newline) (entry_label e 256)
     else if c = CHR ''S'' then map_option (\<lambda>v. print_d (int v) @ newline) (GetSuccessful g ANY_VALID index)
     else if c = CHR ''T'' then map_option (\<lambda>v. print_d (int v) @ newline) (GetTries g ANY_VALID index)
     else if c = CHR ''P'' then map_option (\<lambda>v. print_d (int v) @ newline) (GetPriority g ANY_VALID index)
     else if c = CHR ''A'' then Some (''0x'' @ print_x 0 (unat (gpt_att e)) @ newline)
     else Some '''')"

definition show_title :: string where
  "show_title = TITLE_FMT ''start'' ''size'' ''part'' ''contents''"

definition quick_line :: "bool \<Rightarrow> GptEntry \<Rightarrow> u32 \<Rightarrow> string option" where
  "quick_line numeric e i =
    do { type \<leftarrow> (case (if numeric then None else ResolveType (etype e)) of
           Some t \<Rightarrow> Some t | None \<Rightarrow> GuidToStr (etype e) GUID_STRLEN);
         Some (PARTITION_FMT (int32 (starting_lba e)) (int32 (ending_lba e - starting_lba e + 1)) (sint (i + 1)) type) }"

text \<open>The display of all the partitions, after the MBR has been read. A secondary header that is not valid is listed
  at the place of the primary one, as in the code.\<close>

definition show_all :: "CgptShowParams \<Rightarrow> drive \<Rightarrow> string option" where
  "show_all p d =
    (let g = gpt d; n = drive_sectors g;
         vh = (\<lambda>m. valid_headers g AND m \<noteq> 0); ve = (\<lambda>m. valid_entries g AND m \<noteq> 0) in
     do { buf \<leftarrow> PMBRToStr (dpmbr d) 256;
          h1 \<leftarrow> (if debug p \<or> vh MASK_PRIMARY \<and> sh_verbose p then
                  do { indent \<leftarrow> require_fits GPT_MORE 64;
                       HeaderDetails (primary_header g) (primary_entries g) indent (sh_numeric p) }
                else Some '''');
          e1 \<leftarrow> (if debug p \<or> ve MASK_PRIMARY then EntriesDetails g PRIMARY (sh_numeric p) else Some '''');
          e2 \<leftarrow> (if debug p \<or> ve MASK_SECONDARY \<and> (\<not> ve MASK_PRIMARY \<or> take 16384 (primary_entries g) \<noteq> take 16384 (secondary_entries g))
                then EntriesDetails g SECONDARY (sh_numeric p) else Some '''');
          h2 \<leftarrow> (if debug p \<or> vh MASK_SECONDARY \<and>
                    (\<not> vh MASK_PRIMARY \<or> \<not> IsSynonymous (hdr (primary_header g)) (hdr (secondary_header g))) \<and> sh_verbose p then
                  do { indent \<leftarrow> require_fits GPT_MORE 64;
                       HeaderDetails (secondary_header g) (secondary_entries g) indent (sh_numeric p) }
                else Some '''');
          Some (show_title @ GPT_FMT 0 1 '''' buf @
            GPT_FMT 1 1 (if vh MASK_PRIMARY then '''' else ''INVALID'') ''Pri GPT header'' @ h1 @
            GPT_FMT 2 32 (if ve MASK_PRIMARY then '''' else ''INVALID'') ''Pri GPT table'' @ e1 @
            GPT_FMT (int32 (n - GPT_HEADER_SECTOR - GPT_ENTRIES_SECTORS)) 32
              (if ve MASK_SECONDARY then '''' else ''INVALID'') ''Sec GPT table'' @ e2 @
            (if vh MASK_SECONDARY then GPT_FMT (int32 (n - GPT_HEADER_SECTOR)) 1 '''' ''Sec GPT header''
             else GPT_FMT 1 1 ''INVALID'' ''Sec GPT header'') @ h2) })"

text \<open>The status, the text on the standard output, and the files. Not every failure closes the drive.\<close>

definition cgpt_show :: "CgptShowParams option \<Rightarrow> fs \<Rightarrow> (cgpt_status \<times> string \<times> fs) option" where
  "cgpt_show params files =
    (case params of None \<Rightarrow> Some (CGPT_FAILED, '''', files) | Some p \<Rightarrow>
     let finish = (\<lambda>d out. do { (_, files') \<leftarrow> close_drive (sh_drive_name p) files d False; Some (CGPT_OK, out, files') }) in
     do { r \<leftarrow> DriveOpen files (sh_drive_name p) False;
          case r of None \<Rightarrow> Some (CGPT_FAILED, '''', files) | Some d \<Rightarrow>
          let (g, rv) = GptSanityCheck (gpt d); d = d\<lparr>gpt := g\<rparr> in
          if rv \<noteq> GPT_SUCCESS then Some (CGPT_FAILED, '''', files)
          else if sh_partition p \<noteq> 0 then
            (if sh_partition p > GetNumberOfEntries g then Some (CGPT_FAILED, '''', files)
             else let index = sh_partition p - 1 in
               do { entry \<leftarrow> GetEntry g ANY_VALID index;
                    out \<leftarrow> (case single_item p of
                       Some c \<Rightarrow> show_item g index (load_entry g entry) c
                     | None \<Rightarrow> do { t \<leftarrow> EntryDetails (load_entry g entry) index (sh_numeric p); Some (show_title @ t) });
                    finish d out })
          else if quick p then
            do { out \<leftarrow> show_entries g ANY_VALID (quick_line (sh_numeric p)) 0 (unat (GetNumberOfEntries g));
                 finish d out }
          else let (st, d) = ReadPMBR d in
            if st \<noteq> CGPT_OK then Some (CGPT_FAILED, '''', files)
            else do { out \<leftarrow> show_all p d; finish d out } })"

end
