(* ===== verification/Cgpt_Find.thy ===== *)
theory Cgpt_Find
  imports Cgpt_Show Util
begin

text \<open>
  Searching for partitions (\<open>gpt/lib/cgpt_find.c\<close>), in one drive or in all the drives that the kernel lists.
  The parameters carry the counts of the matches from drive to drive; what is written on the standard output is a
  string. Drives are opened for reading only, so the files stay as they are.
\<close>

unbundle bit_operations_syntax

subsection \<open>Text input\<close>

text \<open>\<open>fgets\<close> into a buffer of \<open>Suc n\<close> bytes, and the lines that a loop over it sees.\<close>

fun fgets :: "nat \<Rightarrow> string \<Rightarrow> string \<times> string" where
  "fgets 0 s = ([], s)"
| "fgets (Suc n) [] = ([], [])"
| "fgets (Suc n) (c # s) = (if c = CHR 0x0A then ([c], s) else let (l, r) = fgets n s in (c # l, r))"

lemma fgets_append: "fst (fgets n s) @ snd (fgets n s) = s"
  by (induction n s rule: fgets.induct) (auto split: prod.splits)

lemma fgets_nonempty: "0 < n \<Longrightarrow> s \<noteq> [] \<Longrightarrow> fst (fgets n s) \<noteq> []"
  by (cases n; cases s) (auto split: prod.splits)

function fgets_lines :: "nat \<Rightarrow> string \<Rightarrow> string list" where
  "fgets_lines n s = (if s = [] \<or> n = 0 then [] else fst (fgets n s) # fgets_lines n (snd (fgets n s)))"
  by auto
termination
proof (relation "measure (\<lambda>(n, s). length s)")
  fix n :: nat and s :: string
  assume "\<not> (s = [] \<or> n = 0)"
  then have "fst (fgets n s) \<noteq> []" using fgets_nonempty by auto
  moreover have "length s = length (fst (fgets n s)) + length (snd (fgets n s))"
    using arg_cong [OF fgets_append [of n s], of length] by simp
  ultimately show "((n, snd (fgets n s)), n, s) \<in> measure (\<lambda>(n, s). length s)" by simp
qed simp

declare fgets_lines.simps [simp del]

definition is_digit :: "char \<Rightarrow> bool" where
  "is_digit c \<longleftrightarrow> (let n = of_char c :: nat in 48 \<le> n \<and> n \<le> 57)"

text \<open>\<open>%d\<close> and \<open>%llu\<close> of \<open>sscanf\<close>, for their effect on the input only: what follows the number.\<close>

definition skip_number :: "string \<Rightarrow> string option" where
  "skip_number s0 =
    (let s = dropWhile is_space s0;
         s = (if s \<noteq> [] \<and> (hd s = CHR ''-'' \<or> hd s = CHR ''+'') then tl s else s)
     in if takeWhile is_digit s = [] then None else Some (dropWhile is_digit s))"

subsection \<open>Searching one drive\<close>

record CgptFindParams =
  fn_drive_name :: "string option"
  fn_verbose :: nat
  fn_set_unique :: bool
  fn_set_type :: bool
  fn_set_label :: bool
  oneonly :: bool
  fn_numeric :: bool
  matchbuf :: buffer
  matchlen :: u64
  matchoffset :: u64
  fn_unique_guid :: Guid
  fn_type_guid :: Guid
  fn_label :: "byte list"
  hits :: int
  match_partnum :: int

definition FillBuffer :: "blkdev \<Rightarrow> u64 \<Rightarrow> u64 \<Rightarrow> buffer option" where
  "FillBuffer f pos count = do { pos \<leftarrow> lseek64 f pos; safe_read f pos (unat count) }"

definition match_content :: "CgptFindParams \<Rightarrow> drive \<Rightarrow> GptEntry \<Rightarrow> bool" where
  "match_content p d e =
    (if matchlen p = 0 then True
     else let part_size = 512 * (ending_lba e - starting_lba e + 1) in
       if matchoffset p + matchlen p > part_size then False
       else case FillBuffer (fd d) (512 * starting_lba e + matchoffset p) (matchlen p) of
         None \<Rightarrow> False
       | Some comparebuf \<Rightarrow> take (unat (matchlen p)) (matchbuf p) = comparebuf)"

definition showmatch :: "CgptFindParams \<Rightarrow> string \<Rightarrow> int \<Rightarrow> GptEntry \<Rightarrow> string option" where
  "showmatch p filename partnum e =
    do { more \<leftarrow> (if fn_verbose p > 0 then EntryDetails e (of_int (partnum - 1)) (fn_numeric p) else Some '''');
         Some ((if fn_numeric p then print_d partnum
                else filename @ (if take 11 filename = ''/dev/mmcblk'' then ''p'' else '''') @ print_d partnum) @
               newline @ more) }"

text \<open>Whether an entry is one that is looked for; \<open>Some None\<close> is a label that cannot be converted, which ends the
  search.\<close>

definition entry_found :: "CgptFindParams \<Rightarrow> GptEntry \<Rightarrow> bool option option" where
  "entry_found p e =
    (if fn_set_unique p \<and> GuidEqual (fn_unique_guid p) (unique e) \<or> fn_set_type p \<and> GuidEqual (fn_type_guid p) (etype e)
     then Some (Some True)
     else if fn_set_label p then
       (case UTF16ToUTF8 (name e) 36 GPT_PARTNAME_LEN of
          None \<Rightarrow> None
        | Some (CGPT_FAILED, _) \<Rightarrow> Some None
        | Some (CGPT_OK, partlabel) \<Rightarrow> Some (Some (fn_label p = takeWhile (\<lambda>b. b \<noteq> 0) partlabel)))
     else Some (Some False))"

text \<open>The loop over \<open>k\<close> entries from \<open>i\<close> on: whether it has reached the end, the parameters, the number of
  matches, and the text.\<close>

fun search_entries :: "drive \<Rightarrow> string \<Rightarrow> nat \<Rightarrow> nat \<Rightarrow> CgptFindParams \<Rightarrow> nat \<Rightarrow> string \<Rightarrow>
    (bool \<times> CgptFindParams \<times> nat \<times> string) option" where
  "search_entries d fileName i 0 p retval out = Some (True, p, retval, out)"
| "search_entries d fileName i (Suc k) p retval out =
    do { r \<leftarrow> GetEntry (gpt d) ANY_VALID (of_nat i);
         let e = load_entry (gpt d) r;
         if IsZero (etype e) then search_entries d fileName (Suc i) k p retval out
         else do { found \<leftarrow> entry_found p e;
           case found of
             None \<Rightarrow> Some (False, p, 0, out)
           | Some b \<Rightarrow>
               if b \<and> match_content p d e then
                 do { t \<leftarrow> showmatch p fileName (int i + 1) e;
                      search_entries d fileName (Suc i) k
                        (p\<lparr>hits := hits p + 1, match_partnum := (if match_partnum p = 0 then int i + 1 else match_partnum p)\<rparr>)
                        (Suc retval) (out @ t) }
               else search_entries d fileName (Suc i) k p retval out } }"

definition do_search :: "CgptFindParams \<Rightarrow> string \<Rightarrow> fs \<Rightarrow> (CgptFindParams \<times> nat \<times> string) option" where
  "do_search p fileName files =
    do { r \<leftarrow> DriveOpen files fileName False;
         case r of None \<Rightarrow> Some (p, 0, '''') | Some d \<Rightarrow>
         let (g, rv) = GptSanityCheck (gpt d); d = d\<lparr>gpt := g\<rparr> in
         if rv \<noteq> GPT_SUCCESS then do { _ \<leftarrow> DriveClose d False; Some (p, 0, '''') }
         else do { (finished, p', retval, out) \<leftarrow> search_entries d fileName 0 (unat (GetNumberOfEntries g)) p 0 '''';
                   if finished then do { _ \<leftarrow> DriveClose d False; Some (p', retval, out) }
                   else Some (p', retval, out) } }"

subsection \<open>Searching all the drives\<close>

definition devdirs :: "string list" where
  "devdirs = [''/dev'', ''/devices'', ''/devfs'']"

text \<open>\<open>symlink\<close> says which paths \<open>lstat\<close> reports as symbolic links.\<close>

fun wholedev_in :: "(string \<Rightarrow> bool) \<Rightarrow> fs \<Rightarrow> string list \<Rightarrow> string \<Rightarrow> string option" where
  "wholedev_in symlink files [] basename = None"
| "wholedev_in symlink files (dir # dirs) basename =
    (let pathname = dir @ ''/'' @ basename; tmpname = ''/sys/block/'' @ basename @ ''/device'' in
     case files pathname of
       None \<Rightarrow> wholedev_in symlink files dirs basename
     | Some f \<Rightarrow> if stat_ok f \<and> \<not> regular f \<and> symlink tmpname then Some pathname
                 else wholedev_in symlink files dirs basename)"

definition is_wholedev :: "(string \<Rightarrow> bool) \<Rightarrow> fs \<Rightarrow> string \<Rightarrow> string option" where
  "is_wholedev symlink files basename = wholedev_in symlink files devdirs basename"

text \<open>The fourth item of a line of \<open>/proc/partitions\<close>.\<close>

definition scan_partname :: "string \<Rightarrow> string option" where
  "scan_partname line =
    do { s \<leftarrow> skip_number line; s \<leftarrow> skip_number s; s \<leftarrow> skip_number s;
         let partname = take 127 (takeWhile (\<lambda>c. c \<noteq> CHR 0x0A \<and> c \<noteq> CHR '' '') (dropWhile is_space s));
         if partname = [] then None else Some partname }"

fun scan_lines :: "(string \<Rightarrow> bool) \<Rightarrow> fs \<Rightarrow> string list \<Rightarrow> CgptFindParams \<Rightarrow> nat \<Rightarrow> string \<Rightarrow>
    (CgptFindParams \<times> nat \<times> string) option" where
  "scan_lines symlink files [] p found out = Some (p, found, out)"
| "scan_lines symlink files (line # ls) p found out =
    (case do { partname \<leftarrow> scan_partname line; is_wholedev symlink files partname } of
       None \<Rightarrow> scan_lines symlink files ls p found out
     | Some pathname \<Rightarrow>
         do { (p', retval, t) \<leftarrow> do_search p pathname files;
              scan_lines symlink files ls p' (if retval \<noteq> 0 then found + 1 else found) (out @ t) })"

text \<open>\<open>/proc/partitions\<close> is text without null characters.\<close>

definition scan_real_devs :: "(string \<Rightarrow> bool) \<Rightarrow> CgptFindParams \<Rightarrow> fs \<Rightarrow> (CgptFindParams \<times> nat \<times> string) option" where
  "scan_real_devs symlink p files =
    (case files ''/proc/partitions'' of
       None \<Rightarrow> Some (p, 0, '''')
     | Some f \<Rightarrow> scan_lines symlink files (fgets_lines 1023 (map (\<lambda>b. char_of (unat b)) (bytes f))) p 0 '''')"

definition cgpt_find :: "(string \<Rightarrow> bool) \<Rightarrow> CgptFindParams option \<Rightarrow> fs \<Rightarrow> (CgptFindParams option \<times> string) option" where
  "cgpt_find symlink params files =
    (case params of None \<Rightarrow> Some (None, '''') | Some p \<Rightarrow>
     (case fn_drive_name p of
        Some drive_name \<Rightarrow> do { (p', _, out) \<leftarrow> do_search p drive_name files; Some (Some p', out) }
      | None \<Rightarrow> do { (p', _, out) \<leftarrow> scan_real_devs symlink p files; Some (Some p', out) }))"

subsection \<open>What a search reports\<close>

text \<open>The numbers, from 0, of the used entries that meet the criteria, and the line for each.\<close>

definition sought :: "CgptFindParams \<Rightarrow> drive \<Rightarrow> GptEntry \<Rightarrow> bool" where
  "sought p d e \<longleftrightarrow> \<not> IsZero (etype e) \<and> entry_found p e = Some (Some True) \<and> match_content p d e"

definition match_line :: "bool \<Rightarrow> string \<Rightarrow> nat \<Rightarrow> string" where
  "match_line numeric filename i =
    (if numeric then print_d (int i + 1)
     else filename @ (if take 11 filename = ''/dev/mmcblk'' then ''p'' else '''') @ print_d (int i + 1)) @ newline"

definition record_matches :: "nat list \<Rightarrow> CgptFindParams \<Rightarrow> CgptFindParams" where
  "record_matches ms p = p\<lparr>hits := hits p + int (length ms),
     match_partnum := (if match_partnum p = 0 \<and> ms \<noteq> [] then int (hd ms) + 1 else match_partnum p)\<rparr>"

text \<open>The entries whose label, where it matters, can be converted.\<close>

definition decidable :: "CgptFindParams \<Rightarrow> GptEntry \<Rightarrow> bool" where
  "decidable p e \<longleftrightarrow> (\<exists>b. entry_found p e = Some (Some b))"

lemma entry_found_upd [simp]: "entry_found (p\<lparr>hits := x, match_partnum := y\<rparr>) e = entry_found p e"
  by (auto simp: entry_found_def split: option.split cgpt_status.split)

lemma match_content_upd [simp]: "match_content (p\<lparr>hits := x, match_partnum := y\<rparr>) d e = match_content p d e"
  by (auto simp: match_content_def Let_def split: option.split)

lemma criteria_upd [simp]:
  "sought (p\<lparr>hits := x, match_partnum := y\<rparr>) d e = sought p d e"
  "decidable (p\<lparr>hits := x, match_partnum := y\<rparr>) e = decidable p e"
  by (simp_all add: sought_def decidable_def)

lemma showmatch_line: "fn_verbose p = 0 \<Longrightarrow> showmatch p filename (int i + 1) e = Some (match_line (fn_numeric p) filename i)"
  by (simp add: showmatch_def match_line_def)

lemma search_entries_filter:
  fixes g :: GptData
  defines "es \<equiv> entries_of 128 (primary_entries g)"
  assumes "gpt_ok g" "gpt d = marked g" "i + k \<le> 128" "fn_verbose p = 0" "list_all (decidable p) es"
  shows "search_entries d fileName i k p retval out =
    (let ms = filter (\<lambda>j. sought p d (es ! j)) [i..<i + k] in
     Some (True, record_matches ms p, retval + length ms, out @ concat (map (match_line (fn_numeric p) fileName) ms)))"
  using assms(4-)
proof (induction k arbitrary: i p retval out)
  case 0
  then show ?case by (simp add: record_matches_def)
next
  case (Suc k)
  have i: "i < 128" using Suc.prems by simp
  note e = valid_gpt_entries(2,4) [OF assms(2) i, folded es_def]
  let ?p = "p\<lparr>hits := hits p + 1, match_partnum := (if match_partnum p = 0 then int i + 1 else match_partnum p)\<rparr>"
  have up: "[i..<i + Suc k] = i # [Suc i..<Suc i + k]" by (simp add: upt_conv_Cons)
  have "decidable p (es ! i)" using Suc.prems i by (simp add: list_all_length es_def)
  then obtain b where b: "entry_found p (es ! i) = Some (Some b)" by (auto simp: decidable_def)
  show ?case
  proof (cases "sought p d (es ! i)")
    case True
    have "search_entries d fileName (Suc i) k ?p (Suc retval) (out @ match_line (fn_numeric p) fileName i) =
        (let ms = filter (\<lambda>j. sought ?p d (es ! j)) [Suc i..<Suc i + k] in
          Some (True, record_matches ms ?p, Suc retval + length ms,
            (out @ match_line (fn_numeric p) fileName i) @ concat (map (match_line (fn_numeric ?p) fileName) ms)))"
      by (rule Suc.IH) (use Suc.prems in \<open>simp_all add: list_all_iff\<close>)
    then show ?thesis
      using True e b Suc.prems assms(3) unfolding up
      by (simp add: sought_def showmatch_line Let_def record_matches_def)
  next
    case False
    then have "search_entries d fileName i (Suc k) p retval out = search_entries d fileName (Suc i) k p retval out"
      using e b assms(3) by (auto simp: sought_def Let_def)
    then show ?thesis using Suc.IH [of "Suc i" p retval out] Suc.prems False unfolding up by simp
  qed
qed

lemma do_search_valid:
  assumes "files path = Some f" "media f n" "gpt_ok (gpt_of n (bytes f))" "fn_verbose p = 0"
  defines "es \<equiv> entries_of 128 (primary_entries (gpt_of n (bytes f)))"
    and "d \<equiv> \<lparr>fd = f, writable = False, dsize = of_nat (512 * n), gpt = marked (gpt_of n (bytes f)), dpmbr = zero_pmbr\<rparr>"
  defines "ms \<equiv> filter (\<lambda>j. sought p d (es ! j)) [0..<128]"
  assumes "list_all (decidable p) es"
  shows "do_search p path files =
    Some (record_matches ms p, length ms, concat (map (match_line (fn_numeric p) path) ms))"
proof -
  have "search_entries d path 0 128 p 0 '''' =
      Some (True, record_matches ms p, length ms, concat (map (match_line (fn_numeric p) path) ms))"
    using search_entries_filter [OF assms(3), of d 0 128 p path 0 "''''"] assms by (simp add: Let_def)
  then show ?thesis
    using DriveOpen_media [of files path, OF assms(1,2), of False] GptSanityCheck_ok [OF assms(3)] valid_gpt_entries(1) [OF assms(3)]
    by (simp add: do_search_def d_def DriveClose_readonly Let_def)
qed

subsection \<open>Properties\<close>

lemma filter_one:
  assumes "i < n" "\<And>j. j < n \<Longrightarrow> P j \<longleftrightarrow> j = i"
  shows "filter P [0..<n] = [i]"
proof -
  have "[0..<n] = [0..<i] @ i # [Suc i..<n]"
    using assms(1) upt_add_eq_append [of 0 i "n - i"] by (simp add: upt_conv_Cons)
  moreover have "filter P [0..<n] = filter (\<lambda>j. j = i) [0..<n]" using assms(2) by (intro filter_cong) auto
  ultimately show ?thesis by (simp add: filter_empty_conv)
qed

lemma add_spec_unique:
  assumes "add_spec u p es = Some (i, e)" "set_unique p" "set_type p"
  shows "unique e = unique_guid p \<and> etype e = type_guid p"
  using assms by (auto simp: add_spec_def requested_def bind_eq_Some_conv Let_def)

text \<open>The search for one unique GUID and nothing else, from fresh counters.\<close>

definition by_unique :: "Guid \<Rightarrow> string \<Rightarrow> CgptFindParams \<Rightarrow> bool" where
  "by_unique g path q \<longleftrightarrow> fn_drive_name q = Some path \<and> fn_set_unique q \<and> fn_unique_guid q = g \<and> \<not> fn_set_type q \<and>
     \<not> fn_set_label q \<and> matchlen q = 0 \<and> fn_numeric q \<and> fn_verbose q = 0 \<and> hits q = 0 \<and> match_partnum q = 0"

lemma find_unique:
  assumes "files path = Some f" "media f n" "gpt_ok (gpt_of n (bytes f))" "by_unique g path q" "i < 128"
  defines "es \<equiv> entries_of 128 (primary_entries (gpt_of n (bytes f)))"
  assumes "\<not> IsZero (etype (es ! i))" "GuidEqual g (unique (es ! i))"
  shows "cgpt_find symlink (Some q) files = Some (Some (q\<lparr>hits := 1, match_partnum := int i + 1\<rparr>), print_d (int i + 1) @ newline)"
proof -
  define d where "d = \<lparr>fd = f, writable = False, dsize = of_nat (512 * n), gpt = marked (gpt_of n (bytes f)), dpmbr = zero_pmbr\<rparr>"
  have s: "sought q d e \<longleftrightarrow> \<not> IsZero (etype e) \<and> GuidEqual g (unique e)" for e
    using assms(4) by (simp add: sought_def by_unique_def entry_found_def match_content_def)
  have dec: "list_all (decidable q) es"
    using assms(4) by (auto simp: list_all_iff decidable_def by_unique_def entry_found_def)
  have one: "j = i" if "j < 128" "sought q d (es ! j)" for j
  proof (rule ccontr)
    assume "j \<noteq> i"
    moreover have "used_at es j" "used_at es i"
      using that s assms(5,7) by (auto simp: used_at_def IsUnusedEntry_def IsZero_def GuidEqual_def es_def)
    ultimately have "\<not> GuidEqual (unique (es ! i)) (unique (es ! j))"
      using valid_table [OF assms(3), folded es_def] unfolding table_valid_def by metis
    then show False using that s assms(8) by (simp add: GuidEqual_def)
  qed
  have ms: "filter (\<lambda>j. sought q d (es ! j)) [0..<128] = [i]"
  proof (rule filter_one [OF assms(5)])
    fix j :: nat
    assume "j < 128"
    then show "sought q d (es ! j) \<longleftrightarrow> j = i" using one [of j] s [of "es ! i"] assms(7,8) by blast
  qed
  have v: "fn_verbose q = 0" "fn_numeric q" using assms(4) by (simp_all add: by_unique_def)
  have "do_search q path files = Some (record_matches [i] q, length [i], concat (map (match_line True path) [i]))"
    using do_search_valid [of files path, OF assms(1,2,3) v(1), folded es_def d_def, OF dec] unfolding ms by (simp add: v(2))
  then show ?thesis
    using assms(4) by (simp add: cgpt_find_def by_unique_def record_matches_def match_line_def)
qed

text \<open>C9: What is added is found. When \<open>cgpt_add\<close> succeeds on a valid drive with a type that is not unused and a unique
  GUID, then \<open>cgpt_find\<close> for that GUID reports exactly one match, and it is the partition number that
  \<open>cgpt_add\<close> has returned.\<close>

theorem added_partition_is_found:
  assumes "files (ad_drive_name p) = Some f" "media f n" "67 \<le> n" "gpt_ok (gpt_of n (bytes f))"
    and "usual_gpt (gpt_of n (bytes f))" "request_wf p" "length u = 16"
    and "set_unique p" "set_type p" "\<not> IsZero (type_guid p)"
    and add: "cgpt_add (Some u) (Some p) files = Some (CGPT_OK, pn, files')"
    and q: "by_unique (unique_guid p) (ad_drive_name p) q"
  shows "cgpt_find symlink (Some q) files' =
    Some (Some (q\<lparr>hits := 1, match_partnum := uint pn\<rparr>), print_d (uint pn) @ newline)"
proof -
  let ?es = "entries_of 128 (primary_entries (gpt_of n (bytes f)))" and ?path = "ad_drive_name p"
  note run = cgpt_add_run [of files p, OF assms(1-7)]
  obtain i e where sp: "add_spec u p ?es = Some (i, e)" using run add by (cases "add_spec u p ?es") auto
  then obtain f' where f': "pn = of_nat i + 1" "files' = files(?path \<mapsto> f')" "valid_drive files' ?path n"
      "entries_of 128 (primary_entries (gpt_of n (bytes f'))) = ?es[i := e]"
    using run add by (auto split: if_splits)
  have i: "i < 128" using sp add_index_bound [of p ?es i] by (auto simp: add_spec_def bind_eq_Some_conv)
  have "uint pn = int i + 1" using i by (simp add: f'(1) uint_nat unat_word_ariths unat_of_nat take_bit_nat_eq_self)
  moreover have "cgpt_find symlink (Some q) files' = Some (Some (q\<lparr>hits := 1, match_partnum := int i + 1\<rparr>), print_d (int i + 1) @ newline)"
    by (rule find_unique [of files' ?path f' n]) (use f' i q assms(8-10) add_spec_unique [OF sp] in \<open>auto simp: valid_drive_def\<close>)
  ultimately show ?thesis by simp
qed

definition sample_search :: CgptFindParams where
  "sample_search = \<lparr>fn_drive_name = Some ''img'', fn_verbose = 0, fn_set_unique = True, fn_set_type = False, fn_set_label = False,
     oneonly = True, fn_numeric = True, matchbuf = [], matchlen = 0, matchoffset = 0, fn_unique_guid = guid_efi,
     fn_type_guid = guid_unused, fn_label = [], hits = 0, match_partnum = 0\<rparr>"

theorem added_partition_is_found_witness:
  "\<exists>f'. cgpt_add (Some (replicate 16 5)) (Some sample_request) [''img'' \<mapsto> new_file] = Some (CGPT_OK, 1, [''img'' \<mapsto> f']) \<and>
    cgpt_find (\<lambda>_. False) (Some sample_search) [''img'' \<mapsto> f'] =
      Some (Some (sample_search\<lparr>hits := 1, match_partnum := 1\<rparr>), print_d 1 @ newline)"
proof -
  obtain e where e: "add_spec (replicate 16 5) sample_request (entries_of 128 (replicate 16384 0)) = Some (0, e)"
    "starting_lba e = 40" "ending_lba e = 49" using sample_added by blast
  have t: "table_valid (hdr (primary_header new_gpt)) ((entries_of 128 (replicate 16384 0))[0 := e])"
    using no_used_zero e new_file_facts(7,8) by (intro table_valid_single) (simp_all add: in_region_def)
  have r: "request_wf sample_request" "ad_drive_name sample_request = ''img''" "set_unique sample_request" "set_type sample_request"
      "type_guid sample_request = guid_linux_data" "unique_guid sample_request = guid_efi"
    by (simp_all add: request_wf_def sample_request_def attrs_in_range_def)
  have z: "\<not> IsZero guid_linux_data" by (simp add: IsZero_def GuidEqual_iff) (simp add: guid_linux_data_def guid_unused_def)
  have s: "by_unique guid_efi ''img'' sample_search" by (simp add: by_unique_def sample_search_def)
  have m: "media new_file 100" "gpt_ok (gpt_of 100 (bytes new_file))" "usual_gpt (gpt_of 100 (bytes new_file))"
    using new_file_facts by (simp_all add: usual_gpt_def)
  obtain f' where f': "cgpt_add (Some (replicate 16 5)) (Some sample_request) [''img'' \<mapsto> new_file] = Some (CGPT_OK, 1, [''img'' \<mapsto> f'])"
    using cgpt_add_run [of "[''img'' \<mapsto> new_file]" sample_request new_file 100 "replicate 16 5"] t e(1) r(1,2) m
    unfolding new_file_facts(2) by (auto simp: new_file_facts)
  moreover have "cgpt_find (\<lambda>_. False) (Some sample_search) [''img'' \<mapsto> f'] =
      Some (Some (sample_search\<lparr>hits := 1, match_partnum := 1\<rparr>), print_d 1 @ newline)"
    using added_partition_is_found [OF _ m(1) _ m(2,3) r(1) _ r(3,4) _ f', of sample_search] r z s by simp
  ultimately show ?thesis by blast
qed

text \<open>The bound on \<open>-O\<close> does not hold the search inside the partition: the sum of the offset and the length is taken
  modulo \<open>2 ^ 64\<close>. For every used partition that does not start at 0, an offset of \<open>2 ^ 64 - 1\<close> (which \<open>-O -1\<close> gives) and a
  pattern of one byte match exactly when the last byte before the partition is that byte.\<close>

theorem match_content_before_partition:
  assumes "healthy (fd d)" "0 < unat (starting_lba e)" "512 * unat (starting_lba e) \<le> length (bytes (fd d))"
    and "matchlen p = 1" "matchbuf p = [b]" "matchoffset p = - 1"
  shows "match_content p d e \<longleftrightarrow> bytes (fd d) ! (512 * unat (starting_lba e) - 1) = b"
proof -
  define pos where "pos = 512 * unat (starting_lba e) - 1"
  have len: "length (bytes (fd d)) < 2 ^ 63" "pos < length (bytes (fd d))" "pos < 2 ^ 63"
    using assms(1-3) by (auto simp: healthy_def pos_def)
  have "512 * starting_lba e - 1 = (of_nat pos :: u64)"
    using assms(2) by (simp add: pos_def of_nat_diff)
  moreover note small_u64 [OF len(3)]
  ultimately have "FillBuffer (fd d) (512 * starting_lba e + matchoffset p) 1 = Some [bytes (fd d) ! pos]"
    using assms(1,6) len by (simp add: FillBuffer_def lseek64_def safe_read_healthy seg_def Cons_nth_drop_Suc [symmetric])
  then show ?thesis using assms(4-6) by (auto simp: match_content_def pos_def Let_def)
qed

theorem match_content_before_partition_witness:
  "match_content (sample_search\<lparr>matchlen := 1, matchbuf := [0], matchoffset := - 1\<rparr>)
     \<lparr>fd = blank_file 100, writable = False, dsize = 51200, gpt = zero_gpt, dpmbr = zero_pmbr\<rparr>
     ((entry_at (replicate 16384 0) 0)\<lparr>starting_lba := 40, ending_lba := 49\<rparr>)"
proof -
  have "healthy (blank_file 100)" by (simp add: healthy_def blank_file_def)
  then show ?thesis
    by (subst match_content_before_partition [where b = 0]) (simp_all add: blank_file_def)
qed

end
