(* ===== verification/Cgpt_Boot.thy ===== *)
theory Cgpt_Boot
  imports Cgpt_Cmds Guid_Text
begin

text \<open>
  The protective MBR and the boot partition (\<open>gpt/lib/cgpt_boot.c\<close>): \<open>cgpt_boot\<close> writes the unique
  GUID of a partition into the MBR, \<open>cgpt_get_boot_partition_number\<close> looks the GUID up again.
\<close>

unbundle bit_operations_syntax

subsection \<open>The commands\<close>

record CgptBootParams =
  bt_drive_name :: string
  bt_partition :: u32
  bootfile :: "string option"
  create_pmbr :: bool

text \<open>The loop over the entries; \<open>Some 0\<close> is the loop that ends without a match.\<close>

fun find_boot :: "GptData \<Rightarrow> Guid \<Rightarrow> nat \<Rightarrow> nat \<Rightarrow> u32 option" where
  "find_boot g boot i 0 = Some 0"
| "find_boot g boot i (Suc k) =
    do { r \<leftarrow> GetEntry g ANY_VALID (of_nat i);
         if GuidEqual (unique (load_entry g r)) boot then Some (of_nat i + 1) else find_boot g boot (Suc i) k }"

text \<open>The status, the partition number left in \<open>params\<close>, and the files. The number of entries is
  converted to an \<open>int\<close>.\<close>

definition cgpt_get_boot_partition_number ::
    "CgptBootParams option \<Rightarrow> fs \<Rightarrow> (cgpt_status \<times> u32 \<times> fs) option" where
  "cgpt_get_boot_partition_number params files =
    (case params of None \<Rightarrow> Some (CGPT_FAILED, 0, files) | Some p \<Rightarrow>
     let path = bt_drive_name p;
         finish = (\<lambda>d st pn. do { (_, files') \<leftarrow> close_drive path files d True; Some (st, pn, files') }) in
     do { r \<leftarrow> DriveOpen files path False;
          case r of None \<Rightarrow> Some (CGPT_FAILED, bt_partition p, files) | Some d \<Rightarrow>
          let (g, rv) = GptSanityCheck (gpt d); d = d\<lparr>gpt := g\<rparr> in
          if rv \<noteq> GPT_SUCCESS then finish d CGPT_FAILED (bt_partition p)
          else let (st, d) = ReadPMBR d in
            if st \<noteq> CGPT_OK then finish d CGPT_FAILED (bt_partition p)
            else do { _ \<leftarrow> GuidToStr (boot_guid (dpmbr d)) GUID_STRLEN;
                      pn \<leftarrow> find_boot (gpt d) (boot_guid (dpmbr d)) 0 (nat (sint (GetNumberOfEntries (gpt d))));
                      if pn = 0 then finish d CGPT_FAILED 0 else finish d CGPT_OK pn } })"

definition protective_mbr :: "u64 \<Rightarrow> pmbr \<Rightarrow> pmbr" where
  "protective_mbr sectors p = p\<lparr>magic := [0x1d, 0x9a], sig := [0x55, 0xaa],
     part := [\<lparr>status = 0, f_head = 0, f_sect = 2, f_cyl = 0, lp_type = 0xee, l_head = 0xff, l_sect = 0xff,
               l_cyl = 0xff, f_lba = 1, num_sect = (if sectors < 0xffffffff then ucast (sectors - 1) else 0xffffffff)\<rparr>,
              dec_lpart (replicate 16 0), dec_lpart (replicate 16 0), dec_lpart (replicate 16 0)]\<rparr>"

text \<open>Reading the boot code: \<open>None\<close> for an unreadable or empty file.\<close>

definition read_bootcode :: "fs \<Rightarrow> string \<Rightarrow> buffer \<Rightarrow> buffer option" where
  "read_bootcode files path code =
    (case files path of None \<Rightarrow> None
     | Some f \<Rightarrow> (case dev_read f 0 424 of None \<Rightarrow> None
        | Some bs \<Rightarrow> if length bs < 1 then None else Some (overlay 0 bs code)))"

text \<open>\<open>Some None\<close> jumps to \<open>done\<close> with the status still failed.\<close>

definition boot_partition :: "u32 \<Rightarrow> drive \<Rightarrow> drive option option" where
  "boot_partition pn d =
    (if pn = 0 then Some (Some d)
     else let (g, rv) = GptSanityCheck (gpt d); d = d\<lparr>gpt := g\<rparr> in
       if rv \<noteq> GPT_SUCCESS then Some None
       else if pn > GetNumberOfEntries g then Some None
       else do { r \<leftarrow> GetEntry g ANY_VALID (pn - 1);
                 Some (Some (d\<lparr>dpmbr := (dpmbr d)\<lparr>boot_guid := unique (load_entry g r)\<rparr>\<rparr>)) })"

definition cgpt_boot :: "CgptBootParams option \<Rightarrow> fs \<Rightarrow> command_result" where
  "cgpt_boot params files =
    (case params of None \<Rightarrow> Some (CGPT_FAILED, files) | Some p \<Rightarrow>
     let path = bt_drive_name p;
         rdwr = (create_pmbr p \<or> bt_partition p \<noteq> 0 \<or> bootfile p \<noteq> None);
         finish = (\<lambda>d st. do { (_, files') \<leftarrow> close_drive path files d True; Some (st, files') }) in
     do { r \<leftarrow> DriveOpen files path rdwr;
          case r of None \<Rightarrow> Some (CGPT_FAILED, files) | Some d \<Rightarrow>
          let (st, d) = ReadPMBR d in
          if st \<noteq> CGPT_OK then finish d CGPT_FAILED
          else let d = (if create_pmbr p then d\<lparr>dpmbr := protective_mbr (drive_sectors (gpt d)) (dpmbr d)\<rparr> else d) in
          do { r2 \<leftarrow> boot_partition (bt_partition p) d;
               case r2 of None \<Rightarrow> finish d CGPT_FAILED | Some d \<Rightarrow>
               (case (case bootfile p of None \<Rightarrow> Some (bootcode (dpmbr d))
                      | Some bf \<Rightarrow> read_bootcode files bf (bootcode (dpmbr d))) of
                  None \<Rightarrow> finish d CGPT_FAILED
                | Some code \<Rightarrow>
                    let d = d\<lparr>dpmbr := (dpmbr d)\<lparr>bootcode := code\<rparr>\<rparr> in
                    do { _ \<leftarrow> GuidToStr (boot_guid (dpmbr d)) GUID_STRLEN;
                         if \<not> rdwr then finish d CGPT_OK
                         else let (st, d) = WritePMBR d in
                           finish d (if st = CGPT_OK then CGPT_OK else CGPT_FAILED) }) } })"

subsection \<open>The MBR on a drive without defects\<close>

lemma ReadPMBR_media:
  assumes "media (fd d) n" "pmbr_wf (dpmbr d)"
  shows "ReadPMBR d = (CGPT_OK, d\<lparr>dpmbr := dec_pmbr (seg 0 512 (bytes (fd d)))\<rparr>)"
proof -
  have "length (bytes (fd d)) = 512 * n" "34 \<le> n" "bad_read (fd d) = (\<lambda>_. False)"
    using assms(1) by (simp_all add: media_def healthy_def)
  then show ?thesis
    using assms(2) by (simp add: ReadPMBR_def lseek64_def dev_read_def overlay_all pmbr.length_enc)
qed

lemma WritePMBR_media:
  assumes "media (fd d) n" "pmbr_wf (dpmbr d)" "writable d"
  shows "WritePMBR d = (CGPT_OK, d\<lparr>fd := (fd d)\<lparr>bytes := overlay 0 (enc_pmbr (dpmbr d)) (bytes (fd d))\<rparr>\<rparr>)"
proof -
  have "length (bytes (fd d)) = 512 * n" "34 \<le> n" "healthy (fd d)" using assms(1) by (simp_all add: media_def)
  then show ?thesis
    using assms(2,3) by (simp add: WritePMBR_def lseek64_def fd_write_def dev_write_healthy pmbr.length_enc)
qed

lemma pmbr_written:
  assumes "media f n" "pmbr_wf p"
  defines "f' \<equiv> f\<lparr>bytes := overlay 0 (enc_pmbr p) (bytes f)\<rparr>"
  shows "media f' n" "seg 0 512 (bytes f') = enc_pmbr p" "gpt_of n (bytes f') = gpt_of n (bytes f)"
proof -
  have l: "length (bytes f) = 512 * n" "34 \<le> n" using assms(1) by (simp_all add: media_def)
  have e: "length (enc_pmbr p) = 512" using assms(2) by (simp add: pmbr.length_enc)
  show "media f' n" using assms(1) l e by (simp add: f'_def media_def healthy_def)
  show "seg 0 512 (bytes f') = enc_pmbr p" using l e by (simp add: f'_def)
  have "seg q k (bytes f') = seg q k (bytes f)" if "512 \<le> q" for q k
    unfolding f'_def using that l e by (simp add: seg_overlay_disjoint)
  then show "gpt_of n (bytes f') = gpt_of n (bytes f)" using l by (simp add: gpt_of_def)
qed

lemma zero_pmbr_wf: "pmbr_wf zero_pmbr"
  by (simp add: zero_pmbr_def pmbr.wf_dec)

subsection \<open>Finding the boot partition\<close>

lemma find_boot_first:
  assumes "gpt_ok g" "m < k" "i + k \<le> 128"
    and "\<And>j. j < m \<Longrightarrow> \<not> GuidEqual (unique (entries_of 128 (primary_entries g) ! (i + j))) boot"
    and "GuidEqual (unique (entries_of 128 (primary_entries g) ! (i + m))) boot"
  shows "find_boot (g\<lparr>valid_headers := MASK_BOTH, valid_entries := MASK_BOTH\<rparr>) boot i k = Some (of_nat (i + m + 1))"
  using assms(2-5)
proof (induction k arbitrary: i m)
  case 0
  then show ?case by simp
next
  case (Suc k)
  have i: "i < 128" using Suc.prems by simp
  note e = valid_gpt_entries(2,4) [OF assms(1) i]
  show ?case
  proof (cases m)
    case 0
    then show ?thesis using Suc.prems e by (simp add: add.commute)
  next
    case (Suc m')
    have "\<not> GuidEqual (unique (entries_of 128 (primary_entries g) ! i)) boot" using Suc.prems(3) [of 0] Suc by simp
    moreover have "\<not> GuidEqual (unique (entries_of 128 (primary_entries g) ! (Suc i + j))) boot" if "j < m'" for j
      using Suc.prems(3) [of "Suc j"] that Suc by simp
    then have "find_boot (g\<lparr>valid_headers := MASK_BOTH, valid_entries := MASK_BOTH\<rparr>) boot (Suc i) k = Some (of_nat (Suc i + m' + 1))"
      by (intro Suc.IH) (use Suc Suc.prems in simp_all)
    ultimately show ?thesis using Suc e by simp
  qed
qed

lemma GuidToStr_wf: "guid_wf g \<Longrightarrow> \<exists>t. GuidToStr g GUID_STRLEN = Some t"
  using guid_text_scan(2) by (simp add: GuidToStr_def GUID_STRLEN_def)

lemma cgpt_boot_result:
  assumes f: "files path = Some f" "media f n" and ok: "gpt_ok (gpt_of n (bytes f))" and i: "i < 128"
  defines "e \<equiv> entries_of 128 (primary_entries (gpt_of n (bytes f))) ! i"
  shows "\<exists>p. cgpt_boot (Some \<lparr>bt_drive_name = path, bt_partition = of_nat (i + 1), bootfile = None, create_pmbr = c\<rparr>) files =
      Some (CGPT_OK, files(path \<mapsto> f\<lparr>bytes := overlay 0 (enc_pmbr p) (bytes f)\<rparr>)) \<and> pmbr_wf p \<and> boot_guid p = unique e"
proof -
  let ?g = "gpt_of n (bytes f)"
  let ?g' = "?g\<lparr>valid_headers := MASK_BOTH, valid_entries := MASK_BOTH\<rparr>"
  define d where "d = \<lparr>fd = f, writable = True, dsize = of_nat (512 * n), gpt = ?g, dpmbr = zero_pmbr\<rparr>"
  define p0 where "p0 = dec_pmbr (seg 0 512 (bytes f))"
  define p1 where "p1 = (if c then protective_mbr (of_nat n) p0 else p0)"
  define p where "p = p1\<lparr>boot_guid := unique e, bootcode := bootcode p1\<rparr>"
  have len: "length (bytes f) = 512 * n" "34 \<le> n" using f(2) by (simp_all add: media_def)
  have wf0: "pmbr_wf p0" using len by (simp add: p0_def pmbr.wf_dec)
  have "entry_wf e" using i len by (simp add: e_def entry_wf_at)
  then have wfe: "guid_wf (unique e)" by (simp add: entry_wf_def)
  have wf: "pmbr_wf p" using wf0 wfe by (simp add: p_def p1_def pmbr_wf_def protective_mbr_def)
  have pe: "p1\<lparr>boot_guid := unique e\<rparr> = p" by (simp add: p_def)
  have num: "(of_nat (i + 1) :: u32) \<noteq> 0" "\<not> GetNumberOfEntries ?g' < of_nat (i + 1)" "(of_nat (i + 1) :: u32) - 1 = of_nat i"
  proof -
    have u: "unat (of_nat (i + 1) :: u32) = i + 1" using i by (simp only: unat_of_nat) (simp add: take_bit_nat_eq_self)
    then show "(of_nat (i + 1) :: u32) \<noteq> 0" by (metis add_is_0 unat_0 zero_neq_one)
    show "\<not> GetNumberOfEntries ?g' < of_nat (i + 1)" using i u valid_gpt_entries(1) [OF ok] by (simp add: word_less_nat_alt)
  qed simp
  have bp: "boot_partition (of_nat (i + 1)) (d\<lparr>dpmbr := p1\<rparr>) = Some (Some (d\<lparr>gpt := ?g', dpmbr := p\<rparr>))"
    unfolding boot_partition_def using num valid_gpt_entries(2,4) [OF ok i] GptSanityCheck_ok [OF ok] pe
    by (simp add: d_def e_def)
  obtain t where t: "GuidToStr (boot_guid p) GUID_STRLEN = Some t" using GuidToStr_wf wfe by (auto simp: p_def)
  let ?dw = "d\<lparr>gpt := ?g', dpmbr := p\<rparr>"
  have wr: "WritePMBR ?dw = (CGPT_OK, ?dw\<lparr>fd := f\<lparr>bytes := overlay 0 (enc_pmbr p) (bytes f)\<rparr>\<rparr>)"
    using WritePMBR_media [of ?dw n] f(2) wf by (simp add: d_def)
  have rd: "ReadPMBR d = (CGPT_OK, d\<lparr>dpmbr := p0\<rparr>)"
    using ReadPMBR_media [of d n] f(2) zero_pmbr_wf by (simp add: d_def p0_def)
  have p1: "(if c then (d\<lparr>dpmbr := p0\<rparr>)\<lparr>dpmbr := protective_mbr (drive_sectors (gpt (d\<lparr>dpmbr := p0\<rparr>))) (dpmbr (d\<lparr>dpmbr := p0\<rparr>))\<rparr>
      else d\<lparr>dpmbr := p0\<rparr>) = d\<lparr>dpmbr := p1\<rparr>" by (simp add: p1_def d_def)
  have bc: "(dpmbr ?dw)\<lparr>bootcode := bootcode (dpmbr ?dw)\<rparr> = p" by simp
  have op: "DriveOpen files path True = Some (Some d)" using DriveOpen_media [of files path, OF f] by (simp add: d_def)
  have "cgpt_boot (Some \<lparr>bt_drive_name = path, bt_partition = of_nat (i + 1), bootfile = None, create_pmbr = c\<rparr>) files =
      Some (CGPT_OK, files(path \<mapsto> f\<lparr>bytes := overlay 0 (enc_pmbr p) (bytes f)\<rparr>))"
    using num(1) op rd bp t wr
    by (simp add: cgpt_boot_def Let_def p1 close_drive_def DriveClose_clean del: of_nat_add)
  moreover have "boot_guid p = unique e" by (simp add: p_def)
  ultimately show ?thesis using wf by blast
qed

lemma get_boot_result:
  assumes f: "files path = Some f" "media f n" and ok: "gpt_ok (gpt_of n (bytes f))"
    and p: "boot_guid (dec_pmbr (seg 0 512 (bytes f))) = b" and i: "i < 128"
    and b: "GuidEqual (unique (entries_of 128 (primary_entries (gpt_of n (bytes f))) ! i)) b"
    and first: "\<And>j. j < i \<Longrightarrow> \<not> GuidEqual (unique (entries_of 128 (primary_entries (gpt_of n (bytes f))) ! j)) b"
  shows "cgpt_get_boot_partition_number (Some \<lparr>bt_drive_name = path, bt_partition = k, bootfile = bf, create_pmbr = c\<rparr>) files =
    Some (CGPT_OK, of_nat (i + 1), files)"
proof -
  let ?g = "gpt_of n (bytes f)"
  let ?g' = "?g\<lparr>valid_headers := MASK_BOTH, valid_entries := MASK_BOTH\<rparr>"
  define d where "d = \<lparr>fd = f, writable = False, dsize = of_nat (512 * n), gpt = ?g', dpmbr = zero_pmbr\<rparr>"
  have len: "length (bytes f) = 512 * n" "34 \<le> n" using f(2) by (simp_all add: media_def)
  then have "pmbr_wf (dec_pmbr (seg 0 512 (bytes f)))" by (simp add: pmbr.wf_dec)
  then obtain t where t: "GuidToStr b GUID_STRLEN = Some t" using GuidToStr_wf p by (auto simp: pmbr_wf_def)
  have fb: "find_boot ?g' b 0 128 = Some (of_nat (i + 1))"
    using find_boot_first [OF ok, of i 128 0 b] i b first by simp
  have rd: "ReadPMBR d = (CGPT_OK, d\<lparr>dpmbr := dec_pmbr (seg 0 512 (bytes f))\<rparr>)"
    using ReadPMBR_media [of d n] f(2) zero_pmbr_wf by (simp add: d_def)
  have "unat (of_nat (i + 1) :: u32) = i + 1" using i by (simp only: unat_of_nat) (simp add: take_bit_nat_eq_self)
  then have nz: "(of_nat (i + 1) :: u32) \<noteq> 0" by (metis add_is_0 unat_0 zero_neq_one)
  show ?thesis
    using DriveOpen_media [of files path, OF f, of False] GptSanityCheck_ok [OF ok] rd t fb nz p
      valid_gpt_entries(1) [OF ok] map_upd_same [of files path, OF f(1)]
    by (simp add: cgpt_get_boot_partition_number_def Let_def close_drive_def DriveClose_clean d_def del: of_nat_add)
qed

subsection \<open>Properties\<close>

text \<open>The entries before number \<open>i\<close> have other unique GUIDs. For a used entry of a valid table this
  can only fail by a GUID left behind in an unused entry.\<close>

definition first_with_guid :: "GptData \<Rightarrow> nat \<Rightarrow> bool" where
  "first_with_guid g i \<longleftrightarrow> (let es = entries_of 128 (primary_entries g) in
     list_all (\<lambda>e. \<not> GuidEqual (unique e) (unique (es ! i))) (take i es))"

text \<open>\<open>cgpt_boot -i N\<close> and \<open>cgpt_get_boot_partition_number\<close> are inverse: on a valid drive, after the
  first command the second one returns \<open>N\<close>, and the tables on the drive have not changed.\<close>

theorem boot_partition_round_trip:
  assumes "files path = Some f" "media f n" "gpt_ok (gpt_of n (bytes f))" "i < 128" "first_with_guid (gpt_of n (bytes f)) i"
  shows "\<exists>f'. cgpt_boot (Some \<lparr>bt_drive_name = path, bt_partition = of_nat (i + 1), bootfile = None, create_pmbr = c\<rparr>) files =
      Some (CGPT_OK, files(path \<mapsto> f')) \<and> gpt_of n (bytes f') = gpt_of n (bytes f) \<and>
    cgpt_get_boot_partition_number (Some \<lparr>bt_drive_name = path, bt_partition = 0, bootfile = None, create_pmbr = False\<rparr>)
      (files(path \<mapsto> f')) = Some (CGPT_OK, of_nat (i + 1), files(path \<mapsto> f'))"
proof -
  let ?es = "entries_of 128 (primary_entries (gpt_of n (bytes f)))"
  from cgpt_boot_result [of files path, OF assms(1-4)] obtain p where p:
    "cgpt_boot (Some \<lparr>bt_drive_name = path, bt_partition = of_nat (i + 1), bootfile = None, create_pmbr = c\<rparr>) files =
      Some (CGPT_OK, files(path \<mapsto> f\<lparr>bytes := overlay 0 (enc_pmbr p) (bytes f)\<rparr>))"
    "pmbr_wf p" "boot_guid p = unique (?es ! i)" by metis
  define f' where "f' = f\<lparr>bytes := overlay 0 (enc_pmbr p) (bytes f)\<rparr>"
  note w = pmbr_written [OF assms(2) p(2), folded f'_def]
  have first: "\<not> GuidEqual (unique (?es ! j)) (unique (?es ! i))" if "j < i" for j
  proof -
    have "?es ! j \<in> set (take i ?es)"
      using that assms(4) by (metis in_set_conv_nth length_entries_of length_take min.absorb4 nth_take)
    then show ?thesis using assms(5) by (auto simp: first_with_guid_def Let_def list_all_iff)
  qed
  have "cgpt_get_boot_partition_number (Some \<lparr>bt_drive_name = path, bt_partition = 0, bootfile = None, create_pmbr = False\<rparr>)
      (files(path \<mapsto> f')) = Some (CGPT_OK, of_nat (i + 1), files(path \<mapsto> f'))"
    by (rule get_boot_result [OF _ w(1), where b = "unique (?es ! i)"])
      (use assms(3,4) p(2,3) first w in \<open>simp_all only: pmbr.dec_enc GuidEqual_refl not_False_eq_True\<close>, simp)
  with p(1) w(3) show ?thesis unfolding f'_def by blast
qed

theorem boot_partition_round_trip_witness:
  "\<exists>f'. cgpt_boot (Some \<lparr>bt_drive_name = ''img'', bt_partition = 1, bootfile = None, create_pmbr = True\<rparr>) [''img'' \<mapsto> new_file] =
      Some (CGPT_OK, [''img'' \<mapsto> f']) \<and>
    cgpt_get_boot_partition_number (Some \<lparr>bt_drive_name = ''img'', bt_partition = 0, bootfile = None, create_pmbr = False\<rparr>)
      [''img'' \<mapsto> f'] = Some (CGPT_OK, 1, [''img'' \<mapsto> f'])"
  using boot_partition_round_trip [of "[''img'' \<mapsto> new_file]" "''img''" new_file 100 0 True] new_file_facts
  by (auto simp: first_with_guid_def)

end
