(* ===== verification/Cgpt_Prioritize.thy ===== *)
theory Cgpt_Prioritize
  imports Cgpt_Add "HOL-Library.Multiset"
begin

text \<open>
  Reordering the kernel partitions (\<open>gpt/lib/cgpt_prioritize.c\<close>). The array of groups with its counter is
  the list of the groups in use, the array of partitions of a group the list of those in use.
\<close>

unbundle bit_operations_syntax

record group_t =
  gpriority :: u32
  gparts :: "nat list"

type_synonym group_list = "group_t list"

definition MAX_GROUPS :: nat where
  "MAX_GROUPS = 17"

subsection \<open>The code\<close>

text \<open>\<open>None\<close> is the failed \<open>require(i < MAX_GROUPS)\<close>.\<close>

fun AddToGroup :: "group_list \<Rightarrow> u32 \<Rightarrow> nat \<Rightarrow> nat \<Rightarrow> group_list option" where
  "AddToGroup [] prio i n = (if n < MAX_GROUPS then Some [\<lparr>gpriority = prio, gparts = [i]\<rparr>] else None)"
| "AddToGroup (g # gl) prio i n =
    (if gpriority g = prio then Some (g\<lparr>gparts := gparts g @ [i]\<rparr> # gl)
     else map_option (\<lambda>gl'. g # gl') (AddToGroup gl prio i (Suc n)))"

fun ChangeGroup :: "group_list \<Rightarrow> u32 \<Rightarrow> u32 \<Rightarrow> group_list" where
  "ChangeGroup [] old_priority new_priority = []"
| "ChangeGroup (g # gl) old_priority new_priority =
    (if gpriority g = old_priority then g\<lparr>gpriority := new_priority\<rparr> # gl
     else g # ChangeGroup gl old_priority new_priority)"

text \<open>The inner loop of the insertion sort, from \<open>j\<close> downwards, and the store after it.\<close>

fun sort_shift :: "group_list \<Rightarrow> group_t \<Rightarrow> nat \<Rightarrow> group_list" where
  "sort_shift gl tmp 0 = gl[0 := tmp]"
| "sort_shift gl tmp (Suc j) =
    (if gpriority (gl ! j) < gpriority tmp then sort_shift (gl[Suc j := gl ! j]) tmp j else gl[Suc j := tmp])"

fun sort_from :: "group_list \<Rightarrow> nat \<Rightarrow> nat \<Rightarrow> group_list" where
  "sort_from gl i 0 = gl"
| "sort_from gl i (Suc k) = sort_from (sort_shift gl (gl ! i) i) (Suc i) k"

definition SortGroups :: "group_list \<Rightarrow> group_list" where
  "SortGroups gl = sort_from gl 1 (length gl - 1)"

record CgptPrioritizeParams =
  pz_drive_name :: string
  set_partition :: u32
  set_friends :: bool
  max_priority :: int
  orig_priority :: int

fun count_kernels :: "GptData \<Rightarrow> nat \<Rightarrow> nat \<Rightarrow> nat option" where
  "count_kernels g i 0 = Some 0"
| "count_kernels g i (Suc k) =
    do { r \<leftarrow> GetEntry g PRIMARY (of_nat i);
         n \<leftarrow> count_kernels g (Suc i) k;
         Some (if GuidEqual (etype (load_entry g r)) guid_chromeos_kernel then Suc n else n) }"

text \<open>The loop that determines the groups, with the original priority of the chosen partition.\<close>

fun collect_groups :: "GptData \<Rightarrow> CgptPrioritizeParams \<Rightarrow> nat \<Rightarrow> nat \<Rightarrow> int \<times> group_list \<Rightarrow> (int \<times> group_list) option" where
  "collect_groups g p i 0 st = Some st"
| "collect_groups g p i (Suc k) (orig, gl) =
    do { r \<leftarrow> GetEntry g PRIMARY (of_nat i);
         if \<not> GuidEqual (etype (load_entry g r)) guid_chromeos_kernel then collect_groups g p (Suc i) k (orig, gl)
         else do { prio \<leftarrow> GetPriority g PRIMARY (of_nat i);
                   if set_partition p \<noteq> 0 \<and> of_nat i + 1 = set_partition p then
                     do { gl \<leftarrow> AddToGroup gl (if set_friends p then of_nat prio else 99) i 0;
                          collect_groups g p (Suc i) k (int prio, gl) }
                   else do { gl \<leftarrow> AddToGroup gl (of_nat prio) i 0;
                             collect_groups g p (Suc i) k (orig, gl) } } }"

fun renumber :: "int \<Rightarrow> group_list \<Rightarrow> group_list" where
  "renumber prio [] = []"
| "renumber prio (g # gl) = g\<lparr>gpriority := word_of_int prio\<rparr> # renumber (if prio > 1 then prio - 1 else prio) gl"

fun set_parts :: "u32 \<Rightarrow> nat list \<Rightarrow> GptData \<Rightarrow> GptData option" where
  "set_parts prio [] g = Some g"
| "set_parts prio (i # is) g = do { g \<leftarrow> SetPriority g PRIMARY (of_nat i) prio; set_parts prio is g }"

fun apply_groups :: "group_list \<Rightarrow> GptData \<Rightarrow> GptData option" where
  "apply_groups [] g = Some g"
| "apply_groups (x # gl) g = do { g \<leftarrow> set_parts (gpriority x) (gparts x) g; apply_groups gl g }"

definition rank_groups :: "CgptPrioritizeParams \<Rightarrow> int \<times> group_list \<Rightarrow> group_list" where
  "rank_groups p st =
    (let (orig, gl) = st;
         gl = (if set_partition p \<noteq> 0 \<and> set_friends p then ChangeGroup gl (word_of_int orig) 99 else gl);
         gl = SortGroups gl;
         gl = (if gpriority (last gl) = 0 then butlast gl else gl);
         prio = (if max_priority p \<noteq> 0 then max_priority p else if length gl > 15 then 15 else int (length gl))
     in renumber prio gl)"

definition kernel_checked :: "GptData \<Rightarrow> CgptPrioritizeParams \<Rightarrow> bool option" where
  "kernel_checked g p =
    (if set_partition p = 0 then Some True
     else if set_partition p < 1 \<or> set_partition p > GetNumberOfEntries g then Some False
     else do { r \<leftarrow> GetEntry g PRIMARY (set_partition p - 1);
               Some (GuidEqual (etype (load_entry g r)) guid_chromeos_kernel) })"

definition reprioritize :: "CgptPrioritizeParams \<Rightarrow> GptData \<Rightarrow> GptData option" where
  "reprioritize p g =
    (let max_part = unat (GetNumberOfEntries g) in
     do { num_kernels \<leftarrow> count_kernels g 0 max_part;
          if num_kernels = 0 then Some g
          else do { st \<leftarrow> collect_groups g p 0 max_part (orig_priority p, []);
                    apply_groups (rank_groups p st) g } })"

definition cgpt_prioritize :: "CgptPrioritizeParams option \<Rightarrow> fs \<Rightarrow> command_result" where
  "cgpt_prioritize params files =
    (case params of None \<Rightarrow> Some (CGPT_FAILED, files) | Some p \<Rightarrow>
     let path = pz_drive_name p in
     do { r \<leftarrow> DriveOpen files path True;
          case r of None \<Rightarrow> Some (CGPT_FAILED, files) | Some d \<Rightarrow>
          let (g, rv) = GptSanityCheck (gpt d); d = d\<lparr>gpt := g\<rparr> in
          if rv \<noteq> GPT_SUCCESS then Some (CGPT_FAILED, files)
          else do { good \<leftarrow> kernel_checked g p;
                    if \<not> good then close_failed path files d
                    else do { g \<leftarrow> reprioritize p g;
                              close_drive path files (d\<lparr>gpt := commit_primary g\<rparr>) True } } })"

subsection \<open>The sort\<close>

abbreviation prio_of :: "group_t \<Rightarrow> nat" where
  "prio_of g \<equiv> unat (gpriority g)"

abbreviation descending :: "group_list \<Rightarrow> bool" where
  "descending gl \<equiv> sorted_wrt (\<lambda>a b. prio_of b \<le> prio_of a) gl"

text \<open>Insertion into a descending list.\<close>

fun insort_group :: "group_t \<Rightarrow> group_list \<Rightarrow> group_list" where
  "insort_group x [] = [x]"
| "insort_group x (y # ys) = (if gpriority y < gpriority x then x # y # ys else y # insort_group x ys)"

lemma insort_group_snoc:
  assumes "descending (xs @ [y])"
  shows "insort_group x (xs @ [y]) = (if gpriority y < gpriority x then insort_group x xs @ [y] else xs @ [y, x])"
  using assms
proof (induction xs)
  case Nil
  then show ?case by simp
next
  case (Cons a xs)
  then have "prio_of y \<le> prio_of a" by simp
  with Cons show ?case by (auto simp: word_less_nat_alt)
qed

lemma sort_shift_insort:
  assumes "descending (take j gl)" "j < length gl"
  shows "sort_shift gl tmp j = insort_group tmp (take j gl) @ drop (Suc j) gl"
  using assms
proof (induction j arbitrary: gl)
  case 0
  then show ?case by (cases gl) auto
next
  case (Suc j)
  have t: "take (Suc j) gl = take j gl @ [gl ! j]" using Suc.prems(2) by (simp add: take_Suc_conv_app_nth)
  show ?case
  proof (cases "gpriority (gl ! j) < gpriority tmp")
    case True
    let ?gl = "gl[Suc j := gl ! j]"
    have "descending (take j ?gl)" using Suc.prems(1) t by (simp add: sorted_wrt_append)
    then have "sort_shift ?gl tmp j = insort_group tmp (take j ?gl) @ drop (Suc j) ?gl" using Suc.IH [of ?gl] Suc.prems(2) by simp
    moreover have "drop (Suc j) ?gl = gl ! j # drop (Suc (Suc j)) gl"
      using Suc.prems(2) Cons_nth_drop_Suc [of "Suc j" ?gl] by simp
    ultimately show ?thesis using True insort_group_snoc [of "take j gl" "gl ! j" tmp] Suc.prems(1) t by simp
  next
    case False
    then show ?thesis
      using insort_group_snoc [of "take j gl" "gl ! j" tmp] Suc.prems t by (simp add: upd_conv_take_nth_drop)
  qed
qed

lemma insort_group_sorted: "descending xs \<Longrightarrow> descending (insort_group x xs)"
proof (induction xs)
  case (Cons y ys)
  have "set (insort_group x ys) = insert x (set ys)" by (induction ys) auto
  with Cons show ?case by (auto simp: word_less_nat_alt)
qed simp

lemma mset_insort_group: "mset (insort_group x xs) = add_mset x (mset xs)"
  by (induction xs) auto

lemma length_insort_group: "length (insort_group x xs) = Suc (length xs)"
  by (induction xs) auto

lemma sort_from_correct:
  assumes "descending (take i gl)" "i + k = length gl"
  shows "descending (sort_from gl i k) \<and> mset (sort_from gl i k) = mset gl"
  using assms
proof (induction k arbitrary: gl i)
  case 0
  then show ?case by simp
next
  case (Suc k)
  let ?gl = "sort_shift gl (gl ! i) i"
  have eq: "?gl = insort_group (gl ! i) (take i gl) @ drop (Suc i) gl" using Suc.prems by (intro sort_shift_insort) auto
  have l: "length (insort_group (gl ! i) (take i gl)) = Suc i" using Suc.prems by (simp add: length_insort_group)
  then have "take (Suc i) ?gl = insort_group (gl ! i) (take i gl)" unfolding eq by simp
  then have "descending (take (Suc i) ?gl)" using insort_group_sorted [OF Suc.prems(1)] by simp
  moreover have "length ?gl = length gl" using Suc.prems unfolding eq by (simp add: length_insort_group)
  moreover have "mset ?gl = mset gl"
    using Suc.prems(2) id_take_nth_drop [of i gl] unfolding eq
    by (simp add: mset_insort_group) (metis append_take_drop_id add_mset_add_single mset_append mset.simps(2) union_mset_add_mset_right Cons_nth_drop_Suc less_add_Suc1)
  ultimately show ?case using Suc.IH [of "Suc i" ?gl] Suc.prems(2) by simp
qed

lemma SortGroups_correct: "descending (SortGroups gl) \<and> mset (SortGroups gl) = mset gl"
proof (cases gl)
  case Nil
  then show ?thesis by (simp add: SortGroups_def)
next
  case (Cons a gs)
  then show ?thesis using sort_from_correct [of 1 gl "length gs"] by (simp add: SortGroups_def)
qed

subsection \<open>The groups\<close>

text \<open>The group of effective priority \<open>q\<close> among the kernels \<open>ks\<close>.\<close>

definition group_for :: "(nat \<Rightarrow> nat) \<Rightarrow> nat list \<Rightarrow> u32 \<Rightarrow> group_t" where
  "group_for a ks q = \<lparr>gpriority = q, gparts = filter (\<lambda>i. of_nat (a i) = q) ks\<rparr>"

lemma gpriority_group_for [simp]: "gpriority (group_for a ks q) = q"
  by (simp add: group_for_def)

text \<open>A list of groups partitions the kernels by their effective priorities.\<close>

definition groups_ok :: "(nat \<Rightarrow> nat) \<Rightarrow> nat list \<Rightarrow> group_list \<Rightarrow> bool" where
  "groups_ok a ks gl \<longleftrightarrow> (\<exists>qs. gl = map (group_for a ks) qs \<and> distinct qs \<and> set qs = (\<lambda>i. of_nat (a i)) ` set ks)"

lemma AddToGroup_map:
  assumes "distinct qs" "p = of_nat (a i)" "p \<in> set qs \<or> n + length qs < 17" "p \<in> set qs \<or> p \<notin> (\<lambda>i. of_nat (a i)) ` set ks"
  shows "AddToGroup (map (group_for a ks) qs) p i n = Some (map (group_for a (ks @ [i])) (if p \<in> set qs then qs else qs @ [p]))"
  using assms
proof (induction qs arbitrary: n)
  case Nil
  then have "p \<notin> (\<lambda>i. of_nat (a i)) ` set ks" by simp
  then have "\<forall>i \<in> set ks. of_nat (a i) \<noteq> p" unfolding image_iff by metis
  then have "filter (\<lambda>i. of_nat (a i) = p) ks = []" by (simp add: filter_empty_conv)
  with Nil show ?case by (simp add: MAX_GROUPS_def group_for_def)
next
  case (Cons q qs)
  have other: "group_for a (ks @ [i]) r = group_for a ks r" if "r \<noteq> p" for r using that Cons.prems(2) by (simp add: group_for_def)
  show ?case
  proof (cases "q = p")
    case True
    then have "map (group_for a (ks @ [i])) qs = map (group_for a ks) qs"
      using Cons.prems(1) by (intro map_cong refl other) auto
    with True show ?thesis using Cons.prems(2) by (simp add: group_for_def)
  next
    case False
    then have "AddToGroup (map (group_for a ks) qs) p i (Suc n) =
        Some (map (group_for a (ks @ [i])) (if p \<in> set qs then qs else qs @ [p]))"
      using Cons.prems by (intro Cons.IH) auto
    with False show ?thesis using other [of q] by auto
  qed
qed

abbreviation levels :: "nat set" where
  "levels \<equiv> insert 99 {0..15}"

lemma levels_card: "card ((of_nat :: nat \<Rightarrow> u32) ` levels) \<le> 17"
proof -
  have "card ((of_nat :: nat \<Rightarrow> u32) ` levels) \<le> card levels" by (rule card_image_le) simp
  also have "card levels = 17" by simp
  finally show ?thesis .
qed

lemma AddToGroup_ok:
  assumes "groups_ok a ks gl" "a ` set ks \<subseteq> levels" "a i \<in> levels"
  shows "\<exists>gl'. AddToGroup gl (of_nat (a i)) i 0 = Some gl' \<and> groups_ok a (ks @ [i]) gl'"
proof -
  obtain qs where qs: "gl = map (group_for a ks) qs" "distinct qs" "set qs = (\<lambda>i. of_nat (a i)) ` set ks"
    using assms(1) by (auto simp: groups_ok_def)
  let ?p = "of_nat (a i) :: u32"
  have room: "?p \<in> set qs \<or> 0 + length qs < 17"
  proof (rule disjCI)
    assume "\<not> 0 + length qs < 17"
    moreover have sub: "set qs \<subseteq> of_nat ` levels" using qs(3) assms(2) by auto
    moreover have "length qs = card (set qs)" using qs(2) by (simp add: distinct_card)
    moreover have "card (set qs) \<le> card ((of_nat :: nat \<Rightarrow> u32) ` levels)" by (rule card_mono [OF _ sub]) simp
    ultimately have "card (set qs) = card ((of_nat :: nat \<Rightarrow> u32) ` levels)" using levels_card by linarith
    then have "set qs = of_nat ` levels" using card_subset_eq [OF _ sub] by blast
    then show "?p \<in> set qs" using imageI [OF assms(3), of "of_nat :: nat \<Rightarrow> u32"] by simp
  qed
  have "AddToGroup gl ?p i 0 = Some (map (group_for a (ks @ [i])) (if ?p \<in> set qs then qs else qs @ [?p]))"
    unfolding qs(1) by (rule AddToGroup_map) (use qs room in auto)
  moreover have "groups_ok a (ks @ [i]) (map (group_for a (ks @ [i])) (if ?p \<in> set qs then qs else qs @ [?p]))"
    unfolding groups_ok_def by (rule exI [of _ "if ?p \<in> set qs then qs else qs @ [?p]"]) (use qs in auto)
  ultimately show ?thesis by blast
qed

lemma of_nat_levels: "x \<in> levels \<Longrightarrow> y \<in> levels \<Longrightarrow> (of_nat x :: u32) = of_nat y \<longleftrightarrow> x = y"
proof -
  assume "x \<in> levels" "y \<in> levels"
  then have "unat (of_nat x :: u32) = x" "unat (of_nat y :: u32) = y" by (auto simp: unat_of_nat take_bit_nat_eq_self)
  then show "(of_nat x :: u32) = of_nat y \<longleftrightarrow> x = y" by metis
qed

lemma ChangeGroup_ok:
  assumes "groups_ok a ks gl" "a ` set ks \<subseteq> {0..15}" "v \<in> a ` set ks"
  shows "groups_ok (\<lambda>i. if a i = v then 99 else a i) ks (ChangeGroup gl (of_nat v) 99)"
proof -
  obtain qs where qs: "gl = map (group_for a ks) qs" "distinct qs" "set qs = (\<lambda>i. of_nat (a i)) ` set ks"
    using assms(1) by (auto simp: groups_ok_def)
  let ?a = "\<lambda>i. if a i = v then 99 else a i"
  have v: "v \<le> 15" using assms(2,3) by auto
  have inj: "(of_nat (a i) :: u32) = of_nat v \<longleftrightarrow> a i = v" "(of_nat (a i) :: u32) \<noteq> 99" if "i \<in> set ks" for i
  proof -
    have ai: "a i \<in> levels" "a i \<noteq> 99" using assms(2) that by auto
    show "(of_nat (a i) :: u32) = of_nat v \<longleftrightarrow> a i = v" using of_nat_levels [OF ai(1), of v] v by simp
    show "(of_nat (a i) :: u32) \<noteq> 99" using of_nat_levels [OF ai(1), of 99] ai(2) by simp
  qed
  have g: "group_for ?a ks (of_nat (a i)) = group_for a ks (of_nat (a i))" if "a i \<noteq> v" "i \<in> set ks" for i
  proof -
    have "(of_nat (?a j) :: u32) = of_nat (a i) \<longleftrightarrow> (of_nat (a j) :: u32) = of_nat (a i)" if "j \<in> set ks" for j
      using inj(1) [of i] inj(2) [of i] \<open>a i \<noteq> v\<close> \<open>i \<in> set ks\<close> by (cases "a j = v") auto
    then have "filter (\<lambda>j. (of_nat (?a j) :: u32) = of_nat (a i)) ks = filter (\<lambda>j. (of_nat (a j) :: u32) = of_nat (a i)) ks"
      by (rule filter_cong [OF refl])
    then show ?thesis unfolding group_for_def by (rule arg_cong)
  qed
  have g99: "(group_for a ks (of_nat v))\<lparr>gpriority := 99\<rparr> = group_for ?a ks 99"
  proof -
    have "(of_nat (a j) :: u32) = of_nat v \<longleftrightarrow> (of_nat (?a j) :: u32) = 99" if "j \<in> set ks" for j
      using inj(1,2) [OF that] by (cases "a j = v") auto
    then have "filter (\<lambda>j. (of_nat (a j) :: u32) = of_nat v) ks = filter (\<lambda>j. (of_nat (?a j) :: u32) = 99) ks"
      by (rule filter_cong [OF refl])
    then show ?thesis unfolding group_for_def group_t.simps by (rule arg_cong)
  qed
  have ch: "ChangeGroup (map (group_for a ks) rs) (of_nat v) 99 = map (group_for ?a ks) (map (\<lambda>q. if q = of_nat v then 99 else q) rs)"
    if "distinct rs" "set rs \<subseteq> set qs" for rs
    using that
  proof (induction rs)
    case (Cons q rs)
    obtain i where i: "i \<in> set ks" "q = of_nat (a i)" using Cons.prems(2) qs(3) by auto
    have rest: "map (group_for a ks) rs = map (group_for ?a ks) (map (\<lambda>q. if q = of_nat v then 99 else q) rs)" if "q = of_nat v"
    proof -
      have "group_for a ks r = group_for ?a ks (if r = of_nat v then 99 else r)" if "r \<in> set rs" for r
      proof -
        have "r \<in> (\<lambda>i. of_nat (a i)) ` set ks" using that Cons.prems(2) unfolding qs(3) [symmetric] by auto
        then obtain j where j: "j \<in> set ks" "r = of_nat (a j)" by blast
        have "r \<noteq> of_nat v" using that Cons.prems(1) \<open>q = of_nat v\<close> by auto
        with j have "a j \<noteq> v" by auto
        with j \<open>r \<noteq> of_nat v\<close> show ?thesis using g [of j] by simp
      qed
      then show ?thesis by simp
    qed
    show ?case using Cons i g [of i] g99 rest inj(1) [OF i(1)] by auto
  qed simp
  have "distinct (map (\<lambda>q. if q = of_nat v then 99 else q) qs)"
    using qs(2,3) inj(2) by (auto simp: distinct_map inj_on_def)
  moreover have "set (map (\<lambda>q. if q = of_nat v then 99 else q) qs) = (\<lambda>i. of_nat (?a i)) ` set ks"
    unfolding set_map qs(3) image_image by (rule image_cong [OF refl]) (use inj(1) in auto)
  ultimately show ?thesis unfolding groups_ok_def qs(1) using ch [OF qs(2)] by blast
qed

subsection \<open>Collecting\<close>

abbreviation is_kernel :: "GptEntry \<Rightarrow> bool" where
  "is_kernel e \<equiv> GuidEqual (etype e) guid_chromeos_kernel"

abbreviation chosen :: "CgptPrioritizeParams \<Rightarrow> nat \<Rightarrow> bool" where
  "chosen p i \<equiv> set_partition p \<noteq> 0 \<and> of_nat i + 1 = set_partition p"

text \<open>The priority a kernel is grouped by: 99 for the chosen one, or for its whole group.\<close>

definition first_level :: "CgptPrioritizeParams \<Rightarrow> GptEntry list \<Rightarrow> nat \<Rightarrow> nat" where
  "first_level p es i = (if chosen p i \<and> \<not> set_friends p then 99 else GetEntryPriority (es ! i))"

definition level :: "CgptPrioritizeParams \<Rightarrow> GptEntry list \<Rightarrow> nat \<Rightarrow> nat" where
  "level p es i =
    (if set_partition p \<noteq> 0 \<and> (if set_friends p then GetEntryPriority (es ! i) = GetEntryPriority (es ! (unat (set_partition p) - 1))
        else chosen p i)
     then 99 else GetEntryPriority (es ! i))"

definition kernels :: "GptEntry list \<Rightarrow> nat list" where
  "kernels es = filter (\<lambda>i. is_kernel (es ! i)) [0..<128]"

lemma priority_bound: "GetEntryPriority e \<le> 15"
proof -
  have "unat (w AND 15 :: u64) \<le> 15" for w using word_and_le1 [of w 15] by (simp add: word_le_nat_alt)
  then show ?thesis by (simp add: GetEntryPriority_def attr_get_def)
qed

lemma first_level_range: "first_level p es i \<in> levels"
  using priority_bound [of "es ! i"] by (simp add: first_level_def)

lemma collect_groups_ok:
  assumes "gpt_ok g" "i + k = 128" "groups_ok (first_level p es) (filter (\<lambda>j. is_kernel (es ! j)) [0..<i]) gl"
    and es: "es = entries_of 128 (primary_entries g)"
    and "\<forall>j < i. chosen p j \<and> is_kernel (es ! j) \<longrightarrow> orig = int (GetEntryPriority (es ! j))"
  shows "\<exists>orig' gl'. collect_groups (marked g) p i k (orig, gl) = Some (orig', gl') \<and>
    groups_ok (first_level p es) (kernels es) gl' \<and>
    (\<forall>j < 128. chosen p j \<and> is_kernel (es ! j) \<longrightarrow> orig' = int (GetEntryPriority (es ! j)))"
  using assms(2,3,5)
proof (induction k arbitrary: i gl orig)
  case 0
  then show ?case by (simp add: kernels_def)
next
  case (Suc k)
  have i: "i < 128" using Suc.prems(1) by simp
  note e = valid_gpt_entries(3,4) [OF assms(1) i, folded es]
  have gp: "GetPriority (marked g) PRIMARY (of_nat i) = Some (GetEntryPriority (es ! i))" using e by (simp add: GetPriority_def)
  let ?ks = "filter (\<lambda>j. is_kernel (es ! j)) [0..<i]"
  show ?case
  proof (cases "is_kernel (es ! i)")
    case False
    have "\<exists>orig' gl'. collect_groups (marked g) p (Suc i) k (orig, gl) = Some (orig', gl') \<and>
        groups_ok (first_level p es) (kernels es) gl' \<and>
        (\<forall>j < 128. chosen p j \<and> is_kernel (es ! j) \<longrightarrow> orig' = int (GetEntryPriority (es ! j)))"
      by (rule Suc.IH) (use Suc.prems False in \<open>auto simp: less_Suc_eq\<close>)
    with False e show ?thesis by simp
  next
    case True
    obtain gl1 where gl1: "AddToGroup gl (of_nat (first_level p es i)) i 0 = Some gl1" "groups_ok (first_level p es) (?ks @ [i]) gl1"
      using AddToGroup_ok [OF Suc.prems(2), of i] first_level_range by blast
    let ?orig = "if chosen p i then int (GetEntryPriority (es ! i)) else orig"
    have other: "\<not> chosen p j" if "chosen p i" "j < i" for j
    proof
      assume "chosen p j"
      then have "(of_nat i :: u32) = of_nat j" using that by (metis add_right_cancel)
      moreover have "unat (of_nat i :: u32) = i" "unat (of_nat j :: u32) = j"
        using i that by (simp_all add: unat_of_nat take_bit_nat_eq_self)
      ultimately show False using that by simp
    qed
    have "\<exists>orig' gl'. collect_groups (marked g) p (Suc i) k (?orig, gl1) = Some (orig', gl') \<and>
        groups_ok (first_level p es) (kernels es) gl' \<and>
        (\<forall>j < 128. chosen p j \<and> is_kernel (es ! j) \<longrightarrow> orig' = int (GetEntryPriority (es ! j)))"
      by (rule Suc.IH) (use Suc.prems True gl1 other in \<open>auto simp: less_Suc_eq\<close>)
    moreover have "collect_groups (marked g) p i (Suc k) (orig, gl) = collect_groups (marked g) p (Suc i) k (?orig, gl1)"
    proof (cases "chosen p i")
      case yes: True
      then have "AddToGroup gl (if set_friends p then of_nat (GetEntryPriority (es ! i)) else 99) i 0 = Some gl1"
        using gl1(1) by (simp add: first_level_def split: if_splits)
      with yes True e gp show ?thesis by simp
    next
      case False
      then have "AddToGroup gl (of_nat (GetEntryPriority (es ! i))) i 0 = Some gl1"
        using gl1(1) by (simp add: first_level_def split: if_splits)
      with False True e gp show ?thesis by auto
    qed
    ultimately show ?thesis by (simp only:)
  qed
qed

subsection \<open>Ranking\<close>

lemma sorted_groups:
  assumes "groups_ok a ks gl"
  shows "\<exists>qs. SortGroups gl = map (group_for a ks) qs \<and> set qs = (\<lambda>i. of_nat (a i)) ` set ks \<and>
    sorted_wrt (\<lambda>x y. unat y < unat x) qs"
proof -
  obtain qs0 where qs0: "gl = map (group_for a ks) qs0" "distinct qs0" "set qs0 = (\<lambda>i. of_nat (a i)) ` set ks"
    using assms by (auto simp: groups_ok_def)
  define qs where "qs = map gpriority (SortGroups gl)"
  have m: "mset (SortGroups gl) = mset gl" and d: "descending (SortGroups gl)" using SortGroups_correct [of gl] by auto
  have "mset qs = mset qs0" unfolding qs_def mset_map m by (simp add: qs0(1) comp_def flip: mset_map)
  then have qs: "distinct qs" "set qs = set qs0" using qs0(2) by (metis mset_eq_imp_distinct_iff, metis mset_eq_setD)
  have "g = group_for a ks (gpriority g)" if "g \<in> set (SortGroups gl)" for g
    using that mset_eq_setD [OF m] qs0(1) by auto
  then have "SortGroups gl = map (group_for a ks) qs" unfolding qs_def by (simp add: map_idI)
  moreover have "sorted_wrt (\<lambda>x y. unat y < unat x) qs"
  proof -
    have "sorted_wrt (\<lambda>x y. unat y \<le> unat x) qs" using d by (simp add: qs_def sorted_wrt_map)
    then show ?thesis using qs(1)
      by (induction qs) (auto simp: order_less_le, metis word_unat_eq_iff)
  qed
  ultimately show ?thesis using qs(2) qs0(3) by blast
qed

lemma drop_zero_group:
  assumes "sorted_wrt (\<lambda>x y. unat y < unat x) qs" "qs \<noteq> []"
  shows "(if last qs = 0 then butlast qs else qs) = filter (\<lambda>q. q \<noteq> (0 :: u32)) qs"
proof -
  obtain xs x where q: "qs = xs @ [x]" using assms(2) by (cases qs rule: rev_cases) auto
  then have "\<forall>y \<in> set xs. unat x < unat y" using assms(1) by (simp add: sorted_wrt_append)
  then have "\<forall>y \<in> set xs. y \<noteq> 0" by auto
  then have "filter (\<lambda>q. q \<noteq> 0) xs = xs" by (simp add: filter_id_conv)
  then show ?thesis using q by simp
qed

fun assign :: "group_list \<Rightarrow> nat \<Rightarrow> u32 option" where
  "assign [] i = None"
| "assign (g # gl) i = (if i \<in> set (gparts g) then Some (gpriority g) else assign gl i)"

lemma gparts_group_for [simp]: "i \<in> set (gparts (group_for a ks q)) \<longleftrightarrow> i \<in> set ks \<and> of_nat (a i) = q"
  by (auto simp: group_for_def)

lemma assign_renumber:
  assumes "distinct qs" "i \<in> set ks" "k < length qs" "of_nat (a i) = qs ! k" "1 \<le> start"
  shows "assign (renumber start (map (group_for a ks) qs)) i = Some (word_of_int (max 1 (start - int k)))"
  using assms
proof (induction qs arbitrary: k start)
  case (Cons q qs)
  show ?case
  proof (cases k)
    case 0
    then show ?thesis using Cons.prems by simp
  next
    case (Suc k')
    then have "q \<noteq> of_nat (a i)" using Cons.prems(1,3,4) by (auto simp: in_set_conv_nth)
    moreover have "assign (renumber (if 1 < start then start - 1 else start) (map (group_for a ks) qs)) i =
        Some (word_of_int (max 1 ((if 1 < start then start - 1 else start) - int k')))"
      by (rule Cons.IH) (use Cons.prems Suc in auto)
    moreover have "max 1 ((if 1 < start then start - 1 else start) - int k') = max 1 (start - int k)"
      using Cons.prems(5) Suc by auto
    ultimately show ?thesis by auto
  qed
qed simp

lemma assign_none:
  assumes "i \<notin> set ks \<or> of_nat (a i) \<notin> set qs"
  shows "assign (renumber start (map (group_for a ks) qs)) i = None"
  using assms by (induction qs arbitrary: start) auto

lemma greater_count:
  assumes "sorted_wrt (\<lambda>x y. (f y :: nat) < f x) qs" "k < length qs"
  shows "card {q \<in> set qs. f (qs ! k) < f q} = k"
proof -
  have d: "distinct qs" using assms(1) by (induction qs) auto
  have "{q \<in> set qs. f (qs ! k) < f q} = set (take k qs)"
  proof (intro set_eqI iffI)
    fix q assume "q \<in> {q \<in> set qs. f (qs ! k) < f q}"
    then obtain j where j: "j < length qs" "q = qs ! j" "f (qs ! k) < f (qs ! j)" by (auto simp: in_set_conv_nth)
    then have "j < k" using sorted_wrt_nth_less [OF assms(1), of k j] by (metis linorder_neqE_nat not_less_iff_gr_or_eq)
    then show "q \<in> set (take k qs)" using j by (auto simp: in_set_conv_nth)
  next
    fix q assume "q \<in> set (take k qs)"
    then obtain j where "j < k" "q = qs ! j" by (auto simp: in_set_conv_nth)
    then show "q \<in> {q \<in> set qs. f (qs ! k) < f q}" using assms sorted_wrt_nth_less [OF assms(1), of j k] by auto
  qed
  then show ?thesis using d assms(2) by (simp add: distinct_card)
qed

text \<open>The specification: the starting priority, the number of higher levels in use, and the new priority of
  a kernel.\<close>

definition start_priority :: "CgptPrioritizeParams \<Rightarrow> GptEntry list \<Rightarrow> int" where
  "start_priority p es = (if max_priority p \<noteq> 0 then max_priority p
     else int (min 15 (card (level p es ` set (kernels es) - {0}))))"

definition rank :: "CgptPrioritizeParams \<Rightarrow> GptEntry list \<Rightarrow> nat \<Rightarrow> nat" where
  "rank p es i = card {l \<in> level p es ` set (kernels es). level p es i < l}"

definition new_priority :: "CgptPrioritizeParams \<Rightarrow> GptEntry list \<Rightarrow> nat \<Rightarrow> int" where
  "new_priority p es i = max 1 (start_priority p es - int (rank p es i))"

definition kernel_request :: "CgptPrioritizeParams \<Rightarrow> GptEntry list \<Rightarrow> bool" where
  "kernel_request p es \<longleftrightarrow> set_partition p = 0 \<or>
     set_partition p \<le> 128 \<and> is_kernel (es ! (unat (set_partition p) - 1))"

lemma level_range: "level p es i \<in> levels"
  using priority_bound [of "es ! i"] by (simp add: level_def)

lemma unat_level: "unat (of_nat (level p es i) :: u32) = level p es i"
  using level_range [of p es i] by (auto simp: unat_of_nat take_bit_nat_eq_self)

lemma chosen_index:
  assumes "set_partition p \<noteq> 0" "set_partition p \<le> 128"
  shows "chosen p (unat (set_partition p) - 1)" "unat (set_partition p) - 1 < 128"
proof -
  have "0 < set_partition p" using assms(1) by (simp add: word_neq_0_conv)
  note pi = partition_index [OF this assms(2)]
  then show "unat (set_partition p) - 1 < 128" by blast
  show "chosen p (unat (set_partition p) - 1)" using assms(1) pi(2) by (metis diff_add_cancel)
qed

lemma changed_groups_ok:
  assumes gl: "groups_ok (first_level p es) (kernels es) gl" and r: "kernel_request p es"
    and orig: "\<forall>j < 128. chosen p j \<and> is_kernel (es ! j) \<longrightarrow> orig = int (GetEntryPriority (es ! j))"
  shows "groups_ok (level p es) (kernels es)
    (if set_partition p \<noteq> 0 \<and> set_friends p then ChangeGroup gl (word_of_int orig) 99 else gl)"
proof (cases "set_partition p \<noteq> 0 \<and> set_friends p")
  case True
  let ?c = "unat (set_partition p) - 1"
  have c: "chosen p ?c" "?c < 128" "is_kernel (es ! ?c)" using True r chosen_index [of p] by (auto simp: kernel_request_def)
  have fl: "first_level p es = (\<lambda>i. GetEntryPriority (es ! i))" using True by (auto simp: first_level_def)
  have o: "word_of_int orig = (of_nat (GetEntryPriority (es ! ?c)) :: u32)" using orig c by simp
  have "groups_ok (\<lambda>i. if GetEntryPriority (es ! i) = GetEntryPriority (es ! ?c) then 99 else GetEntryPriority (es ! i)) (kernels es)
      (ChangeGroup gl (of_nat (GetEntryPriority (es ! ?c))) 99)"
    by (rule ChangeGroup_ok [where a = "\<lambda>i. GetEntryPriority (es ! i)"])
      (use gl fl c priority_bound in \<open>auto simp: kernels_def\<close>)
  moreover have "(\<lambda>i. if GetEntryPriority (es ! i) = GetEntryPriority (es ! ?c) then 99 else GetEntryPriority (es ! i)) = level p es"
    using True by (auto simp: level_def)
  ultimately show ?thesis using True o by simp
next
  case False
  have "first_level p es = level p es" using False by (auto simp: first_level_def level_def)
  with False gl show ?thesis by auto
qed

lemma rank_groups_assign:
  assumes gl: "groups_ok (first_level p es) (kernels es) gl" and r: "kernel_request p es" and ks: "kernels es \<noteq> []"
    and orig: "\<forall>j < 128. chosen p j \<and> is_kernel (es ! j) \<longrightarrow> orig = int (GetEntryPriority (es ! j))" and mx: "0 \<le> max_priority p"
  shows "\<exists>qs. rank_groups p (orig, gl) = renumber (start_priority p es) (map (group_for (level p es) (kernels es)) qs) \<and>
    distinct qs \<and> (qs = [] \<or> 1 \<le> start_priority p es) \<and>
    (\<forall>i. assign (rank_groups p (orig, gl)) i = (if i \<in> set (kernels es) \<and> level p es i \<noteq> 0
      then Some (word_of_int (new_priority p es i)) else None))"
proof -
  let ?a = "level p es" and ?ks = "kernels es"
  obtain qs0 where qs0: "SortGroups (if set_partition p \<noteq> 0 \<and> set_friends p then ChangeGroup gl (word_of_int orig) 99 else gl) =
        map (group_for ?a ?ks) qs0" "set qs0 = (\<lambda>i. of_nat (?a i)) ` set ?ks" "sorted_wrt (\<lambda>x y. unat y < unat x) qs0"
    using sorted_groups [OF changed_groups_ok [OF gl r orig]] by blast
  have ne: "qs0 \<noteq> []" using qs0(2) ks by auto
  define qs where "qs = filter (\<lambda>q. q \<noteq> 0) qs0"
  have srt: "sorted_wrt (\<lambda>x y. unat y < unat x) qs" unfolding qs_def using qs0(3) by (rule sorted_wrt_filter)
  have d: "distinct qs" using srt by (induction qs) auto
  have nz: "(of_nat (?a i) :: u32) = 0 \<longleftrightarrow> ?a i = 0" for i
  proof
    assume "(of_nat (?a i) :: u32) = 0"
    then have "unat (of_nat (?a i) :: u32) = 0" by simp
    then show "?a i = 0" by (simp only: unat_level)
  qed simp
  have set_qs: "set qs = of_nat ` (?a ` set ?ks - {0})" unfolding qs_def using qs0(2) nz by auto
  have inj: "inj_on (of_nat :: nat \<Rightarrow> u32) (?a ` set ?ks)" using unat_level by (intro inj_on_inverseI [where g = unat]) auto
  have len: "length qs = card (?a ` set ?ks - {0})"
    using distinct_card [OF d] set_qs card_image [OF inj_on_subset [OF inj Diff_subset]] by metis
  let ?start = "start_priority p es"
  have "(if gpriority (last (map (group_for ?a ?ks) qs0)) = 0 then butlast (map (group_for ?a ?ks) qs0) else map (group_for ?a ?ks) qs0) =
      map (group_for ?a ?ks) qs"
    using drop_zero_group [OF qs0(3) ne] ne unfolding qs_def by (simp add: last_map flip: map_butlast split: if_splits)
  moreover have cap: "(if 15 < c then 15 else int c) = int (min 15 c)" for c :: nat by simp
  ultimately have rg: "rank_groups p (orig, gl) = renumber ?start (map (group_for ?a ?ks) qs)"
    using cap unfolding rank_groups_def Let_def prod.case qs0(1) by (simp add: start_priority_def len)
  have start: "1 \<le> ?start" if "qs \<noteq> []"
  proof (cases "max_priority p = 0")
    case True
    moreover have "0 < length qs" using that by simp
    ultimately show ?thesis unfolding len by (simp add: start_priority_def)
  qed (use mx in \<open>simp add: start_priority_def\<close>)
  have "assign (renumber ?start (map (group_for ?a ?ks) qs)) i = (if i \<in> set ?ks \<and> ?a i \<noteq> 0 then Some (word_of_int (new_priority p es i)) else None)" for i
  proof (cases "i \<in> set ?ks \<and> ?a i \<noteq> 0")
    case True
    then have "of_nat (?a i) \<in> set qs" using set_qs by auto
    then obtain k where k: "k < length qs" "of_nat (?a i) = qs ! k" by (metis in_set_conv_nth)
    have "{q \<in> set qs. unat (qs ! k) < unat q} = of_nat ` {l \<in> ?a ` set ?ks. ?a i < l}"
      unfolding set_qs k(2) [symmetric] unat_level using unat_level by auto
    moreover have "card (of_nat ` {l \<in> ?a ` set ?ks. ?a i < l} :: u32 set) = rank p es i"
      unfolding rank_def by (rule card_image) (rule inj_on_subset [OF inj], auto)
    ultimately have "k = rank p es i" using greater_count [OF srt k(1)] by simp
    moreover have "1 \<le> ?start" using start k(1) by fastforce
    ultimately show ?thesis using assign_renumber [OF d _ k(1), of i ?ks ?a ?start] True k(2) by (simp add: new_priority_def)
  next
    case False
    then have "i \<notin> set ?ks \<or> of_nat (?a i) \<notin> set qs" using nz by (auto simp: qs_def)
    then show ?thesis using assign_none False by auto
  qed
  then show ?thesis using rg d start by (intro exI [of _ qs]) auto
qed

subsection \<open>Applying the ranking\<close>

text \<open>The state \<open>g\<close> is \<open>g0\<close> with the table replaced by the entries \<open>es\<close>.\<close>

definition has_table :: "GptData \<Rightarrow> GptEntry list \<Rightarrow> GptData \<Rightarrow> bool" where
  "has_table g0 es g \<longleftrightarrow> g = g0\<lparr>primary_entries := primary_entries g\<rparr> \<and> length (primary_entries g) = 16384 \<and>
     entries_of 128 (primary_entries g) = es"

lemma GetEntry_entries [simp]: "GetEntry (g\<lparr>primary_entries := b\<rparr>) w k = GetEntry g w k"
  by (simp add: GetEntry_def GetSizeOfEntries_def GetNumberOfEntries_def Let_def)

lemma scast_small: "(v :: u32) \<le> 15 \<Longrightarrow> scast v AND 15 = (ucast v :: u64)"
proof -
  assume v: "v \<le> 15"
  have m: "(15 :: u64) = mask 4" "(15 :: u32) = mask 4" by (simp_all add: mask_eq_exp_minus_1)
  have "unat v < 2 ^ 4" using v by (simp add: word_le_nat_alt)
  then have "v = take_bit 4 v" by (simp only: word_unat_eq_iff unsigned_take_bit_eq take_bit_nat_eq_self)
  then have "\<And>j. bit v j \<Longrightarrow> j < 4" by (metis bit_take_bit_iff)
  then show "scast v AND 15 = (ucast v :: u64)"
    unfolding m by (intro bit_word_eqI) (force simp: bit_and_iff bit_mask_iff bit_ucast_iff bit_signed_iff min_def dest: bit_imp_le_length)
qed

lemma SetPriority_table:
  assumes g0: "\<And>j. j < 128 \<Longrightarrow> GetEntry g0 PRIMARY (of_nat j) = Some (False, 128 * j)"
    and t: "has_table g0 es g" and i: "i < 128" and v: "v \<le> 15"
  shows "\<exists>g'. SetPriority g PRIMARY (of_nat i) v = Some g' \<and> has_table g0 (es[i := SetEntryPriority (es ! i) v]) g'"
proof -
  have g: "g = g0\<lparr>primary_entries := primary_entries g\<rparr>" "length (primary_entries g) = 16384" "entries_of 128 (primary_entries g) = es"
    using t by (auto simp: has_table_def)
  have ge: "GetEntry g PRIMARY (of_nat i) = Some (False, 128 * i)" using g0 [OF i] by (subst g(1)) simp
  have e: "load_entry g (False, 128 * i) = es ! i" "entry_wf (es ! i)"
    using i g(2) by (simp_all add: load_entry_def entry_wf_at flip: g(3))
  have "attr_or (ucast (push_bit 0 v)) (attr_clear CGPT_ATTRIBUTE_PRIORITY_MASK (es ! i)) = SetEntryPriority (es ! i) v"
    using scast_small [OF v] by (simp add: SetEntryPriority_def)
  then have sp: "SetPriority g PRIMARY (of_nat i) v = Some (store_entry g (False, 128 * i) (SetEntryPriority (es ! i) v))"
    using ge e(1) ucast_le_small(2) [OF v] by (simp add: SetPriority_def set_attr_def)
  have wf: "entry_wf (SetEntryPriority (es ! i) v)" using e(2) by (simp add: SetEntryPriority_def)
  have "has_table g0 (es[i := SetEntryPriority (es ! i) v]) (store_entry g (False, 128 * i) (SetEntryPriority (es ! i) v))"
  proof -
    obtain b where "g = g0\<lparr>primary_entries := b\<rparr>" using g(1) by blast
    then show ?thesis using g(2,3) i wf by (simp add: has_table_def store_entry_def entries_of_put_entry)
  qed
  then show ?thesis using sp by blast
qed

definition set_all :: "u32 \<Rightarrow> nat set \<Rightarrow> GptEntry list \<Rightarrow> GptEntry list" where
  "set_all v is es = map (\<lambda>i. if i \<in> is then SetEntryPriority (es ! i) v else es ! i) [0..<128]"

lemma set_parts_table:
  assumes g0: "\<And>j. j < 128 \<Longrightarrow> GetEntry g0 PRIMARY (of_nat j) = Some (False, 128 * j)" and v: "v \<le> 15"
    and "has_table g0 es g" "length es = 128" "distinct is" "set is \<subseteq> {..<128}"
  shows "\<exists>g'. set_parts v is g = Some g' \<and> has_table g0 (set_all v (set is) es) g'"
  using assms(3-6)
proof (induction "is" arbitrary: g es)
  case Nil
  then have "set_all v {} es = es" by (simp add: set_all_def) (metis map_nth)
  with Nil show ?case by simp
next
  case (Cons i "is")
  obtain g1 where g1: "SetPriority g PRIMARY (of_nat i) v = Some g1" "has_table g0 (es[i := SetEntryPriority (es ! i) v]) g1"
    using SetPriority_table [OF g0 Cons.prems(1) _ v, of i] Cons.prems(4) by auto
  obtain g2 where g2: "set_parts v is g1 = Some g2" "has_table g0 (set_all v (set is) (es[i := SetEntryPriority (es ! i) v])) g2"
    using Cons.IH [OF g1(2)] Cons.prems by auto
  have "set_all v (set is) (es[i := SetEntryPriority (es ! i) v]) = set_all v (set (i # is)) es"
    unfolding set_all_def using Cons.prems(2-4) by (intro map_cong refl) (auto simp: nth_list_update)
  then show ?case using g1 g2 by auto
qed

definition assigned :: "group_list \<Rightarrow> GptEntry list \<Rightarrow> GptEntry list" where
  "assigned gl es = map (\<lambda>i. case assign gl i of None \<Rightarrow> es ! i | Some v \<Rightarrow> SetEntryPriority (es ! i) v) [0..<128]"

lemma apply_groups_table:
  assumes g0: "\<And>j. j < 128 \<Longrightarrow> GetEntry g0 PRIMARY (of_nat j) = Some (False, 128 * j)"
    and "has_table g0 es g" "length es = 128"
    and "\<forall>x \<in> set gl. gpriority x \<le> 15 \<and> distinct (gparts x) \<and> set (gparts x) \<subseteq> {..<128}"
    and "sorted_wrt (\<lambda>x y. set (gparts x) \<inter> set (gparts y) = {}) gl"
  shows "\<exists>g'. apply_groups gl g = Some g' \<and> has_table g0 (assigned gl es) g'"
  using assms(2-5)
proof (induction gl arbitrary: g es)
  case Nil
  then have "assigned [] es = es" by (simp add: assigned_def) (metis map_nth)
  with Nil show ?case by simp
next
  case (Cons x gl)
  obtain g1 where g1: "set_parts (gpriority x) (gparts x) g = Some g1" "has_table g0 (set_all (gpriority x) (set (gparts x)) es) g1"
    using set_parts_table [OF g0 _ Cons.prems(1,2), of "gpriority x" "gparts x"] Cons.prems(3) by auto
  obtain g2 where g2: "apply_groups gl g1 = Some g2" "has_table g0 (assigned gl (set_all (gpriority x) (set (gparts x)) es)) g2"
    using Cons.IH [OF g1(2)] Cons.prems by (auto simp: set_all_def)
  have no: "assign gl i = None" if "i \<in> set (gparts x)" for i
  proof -
    have "\<forall>y \<in> set gl. i \<notin> set (gparts y)" using Cons.prems(4) that by auto
    then show ?thesis by (induction gl) auto
  qed
  have "assigned gl (set_all (gpriority x) (set (gparts x)) es) = assigned (x # gl) es"
    unfolding assigned_def set_all_def using no by (intro map_cong refl) (auto split: option.splits)
  then show ?case using g1 g2 by auto
qed

subsection \<open>The command\<close>

definition prioritized :: "CgptPrioritizeParams \<Rightarrow> GptEntry list \<Rightarrow> GptEntry list" where
  "prioritized p es = map (\<lambda>i. if is_kernel (es ! i) \<and> level p es i \<noteq> 0
     then SetEntryPriority (es ! i) (word_of_int (new_priority p es i)) else es ! i) [0..<128]"

lemma new_priority_bounds:
  assumes "0 \<le> max_priority p" "max_priority p \<le> 15"
  shows "1 \<le> new_priority p es i" "new_priority p es i \<le> 15"
  using assms by (auto simp: new_priority_def start_priority_def)

lemma renumber_parts: "map gparts (renumber start gl) = map gparts gl"
  by (induction gl arbitrary: start) auto

lemma renumber_range:
  assumes "1 \<le> start" "start \<le> 15" "x \<in> set (renumber start gl)"
  shows "gpriority x \<le> 15"
  using assms
proof (induction gl arbitrary: start)
  case (Cons g gl)
  have w: "(word_of_int start :: u32) \<le> 15" if "1 \<le> start" "start \<le> 15"
  proof -
    have "(word_of_int start :: u32) = of_nat (nat start)" using that by simp
    moreover have "unat (of_nat (nat start) :: u32) = nat start" using that by (simp only: unat_of_nat) (simp add: take_bit_nat_eq_self)
    ultimately show ?thesis using that by (simp add: word_le_nat_alt)
  qed
  from Cons.prems(3) consider "x = g\<lparr>gpriority := word_of_int start\<rparr>"
    | "x \<in> set (renumber (if 1 < start then start - 1 else start) gl)" by auto
  then show ?case
  proof cases
    case 1
    then show ?thesis using w Cons.prems by simp
  next
    case 2
    then show ?thesis by (rule Cons.IH [rotated 2]) (use Cons.prems in auto)
  qed
qed simp

lemma count_kernels_eq:
  assumes "gpt_ok g" "i + k = 128"
  shows "count_kernels (marked g) i k = Some (length (filter is_kernel (drop i (entries_of 128 (primary_entries g)))))"
  using assms(2)
proof (induction k arbitrary: i)
  case 0
  then show ?case by simp
next
  case (Suc k)
  then have i: "i < 128" by simp
  have "drop i (entries_of 128 (primary_entries g)) =
      entries_of 128 (primary_entries g) ! i # drop (Suc i) (entries_of 128 (primary_entries g))"
    using i by (simp only: Cons_nth_drop_Suc length_entries_of)
  then show ?case using Suc.IH [of "Suc i"] Suc.prems valid_gpt_entries(3,4) [OF assms(1) i] by simp
qed

lemma kernels_empty: "length es = 128 \<Longrightarrow> kernels es = [] \<longleftrightarrow> filter is_kernel es = []"
  by (auto simp: kernels_def filter_empty_conv all_set_conv_all_nth)

lemma reprioritize_table:
  assumes ok: "gpt_ok g" "gpt_shape g" "sector_bytes g = 512" and r: "kernel_request p es" and mx: "0 \<le> max_priority p" "max_priority p \<le> 15"
    and es: "es = entries_of 128 (primary_entries g)"
  shows "\<exists>g'. reprioritize p (marked g) = Some g' \<and> has_table (marked g) (prioritized p es) g'"
proof -
  have len: "length es = 128" "length (primary_entries g) = 16384" using ok by (simp_all add: es gpt_shape_def)
  have t0: "has_table (marked g) es (marked g)" using len by (simp add: has_table_def es)
  have ck: "count_kernels (marked g) 0 128 = Some (length (filter is_kernel es))" using count_kernels_eq [OF ok(1), of 0 128] by (simp add: es)
  show ?thesis
  proof (cases "kernels es = []")
    case True
    then have "\<not> is_kernel (es ! i)" if "i < 128" for i using that by (auto simp: kernels_def filter_empty_conv)
    then have "prioritized p es = map (\<lambda>i. es ! i) [0..<128]" unfolding prioritized_def by (intro map_cong) auto
    also have "\<dots> = es" using len(1) by (metis map_nth)
    finally show ?thesis
      using t0 ck kernels_empty [OF len(1)] True valid_gpt_entries(1) [OF ok(1)] by (simp add: reprioritize_def)
  next
    case False
    have g0: "groups_ok (first_level p es) (filter (\<lambda>j. is_kernel (es ! j)) [0..<0]) []" by (simp add: groups_ok_def)
    obtain orig gl where c: "collect_groups (marked g) p 0 128 (orig_priority p, []) = Some (orig, gl)"
        "groups_ok (first_level p es) (kernels es) gl"
        "\<forall>j < 128. chosen p j \<and> is_kernel (es ! j) \<longrightarrow> orig = int (GetEntryPriority (es ! j))"
      using collect_groups_ok [OF ok(1) _ g0 es, of 128 "orig_priority p"] by auto
    let ?rg = "rank_groups p (orig, gl)"
    obtain qs where qs: "?rg = renumber (start_priority p es) (map (group_for (level p es) (kernels es)) qs)" "distinct qs"
        "qs = [] \<or> 1 \<le> start_priority p es"
        "\<forall>i. assign ?rg i = (if i \<in> set (kernels es) \<and> level p es i \<noteq> 0 then Some (word_of_int (new_priority p es i)) else None)"
      using rank_groups_assign [OF c(2) r False c(3) mx(1)] by blast
    have parts: "map gparts ?rg = map (\<lambda>q. gparts (group_for (level p es) (kernels es) q)) qs"
      unfolding qs(1) renumber_parts by simp
    have "gpriority x \<le> 15" if "x \<in> set ?rg" for x
    proof -
      have "qs \<noteq> []" using that unfolding qs(1) by auto
      then show ?thesis using renumber_range that qs(1,3) mx by (auto simp: start_priority_def)
    qed
    moreover have "distinct (gparts x) \<and> set (gparts x) \<subseteq> {..<128}" if "x \<in> set ?rg" for x
    proof -
      have "gparts x \<in> set (map gparts ?rg)" using that by simp
      then show ?thesis unfolding parts by (auto simp: group_for_def kernels_def)
    qed
    moreover have "sorted_wrt (\<lambda>x y. set (gparts x) \<inter> set (gparts y) = {}) ?rg"
    proof -
      have "sorted_wrt (\<lambda>a b. set a \<inter> set b = {}) (map gparts ?rg)"
        unfolding parts sorted_wrt_map using qs(2) by (induction qs) auto
      then show ?thesis by (simp add: sorted_wrt_map)
    qed
    ultimately obtain g' where g': "apply_groups ?rg (marked g) = Some g'" "has_table (marked g) (assigned ?rg es) g'"
      using apply_groups_table [OF valid_gpt_entries(3) [OF ok(1)] t0 len(1), of ?rg] by blast
    have "assigned ?rg es = prioritized p es"
      unfolding assigned_def prioritized_def using qs(4) by (intro map_cong refl) (auto simp: kernels_def)
    moreover have "length (filter is_kernel es) \<noteq> 0" using False kernels_empty [OF len(1)] by simp
    ultimately show ?thesis
      using g' c(1) ck valid_gpt_entries(1) [OF ok(1)] by (simp add: reprioritize_def)
  qed
qed

lemma table_valid_fields:
  assumes "table_valid h es" "length es' = length es"
    "\<And>i. i < length es \<Longrightarrow> etype (es' ! i) = etype (es ! i) \<and> unique (es' ! i) = unique (es ! i) \<and>
       starting_lba (es' ! i) = starting_lba (es ! i) \<and> ending_lba (es' ! i) = ending_lba (es ! i)"
  shows "table_valid h es'"
proof -
  have same: "used_at es' j = used_at es j" "used_at es j \<Longrightarrow> in_region h (es' ! j) = in_region h (es ! j)"
    "used_at es j \<Longrightarrow> blocks (es' ! j) = blocks (es ! j)" "used_at es j \<Longrightarrow> unique (es' ! j) = unique (es ! j)" for j
    using assms(2) assms(3) [of j] by (auto simp: used_at_def IsUnusedEntry_def in_region_def blocks_def)
  show ?thesis using assms(1) unfolding table_valid_def by (metis same)
qed

lemma SetEntryPriority_fields [simp]:
  "etype (SetEntryPriority e v) = etype e" "unique (SetEntryPriority e v) = unique e"
  "starting_lba (SetEntryPriority e v) = starting_lba e" "ending_lba (SetEntryPriority e v) = ending_lba e"
  by (simp_all add: SetEntryPriority_def attr_or_def attr_clear_def)

lemma kernel_checked_ok:
  assumes "gpt_ok g" "kernel_request p (entries_of 128 (primary_entries g))"
  shows "kernel_checked (marked g) p = Some True"
proof (cases "set_partition p = 0")
  case True
  then show ?thesis by (simp add: kernel_checked_def)
next
  case False
  let ?c = "unat (set_partition p) - 1"
  have c: "set_partition p \<le> 128" "is_kernel (entries_of 128 (primary_entries g) ! ?c)" using assms(2) False by (auto simp: kernel_request_def)
  have pos: "0 < set_partition p" using False by (simp add: word_neq_0_conv)
  note pi = partition_index [OF pos c(1)]
  have "\<not> set_partition p < 1" using pos by (simp add: word_less_nat_alt unat_gt_0)
  then show ?thesis
    using False c pi valid_gpt_entries(1) [OF assms(1)] valid_gpt_entries(3,4) [OF assms(1) pi(1)] by (simp add: kernel_checked_def)
qed

text \<open>C6: \<open>cgpt_prioritize\<close> computes the ranking of the kernels. On a valid drive in the usual form, for a
  request that names no partition or a kernel and a highest priority of at most 15, it never aborts and
  succeeds; the table afterwards is the old one in which every kernel that takes part has the starting
  priority less the number of higher levels in use, but at least 1; kernels of priority 0, other partitions
  and all other attributes keep their values. The level of a kernel is its old priority, or 99 for the
  chosen partition (and its friends).\<close>

theorem cgpt_prioritize_ranks:
  assumes "files (pz_drive_name p) = Some f" "media f n" "67 \<le> n" "gpt_ok (gpt_of n (bytes f))" "usual_gpt (gpt_of n (bytes f))"
    and "kernel_request p (entries_of 128 (primary_entries (gpt_of n (bytes f))))" "0 \<le> max_priority p" "max_priority p \<le> 15"
  shows "\<exists>f'. cgpt_prioritize (Some p) files = Some (CGPT_OK, files(pz_drive_name p \<mapsto> f')) \<and>
    valid_drive (files(pz_drive_name p \<mapsto> f')) (pz_drive_name p) n \<and> same_data n (bytes f) (bytes f') \<and>
    entries_of 128 (primary_entries (gpt_of n (bytes f'))) = prioritized p (entries_of 128 (primary_entries (gpt_of n (bytes f))))"
proof -
  let ?g = "gpt_of n (bytes f)" and ?path = "pz_drive_name p"
  let ?es = "entries_of 128 (primary_entries ?g)"
  obtain g where g: "reprioritize p (marked ?g) = Some g" "has_table (marked ?g) (prioritized p ?es) g"
    using reprioritize_table [OF assms(4) gpt_of_shape [OF assms(2)] _ assms(6-8) refl] by auto
  obtain b where b: "g = (marked ?g)\<lparr>primary_entries := b\<rparr>" "length b = 16384" "entries_of 128 b = prioritized p ?es"
    using g(2) unfolding has_table_def by metis
  have s: "gpt_shape g" "sector_bytes g = 512" "drive_sectors g = of_nat n" "primary_header g = primary_header ?g"
    using gpt_of_shape [OF assms(2)] b by (simp_all add: gpt_shape_def)
  have h: "header_common (hdr (primary_header g)) (of_nat n)" "header_placed False (hdr (primary_header g)) (of_nat n)"
      "signature (hdr (primary_header g)) = GPT_HEADER_SIGNATURE" "h_size (hdr (primary_header g)) = 92"
    unfolding s(4) using assms(4,5) by (simp_all add: gpt_ok_def CheckHeader_valid_iff usual_gpt_def)
  have t: "table_valid (hdr (primary_header g)) (entries_of 128 (primary_entries g))"
    unfolding s(4) by (rule table_valid_fields [OF valid_table [OF assms(4)]]) (simp_all add: b prioritized_def)
  define d where "d = \<lparr>fd = f, writable = True, dsize = of_nat (512 * n), gpt = commit_primary g, dpmbr = zero_pmbr\<rparr>"
  have "\<exists>f'. close_drive ?path files d True = Some (CGPT_OK, files(?path \<mapsto> f')) \<and> media f' n \<and>
      gpt_of n (bytes f') = fresh (commit_primary g) \<and> gpt_ok (gpt_of n (bytes f')) \<and> same_data n (bytes (fd d)) (bytes f')"
    by (rule close_committed [OF _ _ assms(3) _ s(1-3) h t]) (use assms(2) in \<open>simp_all add: d_def\<close>)
  then obtain f' where f': "close_drive ?path files d True = Some (CGPT_OK, files(?path \<mapsto> f'))" "media f' n"
      "gpt_of n (bytes f') = fresh (commit_primary g)" "gpt_ok (gpt_of n (bytes f'))" "same_data n (bytes f) (bytes f')"
    by (auto simp: d_def)
  have "cgpt_prioritize (Some p) files = Some (CGPT_OK, files(?path \<mapsto> f'))"
    using DriveOpen_media [of files ?path, OF assms(1,2)] GptSanityCheck_ok [OF assms(4)] kernel_checked_ok [OF assms(4,6)] g(1) f'(1)
    by (simp add: cgpt_prioritize_def Let_def d_def)
  moreover have "entries_of 128 (primary_entries (gpt_of n (bytes f'))) = prioritized p ?es"
    unfolding f'(3) using commit_primary_frame(5) [OF s(1,2) h(3,4)] b by simp
  ultimately show ?thesis using f' by (intro exI [of _ f'] conjI) (simp_all add: valid_drive_def)
qed

theorem cgpt_prioritize_ranks_witness:
  "\<exists>f'. cgpt_prioritize (Some \<lparr>pz_drive_name = ''img'', set_partition = 0, set_friends = False, max_priority = 0, orig_priority = 0\<rparr>)
      [''img'' \<mapsto> new_file] = Some (CGPT_OK, [''img'' \<mapsto> f']) \<and> valid_drive [''img'' \<mapsto> f'] ''img'' 100"
  using cgpt_prioritize_ranks [of "[''img'' \<mapsto> new_file]" "\<lparr>pz_drive_name = ''img'', set_partition = 0, set_friends = False,
      max_priority = 0, orig_priority = 0\<rparr>" new_file 100] new_file_facts unfolding new_file_facts(2)
  by (auto simp: usual_gpt_def kernel_request_def)

text \<open>What the ranking means: two kernels that take part keep their order (a higher level never gets a lower
  priority), equal levels get equal priorities, the chosen kernel gets the starting priority, which no other
  kernel exceeds, and all new priorities lie between 1 and 15.\<close>

theorem new_priorities_keep_order:
  assumes "0 \<le> max_priority p" "max_priority p \<le> 15" "i \<in> set (kernels es)" "j \<in> set (kernels es)"
    and "level p es j \<le> level p es i" "level p es j \<noteq> 0"
  shows "new_priority p es j \<le> new_priority p es i \<and> 1 \<le> new_priority p es j \<and> new_priority p es i \<le> 15 \<and>
    (level p es i = 99 \<longrightarrow> new_priority p es i = start_priority p es)"
proof -
  have "rank p es i \<le> rank p es j" unfolding rank_def using assms(5) by (intro card_mono) auto
  moreover have "rank p es i = 0 \<and> 1 \<le> start_priority p es" if "level p es i = 99"
  proof -
    have "level p es k \<le> 99" for k using level_range [of p es k] by auto
    then have "{l \<in> level p es ` set (kernels es). level p es i < l} = {}" using that by (auto simp: not_less)
    moreover have "level p es ` set (kernels es) - {0} \<noteq> {}" using assms(3) that by auto
    then have "0 < card (level p es ` set (kernels es) - {0})" by (simp add: card_gt_0_iff)
    ultimately show ?thesis using assms(1) by (simp only: rank_def start_priority_def) auto
  qed
  ultimately show ?thesis using new_priority_bounds [OF assms(1,2)] by (auto simp: new_priority_def)
qed

theorem new_priorities_keep_order_witness:
  "new_priority \<lparr>pz_drive_name = ''img'', set_partition = 1, set_friends = False, max_priority = 7, orig_priority = 0\<rparr>
     [(entry_at (replicate 16384 0) 0)\<lparr>etype := guid_chromeos_kernel\<rparr>] 0 = 7"
proof -
  let ?p = "\<lparr>pz_drive_name = ''img'', set_partition = 1, set_friends = False, max_priority = 7, orig_priority = 0\<rparr> :: CgptPrioritizeParams"
  let ?es = "[(entry_at (replicate 16384 0) 0)\<lparr>etype := guid_chromeos_kernel\<rparr>]"
  have "0 \<in> set (kernels ?es)" by (simp add: kernels_def)
  moreover have "level ?p ?es 0 = 99" by (simp add: level_def)
  ultimately show ?thesis using new_priorities_keep_order [of ?p 0 ?es 0] by (simp add: start_priority_def)
qed

end
