(* ===== verification/Cgpt_Cli.thy ===== *)
theory Cgpt_Cli
  imports Cgpt_Find Cgpt_Boot Cgpt_Prioritize Fw_Version
begin

text \<open>
  The command line of the GPT tool: the option parsers \<open>gpt/lib/cmd_*.c\<close> and the script interpreter
  \<open>gpt/gfdisk/cgpt.c\<close>. Of the C library there are \<open>getopt\<close>, which stops at the first operand as POSIX asks,
  and \<open>strtoul\<close>, \<open>strtol\<close> (with a \<open>long\<close> of 32 bits, that of the device) and \<open>strtoull\<close>. What a command
  writes on the terminal is dropped here. \<open>None\<close> is a process that has ended in a failed check or whose behaviour
  is undefined.
\<close>

unbundle bit_operations_syntax

subsection \<open>Numbers\<close>

text \<open>The digits of a number in a base up to 16: their value, how many there are, and what follows them.\<close>

fun scan_base :: "nat \<Rightarrow> string \<Rightarrow> nat \<Rightarrow> nat \<Rightarrow> nat \<times> nat \<times> string" where
  "scan_base b [] acc k = (acc, k, [])"
| "scan_base b (c # s) acc k =
    (case hex_val c of
       Some d \<Rightarrow> if d < b then scan_base b s (b * acc + d) (Suc k) else (acc, k, c # s)
     | None \<Rightarrow> (acc, k, c # s))"

text \<open>The conversion with base 0: the sign, the magnitude and the rest, \<open>None\<close> if there is no number.\<close>

definition scan_integer :: "string \<Rightarrow> (bool \<times> nat \<times> string) option" where
  "scan_integer s0 =
    (let s = dropWhile is_space s0;
         sgn = s \<noteq> [] \<and> (hd s = CHR ''-'' \<or> hd s = CHR ''+'');
         neg = (sgn \<and> hd s = CHR ''-'');
         s1 = (if sgn then tl s else s);
         hex = (take 2 s1 = ''0x'' \<or> take 2 s1 = ''0X'') \<and> 2 < length s1 \<and> hex_val (s1 ! 2) \<noteq> None;
         (b, s2) = (if hex then (16, drop 2 s1) else if take 1 s1 = ''0'' then (8, s1) else (10, s1));
         (v, k, rest) = scan_base b s2 0 0
     in if k = 0 then None else Some (neg, v, rest))"

text \<open>The value and the text at \<open>e\<close>.\<close>

definition strtoull :: "string \<Rightarrow> u64 \<times> string" where
  "strtoull s = (case scan_integer s of None \<Rightarrow> (0, s)
     | Some (neg, v, rest) \<Rightarrow> (if 2 ^ 64 \<le> v then - 1 else if neg then - of_nat v else of_nat v, rest))"

definition strtoul :: "string \<Rightarrow> u32 \<times> string" where
  "strtoul s = (case scan_integer s of None \<Rightarrow> (0, s)
     | Some (neg, v, rest) \<Rightarrow> (if 2 ^ 32 \<le> v then - 1 else if neg then - of_nat v else of_nat v, rest))"

definition strtol :: "string \<Rightarrow> int \<times> string" where
  "strtol s = (case scan_integer s of None \<Rightarrow> (0, s)
     | Some (neg, v, rest) \<Rightarrow> (max (- (2 ^ 31)) (min (2 ^ 31 - 1) (if neg then - int v else int v)), rest))"

text \<open>\<open>!*optarg || (e && *e)\<close> counts as an error.\<close>

definition bad_number :: "string \<Rightarrow> string \<Rightarrow> nat" where
  "bad_number optarg e = (if optarg = [] \<or> e \<noteq> [] then 1 else 0)"

subsection \<open>getopt\<close>

datatype opt_event = Opt char string | Unknown char | Missing char

text \<open>Whether an option string has a character, and whether the option takes an argument.\<close>

fun opt_spec :: "string \<Rightarrow> char \<Rightarrow> bool option" where
  "opt_spec [] c = None"
| "opt_spec (x # s) c = (if x = c \<and> c \<noteq> CHR '':'' then Some (take 1 s = '':'') else opt_spec s c)"

text \<open>The events of a loop over \<open>getopt\<close> with a leading colon in the option string, and the operands. The second
  argument is what is left of the current word.\<close>

function (sequential) getopt :: "string \<Rightarrow> string \<Rightarrow> string list \<Rightarrow> opt_event list \<times> string list" where
  "getopt os [] [] = ([], [])"
| "getopt os [] (a # as) =
    (if a = ''--'' then ([], as)
     else if length a < 2 \<or> hd a \<noteq> CHR ''-'' then ([], a # as)
     else getopt os (tl a) as)"
| "getopt os (c # cs) as =
    (case opt_spec os c of
       None \<Rightarrow> apfst (Cons (Unknown c)) (getopt os cs as)
     | Some False \<Rightarrow> apfst (Cons (Opt c [])) (getopt os cs as)
     | Some True \<Rightarrow>
         if cs \<noteq> [] then apfst (Cons (Opt c cs)) (getopt os [] as)
         else (case as of [] \<Rightarrow> ([Missing c], []) | a # as' \<Rightarrow> apfst (Cons (Opt c a)) (getopt os [] as')))"
  by pat_completeness auto
termination
  by (relation "measure (\<lambda>(os, cs, as). length cs + sum_list (map (\<lambda>a. Suc (length a)) as))") auto

text \<open>The loop of a command over the events: \<open>-h\<close> returns at once, an unknown option or a missing argument counts as
  an error. The state is the parameters and \<open>errorcnt\<close>.\<close>

fun fold_opts :: "(char \<Rightarrow> string \<Rightarrow> 'p \<Rightarrow> 'p \<times> nat) \<Rightarrow> opt_event list \<Rightarrow> 'p \<times> nat \<Rightarrow> ('p \<times> nat) option" where
  "fold_opts f [] st = Some st"
| "fold_opts f (Opt c a # evs) (p, errorcnt) =
    (if c = CHR ''h'' then None else let (p', k) = f c a p in fold_opts f evs (p', errorcnt + k))"
| "fold_opts f (Unknown c # evs) (p, errorcnt) = fold_opts f evs (p, Suc errorcnt)"
| "fold_opts f (Missing c # evs) (p, errorcnt) = fold_opts f evs (p, Suc errorcnt)"

text \<open>The frame of every command: its option string, its options, its parameters at first, and what it does with the
  parameters and the operands.\<close>

type_synonym outcome = "(int \<times> fs) option"

definition run_command :: "string \<Rightarrow> (char \<Rightarrow> string \<Rightarrow> 'p \<Rightarrow> 'p \<times> nat) \<Rightarrow> 'p \<Rightarrow> ('p \<Rightarrow> string list \<Rightarrow> outcome) \<Rightarrow>
    string list \<Rightarrow> fs \<Rightarrow> outcome" where
  "run_command os f p0 k argv files =
    (let (evs, operands) = getopt os [] (tl argv) in
     case fold_opts f evs (p0, 0) of
       None \<Rightarrow> Some (0, files)
     | Some (p, errorcnt) \<Rightarrow> if errorcnt \<noteq> 0 then Some (1, files) else k p operands)"

definition status_code :: "cgpt_status \<Rightarrow> int" where
  "status_code st = (case st of CGPT_OK \<Rightarrow> 0 | CGPT_FAILED \<Rightarrow> 1)"

definition as_outcome :: "command_result \<Rightarrow> outcome" where
  "as_outcome r = map_option (apfst status_code) r"

text \<open>With an operand the drive is the first one, without any the command fails.\<close>

definition with_drive :: "(string \<Rightarrow> outcome) \<Rightarrow> string list \<Rightarrow> fs \<Rightarrow> outcome" where
  "with_drive k operands files = (case operands of [] \<Rightarrow> Some (1, files) | drive # _ \<Rightarrow> k drive)"

definition no_guid :: Guid where
  "no_guid = dec_guid (replicate 16 0)"

subsection \<open>The commands\<close>

definition create_opt :: "char \<Rightarrow> string \<Rightarrow> CgptCreateParams \<Rightarrow> CgptCreateParams \<times> nat" where
  "create_opt c a p = (if c = CHR ''z'' then (p\<lparr>zap := True\<rparr>, 0) else (p, 1))"

definition cmd_create :: "buffer option \<Rightarrow> string list \<Rightarrow> fs \<Rightarrow> outcome" where
  "cmd_create uuid_generator argv files =
    run_command '':hz'' create_opt \<lparr>cr_drive_name = [], zap = False\<rparr>
      (\<lambda>p operands. with_drive (\<lambda>drive. as_outcome (cgpt_create uuid_generator (Some (p\<lparr>cr_drive_name := drive\<rparr>)) files)) operands files)
      argv files"

text \<open>\<open>_lba_count\<close>: the \<open>ioctl\<close> fails on a file that is not a block device, and leaves 0.\<close>

definition lba_count :: "fs \<Rightarrow> string \<Rightarrow> u64" where
  "lba_count files blk_device =
    (case files blk_device of None \<Rightarrow> 0
     | Some f \<Rightarrow> (if regular f then 0 else case blk_size f of None \<Rightarrow> 0 | Some sz \<Rightarrow> sz) div 512)"

text \<open>The conversion \<open>%llu\<close>.\<close>

definition scan_llu :: "string \<Rightarrow> u64 option" where
  "scan_llu s0 =
    (let s = dropWhile is_space s0;
         sgn = s \<noteq> [] \<and> (hd s = CHR ''-'' \<or> hd s = CHR ''+'');
         neg = (sgn \<and> hd s = CHR ''-'');
         (v, k, rest) = scan_base 10 (if sgn then tl s else s) 0 0
     in if k = 0 then None else Some (if 2 ^ 64 \<le> v then - 1 else if neg then - of_nat v else of_nat v))"

definition CALC :: string where
  "CALC = ''$calc($lba_end-''"

definition parse_lba_end :: "string \<Rightarrow> u64 option" where
  "parse_lba_end line =
    do { l \<leftarrow> strstr line ''$calc('';
         if take (length CALC) l = CALC then scan_llu (drop (length CALC) l) else None }"

definition guid_arg :: "string \<Rightarrow> Guid option" where
  "guid_arg a = (case SupportedType a of Some g \<Rightarrow> Some g | None \<Rightarrow> StrToGuid a)"

text \<open>The options of \<open>cmd_add\<close>; \<open>last\<close> is \<open>argv[argc-1]\<close>. In the branch of \<open>$calc\<close> the pointer \<open>e\<close> is that of
  an earlier option, whose error, if any, has been counted already.\<close>

definition add_opt :: "fs \<Rightarrow> string \<Rightarrow> char \<Rightarrow> string \<Rightarrow> CgptAddParams \<Rightarrow> CgptAddParams \<times> nat" where
  "add_opt files last_arg c a p =
    (if c = CHR ''i'' then let (v, e) = strtoul a in (p\<lparr>ad_partition := v\<rparr>, bad_number a e)
     else if c = CHR ''b'' then let (v, e) = strtoull a in (p\<lparr>set_begin := True, ad_begin := v\<rparr>, bad_number a e)
     else if c = CHR ''s'' then
       (case parse_lba_end a of
          Some lba_end \<Rightarrow> (p\<lparr>set_size := True, ad_size := lba_count files last_arg - ad_begin p - lba_end\<rparr>, 0)
        | None \<Rightarrow> let (v, e) = strtoull a in (p\<lparr>set_size := True, ad_size := v\<rparr>, bad_number a e))
     else if c = CHR ''t'' then
       (case guid_arg a of Some g \<Rightarrow> (p\<lparr>set_type := True, type_guid := g\<rparr>, 0) | None \<Rightarrow> (p\<lparr>set_type := True\<rparr>, 1))
     else if c = CHR ''u'' then
       (case StrToGuid a of Some g \<Rightarrow> (p\<lparr>set_unique := True, unique_guid := g\<rparr>, 0) | None \<Rightarrow> (p\<lparr>set_unique := True\<rparr>, 1))
     else if c = CHR ''l'' then (p\<lparr>label := Some (map of_char a)\<rparr>, 0)
     else if c = CHR ''S'' then
       let (v, e) = strtoul a in
       (p\<lparr>set_successful := True, successful := v\<rparr>, bad_number a e + (if v > 1 then 1 else 0))
     else if c = CHR ''T'' then
       let (v, e) = strtoul a in (p\<lparr>set_tries := True, tries := v\<rparr>, bad_number a e + (if v > 15 then 1 else 0))
     else if c = CHR ''P'' then
       let (v, e) = strtoul a in (p\<lparr>set_priority := True, priority := v\<rparr>, bad_number a e + (if v > 15 then 1 else 0))
     else if c = CHR ''A'' then
       let (v, e) = strtoull a in (p\<lparr>set_raw := True, raw_value := ucast v\<rparr>, bad_number a e)
     else (p, 1))"

definition add_params0 :: CgptAddParams where
  "add_params0 = \<lparr>ad_drive_name = [], ad_partition = 0, ad_begin = 0, ad_size = 0, type_guid = no_guid,
     unique_guid = no_guid, label = None, successful = 0, tries = 0, priority = 0, raw_value = 0,
     set_begin = False, set_size = False, set_type = False, set_unique = False, set_successful = False, set_tries = False,
     set_priority = False, set_raw = False\<rparr>"

definition cmd_add :: "buffer option \<Rightarrow> string list \<Rightarrow> fs \<Rightarrow> outcome" where
  "cmd_add uuid_generator argv files =
    run_command '':hi:b:s:t:u:l:S:T:P:A:'' (add_opt files (last argv)) add_params0
      (\<lambda>p operands. with_drive (\<lambda>drive.
         do { (st, _, files') \<leftarrow> cgpt_add uuid_generator (Some (p\<lparr>ad_drive_name := drive\<rparr>)) files;
              Some (status_code st, files') }) operands files)
      argv files"

definition show_opt :: "char \<Rightarrow> string \<Rightarrow> CgptShowParams \<Rightarrow> CgptShowParams \<times> nat" where
  "show_opt c a p =
    (if c = CHR ''n'' then (p\<lparr>sh_numeric := True\<rparr>, 0)
     else if c = CHR ''v'' then (p\<lparr>sh_verbose := True\<rparr>, 0)
     else if c = CHR ''q'' then (p\<lparr>quick := True\<rparr>, 0)
     else if c = CHR ''i'' then let (v, e) = strtoul a in (p\<lparr>sh_partition := v\<rparr>, bad_number a e)
     else if c \<in> set ''bstulSTPA'' then (p\<lparr>single_item := Some c\<rparr>, 0)
     else if c = CHR ''d'' then (p\<lparr>debug := True\<rparr>, 0)
     else (p, 1))"

definition cmd_show :: "string list \<Rightarrow> fs \<Rightarrow> outcome" where
  "cmd_show argv files =
    run_command '':hnvqi:bstulSTPAd'' show_opt
      \<lparr>sh_drive_name = [], sh_numeric = False, sh_verbose = False, quick = False, sh_partition = 0, single_item = None,
       debug = False, num_partitions = 0\<rparr>
      (\<lambda>p operands. with_drive (\<lambda>drive.
         do { (st, _, files') \<leftarrow> cgpt_show (Some (p\<lparr>sh_drive_name := drive\<rparr>)) files; Some (status_code st, files') }) operands files)
      argv files"

text \<open>\<open>cmd_repair\<close> takes \<open>argv[optind]\<close> without a check; the array has no terminating null pointer.\<close>

definition repair_opt :: "char \<Rightarrow> string \<Rightarrow> CgptRepairParams \<Rightarrow> CgptRepairParams \<times> nat" where
  "repair_opt c a p = (if c = CHR ''v'' then (p\<lparr>rp_verbose := True\<rparr>, 0) else (p, 1))"

definition cmd_repair :: "string list \<Rightarrow> fs \<Rightarrow> outcome" where
  "cmd_repair argv files =
    run_command '':hv'' repair_opt \<lparr>rp_drive_name = [], rp_verbose = False\<rparr>
      (\<lambda>p operands. case operands of [] \<Rightarrow> None
         | drive # _ \<Rightarrow> as_outcome (cgpt_repair (Some (p\<lparr>rp_drive_name := drive\<rparr>)) files))
      argv files"

definition boot_opt :: "char \<Rightarrow> string \<Rightarrow> CgptBootParams \<Rightarrow> CgptBootParams \<times> nat" where
  "boot_opt c a p =
    (if c = CHR ''i'' then let (v, e) = strtoul a in (p\<lparr>bt_partition := v\<rparr>, bad_number a e)
     else if c = CHR ''b'' then (p\<lparr>bootfile := Some a\<rparr>, 0)
     else if c = CHR ''p'' then (p\<lparr>create_pmbr := True\<rparr>, 0)
     else (p, 1))"

definition cmd_bootable :: "string list \<Rightarrow> fs \<Rightarrow> outcome" where
  "cmd_bootable argv files =
    run_command '':hi:b:p'' boot_opt \<lparr>bt_drive_name = [], bt_partition = 0, bootfile = None, create_pmbr = False\<rparr>
      (\<lambda>p operands. with_drive (\<lambda>drive. as_outcome (cgpt_boot (Some (p\<lparr>bt_drive_name := drive\<rparr>)) files)) operands files)
      argv files"

definition legacy_opt :: "char \<Rightarrow> string \<Rightarrow> CgptLegacyParams \<Rightarrow> CgptLegacyParams \<times> nat" where
  "legacy_opt c a p = (if c = CHR ''e'' then (p\<lparr>efipart := True\<rparr>, 0) else (p, 1))"

definition cmd_legacy :: "string list \<Rightarrow> fs \<Rightarrow> outcome" where
  "cmd_legacy argv files =
    run_command '':he'' legacy_opt \<lparr>lg_drive_name = [], efipart = False\<rparr>
      (\<lambda>p operands. with_drive (\<lambda>drive. as_outcome (cgpt_legacy (Some (p\<lparr>lg_drive_name := drive\<rparr>)) files)) operands files)
      argv files"

definition prioritize_opt :: "char \<Rightarrow> string \<Rightarrow> CgptPrioritizeParams \<Rightarrow> CgptPrioritizeParams \<times> nat" where
  "prioritize_opt c a p =
    (if c = CHR ''i'' then let (v, e) = strtoul a in (p\<lparr>set_partition := v\<rparr>, bad_number a e)
     else if c = CHR ''f'' then (p\<lparr>set_friends := True\<rparr>, 0)
     else if c = CHR ''P'' then
       let (v, e) = strtol a in (p\<lparr>max_priority := v\<rparr>, bad_number a e + (if v < 1 \<or> v > 15 then 1 else 0))
     else (p, 1))"

definition cmd_prioritize :: "string list \<Rightarrow> fs \<Rightarrow> outcome" where
  "cmd_prioritize argv files =
    run_command '':hi:fP:'' prioritize_opt
      \<lparr>pz_drive_name = [], set_partition = 0, set_friends = False, max_priority = 0, orig_priority = 0\<rparr>
      (\<lambda>p operands. if set_friends p \<and> set_partition p = 0 then Some (1, files)
         else with_drive (\<lambda>drive. as_outcome (cgpt_prioritize (Some (p\<lparr>pz_drive_name := drive\<rparr>)) files)) operands files)
      argv files"

text \<open>\<open>ReadFile\<close> of \<open>cmd_find.c\<close>; an empty file is refused. Memory is sufficient.\<close>

definition ReadFile :: "fs \<Rightarrow> string \<Rightarrow> buffer option" where
  "ReadFile files filename =
    do { f \<leftarrow> files filename; buf \<leftarrow> safe_read f 0 (length (bytes f)); if buf = [] then None else Some buf }"

definition find_opt :: "fs \<Rightarrow> char \<Rightarrow> string \<Rightarrow> CgptFindParams \<Rightarrow> CgptFindParams \<times> nat" where
  "find_opt files c a p =
    (if c = CHR ''v'' then (p\<lparr>fn_verbose := Suc (fn_verbose p)\<rparr>, 0)
     else if c = CHR ''n'' then (p\<lparr>fn_numeric := True\<rparr>, 0)
     else if c = CHR ''1'' then (p\<lparr>oneonly := True\<rparr>, 0)
     else if c = CHR ''l'' then (p\<lparr>fn_set_label := True, fn_label := map of_char a\<rparr>, 0)
     else if c = CHR ''t'' then
       (case guid_arg a of Some g \<Rightarrow> (p\<lparr>fn_set_type := True, fn_type_guid := g\<rparr>, 0) | None \<Rightarrow> (p\<lparr>fn_set_type := True\<rparr>, 1))
     else if c = CHR ''u'' then
       (case StrToGuid a of Some g \<Rightarrow> (p\<lparr>fn_set_unique := True, fn_unique_guid := g\<rparr>, 0) | None \<Rightarrow> (p\<lparr>fn_set_unique := True\<rparr>, 1))
     else if c = CHR ''M'' then
       (case ReadFile files a of
          Some buf \<Rightarrow> (p\<lparr>matchbuf := buf, matchlen := of_nat (length buf)\<rparr>, 0) | None \<Rightarrow> (p, 1))
     else if c = CHR ''O'' then let (v, e) = strtoull a in (p\<lparr>matchoffset := v\<rparr>, bad_number a e)
     else (p, 1))"

definition find_params0 :: CgptFindParams where
  "find_params0 = \<lparr>fn_drive_name = None, fn_verbose = 0, fn_set_unique = False, fn_set_type = False, fn_set_label = False,
     oneonly = False, fn_numeric = False, matchbuf = [], matchlen = 0, matchoffset = 0, fn_unique_guid = no_guid,
     fn_type_guid = no_guid, fn_label = [], hits = 0, match_partnum = 0\<rparr>"

fun find_drives :: "(string \<Rightarrow> bool) \<Rightarrow> string list \<Rightarrow> fs \<Rightarrow> CgptFindParams \<Rightarrow> CgptFindParams option" where
  "find_drives symlink [] files p = Some p"
| "find_drives symlink (drive # ds) files p =
    do { (p', _) \<leftarrow> cgpt_find symlink (Some (p\<lparr>fn_drive_name := Some drive\<rparr>)) files;
         p'' \<leftarrow> p'; find_drives symlink ds files p'' }"

definition cmd_find :: "(string \<Rightarrow> bool) \<Rightarrow> string list \<Rightarrow> fs \<Rightarrow> outcome" where
  "cmd_find symlink argv files =
    (let (evs, operands) = getopt '':hv1nt:u:l:M:O:'' [] (tl argv) in
     case fold_opts (find_opt files) evs (find_params0, 0) of
       None \<Rightarrow> Some (0, files)
     | Some (p, errorcnt) \<Rightarrow>
       if errorcnt \<noteq> 0 \<or> \<not> fn_set_unique p \<and> \<not> fn_set_type p \<and> \<not> fn_set_label p then Some (1, files)
       else do { p' \<leftarrow> (if operands \<noteq> [] then find_drives symlink operands files p
                       else do { (r, _) \<leftarrow> cgpt_find symlink (Some p) files; r });
                 Some (if oneonly p' \<and> hits p' \<noteq> 1 then 1 else if match_partnum p' \<noteq> 0 then 0 else 1, files) })"

text \<open>\<open>cmd_reload\<close>: the result of \<open>ioctl(BLKRRPART)\<close> is a parameter. The option \<open>-v\<close> is in the option string
  and not in the \<open>switch\<close>, so it is an error.\<close>

definition STORAGE_BASE_PATH :: string where
  "STORAGE_BASE_PATH = ''/dev/block/mmcblk0''"

definition cmd_reload :: "(string \<Rightarrow> int) \<Rightarrow> string list \<Rightarrow> fs \<Rightarrow> outcome" where
  "cmd_reload blkrrpart argv files =
    run_command '':hv'' (\<lambda>c a p. (p, 1)) ()
      (\<lambda>p operands. let drive = (case operands of [] \<Rightarrow> STORAGE_BASE_PATH | d # _ \<Rightarrow> d) in
         Some (if files drive = None then 1 else blkrrpart drive, files))
      argv files"

subsection \<open>Scripts\<close>

text \<open>What the interpreter takes from its surroundings: the random bytes for the command on each line, the links under
  \<open>/sys/block\<close>, and the results of \<open>BLKRRPART\<close>.\<close>

record environment =
  urandom :: "buffer option"
  symlink :: "string \<Rightarrow> bool"
  blkrrpart :: "string \<Rightarrow> int"

definition str_to_array :: "string \<Rightarrow> string list" where
  "str_to_array str = take 256 (map (take 256) (tokens str))"

definition cmd_start_partitioning :: "string list \<Rightarrow> fs \<Rightarrow> outcome" where
  "cmd_start_partitioning argv files = Some (0, files)"

definition cmd_stop_partitioning :: "string list \<Rightarrow> fs \<Rightarrow> outcome" where
  "cmd_stop_partitioning argv files = Some (0, files)"

definition cmds :: "environment \<Rightarrow> (string \<times> (string list \<Rightarrow> fs \<Rightarrow> outcome)) list" where
  "cmds env = (let uuid_generator = Some (cgpt_uuid_generate (urandom env)) in
    [(''create'', cmd_create uuid_generator), (''add'', cmd_add uuid_generator), (''show'', cmd_show),
     (''repair'', cmd_repair), (''boot'', cmd_bootable), (''find'', cmd_find (symlink env)),
     (''prioritize'', cmd_prioritize), (''legacy'', cmd_legacy), (''start'', cmd_start_partitioning),
     (''reload'', cmd_reload (blkrrpart env)), (''end'', cmd_stop_partitioning)])"

text \<open>The search for the command: \<open>match_index\<close> and \<open>match_count\<close>.\<close>

fun match_cmds :: "string list \<Rightarrow> string \<Rightarrow> nat \<Rightarrow> nat \<times> nat \<Rightarrow> nat \<times> nat" where
  "match_cmds [] command i st = st"
| "match_cmds (nm # names) command i (match_index, match_count) =
    (if nm = command then (i, 1)
     else if take (length command) nm = command then match_cmds names command (Suc i) (i, Suc match_count)
     else match_cmds names command (Suc i) (match_index, match_count))"

text \<open>An empty line has no words, and \<open>argv[0]\<close> is then uninitialised memory.\<close>

definition oem_partition_gpt_sub_command :: "environment \<Rightarrow> string list \<Rightarrow> fs \<Rightarrow> outcome" where
  "oem_partition_gpt_sub_command env argv files =
    (case argv of [] \<Rightarrow> None
     | command # _ \<Rightarrow>
       let (match_index, match_count) = match_cmds (map fst (cmds env)) command 0 (0, 0) in
       if match_count = 1 then snd (cmds env ! match_index) argv files else Some (- 1, files))"

text \<open>A line as the interpreter sees it: up to a null character, without its last character, which need not be a newline.
  \<open>None\<close> is a line that begins with a null character, where the code writes before the buffer.\<close>

definition chop :: "string \<Rightarrow> string option" where
  "chop l = (let s = takeWhile (\<lambda>c. c \<noteq> CHR 0x00) l in if s = [] then None else Some (butlast s))"

fun run_lines :: "(nat \<Rightarrow> environment) \<Rightarrow> nat \<Rightarrow> string list \<Rightarrow> int \<Rightarrow> fs \<Rightarrow> outcome" where
  "run_lines env k [] ret files = Some (ret, files)"
| "run_lines env k (l # ls) ret files =
    do { line \<leftarrow> chop l;
         (r, files') \<leftarrow> oem_partition_gpt_sub_command (env k) (str_to_array line) files;
         run_lines env (Suc k) ls (ret OR r) files' }"

definition oem_partition_gpt_handler :: "(nat \<Rightarrow> environment) \<Rightarrow> string \<Rightarrow> fs \<Rightarrow> outcome" where
  "oem_partition_gpt_handler env fp files = run_lines env 0 (fgets_lines 255 fp) 0 files"

definition oem_partition_mbr_handler :: "string \<Rightarrow> fs \<Rightarrow> outcome" where
  "oem_partition_mbr_handler fp files = Some (0, files)"

text \<open>\<open>%*[^=]=%255s\<close>.\<close>

definition scan_partition_type :: "string \<Rightarrow> string option" where
  "scan_partition_type s =
    (let key = takeWhile (\<lambda>c. c \<noteq> CHR ''='') s; rest = dropWhile (\<lambda>c. c \<noteq> CHR ''='') s;
         word = take 255 (takeWhile (\<lambda>c. \<not> is_space c) (dropWhile is_space (tl rest)))
     in if key = [] \<or> rest = [] \<or> word = [] then None else Some word)"

text \<open>\<open>main\<close> with the operands of the process. The script is not one of the files that its commands change.\<close>

definition main :: "(nat \<Rightarrow> environment) \<Rightarrow> string list \<Rightarrow> fs \<Rightarrow> outcome" where
  "main env args files =
    (case args of
       [script] \<Rightarrow>
         (case files script of
            None \<Rightarrow> Some (- 1, files)
          | Some f \<Rightarrow>
            let (first, fp) = fgets 255 (map (\<lambda>b. char_of (unat b)) (bytes f)) in
            if first = [] then Some (- 1, files)
            else do { buffer \<leftarrow> chop first;
              case scan_partition_type buffer of
                None \<Rightarrow> Some (- 1, files)
              | Some partition_type \<Rightarrow>
                  if take (length partition_type) ''gpt'' = partition_type then oem_partition_gpt_handler env fp files
                  else if take (length partition_type) ''mbr'' = partition_type then oem_partition_mbr_handler fp files
                  else Some (- 1, files) })
     | _ \<Rightarrow> Some (- 1, files))"

subsection \<open>Numbers printed and scanned\<close>

lemma digit_facts:
  assumes "d < 10"
  shows "hex_val (''0123456789'' ! d) = Some d" "\<not> is_space (''0123456789'' ! d)"
    "''0123456789'' ! d \<noteq> CHR ''-''" "''0123456789'' ! d \<noteq> CHR ''+''" "''0123456789'' ! d \<noteq> CHR ''x''"
    "''0123456789'' ! d \<noteq> CHR ''X''" "''0123456789'' ! d \<noteq> CHR ''$''" "''0123456789'' ! d = CHR ''0'' \<longleftrightarrow> d = 0"
proof -
  have "d = 0 \<or> d = 1 \<or> d = 2 \<or> d = 3 \<or> d = 4 \<or> d = 5 \<or> d = 6 \<or> d = 7 \<or> d = 8 \<or> d = 9" using assms by presburger
  then show "hex_val (''0123456789'' ! d) = Some d" "\<not> is_space (''0123456789'' ! d)"
    "''0123456789'' ! d \<noteq> CHR ''-''" "''0123456789'' ! d \<noteq> CHR ''+''" "''0123456789'' ! d \<noteq> CHR ''x''"
    "''0123456789'' ! d \<noteq> CHR ''X''" "''0123456789'' ! d \<noteq> CHR ''$''" "''0123456789'' ! d = CHR ''0'' \<longleftrightarrow> d = 0"
    by (elim disjE; simp add: hex_val_def is_space_def)+
qed

lemma print_u_nonempty [simp]: "print_u n \<noteq> []"
  by (subst print_u.simps) simp

lemma print_u_chars: "c \<in> set (print_u n) \<Longrightarrow> \<exists>d < 10. c = ''0123456789'' ! d"
proof (induction n rule: print_u.induct)
  case (1 n)
  have m: "\<exists>d < 10. ''0123456789'' ! (n mod 10) = ''0123456789'' ! d" by (intro exI [of _ "n mod 10"]) simp
  show ?case using 1 m by (subst (asm) (2) print_u.simps) (auto split: if_splits)
qed

lemma hd_print_u: "0 < n \<Longrightarrow> \<exists>d < 10. 0 < d \<and> hd (print_u n) = ''0123456789'' ! d"
proof (induction n rule: print_u.induct)
  case (1 n)
  show ?case
  proof (cases "n < 10")
    case True
    then show ?thesis using 1 by (intro exI [of _ n]) (simp add: print_u.simps)
  next
    case False
    then have "\<exists>d < 10. 0 < d \<and> hd (print_u (n div 10)) = ''0123456789'' ! d" using 1 by simp
    then show ?thesis using False by (simp add: print_u.simps [of n] hd_append)
  qed
qed

lemma scan_base_print_u: "scan_base 10 (print_u n @ s) acc k =
    scan_base 10 s (10 ^ length (print_u n) * acc + n) (k + length (print_u n))"
proof (induction n arbitrary: s acc k rule: print_u.induct)
  case (1 n)
  show ?case
  proof (cases "n < 10")
    case True
    then show ?thesis by (simp add: print_u.simps [of n] digit_facts(1))
  next
    case False
    have n: "10 * (x * acc + n div 10) + n mod 10 = 10 * x * acc + n" for x
      using mult_div_mod_eq [of 10 n] by (simp add: algebra_simps)
    have "scan_base 10 (print_u n @ s) acc k = scan_base 10 (print_u (n div 10) @ (''0123456789'' ! (n mod 10)) # s) acc k"
      using False by (simp add: print_u.simps [of n])
    also have "\<dots> = scan_base 10 s (10 * 10 ^ length (print_u (n div 10)) * acc + n) (Suc (k + length (print_u (n div 10))))"
      using "1.IH" [OF False] by (simp add: digit_facts(1) n algebra_simps)
    finally show ?thesis using False by (simp add: print_u.simps [of n])
  qed
qed

lemma scan_integer_print_u:
  assumes "sg = [] \<or> sg = ''-''"
  shows "scan_integer (sg @ print_u n) = Some (sg \<noteq> [], n, [])"
proof -
  obtain c s where p: "print_u n = c # s" by (cases "print_u n") auto
  then obtain d where d: "d < 10" "c = ''0123456789'' ! d" using print_u_chars [of c n] by auto
  note f = digit_facts [OF d(1), folded d(2)]
  have nox: "take 2 (print_u n) \<noteq> ''0x'' \<and> take 2 (print_u n) \<noteq> ''0X''"
  proof (cases s)
    case (Cons c' s')
    then obtain d' where d': "d' < 10" "c' = ''0123456789'' ! d'" using p print_u_chars [of c' n] by auto
    show ?thesis using Cons p digit_facts(5,6) [OF d'(1), folded d'(2)] by (simp add: numeral_2_eq_2)
  qed (simp add: p)
  have z: "n = 0" if "c = CHR ''0''"
  proof (rule ccontr)
    assume "n \<noteq> 0"
    then obtain k where "k < 10" "0 < k" "hd (print_u n) = ''0123456789'' ! k" using hd_print_u [of n] by auto
    then show False using digit_facts(8) [of k] that p by simp
  qed
  have ten: "scan_base 10 (print_u n) 0 0 = (n, length (print_u n), [])"
    using scan_base_print_u [of n "[]" 0 0] by simp
  have body: "(if take 1 (print_u n) = ''0'' then scan_base 8 (print_u n) 0 0 else scan_base 10 (print_u n) 0 0) =
      (n, length (print_u n), [])"
  proof (cases "c = CHR ''0''")
    case True
    then show ?thesis using z p by (simp add: print_u.simps [of 0] hex_val_def)
  qed (use p ten in simp)
  have sp: "\<not> is_space (CHR ''-'')" by (simp add: is_space_def)
  show ?thesis
    using assms f nox body p sp
    by (auto simp: scan_integer_def Let_def split: if_splits)
qed

lemma strtoull_print_u: "n < 2 ^ 64 \<Longrightarrow> strtoull (print_u n) = (of_nat n, [])"
  using scan_integer_print_u [of "[]" n] by (simp add: strtoull_def)

lemma strtoull_print_d: "strtoull (print_d (sint w)) = (w, [])" for w :: u64
proof (cases "sint w < 0")
  case True
  have "- (2 ^ 63) \<le> sint w" using sint_ge [of w] by simp
  then have b: "\<not> 2 ^ 64 \<le> nat (- sint w)" using True by simp
  have "- of_nat (nat (- sint w)) = (of_int (sint w) :: u64)" using True by (simp add: of_nat_nat)
  then show ?thesis
    using True b scan_integer_print_u [of "''-''" "nat (- sint w)"] by (simp add: strtoull_def print_d_def)
next
  case False
  have "sint w < 2 ^ 63" using sint_lt [of w] by simp
  then have "nat (sint w) < 2 ^ 64" by simp
  then show ?thesis
    using False strtoull_print_u [of "nat (sint w)"] by (simp add: print_d_def of_nat_nat)
qed

lemma print_d_no_dollar: "CHR ''$'' \<notin> set (print_d i)"
proof -
  have "CHR ''$'' \<notin> set (print_u n)" for n
  proof
    assume "CHR ''$'' \<in> set (print_u n)"
    then obtain d where "d < 10" "CHR ''$'' = ''0123456789'' ! d" using print_u_chars by blast
    then show False using digit_facts(7) [of d] by simp
  qed
  then show ?thesis by (simp add: print_d_def)
qed

lemma strstr_none: "pat \<noteq> [] \<Longrightarrow> hd pat \<notin> set s \<Longrightarrow> strstr s pat = None"
  by (cases pat; induction s) auto

lemma parse_lba_end_number: "parse_lba_end (print_d i) = None"
  by (simp add: parse_lba_end_def strstr_none print_d_no_dollar)

lemma supported_in_none: "list_all (\<lambda>(t, nm, desc). length nm \<noteq> length s) ts \<Longrightarrow> supported_in s ts = None"
  by (induction ts) auto

lemma guid_arg_text:
  assumes "guid_wf g"
  shows "guid_arg (guid_text g) = Some g"
proof -
  have "list_all (\<lambda>(t, nm, desc). length nm \<noteq> length (guid_text g)) supported_types"
    using guid_text_scan(2) [OF assms] by (simp add: supported_types_def)
  then show ?thesis
    using guid_text_scan(1) [OF assms, of "[]"] by (simp add: guid_arg_def SupportedType_def supported_in_none)
qed

subsection \<open>Properties\<close>

text \<open>What \<open>show\<close> prints of a partition, \<open>add\<close> reads back: the four items \<open>-b\<close>, \<open>-s\<close>, \<open>-t\<close> and \<open>-u\<close> of an entry, given
  to \<open>add\<close> as the arguments of the options of the same names, set the beginning, the size, the type and the unique GUID to
  those of the entry, without an error. The numbers may be any 64-bit values, printed with a sign from \<open>2 ^ 63\<close> on.\<close>

theorem shown_items_are_accepted:
  assumes "guid_wf (etype e)" "guid_wf (unique e)"
  shows "\<exists>b s t u.
    show_item g index e (CHR ''b'') = Some (b @ newline) \<and> show_item g index e (CHR ''s'') = Some (s @ newline) \<and>
    show_item g index e (CHR ''t'') = Some (t @ newline) \<and> show_item g index e (CHR ''u'') = Some (u @ newline) \<and>
    fold_opts (add_opt files last_arg) [Opt (CHR ''b'') b, Opt (CHR ''s'') s, Opt (CHR ''t'') t, Opt (CHR ''u'') u] (p, k) =
      Some (p\<lparr>set_begin := True, ad_begin := starting_lba e, set_size := True, ad_size := ending_lba e - starting_lba e + 1,
        set_type := True, type_guid := etype e, set_unique := True, unique_guid := unique e\<rparr>, k)"
proof (intro exI conjI)
  let ?sz = "ending_lba e - starting_lba e + 1"
  show "show_item g index e (CHR ''b'') = Some (print_d (sint (starting_lba e)) @ newline)"
    "show_item g index e (CHR ''s'') = Some (print_d (sint ?sz) @ newline)"
    by (simp_all add: show_item_def)
  show "show_item g index e (CHR ''t'') = Some (guid_text (etype e) @ newline)"
    "show_item g index e (CHR ''u'') = Some (guid_text (unique e) @ newline)"
    using guid_text_scan(2) assms by (simp_all add: show_item_def GuidToStr_def GUID_STRLEN_def)
  have ne: "print_d i \<noteq> []" for i by (simp add: print_d_def)
  have num: "bad_number (print_d i) [] = 0" for i using ne by (simp add: bad_number_def)
  show "fold_opts (add_opt files last_arg) [Opt (CHR ''b'') (print_d (sint (starting_lba e))), Opt (CHR ''s'') (print_d (sint ?sz)),
      Opt (CHR ''t'') (guid_text (etype e)), Opt (CHR ''u'') (guid_text (unique e))] (p, k) =
    Some (p\<lparr>set_begin := True, ad_begin := starting_lba e, set_size := True, ad_size := ?sz,
        set_type := True, type_guid := etype e, set_unique := True, unique_guid := unique e\<rparr>, k)"
    using guid_arg_text [OF assms(1)] guid_text_scan(1) [OF assms(2), of "[]"]
    by (simp add: add_opt_def strtoull_print_d parse_lba_end_number num Let_def)
qed

theorem shown_items_are_accepted_witness:
  "\<exists>b s t u.
    show_item zero_gpt 0 \<lparr>etype = guid_efi, unique = guid_linux_data, starting_lba = 40, ending_lba = 49, attr_reserved = [],
      gpt_att = 0, name = []\<rparr> (CHR ''b'') = Some (b @ newline) \<and>
    fold_opts (add_opt Map.empty '''') [Opt (CHR ''b'') b, Opt (CHR ''s'') s, Opt (CHR ''t'') t, Opt (CHR ''u'') u] (add_params0, 0) =
      Some (add_params0\<lparr>set_begin := True, ad_begin := 40, set_size := True, ad_size := 10,
        set_type := True, type_guid := guid_efi, set_unique := True, unique_guid := guid_linux_data\<rparr>, 0)"
  using shown_items_are_accepted [of "\<lparr>etype = guid_efi, unique = guid_linux_data, starting_lba = 40, ending_lba = 49, attr_reserved = [],
      gpt_att = 0, name = []\<rparr>" zero_gpt 0 Map.empty "''''" add_params0 0]
  by fastforce

lemma strstr_here: "pat \<noteq> [] \<Longrightarrow> take (length pat) s = pat \<Longrightarrow> strstr s pat = Some s"
  by (cases s) auto

lemma parse_calc:
  assumes "N < 2 ^ 64"
  shows "parse_lba_end (CALC @ print_u N @ '')'') = Some (of_nat N)"
proof -
  obtain c s where p: "print_u N = c # s" by (cases "print_u N") auto
  then obtain d where d: "d < 10" "c = ''0123456789'' ! d" using print_u_chars [of c N] by auto
  note f = digit_facts [OF d(1), folded d(2)]
  have "scan_base 10 (print_u N @ '')'') 0 0 = (N, length (print_u N), '')'')"
    unfolding scan_base_print_u by (simp add: hex_val_def)
  then have "scan_llu (print_u N @ '')'') = Some (of_nat N)"
    using f p assms by (simp add: scan_llu_def Let_def)
  moreover have "strstr (CALC @ print_u N @ '')'') ''$calc('' = Some (CALC @ print_u N @ '')'')"
    by (rule strstr_here) (simp_all add: CALC_def)
  ultimately show ?thesis by (simp add: parse_lba_end_def)
qed

text \<open>The size \<open>$calc($lba_end-N)\<close> ends a partition \<open>N\<close> sectors before the end of the device, if \<open>-b\<close> comes first: then
  the size is the number of sectors less \<open>N\<close> and less the beginning. The options are taken from left to right, so that with
  \<open>-s\<close> before \<open>-b\<close> the beginning is not subtracted, and the partition reaches too far by that much.\<close>

theorem calc_size_depends_on_order:
  fixes uuid :: "buffer option" and files :: fs
  assumes "B < 2 ^ 64" "N < 2 ^ 64" "drv \<noteq> []" "hd drv \<noteq> CHR ''-''"
  defines "run \<equiv> (\<lambda>sz. do { (st, _, files') \<leftarrow> cgpt_add uuid (Some (add_params0\<lparr>ad_drive_name := drv, set_begin := True,
      ad_begin := of_nat B, set_size := True, ad_size := sz, set_type := True, type_guid := guid_linux_data\<rparr>)) files;
    Some (status_code st, files') })"
  shows "cmd_add uuid [''add'', ''-b'', print_u B, ''-s'', CALC @ print_u N @ '')'', ''-t'', ''data'', drv] files =
      run (lba_count files drv - of_nat B - of_nat N) \<and>
    cmd_add uuid [''add'', ''-s'', CALC @ print_u N @ '')'', ''-b'', print_u B, ''-t'', ''data'', drv] files =
      run (lba_count files drv - of_nat N)"
proof -
  have drv: "getopt os [] [drv] = ([], [drv])" for os using assms(3,4) by auto
  have t: "guid_arg ''data'' = Some guid_linux_data"
    by (simp add: guid_arg_def SupportedType_def supported_types_def)
  have n: "bad_number (print_u B) [] = 0" by (simp add: bad_number_def)
  note opts = add_opt_def strtoull_print_u [OF assms(1)] parse_calc [OF assms(2)] t n Let_def
  have g1: "getopt '':hi:b:s:t:u:l:S:T:P:A:'' [] [''-b'', print_u B, ''-s'', CALC @ print_u N @ '')'', ''-t'', ''data'', drv] =
      ([Opt (CHR ''b'') (print_u B), Opt (CHR ''s'') (CALC @ print_u N @ '')''), Opt (CHR ''t'') ''data''], [drv])"
    using drv by simp
  have g2: "getopt '':hi:b:s:t:u:l:S:T:P:A:'' [] [''-s'', CALC @ print_u N @ '')'', ''-b'', print_u B, ''-t'', ''data'', drv] =
      ([Opt (CHR ''s'') (CALC @ print_u N @ '')''), Opt (CHR ''b'') (print_u B), Opt (CHR ''t'') ''data''], [drv])"
    using drv by simp
  show ?thesis
    unfolding cmd_add_def run_command_def list.sel g1 g2 by (simp add: opts with_drive_def run_def add_params0_def)
qed

theorem calc_size_depends_on_order_witness:
  "cmd_add None [''add'', ''-b'', print_u 40, ''-s'', CALC @ print_u 34 @ '')'', ''-t'', ''data'', ''img''] Map.empty = Some (1, Map.empty)"
  using calc_size_depends_on_order [of 40 34 "''img''" None Map.empty]
  by (simp add: cgpt_add_def DriveOpen_def Let_def status_code_def)

text \<open>Every line runs a command that returns 0, each on the files that the one before it has left.\<close>

inductive script_ok :: "(nat \<Rightarrow> environment) \<Rightarrow> nat \<Rightarrow> string list \<Rightarrow> fs \<Rightarrow> fs \<Rightarrow> bool" for env where
  finished: "script_ok env k [] files files"
| line: "chop l = Some line \<Longrightarrow> oem_partition_gpt_sub_command (env k) (str_to_array line) files = Some (0, files') \<Longrightarrow>
    script_ok env (Suc k) ls files' files'' \<Longrightarrow> script_ok env k (l # ls) files files''"

inductive_simps script_ok_simps: "script_ok env k [] files files'" "script_ok env k (l # ls) files files'"

lemma run_lines_ok: "run_lines env k ls ret files = Some (0, files') \<longleftrightarrow> ret = 0 \<and> script_ok env k ls files files'"
proof (induction ls arbitrary: k ret files)
  case Nil
  then show ?case by (auto simp: script_ok_simps)
next
  case (Cons l ls)
  have "run_lines env k (l # ls) ret files = Some (0, files') \<longleftrightarrow>
      (\<exists>line r files1. chop l = Some line \<and> oem_partition_gpt_sub_command (env k) (str_to_array line) files = Some (r, files1) \<and>
        ret OR r = 0 \<and> script_ok env (Suc k) ls files1 files')"
    using Cons.IH by (auto simp: bind_eq_Some_conv split: prod.splits)
  then show ?case by (auto simp: script_ok_simps or_eq_0_iff)
qed

text \<open>C34: The exit status of a script for a GPT is 0 exactly when each of its lines runs a command that returns 0, in the order of
  the script, each command on the drives as the one before it has left them; an error on any line, an unknown or an ambiguous
  command included, is never masked by a later success.\<close>

theorem script_succeeds_iff:
  assumes "files script = Some f" "fgets 255 (map (\<lambda>b. char_of (unat b)) (bytes f)) = (first, fp)"
    and "chop first = Some l" "scan_partition_type l = Some ''gpt''"
  shows "main env [script] files = Some (0, files') \<longleftrightarrow> script_ok env 0 (fgets_lines 255 fp) files files'"
proof -
  have "first \<noteq> []" using assms(3) by (auto simp: chop_def)
  then have "main env [script] files = oem_partition_gpt_handler env fp files"
    using assms by (simp add: main_def)
  then show ?thesis by (simp add: oem_partition_gpt_handler_def run_lines_ok)
qed

lemma fgets_line: "CHR 0x0A \<notin> set l \<Longrightarrow> length l < n \<Longrightarrow> fgets n (l @ newline @ s) = (l @ newline, s)"
  unfolding newline_def
proof (induction l arbitrary: n)
  case Nil
  then show ?case by (cases n) simp_all
next
  case (Cons c l)
  then show ?case by (cases n) auto
qed

definition sample_script :: blkdev where
  "sample_script = empty_file\<lparr>bytes := map of_char ''p=gpt'' @ [10] @ map of_char ''start'' @ [10]\<rparr>"

theorem script_succeeds_iff_witness:
  "main (\<lambda>_. \<lparr>urandom = None, symlink = (\<lambda>_. False), blkrrpart = (\<lambda>_. 0)\<rparr>) [''f''] [''f'' \<mapsto> sample_script] =
    Some (0, [''f'' \<mapsto> sample_script])"
proof -
  define env :: "nat \<Rightarrow> environment" where "env = (\<lambda>_. \<lparr>urandom = None, symlink = (\<lambda>_. False), blkrrpart = (\<lambda>_. 0)\<rparr>)"
  have "map (\<lambda>b. char_of (unat b)) (bytes sample_script) = ''p=gpt'' @ newline @ ''start'' @ newline"
    by (simp add: sample_script_def newline_def char_of_eq_iff)
  then have g: "fgets 255 (map (\<lambda>b. char_of (unat b)) (bytes sample_script)) = (''p=gpt'' @ newline, ''start'' @ newline)"
    using fgets_line [of "''p=gpt''" 255 "''start'' @ newline"] by (simp add: newline_def)
  have l: "fgets_lines 255 (''start'' @ newline) = [''start'' @ newline]"
    using fgets_line [of "''start''" 255 "[]"] by (simp add: fgets_lines.simps newline_def)
  have c: "chop (''p=gpt'' @ newline) = Some ''p=gpt''" "chop (''start'' @ newline) = Some ''start''"
    by (simp_all add: chop_def newline_def)
  have "str_to_array ''start'' = [''start'']" by (simp add: str_to_array_def tokens_def)
  then have "oem_partition_gpt_sub_command (env 0) (str_to_array ''start'') [''f'' \<mapsto> sample_script] = Some (0, [''f'' \<mapsto> sample_script])"
    by (simp add: oem_partition_gpt_sub_command_def cmds_def cmd_start_partitioning_def Let_def)
  then have "script_ok env 0 (fgets_lines 255 (''start'' @ newline)) [''f'' \<mapsto> sample_script] [''f'' \<mapsto> sample_script]"
    unfolding l using script_ok.line [OF c(2)] script_ok.finished by metis
  moreover have "scan_partition_type ''p=gpt'' = Some ''gpt''" by (simp add: scan_partition_type_def is_space_def)
  ultimately show ?thesis
    unfolding env_def [symmetric] using script_succeeds_iff [OF _ g c(1), of "[''f'' \<mapsto> sample_script]" "''f''" env] by simp
qed

end
