(* ===== verification/Oem_Partition.thy ===== *)
theory Oem_Partition
  imports Cgpt_Cli Stdio
begin

text \<open>
  The fastboot commands on partitions, \<open>oem_partition.c\<close>: the property that opens and closes a partitioning session, the
  scripts of GPT commands that run inside one, erasing and wiping a volume, and re-reading the partitions. Volumes, mounting
  and formatting are those of the recovery library (\<open>roots.h\<close>), which is not part of the repository; they are the record
  \<open>roots\<close>. The tool behind \<open>ufdisk\<close> is registered at run time. \<open>None\<close> is a process that has ended, a loop that does not
  end, or behaviour that C leaves undefined.
\<close>

subsection \<open>State\<close>

record ufdisk =
  umount_all :: "fs \<Rightarrow> fs"
  create_partition :: "fs \<Rightarrow> int \<times> fs"

definition fake_umount_all :: "fs \<Rightarrow> fs" where
  "fake_umount_all files = files"

definition fake_create_partition :: "fs \<Rightarrow> int \<times> fs" where
  "fake_create_partition files = (- 1, files)"

text \<open>The files, the value of the property \<open>sys.partitioning\<close>, and the two tables of function pointers.\<close>

record oem_state =
  disk :: fs
  sys_partitioning :: string
  ufd :: ufdisk
  indirected_cmd_reload :: "(string \<Rightarrow> int) \<Rightarrow> string list \<Rightarrow> fs \<Rightarrow> outcome"

type_synonym oem_outcome = "(int \<times> oem_state) option"

definition oem_state0 :: "fs \<Rightarrow> oem_state" where
  "oem_state0 files = \<lparr>disk = files, sys_partitioning = [], ufd = \<lparr>umount_all = fake_umount_all, create_partition = fake_create_partition\<rparr>,
     indirected_cmd_reload = cmd_reload\<rparr>"

text \<open>The table that a caller registers; a null pointer in it is replaced by the default.\<close>

definition oem_partition_init :: "((fs \<Rightarrow> fs) option \<times> (fs \<Rightarrow> int \<times> fs) option) option \<Rightarrow> oem_state \<Rightarrow> oem_state" where
  "oem_partition_init new_ufdisk st =
    (case new_ufdisk of None \<Rightarrow> st
     | Some (u, c) \<Rightarrow> st\<lparr>ufd := \<lparr>umount_all = (case u of None \<Rightarrow> fake_umount_all | Some f \<Rightarrow> f),
         create_partition = (case c of None \<Rightarrow> fake_create_partition | Some f \<Rightarrow> f)\<rparr>\<rparr>)"

definition cmd_noop :: "(string \<Rightarrow> int) \<Rightarrow> string list \<Rightarrow> fs \<Rightarrow> outcome" where
  "cmd_noop rr argv files = Some (0, files)"

definition oem_partition_disable_cmd_reload :: "oem_state \<Rightarrow> oem_state" where
  "oem_partition_disable_cmd_reload st = st\<lparr>indirected_cmd_reload := cmd_noop\<rparr>"

subsection \<open>Scripts\<close>

definition fb_cmds :: "environment \<Rightarrow> oem_state \<Rightarrow> (string \<times> (string list \<Rightarrow> fs \<Rightarrow> outcome)) list" where
  "fb_cmds env st = (let uuid_generator = Some (cgpt_uuid_generate (urandom env)) in
    [(''create'', cmd_create uuid_generator), (''add'', cmd_add uuid_generator), (''dump'', cmd_show),
     (''repair'', cmd_repair), (''boot'', cmd_bootable), (''find'', cmd_find (symlink env)),
     (''prioritize'', cmd_prioritize), (''legacy'', cmd_legacy), (''reload'', indirected_cmd_reload st (blkrrpart env))])"

text \<open>The first command of which the word is a prefix. An empty line leaves \<open>argv[0]\<close> uninitialised.\<close>

definition fb_gpt_sub_command :: "environment \<Rightarrow> string list \<Rightarrow> oem_state \<Rightarrow> oem_outcome" where
  "fb_gpt_sub_command env argv st =
    (case argv of [] \<Rightarrow> None
     | command # _ \<Rightarrow>
       (case find (\<lambda>(nm, fp). take (length command) nm = command) (fb_cmds env st) of
          None \<Rightarrow> Some (- 1, st)
        | Some (_, fp) \<Rightarrow> do { (r, files) \<leftarrow> fp argv (disk st); Some (r, st\<lparr>disk := files\<rparr>) }))"

text \<open>A line without its newline, if it has one. A line that begins with a null character makes the code read before the
  buffer.\<close>

definition chomp :: "string \<Rightarrow> string option" where
  "chomp l = (let s = takeWhile (\<lambda>c. c \<noteq> CHR 0x00) l in
     if s = [] then None else Some (if last s = CHR 0x0A then butlast s else s))"

fun fb_run_lines :: "(nat \<Rightarrow> environment) \<Rightarrow> nat \<Rightarrow> string list \<Rightarrow> oem_state \<Rightarrow> oem_outcome" where
  "fb_run_lines env k [] st = Some (0, st)"
| "fb_run_lines env k (l # ls) st =
    do { line \<leftarrow> chomp l;
         (r, st) \<leftarrow> fb_gpt_sub_command (env k) (str_to_array line) st;
         if r \<noteq> 0 then Some (- 1, st) else fb_run_lines env (Suc k) ls st }"

definition fb_gpt_handler :: "(nat \<Rightarrow> environment) \<Rightarrow> string \<Rightarrow> oem_state \<Rightarrow> oem_outcome" where
  "fb_gpt_handler env fp st =
    (if sys_partitioning st \<noteq> ''1'' then Some (- 1, st) else fb_run_lines env 0 (fgets_lines 255 fp) st)"

definition fb_mbr_handler :: "string \<Rightarrow> oem_state \<Rightarrow> oem_outcome" where
  "fb_mbr_handler fp st = (let (r, files) = create_partition (ufd st) (disk st) in Some (r, st\<lparr>disk := files\<rparr>))"

text \<open>The partition file is not one of the files that its commands change. Its type may be abbreviated.\<close>

definition oem_partition_cmd_handler :: "(nat \<Rightarrow> environment) \<Rightarrow> string list \<Rightarrow> oem_state \<Rightarrow> oem_outcome" where
  "oem_partition_cmd_handler env argv st =
    (case argv of
       [_, path] \<Rightarrow>
         (case disk st path of None \<Rightarrow> Some (- 1, st)
          | Some f \<Rightarrow>
            let (first, fp) = fgets 255 (map (\<lambda>b. char_of (unat b)) (bytes f)) in
            if first = [] then Some (- 1, st)
            else do { buffer \<leftarrow> chop first;
              case scan_partition_type buffer of None \<Rightarrow> Some (- 1, st)
              | Some partition_type \<Rightarrow>
                if take (length partition_type) ''gpt'' = partition_type then fb_gpt_handler env fp st
                else if take (length partition_type) ''mbr'' = partition_type then fb_mbr_handler fp st
                else Some (- 1, st) })
     | _ \<Rightarrow> Some (- 1, st))"

subsection \<open>Volumes\<close>

record Volume =
  mount_point :: string
  fs_type :: string
  device :: string

text \<open>What the code uses of the recovery library, and of \<open>malloc\<close>: the contents of a new block.\<close>

record roots =
  volume_for_path :: "string \<Rightarrow> Volume option"
  ensure_path_unmounted :: "string \<Rightarrow> fs \<Rightarrow> int \<times> fs"
  format_volume :: "string \<Rightarrow> fs \<Rightarrow> int \<times> fs"
  new_block :: "nat \<Rightarrow> buffer option"

definition oem_partition_start_handler :: "string list \<Rightarrow> oem_state \<Rightarrow> int \<times> oem_state" where
  "oem_partition_start_handler argv st = (0, st\<lparr>sys_partitioning := ''1'', disk := umount_all (ufd st) (disk st)\<rparr>)"

definition oem_partition_stop_handler :: "roots \<Rightarrow> string list \<Rightarrow> oem_state \<Rightarrow> int \<times> oem_state" where
  "oem_partition_stop_handler rt argv st =
    (0, st\<lparr>disk := snd (ensure_path_unmounted rt ''/factory'' (disk st)), sys_partitioning := ''0''\<rparr>)"

text \<open>Blocks of \<open>0xFF\<close> until one is not written completely: the last result of \<open>write\<close> and how many calls succeeded. On
  a regular file, which grows, the loop does not end.\<close>

partial_function (option) nuke_write :: "blkdev \<Rightarrow> nat \<Rightarrow> nat \<Rightarrow> nat \<Rightarrow> (int \<times> nat \<times> blkdev) option" where
  "nuke_write d pos bufferSize cnt =
    (case dev_write d pos (replicate bufferSize 0xFF) of
       None \<Rightarrow> Some (- 1, cnt, d)
     | Some (ret, d) \<Rightarrow>
       if ret = bufferSize then nuke_write d (pos + ret) bufferSize (Suc cnt) else Some (int ret, Suc cnt, d))"

text \<open>The read-back: \<open>None\<close> after a complete comparison with the number of reads, or the result to return. The comparison
  is over the whole buffer, also after a short read.\<close>

function nuke_check :: "blkdev \<Rightarrow> nat \<Rightarrow> nat \<Rightarrow> buffer \<Rightarrow> nat \<Rightarrow> int + nat" where
  "nuke_check d pos bufferSize pbufRead cnt =
    (case dev_read d pos bufferSize of
       None \<Rightarrow> Inl (- 1)
     | Some bs \<Rightarrow>
       if bs = [] then Inl 0
       else let pbufRead = overlay 0 bs pbufRead in
         if pbufRead \<noteq> replicate bufferSize 0xFF then Inl (- 1)
         else if length bs = bufferSize then nuke_check d (pos + length bs) bufferSize pbufRead (Suc cnt)
         else Inr (Suc cnt))"
  by auto
termination
proof (relation "measure (\<lambda>(d, pos, _). length (bytes d) - pos)")
  fix d :: blkdev and pos bufferSize bs and cnt :: nat and x r :: buffer
  assume "dev_read d pos bufferSize = Some bs" "bs \<noteq> []"
  then show "((d, pos + length bs, bufferSize, x, Suc cnt), d, pos, bufferSize, r, cnt)
      \<in> measure (\<lambda>(d, pos, _). length (bytes d) - pos)"
    by (auto simp: dev_read_def seg_def split: if_splits)
qed simp

declare nuke_check.simps [simp del]

definition nuke_volume :: "roots \<Rightarrow> string \<Rightarrow> nat \<Rightarrow> fs \<Rightarrow> (int \<times> fs) option" where
  "nuke_volume rt volume bufferSize files =
    (case volume_for_path rt volume of None \<Rightarrow> Some (- 1, files)
     | Some v \<Rightarrow>
       if fs_type v = ''ramdisk'' then Some (- 1, files)
       else if mount_point v \<noteq> volume then Some (- 1, files)
       else let (r, files) = ensure_path_unmounted rt volume files in
         if r \<noteq> 0 then Some (- 1, files)
         else case files (device v) of None \<Rightarrow> Some (- 1, files)
           | Some d \<Rightarrow>
             (case new_block rt bufferSize of None \<Rightarrow> Some (- 1, files)
              | Some pbufRead \<Rightarrow>
                do { (ret, count_w, d) \<leftarrow> nuke_write d 0 bufferSize 0;
                     let files = files(device v \<mapsto> d);
                     Some (if ret = - 1 then - 1
                           else case nuke_check d 0 bufferSize pbufRead 0 of
                             Inl r \<Rightarrow> r
                           | Inr cnt \<Rightarrow> if cnt \<noteq> count_w then - 1 else 0, files) }))"

definition BUFFER_SIZE :: nat where "BUFFER_SIZE = 4000000"

definition get_mountpoint :: "string \<Rightarrow> string option" where
  "get_mountpoint nm =
    (if take 1 nm = ''/'' then (if length nm > 49 then None else Some nm)
     else if nm = ''userdata'' then Some ''/data''
     else if Suc (length nm) > 49 then None else Some (CHR ''/'' # nm))"

definition oem_erase_partition :: "roots \<Rightarrow> string list \<Rightarrow> oem_state \<Rightarrow> oem_outcome" where
  "oem_erase_partition rt argv st =
    (case argv of
       [_, nm] \<Rightarrow>
         (case get_mountpoint nm of None \<Rightarrow> Some (- 1, st)
          | Some mnt_point \<Rightarrow>
            do { (retval, files) \<leftarrow> nuke_volume rt mnt_point BUFFER_SIZE (disk st);
                 if retval \<noteq> 0 then Some (retval, st\<lparr>disk := files\<rparr>)
                 else let (retval, files) = format_volume rt mnt_point files in Some (retval, st\<lparr>disk := files\<rparr>) })
     | _ \<Rightarrow> Some (- 1, st))"

definition oem_wipe_partition :: "roots \<Rightarrow> string list \<Rightarrow> oem_state \<Rightarrow> oem_outcome" where
  "oem_wipe_partition rt argv st =
    (case argv of
       [_, nm] \<Rightarrow>
         (case get_mountpoint nm of None \<Rightarrow> Some (- 1, st)
          | Some mnt_point \<Rightarrow>
            do { (retval, files) \<leftarrow> nuke_volume rt mnt_point BUFFER_SIZE (disk st); Some (retval, st\<lparr>disk := files\<rparr>) })
     | _ \<Rightarrow> Some (- 1, st))"

definition oem_repart_partition :: "string list \<Rightarrow> oem_state \<Rightarrow> int \<times> oem_state" where
  "oem_repart_partition argv st =
    (case argv of
       [_] \<Rightarrow> let (r, files) = create_partition (ufd st) (disk st) in (r, st\<lparr>disk := files\<rparr>)
     | _ \<Rightarrow> (- 1, st))"

text \<open>The vectors for the two commands have no element 0: \<open>cmd_reload\<close> prints the text at a pointer that is not
  initialised, \<open>stray\<close>, \<open>None\<close> if it cannot be read. \<open>optind\<close> is what the last use of \<open>getopt\<close> has left, 1 at first;
  \<open>cmd_bootable\<close> begins there, and \<open>cmd_reload\<close> where \<open>cmd_bootable\<close> has ended, at index 2 or behind it.\<close>

definition oem_retrieve_partitions :: "environment \<Rightarrow> nat \<Rightarrow> string option \<Rightarrow> string list \<Rightarrow> oem_state \<Rightarrow> oem_outcome" where
  "oem_retrieve_partitions env optind stray argv st =
    (case argv of
       [_] \<Rightarrow>
         if sys_partitioning st \<noteq> ''1'' then Some (- 1, st)
         else do { (ret, files) \<leftarrow> cmd_bootable ([] # drop (optind - 1) [''-p'', STORAGE_BASE_PATH]) (disk st);
                   if ret \<noteq> 0 then Some (ret, st\<lparr>disk := files\<rparr>)
                   else do { s \<leftarrow> stray;
                             (ret, files) \<leftarrow> cmd_reload (blkrrpart env) [s] files;
                             Some (ret, st\<lparr>disk := files\<rparr>) } }
     | _ \<Rightarrow> Some (- 1, st))"

subsection \<open>Erasing\<close>

definition erased :: "blkdev \<Rightarrow> bool" where
  "erased d \<longleftrightarrow> list_all (\<lambda>b. b = 0xFF) (bytes d)"

lemma set_replicate_subset: "set (replicate n x) \<subseteq> {x}"
  by (induction n) auto

lemma erased_iff: "erased d \<longleftrightarrow> bytes d = replicate (length (bytes d)) 0xFF"
proof
  assume "bytes d = replicate (length (bytes d)) 0xFF"
  then have "set (bytes d) \<subseteq> {0xFF}" by (metis set_replicate_subset)
  then show "erased d" by (auto simp: erased_def list_all_iff)
qed (auto simp: erased_def list_all_iff intro: replicate_eqI)

lemma nuke_block:
  assumes "\<not> regular d" "pos \<le> length (bytes d)" "take pos (bytes d) = replicate pos 0xFF"
    and "dev_write d pos (replicate n 0xFF) = Some (k, d')"
  shows "\<not> regular d'" "pos + k \<le> length (bytes d')" "length (bytes d') = length (bytes d)"
    "take (pos + k) (bytes d') = replicate (pos + k) 0xFF" "k \<noteq> n \<Longrightarrow> pos + k = length (bytes d)"
proof -
  have k: "k = min n (length (bytes d) - pos)" and d': "d' = d\<lparr>bytes := overlay pos (replicate k 0xFF) (bytes d)\<rparr>"
    using assms(1,4) by (auto simp: dev_write_def Let_def min.commute split: if_splits)
  show "\<not> regular d'" "length (bytes d') = length (bytes d)" "pos + k \<le> length (bytes d')"
      "k \<noteq> n \<Longrightarrow> pos + k = length (bytes d)"
    using assms(1,2) by (auto simp: d' k)
  show "take (pos + k) (bytes d') = replicate (pos + k) 0xFF"
    using assms(2,3) by (simp add: d' k overlay_def replicate_add)
qed

text \<open>When the writes end without an error the whole device has been written, whatever defects it has.\<close>

lemma nuke_write_erases:
  assumes "nuke_write d pos n c = Some r"
    and "\<not> regular d" "pos \<le> length (bytes d)" "take pos (bytes d) = replicate pos 0xFF" "fst r \<noteq> - 1"
  shows "erased (snd (snd r))"
proof -
  have "\<not> regular d \<longrightarrow> pos \<le> length (bytes d) \<longrightarrow> take pos (bytes d) = replicate pos 0xFF \<longrightarrow> fst r \<noteq> - 1 \<longrightarrow> erased (snd (snd r))"
    (is "?P d pos n c r")
  proof (rule nuke_write.raw_induct [where P = ?P, OF _ assms(1)], intro impI)
    fix nw d pos n c r
    assume IH: "\<And>d pos n c r. nw d pos n c = Some r \<Longrightarrow> ?P d pos n c r"
      and r: "(case dev_write d pos (replicate n 0xFF) of None \<Rightarrow> Some (- 1, c, d)
        | Some (ret, d) \<Rightarrow> if ret = n then nw d (pos + ret) n (Suc c) else Some (int ret, Suc c, d)) = Some r"
      and pre: "\<not> regular d" "pos \<le> length (bytes d)" "take pos (bytes d) = replicate pos 0xFF" "fst r \<noteq> - 1"
    then obtain k d' where w: "dev_write d pos (replicate n 0xFF) = Some (k, d')"
      by (auto split: option.splits)
    note b = nuke_block [OF pre(1-3) w]
    show "erased (snd (snd r))"
    proof (cases "k = n")
      case True
      then show ?thesis using IH [of d' "pos + k" n "Suc c" r] r w b pre by simp
    next
      case False
      then show ?thesis using r w b by (auto simp: erased_iff)
    qed
  qed
  then show ?thesis using assms by blast
qed

text \<open>On a device without defects the writes end with a short one, or with an error at the end of the device.\<close>

lemma nuke_write_healthy:
  assumes "healthy d" "\<not> regular d" "0 < n" "pos \<le> length (bytes d)" "take pos (bytes d) = replicate pos 0xFF"
  shows "\<exists>d'. nuke_write d pos n c =
      Some (if n dvd length (bytes d) - pos then - 1 else int ((length (bytes d) - pos) mod n),
        c + (length (bytes d) - pos) div n + (if n dvd length (bytes d) - pos then 0 else 1), d') \<and>
    erased d' \<and> healthy d' \<and> length (bytes d') = length (bytes d)"
  using assms
proof (induction "length (bytes d) - pos" arbitrary: d pos c rule: less_induct)
  case less
  let ?rest = "length (bytes d) - pos"
  show ?case
  proof (cases "?rest = 0")
    case True
    then have "dev_write d pos (replicate n 0xFF) = None" using less.prems by (auto simp: dev_write_def)
    then show ?thesis using True less.prems by (auto simp: nuke_write.simps [of d] erased_iff)
  next
    case False
    then obtain k d' where w: "dev_write d pos (replicate n 0xFF) = Some (k, d')" "healthy d'" "k = min n ?rest"
      using less.prems by (auto simp: dev_write_def healthy_def Let_def)
    note b = nuke_block [OF less.prems(2,4,5) w(1)]
    show ?thesis
    proof (cases "k = n")
      case True
      then have "n \<le> ?rest" using w(3) by simp
      then have m: "n dvd length (bytes d') - (pos + n) \<longleftrightarrow> n dvd ?rest" "(length (bytes d') - (pos + n)) mod n = ?rest mod n"
          "Suc ((length (bytes d') - (pos + n)) div n) = ?rest div n"
        using b(3) less.prems(3) by (simp_all add: dvd_minus_self le_mod_geq le_div_geq flip: diff_diff_left)
      have "length (bytes d') - (pos + n) < ?rest" using b(3) less.prems(3) \<open>n \<le> ?rest\<close> by linarith
      from less.hyps [OF this w(2) b(1) less.prems(3), of "Suc c"] b(2-4) True show ?thesis
        using w(1) m by (subst nuke_write.simps) auto
    next
      case False
      then have "?rest < n" "k = ?rest" using w(3) by auto
      then show ?thesis using w(1,2) b \<open>?rest \<noteq> 0\<close> less.prems
        by (subst nuke_write.simps) (auto simp: erased_iff dest: dvd_imp_le)
    qed
  qed
qed

lemma erased_seg: "erased d \<Longrightarrow> seg pos n (bytes d) = replicate (min n (length (bytes d) - pos)) 0xFF"
  by (subst (asm) erased_iff) (metis drop_replicate min.commute seg_def take_replicate)

text \<open>The read-back of an erased device: with at least one whole buffer it succeeds; a device smaller than the buffer is
  compared together with the bytes that \<open>malloc\<close> has left behind it.\<close>

lemma nuke_check_erased:
  assumes "healthy d" "erased d" "0 < n" "length b = n" "\<not> n dvd length (bytes d) - pos"
  shows "nuke_check d pos n b c =
    (if n < length (bytes d) - pos \<or> drop (length (bytes d) - pos) b = replicate (n - (length (bytes d) - pos)) 0xFF
     then Inr (c + (length (bytes d) - pos) div n + 1) else Inl (- 1))"
  using assms
proof (induction "length (bytes d) - pos" arbitrary: pos b c rule: less_induct)
  case less
  let ?rest = "length (bytes d) - pos"
  have r: "dev_read d pos n = Some (replicate (min n ?rest) 0xFF)"
    using less.prems by (simp add: dev_read_def healthy_def erased_seg)
  have rest: "?rest \<noteq> 0" "?rest \<noteq> n" using less.prems(5) by (metis dvd_0_right, metis dvd_refl)
  show ?case
  proof (cases "n < ?rest")
    case True
    have p: "\<not> n dvd length (bytes d) - (pos + n)" "Suc ((length (bytes d) - (pos + n)) div n) = ?rest div n"
      using less.prems(3,5) True by (simp_all add: dvd_minus_self le_div_geq flip: diff_diff_left)
    have ff: "drop k (replicate n (0xFF :: byte)) = replicate (n - k) 0xFF" for k by simp
    have "length (bytes d) - (pos + n) < ?rest" using True less.prems(3) by linarith
    from less.hyps [OF this less.prems(1-3) length_replicate p(1)] ff p(2) True r less.prems(3,4) show ?thesis
      by (subst nuke_check.simps) (simp add: overlay_def)
  next
    case False
    have n: "n = ?rest + (n - ?rest)" using False rest by simp
    have "overlay 0 (replicate ?rest 0xFF) b = replicate n 0xFF \<longleftrightarrow> drop ?rest b = replicate (n - ?rest) 0xFF"
      by (subst n) (simp add: overlay_def replicate_add del: replicate_Suc)
    then show ?thesis
      using False r rest less.prems(3) by (subst nuke_check.simps) simp
  qed
qed

text \<open>A volume as the code accepts it: known, not the RAM disk, given by its mount point, and unmounted.\<close>

definition volume_ready :: "roots \<Rightarrow> string \<Rightarrow> fs \<Rightarrow> Volume \<Rightarrow> fs \<Rightarrow> bool" where
  "volume_ready rt volume files v files' \<longleftrightarrow>
    volume_for_path rt volume = Some v \<and> fs_type v \<noteq> ''ramdisk'' \<and> mount_point v = volume \<and>
    ensure_path_unmounted rt volume files = (0, files')"

lemma nuke_volume_ready:
  assumes "volume_ready rt volume files v files'" "files' (device v) = Some d" "new_block rt n = Some b"
  shows "nuke_volume rt volume n files =
    do { (ret, count_w, d) \<leftarrow> nuke_write d 0 n 0;
         Some (if ret = - 1 then - 1
               else case nuke_check d 0 n b 0 of Inl r \<Rightarrow> r | Inr cnt \<Rightarrow> if cnt \<noteq> count_w then - 1 else 0, files'(device v \<mapsto> d)) }"
  using assms by (simp add: nuke_volume_def volume_ready_def)

lemma nuke_volume_success:
  assumes "nuke_volume rt volume n files = Some (0, files'')"
    and block: "\<And>files' v d. volume_ready rt volume files v files' \<Longrightarrow> files' (device v) = Some d \<Longrightarrow> \<not> regular d"
  shows "\<exists>v files' d. volume_ready rt volume files v files' \<and> files'' = files'(device v \<mapsto> d) \<and> erased d"
proof -
  obtain v files' d b where v: "volume_ready rt volume files v files'" "files' (device v) = Some d" "new_block rt n = Some b"
    using assms(1) by (auto simp: nuke_volume_def volume_ready_def split: option.splits if_splits prod.splits)
  from assms(1) obtain ret c d' where w: "nuke_write d 0 n 0 = Some (ret, c, d')" "ret \<noteq> - 1" "files'' = files'(device v \<mapsto> d')"
    unfolding nuke_volume_ready [OF v] by (auto simp: bind_eq_Some_conv split: if_splits)
  have "erased d'" using nuke_write_erases [OF w(1) block [OF v(1,2)]] w(2) by simp
  then show ?thesis using v(1) w(3) by blast
qed

lemma nuke_volume_healthy:
  assumes "volume_ready rt volume files v files'" "files' (device v) = Some d" "new_block rt n = Some b" "length b = n" "0 < n"
    and "healthy d" "\<not> regular d"
  shows "\<exists>d'. erased d' \<and> length (bytes d') = length (bytes d) \<and>
    nuke_volume rt volume n files =
      Some (if \<not> n dvd length (bytes d) \<and>
               (n < length (bytes d) \<or> drop (length (bytes d)) b = replicate (n - length (bytes d)) 0xFF)
            then 0 else - 1, files'(device v \<mapsto> d'))"
proof -
  let ?L = "length (bytes d)"
  obtain d' where w: "nuke_write d 0 n 0 =
      Some (if n dvd ?L then - 1 else int (?L mod n), ?L div n + (if n dvd ?L then 0 else 1), d')"
      "erased d'" "healthy d'" "length (bytes d') = ?L"
    using nuke_write_healthy [of d n 0 0] assms(5-7) by auto
  have c: "nuke_check d' 0 n b 0 = (if n < ?L \<or> drop ?L b = replicate (n - ?L) 0xFF then Inr (?L div n + 1) else Inl (- 1))"
    if "\<not> n dvd ?L"
    using nuke_check_erased [OF w(3,2) assms(5,4), of 0 0] that by (simp add: w(4))
  have "nuke_volume rt volume n files =
      Some (if \<not> n dvd ?L \<and> (n < ?L \<or> drop ?L b = replicate (n - ?L) 0xFF) then 0 else - 1, files'(device v \<mapsto> d'))"
    unfolding nuke_volume_ready [OF assms(1-3)] w(1) by (auto simp: c)
  then show ?thesis using w(2,4) by blast
qed

text \<open>C26: Erasing a volume, \<open>nuke_volume\<close>, on a block device without defects: every byte of the device becomes \<open>0xFF\<close> and no
  other file changes, and the call ends. The result is 0 unless the size of the device is a multiple of the buffer size, where
  the last \<open>write\<close> fails at the end of the device and \<open>-1\<close> is returned although the device is erased, or the device is
  smaller than the buffer and the memory for the read-back does not happen to hold \<open>0xFF\<close> behind its contents.\<close>

theorem nuke_volume_erases:
  assumes "volume_ready rt volume files v files'" "files' (device v) = Some d" "new_block rt n = Some b" "length b = n" "0 < n"
    and "healthy d" "\<not> regular d"
  shows "\<exists>d'. erased d' \<and> length (bytes d') = length (bytes d) \<and>
    nuke_volume rt volume n files =
      Some (if \<not> n dvd length (bytes d) \<and>
               (n < length (bytes d) \<or> drop (length (bytes d)) b = replicate (n - length (bytes d)) 0xFF)
            then 0 else - 1, files'(device v \<mapsto> d'))"
  using assms by (rule nuke_volume_healthy)

definition sample_volume :: Volume where
  "sample_volume = \<lparr>mount_point = ''/data'', fs_type = ''ext4'', device = ''/dev/d''\<rparr>"

definition sample_roots :: roots where
  "sample_roots = \<lparr>volume_for_path = [''/data'' \<mapsto> sample_volume], ensure_path_unmounted = (\<lambda>p files. (0, files)),
     format_volume = (\<lambda>p files. (0, files)), new_block = (\<lambda>n. Some (replicate n 0))\<rparr>"

definition volume_device :: "buffer \<Rightarrow> blkdev" where
  "volume_device b = empty_file\<lparr>bytes := b, regular := False\<rparr>"

lemma sample_volume_ready: "volume_ready sample_roots ''/data'' files sample_volume files"
  by (simp add: volume_ready_def sample_roots_def sample_volume_def)

lemma volume_device_simps [simp]: "bytes (volume_device b) = b" "\<not> regular (volume_device b)"
  "length b < 2 ^ 63 \<Longrightarrow> healthy (volume_device b)"
  by (simp_all add: volume_device_def healthy_def empty_file_def)

theorem nuke_volume_erases_witness:
  "\<exists>d'. erased d' \<and> length (bytes d') = length [1, 2, 3, 4, 5 :: byte] \<and>
    nuke_volume sample_roots ''/data'' 2 [''/dev/d'' \<mapsto> volume_device [1, 2, 3, 4, 5]] = Some (0, [''/dev/d'' \<mapsto> d'])"
  using nuke_volume_erases [OF sample_volume_ready, of "[''/dev/d'' \<mapsto> volume_device [1, 2, 3, 4, 5]]"
      "volume_device [1, 2, 3, 4, 5]" 2 "replicate 2 0"]
  by (simp add: sample_volume_def sample_roots_def)

text \<open>A wipe that reports success has erased the volume, whatever defects its device has: the argument names a volume, its
  device has become all \<open>0xFF\<close>, and nothing else has changed since the volume was unmounted. The device is a block
  device, on which \<open>write\<close> does not go beyond the end.\<close>

theorem wipe_success_means_erased:
  assumes "oem_wipe_partition rt argv st = Some (0, st')"
    and "\<And>volume files v d. volume_ready rt volume (disk st) v files \<Longrightarrow> files (device v) = Some d \<Longrightarrow> \<not> regular d"
  shows "\<exists>c nm volume v files d. argv = [c, nm] \<and> get_mountpoint nm = Some volume \<and> volume_ready rt volume (disk st) v files \<and>
    erased d \<and> st' = st\<lparr>disk := files(device v \<mapsto> d)\<rparr>"
proof -
  obtain c nm volume files'' where a: "argv = [c, nm]" "get_mountpoint nm = Some volume"
      "nuke_volume rt volume BUFFER_SIZE (disk st) = Some (0, files'')" "st' = st\<lparr>disk := files''\<rparr>"
    using assms(1) by (auto simp: oem_wipe_partition_def bind_eq_Some_conv split: list.splits option.splits)
  obtain v files d where "volume_ready rt volume (disk st) v files" "files'' = files(device v \<mapsto> d)" "erased d"
    using nuke_volume_success [OF a(3)] assms(2) by blast
  with a show ?thesis by blast
qed

theorem wipe_success_means_erased_witness:
  "\<exists>d. erased d \<and> oem_wipe_partition (sample_roots\<lparr>new_block := (\<lambda>n. Some (replicate n 0xFF))\<rparr>) [''wipe'', ''userdata'']
      (oem_state0 [''/dev/d'' \<mapsto> volume_device [7]]) = Some (0, oem_state0 [''/dev/d'' \<mapsto> d])"
proof -
  let ?rt = "sample_roots\<lparr>new_block := (\<lambda>n. Some (replicate n 0xFF))\<rparr>" and ?files = "[''/dev/d'' \<mapsto> volume_device [7]]"
  have ready: "volume_ready ?rt p files v files' \<longleftrightarrow> p = ''/data'' \<and> v = sample_volume \<and> files' = files" for p files v files'
    by (auto simp: volume_ready_def sample_roots_def sample_volume_def split: if_splits)
  have n: "0 < BUFFER_SIZE" "\<not> BUFFER_SIZE dvd 1" by (simp_all add: BUFFER_SIZE_def)
  obtain d where d: "nuke_volume ?rt ''/data'' BUFFER_SIZE ?files = Some (0, [''/dev/d'' \<mapsto> d])"
    using nuke_volume_healthy [of ?rt "''/data''" ?files sample_volume ?files "volume_device [7]" BUFFER_SIZE "replicate BUFFER_SIZE 0xFF"]
      n by (auto simp: ready sample_volume_def)
  then have w: "oem_wipe_partition ?rt [''wipe'', ''userdata''] (oem_state0 ?files) = Some (0, oem_state0 [''/dev/d'' \<mapsto> d])"
    by (simp add: oem_wipe_partition_def get_mountpoint_def oem_state0_def)
  have bl: "\<not> regular d" if "volume_ready ?rt p (disk (oem_state0 ?files)) v files" "files (device v) = Some d" for p v files d
    using that by (auto simp: ready oem_state0_def sample_volume_def)
  have "\<exists>d'. erased d' \<and> [''/dev/d'' \<mapsto> d] = [''/dev/d'' \<mapsto> d']"
    using wipe_success_means_erased [OF w bl] by (auto simp: ready oem_state0_def sample_volume_def)
  then have "erased d" by (auto dest: fun_cong split: if_splits)
  with w show ?thesis by blast
qed

subsection \<open>Sessions\<close>

datatype oem_command =
    Start_partitioning "string list"
  | Stop_partitioning "string list"
  | Partition "nat \<Rightarrow> environment" "string list"
  | Retrieve environment nat "string option" "string list"
  | Erase "string list"
  | Wipe "string list"
  | Repart "string list"

definition oem_run :: "roots \<Rightarrow> oem_command \<Rightarrow> oem_state \<Rightarrow> oem_outcome" where
  "oem_run rt c st = (case c of
     Start_partitioning argv \<Rightarrow> Some (oem_partition_start_handler argv st)
   | Stop_partitioning argv \<Rightarrow> Some (oem_partition_stop_handler rt argv st)
   | Partition env argv \<Rightarrow> oem_partition_cmd_handler env argv st
   | Retrieve env optind stray argv \<Rightarrow> oem_retrieve_partitions env optind stray argv st
   | Erase argv \<Rightarrow> oem_erase_partition rt argv st
   | Wipe argv \<Rightarrow> oem_wipe_partition rt argv st
   | Repart argv \<Rightarrow> Some (oem_repart_partition argv st))"

text \<open>The states that a sequence of commands reaches, each with whatever result.\<close>

inductive oem_session :: "roots \<Rightarrow> oem_state \<Rightarrow> oem_command list \<Rightarrow> oem_state \<Rightarrow> bool" for rt st where
  begin_session: "oem_session rt st [] st"
| next_command: "oem_session rt st cs st' \<Longrightarrow> oem_run rt c st' = Some (r, st'') \<Longrightarrow> oem_session rt st (cs @ [c]) st''"

text \<open>Whether partitioning is open after a sequence of commands: the last start or stop decides.\<close>

definition partitioning_open :: "bool \<Rightarrow> oem_command list \<Rightarrow> bool" where
  "partitioning_open = foldl (\<lambda>b c. case c of Start_partitioning _ \<Rightarrow> True | Stop_partitioning _ \<Rightarrow> False | _ \<Rightarrow> b)"

lemma fb_gpt_sub_command_keeps:
  "fb_gpt_sub_command env argv st = Some (r, st') \<Longrightarrow> sys_partitioning st' = sys_partitioning st"
  by (auto simp: fb_gpt_sub_command_def bind_eq_Some_conv split: list.splits option.splits)

lemma fb_run_lines_keeps: "fb_run_lines env k ls st = Some (r, st') \<Longrightarrow> sys_partitioning st' = sys_partitioning st"
proof (induction ls arbitrary: k st)
  case (Cons l ls)
  then obtain line r1 st1 where l: "fb_gpt_sub_command (env k) (str_to_array line) st = Some (r1, st1)"
      "(if r1 \<noteq> 0 then Some (- 1, st1) else fb_run_lines env (Suc k) ls st1) = Some (r, st')"
    by (auto simp: bind_eq_Some_conv)
  then have "sys_partitioning st' = sys_partitioning st1" using Cons.IH by (auto split: if_splits)
  then show ?case using fb_gpt_sub_command_keeps [OF l(1)] by simp
qed simp

lemma fb_gpt_handler_keeps: "fb_gpt_handler env fp st = Some (r, st') \<Longrightarrow> sys_partitioning st' = sys_partitioning st"
  by (auto simp: fb_gpt_handler_def split: if_splits dest: fb_run_lines_keeps)

lemma fb_mbr_handler_keeps: "fb_mbr_handler fp st = Some (r, st') \<Longrightarrow> sys_partitioning st' = sys_partitioning st"
  by (auto simp: fb_mbr_handler_def split: prod.splits)

lemma oem_partition_cmd_handler_keeps:
  "oem_partition_cmd_handler env argv st = Some (r, st') \<Longrightarrow> sys_partitioning st' = sys_partitioning st"
  by (auto simp: oem_partition_cmd_handler_def bind_eq_Some_conv split: list.splits option.splits if_splits prod.splits
      dest: fb_gpt_handler_keeps fb_mbr_handler_keeps)

lemmas oem_handlers = oem_partition_start_handler_def oem_partition_stop_handler_def
  oem_retrieve_partitions_def oem_erase_partition_def oem_wipe_partition_def oem_repart_partition_def

lemma oem_run_partitioning:
  assumes "oem_run rt c st = Some (r, st')"
  shows "(sys_partitioning st' = ''1'') = partitioning_open (sys_partitioning st = ''1'') [c]"
  using assms
  by (cases c) (auto simp: oem_run_def oem_handlers partitioning_open_def bind_eq_Some_conv
      split: list.splits option.splits if_splits prod.splits dest: oem_partition_cmd_handler_keeps)

lemma oem_session_partitioning:
  "oem_session rt st cs st' \<Longrightarrow> (sys_partitioning st' = ''1'') = partitioning_open (sys_partitioning st = ''1'') cs"
proof (induction rule: oem_session.induct)
  case (next_command cs st' c r st'')
  then show ?case using oem_run_partitioning [OF next_command.hyps(2)] by (simp add: partitioning_open_def)
qed (simp add: partitioning_open_def)

text \<open>A partition file for a GPT, with the script behind its first line; and the script run to its end, every line with
  result 0.\<close>

definition gpt_script :: "blkdev \<Rightarrow> string \<Rightarrow> bool" where
  "gpt_script f fp \<longleftrightarrow> (\<exists>first l t. fgets 255 (map (\<lambda>b. char_of (unat b)) (bytes f)) = (first, fp) \<and> chop first = Some l \<and>
     scan_partition_type l = Some t \<and> take (length t) ''gpt'' = t)"

inductive fb_script_ok :: "(nat \<Rightarrow> environment) \<Rightarrow> nat \<Rightarrow> string list \<Rightarrow> oem_state \<Rightarrow> oem_state \<Rightarrow> bool" for env where
  fb_finished: "fb_script_ok env k [] st st"
| fb_line: "chomp l = Some line \<Longrightarrow> fb_gpt_sub_command (env k) (str_to_array line) st = Some (0, st') \<Longrightarrow>
    fb_script_ok env (Suc k) ls st' st'' \<Longrightarrow> fb_script_ok env k (l # ls) st st''"

inductive_simps fb_script_ok_simps: "fb_script_ok env k [] st st'" "fb_script_ok env k (l # ls) st st'"

lemma fb_run_lines_ok: "fb_run_lines env k ls st = Some (0, st') \<longleftrightarrow> fb_script_ok env k ls st st'"
  by (induction ls arbitrary: k st) (auto simp: fb_script_ok_simps bind_eq_Some_conv split: if_splits)

lemma gpt_script_handler:
  assumes "gpt_script f fp" "disk st path = Some f"
  shows "oem_partition_cmd_handler env [c, path] st = fb_gpt_handler env fp st"
proof -
  obtain first l t where s: "fgets 255 (map (\<lambda>b. char_of (unat b)) (bytes f)) = (first, fp)" "chop first = Some l"
      "scan_partition_type l = Some t" "take (length t) ''gpt'' = t"
    using assms(1) by (auto simp: gpt_script_def)
  moreover from s(2) have "first \<noteq> []" by (auto simp: chop_def)
  ultimately show ?thesis using assms(2) by (simp add: oem_partition_cmd_handler_def)
qed

text \<open>C27: Partitioning sessions: in every state that a sequence of fastboot commands reaches, the last of the commands that
  start and stop partitioning decides what a GPT script may do. When partitioning is not open the script and the request
  to re-read the partitions are refused and change nothing. When it is open the script succeeds exactly when each of its
  lines runs a command with result 0, in order, each on the state that the one before has left.\<close>

theorem gpt_scripts_need_open_session:
  assumes "oem_session rt st0 cs st" "disk st path = Some f" "gpt_script f fp"
  shows "if partitioning_open (sys_partitioning st0 = ''1'') cs
    then oem_partition_cmd_handler env [c, path] st = Some (0, st') \<longleftrightarrow> fb_script_ok env 0 (fgets_lines 255 fp) st st'
    else oem_partition_cmd_handler env [c, path] st = Some (- 1, st) \<and> oem_retrieve_partitions e optind stray [c] st = Some (- 1, st)"
  using oem_session_partitioning [OF assms(1)] gpt_script_handler [OF assms(3,2)]
  by (auto simp: fb_gpt_handler_def fb_run_lines_ok oem_retrieve_partitions_def)

definition sample_gpt_file :: blkdev where
  "sample_gpt_file = empty_file\<lparr>bytes := map of_char ''p=g'' @ [10]\<rparr>"

lemma sample_gpt_file_script: "gpt_script sample_gpt_file []"
proof -
  have "map (\<lambda>b. char_of (unat b)) (bytes sample_gpt_file) = ''p=g'' @ newline"
    by (simp add: sample_gpt_file_def newline_def char_of_eq_iff)
  then have "fgets 255 (map (\<lambda>b. char_of (unat b)) (bytes sample_gpt_file)) = (''p=g'' @ newline, [])"
    using fgets_line [of "''p=g''" 255 "[]"] by (simp add: newline_def)
  moreover have "chop (''p=g'' @ newline) = Some ''p=g''" "scan_partition_type ''p=g'' = Some ''g''"
    by (simp_all add: chop_def newline_def scan_partition_type_def is_space_def)
  ultimately show ?thesis unfolding gpt_script_def by (intro exI conjI) (assumption | simp)+
qed

definition quiet_env :: environment where
  "quiet_env = \<lparr>urandom = None, symlink = (\<lambda>_. False), blkrrpart = (\<lambda>_. 0)\<rparr>"

definition sample_oem_state :: oem_state where
  "sample_oem_state = oem_state0 [''f'' \<mapsto> sample_gpt_file]"

theorem gpt_scripts_need_open_session_witness:
  "oem_partition_cmd_handler (\<lambda>_. quiet_env) [''partition'', ''f''] sample_oem_state = Some (- 1, sample_oem_state) \<and>
   oem_partition_cmd_handler (\<lambda>_. quiet_env) [''partition'', ''f''] (sample_oem_state\<lparr>sys_partitioning := ''1''\<rparr>) =
     Some (0, sample_oem_state\<lparr>sys_partitioning := ''1''\<rparr>)"
proof -
  let ?st = "sample_oem_state\<lparr>sys_partitioning := ''1''\<rparr>"
  have d: "disk sample_oem_state ''f'' = Some sample_gpt_file" "disk ?st ''f'' = Some sample_gpt_file" "sys_partitioning sample_oem_state = []"
    by (simp_all add: sample_oem_state_def oem_state0_def)
  have "oem_run sample_roots (Start_partitioning []) sample_oem_state = Some (0, ?st)"
    by (simp add: oem_run_def oem_partition_start_handler_def sample_oem_state_def oem_state0_def fake_umount_all_def)
  then have "oem_session sample_roots sample_oem_state [Start_partitioning []] ?st"
    using next_command [OF begin_session] by fastforce
  from gpt_scripts_need_open_session [OF this d(2) sample_gpt_file_script]
  have "oem_partition_cmd_handler (\<lambda>_. quiet_env) [''partition'', ''f''] ?st = Some (0, ?st)"
    by (simp add: partitioning_open_def fgets_lines.simps fb_script_ok_simps)
  moreover from gpt_scripts_need_open_session [OF begin_session d(1) sample_gpt_file_script]
  have "oem_partition_cmd_handler (\<lambda>_. quiet_env) [''partition'', ''f''] sample_oem_state = Some (- 1, sample_oem_state)"
    by (simp add: partitioning_open_def d(3))
  ultimately show ?thesis by blast
qed

end
