(* ===== verification/Tee_Connector.thy ===== *)
theory Tee_Connector
  imports Cgpt_Cli Stdio "HOL-Library.Sublist"
begin

text \<open>
  The access to the security engine: \<open>tee_connector.c\<close>, the requests for tokens, identifiers and keys, and \<open>teeprov.c\<close>, the
  program that sends them. The library behind the \<open>tee_\<close> functions is not part of the repository: a record \<open>tee\<close> of its
  functions on a state \<open>'t\<close> of the engine stands for it. A function of the library that returns data gives its result and
  the data it has stored. Error messages are not modelled. Memory is sufficient.
\<close>

unbundle bit_operations_syntax

record 't tee =
  tee_token_sgids_get :: "u32 \<Rightarrow> 't \<Rightarrow> int \<times> u32 list"
  tee_token_itemids_get :: "u32 \<Rightarrow> u32 \<Rightarrow> 't \<Rightarrow> int \<times> u32 list"
  tee_token_item_size_get :: "u32 \<Rightarrow> u32 \<Rightarrow> u32 \<Rightarrow> 't \<Rightarrow> int \<times> u32"
  tee_token_item_read :: "u32 \<Rightarrow> u32 \<Rightarrow> u32 \<Rightarrow> nat \<Rightarrow> 't \<Rightarrow> int \<times> buffer"
  tee_token_lifetimedata_get :: "'t \<Rightarrow> int \<times> u32 \<times> buffer \<times> buffer"
  tee_token_update_start :: "'t \<Rightarrow> int \<times> 't"
  tee_token_update_cancel :: "'t \<Rightarrow> int \<times> 't"
  tee_token_update_end :: "'t \<Rightarrow> int \<times> 't"
  tee_partid_get :: "'t \<Rightarrow> int \<times> buffer"
  tee_token_write :: "buffer \<Rightarrow> 't \<Rightarrow> int \<times> 't"
  tee_token_info_get :: "u32 \<Rightarrow> 't \<Rightarrow> int \<times> u32"
  tee_token_read :: "u32 \<Rightarrow> nat \<Rightarrow> 't \<Rightarrow> int \<times> buffer"
  tee_token_remove :: "u32 \<Rightarrow> 't \<Rightarrow> int \<times> 't"
  tee_token_cryptid_request :: "buffer \<Rightarrow> 't \<Rightarrow> int \<times> buffer"
  tee_token_gen_shared_ecc :: "'t \<Rightarrow> int \<times> buffer"
  tee_token_gen_shared_rsa :: "'t \<Rightarrow> int \<times> buffer \<times> buffer"
  tee_get_oem_id_public :: "'t \<Rightarrow> int \<times> buffer"

subsection \<open>Output\<close>

text \<open>The state of the program: the engine, the files, the output file with the position in it, if one is set, and the
  texts that \<open>print_fun\<close> has been given.\<close>

record 't tee_state =
  engine :: 't
  tfiles :: fs
  output_fd :: "(string \<times> nat) option"
  printed :: "string list"

type_synonym 't tee_outcome = "(int \<times> 't tee_state) option"

text \<open>One \<open>write\<close> per byte; its result is not looked at.\<close>

fun write_bytes :: "blkdev \<Rightarrow> nat \<Rightarrow> buffer \<Rightarrow> blkdev \<times> nat" where
  "write_bytes d pos [] = (d, pos)"
| "write_bytes d pos (b # bs) =
    (case dev_write d pos [b] of None \<Rightarrow> write_bytes d pos bs | Some (n, d) \<Rightarrow> write_bytes d (pos + n) bs)"

definition output_data :: "buffer \<Rightarrow> 't tee_state \<Rightarrow> 't tee_state option" where
  "output_data data st =
    (case output_fd st of
       Some (path, pos) \<Rightarrow>
         do { d \<leftarrow> tfiles st path;
              let (d, pos) = write_bytes d pos data;
              Some (st\<lparr>tfiles := (tfiles st)(path \<mapsto> d), output_fd := Some (path, pos)\<rparr>) }
     | None \<Rightarrow> do { rows \<leftarrow> hexdump_buffer data (length data); Some (st\<lparr>printed := printed st @ rows\<rparr>) })"

definition set_output_file :: "(string \<Rightarrow> bool) \<Rightarrow> string \<Rightarrow> 't tee_state \<Rightarrow> int \<times> 't tee_state" where
  "set_output_file can_create path st =
    (case open_trunc can_create (tfiles st) path of
       None \<Rightarrow> (1, st\<lparr>output_fd := None\<rparr>)
     | Some d \<Rightarrow> (0, st\<lparr>tfiles := (tfiles st)(path \<mapsto> d), output_fd := Some (path, 0)\<rparr>))"

definition close_output_file_when_open :: "'t tee_state \<Rightarrow> 't tee_state" where
  "close_output_file_when_open st = st\<lparr>output_fd := None\<rparr>"

subsection \<open>Tokens\<close>

text \<open>\<open>parse_datagroup_id\<close>: \<open>None\<close> is the result \<open>-1\<close>, which a number can have too.\<close>

definition parse_datagroup_id :: "string \<Rightarrow> u32 option" where
  "parse_datagroup_id arg =
    (let s = dropWhile is_space arg;
         sgn = s \<noteq> [] \<and> (hd s = CHR ''-'' \<or> hd s = CHR ''+'');
         (v, k, rest) = scan_base 10 (if sgn then tl s else s) 0 0;
         end = (if k = 0 then arg else rest);
         ret = (if k = 0 then 0 else if sgn \<and> hd s = CHR ''-'' then - of_nat v else of_nat v)
     in if end \<noteq> [] \<or> 2 ^ 32 \<le> v \<or> ret = - 1 then None else Some ret)"

abbreviation (input) "PAYLOAD_MAX_SIZE \<equiv> 32 :: nat"
abbreviation (input) "PRINT_BUFFER_SIZE \<equiv> 1024 :: nat"

definition SPID_DATAGROUP :: u32 where "SPID_DATAGROUP = 1"
definition SERIAL_NUMBER_DATAGROUP :: u32 where "SERIAL_NUMBER_DATAGROUP = 5"
definition FRU_DATAGROUP :: u32 where "FRU_DATAGROUP = 6"

text \<open>The items of one subgroup, behind the data so far; then those of all the subgroups. A result other than 0 ends the
  loops.\<close>

fun token_items :: "'t tee \<Rightarrow> 't \<Rightarrow> u32 \<Rightarrow> u32 \<Rightarrow> u32 list \<Rightarrow> buffer \<Rightarrow> int \<times> buffer" where
  "token_items T t dg sg [] data = (0, data)"
| "token_items T t dg sg (item # items) data =
    (let (ret, payload_size) = tee_token_item_size_get T dg sg item t in
     if ret \<noteq> 0 then (ret, data)
     else if unat payload_size > PAYLOAD_MAX_SIZE then (1, data)
     else let (ret, payload) = tee_token_item_read T dg sg item (unat payload_size) t in
       if ret \<noteq> 0 then (ret, data)
       else if length data + unat payload_size \<ge> PRINT_BUFFER_SIZE then (1, data)
       else token_items T t dg sg items (data @ take (unat payload_size) (payload @ replicate PAYLOAD_MAX_SIZE 0)))"

fun token_groups :: "'t tee \<Rightarrow> 't \<Rightarrow> u32 \<Rightarrow> u32 list \<Rightarrow> buffer \<Rightarrow> int \<times> buffer" where
  "token_groups T t dg [] data = (0, data)"
| "token_groups T t dg (sg # sgs) data =
    (let (ret, items) = tee_token_itemids_get T dg sg t in
     if ret \<noteq> 0 then (ret, data)
     else let (ret, data) = token_items T t dg sg items data in
       if ret \<noteq> 0 then (ret, data) else token_groups T t dg sgs data)"

definition swap_nibbles :: "byte \<Rightarrow> byte" where
  "swap_nibbles b = push_bit 4 b OR drop_bit 4 b"

definition token_data :: "'t tee \<Rightarrow> u32 \<Rightarrow> 't \<Rightarrow> int \<times> buffer" where
  "token_data T dg t =
    (let (ret, sg_list) = tee_token_sgids_get T dg t in if ret \<noteq> 0 then (ret, []) else token_groups T t dg sg_list [])"

text \<open>What has been read is printed also after an error.\<close>

definition parse_token :: "'t tee \<Rightarrow> u32 \<Rightarrow> 't tee_state \<Rightarrow> 't tee_outcome" where
  "parse_token T dg st =
    (let (ret, data) = token_data T dg (engine st)
     in if data = [] then Some (ret, st)
        else do { st \<leftarrow> output_data (if dg = FRU_DATAGROUP then map swap_nibbles data else data) st; Some (ret, st) })"

definition get_lifetime :: "'t tee \<Rightarrow> 't tee_state \<Rightarrow> 't tee_outcome" where
  "get_lifetime T st =
    (let (ret, timestamp, nonce, mac) = tee_token_lifetimedata_get T (engine st) in
     if ret \<noteq> 0 then Some (ret, st)
     else do { st \<leftarrow> output_data (le_bytes 4 timestamp) st; st \<leftarrow> output_data nonce st; st \<leftarrow> output_data mac st; Some (ret, st) })"

text \<open>The frame of the requests that print what the engine returns.\<close>

definition output_result :: "int \<times> buffer \<Rightarrow> 't tee_state \<Rightarrow> 't tee_outcome" where
  "output_result r st = (if fst r \<noteq> 0 then Some (fst r, st) else do { st \<leftarrow> output_data (snd r) st; Some (fst r, st) })"

definition get_ssn :: "'t tee \<Rightarrow> 't tee_state \<Rightarrow> 't tee_outcome" where
  "get_ssn T st = output_result (tee_token_item_read T SERIAL_NUMBER_DATAGROUP 11 1 32 (engine st)) st"

text \<open>The frame of the requests that change the engine.\<close>

definition engine_call :: "('t \<Rightarrow> int \<times> 't) \<Rightarrow> 't tee_state \<Rightarrow> int \<times> 't tee_state" where
  "engine_call f st = (let (ret, t) = f (engine st) in (ret, st\<lparr>engine := t\<rparr>))"

definition start_update :: "'t tee \<Rightarrow> 't tee_state \<Rightarrow> int \<times> 't tee_state" where
  "start_update T = engine_call (tee_token_update_start T)"

definition cancel_update :: "'t tee \<Rightarrow> 't tee_state \<Rightarrow> int \<times> 't tee_state" where
  "cancel_update T = engine_call (tee_token_update_cancel T)"

definition finalize_update :: "'t tee \<Rightarrow> 't tee_state \<Rightarrow> int \<times> 't tee_state" where
  "finalize_update T = engine_call (tee_token_update_end T)"

text \<open>Subgroup, item and size of the parts of the SPID.\<close>

definition SPID_ITEMS :: "(u32 \<times> u32 \<times> nat) list" where
  "SPID_ITEMS = [(11, 1, 2), (12, 1, 2), (12, 2, 2), (10, 1, 2), (10, 2, 2), (10, 3, 2)]"

fun spid_payload :: "'t tee \<Rightarrow> 't \<Rightarrow> (u32 \<times> u32 \<times> nat) list \<Rightarrow> buffer \<Rightarrow> int \<times> buffer" where
  "spid_payload T t [] payload = (0, payload)"
| "spid_payload T t ((sg, item, sz) # items) payload =
    (let (ret, bs) = tee_token_item_read T SPID_DATAGROUP sg item sz t in
     if ret \<noteq> 0 then (ret, payload) else spid_payload T t items (payload @ bs))"

definition get_spid :: "'t tee \<Rightarrow> 't tee_state \<Rightarrow> 't tee_outcome" where
  "get_spid T st = output_result (spid_payload T (engine st) SPID_ITEMS []) st"

definition get_fru :: "'t tee \<Rightarrow> 't tee_state \<Rightarrow> 't tee_outcome" where
  "get_fru T st = parse_token T FRU_DATAGROUP st"

definition get_part_id :: "'t tee \<Rightarrow> 't tee_state \<Rightarrow> 't tee_outcome" where
  "get_part_id T st = output_result (tee_partid_get T (engine st)) st"

definition write_token :: "'t tee \<Rightarrow> buffer \<Rightarrow> 't tee_state \<Rightarrow> 't tee_outcome" where
  "write_token T data st = Some (engine_call (tee_token_write T data) st)"

text \<open>\<open>argv\<close> begins with a word that is not used. A failed \<open>tee_token_read\<close> is reported as a success.\<close>

definition read_token :: "'t tee \<Rightarrow> string list \<Rightarrow> 't tee_state \<Rightarrow> 't tee_outcome" where
  "read_token T argv st =
    (case argv of
       [_, arg] \<Rightarrow>
         (case parse_datagroup_id arg of None \<Rightarrow> Some (1, st)
          | Some datagroup_id \<Rightarrow>
            let (ret, token_size) = tee_token_info_get T datagroup_id (engine st) in
            if ret \<noteq> 0 then Some (ret, st)
            else if token_size = 0 then Some (1, st)
            else let (ret, buf) = tee_token_read T datagroup_id (unat (token_size * 4)) (engine st) in
              if ret \<noteq> 0 then Some (0, st) else do { st \<leftarrow> output_data buf st; Some (0, st) })
     | _ \<Rightarrow> Some (1, st))"

definition read_token_payload :: "'t tee \<Rightarrow> string list \<Rightarrow> 't tee_state \<Rightarrow> 't tee_outcome" where
  "read_token_payload T argv st =
    (case argv of
       [_, arg] \<Rightarrow> (case parse_datagroup_id arg of None \<Rightarrow> Some (1, st) | Some datagroup_id \<Rightarrow> parse_token T datagroup_id st)
     | _ \<Rightarrow> Some (1, st))"

definition remove_token :: "'t tee \<Rightarrow> string list \<Rightarrow> 't tee_state \<Rightarrow> 't tee_outcome" where
  "remove_token T argv st =
    (case argv of
       [_, arg] \<Rightarrow>
         (case parse_datagroup_id arg of None \<Rightarrow> Some (1, st)
          | Some datagroup_id \<Rightarrow> Some (engine_call (tee_token_remove T datagroup_id) st))
     | _ \<Rightarrow> Some (1, st))"

definition send_cryptid_request :: "'t tee \<Rightarrow> buffer \<Rightarrow> 't tee_state \<Rightarrow> 't tee_outcome" where
  "send_cryptid_request T data st = output_result (tee_token_cryptid_request T data (engine st)) st"

definition generate_shared_ecc :: "'t tee \<Rightarrow> 't tee_state \<Rightarrow> 't tee_outcome" where
  "generate_shared_ecc T st = output_result (tee_token_gen_shared_ecc T (engine st)) st"

definition generate_shared_rsa :: "'t tee \<Rightarrow> (string \<Rightarrow> bool) \<Rightarrow> string list \<Rightarrow> 't tee_state \<Rightarrow> int \<times> 't tee_state" where
  "generate_shared_rsa T can_create argv st =
    (case argv of
       [_, pub, prv] \<Rightarrow>
         let (ret, pub_key, prv_key) = tee_token_gen_shared_rsa T (engine st) in
         if ret \<noteq> 0 then (ret, st)
         else let (r, files) = file_write can_create pub pub_key (tfiles st) in
           if r < 0 then (1, st\<lparr>tfiles := files\<rparr>)
           else let (r, files) = file_write can_create prv prv_key files in
             (if r < 0 then 1 else ret, st\<lparr>tfiles := files\<rparr>)
     | _ \<Rightarrow> (1, st))"

definition get_oem_id :: "'t tee \<Rightarrow> 't tee_state \<Rightarrow> 't tee_outcome" where
  "get_oem_id T st = output_result (tee_get_oem_id_public T (engine st)) st"

subsection \<open>The program teeprov\<close>

text \<open>\<open>write_chaabi_file\<close>: a file can be mapped if it has contents that \<open>stat\<close> reports (\<open>mappable\<close> says what else \<open>mmap\<close>
  needs). \<open>munmap\<close> and \<open>close\<close> succeed.\<close>

definition write_chaabi_file :: "(string \<Rightarrow> bool) \<Rightarrow> string \<Rightarrow> (buffer \<Rightarrow> 't tee_state \<Rightarrow> 't tee_outcome) \<Rightarrow>
    't tee_state \<Rightarrow> 't tee_outcome" where
  "write_chaabi_file mappable file_path chaabi_operation st =
    (case tfiles st file_path of None \<Rightarrow> Some (1, st)
     | Some d \<Rightarrow>
       if \<not> stat_ok d then Some (1, st)
       else if st_size d = 0 \<or> \<not> mappable file_path then Some (1, st)
       else chaabi_operation (take (st_size d) (bytes d)) st)"

definition teeprov_long_options :: "(string \<times> bool \<times> char) list" where
  "teeprov_long_options =
    [(''get-spid'', False, CHR ''s''), (''get-fru'', False, CHR ''f''), (''get-part-id'', False, CHR ''p''),
     (''get-lifetime'', False, CHR ''l''), (''get-ssn'', False, CHR ''n''), (''start-update'', False, CHR ''u''),
     (''cancel-update'', False, CHR ''c''), (''finalize-update'', False, CHR ''z''), (''write-token'', True, CHR ''w''),
     (''read-token'', True, CHR ''r''), (''read-token-payload'', True, CHR ''R''), (''remove-token'', True, CHR ''m''),
     (''secure'', True, CHR ''y''), (''generate-ecc'', False, CHR ''e''), (''generate'', True, CHR ''g''),
     (''get-oem-id'', False, CHR ''i''), (''output-file'', True, CHR ''o''), (''help'', False, CHR ''h'')]"

definition teeprov_long_option :: "string \<Rightarrow> (bool \<times> char) option" where
  "teeprov_long_option nm =
    (case map_of teeprov_long_options nm of Some x \<Rightarrow> Some x
     | None \<Rightarrow> (case filter (\<lambda>(n, x). take (length nm) n = nm) teeprov_long_options of [(_, x)] \<Rightarrow> Some x | _ \<Rightarrow> None))"

text \<open>One call of \<open>getopt_long\<close> at the index \<open>optind\<close> of \<open>argv\<close>, at the beginning of a word, which is where every call of
  the program is, as all options but \<open>-o FILE\<close> end it: the event and \<open>optind\<close> after it. Operands are passed over. \<open>None\<close> is
  the result \<open>-1\<close>. In a word of several options without arguments, \<open>optind\<close> stays at the word.\<close>

function teeprov_getopt :: "string list \<Rightarrow> nat \<Rightarrow> (opt_event \<times> nat) option" where
  "teeprov_getopt argv optind =
    (if optind \<ge> length argv then None
     else let a = argv ! optind;
              with_arg = (\<lambda>c. if Suc optind < length argv then (Opt c (argv ! Suc optind), optind + 2)
                              else (Missing c, Suc optind)) in
       if a = ''--'' then None
       else if take 2 a = ''--'' then
         let w = drop 2 a; nm = takeWhile (\<lambda>c. c \<noteq> CHR ''='') w in
         Some (case teeprov_long_option nm of
             None \<Rightarrow> (Unknown CHR ''?'', Suc optind)
           | Some (False, c) \<Rightarrow> (if nm = w then Opt c [] else Unknown c, Suc optind)
           | Some (True, c) \<Rightarrow> if nm \<noteq> w then (Opt c (drop (Suc (length nm)) w), Suc optind) else with_arg c)
       else if length a < 2 \<or> hd a \<noteq> CHR ''-'' then teeprov_getopt argv (Suc optind)
       else let c = a ! 1 in
         Some (case opt_spec ''sfplnuczw:y:eg:r:R:o:hm:i'' c of
             None \<Rightarrow> (Unknown c, Suc optind)
           | Some False \<Rightarrow> (Opt c [], if length a = 2 then Suc optind else optind)
           | Some True \<Rightarrow> if length a > 2 then (Opt c (drop 2 a), Suc optind) else with_arg c))"
  by auto
termination by (relation "measure (\<lambda>(argv, optind). length argv - optind)") auto

declare teeprov_getopt.simps [simp del]

text \<open>What the program needs of the system: which files can be created, and which can be mapped.\<close>

record sys_env =
  creatable_file :: "string \<Rightarrow> bool"
  mappable_file :: "string \<Rightarrow> bool"

text \<open>\<open>-r\<close>, \<open>-R\<close> and \<open>-m\<close> take their argument from \<open>argv[optind - 1]\<close> and not from \<open>optarg\<close>; \<open>-g\<close> takes two
  words from there. \<open>args\<close> are the two elements of \<open>argv\<close> before \<open>optind\<close>.\<close>

definition teeprov_option :: "'t tee \<Rightarrow> sys_env \<Rightarrow> string list \<Rightarrow> nat \<Rightarrow> char \<Rightarrow> string \<Rightarrow> 't tee_state \<Rightarrow> 't tee_outcome" where
  "teeprov_option T env argv optind c optarg st =
    (let args = take 2 (drop (optind - 2) argv) in
     if c = CHR ''s'' then get_spid T st
     else if c = CHR ''f'' then get_fru T st
     else if c = CHR ''p'' then get_part_id T st
     else if c = CHR ''l'' then get_lifetime T st
     else if c = CHR ''n'' then get_ssn T st
     else if c = CHR ''u'' then Some (start_update T st)
     else if c = CHR ''c'' then Some (cancel_update T st)
     else if c = CHR ''z'' then Some (finalize_update T st)
     else if c = CHR ''w'' then write_chaabi_file (mappable_file env) optarg (write_token T) st
     else if c = CHR ''r'' then read_token T args st
     else if c = CHR ''R'' then read_token_payload T args st
     else if c = CHR ''m'' then remove_token T args st
     else if c = CHR ''y'' then write_chaabi_file (mappable_file env) optarg (send_cryptid_request T) st
     else if c = CHR ''e'' then generate_shared_ecc T st
     else if c = CHR ''g'' then
       (if optind \<noteq> 3 \<or> length argv \<noteq> 4 then Some (1, st)
        else Some (generate_shared_rsa T (creatable_file env) (drop (optind - 2) argv) st))
     else if c = CHR ''i'' then get_oem_id T st
     else if c = CHR ''h'' then Some (0, st)
     else Some (1, st))"

lemma teeprov_getopt_progress:
  "teeprov_getopt argv optind = Some (Opt (CHR ''o'') x, optind') \<Longrightarrow> optind < optind'"
proof (induction argv optind rule: teeprov_getopt.induct)
  case (1 argv optind)
  have o: "opt_spec ''sfplnuczw:y:eg:r:R:o:hm:i'' (CHR ''o'') = Some True" by simp
  from 1 show ?case
    by (subst (asm) teeprov_getopt.simps)
      (auto simp: Let_def o split: if_splits option.splits prod.splits bool.splits dest: less_trans [OF lessI])
qed

text \<open>The loop of \<open>main\<close>: \<open>-o\<close> must be the first option, with its file in a word of its own, and is followed by the
  next one. The output file is closed at the end.\<close>

function teeprov_loop :: "'t tee \<Rightarrow> sys_env \<Rightarrow> string list \<Rightarrow> nat \<Rightarrow> 't tee_state \<Rightarrow> 't tee_outcome" where
  "teeprov_loop T env argv optind st =
    (case teeprov_getopt argv optind of
       None \<Rightarrow> Some (if length argv = 1 then 1 else 0, st)
     | Some (Opt c optarg, optind) \<Rightarrow>
         if c = CHR ''o'' then
           if optind \<noteq> 3 then Some (1, st)
           else let (ret, st) = set_output_file (creatable_file env) optarg st in
             if ret \<noteq> 0 then Some (ret, st) else teeprov_loop T env argv optind st
         else teeprov_option T env argv optind c optarg st
     | Some (_, optind) \<Rightarrow> Some (1, st))"
  by auto
termination
  by (relation "measure (\<lambda>(T, env, argv, optind, st). 3 - optind)") (auto dest!: teeprov_getopt_progress)

declare teeprov_loop.simps [simp del]

definition teeprov_main :: "'t tee \<Rightarrow> sys_env \<Rightarrow> string list \<Rightarrow> 't tee_state \<Rightarrow> 't tee_outcome" where
  "teeprov_main T env argv st =
    do { (ret, st) \<leftarrow> teeprov_loop T env argv 1 (st\<lparr>output_fd := None\<rparr>); Some (ret, close_output_file_when_open st) }"

subsection \<open>Properties\<close>

text \<open>The payload of an item, and whether the engine gives it; the items of a data group, and whether they can be listed.\<close>

definition item_payload :: "'t tee \<Rightarrow> 't \<Rightarrow> u32 \<Rightarrow> u32 \<times> u32 \<Rightarrow> buffer" where
  "item_payload T t dg = (\<lambda>(sg, item). let n = unat (snd (tee_token_item_size_get T dg sg item t)) in
     take n (snd (tee_token_item_read T dg sg item n t) @ replicate PAYLOAD_MAX_SIZE 0))"

definition item_readable :: "'t tee \<Rightarrow> 't \<Rightarrow> u32 \<Rightarrow> u32 \<times> u32 \<Rightarrow> bool" where
  "item_readable T t dg = (\<lambda>(sg, item). let n = unat (snd (tee_token_item_size_get T dg sg item t)) in
     fst (tee_token_item_size_get T dg sg item t) = 0 \<and> n \<le> PAYLOAD_MAX_SIZE \<and> fst (tee_token_item_read T dg sg item n t) = 0)"

definition group_items :: "'t tee \<Rightarrow> 't \<Rightarrow> u32 \<Rightarrow> u32 list \<Rightarrow> (u32 \<times> u32) list" where
  "group_items T t dg sgs = concat (map (\<lambda>sg. map (Pair sg) (snd (tee_token_itemids_get T dg sg t))) sgs)"

definition payloads :: "'t tee \<Rightarrow> 't \<Rightarrow> u32 \<Rightarrow> (u32 \<times> u32) list \<Rightarrow> buffer" where
  "payloads T t dg items = concat (map (item_payload T t dg) items)"

lemma length_item_payload: "item_readable T t dg (sg, item) \<Longrightarrow>
    length (item_payload T t dg (sg, item)) = unat (snd (tee_token_item_size_get T dg sg item t))"
  by (auto simp: item_payload_def item_readable_def Let_def min_def)

lemma token_items_reads:
  assumes "length data < PRINT_BUFFER_SIZE" "token_items T t dg sg items data = (ret, data')"
  shows "length data' < PRINT_BUFFER_SIZE \<and> (\<exists>p. data' = data @ p \<and> prefix p (payloads T t dg (map (Pair sg) items)) \<and>
      (ret = 0 \<longleftrightarrow> list_all (item_readable T t dg) (map (Pair sg) items) \<and>
        length (data @ payloads T t dg (map (Pair sg) items)) < PRINT_BUFFER_SIZE) \<and>
      (ret = 0 \<longrightarrow> p = payloads T t dg (map (Pair sg) items)))"
  using assms
proof (induction items arbitrary: data)
  case Nil
  then show ?case by (simp add: payloads_def)
next
  case (Cons item items)
  let ?n = "unat (snd (tee_token_item_size_get T dg sg item t))" and ?p = "item_payload T t dg (sg, item)"
  show ?case
  proof (cases "item_readable T t dg (sg, item) \<and> length data + ?n < PRINT_BUFFER_SIZE")
    case True
    then have "token_items T t dg sg items (data @ ?p) = (ret, data')"
      using Cons.prems(2) by (auto simp: item_readable_def item_payload_def Let_def split: prod.splits)
    with Cons.IH [of "data @ ?p"] True length_item_payload [of T t dg sg item] show ?thesis
      by (auto simp: payloads_def append_prefixD)
  next
    case False
    then have r: "ret \<noteq> 0" "data' = data"
      using Cons.prems(2) by (auto simp: item_readable_def Let_def split: prod.splits if_splits)
    then show ?thesis using False Cons.prems(1) length_item_payload [of T t dg sg item] by (auto simp: payloads_def)
  qed
qed

lemma token_groups_reads:
  assumes "length data < PRINT_BUFFER_SIZE" "token_groups T t dg sgs data = (ret, data')"
  shows "length data' < PRINT_BUFFER_SIZE \<and> (\<exists>p. data' = data @ p \<and> prefix p (payloads T t dg (group_items T t dg sgs)) \<and>
      (ret = 0 \<longleftrightarrow> list_all (\<lambda>sg. fst (tee_token_itemids_get T dg sg t) = 0) sgs \<and>
        list_all (item_readable T t dg) (group_items T t dg sgs) \<and>
        length (data @ payloads T t dg (group_items T t dg sgs)) < PRINT_BUFFER_SIZE) \<and>
      (ret = 0 \<longrightarrow> p = payloads T t dg (group_items T t dg sgs)))"
  using assms
proof (induction sgs arbitrary: data)
  case Nil
  then show ?case by (simp add: payloads_def group_items_def)
next
  case (Cons sg sgs)
  obtain r items where i: "tee_token_itemids_get T dg sg t = (r, items)" by fastforce
  obtain ret1 data1 where t: "token_items T t dg sg items data = (ret1, data1)" by fastforce
  note b = token_items_reads [OF Cons.prems(1) t]
  have split: "group_items T t dg (sg # sgs) = map (Pair sg) items @ group_items T t dg sgs"
    "payloads T t dg (xs @ ys) = payloads T t dg xs @ payloads T t dg ys" for xs ys
    by (simp_all add: group_items_def payloads_def i)
  show ?case
  proof (cases "r = 0 \<and> ret1 = 0")
    case True
    then have "token_groups T t dg sgs data1 = (ret, data')" using Cons.prems(2) i t by simp
    with Cons.IH [of data1] b True show ?thesis by (auto simp: split i)
  next
    case False
    then have "ret \<noteq> 0 \<and> (if r = 0 then ret = ret1 \<and> data' = data1 else data' = data)"
      using Cons.prems(2) i t by (auto split: if_splits)
    then show ?thesis using b Cons.prems(1) False by (auto simp: split i prefix_prefix split: if_splits)
  qed
qed

text \<open>C36: Reading a token, whatever the security engine answers: the buffer of 1024 bytes never overflows, and what is
  collected in it for printing is an initial part of the payloads of all items of the data group, in the order in which the engine lists them.
  The result is 0 exactly when the subgroups and the items can be listed, every item can be read and has at most 32 bytes, and
  all of them together have fewer than 1024 bytes; then everything is collected.\<close>

theorem parse_token_reads_items:
  fixes T :: "'t tee" and t :: 't and dg :: u32
  defines "sgs \<equiv> snd (tee_token_sgids_get T dg t)"
  defines "all \<equiv> payloads T t dg (group_items T t dg sgs)"
  shows "case token_data T dg t of (ret, data) \<Rightarrow>
    length data < 1024 \<and> prefix data all \<and>
    (ret = 0 \<longleftrightarrow> fst (tee_token_sgids_get T dg t) = 0 \<and> list_all (\<lambda>sg. fst (tee_token_itemids_get T dg sg t) = 0) sgs \<and>
       list_all (item_readable T t dg) (group_items T t dg sgs) \<and> length all < 1024) \<and>
    (ret = 0 \<longrightarrow> data = all)"
proof (cases "fst (tee_token_sgids_get T dg t) = 0")
  case True
  obtain ret data where g: "token_groups T t dg sgs [] = (ret, data)" by fastforce
  with True have "token_data T dg t = (ret, data)" by (simp add: token_data_def sgs_def split_beta)
  then show ?thesis using token_groups_reads [OF _ g] True by (simp add: all_def)
next
  case False
  then show ?thesis by (simp add: token_data_def split_beta)
qed

text \<open>An engine whose data group 6 has one subgroup with the items 1 and 2, and that keeps what is written as the first.\<close>

definition sample_tee :: "buffer tee" where
  "sample_tee = \<lparr>tee_token_sgids_get = (\<lambda>dg t. if dg = 6 then (0, [1]) else (5, [])),
     tee_token_itemids_get = (\<lambda>dg sg t. (0, [1, 2])),
     tee_token_item_size_get = (\<lambda>dg sg item t. (0, if item = 1 then of_nat (length t) else 1)),
     tee_token_item_read = (\<lambda>dg sg item n t. (0, if item = 1 then t else [0x21])),
     tee_token_lifetimedata_get = (\<lambda>t. (0, 1, [2], [3])),
     tee_token_update_start = (\<lambda>t. (0, t)), tee_token_update_cancel = (\<lambda>t. (0, t)), tee_token_update_end = (\<lambda>t. (0, t)),
     tee_partid_get = (\<lambda>t. (0, [4])), tee_token_write = (\<lambda>bs t. (0, bs)),
     tee_token_info_get = (\<lambda>dg t. (0, 1)), tee_token_read = (\<lambda>dg n t. (0, replicate n 9)),
     tee_token_remove = (\<lambda>dg t. (0, [])), tee_token_cryptid_request = (\<lambda>bs t. (0, bs)),
     tee_token_gen_shared_ecc = (\<lambda>t. (0, [5])), tee_token_gen_shared_rsa = (\<lambda>t. (0, [6], [7])),
     tee_get_oem_id_public = (\<lambda>t. (0, [8]))\<rparr>"

theorem parse_token_reads_items_witness:
  "token_data sample_tee 6 [0x43, 0x65] = (0, [0x43, 0x65, 0x21])"
  using parse_token_reads_items [where T = sample_tee and dg = 6 and t = "[0x43, 0x65]"]
  by (simp add: sample_tee_def group_items_def payloads_def item_payload_def item_readable_def Let_def split: prod.splits)

subsection \<open>Options\<close>

lemma parse_datagroup_id_option: "c \<in> set ''rRm-'' \<Longrightarrow> parse_datagroup_id (CHR ''-'' # c # s) = None"
  by (auto simp: parse_datagroup_id_def is_space_def hex_val_def)

text \<open>C37: The three options of \<open>teeprov\<close> that take a data group work only with the group in a word of its own. Then the request is
  made for that word. Joined to the option, as \<open>-r6\<close> or as the usage text has it, \<open>--read-token=6\<close>, every group is
  refused with exit status 1 and the engine is not asked. The command lines are those with this one option; an output file (\<open>-o\<close>) is
  not given.\<close>

theorem datagroup_needs_own_word:
  assumes "(c, opt, request) \<in> set [(CHR ''r'', ''read-token'', read_token T), (CHR ''R'', ''read-token-payload'', read_token_payload T),
      (CHR ''m'', ''remove-token'', remove_token T)]"
  shows "teeprov_main T env [prog, [CHR ''-'', c], dg] st =
      map_option (\<lambda>(r, st). (r, close_output_file_when_open st)) (request [[CHR ''-'', c], dg] (st\<lparr>output_fd := None\<rparr>)) \<and>
    teeprov_main T env [prog, ''--'' @ opt @ ''='' @ dg] st = Some (1, st\<lparr>output_fd := None\<rparr>) \<and>
    (dg \<noteq> [] \<longrightarrow> teeprov_main T env [prog, CHR ''-'' # c # dg] st = Some (1, st\<lparr>output_fd := None\<rparr>))"
proof -
  have long: "teeprov_long_option ''read-token'' = Some (True, CHR ''r'')"
      "teeprov_long_option ''read-token-payload'' = Some (True, CHR ''R'')"
      "teeprov_long_option ''remove-token'' = Some (True, CHR ''m'')"
    by (simp_all add: teeprov_long_option_def teeprov_long_options_def)
  have cases: "c = CHR ''r'' \<and> opt = ''read-token'' \<and> request = read_token T \<or>
      c = CHR ''R'' \<and> opt = ''read-token-payload'' \<and> request = read_token_payload T \<or>
      c = CHR ''m'' \<and> opt = ''remove-token'' \<and> request = remove_token T"
    using assms by simp
  then have c: "c \<in> set ''rRm-''" "c \<noteq> CHR ''o''" "opt_spec ''sfplnuczw:y:eg:r:R:o:hm:i'' c = Some True" "CHR ''='' \<notin> set opt"
      "teeprov_long_option opt = Some (True, c)" "c \<noteq> CHR ''-''"
    by (elim disjE conjE; simp add: long)+
  have run: "teeprov_option T env argv optind c x st = request (take 2 (drop (optind - 2) argv)) st" for argv optind x st
    using cases by (elim disjE conjE) (simp_all add: teeprov_option_def)
  have refuse: "request [prog, CHR ''-'' # c' # s] st = Some (1, st)" if "c' \<in> set ''rRm-''" for c' s st
    using cases parse_datagroup_id_option [OF that, of s]
    by (elim disjE conjE) (simp_all add: read_token_def read_token_payload_def remove_token_def)
  have "takeWhile (\<lambda>c. c \<noteq> CHR ''='') (opt @ ''='' @ dg) = opt" using c(4) by (subst takeWhile_append2) auto
  then have g: "teeprov_getopt [prog, ''--'' @ opt @ ''='' @ dg] 1 = Some (Opt c dg, 2)"
      "teeprov_getopt [prog, [CHR ''-'', c], dg] 1 = Some (Opt c dg, 3)"
      "dg \<noteq> [] \<Longrightarrow> teeprov_getopt [prog, CHR ''-'' # c # dg] 1 = Some (Opt c dg, 2)"
    using c by (simp_all add: teeprov_getopt.simps [of _ 1] teeprov_getopt.simps [of _ "Suc 0"] Let_def)
  have main: "teeprov_main T env argv st = map_option (\<lambda>(r, st). (r, close_output_file_when_open st))
      (request (take 2 (drop (n - 2) argv)) (st\<lparr>output_fd := None\<rparr>))" if "teeprov_getopt argv 1 = Some (Opt c dg, n)" for argv n
    unfolding teeprov_main_def teeprov_loop.simps [of T env argv 1] that
    using c(2) run by (simp add: map_conv_bind_option case_prod_unfold comp_def)
  show ?thesis
    using refuse [OF c(1)] refuse [of "CHR ''-''"] main [OF g(1)] main [OF g(2)] main [OF g(3)]
    by (simp add: close_output_file_when_open_def)
qed

definition sample_tee_state :: "buffer tee_state" where
  "sample_tee_state = \<lparr>engine = [1], tfiles = Map.empty, output_fd = None, printed = []\<rparr>"

definition no_files_env :: sys_env where
  "no_files_env = \<lparr>creatable_file = (\<lambda>_. False), mappable_file = (\<lambda>_. False)\<rparr>"

theorem datagroup_needs_own_word_witness:
  "teeprov_main sample_tee no_files_env [''teeprov'', ''-m'', ''6''] sample_tee_state = Some (0, sample_tee_state\<lparr>engine := []\<rparr>) \<and>
   teeprov_main sample_tee no_files_env [''teeprov'', ''--remove-token=6''] sample_tee_state = Some (1, sample_tee_state)"
proof -
  have "remove_token sample_tee [''-m'', ''6''] sample_tee_state = Some (0, sample_tee_state\<lparr>engine := []\<rparr>)"
    by (simp add: remove_token_def parse_datagroup_id_def is_space_def hex_val_def engine_call_def sample_tee_def)
  then show ?thesis
    using datagroup_needs_own_word [of "CHR ''m''" "''remove-token''" "remove_token sample_tee" sample_tee no_files_env "''teeprov''" "''6''"
        sample_tee_state]
    by (simp add: sample_tee_state_def close_output_file_when_open_def)
qed

end
