(* ===== verification/Pmdb.thy ===== *)
theory Pmdb
  imports Tee_Connector
begin

text \<open>
  The number of the field replaceable unit (FRU) and the tokens of the security engine without the TEE: \<open>pmdb.c\<close>,
  \<open>pmdb-access-sep.c\<close>, \<open>token.c\<close>, and the fastboot command \<open>oem fru\<close> of \<open>droidboot.c\<close>. The engine's functions are not part of
  the repository; they are the records \<open>sep\<close> and \<open>fru_tee\<close>.
\<close>

subsection \<open>The platform database\<close>

datatype pmdb_database = WO | WM

text \<open>The two areas of the database, and the requests for tokens.\<close>

record 's sep =
  SEP_PMDB_WRITE_ONCE_SIZE :: nat
  SEP_PMDB_WRITE_MANY_SIZE :: nat
  sep_pmdb_read :: "pmdb_database \<Rightarrow> 's \<Rightarrow> buffer option"
  sep_pmdb_write :: "pmdb_database \<Rightarrow> buffer \<Rightarrow> 's \<Rightarrow> bool \<times> 's"
  sep_sectoken_request_token :: "'s \<Rightarrow> int \<times> buffer"
  sep_sectoken_consume_token :: "buffer \<Rightarrow> 's \<Rightarrow> int \<times> 's"
  ST_SUCCESSFUL :: int
  ST_FAIL_SECURE_TOKEN_SIZE_TOO_SMALL_FAILURE :: int

definition pmdb_area_size :: "'s sep \<Rightarrow> pmdb_database \<Rightarrow> nat" where
  "pmdb_area_size S area = (case area of WO \<Rightarrow> SEP_PMDB_WRITE_ONCE_SIZE S | WM \<Rightarrow> SEP_PMDB_WRITE_MANY_SIZE S)"

definition pmdb_read_modify_write :: "'s sep \<Rightarrow> pmdb_database \<Rightarrow> buffer \<Rightarrow> u32 \<Rightarrow> u32 \<Rightarrow> 's \<Rightarrow> int \<times> 's" where
  "pmdb_read_modify_write S area data sz offset s =
    (if unat (offset + sz) > pmdb_area_size S area then (- 1, s)
     else case sep_pmdb_read S area s of None \<Rightarrow> (- 1, s)
       | Some b \<Rightarrow>
         let (ok, s) = sep_pmdb_write S area (overlay (unat offset) (take (unat sz) data) b) s in
         (if ok then 0 else - 1, s))"

definition pmdb_access_write :: "'s sep \<Rightarrow> buffer \<Rightarrow> pmdb_database \<Rightarrow> u32 \<Rightarrow> u32 \<Rightarrow> 's \<Rightarrow> int \<times> 's" where
  "pmdb_access_write S buf db offset sz s = pmdb_read_modify_write S (if db = WO then WO else WM) buf sz offset s"

abbreviation (input) "PMDB_FRU_SIZE \<equiv> 10 :: nat"
abbreviation (input) "CHECKSUM_SIZE \<equiv> 4 :: nat"

text \<open>Name, area, offset and size of the fields.\<close>

definition pmdb_fields :: "(string \<times> pmdb_database \<times> u32 \<times> u32) list" where
  "pmdb_fields = [(''fru'', WM, 0, of_nat PMDB_FRU_SIZE), (''fru+cs'', WM, 0, of_nat (PMDB_FRU_SIZE + CHECKSUM_SIZE))]"

definition pmdb_field :: "string \<Rightarrow> (pmdb_database \<times> u32 \<times> u32) option" where
  "pmdb_field nm = map_of pmdb_fields nm"

definition pmdb_write_field :: "'s sep \<Rightarrow> string \<Rightarrow> buffer \<Rightarrow> 's \<Rightarrow> int \<times> 's" where
  "pmdb_write_field S nm buf s =
    (case pmdb_field nm of None \<Rightarrow> (- 4, s)
     | Some (db, offset, sz) \<Rightarrow> if length buf \<noteq> unat sz then (- 3, s) else pmdb_access_write S buf db offset sz s)"

text \<open>The field with its checksum: one byte, and three zeros.\<close>

definition fru_with_cs :: "buffer \<Rightarrow> buffer" where
  "fru_with_cs buf =
    (let v = take PMDB_FRU_SIZE (buf @ replicate PMDB_FRU_SIZE 0) in v @ [twoscomplement v] @ replicate (CHECKSUM_SIZE - 1) 0)"

definition pmdb_write_fru :: "'s sep \<Rightarrow> buffer \<Rightarrow> 's \<Rightarrow> int \<times> 's" where
  "pmdb_write_fru S buf s = pmdb_write_field S ''fru+cs'' (fru_with_cs buf) s"

text \<open>With the TEE: the layout of \<open>struct FRU_RAW\<close> and the size of its value are those of the library.\<close>

record 't fru_tee =
  FRU_RAW :: "buffer \<Rightarrow> buffer"
  fru_value_size :: nat
  tee_token_write_tmp :: "buffer \<Rightarrow> 't \<Rightarrow> int \<times> 't"

definition pmdb_write_fru_tee :: "'t fru_tee \<Rightarrow> buffer \<Rightarrow> 't \<Rightarrow> int \<times> 't" where
  "pmdb_write_fru_tee F buf t =
    (let v = take (fru_value_size F) (buf @ replicate (fru_value_size F) 0);
         (ret, t) = tee_token_write_tmp F (FRU_RAW F v) t
     in (if ret \<noteq> 0 then 1 else 0, t))"

subsection \<open>oem fru\<close>

text \<open>\<open>%2hhx\<close> on a text of two characters; \<open>None\<close> if it does not convert anything.\<close>

definition scan_hhx :: "string \<Rightarrow> byte option" where
  "scan_hhx tmp =
    (let s = dropWhile is_space tmp;
         sgn = s \<noteq> [] \<and> (hd s = CHR ''-'' \<or> hd s = CHR ''+'');
         (v, k, rest) = scan_base 16 (if sgn then tl s else s) 0 0
     in if k = 0 then None else Some (if sgn \<and> hd s = CHR ''-'' then - of_nat v else of_nat v))"

text \<open>The bytes of the FRU; what does not convert leaves a byte of \<open>stack\<close>, which is not initialised.\<close>

definition fru_bytes :: "buffer \<Rightarrow> string \<Rightarrow> buffer" where
  "fru_bytes stack str =
    map (\<lambda>i. case scan_hhx [str ! (2 * i + 1), str ! (2 * i)] of Some b \<Rightarrow> b | None \<Rightarrow> stack ! i) [0..<PMDB_FRU_SIZE]"

text \<open>\<open>write_fru\<close> is \<open>pmdb_write_fru\<close> of the configuration. Characters that are not hexadecimal digits are only reported.\<close>

definition oem_fru_handler :: "(buffer \<Rightarrow> 's \<Rightarrow> int \<times> 's) \<Rightarrow> buffer \<Rightarrow> string list \<Rightarrow> 's \<Rightarrow> int \<times> 's" where
  "oem_fru_handler write_fru stack argv s =
    (case argv of
       [_, sub, str] \<Rightarrow>
         if sub \<noteq> ''set'' then (- 1, s)
         else if length str \<noteq> PMDB_FRU_SIZE * 2 then (- 1, s)
         else write_fru (fru_bytes stack str) s
     | _ \<Rightarrow> (- 1, s))"

subsection \<open>Tokens without the TEE\<close>

text \<open>The result and the texts for the host, rows of 16 bytes.\<close>

definition oem_uniqueid_handler :: "'s sep \<Rightarrow> 's \<Rightarrow> (int \<times> string list) option" where
  "oem_uniqueid_handler S s =
    (let (r, uniqueKey) = sep_sectoken_request_token S s in
     if r \<noteq> ST_SUCCESSFUL S then Some (1, []) else do { rows \<leftarrow> hexdump_buffer uniqueKey 16; Some (0, rows) })"

definition flash_token :: "'s sep \<Rightarrow> buffer \<Rightarrow> 's \<Rightarrow> int \<times> 's" where
  "flash_token S data s =
    (let (r, s) = sep_sectoken_consume_token S data s;
         r = (if r = ST_FAIL_SECURE_TOKEN_SIZE_TOO_SMALL_FAILURE S then ST_SUCCESSFUL S else r)
     in (if r \<noteq> ST_SUCCESSFUL S then 1 else 0, s))"

subsection \<open>Properties\<close>

lemma foldl_plus_sum: "foldl (+) (a :: byte) xs = a + sum_list xs"
  by (induction xs arbitrary: a) (simp_all add: add.assoc)

lemma length_fru_with_cs [simp]: "length (fru_with_cs buf) = 14"
  by (simp add: fru_with_cs_def Let_def)

lemma fru_with_cs_sum: "sum_list (fru_with_cs buf) = 0"
proof -
  have "sum_list v + twoscomplement v = 0" for v
    by (simp add: twoscomplement_def foldl_plus_sum flip: minus_eq_not_plus_1)
  then have "sum_list (v @ [twoscomplement v] @ replicate 3 0) = 0" for v by (simp add: sum_list_replicate)
  then show ?thesis by (simp add: fru_with_cs_def Let_def del: append_assoc take_append)
qed
text \<open>Writing the FRU into the platform database changes only its field: with an engine that stores an area as it is given, the
  first ten bytes of the area become the FRU, padded with zeros, the bytes of the field with its checksum sum up to 0 modulo
  256, and the rest of the area stays as it was.\<close>

theorem fru_write_updates_field:
  assumes "sep_pmdb_read S WM s = Some b" "length b = SEP_PMDB_WRITE_MANY_SIZE S" "14 \<le> length b"
    and store: "\<And>b'. length b' = length b \<Longrightarrow> \<exists>s'. sep_pmdb_write S WM b' s = (True, s') \<and> sep_pmdb_read S WM s' = Some b'"
  shows "\<exists>s' b'. pmdb_write_fru S buf s = (0, s') \<and> sep_pmdb_read S WM s' = Some b' \<and>
    take 10 b' = take 10 (buf @ replicate 10 0) \<and> sum_list (take 14 b') = 0 \<and> drop 14 b' = drop 14 b"
proof -
  let ?b = "overlay 0 (fru_with_cs buf) b"
  obtain s' where s': "sep_pmdb_write S WM ?b s = (True, s')" "sep_pmdb_read S WM s' = Some ?b"
    using store [of ?b] assms(3) by auto
  have "pmdb_write_fru S buf s = (0, s')"
    using assms(1-3) s'(1)
    by (simp add: pmdb_write_fru_def pmdb_write_field_def pmdb_field_def pmdb_fields_def pmdb_access_write_def
        pmdb_read_modify_write_def pmdb_area_size_def)
  moreover have "take 14 ?b = fru_with_cs buf" "drop 14 ?b = drop 14 b" by (simp_all add: overlay_def)
  moreover have "take 10 ?b = take 10 (take 14 ?b)" by (simp add: min_def)
  moreover have "take 10 (fru_with_cs buf) = take 10 (buf @ replicate 10 0)" by (simp add: fru_with_cs_def Let_def)
  ultimately show ?thesis using s'(2) fru_with_cs_sum [of buf] by metis
qed

definition sample_sep :: "buffer sep" where
  "sample_sep = \<lparr>SEP_PMDB_WRITE_ONCE_SIZE = 16, SEP_PMDB_WRITE_MANY_SIZE = 16, sep_pmdb_read = (\<lambda>area s. Some s),
     sep_pmdb_write = (\<lambda>area b s. (True, b)), sep_sectoken_request_token = (\<lambda>s. (0, s)),
     sep_sectoken_consume_token = (\<lambda>b s. (0, s)), ST_SUCCESSFUL = 0, ST_FAIL_SECURE_TOKEN_SIZE_TOO_SMALL_FAILURE = 9\<rparr>"

theorem fru_write_updates_field_witness:
  "\<exists>s'. pmdb_write_fru sample_sep [1, 2, 3] (replicate 16 7) = (0, s') \<and> take 10 s' = [1, 2, 3] @ replicate 7 0 \<and>
    sum_list (take 14 s') = 0 \<and> drop 14 s' = replicate 2 7"
  using fru_write_updates_field [where S = sample_sep and s = "replicate 16 7" and b = "replicate 16 7" and buf = "[1, 2, 3]"]
  by (simp add: sample_sep_def)

subsection \<open>The FRU as digits\<close>

lemma is_hex_val:
  assumes "is_hex c"
  obtains d where "hex_val c = Some d" "d < 16"
  using assms that by (auto simp: is_hex_def hex_val_def Let_def less_eq_char_def)

lemma is_hex_not_sign: "is_hex c \<Longrightarrow> c \<noteq> CHR ''-'' \<and> c \<noteq> CHR ''+'' \<and> \<not> is_space c"
  by (auto simp: is_hex_def is_space_def Let_def less_eq_char_def)

lemma scan_hhx_digits:
  assumes "is_hex c" "is_hex c'" "hex_val c = Some d" "hex_val c' = Some d'" "d < 16" "d' < 16"
  shows "scan_hhx [c, c'] = Some (of_nat (16 * d + d'))"
  using assms is_hex_not_sign [OF assms(1)] by (simp add: scan_hhx_def)

lemma swap_nibbles_digits: "d < 16 \<Longrightarrow> d' < 16 \<Longrightarrow> swap_nibbles (of_nat (16 * d + d')) = of_nat (16 * d' + d)"
proof -
  have "list_all (\<lambda>d. list_all (\<lambda>d'. swap_nibbles (of_nat (16 * d + d')) = of_nat (16 * d' + d)) [0..<16]) [0..<16]"
    by code_simp
  then show "d < 16 \<Longrightarrow> d' < 16 \<Longrightarrow> swap_nibbles (of_nat (16 * d + d')) = of_nat (16 * d' + d)" by (simp add: list_all_iff)
qed

lemma hex2_digits: "d < 16 \<Longrightarrow> d' < 16 \<Longrightarrow> hex2 (of_nat (16 * d + d')) = [hex_char d, hex_char d', CHR '' '']"
proof -
  have "list_all (\<lambda>d. list_all (\<lambda>d'. hex2 (of_nat (16 * d + d')) = [hex_char d, hex_char d', CHR '' '']) [0..<16]) [0..<16]"
    by code_simp
  then show "d < 16 \<Longrightarrow> d' < 16 \<Longrightarrow> hex2 (of_nat (16 * d + d')) = [hex_char d, hex_char d', CHR '' '']"
    by (simp add: list_all_iff)
qed

text \<open>The text of the digits: pairs in their order, in lower case, each followed by a blank.\<close>

definition fru_text :: "string \<Rightarrow> string" where
  "fru_text str = concat (map (\<lambda>i. [hex_char (the (hex_val (str ! (2 * i)))), hex_char (the (hex_val (str ! (2 * i + 1)))), CHR '' ''])
     [0..<10])"

lemma fru_digits:
  assumes "length str = 20" "list_all is_hex str" "i < 10"
  obtains d d' where "hex_val (str ! (2 * i)) = Some d" "d < 16" "hex_val (str ! (2 * i + 1)) = Some d'" "d' < 16"
    "scan_hhx [str ! (2 * i + 1), str ! (2 * i)] = Some (of_nat (16 * d' + d))"
proof -
  have h: "is_hex (str ! (2 * i))" "is_hex (str ! (2 * i + 1))" using assms by (simp_all add: list_all_length)
  obtain d where d: "hex_val (str ! (2 * i)) = Some d" "d < 16" by (rule is_hex_val [OF h(1)])
  obtain d' where d': "hex_val (str ! (2 * i + 1)) = Some d'" "d' < 16" by (rule is_hex_val [OF h(2)])
  show ?thesis by (rule that [OF d d' scan_hhx_digits [OF h(2,1) d'(1) d(1) d'(2) d(2)]])
qed

lemma fru_bytes_text:
  assumes "length str = 20" "list_all is_hex str"
  shows "concat (map hex2 (map swap_nibbles (fru_bytes stack str))) = fru_text str"
proof -
  have "hex2 (swap_nibbles (case scan_hhx [str ! (2 * i + 1), str ! (2 * i)] of Some b \<Rightarrow> b | None \<Rightarrow> stack ! i)) =
      [hex_char (the (hex_val (str ! (2 * i)))), hex_char (the (hex_val (str ! (2 * i + 1)))), CHR '' '']" if i: "i < 10" for i
  proof -
    obtain d d' where "hex_val (str ! (2 * i)) = Some d" "d < 16" "hex_val (str ! (2 * i + 1)) = Some d'" "d' < 16"
        "scan_hhx [str ! (2 * i + 1), str ! (2 * i)] = Some (of_nat (16 * d' + d))"
      by (rule fru_digits [OF assms i])
    then show ?thesis using swap_nibbles_digits [of d' d] hex2_digits [of d d'] by simp
  qed
  then show ?thesis by (auto simp: fru_bytes_def fru_text_def intro!: arg_cong [of _ _ concat])
qed

lemma length_fru_bytes [simp]: "length (fru_bytes stack str) = 10"
  by (simp add: fru_bytes_def)

lemma hexdump_one_row:
  assumes "bs \<noteq> []" "length bs \<le> 340"
  shows "hexdump_buffer bs (length bs) = Some [concat (map hex2 bs) @ ''\<newline>'']"
proof -
  have "length (concat (map hex2 bs)) = 3 * length bs" by (induction bs) auto
  then show ?thesis
    using assms snhexdump_all [of bs 1023] by (subst hexdump_buffer.simps) (simp add: hexdump_buffer.simps Let_def)
qed

text \<open>The digits of the FRU come back in their order. When \<open>oem fru set\<close> is given twenty hexadecimal digits, the bytes that it
  hands to the security engine do not depend on uninitialised memory; and when the engine's data group for the FRU holds those bytes,
  \<open>get-fru\<close> succeeds and prints exactly the digits that were given, as ten pairs. The swap of the digits in the one command
  and of the halves of the bytes in the other cancel.\<close>

theorem fru_digits_round_trip:
  assumes "length str = 20" "list_all is_hex str"
    and "write_fru (fru_bytes zeros str) s = (0, s')"
    and "token_data T FRU_DATAGROUP (engine st) = (0, fru_bytes zeros str)" "output_fd st = None"
  shows "oem_fru_handler write_fru stack [cmd, ''set'', str] s = (0, s') \<and>
    get_fru T st = Some (0, st\<lparr>printed := printed st @ [fru_text str @ ''\<newline>'']\<rparr>)"
proof -
  have "\<exists>b. scan_hhx [str ! (2 * i + 1), str ! (2 * i)] = Some b" if "i < 10" for i
    by (rule fru_digits [OF assms(1,2) that]) blast
  then have "fru_bytes stack str = fru_bytes zeros str" unfolding fru_bytes_def by (intro map_cong) fastforce+
  moreover have "fru_bytes zeros str \<noteq> []" by (simp add: fru_bytes_def)
  ultimately show ?thesis
    using assms fru_bytes_text [OF assms(1,2), of zeros] hexdump_one_row [of "map swap_nibbles (fru_bytes zeros str)"]
    by (simp add: oem_fru_handler_def get_fru_def parse_token_def output_data_def)
qed

theorem fru_digits_round_trip_witness:
  "oem_fru_handler (pmdb_write_fru sample_sep) (replicate 10 9) [''fru'', ''set'', ''1234567890abcdefABCD''] (replicate 16 0) =
      (0, fru_with_cs (fru_bytes [] ''1234567890abcdefABCD'') @ replicate 2 0) \<and>
    get_fru (sample_tee\<lparr>tee_token_itemids_get := (\<lambda>dg sg t. (0, [1]))\<rparr>)
      (sample_tee_state\<lparr>engine := fru_bytes [] ''1234567890abcdefABCD''\<rparr>) =
      Some (0, sample_tee_state\<lparr>engine := fru_bytes [] ''1234567890abcdefABCD'',
        printed := [''12 34 56 78 90 ab cd ef ab cd \<newline>'']\<rparr>)"
proof -
  let ?str = "''1234567890abcdefABCD''" and ?T = "sample_tee\<lparr>tee_token_itemids_get := (\<lambda>dg sg t. (0, [1]))\<rparr>"
  let ?st = "sample_tee_state\<lparr>engine := fru_bytes [] ?str\<rparr>"
  have str: "length ?str = 20" "list_all is_hex ?str" by (simp_all add: is_hex_def less_eq_char_def)
  have digits: "fru_text ?str = ''12 34 56 78 90 ab cd ef ab cd ''" by code_simp
  have w: "pmdb_write_fru sample_sep (fru_bytes [] ?str) (replicate 16 0) = (0, fru_with_cs (fru_bytes [] ?str) @ replicate 2 0)"
    by (simp add: pmdb_write_fru_def pmdb_write_field_def pmdb_field_def pmdb_fields_def pmdb_access_write_def
        pmdb_read_modify_write_def pmdb_area_size_def sample_sep_def overlay_def)
  have t: "token_data ?T FRU_DATAGROUP (engine ?st) = (0, fru_bytes [] ?str)"
    by (simp add: token_data_def sample_tee_def FRU_DATAGROUP_def sample_tee_state_def unat_of_nat)
  have fd: "output_fd ?st = None" by (simp add: sample_tee_state_def)
  from fru_digits_round_trip [where write_fru = "pmdb_write_fru sample_sep", OF str w t fd, of "replicate 10 9" "''fru''"] digits show ?thesis
    by (simp add: sample_tee_state_def)
qed

end
