(* ===== verification/Droidboot.thy ===== *)
theory Droidboot
  imports Flash_Firmware Flash_Ops Bootloader Osip_Flash Oem_Partition Pmdb
begin

text \<open>
  The plug-in of the boot loader, \<open>droidboot.c\<close>: the fastboot commands on the firmware settings, the factory partition, the
  configuration, mounting and rebooting, and the tables of commands that \<open>libintel_droidboot_init\<close> registers. The
  dispatch of commands, the user interface and the system properties are not part of the repository. What the commands take
  from there is the record \<open>droid_env\<close>; texts for the host or the screen are collected in the state.
\<close>

subsection \<open>Environment and state\<close>

record 'e droid_env =
  bcfg :: build_config
  plat :: platform
  mmc_dev :: string
  minzip :: zip_env
  rts :: roots
  line_env :: "nat \<Rightarrow> environment"
  getopt_optind :: nat
  stray_text :: "string option"
  tee_lib :: "'e tee"
  sep_lib :: "'e sep"
  fru_lib :: "'e fru_tee"
  stack_bytes :: buffer
  battery_level :: int
  mkdir_errno :: "string \<Rightarrow> int"
  mount_errno :: "string \<Rightarrow> string \<Rightarrow> string \<Rightarrow> int"
  android_reboot :: "string \<Rightarrow> int"
  property_set_result :: int
  backup_polls :: "nat \<Rightarrow> string"

text \<open>The state of the partition commands, the security engine, the property \<open>sys.backup_factory\<close>, and the texts.\<close>

record 'e droid_state =
  oem :: oem_state
  eng :: 'e
  backup_factory :: string
  said :: "string list"

type_synonym 'e droid_outcome = "(int \<times> 'e droid_state) option"

abbreviation (input) files_of :: "'e droid_state \<Rightarrow> fs" where "files_of st \<equiv> disk (oem st)"

definition with_files :: "fs \<Rightarrow> 'e droid_state \<Rightarrow> 'e droid_state" where
  "with_files files st = st\<lparr>oem := oem st\<lparr>disk := files\<rparr>\<rparr>"

definition say :: "string list \<Rightarrow> 'e droid_state \<Rightarrow> 'e droid_state" where
  "say ls st = st\<lparr>said := said st @ ls\<rparr>"

text \<open>A command on the files, on the state of the partition commands, on the engine, or on both engine and files.\<close>

definition on_files :: "(fs \<Rightarrow> (int \<times> fs) option) \<Rightarrow> 'e droid_state \<Rightarrow> 'e droid_outcome" where
  "on_files f st = do { (r, files) \<leftarrow> f (files_of st); Some (r, with_files files st) }"

definition on_oem :: "(oem_state \<Rightarrow> oem_outcome) \<Rightarrow> 'e droid_state \<Rightarrow> 'e droid_outcome" where
  "on_oem f st = do { (r, os) \<leftarrow> f (oem st); Some (r, st\<lparr>oem := os\<rparr>) }"

definition on_engine :: "('e \<Rightarrow> int \<times> 'e) \<Rightarrow> 'e droid_state \<Rightarrow> 'e droid_outcome" where
  "on_engine f st = (let (r, e) = f (eng st) in Some (r, st\<lparr>eng := e\<rparr>))"

definition on_tee :: "('e tee_state \<Rightarrow> 'e tee_outcome) \<Rightarrow> 'e droid_state \<Rightarrow> 'e droid_outcome" where
  "on_tee f st =
    do { (r, ts) \<leftarrow> f \<lparr>engine = eng st, tfiles = files_of st, output_fd = None, printed = []\<rparr>;
         Some (r, say (printed ts) (with_files (tfiles ts) (st\<lparr>eng := engine ts\<rparr>))) }"

subsection \<open>Settings of the firmware\<close>

text \<open>The value is compared with the numbers 22 (\<open>EINVAL\<close>) and 34 (\<open>ERANGE\<close>), and a text that is no number counts as 0.\<close>

definition oem_custom_boot :: "'e droid_env \<Rightarrow> string list \<Rightarrow> fs \<Rightarrow> (int \<times> fs) option" where
  "oem_custom_boot env argv files =
    (case argv of
       [_, arg] \<Rightarrow>
         if length arg > 19 then Some (- 1, files)
         else let v = fst (strtoul arg) in
           if v = 22 \<or> v = 34 then Some (- 1, files) else flash_custom_boot (bcfg env) (plat env) (le_bytes 4 v) files
     | _ \<Rightarrow> Some (- 1, files))"

definition oem_erase_token :: "'e droid_env \<Rightarrow> string list \<Rightarrow> fs \<Rightarrow> (int \<times> fs) option" where
  "oem_erase_token env argv files = (if length argv > 1 then Some (- 1, files) else erase_token_umip (bcfg env) (plat env) files)"

text \<open>The values of the timeout and their names.\<close>

definition timeouts :: "(string \<times> u32) list" where
  "timeouts = [(''infinite'', 0x3F), (''tenseconds'', 0x2D), (''threeseconds'', 0x1B), (''zeroseconds'', 0)]"

definition timeout_name :: "u32 \<Rightarrow> string option" where
  "timeout_name v = map_option fst (find (\<lambda>(nm, x). x = v) timeouts)"

definition oem_dnx_timeout :: "'e droid_env \<Rightarrow> string list \<Rightarrow> 'e droid_state \<Rightarrow> 'e droid_outcome" where
  "oem_dnx_timeout env argv st =
    (if length argv < 2 \<or> length argv > 3 then Some (- 1, st)
     else let opt = argv ! 1 in
       if length opt > 3 then Some (- 1, st)
       else if opt = ''get'' then
         do { (v, files) \<leftarrow> read_dnx_timeout (bcfg env) (plat env) (files_of st);
              let st = with_files files st;
              case timeout_name (of_int v) of None \<Rightarrow> Some (- 1, st) | Some nm \<Rightarrow> Some (0, say [nm] st) }
       else if opt = ''set'' then
         if length argv \<noteq> 3 \<or> length (argv ! 2) > 19 then Some (- 1, st)
         else (case map_of timeouts (argv ! 2) of None \<Rightarrow> Some (- 1, st)
               | Some v \<Rightarrow> on_files (flash_dnx_timeout (bcfg env) (plat env) (le_bytes 4 v)) st)
       else Some (- 1, st))"

subsection \<open>The factory partition\<close>

text \<open>The values of the property at the successive polls, one per second: the result and the last value seen.\<close>

fun wait_property :: "(nat \<Rightarrow> string) \<Rightarrow> string \<Rightarrow> nat \<Rightarrow> nat \<Rightarrow> string \<Rightarrow> int \<times> string" where
  "wait_property polls val i 0 v = (- 1, v)"
| "wait_property polls val i (Suc k) v = (if polls i = val then (0, val) else wait_property polls val (Suc i) k (polls i))"

definition oem_backup_factory :: "'e droid_env \<Rightarrow> string list \<Rightarrow> 'e droid_state \<Rightarrow> int \<times> 'e droid_state" where
  "oem_backup_factory env argv st =
    (if backup_factory st \<noteq> ''done'' \<and> backup_factory st \<noteq> [] then (- 1, st)
     else let (r, v) = wait_property (backup_polls env) ''done'' 0 60 ''backup'' in (r, st\<lparr>backup_factory := v\<rparr>))"

definition oem_restore_factory :: "'e droid_env \<Rightarrow> string list \<Rightarrow> 'e droid_state \<Rightarrow> int \<times> 'e droid_state" where
  "oem_restore_factory env argv st =
    (if backup_factory st \<noteq> ''done'' then (- 1, st)
     else let (r, v) = wait_property (backup_polls env) ''done'' 0 60 ''restore'' in (r, st\<lparr>backup_factory := v\<rparr>))"

subsection \<open>Other commands\<close>

definition oem_get_batt_info_handler :: "'e droid_env \<Rightarrow> string list \<Rightarrow> 'e droid_state \<Rightarrow> int \<times> 'e droid_state" where
  "oem_get_batt_info_handler env argv st =
    (if battery_level env = - 1 then (- 1, st)
     else (0, say [take 11 (newline @ ''level: '' @ print_d (battery_level env))] st))"

definition CONFIG_FILE :: string where "CONFIG_FILE = ''/mnt/config/local_config''"

definition oem_config :: "'e droid_env \<Rightarrow> string list \<Rightarrow> fs \<Rightarrow> int \<times> fs" where
  "oem_config env argv files =
    (case argv of
       [_, arg] \<Rightarrow>
         (case open_trunc (creatable (plat env)) files CONFIG_FILE of None \<Rightarrow> (- 1, files)
          | Some d \<Rightarrow>
            let (written, d) = fwrite d 0 (map of_char arg) in
            (if written \<noteq> length arg then - 1 else 0, files(CONFIG_FILE \<mapsto> d)))
     | _ \<Rightarrow> (- 1, files))"

definition oem_fastboot2adb :: "'e droid_env \<Rightarrow> int" where
  "oem_fastboot2adb env = (if property (plat env) ''ro.debuggable'' = ''1'' then property_set_result env else - 1)"

definition oem_reboot :: "'e droid_env \<Rightarrow> string list \<Rightarrow> int" where
  "oem_reboot env argv = (case argv of [_] \<Rightarrow> android_reboot env ''android'' | [_, target_os] \<Rightarrow> android_reboot env target_os | _ \<Rightarrow> - 22)"

text \<open>\<open>mkdir\<close> and \<open>mount\<close> give 0 or their error number; 17 is \<open>EEXIST\<close>.\<close>

definition oem_mount :: "'e droid_env \<Rightarrow> string list \<Rightarrow> fs \<Rightarrow> int" where
  "oem_mount env argv files =
    (case argv of
       [_, nm, fstype] \<Rightarrow>
         (case get_device_path files (Some nm) of None \<Rightarrow> - 1
          | Some dev_path \<Rightarrow>
            let mountpoint = ''/mnt/'' @ nm; e = mkdir_errno env mountpoint in
            if e \<noteq> 0 \<and> e \<noteq> 17 then - e else - mount_errno env dev_path mountpoint fstype)
     | _ \<Rightarrow> - 22)"

text \<open>\<open>read_from_file\<close>: the text behind the first occurrence of an attribute and one more character, in upper case; \<open>None\<close> for
  an attribute at the end of a line without a newline, where the code reads behind the text. An inner \<open>None\<close> leaves the value as
  it is.\<close>

definition toupper :: "char \<Rightarrow> char" where
  "toupper c = (if CHR ''a'' \<le> c \<and> c \<le> CHR ''z'' then char_of (of_char c - 32 :: nat) else c)"

definition strupr :: "string \<Rightarrow> string" where
  "strupr str = map toupper str"

fun attr_value :: "string \<Rightarrow> string list \<Rightarrow> string option option" where
  "attr_value att [] = Some None"
| "attr_value att (l # ls) =
    (case strstr (takeWhile (\<lambda>c. c \<noteq> CHR 0x00) l) att of None \<Rightarrow> attr_value att ls
     | Some p \<Rightarrow> if length p = length att then None else Some (Some (strupr (take 127 (drop (length att + 1) p)))))"

definition read_from_file :: "string \<Rightarrow> string \<Rightarrow> fs \<Rightarrow> (int \<times> string option) option" where
  "read_from_file file att files =
    (case files file of None \<Rightarrow> Some (- 1, None)
     | Some d \<Rightarrow> do { v \<leftarrow> attr_value att (fgets_lines 255 (map (\<lambda>b. char_of (unat b)) (bytes d))); Some (0, v) })"

datatype info_type = IFWI_VERSION | PRODUCT_NAME | SERIAL_NUM | VARIANT | HW_VERSION | BOOTLOADER_VERSION | OTHER_INFO

definition SERIAL_NUM_FILE :: string where "SERIAL_NUM_FILE = ''/sys/class/android_usb/android0/iSerial''"

text \<open>The text that is stored in \<open>info\<close>, \<open>None\<close> for the result \<open>-1\<close>.\<close>

definition get_system_info :: "(string \<Rightarrow> string) \<Rightarrow> info_type \<Rightarrow> nat \<Rightarrow> fs \<Rightarrow> string option" where
  "get_system_info prop type sz files =
    (case type of
       IFWI_VERSION \<Rightarrow> Some (take (sz - 1) (prop ''sys.ifwi.version''))
     | PRODUCT_NAME \<Rightarrow> Some (take (sz - 1) (prop ''ro.product.device''))
     | SERIAL_NUM \<Rightarrow>
         (case files SERIAL_NUM_FILE of None \<Rightarrow> None
          | Some d \<Rightarrow> let (l, _) = fgets (sz - 1) (map (\<lambda>b. char_of (unat b)) (bytes d)) in if l = [] then None else Some l)
     | VARIANT \<Rightarrow> Some (take (sz - 1) (prop ''ro.product.model''))
     | HW_VERSION \<Rightarrow> Some (take (sz - 1) (prop ''sys.hw.version''))
     | BOOTLOADER_VERSION \<Rightarrow> Some (take (sz - 1) (prop ''ro.bootloader''))
     | OTHER_INFO \<Rightarrow> None)"

text \<open>Property, text, and text for a property that is not set.\<close>

definition properties_format :: "(string option \<times> string \<times> string option) list" where
  "properties_format =
    [(Some ''sys.ifwi.version'', ''         ifwi:'', None), (None, ''---- components ----'', None),
     (Some ''sys.scu.version'', ''          scu:'', None), (Some ''sys.punit.version'', ''        punit:'', None),
     (Some ''sys.valhooks.version'', ''    hooks/oem:'', None), (Some ''sys.ia32.version'', ''         ia32:'', None),
     (Some ''sys.suppia32.version'', ''     suppia32:'', None), (Some ''sys.mia.version'', ''          mIA:'', None),
     (Some ''sys.chaabi.version'', ''       chaabi:'', Some ''CHAABI versions unreadable at runtime'')]"

definition dump_system_versions :: "(string \<Rightarrow> string) \<Rightarrow> string list" where
  "dump_system_versions prop =
    concat (map (\<lambda>(nm, msg, err).
      case nm of None \<Rightarrow> [msg]
      | Some p \<Rightarrow> if prop p \<noteq> [] then [msg @ '' '' @ prop p] else (case err of None \<Rightarrow> [] | Some e \<Rightarrow> [e])) properties_format)"

subsection \<open>The commands\<close>

text \<open>Flashing an image through the boot image operations; the buffer that they change is the caller's.\<close>

definition image_cmd :: "'e droid_env \<Rightarrow> (string \<Rightarrow> (string \<Rightarrow> bool) \<Rightarrow> buffer \<Rightarrow> fs \<Rightarrow> (int \<times> buffer \<times> fs) option) \<Rightarrow>
    buffer \<Rightarrow> 'e droid_state \<Rightarrow> 'e droid_outcome" where
  "image_cmd env f data =
    on_files (\<lambda>files. do { (r, _, files) \<leftarrow> f (mmc_dev env) (creatable (plat env)) data files; Some (r, files) })"

type_synonym 'e flash_cmd = "string \<times> (buffer \<Rightarrow> 'e droid_state \<Rightarrow> 'e droid_outcome)"

text \<open>The flash commands in the order in which they are registered. \<open>aboot_flash\<close> is the boot loader's own function, with
  which \<open>flash_bootloader\<close> flashes the parts of an image; a process that has ended is the state \<open>None\<close>.\<close>

definition bootloader_cmd :: "(string \<Rightarrow> buffer \<Rightarrow> 'e droid_state \<Rightarrow> 'e droid_outcome) \<Rightarrow> buffer \<Rightarrow> 'e droid_state \<Rightarrow> 'e droid_outcome" where
  "bootloader_cmd aboot_flash data st =
    do { (r, ost) \<leftarrow> flash_bootloader
           (\<lambda>nm bs ost. case ost of None \<Rightarrow> (- 1, None)
              | Some st \<Rightarrow> (case aboot_flash nm bs st of None \<Rightarrow> (- 1, None) | Some (r, st) \<Rightarrow> (r, Some st))) data (Some st);
         st \<leftarrow> ost; Some (r, st) }"

definition flash_cmds :: "bool \<Rightarrow> bool \<Rightarrow> 'e droid_env \<Rightarrow> (string \<Rightarrow> buffer \<Rightarrow> 'e droid_state \<Rightarrow> 'e droid_outcome) \<Rightarrow> 'e flash_cmd list" where
  "flash_cmds EXTERNAL TEE_FRAMEWORK env aboot_flash =
    [(''testos'', image_cmd env flash_testos), (''boot'', image_cmd env flash_android_kernel),
     (''recovery'', image_cmd env flash_recovery_kernel), (''fastboot'', image_cmd env flash_fastboot_kernel),
     (''bootloader'', bootloader_cmd aboot_flash), (''ESP'', image_cmd env flash_esp),
     (''splashscreen'', image_cmd env flash_splashscreen_image1), (''splashscreen1'', image_cmd env flash_splashscreen_image1),
     (''splashscreen2'', image_cmd env flash_splashscreen_image2), (''splashscreen3'', image_cmd env flash_splashscreen_image3),
     (''splashscreen4'', image_cmd env flash_splashscreen_image4),
     (''dnx'', \<lambda>data. on_files (flash_dnx (bcfg env) (plat env) data)),
     (''ifwi'', \<lambda>data. on_files (flash_ifwi (bcfg env) (plat env) data)),
     (''token_umip'', \<lambda>data. on_files (flash_token_umip (bcfg env) (plat env) data)),
     (''capsule'', \<lambda>data. on_files (flash_capsule (bcfg env) (plat env) data)),
     (''ulpmc'', \<lambda>data. on_files (\<lambda>files. Some (flash_ulpmc (creatable (plat env)) data files))),
     (''esp_update'', \<lambda>data. on_files (\<lambda>files. Some (flash_esp_update (esp (plat env)) (minzip env) data files))),
     (''silentlake'', image_cmd env flash_silent_binary)] @
    (if TEE_FRAMEWORK then [(''token'', \<lambda>data. on_tee (write_token (tee_lib env) data))] else []) @
    (if EXTERNAL then []
     else (if TEE_FRAMEWORK then [] else [(''token'', \<lambda>data. on_engine (flash_token (sep_lib env) data))]) @
       [(''ramdump'', image_cmd env flash_ramdump)])"

type_synonym 'e oem_cmd = "string \<times> (string list \<Rightarrow> 'e droid_state \<Rightarrow> 'e droid_outcome)"

definition on_mmc :: "'e droid_env \<Rightarrow> (mmc \<Rightarrow> (int \<times> mmc) option) \<Rightarrow> 'e droid_state \<Rightarrow> 'e droid_outcome" where
  "on_mmc env f = on_files (\<lambda>files. do { (r, m) \<leftarrow> f (files (mmc_dev env)); Some (r, files(mmc_dev env := m)) })"

definition just :: "('e droid_state \<Rightarrow> int) \<Rightarrow> 'e droid_state \<Rightarrow> 'e droid_outcome" where
  "just f st = Some (f st, st)"

text \<open>The commands that \<open>fastboot oem\<close> runs, in the order in which they are registered. The settings in the UMIP can be
  changed only on a build that is not for users.\<close>

definition oem_cmds :: "bool \<Rightarrow> bool \<Rightarrow> string \<Rightarrow> 'e droid_env \<Rightarrow> 'e oem_cmd list" where
  "oem_cmds EXTERNAL TEE_FRAMEWORK build_type env =
    (if build_type \<noteq> ''user''
     then [(''dnx_timeout'', oem_dnx_timeout env), (''custom_boot'', \<lambda>argv. on_files (oem_custom_boot env argv)),
           (''erase_token'', \<lambda>argv. on_files (oem_erase_token env argv))]
     else []) @
    [(''erase'', \<lambda>argv. on_oem (oem_erase_partition (rts env) argv)),
     (''repart'', \<lambda>argv. on_oem (\<lambda>os. Some (oem_repart_partition argv os))),
     (''write_osip_header'', \<lambda>argv. on_mmc env oem_write_osip_header),
     (''erase_osip_header'', \<lambda>argv. on_mmc env (\<lambda>m. Some (oem_erase_osip_header m))),
     (''start_partitioning'', \<lambda>argv. on_oem (\<lambda>os. Some (oem_partition_start_handler argv os))),
     (''partition'', \<lambda>argv. on_oem (oem_partition_cmd_handler (line_env env) argv)),
     (''retrieve_partitions'', \<lambda>argv. on_oem (oem_retrieve_partitions (line_env env 0) (getopt_optind env) (stray_text env) argv)),
     (''stop_partitioning'', \<lambda>argv. on_oem (\<lambda>os. Some (oem_partition_stop_handler (rts env) argv os))),
     (''get_batt_info'', \<lambda>argv st. Some (oem_get_batt_info_handler env argv st)),
     (''reboot'', \<lambda>argv. just (\<lambda>_. oem_reboot env argv)),
     (''wipe'', \<lambda>argv. on_oem (oem_wipe_partition (rts env) argv)),
     (''config'', \<lambda>argv. on_files (\<lambda>files. Some (oem_config env argv files))),
     (''mount'', \<lambda>argv. just (\<lambda>st. oem_mount env argv (files_of st)))] @
    (if TEE_FRAMEWORK
     then [(''get-spid'', \<lambda>argv. on_tee (get_spid (tee_lib env))), (''get-fru'', \<lambda>argv. on_tee (get_fru (tee_lib env))),
           (''get-part-id'', \<lambda>argv. on_tee (get_part_id (tee_lib env))),
           (''get-lifetime'', \<lambda>argv. on_tee (get_lifetime (tee_lib env))),
           (''start-update'', \<lambda>argv. on_tee (\<lambda>ts. Some (start_update (tee_lib env) ts))),
           (''cancel-update'', \<lambda>argv. on_tee (\<lambda>ts. Some (cancel_update (tee_lib env) ts))),
           (''finalize-update'', \<lambda>argv. on_tee (\<lambda>ts. Some (finalize_update (tee_lib env) ts))),
           (''remove-token'', \<lambda>argv. on_tee (remove_token (tee_lib env) argv))]
     else []) @
    (if EXTERNAL then []
     else [(''fru'', \<lambda>argv. on_engine (oem_fru_handler
               (if TEE_FRAMEWORK then pmdb_write_fru_tee (fru_lib env) else pmdb_write_fru (sep_lib env)) (stack_bytes env) argv))] @
       (if TEE_FRAMEWORK then []
        else [(''uniqueid'', \<lambda>argv st. do { (r, rows) \<leftarrow> oem_uniqueid_handler (sep_lib env) (eng st); Some (r, say rows st) })]) @
       [(''backup_factory'', \<lambda>argv st. Some (oem_backup_factory env argv st)),
        (''restore_factory'', \<lambda>argv st. Some (oem_restore_factory env argv st)),
        (''fastboot2adb'', \<lambda>argv. just (\<lambda>_. oem_fastboot2adb env))])"

text \<open>The commands of fastboot itself: the operating system to restart, if any, and whether with a cold boot.\<close>

definition fastboot_cmds :: "(string \<times> (string \<times> bool) option) list" where
  "fastboot_cmds = [(''continue'', Some (''android'', True)), (''reboot'', Some (''android'', True)),
     (''reboot-bootloader'', Some (''bootloader'', False)), (''boot'', None)]"

text \<open>The initialisation: the tool for partitions of the boot loader, then the tables of commands. The registration functions
  give 0 for a name that they accept; one refusal makes the process die, after all the commands have been offered. The result is
  the state, the two tables and the text about versions.\<close>

definition libintel_droidboot_init :: "(fs \<Rightarrow> fs) \<times> (fs \<Rightarrow> int \<times> fs) \<Rightarrow> (string \<Rightarrow> int) \<Rightarrow> (string \<Rightarrow> int) \<Rightarrow> bool \<Rightarrow> bool \<Rightarrow> string \<Rightarrow>
    'e droid_env \<Rightarrow> (string \<Rightarrow> buffer \<Rightarrow> 'e droid_state \<Rightarrow> 'e droid_outcome) \<Rightarrow> 'e droid_state \<Rightarrow>
    ('e droid_state \<times> 'e flash_cmd list \<times> 'e oem_cmd list \<times> string list) option" where
  "libintel_droidboot_init ufdisk_tool register_flash register_oem EXTERNAL TEE_FRAMEWORK build_type env aboot_flash st =
    (let fl = flash_cmds EXTERNAL TEE_FRAMEWORK env aboot_flash; om = oem_cmds EXTERNAL TEE_FRAMEWORK build_type env in
     if list_all (\<lambda>nm. register_flash nm = 0) (map fst fl) \<and> list_all (\<lambda>nm. register_oem nm = 0) (map fst om)
     then Some (st\<lparr>oem := oem_partition_init (Some (Some (fst ufdisk_tool), Some (snd ufdisk_tool))) (oem st)\<rparr>, fl, om,
       dump_system_versions (property (plat env)))
     else None)"

subsection \<open>Properties\<close>

lemma timeout_values:
  assumes "(nm, v) \<in> set timeouts"
  shows "map_of timeouts nm = Some v \<and> timeout_name (of_int (sint (le_bytes 4 v ! 0))) = Some nm \<and> length nm \<le> 19"
proof -
  have "list_all (\<lambda>(nm, v). map_of timeouts nm = Some v \<and> timeout_name (of_int (sint (le_bytes 4 v ! 0))) = Some nm \<and> length nm \<le> 19) timeouts"
    by code_simp
  then show ?thesis using assms by (auto simp: list_all_iff)
qed

lemma readbyte_umip_ok:
  assumes "boot_writable mok 0 files" "off < BOOT_UMIP_SIZE" "files (boot_partition_path 0) = Some d"
  shows "\<exists>files'. readbyte_umip_emmc mok off files = Some (sint (bytes d ! off), files')"
proof -
  obtain r n r' where r: "files (boot_force_ro_path 0) = Some r" "dev_write r 0 [0x30, 0] = Some (n, r')"
      "BOOT_IFWI_SIZE \<le> length (bytes d)" "mok (boot_partition_path 0)"
    using assms(1,3) unfolding boot_writable_def by fastforce
  have "off < length (bytes d)" using assms(2) r(3) by simp
  then show ?thesis using assms(2,3) r boot_paths(1) [of 0 0] by (simp add: readbyte_umip_emmc_def force_rw_def)
qed

text \<open>The timeout comes back as it was set: on a device that keeps its firmware in writable boot partitions,
  \<open>oem dnx_timeout set\<close> succeeds with each of the four names, and \<open>oem dnx_timeout get\<close> after it succeeds and says that
  name.\<close>

theorem dnx_timeout_round_trip:
  assumes "ifwi_ops (bcfg env) (plat env) = Some scu_emmc_ifwi_operations"
    and "boot_writable (mmap_ok (plat env)) 0 (files_of st)" "boot_writable (mmap_ok (plat env)) 1 (files_of st)"
    and "nm \<in> set [''infinite'', ''tenseconds'', ''threeseconds'', ''zeroseconds'']"
  shows "\<exists>st1 st2. oem_dnx_timeout env [cmd, ''set'', nm] st = Some (0, st1) \<and>
    oem_dnx_timeout env [cmd, ''get''] st1 = Some (0, st2) \<and> said st2 = said st @ [nm]"
proof -
  obtain v where v: "(nm, v) \<in> set timeouts" using assms(4) by (auto simp: timeouts_def)
  let ?ok = "mmap_ok (plat env)"
  obtain files1 where w: "write_umip_emmc ?ok BOOT_DNX_TIMEOUT_OFFSET (Some (le_bytes 4 v)) 1 (files_of st) = Some (0, files1)"
    using write_umip_succeeds [OF assms(2,3), of BOOT_DNX_TIMEOUT_OFFSET 1 "Some (le_bytes 4 v)"] by (auto simp: umip_data_def)
  have "\<not> checksum_place BOOT_DNX_TIMEOUT_OFFSET" by (simp add: checksum_place_def)
  then obtain d where d: "files1 (boot_partition_path 0) = Some d" "bytes d ! BOOT_DNX_TIMEOUT_OFFSET = le_bytes 4 v ! 0"
    using umip_written [OF w, of 0] by (auto simp: requested_byte_def)
  obtain files2 where r: "readbyte_umip_emmc ?ok BOOT_DNX_TIMEOUT_OFFSET files1 = Some (sint (le_bytes 4 v ! 0), files2)"
    using readbyte_umip_ok [OF write_umip_writable [OF w assms(2)] _ d(1), of BOOT_DNX_TIMEOUT_OFFSET] d(2) by auto
  let ?st1 = "with_files files1 st"
  have "oem_dnx_timeout env [cmd, ''set'', nm] st = Some (0, ?st1)"
    using timeout_values [OF v] w assms(1)
    by (simp add: oem_dnx_timeout_def on_files_def flash_dnx_timeout_def emmc_call_def flash_dnx_timeout_scu_emmc_def)
  moreover have "oem_dnx_timeout env [cmd, ''get''] ?st1 = Some (0, say [nm] (with_files files2 ?st1))"
    using timeout_values [OF v] r assms(1)
    by (simp add: oem_dnx_timeout_def read_dnx_timeout_def emmc_call_def read_dnx_timeout_scu_emmc_def with_files_def)
  ultimately show ?thesis by (auto simp: say_def with_files_def)
qed

definition sample_droid_env :: "buffer droid_env" where
  "sample_droid_env = \<lparr>bcfg = sample_config, plat = sample_platform, mmc_dev = ''/dev/block/mmcblk0'',
     minzip = \<lparr>mzOpenZipArchive = (\<lambda>_. 0), mzExtractRecursive = (\<lambda>_ _ files. (True, files))\<rparr>, rts = sample_roots,
     line_env = (\<lambda>_. quiet_env), getopt_optind = 1, stray_text = None, tee_lib = sample_tee, sep_lib = sample_sep,
     fru_lib = \<lparr>FRU_RAW = (\<lambda>v. v), fru_value_size = 10, tee_token_write_tmp = (\<lambda>b t. (0, b))\<rparr>, stack_bytes = replicate 10 0,
     battery_level = 50, mkdir_errno = (\<lambda>_. 0), mount_errno = (\<lambda>_ _ _. 0), android_reboot = (\<lambda>_. 0), property_set_result = 0,
     backup_polls = (\<lambda>i. if i < 3 then ''backup'' else ''done'')\<rparr>"

definition sample_droid_state :: "fs \<Rightarrow> buffer droid_state" where
  "sample_droid_state files = \<lparr>oem = oem_state0 files, eng = [], backup_factory = [], said = []\<rparr>"

theorem dnx_timeout_round_trip_witness:
  "\<exists>st1 st2. oem_dnx_timeout sample_droid_env [''dnx_timeout'', ''set'', ''tenseconds''] (sample_droid_state sample_boot_files) = Some (0, st1) \<and>
    oem_dnx_timeout sample_droid_env [''dnx_timeout'', ''get''] st1 = Some (0, st2) \<and> said st2 = [''tenseconds'']"
proof -
  let ?env = sample_droid_env and ?st = "sample_droid_state sample_boot_files"
  have e: "ifwi_ops (bcfg ?env) (plat ?env) = Some scu_emmc_ifwi_operations"
    by (simp add: sample_droid_env_def ifwi_ops_def sample_config_def sample_platform_def is_scu_emmc_def)
  have p: "boot_writable (mmap_ok (plat ?env)) 0 (files_of ?st)" "boot_writable (mmap_ok (plat ?env)) 1 (files_of ?st)"
    by (simp_all add: sample_droid_env_def sample_platform_def sample_droid_state_def oem_state0_def boot_writable_def sample_boot_files_def
        boot_partition_path_def boot_force_ro_path_def sample_dev_def dev_write_def)
  show ?thesis
    using dnx_timeout_round_trip [OF e p, of "''tenseconds''" "''dnx_timeout''"] by (simp add: sample_droid_state_def)
qed

subsection \<open>The factory partition\<close>

text \<open>Sequences of the two commands, each with the answers that the poll got and with its result.\<close>

inductive factory_session :: "'e droid_state \<Rightarrow> (bool \<times> int) list \<Rightarrow> 'e droid_state \<Rightarrow> bool" for st where
  no_command: "factory_session st [] st"
| backup: "factory_session st cs st' \<Longrightarrow> oem_backup_factory env argv st' = (r, st'') \<Longrightarrow> factory_session st (cs @ [(True, r)]) st''"
| restore: "factory_session st cs st' \<Longrightarrow> oem_restore_factory env argv st' = (r, st'') \<Longrightarrow> factory_session st (cs @ [(False, r)]) st''"

lemma wait_property_done: "wait_property polls val i k v = (r, v') \<Longrightarrow> v \<noteq> val \<Longrightarrow> (r = 0 \<longleftrightarrow> v' = val) \<and> (r = 0 \<or> r = - 1)"
  by (induction k arbitrary: i v) (auto split: if_splits)

text \<open>The factory partition is restored only from a backup: in every sequence of backups and restorations that begins with the
  property not set to \<open>done\<close>, whatever the process that does the work answers and when, a restoration that succeeds comes
  after a backup that has succeeded.\<close>

theorem restore_needs_backup:
  assumes "factory_session st cs st'" "backup_factory st \<noteq> ''done''" "oem_restore_factory env argv st' = (0, st'')"
  shows "(True, 0) \<in> set cs"
proof -
  have "backup_factory st' = ''done'' \<Longrightarrow> (True, 0) \<in> set cs"
    using assms(1)
  proof (induction rule: factory_session.induct)
    case no_command
    then show ?case using assms(2) by simp
  next
    case (backup cs st' env argv r st'')
    then show ?case
      using wait_property_done [of "backup_polls env" "''done''" 0 60 "''backup''"]
      by (auto simp: oem_backup_factory_def split: if_splits prod.splits)
  next
    case (restore cs st' env argv r st'')
    then show ?case by (auto simp: oem_restore_factory_def split: if_splits)
  qed
  then show ?thesis using assms(3) by (simp add: oem_restore_factory_def split: if_splits)
qed

theorem restore_needs_backup_witness:
  "\<exists>st1 st2. factory_session (sample_droid_state Map.empty) [(True, 0)] st1 \<and>
    oem_restore_factory sample_droid_env [] st1 = (0, st2) \<and> (True, 0 :: int) \<in> set [(True, 0)]"
proof -
  let ?st = "sample_droid_state Map.empty" let ?st1 = "?st\<lparr>backup_factory := ''done''\<rparr>"
  have w: "wait_property (backup_polls sample_droid_env) ''done'' 0 60 v = (0, ''done'')" for v
    by (simp add: sample_droid_env_def eval_nat_numeral)
  have "oem_backup_factory sample_droid_env [] ?st = (0, ?st1)" by (simp add: oem_backup_factory_def w sample_droid_state_def)
  then have s: "factory_session ?st [(True, 0)] ?st1" using backup [OF no_command] by fastforce
  moreover have r: "oem_restore_factory sample_droid_env [] ?st1 = (0, ?st1)"
    by (simp add: oem_restore_factory_def w)
  moreover have "(True, 0) \<in> set [(True, 0 :: int)]"
    using restore_needs_backup [OF s _ r] by (simp add: sample_droid_state_def)
  ultimately show ?thesis by blast
qed

subsection \<open>Bootloader images\<close>

lemma image_cmd_gpt:
  assumes "is_gpt (files_of st)" "get_device_path (files_of st) (Some nm) = Some path" "files_of st path = Some d" "healthy d"
    and "length data \<le> length (bytes d)" "nm \<noteq> ''testos''"
    and "\<And>mmc can data files. f mmc can data files = flash_image mmc can data nm files"
  defines "files' \<equiv> (files_of st)(path \<mapsto> d\<lparr>bytes := overlay 0 data (bytes d)\<rparr>)"
  shows "image_cmd env f data st = Some (0, with_files files' st)" "get_device_path files' = get_device_path (files_of st)"
proof -
  note w = gpt_flash_writes [OF assms(1-6), folded files'_def]
  show "image_cmd env f data st = Some (0, with_files files' st)" using w(1) by (simp add: image_cmd_def on_files_def assms(7))
  show "get_device_path files' = get_device_path (files_of st)" by (rule w(2))
qed

lemma flash_spec_two_kinds:
  assumes "flagged DROIDBOOT_MAGIC cs = [k]" "flagged SPLASHSCREEN_MAGIC cs = [sp]"
    and "flagged IFWI_MAGIC cs = []" "flagged CAPSULE_MAGIC cs = []" "flagged ESP_MAGIC cs = []"
    and "flash ''fastboot'' k s = (0, s1)" "flash ''splashscreen'' sp s1 = (0, s2)"
  shows "flash_spec flash cs kinds r s = (0, s2)"
  using assms by (simp add: kinds_def)

text \<open>C38: A bootloader image reaches the partitions through the commands that \<open>libintel_droidboot_init\<close> registers. The device has a
  GPT, and its partitions \<open>fastboot\<close> and \<open>splashscreen\<close> are different defect-free devices that are large enough. The image is well
  formed (header with its magic, at least one component, lengths that agree with the sizes, below 4 GiB) and holds exactly one boot
  loader and one splash screen that are marked to be flashed, and no other kind that is marked; further components may be there
  unmarked. The boot loader calls for these two names the functions that are registered under them. Then
  \<open>fastboot flash bootloader\<close> succeeds; afterwards the two partitions begin with the contents of the two components, keep the rest of
  their old contents, and nothing else has changed.\<close>

theorem bootloader_image_reaches_partitions:
  fixes st :: "'e droid_state"
  assumes image: "length head = 16" "take 8 head = BOOTLOADER_MAGIC" "cs \<noteq> []" "list_all component_ok cs"
      "length (head @ enc_components cs) < 2 ^ 32"
    and comps: "flagged DROIDBOOT_MAGIC cs = [k]" "flagged SPLASHSCREEN_MAGIC cs = [sp]"
      "flagged IFWI_MAGIC cs = []" "flagged CAPSULE_MAGIC cs = []" "flagged ESP_MAGIC cs = []"
    and aboot: "map_of (flash_cmds ext tee env aboot) ''fastboot'' = Some (aboot ''fastboot'')"
      "map_of (flash_cmds ext tee env aboot) ''splashscreen'' = Some (aboot ''splashscreen'')"
    and gpt: "get_device_path (files_of st) (Some ''fastboot'') = Some p" "get_device_path (files_of st) (Some ''splashscreen'') = Some q" "p \<noteq> q"
    and devs: "files_of st p = Some d" "healthy d" "length k \<le> length (bytes d)"
      "files_of st q = Some e" "healthy e" "length sp \<le> length (bytes e)"
  shows "bootloader_cmd aboot (head @ enc_components cs) st =
    Some (0, with_files ((files_of st)(p \<mapsto> d\<lparr>bytes := k @ drop (length k) (bytes d)\<rparr>, q \<mapsto> e\<lparr>bytes := sp @ drop (length sp) (bytes e)\<rparr>)) st)"
proof -
  let ?files1 = "(files_of st)(p \<mapsto> d\<lparr>bytes := overlay 0 k (bytes d)\<rparr>)"
  let ?st1 = "with_files ?files1 st"
  have f: "aboot ''fastboot'' = image_cmd env flash_fastboot_kernel" "aboot ''splashscreen'' = image_cmd env flash_splashscreen_image1"
    using aboot by (simp_all add: flash_cmds_def)
  have "is_gpt (files_of st)" using gpt(1) by (simp add: is_gpt_def)
  note w1 = image_cmd_gpt [OF this gpt(1) devs(1-3), where f = flash_fastboot_kernel]
  have k: "aboot ''fastboot'' k st = Some (0, ?st1)" and paths: "get_device_path ?files1 = get_device_path (files_of st)"
    using w1 by (simp_all add: f flash_fastboot_kernel_def)
  have s: "is_gpt (files_of ?st1)" "get_device_path (files_of ?st1) (Some ''splashscreen'') = Some q" "files_of ?st1 q = Some e"
    using gpt devs(4) by (simp_all add: is_gpt_def paths with_files_def)
  have sp: "aboot ''splashscreen'' sp ?st1 = Some (0, with_files (?files1(q \<mapsto> e\<lparr>bytes := overlay 0 sp (bytes e)\<rparr>)) st)"
    using image_cmd_gpt(1) [OF s devs(5,6), where f = flash_splashscreen_image1 and env = env]
    by (simp add: f flash_splashscreen_image1_def with_files_def)
  let ?flash = "\<lambda>nm bs ost. case ost of None \<Rightarrow> (- 1, None)
      | Some st \<Rightarrow> (case aboot nm bs st of None \<Rightarrow> (- 1, None) | Some (r, st) \<Rightarrow> (r, Some st))"
  have bl: "flash_bootloader ?flash (head @ enc_components cs) (Some st) = Some (flash_spec ?flash cs kinds (- 1) (Some st))"
    using image flash_kinds_spec [OF refl image(1,3,4,5)] by (simp add: flash_bootloader_def)
  have spec: "flash_spec ?flash cs kinds (- 1) (Some st) =
      (0, Some (with_files (?files1(q \<mapsto> e\<lparr>bytes := overlay 0 sp (bytes e)\<rparr>)) st))"
  proof (rule flash_spec_two_kinds [OF comps])
    show "?flash ''fastboot'' k (Some st) = (0, Some ?st1)" by (simp add: k)
    show "?flash ''splashscreen'' sp (Some ?st1) = (0, Some (with_files (?files1(q \<mapsto> e\<lparr>bytes := overlay 0 sp (bytes e)\<rparr>)) st))"
      by (simp add: sp)
  qed
  show ?thesis unfolding bootloader_cmd_def bl spec by (simp add: overlay_def)
qed

definition two_components :: "component list" where
  "two_components =
    [(\<lparr>c_magic = SPLASHSCREEN_MAGIC, c_size = 2, c_flags = 1, c_reserved = [0, 0, 0]\<rparr>, [5, 6]),
     (\<lparr>c_magic = IFWI_MAGIC, c_size = 1, c_flags = 0, c_reserved = [0, 0, 0]\<rparr>, [9]),
     (\<lparr>c_magic = DROIDBOOT_MAGIC, c_size = 3, c_flags = 1, c_reserved = [0, 0, 0]\<rparr>, [1, 2, 3])]"

definition two_partitions :: fs where
  "two_partitions = [''/dev/block/by-name/fastboot'' \<mapsto> block_device 4, ''/dev/block/by-name/splashscreen'' \<mapsto> block_device 4]"

definition image_aboot :: "string \<Rightarrow> buffer \<Rightarrow> buffer droid_state \<Rightarrow> buffer droid_outcome" where
  "image_aboot nm = (if nm = ''fastboot'' then image_cmd sample_droid_env flash_fastboot_kernel
     else image_cmd sample_droid_env flash_splashscreen_image1)"

theorem bootloader_image_reaches_partitions_witness:
  "bootloader_cmd image_aboot (BOOTLOADER_MAGIC @ replicate 8 0 @ enc_components two_components) (sample_droid_state two_partitions) =
    Some (0, with_files (two_partitions(''/dev/block/by-name/fastboot'' \<mapsto> (block_device 4)\<lparr>bytes := [1, 2, 3, 0]\<rparr>,
      ''/dev/block/by-name/splashscreen'' \<mapsto> (block_device 4)\<lparr>bytes := [5, 6, 0, 0]\<rparr>)) (sample_droid_state two_partitions))"
proof -
  let ?st = "sample_droid_state two_partitions"
  note magics = IFWI_MAGIC_def CAPSULE_MAGIC_def DROIDBOOT_MAGIC_def SPLASHSCREEN_MAGIC_def ESP_MAGIC_def to_bytes_def
  have m: "length BOOTLOADER_MAGIC = 8" "length IFWI_MAGIC = 8" "length SPLASHSCREEN_MAGIC = 8" "length DROIDBOOT_MAGIC = 8"
    by (simp_all add: BOOTLOADER_MAGIC_def magics)
  have ok: "two_components \<noteq> []" "list_all component_ok two_components"
    by (simp_all add: two_components_def component_ok_def component_wf_def m)
  have len: "length ((BOOTLOADER_MAGIC @ replicate 8 0) @ enc_components two_components) < 2 ^ 32"
    by (simp add: two_components_def enc_component_def m)
  have ne: "DROIDBOOT_MAGIC \<noteq> IFWI_MAGIC" "DROIDBOOT_MAGIC \<noteq> SPLASHSCREEN_MAGIC" "IFWI_MAGIC \<noteq> SPLASHSCREEN_MAGIC"
      "CAPSULE_MAGIC \<notin> {IFWI_MAGIC, SPLASHSCREEN_MAGIC, DROIDBOOT_MAGIC}" "ESP_MAGIC \<notin> {IFWI_MAGIC, SPLASHSCREEN_MAGIC, DROIDBOOT_MAGIC}"
    by (simp_all add: magics)
  have f: "flagged DROIDBOOT_MAGIC two_components = [[1, 2, 3]]" "flagged SPLASHSCREEN_MAGIC two_components = [[5, 6]]"
      "flagged IFWI_MAGIC two_components = []" "flagged CAPSULE_MAGIC two_components = []" "flagged ESP_MAGIC two_components = []"
    using ne by (auto simp: flagged_def two_components_def)
  have a: "map_of (flash_cmds True False sample_droid_env image_aboot) ''fastboot'' = Some (image_aboot ''fastboot'')"
      "map_of (flash_cmds True False sample_droid_env image_aboot) ''splashscreen'' = Some (image_aboot ''splashscreen'')"
    by (simp_all add: flash_cmds_def image_aboot_def)
  have g: "get_device_path (files_of ?st) (Some ''fastboot'') = Some ''/dev/block/by-name/fastboot''"
      "get_device_path (files_of ?st) (Some ''splashscreen'') = Some ''/dev/block/by-name/splashscreen''"
      "files_of ?st ''/dev/block/by-name/fastboot'' = Some (block_device 4)"
      "files_of ?st ''/dev/block/by-name/splashscreen'' = Some (block_device 4)"
    by (simp_all add: sample_droid_state_def oem_state0_def two_partitions_def get_device_path_def PREFIXES_def try_prefix_def block_device_def)
  have "replicate 4 (0 :: byte) = [0, 0, 0, 0]" by (simp add: numeral_eq_Suc)
  then have d: "healthy (block_device 4)" "bytes (block_device 4) = [0, 0, 0, 0]" by (simp_all add: block_device_def healthy_def)
  have h: "length (BOOTLOADER_MAGIC @ replicate 8 0) = 16" "take 8 (BOOTLOADER_MAGIC @ replicate 8 0) = BOOTLOADER_MAGIC"
    using m(1) by simp_all
  have r: "''/dev/block/by-name/fastboot'' \<noteq> ''/dev/block/by-name/splashscreen''" "length [1, 2, 3 :: byte] \<le> length (bytes (block_device 4))"
      "length [5, 6 :: byte] \<le> length (bytes (block_device 4))"
    by (simp_all add: d(2))
  have x: "[1, 2, 3] @ drop (length [1, 2, 3 :: byte]) (bytes (block_device 4)) = [1, 2, 3, 0]"
      "[5, 6] @ drop (length [5, 6 :: byte]) (bytes (block_device 4)) = [5, 6, 0, 0]" "files_of ?st = two_partitions"
    by (simp_all add: d(2) sample_droid_state_def oem_state0_def)
  show ?thesis
    using bootloader_image_reaches_partitions [OF h ok len f a g(1,2) r(1) g(3) d(1) r(2) g(4) d(1) r(3)] unfolding x append_assoc .
qed

end
