(* ===== verification/Recovery_Patch.thy ===== *)
theory Recovery_Patch
  imports Flash_Ops Cgpt_Cli Stdio
begin

text \<open>
  The program that rebuilds the recovery image from the boot image (\<open>update_recovery.c\<close>): it compares the digest of the
  recovery image, or of its signature, with the expected one, and if they differ applies a patch to the boot image and flashes
  the result, provided that the boot image and the result have the expected digests. The digest, its textual form and the patch
  algorithm are functions of libraries that are not in the repository: \<open>patch_env\<close>. \<open>None\<close> is undefined behaviour of the
  functions that read images.
\<close>

unbundle bit_operations_syntax

subsection \<open>Definitions\<close>

text \<open>The buffer into which the patch writes.\<close>

record MemorySinkInfo =
  msi_buffer :: buffer
  msi_size :: int
  msi_pos :: int

definition MemorySink :: "buffer \<Rightarrow> MemorySinkInfo \<Rightarrow> int \<times> MemorySinkInfo" where
  "MemorySink data msi =
    (if msi_size msi - msi_pos msi < int (length data) then (- 1, msi)
     else (int (length data), msi\<lparr>msi_buffer := overlay (nat (msi_pos msi)) data (msi_buffer msi), msi_pos := msi_pos msi + int (length data)\<rparr>))"

text \<open>\<open>SHA_hash\<close>; \<open>ParseSha1\<close>, \<open>None\<close> for a text that is not a digest; \<open>ApplyImagePatch\<close>, which calls the given sink;
  what \<open>malloc\<close> returns for a size, \<open>None\<close> for a null pointer.\<close>

record patch_env =
  SHA_hash :: "buffer \<Rightarrow> buffer"
  ParseSha1 :: "string \<Rightarrow> buffer option"
  ApplyImagePatch :: "buffer \<Rightarrow> buffer \<Rightarrow> (buffer \<Rightarrow> MemorySinkInfo \<Rightarrow> int \<times> MemorySinkInfo) \<Rightarrow> MemorySinkInfo \<Rightarrow> int \<times> MemorySinkInfo"
  malloc :: "nat \<Rightarrow> buffer option"

text \<open>The surroundings of the flash operations: the path of the eMMC, the layout of boot images, what \<open>malloc\<close> and the stack hold for
  the OSIP operations, and which files can be created.\<close>

record flash_env =
  mmc_path :: string
  layout :: boot_img_layout
  osip_heap :: "nat \<Rightarrow> buffer option"
  osip_stack :: OSIP_header
  can_create :: "string \<Rightarrow> bool"

text \<open>The two checks return the result and \<open>needs_patching\<close>.\<close>

definition check_recovery_header :: "patch_env \<Rightarrow> flash_env \<Rightarrow> string \<Rightarrow> fs \<Rightarrow> (int \<times> bool) option" where
  "check_recovery_header pe fe tgt_sha1 files =
    (case ParseSha1 pe tgt_sha1 of None \<Rightarrow> Some (- 1, False)
     | Some tgt_digest \<Rightarrow>
       do { r \<leftarrow> read_image_signature (mmc_path fe) (osip_stack fe) (osip_heap fe) ''recovery'' files;
            Some (case r of None \<Rightarrow> (- 1, False) | Some buf \<Rightarrow> (0, SHA_hash pe buf \<noteq> tgt_digest)) })"

definition check_recovery_image :: "patch_env \<Rightarrow> flash_env \<Rightarrow> string \<Rightarrow> fs \<Rightarrow> (int \<times> bool) option" where
  "check_recovery_image pe fe tgt_sha1 files =
    (case ParseSha1 pe tgt_sha1 of None \<Rightarrow> Some (- 1, False)
     | Some expected_tgt_digest \<Rightarrow>
       do { r \<leftarrow> read_image (mmc_path fe) (layout fe) (osip_heap fe) ''recovery'' files;
            Some (case r of None \<Rightarrow> (0, True) | Some data \<Rightarrow> (0, SHA_hash pe data \<noteq> expected_tgt_digest)) })"

definition TGT_SIZE_MAX :: nat where "TGT_SIZE_MAX = 512 * 32000"

text \<open>The result is 0 also when patching has failed.\<close>

definition patch_recovery :: "patch_env \<Rightarrow> flash_env \<Rightarrow> string \<Rightarrow> string \<Rightarrow> u32 \<Rightarrow> string \<Rightarrow> fs \<Rightarrow> (int \<times> fs) option" where
  "patch_recovery pe fe src_sha1 tgt_sha1 tgt_size patchfile files =
    (case (ParseSha1 pe src_sha1, ParseSha1 pe tgt_sha1) of
       (Some expected_src_digest, Some expected_tgt_digest) \<Rightarrow>
         do { src \<leftarrow> read_image (mmc_path fe) (layout fe) (osip_heap fe) ''boot'' files;
              _ \<leftarrow> read_image (mmc_path fe) (layout fe) (osip_heap fe) ''recovery'' files;
              case src of None \<Rightarrow> Some (- 1, files)
              | Some src_data \<Rightarrow>
                if SHA_hash pe src_data \<noteq> expected_src_digest then Some (0, files)
                else if unat tgt_size > TGT_SIZE_MAX then Some (0, files)
                else case malloc pe (unat tgt_size) of None \<Rightarrow> Some (0, files)
                  | Some b \<Rightarrow>
                    (case file_read files patchfile of None \<Rightarrow> Some (0, files)
                     | Some patchval \<Rightarrow>
                       let (r, msi) = ApplyImagePatch pe src_data patchval MemorySink \<lparr>msi_buffer = b, msi_size = int (unat tgt_size), msi_pos = 0\<rparr> in
                       if r \<noteq> 0 then Some (0, files)
                       else if SHA_hash pe (msi_buffer msi) \<noteq> expected_tgt_digest then Some (0, files)
                       else do { (r, _, files) \<leftarrow> flash_recovery_kernel (mmc_path fe) (can_create fe) (msi_buffer msi) files;
                                 Some (0, files) }) }
     | _ \<Rightarrow> Some (- 1, files))"

subsection \<open>The command line\<close>

definition long_options :: "(string \<times> char) list" where
  "long_options = [(''src-sha1'', CHR ''s''), (''tgt-sha1'', CHR ''t''), (''tgt-size'', CHR ''z''), (''check-sha1'', CHR ''c''),
     (''patch'', CHR ''p''), (''help'', CHR ''h'')]"

text \<open>The long option that a word names: exactly, or as the prefix of one option only.\<close>

definition long_option :: "string \<Rightarrow> char option" where
  "long_option nm =
    (case map_of long_options nm of Some c \<Rightarrow> Some c
     | None \<Rightarrow> (case filter (\<lambda>(n, c). take (length nm) n = nm) long_options of [(_, c)] \<Rightarrow> Some c | _ \<Rightarrow> None))"

text \<open>The events of \<open>getopt_long\<close>, which moves operands behind the options; the operands are not used. The first
  argument is what is left of the current word of short options.\<close>

function (sequential) getopt_long :: "string \<Rightarrow> string list \<Rightarrow> opt_event list" where
  "getopt_long [] [] = []"
| "getopt_long [] (a # as) =
    (if a = ''--'' then []
     else if take 2 a = ''--'' then
       let w = drop 2 a; nm = takeWhile (\<lambda>c. c \<noteq> CHR ''='') w in
       (case long_option nm of None \<Rightarrow> Unknown CHR ''?'' # getopt_long [] as
        | Some c \<Rightarrow>
          if c = CHR ''h'' then (if nm = w then Opt c [] else Unknown c) # getopt_long [] as
          else if nm \<noteq> w then Opt c (drop (Suc (length nm)) w) # getopt_long [] as
          else (case as of [] \<Rightarrow> [Missing c] | x # as' \<Rightarrow> Opt c x # getopt_long [] as'))
     else if length a < 2 \<or> hd a \<noteq> CHR ''-'' then getopt_long [] as
     else getopt_long (tl a) as)"
| "getopt_long (c # cs) as =
    (case opt_spec ''s:t:z:c:p:h'' c of
       None \<Rightarrow> Unknown c # getopt_long cs as
     | Some False \<Rightarrow> Opt c [] # getopt_long cs as
     | Some True \<Rightarrow>
         if cs \<noteq> [] then Opt c cs # getopt_long [] as
         else (case as of [] \<Rightarrow> [Missing c] | a # as' \<Rightarrow> Opt c a # getopt_long [] as'))"
  by pat_completeness auto
termination
  by (relation "measure (\<lambda>(cs, as). length cs + sum_list (map (\<lambda>a. Suc (length a)) as))") auto

text \<open>\<open>atoi\<close> as an \<open>unsigned\<close>, over a \<open>strtol\<close> of 32 bits.\<close>

definition atoi :: "string \<Rightarrow> u32" where
  "atoi s0 =
    (let s = dropWhile is_space s0;
         neg = s \<noteq> [] \<and> hd s = CHR ''-'';
         s = (if s \<noteq> [] \<and> (hd s = CHR ''-'' \<or> hd s = CHR ''+'') then tl s else s);
         (v, k, rest) = scan_base 10 s 0 0
     in of_int (max (- (2 ^ 31)) (min (2 ^ 31 - 1) (if neg then - int v else int v))))"

record recovery_opts =
  src_sha1 :: "string option"
  tgt_sha1 :: "string option"
  tgt_size :: u32
  check_sha1 :: "string option"
  patch_file :: "string option"

text \<open>The loop over the options: \<open>Inl\<close> is the argument of \<open>exit\<close>.\<close>

fun recovery_options :: "opt_event list \<Rightarrow> recovery_opts \<Rightarrow> int + recovery_opts" where
  "recovery_options [] p = Inr p"
| "recovery_options (Opt c a # evs) p =
    (if c = CHR ''s'' then recovery_options evs (p\<lparr>src_sha1 := Some a\<rparr>)
     else if c = CHR ''t'' then recovery_options evs (p\<lparr>tgt_sha1 := Some a\<rparr>)
     else if c = CHR ''z'' then recovery_options evs (p\<lparr>tgt_size := atoi a\<rparr>)
     else if c = CHR ''c'' then recovery_options evs (p\<lparr>check_sha1 := Some a\<rparr>)
     else if c = CHR ''p'' then recovery_options evs (p\<lparr>patch_file := Some a\<rparr>)
     else if c = CHR ''h'' then Inl 0
     else Inl 1)"
| "recovery_options (Unknown c # evs) p = Inl 1"
| "recovery_options (Missing c # evs) p = Inl 1"

definition run_recovery :: "patch_env \<Rightarrow> flash_env \<Rightarrow> recovery_opts \<Rightarrow> fs \<Rightarrow> (int \<times> fs) option" where
  "run_recovery pe fe p files =
    do { signed_image \<leftarrow> is_image_signed (mmc_path fe) ''recovery'' files;
         if signed_image = - 1 then Some (1, files)
         else do {
           (r, needs_patching) \<leftarrow>
             (if signed_image = 0 \<or> check_sha1 p = None then
                case tgt_sha1 p of None \<Rightarrow> Some (- 1, False) | Some t \<Rightarrow> check_recovery_image pe fe t files
              else check_recovery_header pe fe (the (check_sha1 p)) files);
           if r \<noteq> 0 then Some (1, files)
           else case (src_sha1 p, tgt_sha1 p, patch_file p) of
             (Some s, Some t, Some f) \<Rightarrow>
               if tgt_size p = 0 \<or> \<not> needs_patching then Some (0, files)
               else do { (r, files) \<leftarrow> patch_recovery pe fe s t (tgt_size p) f files;
                         Some (if r \<noteq> 0 then 1 else 0, files) }
           | _ \<Rightarrow> Some (0, files) } }"

definition no_opts :: recovery_opts where
  "no_opts = \<lparr>src_sha1 = None, tgt_sha1 = None, tgt_size = 0, check_sha1 = None, patch_file = None\<rparr>"

definition recovery_main :: "patch_env \<Rightarrow> flash_env \<Rightarrow> string list \<Rightarrow> fs \<Rightarrow> (int \<times> fs) option" where
  "recovery_main pe fe args files =
    (case recovery_options (getopt_long [] args) no_opts of Inl st \<Rightarrow> Some (st, files)
     | Inr p \<Rightarrow> run_recovery pe fe p files)"

subsection \<open>Properties\<close>

text \<open>What must have happened for a patch to change a file.\<close>

definition verified_flash :: "patch_env \<Rightarrow> flash_env \<Rightarrow> string \<Rightarrow> string \<Rightarrow> fs \<Rightarrow> fs \<Rightarrow> bool" where
  "verified_flash pe fe s t files files' \<longleftrightarrow>
    (\<exists>src b r b'. read_image (mmc_path fe) (layout fe) (osip_heap fe) ''boot'' files = Some (Some src) \<and>
      ParseSha1 pe s = Some (SHA_hash pe src) \<and> ParseSha1 pe t = Some (SHA_hash pe b) \<and>
      flash_recovery_kernel (mmc_path fe) (can_create fe) b files = Some (r, b', files'))"

lemma patch_recovery_verified:
  assumes "patch_recovery pe fe s t sz f files = Some (r, files')" "files' \<noteq> files"
  shows "verified_flash pe fe s t files files'"
proof -
  obtain sd td where d: "ParseSha1 pe s = Some sd" "ParseSha1 pe t = Some td"
    using assms by (auto simp: patch_recovery_def split: option.splits)
  obtain src where src: "read_image (mmc_path fe) (layout fe) (osip_heap fe) ''boot'' files = Some (Some src)"
    using assms d by (auto simp: patch_recovery_def bind_eq_Some_conv split: option.splits)
  obtain b where "malloc pe (unat sz) = Some b"
    using assms d src by (auto simp: patch_recovery_def bind_eq_Some_conv split: option.splits if_splits)
  moreover obtain pv where "file_read files f = Some pv"
    using assms d src calculation by (auto simp: patch_recovery_def bind_eq_Some_conv split: option.splits if_splits)
  ultimately show ?thesis
    using assms d src unfolding patch_recovery_def verified_flash_def
    by (auto simp: bind_eq_Some_conv Let_def split: prod.splits if_splits)
qed

text \<open>C19: The recovery image is only ever replaced by a verified one. Whenever the program changes any file, it has been given two digests, the
  boot image it has read has the first one, and the change is that of flashing a buffer with the second one as the recovery image,
  exactly once.\<close>

theorem recovery_flashed_only_if_verified:
  assumes "recovery_main pe fe args files = Some (st, files')" "files' \<noteq> files"
  shows "\<exists>p s t. recovery_options (getopt_long [] args) no_opts = Inr p \<and> src_sha1 p = Some s \<and> tgt_sha1 p = Some t \<and>
    verified_flash pe fe s t files files'"
proof -
  obtain p where p: "recovery_options (getopt_long [] args) no_opts = Inr p" "run_recovery pe fe p files = Some (st, files')"
    using assms by (auto simp: recovery_main_def split: sum.splits)
  obtain s t f where o: "src_sha1 p = Some s" "tgt_sha1 p = Some t" "patch_file p = Some f"
    using p(2) assms(2) by (auto simp: run_recovery_def bind_eq_Some_conv split: option.splits if_splits)
  obtain r where "patch_recovery pe fe s t (tgt_size p) f files = Some (r, files')"
    using p(2) assms(2) o by (auto simp: run_recovery_def bind_eq_Some_conv split: if_splits)
  from patch_recovery_verified [OF this assms(2)] p(1) o show ?thesis by blast
qed


lemma recovery_update_run:
  assumes gpt: "is_gpt files" "get_device_path files (Some ''recovery'') = Some path" "files path = Some d" "healthy d"
      "length b \<le> length (bytes d)"
    and opts: "src_sha1 p = Some s" "tgt_sha1 p = Some t" "patch_file p = Some f" "0 < tgt_size p" "unat (tgt_size p) \<le> TGT_SIZE_MAX"
    and images: "read_image (mmc_path fe) (layout fe) (osip_heap fe) ''boot'' files = Some (Some src)"
      "read_image (mmc_path fe) (layout fe) (osip_heap fe) ''recovery'' files = Some cur"
      "\<forall>c. cur = Some c \<longrightarrow> ParseSha1 pe t \<noteq> Some (SHA_hash pe c)"
    and digests: "ParseSha1 pe s = Some (SHA_hash pe src)" "ParseSha1 pe t = Some (SHA_hash pe b)"
    and patch: "malloc pe (unat (tgt_size p)) = Some b0" "file_read files f = Some pv"
      "ApplyImagePatch pe src pv MemorySink \<lparr>msi_buffer = b0, msi_size = int (unat (tgt_size p)), msi_pos = 0\<rparr> = (0, msi)"
      "msi_buffer msi = b"
    and header: "hdr_size (layout fe) \<le> length b" "0 < length b"
      "bootimage_size (layout fe) (empty_file\<lparr>bytes := b\<rparr>) = Some (int (length b))"
  shows "\<exists>files'. run_recovery pe fe p files = Some (0, files') \<and>
    read_image (mmc_path fe) (layout fe) (osip_heap fe) ''recovery'' files' = Some (Some b) \<and>
    (\<forall>q. q \<noteq> path \<longrightarrow> files' q = files q) \<and> run_recovery pe fe p files' = Some (0, files')"
proof -
  obtain files' where f: "flash_image (mmc_path fe) (can_create fe) b ''recovery'' files = Some (0, b, files')"
      "\<forall>q. q \<noteq> path \<longrightarrow> files' q = files q"
      "read_image (mmc_path fe) (layout fe) (osip_heap fe) ''recovery'' files' = Some (Some b)" "is_gpt files'"
    using gpt_flash_read [OF gpt(1-5) _ header, where creatable = "can_create fe" and mmc = "mmc_path fe" and heap = "osip_heap fe"]
    by auto
  have sgn: "is_image_signed (mmc_path fe) ''recovery'' files = Some 0" "is_image_signed (mmc_path fe) ''recovery'' files' = Some 0"
    using gpt(1) f(4) by (simp_all add: is_image_signed_def bootimage_ops_def is_image_signed_gpt_def)
  have "check_recovery_image pe fe t files = Some (0, True)"
    using images(2,3) digests(2) by (cases cur) (auto simp: check_recovery_image_def)
  moreover have "patch_recovery pe fe s t (tgt_size p) f files = Some (0, files')"
    using digests images(1,2) patch opts(5) f(1)
    by (simp add: patch_recovery_def flash_recovery_kernel_def not_less)
  moreover have "tgt_size p \<noteq> 0" using opts(4) by auto
  ultimately have "run_recovery pe fe p files = Some (0, files')"
    using sgn(1) opts(1-3) by (simp add: run_recovery_def)
  moreover have "check_recovery_image pe fe t files' = Some (0, False)"
    using f(3) digests(2) by (simp add: check_recovery_image_def)
  then have "run_recovery pe fe p files' = Some (0, files')"
    using sgn(2) opts(1-3) by (simp add: run_recovery_def)
  ultimately show ?thesis using f(2,3) by blast
qed

text \<open>C23: The update installs the patched image and then rests. On a device with a GPT, with a recovery partition without defects that
  is large enough, if the boot image has the digest \<open>src_sha1\<close>, the recovery image does not have the digest \<open>tgt_sha1\<close>, and the patch
  turns the boot image into an image \<open>b\<close> with that digest whose header gives its length, then the program succeeds, the recovery
  image is \<open>b\<close>, no other file has changed, and a second run succeeds without changing anything.\<close>

theorem recovery_update_installs_once:
  assumes gpt: "is_gpt files" "get_device_path files (Some ''recovery'') = Some path" "files path = Some d" "healthy d"
      "length b \<le> length (bytes d)"
    and opts: "src_sha1 p = Some s" "tgt_sha1 p = Some t" "patch_file p = Some f" "0 < tgt_size p" "unat (tgt_size p) \<le> TGT_SIZE_MAX"
    and images: "read_image (mmc_path fe) (layout fe) (osip_heap fe) ''boot'' files = Some (Some src)"
      "read_image (mmc_path fe) (layout fe) (osip_heap fe) ''recovery'' files = Some cur"
      "\<forall>c. cur = Some c \<longrightarrow> ParseSha1 pe t \<noteq> Some (SHA_hash pe c)"
    and digests: "ParseSha1 pe s = Some (SHA_hash pe src)" "ParseSha1 pe t = Some (SHA_hash pe b)"
    and patch: "malloc pe (unat (tgt_size p)) = Some b0" "file_read files f = Some pv"
      "ApplyImagePatch pe src pv MemorySink \<lparr>msi_buffer = b0, msi_size = int (unat (tgt_size p)), msi_pos = 0\<rparr> = (0, msi)"
      "msi_buffer msi = b"
    and header: "hdr_size (layout fe) \<le> length b" "0 < length b"
      "bootimage_size (layout fe) (empty_file\<lparr>bytes := b\<rparr>) = Some (int (length b))"
  shows "\<exists>files'. run_recovery pe fe p files = Some (0, files') \<and>
    read_image (mmc_path fe) (layout fe) (osip_heap fe) ''recovery'' files' = Some (Some b) \<and>
    (\<forall>q. q \<noteq> path \<longrightarrow> files' q = files q) \<and> run_recovery pe fe p files' = Some (0, files')"
  by (rule recovery_update_run [OF assms])

text \<open>A device with a boot image and an empty recovery partition; the digest of a buffer is itself, and the patch is the
  image that it makes.\<close>

definition sample_patch_env :: patch_env where
  "sample_patch_env = \<lparr>SHA_hash = (\<lambda>b. b), ParseSha1 = (\<lambda>s. Some (map of_char s)),
     ApplyImagePatch = (\<lambda>src pv sink msi. let (r, msi) = sink pv msi in (if r < 0 then 1 else 0, msi)),
     malloc = (\<lambda>n. Some (replicate n 0))\<rparr>"

definition sample_flash_env :: flash_env where
  "sample_flash_env = \<lparr>mmc_path = ''/dev/block/mmcblk0'', layout = tiny_layout, osip_heap = (\<lambda>_. None),
     osip_stack = default_osip, can_create = (\<lambda>_. False)\<rparr>"

definition sample_recovery_files :: fs where
  "sample_recovery_files = [''/dev/block/by-name/fastboot'' \<mapsto> block_device 8,
     ''/dev/block/by-name/boot'' \<mapsto> (block_device 8)\<lparr>bytes := [1, 2, 3, 4, 0, 0, 0, 0]\<rparr>,
     ''/dev/block/by-name/recovery'' \<mapsto> block_device 8, ''patch'' \<mapsto> empty_file\<lparr>bytes := [1, 7, 7, 7]\<rparr>]"

definition sample_opts :: recovery_opts where
  "sample_opts = \<lparr>src_sha1 = Some [CHR 0x01, CHR 0x02, CHR 0x03, CHR 0x04], tgt_sha1 = Some [CHR 0x01, CHR 0x07, CHR 0x07, CHR 0x07],
     tgt_size = 4, check_sha1 = None, patch_file = Some ''patch''\<rparr>"

lemma sample_recovery_facts:
  "is_gpt sample_recovery_files" "get_device_path sample_recovery_files (Some ''recovery'') = Some ''/dev/block/by-name/recovery''"
  "sample_recovery_files ''/dev/block/by-name/recovery'' = Some (block_device 8)" "healthy (block_device 8)"
  "length [1, 7, 7, 7 :: byte] \<le> length (bytes (block_device 8))"
  "src_sha1 sample_opts = Some [CHR 0x01, CHR 0x02, CHR 0x03, CHR 0x04]" "tgt_sha1 sample_opts = Some [CHR 0x01, CHR 0x07, CHR 0x07, CHR 0x07]"
  "patch_file sample_opts = Some ''patch''" "0 < tgt_size sample_opts" "unat (tgt_size sample_opts) \<le> TGT_SIZE_MAX"
  by (simp_all add: is_gpt_def get_device_path_def PREFIXES_def try_prefix_def sample_recovery_files_def block_device_def healthy_def
      sample_opts_def TGT_SIZE_MAX_def)

lemma sample_images:
  "read_image (mmc_path sample_flash_env) (layout sample_flash_env) (osip_heap sample_flash_env) ''boot'' sample_recovery_files = Some (Some [1, 2, 3, 4])"
  "read_image (mmc_path sample_flash_env) (layout sample_flash_env) (osip_heap sample_flash_env) ''recovery'' sample_recovery_files = Some None"
proof -
  let ?d = "(block_device 8)\<lparr>bytes := [1, 2, 3, 4, 0, 0, 0, 0]\<rparr>"
  have h: "healthy ?d" by (simp add: healthy_def block_device_def)
  have r: "safe_read ?d 0 1 = Some [1]" "safe_read ?d 0 4 = Some [1, 2, 3, 4]" "safe_read (block_device 8) 0 1 = Some [0]"
    using safe_read_healthy [OF h, of 0] safe_read_healthy [OF sample_recovery_facts(4), of 0]
    by (simp_all add: seg_def block_device_def)
  have p: "get_device_path sample_recovery_files (Some ''boot'') = Some ''/dev/block/by-name/boot''"
      "sample_recovery_files ''/dev/block/by-name/boot'' = Some ?d"
    by (simp_all add: get_device_path_def PREFIXES_def try_prefix_def sample_recovery_files_def block_device_def)
  have "bootimage_size tiny_layout ?d = Some 4" "bootimage_size tiny_layout (block_device 8) = Some (- 1)"
    using r by (simp_all add: bootimage_size_def tiny_layout_def pages_def)
  then show "read_image (mmc_path sample_flash_env) (layout sample_flash_env) (osip_heap sample_flash_env) ''boot'' sample_recovery_files = Some (Some [1, 2, 3, 4])"
      "read_image (mmc_path sample_flash_env) (layout sample_flash_env) (osip_heap sample_flash_env) ''recovery'' sample_recovery_files = Some None"
    using r(2) p sample_recovery_facts(1-3)
    by (simp_all add: read_image_def bootimage_ops_def sample_flash_env_def read_image_gpt_def open_bootimage_def lseek_def lseek64_def)
qed

lemma sample_patch:
  "ParseSha1 sample_patch_env [CHR 0x01, CHR 0x02, CHR 0x03, CHR 0x04] = Some (SHA_hash sample_patch_env [1, 2, 3, 4])"
  "ParseSha1 sample_patch_env [CHR 0x01, CHR 0x07, CHR 0x07, CHR 0x07] = Some (SHA_hash sample_patch_env [1, 7, 7, 7])"
  "malloc sample_patch_env (unat (tgt_size sample_opts)) = Some (replicate 4 0)" "file_read sample_recovery_files ''patch'' = Some [1, 7, 7, 7]"
  "ApplyImagePatch sample_patch_env [1, 2, 3, 4] [1, 7, 7, 7] MemorySink
     \<lparr>msi_buffer = replicate 4 0, msi_size = int (unat (tgt_size sample_opts)), msi_pos = 0\<rparr> = (0, \<lparr>msi_buffer = [1, 7, 7, 7], msi_size = 4, msi_pos = 4\<rparr>)"
  "hdr_size (layout sample_flash_env) \<le> length [1, 7, 7, 7 :: byte]"
  "bootimage_size (layout sample_flash_env) (empty_file\<lparr>bytes := [1, 7, 7, 7]\<rparr>) = Some (int (length [1, 7, 7, 7 :: byte]))"
proof -
  have ok: "ok_file (empty_file\<lparr>bytes := [1, 7, 7, 7]\<rparr>)" by (simp add: ok_file_def empty_file_def)
  show "file_read sample_recovery_files ''patch'' = Some [1, 7, 7, 7]"
    using file_read_ok [OF _ ok, of sample_recovery_files "''patch''"] by (simp add: sample_recovery_files_def)
  have "safe_read (empty_file\<lparr>bytes := [1, 7, 7, 7]\<rparr>) 0 1 = Some [1]" using safe_read_ok [OF ok, of 0 1] by (simp add: seg_def)
  then show "bootimage_size (layout sample_flash_env) (empty_file\<lparr>bytes := [1, 7, 7, 7]\<rparr>) = Some (int (length [1, 7, 7, 7 :: byte]))"
    by (simp add: bootimage_size_def sample_flash_env_def tiny_layout_def pages_def)
qed (simp_all add: sample_patch_env_def sample_opts_def MemorySink_def overlay_def sample_flash_env_def tiny_layout_def)

lemmas sample_recovery_run = sample_recovery_facts(1-10) sample_images(1,2)

theorem recovery_update_installs_once_witness:
  "\<exists>files'. run_recovery sample_patch_env sample_flash_env sample_opts sample_recovery_files = Some (0, files') \<and>
    read_image ''/dev/block/mmcblk0'' tiny_layout (\<lambda>_. None) ''recovery'' files' = Some (Some [1, 7, 7, 7]) \<and>
    run_recovery sample_patch_env sample_flash_env sample_opts files' = Some (0, files')"
  using recovery_update_installs_once [OF sample_recovery_run _ sample_patch(1-5) _ sample_patch(6) _ sample_patch(7)]
  by (auto simp: sample_flash_env_def)

theorem recovery_flashed_only_if_verified_witness:
  "\<exists>files' s t. recovery_main sample_patch_env sample_flash_env
      [''-s'', [CHR 0x01, CHR 0x02, CHR 0x03, CHR 0x04], ''--tgt-sha1'', [CHR 0x01, CHR 0x07, CHR 0x07, CHR 0x07], ''-z4'', ''--patch=patch'']
      sample_recovery_files = Some (0, files') \<and> verified_flash sample_patch_env sample_flash_env s t sample_recovery_files files'"
proof -
  let ?args = "[''-s'', [CHR 0x01, CHR 0x02, CHR 0x03, CHR 0x04], ''--tgt-sha1'', [CHR 0x01, CHR 0x07, CHR 0x07, CHR 0x07], ''-z4'', ''--patch=patch'']"
  have o: "recovery_options (getopt_long [] ?args) no_opts = Inr sample_opts"
    by (simp add: long_option_def long_options_def no_opts_def sample_opts_def atoi_def is_space_def hex_val_def)
  obtain files' where f: "run_recovery sample_patch_env sample_flash_env sample_opts sample_recovery_files = Some (0, files')"
      "read_image (mmc_path sample_flash_env) (layout sample_flash_env) (osip_heap sample_flash_env) ''recovery'' files' = Some (Some [1, 7, 7, 7])"
    using recovery_update_run [OF sample_recovery_run _ sample_patch(1-5) _ sample_patch(6) _ sample_patch(7)] by auto
  have m: "recovery_main sample_patch_env sample_flash_env ?args sample_recovery_files = Some (0, files')"
    using o f(1) by (simp add: recovery_main_def)
  have ne: "files' \<noteq> sample_recovery_files" using f(2) sample_images(2) by auto
  show ?thesis using recovery_flashed_only_if_verified [OF m ne] m by blast
qed

end
