(* ===== verification/Updater.thy ===== *)
theory Updater
  imports Droidboot Recovery_Patch
begin

text \<open>
  The functions that \<open>updater.c\<close> adds to the language of update scripts (edify) for the recovery system: firmware, capsules,
  images, and the conversion of a device from OSIP to GPT. The interpreter and the archive functions (minzip) are not part of
  the repository. The arguments of a function are the values of its expressions, \<open>None\<close> for one that cannot be evaluated; a
  function that reads more arguments than it is given has no defined behaviour, \<open>None\<close>. Its result is a null pointer, on
  which the script ends, or a text.
\<close>

subsection \<open>Values and arguments\<close>

datatype Value = NullValue | StringValue string

definition ReadArgs :: "string option list \<Rightarrow> nat \<Rightarrow> string list option option" where
  "ReadArgs argv n =
    (if length argv < n then None
     else if None \<in> set (take n argv) then Some None else Some (Some (map the (take n argv))))"

text \<open>The frame of the functions with one argument that must not be empty.\<close>

definition with_arg :: "string option list \<Rightarrow> (string \<Rightarrow> 's \<Rightarrow> (Value \<times> 's) option) \<Rightarrow> 's \<Rightarrow> (Value \<times> 's) option" where
  "with_arg argv f s =
    do { r \<leftarrow> ReadArgs argv 1;
         case r of None \<Rightarrow> Some (NullValue, s) | Some as \<Rightarrow> if as ! 0 = [] then Some (NullValue, s) else f (as ! 0) s }"

definition ok_value :: "bool \<Rightarrow> Value" where
  "ok_value b = (if b then StringValue ''t'' else NullValue)"

text \<open>What the functions need: the boot images, the configuration and the platform.\<close>

record upd_env =
  flash :: flash_env
  conf :: build_config
  plt :: platform

subsection \<open>Images\<close>

definition ExtractImageFn :: "upd_env \<Rightarrow> string option list \<Rightarrow> fs \<Rightarrow> (Value \<times> fs) option" where
  "ExtractImageFn env argv files =
    do { r \<leftarrow> ReadArgs argv 2;
         case r of None \<Rightarrow> Some (NullValue, files)
         | Some as \<Rightarrow>
           if as ! 0 = [] \<or> as ! 1 = [] then Some (NullValue, files)
           else do { data \<leftarrow> read_image (mmc_path (flash env)) (layout (flash env)) (osip_heap (flash env)) (as ! 1) files;
                     case data of None \<Rightarrow> Some (NullValue, files)
                     | Some bs \<Rightarrow>
                       let (r, files) = file_write (creatable (plt env)) (as ! 0) bs files in Some (ok_value (r \<ge> 0), files) } }"

definition ExecuteOsipFunction :: "upd_env \<Rightarrow> string option list \<Rightarrow> (string option \<Rightarrow> mmc \<Rightarrow> (int \<times> mmc) option) \<Rightarrow> fs \<Rightarrow> (Value \<times> fs) option" where
  "ExecuteOsipFunction env argv action =
    with_arg argv (\<lambda>destination files.
      do { (r, m) \<leftarrow> action (Some destination) (files (mmc_path (flash env)));
           Some (ok_value (r \<noteq> - 1), files(mmc_path (flash env) := m)) })"

definition InvalidateOsFn :: "upd_env \<Rightarrow> string option list \<Rightarrow> fs \<Rightarrow> (Value \<times> fs) option" where
  "InvalidateOsFn env argv = ExecuteOsipFunction env argv invalidate_osii"

definition RestoreOsFn :: "upd_env \<Rightarrow> string option list \<Rightarrow> fs \<Rightarrow> (Value \<times> fs) option" where
  "RestoreOsFn env argv = ExecuteOsipFunction env argv restore_osii"

text \<open>\<open>basename\<close> of the C library: the last component of a path.\<close>

definition basename :: "string \<Rightarrow> string" where
  "basename p =
    (let q = rev (dropWhile (\<lambda>c. c = CHR ''/'') (rev p)) in
     if p = [] then ''.'' else if q = [] then ''/'' else rev (takeWhile (\<lambda>c. c \<noteq> CHR ''/'') (rev q)))"

text \<open>The contents are a text or a blob; the partition is a text, or \<open>None\<close> for a value of another type. The result of
  \<open>basename\<close>, which belongs to the C library, is freed.\<close>

definition FlashOSImage :: "upd_env \<Rightarrow> (bool \<times> buffer) option \<Rightarrow> string option option \<Rightarrow> fs \<Rightarrow> (Value \<times> fs) option" where
  "FlashOSImage env contents partition_value files =
    (case (contents, partition_value) of
       (Some (is_string, data), Some pv) \<Rightarrow>
         (case pv of None \<Rightarrow> Some (NullValue, files)
          | Some dst \<Rightarrow>
            if dst = [] \<or> is_string \<and> data = [] then Some (NullValue, files)
            else do { (r, _, files) \<leftarrow> flash_image (mmc_path (flash env)) (can_create (flash env)) data (basename dst) files;
                      Some (ok_value (r = 0), files) })
     | _ \<Rightarrow> Some (NullValue, files))"

subsection \<open>Firmware\<close>

text \<open>An archive: whether it can be opened, and its entries, each with its name, its length and its contents, \<open>None\<close> if it
  cannot be extracted.\<close>

record zip_entry =
  fileName :: string
  uncompLen :: int
  contents :: "buffer option"

record zip_lib =
  open_zip :: "buffer \<Rightarrow> int"
  entries :: "buffer \<Rightarrow> zip_entry list"

datatype flash_option_type = FLASH_IFWI_BINARY | FLASH_BOM_TOKEN_BINARY

definition find_entry :: "string \<Rightarrow> zip_entry list \<Rightarrow> zip_entry option" where
  "find_entry nm es = find (\<lambda>e. fileName e = nm) es"

definition bom_token_name :: "string \<Rightarrow> string" where
  "bom_token_name ifwi_name = ''bom-token'' @ take 118 (drop 4 ifwi_name)"

text \<open>The token for an image: \<open>None\<close> to go on, or the result with which the function ends.\<close>

definition flash_bom :: "'e tee \<Rightarrow> string \<Rightarrow> zip_entry list \<Rightarrow> 'e tee_state \<Rightarrow> (Value option \<times> 'e tee_state) option" where
  "flash_bom T ifwi_name es st =
    (case find_entry (bom_token_name ifwi_name) es of None \<Rightarrow> Some (None, st)
     | Some e \<Rightarrow>
       if uncompLen e \<le> 0 then Some (Some NullValue, st)
       else case contents e of None \<Rightarrow> Some (Some NullValue, st)
         | Some token \<Rightarrow>
           do { (r, st) \<leftarrow> write_token T token st;
                if r = 0 then Some (None, st)
                else Some (Some (StringValue ''fail''), snd (cancel_update T st)) })"

text \<open>The loop over the entries; \<open>all\<close> are the entries of the archive. An image for another device is passed over. The
  result of \<open>update_ifwi_file\<close> is not looked at.\<close>

fun ifwi_loop :: "upd_env \<Rightarrow> bool \<Rightarrow> 'e tee \<Rightarrow> flash_option_type \<Rightarrow> zip_entry list \<Rightarrow> zip_entry list \<Rightarrow> 'e tee_state \<Rightarrow>
    (Value \<times> 'e tee_state) option" where
  "ifwi_loop env TEE_FRAMEWORK T opt all [] st = Some (StringValue ''t'', st)"
| "ifwi_loop env TEE_FRAMEWORK T opt all (e # es) st =
    (if \<not> length (fileName e) + 1 < 128 then Some (NullValue, st)
     else if take 4 (fileName e) \<noteq> ''ifwi'' then ifwi_loop env TEE_FRAMEWORK T opt all es st
     else if uncompLen e \<le> 0 then Some (NullValue, st)
     else case contents e of None \<Rightarrow> Some (NullValue, st)
       | Some img \<Rightarrow>
         do { (r, files) \<leftarrow> check_ifwi_file (conf env) (plt env) img (tfiles st);
              let st = st\<lparr>tfiles := files\<rparr>;
              if r < 1 then ifwi_loop env TEE_FRAMEWORK T opt all es st
              else case opt of
                FLASH_BOM_TOKEN_BINARY \<Rightarrow>
                  if TEE_FRAMEWORK
                  then do { (v, st) \<leftarrow> flash_bom T (fileName e) all st;
                            case v of None \<Rightarrow> ifwi_loop env TEE_FRAMEWORK T opt all es st | Some v \<Rightarrow> Some (v, st) }
                  else ifwi_loop env TEE_FRAMEWORK T opt all es st
              | FLASH_IFWI_BINARY \<Rightarrow>
                  do { (_, files) \<leftarrow> update_ifwi_file (conf env) (plt env) img (tfiles st);
                       ifwi_loop env TEE_FRAMEWORK T opt all es (st\<lparr>tfiles := files\<rparr>) } })"

definition FlashIfwiOrBomFn :: "upd_env \<Rightarrow> bool \<Rightarrow> zip_lib \<Rightarrow> 'e tee \<Rightarrow> flash_option_type \<Rightarrow> string option list \<Rightarrow> 'e tee_state \<Rightarrow>
    (Value \<times> 'e tee_state) option" where
  "FlashIfwiOrBomFn env TEE_FRAMEWORK Z T opt argv =
    with_arg argv (\<lambda>filename st.
      case file_read (tfiles st) filename of None \<Rightarrow> Some (NullValue, st)
      | Some buf \<Rightarrow>
        if open_zip Z buf \<noteq> 0 then Some (NullValue, st)
        else ifwi_loop env TEE_FRAMEWORK T opt (entries Z buf) (entries Z buf) st)"

definition FlashIfwiFn :: "upd_env \<Rightarrow> bool \<Rightarrow> zip_lib \<Rightarrow> 'e tee \<Rightarrow> string option list \<Rightarrow> 'e tee_state \<Rightarrow> (Value \<times> 'e tee_state) option" where
  "FlashIfwiFn env TEE_FRAMEWORK Z T argv = FlashIfwiOrBomFn env TEE_FRAMEWORK Z T FLASH_IFWI_BINARY argv"

definition FlashBomFn :: "upd_env \<Rightarrow> zip_lib \<Rightarrow> 'e tee \<Rightarrow> string option list \<Rightarrow> 'e tee_state \<Rightarrow> (Value \<times> 'e tee_state) option" where
  "FlashBomFn env Z T argv = FlashIfwiOrBomFn env True Z T FLASH_BOM_TOKEN_BINARY argv"

text \<open>The functions that flash a whole file.\<close>

definition flash_file_fn :: "(buffer \<Rightarrow> fs \<Rightarrow> (int \<times> fs) option) \<Rightarrow> string option list \<Rightarrow> fs \<Rightarrow> (Value \<times> fs) option" where
  "flash_file_fn f argv =
    with_arg argv (\<lambda>filename files.
      case file_read files filename of None \<Rightarrow> Some (NullValue, files)
      | Some data \<Rightarrow> do { (r, files) \<leftarrow> f data files; Some (ok_value (r = 0), files) })"

definition FlashCapsuleFn :: "upd_env \<Rightarrow> string option list \<Rightarrow> fs \<Rightarrow> (Value \<times> fs) option" where
  "FlashCapsuleFn env = flash_file_fn (flash_capsule (conf env) (plt env))"

definition FlashEspUpdateFn :: "upd_env \<Rightarrow> zip_env \<Rightarrow> string option list \<Rightarrow> fs \<Rightarrow> (Value \<times> fs) option" where
  "FlashEspUpdateFn env mz = flash_file_fn (\<lambda>data files. Some (flash_esp_update (esp (plt env)) mz data files))"

definition FlashUlpmcFn :: "upd_env \<Rightarrow> string option list \<Rightarrow> fs \<Rightarrow> (Value \<times> fs) option" where
  "FlashUlpmcFn env = flash_file_fn (\<lambda>data files. Some (flash_ulpmc (creatable (plt env)) data files))"

text \<open>The version for Clovertrail: both files are extracted to \<open>/tmp\<close> and given to the driver.\<close>

definition extract_to :: "buffer option \<Rightarrow> string \<Rightarrow> blkdev \<Rightarrow> fs \<Rightarrow> bool \<times> fs" where
  "extract_to data path d files =
    (case data of None \<Rightarrow> (False, files(path \<mapsto> d))
     | Some bs \<Rightarrow> let (ok, d) = write_all d 0 bs in (ok, files(path \<mapsto> d)))"

fun clvt_loop :: "upd_env \<Rightarrow> zip_entry list \<Rightarrow> zip_entry list \<Rightarrow> fs \<Rightarrow> (Value \<times> fs) option" where
  "clvt_loop env all [] files = Some (StringValue ''t'', files)"
| "clvt_loop env all (e # es) files =
    (if \<not> length (fileName e) + 1 < 128 then Some (NullValue, files)
     else if take 4 (fileName e) \<noteq> ''ifwi'' then clvt_loop env all es files
     else case open_trunc (creatable (plt env)) files ''/tmp/ifwi.bin'' of None \<Rightarrow> Some (NullValue, files)
       | Some di \<Rightarrow>
         let files = files(''/tmp/ifwi.bin'' \<mapsto> di) in
         (case open_trunc (creatable (plt env)) files ''/tmp/dnx.bin'' of None \<Rightarrow> Some (NullValue, files)
          | Some dd \<Rightarrow>
            let files = files(''/tmp/dnx.bin'' \<mapsto> dd) in
            (case find_entry (''dnx_fwr'' @ take 120 (drop 4 (fileName e))) all of None \<Rightarrow> Some (NullValue, files)
             | Some dnx \<Rightarrow>
               let (ok, files) = extract_to (contents dnx) ''/tmp/dnx.bin'' dd files in
               if \<not> ok then Some (NullValue, files)
               else let (ok, files) = extract_to (contents e) ''/tmp/ifwi.bin'' di files in
                 if \<not> ok then Some (NullValue, files)
                 else do { (_, files) \<leftarrow> update_ifwi_file_scu_ipc (CLVT (conf env)) (creatable (plt env)) ''/tmp/dnx.bin'' ''/tmp/ifwi.bin'' files;
                           clvt_loop env all es files })))"

definition FlashIfwiFn_clvt :: "upd_env \<Rightarrow> zip_lib \<Rightarrow> string option list \<Rightarrow> fs \<Rightarrow> (Value \<times> fs) option" where
  "FlashIfwiFn_clvt env Z argv =
    with_arg argv (\<lambda>filename files.
      case file_read files filename of None \<Rightarrow> Some (NullValue, files)
      | Some buf \<Rightarrow> if open_zip Z buf \<noteq> 0 then Some (NullValue, files) else clvt_loop env (entries Z buf) (entries Z buf) files)"

subsection \<open>Commands\<close>

definition FlashCallFunction :: "(string \<Rightarrow> 's \<Rightarrow> (int \<times> 's) option) \<Rightarrow> string option list \<Rightarrow> 's \<Rightarrow> (Value \<times> 's) option" where
  "FlashCallFunction fn argv s =
    do { r \<leftarrow> ReadArgs argv 1;
         case r of None \<Rightarrow> Some (NullValue, s)
         | Some as \<Rightarrow> do { (r, s) \<leftarrow> fn (as ! 0) s; Some (ok_value (r = 0), s) } }"

definition CommandFunction :: "(string list \<Rightarrow> 's \<Rightarrow> (int \<times> 's) option) \<Rightarrow> string \<Rightarrow> string option list \<Rightarrow> 's \<Rightarrow> (Value \<times> 's) option" where
  "CommandFunction fn nm argv s =
    (if None \<in> set argv then Some (NullValue, s)
     else do { (r, s) \<leftarrow> fn (nm # map the argv) s; Some (ok_value (r = 0), s) })"

definition EraseOsipHeader :: "upd_env \<Rightarrow> string \<Rightarrow> string option list \<Rightarrow> fs \<Rightarrow> (Value \<times> fs) option" where
  "EraseOsipHeader env nm argv =
    CommandFunction (\<lambda>as files. let (r, m) = oem_erase_osip_header (files (mmc_path (flash env))) in
      Some (r, files(mmc_path (flash env) := m))) nm argv"

definition FlashPartition :: "(nat \<Rightarrow> environment) \<Rightarrow> string \<Rightarrow> string option list \<Rightarrow> oem_state \<Rightarrow> (Value \<times> oem_state) option" where
  "FlashPartition env nm argv st =
    do { (v, st) \<leftarrow> CommandFunction (oem_partition_cmd_handler env) nm argv
           ((oem_partition_disable_cmd_reload st)\<lparr>sys_partitioning := ''1''\<rparr>);
         Some (v, st\<lparr>sys_partitioning := ''0''\<rparr>) }"

subsection \<open>Images at an offset\<close>

text \<open>Writing a file to the flash memory at an offset: the file is mapped (\<open>mappable\<close> says if that succeeds), the offset is an \<open>off_t\<close>
  of 32 bits, and \<open>fsync\<close> succeeds. \<open>fail\<close> is what a failure behind the opening of the device gives.\<close>

definition write_at :: "string \<Rightarrow> (string \<Rightarrow> bool) \<Rightarrow> string \<Rightarrow> u32 \<Rightarrow> Value \<Rightarrow> fs \<Rightarrow> Value \<times> fs" where
  "write_at mmc mappable filename offset fail files =
    (let len = file_size files filename in
     if len = - 1 then (NullValue, files)
     else if len \<le> 0 \<or> \<not> mappable filename then (NullValue, files)
     else case (files filename, files mmc) of
       (Some f, Some d) \<Rightarrow>
         (case lseek d offset of None \<Rightarrow> (fail, files)
          | Some pos \<Rightarrow>
            let (ok, d) = write_all d pos (take (nat len) (bytes f)) in
            (if ok then StringValue ''t'' else fail, files(mmc \<mapsto> d)))
     | _ \<Rightarrow> (NullValue, files))"

text \<open>\<open>strtoul\<close> in base 10, and whether it is all of the text and in range. The error number of an earlier call may also
  be found, \<open>stale_erange\<close>.\<close>

definition offset_arg :: "bool \<Rightarrow> string \<Rightarrow> u32 option" where
  "offset_arg stale_erange s0 =
    (let s = dropWhile is_space s0;
         sgn = s \<noteq> [] \<and> (hd s = CHR ''-'' \<or> hd s = CHR ''+'');
         (v, k, rest) = scan_base 10 (if sgn then tl s else s) 0 0;
         e = (if k = 0 then s0 else rest)
     in if e \<noteq> [] \<or> 2 ^ 32 \<le> v \<or> stale_erange then None
        else Some (if k = 0 then 0 else if sgn \<and> hd s = CHR ''-'' then - of_nat v else of_nat v))"

definition FlashImageAtOffset :: "string \<Rightarrow> (string \<Rightarrow> bool) \<Rightarrow> bool \<Rightarrow> string option list \<Rightarrow> fs \<Rightarrow> Value \<times> fs" where
  "FlashImageAtOffset mmc mappable stale_erange argv files =
    (case argv of
       [Some filename, Some offset_str] \<Rightarrow>
         (case offset_arg stale_erange offset_str of None \<Rightarrow> (NullValue, files)
          | Some offset \<Rightarrow> write_at mmc mappable filename offset NullValue files)
     | _ \<Rightarrow> (NullValue, files))"

text \<open>A word of the script is a prefix of a text.\<close>

definition prefix_of :: "string \<Rightarrow> string \<Rightarrow> bool" where
  "prefix_of w s \<longleftrightarrow> take (length w) s = w"

text \<open>The value behind each \<open>-b\<close>, the last one counting; \<open>None\<close> is a \<open>-b\<close> without a word behind it, an inner \<open>None\<close> a word
  that is not a number.\<close>

fun last_begin :: "string list \<Rightarrow> u32 \<Rightarrow> u32 option option" where
  "last_begin [] off = Some (Some off)"
| "last_begin (w # ws) off =
    (if prefix_of w ''-b'' then
       (case ws of [] \<Rightarrow> None
        | x # _ \<Rightarrow> let (v, e) = strtoull x in if e \<noteq> [] then Some None else last_begin ws (ucast (v * 512)))
     else last_begin ws off)"

text \<open>The search for the line that adds a partition: \<open>Inl\<close> is an error, \<open>Inr\<close> the offset, \<open>None\<close> in it if there is no such line.\<close>

fun partition_offset :: "string \<Rightarrow> string list \<Rightarrow> (unit + u32 option) option" where
  "partition_offset osname [] = Some (Inr None)"
| "partition_offset osname (l # ls) =
    do { line \<leftarrow> chomp l;
         case str_to_array line of [] \<Rightarrow> None
         | command # ws \<Rightarrow>
           if prefix_of command ''add'' \<and> list_ex (\<lambda>w. prefix_of w osname) (command # ws) then
             do { r \<leftarrow> last_begin (command # ws) 0; Some (case r of None \<Rightarrow> Inl () | Some off \<Rightarrow> Inr (Some off)) }
           else partition_offset osname ls }"

definition FlashImageAtPartition :: "string \<Rightarrow> (string \<Rightarrow> bool) \<Rightarrow> string option list \<Rightarrow> fs \<Rightarrow> (Value \<times> fs) option" where
  "FlashImageAtPartition mmc mappable argv files =
    (case argv of
       [Some osname, Some filename, Some parttable] \<Rightarrow>
         (case files parttable of None \<Rightarrow> Some (StringValue [], files)
          | Some f \<Rightarrow>
            let (first, fp) = fgets 255 (map (\<lambda>b. char_of (unat b)) (bytes f)) in
            if first = [] then Some (StringValue [], files)
            else do { buffer \<leftarrow> chop first;
              if scan_partition_type buffer = None then Some (StringValue [], files)
              else do { r \<leftarrow> partition_offset osname (fgets_lines 255 fp);
                Some (case r of
                    Inl _ \<Rightarrow> (StringValue [], files)
                  | Inr None \<Rightarrow> (StringValue [], files)
                  | Inr (Some offset) \<Rightarrow> write_at mmc mappable filename offset (StringValue []) files) } })
     | _ \<Rightarrow> Some (NullValue, files))"

subsection \<open>From OSIP to GPT\<close>

definition PARTITION_UPDATE :: string where "PARTITION_UPDATE = ''/tmp/partition_update.tbl''"

definition update_partitions :: "string list" where "update_partitions = [''boot'', ''recovery'', ''fastboot'']"

text \<open>The words of a line that adds a partition: \<open>Inl\<close> is an error, \<open>Inr\<close> the sector at which the OSIP image begins, if the
  line is to be changed, and whether the line is to be kept.\<close>

fun scan_words :: "mmc \<Rightarrow> string list \<Rightarrow> (unit + int option \<times> bool) option" where
  "scan_words m [] = Some (Inr (None, True))"
| "scan_words m (w # ws) =
    (let update_write = (\<not> prefix_of w ''reserved'') in
     if list_ex (prefix_of w) update_partitions then
       do { osii_lba \<leftarrow> get_named_osii_logical_start_block (Some w) m;
            Some (if osii_lba = - 1 then Inl () else Inr (Some osii_lba, update_write)) }
     else if \<not> update_write then Some (Inr (None, False))
     else scan_words m ws)"

text \<open>The word behind an option is replaced if it is a number; \<open>None\<close> if there is no such word, an inner \<open>None\<close> for an error.\<close>

definition set_next :: "string \<Rightarrow> string list \<Rightarrow> string list option option" where
  "set_next v ws = (case ws of [] \<Rightarrow> None | x # xs \<Rightarrow> Some (if snd (strtoull x) \<noteq> [] then None else Some (v # xs)))"

lemma length_set_next: "set_next v ws = Some (Some ws') \<Longrightarrow> length ws' = length ws"
  by (auto simp: set_next_def split: list.splits if_splits)

function (sequential) rewrite_words :: "int \<Rightarrow> string list \<Rightarrow> string list option option" where
  "rewrite_words osii_lba [] = Some (Some [])"
| "rewrite_words osii_lba (w # ws) =
    (case (if prefix_of w ''-s'' then set_next (print_u (unat OS_MAX_LBA)) ws else Some (Some ws)) of
       None \<Rightarrow> None
     | Some None \<Rightarrow> Some None
     | Some (Some ws) \<Rightarrow>
       (case (if prefix_of w ''-b'' then set_next (print_d osii_lba) ws else Some (Some ws)) of
          None \<Rightarrow> None
        | Some None \<Rightarrow> Some None
        | Some (Some ws) \<Rightarrow> map_option (map_option (Cons w)) (rewrite_words osii_lba ws)))"
  by pat_completeness auto
termination
proof (relation "measure (\<lambda>(_, ws). length ws)")
  fix osii_lba w ws r ws1 r' ws2
  assume "(if prefix_of w ''-s'' then set_next (print_u (unat OS_MAX_LBA)) ws else Some (Some ws)) = Some r" "r = Some ws1"
    "(if prefix_of w ''-b'' then set_next (print_d osii_lba) ws1 else Some (Some ws1)) = Some r'" "r' = Some ws2"
  then have "length ws2 = length ws" by (auto dest!: length_set_next split: if_splits)
  then show "((osii_lba, ws2), osii_lba, w # ws) \<in> measure (\<lambda>(_, ws). length ws)" by simp
qed simp

text \<open>The new line for the words of a line: \<open>Inl\<close> is an error.\<close>

definition convert_words :: "mmc \<Rightarrow> string list \<Rightarrow> (unit + string list option) option" where
  "convert_words m ws =
    (case ws of [] \<Rightarrow> None
     | command # _ \<Rightarrow>
       if \<not> prefix_of command ''add'' then Some (Inr (Some ws))
       else do { r \<leftarrow> scan_words m ws;
                 case r of Inl _ \<Rightarrow> Some (Inl ())
                 | Inr (None, update_write) \<Rightarrow> Some (Inr (if update_write then Some ws else None))
                 | Inr (Some osii_lba, update_write) \<Rightarrow>
                   do { r \<leftarrow> rewrite_words osii_lba ws;
                        Some (case r of None \<Rightarrow> Inl () | Some ws \<Rightarrow> Inr (if update_write then Some ws else None)) } })"

definition line_text :: "string list \<Rightarrow> string" where
  "line_text ws = concat (map (\<lambda>w. w @ '' '') ws) @ newline"

text \<open>The lines of the script: whether all could be converted, and the new text.\<close>

fun convert_lines :: "mmc \<Rightarrow> string list \<Rightarrow> string \<Rightarrow> (bool \<times> string) option" where
  "convert_lines m [] out = Some (True, out)"
| "convert_lines m (l # ls) out =
    do { line \<leftarrow> chomp l;
         r \<leftarrow> convert_words m (str_to_array line);
         case r of Inl _ \<Rightarrow> Some (False, out)
         | Inr None \<Rightarrow> convert_lines m ls out
         | Inr (Some ws) \<Rightarrow> convert_lines m ls (out @ line_text ws) }"

text \<open>The converted script is written, also after an error, and run as a partitioning session. The texts that an error gives are
  empty.\<close>

definition FlashOsipToGPTPartition :: "string \<Rightarrow> (string \<Rightarrow> bool) \<Rightarrow> (nat \<Rightarrow> environment) \<Rightarrow> string option list \<Rightarrow> oem_state \<Rightarrow>
    (Value \<times> oem_state) option" where
  "FlashOsipToGPTPartition mmc can env argv st =
    (let st = oem_partition_disable_cmd_reload st; fail = StringValue [] in
     case argv of
       [Some filename] \<Rightarrow>
         (case disk st filename of None \<Rightarrow> Some (fail, st)
          | Some f \<Rightarrow>
            (case open_trunc can (disk st) PARTITION_UPDATE of None \<Rightarrow> Some (fail, st)
             | Some d \<Rightarrow>
               let (first, fp) = fgets 255 (map (\<lambda>b. char_of (unat b)) (bytes f));
                   st = st\<lparr>disk := (disk st)(PARTITION_UPDATE \<mapsto> d)\<rparr> in
               if first = [] then Some (fail, st)
               else do { buffer \<leftarrow> chop first;
                 if scan_partition_type buffer = None then Some (fail, st)
                 else do { (ok, out) \<leftarrow> convert_lines (disk st mmc) (fgets_lines 255 fp) (buffer @ newline);
                   let st = st\<lparr>disk := (disk st)(PARTITION_UPDATE \<mapsto> snd (fwrite d 0 (map of_char out)))\<rparr>;
                   if \<not> ok then Some (fail, st)
                   else do { (r, st) \<leftarrow> oem_partition_cmd_handler env [[], PARTITION_UPDATE] (st\<lparr>sys_partitioning := ''1''\<rparr>);
                             Some (if r = - 1 then fail else StringValue ''t'', st\<lparr>sys_partitioning := ''0''\<rparr>) } } }))
     | _ \<Rightarrow> Some (fail, st))"

text \<open>The functions that are registered, by name.\<close>

definition updater_functions :: "bool \<Rightarrow> string list" where
  "updater_functions TEE_FRAMEWORK =
    [''flash_ifwi''] @ (if TEE_FRAMEWORK then [''flash_bom_token''] else []) @
    [''extract_image'', ''invalidate_os'', ''restore_os'', ''flash_capsule'', ''flash_esp_update'', ''flash_ulpmc'', ''flash_partition'',
     ''flash_osiptogpt_partition'', ''flash_image_at_partition'', ''flash_image_at_offset'', ''flash_os_image'', ''write_osip_image'',
     ''erase_osip'', ''restore_os'']"

subsection \<open>Images at a partition\<close>

lemma scast_offset:
  fixes offset :: u32
  assumes "unat offset < 2 ^ 31"
  shows "unat (scast offset :: u64) = unat offset" "sint (scast offset :: u64) = int (unat offset)"
proof -
  have "int (unat offset) < int (2 ^ 31)" using assms by (simp only: of_nat_less_iff)
  then have u: "uint offset < 2 ^ 31" "0 \<le> uint offset" by simp_all
  have "sint offset = signed_take_bit 31 (uint offset)" by (simp add: sint_uint)
  also have "\<dots> = uint offset" using u by (intro signed_take_bit_int_eq_self) linarith+
  finally have s: "sint offset = uint offset" .
  have sc: "(scast offset :: u64) = word_of_int (uint offset)" by (simp flip: s)
  have ui: "uint (scast offset :: u64) = uint offset"
    unfolding sc uint_word_of_int using u by (intro mod_pos_pos_trivial) (simp_all add: order.strict_trans)
  then show "unat (scast offset :: u64) = unat offset" by (simp only: unat_eq_nat_uint)
  have "sint (scast offset :: u64) = signed_take_bit 63 (uint (scast offset :: u64))" by (simp only: sint_uint) simp
  also have "\<dots> = uint offset" unfolding ui using u by (intro signed_take_bit_int_eq_self) (simp_all add: order.trans [of _ 0] order.strict_trans)
  finally show "sint (scast offset :: u64) = int (unat offset)" by simp
qed

lemma write_at_ok:
  assumes "files filename = Some g" "ok_file g" "0 < length (bytes g)" "length (bytes g) < 2 ^ 31" "mappable filename"
    and "files mmc = Some d" "healthy d" "unat offset < 2 ^ 31" "unat offset + length (bytes g) \<le> length (bytes d)"
  shows "write_at mmc mappable filename offset fail files =
    (StringValue ''t'', files(mmc \<mapsto> d\<lparr>bytes := overlay (unat offset) (bytes g) (bytes d)\<rparr>))"
proof -
  have "file_size files filename = int (length (bytes g))"
    using assms(1-4) by (simp add: file_size_def ok_file_def st_size_def signed_of_nat signed_take_bit_int_eq_self)
  then show ?thesis
    using assms scast_offset [OF assms(8)] by (simp add: write_at_def lseek_def lseek64_def write_all_healthy healthy_def)
qed

text \<open>A line that does not add the partition, and one that adds it at the sector \<open>N\<close>.\<close>

definition other_line :: "string \<Rightarrow> string \<Rightarrow> bool" where
  "other_line osname l \<longleftrightarrow> (\<exists>line command ws. chomp l = Some line \<and> str_to_array line = command # ws \<and>
     \<not> (prefix_of command ''add'' \<and> list_ex (\<lambda>w. prefix_of w osname) (command # ws)))"

definition adds_at :: "string \<Rightarrow> nat \<Rightarrow> string \<Rightarrow> bool" where
  "adds_at osname N l \<longleftrightarrow> (\<exists>line command us vs. chomp l = Some line \<and>
     str_to_array line = command # us @ [''-b'', print_u N] @ vs \<and> prefix_of command ''add'' \<and> command \<noteq> [] \<and>
     list_ex (\<lambda>w. prefix_of w osname) (command # us @ [''-b'', print_u N] @ vs) \<and>
     \<not> list_ex (\<lambda>w. prefix_of w ''-b'') (us @ vs))"

lemma prefix_of_number: "prefix_of (print_u N) (c # s) \<Longrightarrow> c \<in> set ''0123456789''"
proof -
  assume p: "prefix_of (print_u N) (c # s)"
  obtain x xs where x: "print_u N = x # xs" by (cases "print_u N") auto
  then obtain d where "d < 10" "x = ''0123456789'' ! d" using print_u_chars [of x N] by auto
  then have "x \<in> set ''0123456789''" using nth_mem [of d "''0123456789''"] by simp
  with p x show "c \<in> set ''0123456789''" by (simp add: prefix_of_def)
qed

lemma last_begin_skip: "\<not> list_ex (\<lambda>w. prefix_of w ''-b'') us \<Longrightarrow> last_begin (us @ vs) off = last_begin vs off"
  by (induction us) auto

lemma ucast_of_nat_32: "ucast (of_nat n :: u64) = (of_nat n :: u32)"
  by (rule bit_word_eqI) (auto simp: bit_simps)

lemma partition_offset_found:
  assumes "list_all (other_line osname) ls" "adds_at osname N l" "N < 2 ^ 64"
  shows "partition_offset osname (ls @ l # ls') = Some (Inr (Some (of_nat (N * 512))))"
proof -
  have skip: "partition_offset osname (ls @ l # ls') = partition_offset osname (l # ls')"
    using assms(1) by (induction ls) (auto simp: other_line_def)
  obtain line command us vs where l: "chomp l = Some line" "str_to_array line = command # us @ [''-b'', print_u N] @ vs"
      "prefix_of command ''add''" "command \<noteq> []" "list_ex (\<lambda>w. prefix_of w osname) (command # us @ [''-b'', print_u N] @ vs)"
      "\<not> list_ex (\<lambda>w. prefix_of w ''-b'') us" "\<not> list_ex (\<lambda>w. prefix_of w ''-b'') vs"
    using assms(2) by (auto simp: adds_at_def)
  have c: "\<not> prefix_of command ''-b''" using l(3,4) by (cases command) (auto simp: prefix_of_def)
  have n: "\<not> prefix_of (print_u N) ''-b''" using prefix_of_number [of N "CHR ''-''" "''b''"] by auto
  have "last_begin (command # us @ [''-b'', print_u N] @ vs) 0 = Some (Some (ucast (of_nat N * 512 :: u64)))"
    using c n l(6) last_begin_skip [OF l(7), of "[]"] strtoull_print_u [OF assms(3)]
    by (simp add: last_begin_skip prefix_of_def)
  also have "ucast (of_nat N * 512 :: u64) = (of_nat (N * 512) :: u32)"
    using ucast_of_nat_32 [of "N * 512"] by simp
  finally show ?thesis unfolding skip using l(1-3,5) by simp
qed

lemma image_at_partition_runs:
  assumes "files parttable = Some f" "fgets 255 (map (\<lambda>b. char_of (unat b)) (bytes f)) = (first, fp)" "chop first = Some l"
    "scan_partition_type l \<noteq> None" "partition_offset osname (fgets_lines 255 fp) = Some (Inr (Some offset))"
  shows "FlashImageAtPartition mmc mappable [Some osname, Some filename, Some parttable] files =
    Some (write_at mmc mappable filename offset (StringValue []) files)"
proof -
  have "first \<noteq> []" using assms(3) by (auto simp: chop_def)
  moreover obtain t where "scan_partition_type l = Some t" using assms(4) by blast
  ultimately show ?thesis using assms(1-3,5) by (simp add: FlashImageAtPartition_def)
qed

text \<open>C25: \<open>flash_image_at_partition\<close> writes the image at the sector that the partition script gives, modulo 4 GiB. When the first line of
  the script that adds the partition gives it the first sector \<open>N\<close>, the file is written to the flash memory at the byte \<open>512 * N\<close>
  taken modulo \<open>2 ^ 32\<close>, if that is below 2 GiB, the function returns \<open>t\<close>, and nothing else changes. Below the sector
  \<open>2 ^ 22\<close> that is the partition; a partition at 4 GiB is written to the beginning of the device, over its tables.\<close>

theorem image_at_partition_offset:
  assumes script: "files parttable = Some f" "fgets 255 (map (\<lambda>b. char_of (unat b)) (bytes f)) = (first, fp)" "chop first = Some l"
      "scan_partition_type l \<noteq> None" "fgets_lines 255 fp = ls @ line # ls'" "list_all (other_line osname) ls"
      "adds_at osname N line" "N < 2 ^ 64"
    and image: "files filename = Some g" "ok_file g" "0 < length (bytes g)" "length (bytes g) < 2 ^ 31" "mappable filename"
    and dev: "files mmc = Some d" "healthy d" "512 * N mod 2 ^ 32 < 2 ^ 31" "512 * N mod 2 ^ 32 + length (bytes g) \<le> length (bytes d)"
  shows "FlashImageAtPartition mmc mappable [Some osname, Some filename, Some parttable] files =
    Some (StringValue ''t'', files(mmc \<mapsto> d\<lparr>bytes := overlay (512 * N mod 2 ^ 32) (bytes g) (bytes d)\<rparr>))"
proof -
  have off: "unat (of_nat (N * 512) :: u32) = 512 * N mod 2 ^ 32" unfolding unat_of_nat by (simp add: mult.commute)
  have "partition_offset osname (fgets_lines 255 fp) = Some (Inr (Some (of_nat (N * 512))))"
    using partition_offset_found [OF script(6-8)] script(5) by simp
  from image_at_partition_runs [of files, OF script(1-4) this, of mmc mappable filename]
    write_at_ok [where files = files and mappable = mappable and offset = "of_nat (N * 512)", OF image dev(1,2), unfolded off, OF dev(3,4)]
  show ?thesis by simp
qed

subsection \<open>Converted lines\<close>

definition add_line :: "string \<Rightarrow> string \<Rightarrow> string \<Rightarrow> string \<Rightarrow> string \<Rightarrow> string list" where
  "add_line b s ty nm drv = [''add'', ''-b'', b, ''-s'', s, ''-t'', ty, ''-l'', nm, drv]"

lemma number_not_prefix: "\<not> prefix_of (print_u N) s" if "s = [] \<or> hd s \<notin> set ''0123456789''"
proof (cases s)
  case Nil
  then show ?thesis by (cases "print_u N") (auto simp: prefix_of_def)
next
  case (Cons c t)
  then show ?thesis using prefix_of_number [of N c t] that by auto
qed

lemma number_in_line: "\<not> prefix_of (print_u N) ''-s''" "\<not> prefix_of (print_u N) ''-b''" "\<not> prefix_of (print_u N) ''reserved''"
    "\<not> prefix_of (print_u N) ''boot''" "\<not> prefix_of (print_u N) ''recovery''" "\<not> prefix_of (print_u N) ''fastboot''"
  by (simp_all add: number_not_prefix)

lemma print_d_int: "print_d (int n) = print_u n"
  by (simp add: print_d_def)

lemma scan_words_add_line:
  assumes "get_named_osii_logical_start_block (Some nm) m = Some (int lba)" "nm \<in> set update_partitions"
    "\<not> list_ex (prefix_of ty) [''-s'', ''-b'', ''reserved'', ''boot'', ''recovery'', ''fastboot'']"
  shows "scan_words m (add_line (print_u B) (print_u S) ty nm drv) = Some (Inr (Some (int lba), True))"
  using assms number_in_line [of B] number_in_line [of S]
  by (auto simp: add_line_def update_partitions_def prefix_of_def)

lemma rewrite_words_add_line:
  assumes "B < 2 ^ 64" "S < 2 ^ 64" "nm \<in> set update_partitions" "\<not> prefix_of ty ''-s''" "\<not> prefix_of ty ''-b''"
    "\<not> prefix_of drv ''-s''" "\<not> prefix_of drv ''-b''"
  shows "rewrite_words (int lba) (add_line (print_u B) (print_u S) ty nm drv) =
    Some (Some (add_line (print_u lba) (print_u 32000) ty nm drv))"
proof -
  have "\<not> prefix_of nm ''-s''" "\<not> prefix_of nm ''-b''" using assms(3) by (auto simp: update_partitions_def prefix_of_def)
  moreover have "\<not> prefix_of ''add'' x \<and> \<not> prefix_of ''-t'' x \<and> \<not> prefix_of ''-l'' x" if "x \<in> {''-s'', ''-b''}" for x
    using that by (auto simp: prefix_of_def)
  moreover have "prefix_of ''-s'' ''-s''" "prefix_of ''-b'' ''-b''" "\<not> prefix_of ''-s'' ''-b''" "\<not> prefix_of ''-b'' ''-s''"
    by (simp_all add: prefix_of_def)
  moreover have "unat OS_MAX_LBA = 32000" by (simp add: OS_MAX_LBA_def)
  ultimately show ?thesis
    using assms number_in_line strtoull_print_u [OF assms(1)] strtoull_print_u [OF assms(2)]
    by (simp add: add_line_def set_next_def print_d_int)
qed

lemma print_u_no_dollar: "CHR ''$'' \<notin> set (print_u n)"
  using print_d_no_dollar [of "int n"] by (simp add: print_d_int)

lemma cmd_add_line:
  assumes "B < 2 ^ 64" "S < 2 ^ 64" "guid_arg ty = Some g" "drv \<noteq> []" "hd drv \<noteq> CHR ''-''"
  shows "cmd_add uuid (add_line (print_u B) (print_u S) ty nm drv) files =
      do { (st, _, files') \<leftarrow> cgpt_add uuid (Some (add_params0\<lparr>ad_drive_name := drv, set_begin := True, ad_begin := of_nat B,
             set_size := True, ad_size := of_nat S, set_type := True, type_guid := g, label := Some (map of_char nm)\<rparr>)) files;
           Some (status_code st, files') }"
proof -
  have drv: "getopt os [] [drv] = ([], [drv])" for os using assms(4,5) by auto
  have n: "bad_number (print_u k) [] = 0" for k by (simp add: bad_number_def)
  have e: "parse_lba_end (print_u S) = None" using parse_lba_end_number [of "int S"] by (simp add: print_d_int)
  have g: "getopt '':hi:b:s:t:u:l:S:T:P:A:'' [] [''-b'', print_u B, ''-s'', print_u S, ''-t'', ty, ''-l'', nm, drv] =
      ([Opt (CHR ''b'') (print_u B), Opt (CHR ''s'') (print_u S), Opt (CHR ''t'') ty, Opt (CHR ''l'') nm], [drv])"
    using drv by simp
  show ?thesis
    unfolding cmd_add_def run_command_def add_line_def list.sel g
    by (simp add: add_opt_def strtoull_print_u [OF assms(1)] strtoull_print_u [OF assms(2)] assms(3) n e Let_def with_drive_def
        add_params0_def)
qed

text \<open>A size that is given as the rest of the disk is no number for \<open>strtoull\<close>, and the conversion is aborted.\<close>

lemma size_of_rest_aborts:
  assumes "get_named_osii_logical_start_block (Some nm) m = Some (int lba)" "nm \<in> set update_partitions" "B < 2 ^ 64"
    "\<not> list_ex (prefix_of ty) [''-s'', ''-b'', ''reserved'', ''boot'', ''recovery'', ''fastboot'']"
  shows "convert_words m (add_line (print_u B) (''$calc('' @ x) ty nm drv) = Some (Inl ())"
proof -
  let ?ws = "add_line (print_u B) (''$calc('' @ x) ty nm drv"
  have s: "scan_words m ?ws = Some (Inr (Some (int lba), True))"
    using assms(1,2,4) number_in_line [of B] by (auto simp: add_line_def update_partitions_def prefix_of_def)
  have c: "snd (strtoull (''$calc('' @ x)) \<noteq> []" by (simp add: strtoull_def scan_integer_def is_space_def hex_val_def Let_def)
  have "rewrite_words (int lba) ?ws = Some None"
    using c number_in_line [of lba] strtoull_print_u [OF assms(3)] by (simp add: add_line_def set_next_def print_d_int prefix_of_def)
  then show ?thesis using s by (simp add: convert_words_def) (simp add: add_line_def prefix_of_def)
qed

text \<open>Options that are joined with their numbers are not recognized: the line stays as it is, and adds the partition where the script
  has it.\<close>

definition plain_word :: "string \<Rightarrow> bool" where
  "plain_word w \<longleftrightarrow> \<not> list_ex (prefix_of w) [''-s'', ''-b'', ''reserved'', ''boot'', ''recovery'', ''fastboot'']"

lemma plain_word_prefix:
  assumes "plain_word u" "u \<noteq> []"
  shows "plain_word (u @ t)"
proof -
  have "prefix_of u x" if "prefix_of (u @ t) x" for x
    using that take_take [of "length u" "length (u @ t)" x] by (simp add: prefix_of_def)
  then show ?thesis using assms(1) by (auto simp: plain_word_def)
qed

lemma scan_words_skip: "list_all plain_word us \<Longrightarrow> scan_words m (us @ ws) = scan_words m ws"
  by (induction us) (auto simp: plain_word_def update_partitions_def)

lemma rewrite_words_keep: "list_all (\<lambda>w. \<not> prefix_of w ''-s'' \<and> \<not> prefix_of w ''-b'') ws \<Longrightarrow> rewrite_words lba ws = Some (Some ws)"
  by (induction ws) auto

lemma joined_options_kept:
  assumes "get_named_osii_logical_start_block (Some nm) m = Some (int lba)" "nm \<in> set update_partitions"
    and "plain_word (''-b'' @ b)" "plain_word (''-s'' @ s)" "plain_word ty" "plain_word drv"
  defines "ws \<equiv> [''add'', ''-b'' @ b, ''-s'' @ s, ''-t'', ty, ''-l'', nm, drv]"
  shows "convert_words m ws = Some (Inr (Some ws))"
proof -
  have p: "list_all plain_word [''add'', ''-b'' @ b, ''-s'' @ s, ''-t'', ty, ''-l'']"
    using assms(3-5) by (simp del: append.simps) (simp add: plain_word_def prefix_of_def)
  have n: "list_ex (prefix_of nm) update_partitions" "\<not> prefix_of nm ''reserved''" "\<not> prefix_of nm ''-s''" "\<not> prefix_of nm ''-b''"
    using assms(2) by (auto simp: update_partitions_def prefix_of_def)
  have "scan_words m ws = Some (Inr (Some (int lba), True))"
    using scan_words_skip [OF p, of m "[nm, drv]"] assms(1) n by (simp add: ws_def)
  moreover have "rewrite_words (int lba) ws = Some (Some ws)"
    using p n assms(6) by (intro rewrite_words_keep) (simp add: ws_def plain_word_def)
  ultimately show ?thesis by (simp add: convert_words_def) (simp add: ws_def prefix_of_def)
qed

lemma joined_number_plain: "d \<in> set ''0123456789'' \<Longrightarrow> plain_word (''-b'' @ d # ds) \<and> plain_word (''-s'' @ d # ds)"
  using plain_word_prefix [of "''-b'' @ [d]" ds] plain_word_prefix [of "''-s'' @ [d]" ds] by (simp add: plain_word_def prefix_of_def)

text \<open>C24: The conversion from OSIP to GPT keeps the images where they are, for lines of the shape \<open>add -b N -s M -t TYPE -l NAME DRIVE\<close> with
  separate words and decimal numbers below \<open>2 ^ 64\<close>. When \<open>NAME\<close> is \<open>boot\<close>, \<open>recovery\<close> or \<open>fastboot\<close> and has an entry in the OSIP header,
  \<open>TYPE\<close> is a known type or a GUID and not the beginning of a name that is searched for, and \<open>DRIVE\<close> does not look like an option, such
  a line is changed so that the command which it runs adds a partition that begins at the sector of the image in the OSIP header, with
  the size of an image slot, whatever the numbers \<open>N\<close> and \<open>M\<close> were; type, label and drive stay as they are. Other shapes are not
  covered: a size \<open>$calc(...)\<close>, which \<open>cgpt\<close> would accept, aborts the conversion, and options that are joined with their numbers
  (\<open>-bN\<close>, \<open>-sM\<close>) are not rewritten, so that the partition is added where the script has it.\<close>

theorem converted_line_adds_at_osip:
  assumes osip: "get_named_osii_logical_start_block (Some nm) m = Some (int lba)" "lba < 2 ^ 32" "nm \<in> set update_partitions"
    and line: "B < 2 ^ 64" "S < 2 ^ 64" "guid_arg ty = Some g" "drv \<noteq> []" "hd drv \<noteq> CHR ''-''"
      "\<not> list_ex (prefix_of ty) [''-s'', ''-b'', ''reserved'', ''boot'', ''recovery'', ''fastboot'']"
  shows "\<exists>ws. convert_words m (add_line (print_u B) (print_u S) ty nm drv) = Some (Inr (Some ws)) \<and>
    cmd_add uuid ws files =
      do { (st, _, files') \<leftarrow> cgpt_add uuid (Some (add_params0\<lparr>ad_drive_name := drv, set_begin := True, ad_begin := of_nat lba,
             set_size := True, ad_size := 32000, set_type := True, type_guid := g, label := Some (map of_char nm)\<rparr>)) files;
           Some (status_code st, files') }"
proof (intro exI conjI)
  have "\<not> prefix_of drv ''-s''" "\<not> prefix_of drv ''-b''" using line(4,5) by (cases drv; auto simp: prefix_of_def)+
  then have "rewrite_words (int lba) (add_line (print_u B) (print_u S) ty nm drv) =
      Some (Some (add_line (print_u lba) (print_u 32000) ty nm drv))"
    using line(6) by (intro rewrite_words_add_line line osip) simp_all
  moreover have "\<exists>ws. add_line (print_u B) (print_u S) ty nm drv = ''add'' # ws" "prefix_of ''add'' ''add''"
    by (simp_all add: add_line_def prefix_of_def)
  ultimately show "convert_words m (add_line (print_u B) (print_u S) ty nm drv) =
      Some (Inr (Some (add_line (print_u lba) (print_u 32000) ty nm drv)))"
    using scan_words_add_line [OF osip(1,3) line(6), of B S drv] by (auto simp: convert_words_def)
  show "cmd_add uuid (add_line (print_u lba) (print_u 32000) ty nm drv) files =
      do { (st, _, files') \<leftarrow> cgpt_add uuid (Some (add_params0\<lparr>ad_drive_name := drv, set_begin := True, ad_begin := of_nat lba,
             set_size := True, ad_size := 32000, set_type := True, type_guid := g, label := Some (map of_char nm)\<rparr>)) files;
           Some (status_code st, files') }"
    using osip(2) cmd_add_line [of lba 32000 ty g drv uuid nm files] line(3-5) by simp
qed

subsection \<open>Samples\<close>

text \<open>A script that puts \<open>boot\<close> at the sector \<open>2 ^ 23\<close>: an image for it is written to the beginning of the device.\<close>

lemma char_of_of_char_byte: "char_of (unat (of_char c :: byte)) = c"
proof -
  have "unat (of_char c :: byte) = of_char c"
    using unat_of_nat [where 'a = 8, of "of_char c"] of_char_mod_256 [of c, where 'a = nat] by (simp add: of_nat_of_char)
  then show ?thesis by simp
qed

definition sample_table :: blkdev where
  "sample_table = empty_file\<lparr>bytes := map of_char (''p=g'' @ newline @ ''add -b 8388608 boot'')\<rparr>"

lemma sample_table_text: "map (\<lambda>b. char_of (unat b)) (bytes sample_table) = ''p=g'' @ newline @ ''add -b 8388608 boot''"
proof -
  have "bytes sample_table = map of_char (''p=g'' @ newline @ ''add -b 8388608 boot'')" by (simp add: sample_table_def)
  then show ?thesis by (simp only: map_map comp_def char_of_of_char_byte map_ident)
qed

lemma fgets_rest: "CHR 0x0A \<notin> set l \<Longrightarrow> length l < n \<Longrightarrow> fgets n l = (l, [])"
proof (induction l arbitrary: n)
  case Nil
  then show ?case by (cases n) simp_all
next
  case (Cons c l)
  then show ?case by (cases n) auto
qed

theorem image_at_partition_offset_witness:
  "FlashImageAtPartition ''/dev/m'' (\<lambda>_. True) [Some ''boot'', Some ''img'', Some ''tbl'']
     [''tbl'' \<mapsto> sample_table, ''img'' \<mapsto> empty_file\<lparr>bytes := [7, 8]\<rparr>, ''/dev/m'' \<mapsto> volume_device [1, 2, 3]] =
   Some (StringValue ''t'', [''tbl'' \<mapsto> sample_table, ''img'' \<mapsto> empty_file\<lparr>bytes := [7, 8]\<rparr>, ''/dev/m'' \<mapsto> volume_device [7, 8, 3]])"
proof -
  let ?files = "[''tbl'' \<mapsto> sample_table, ''img'' \<mapsto> empty_file\<lparr>bytes := [7, 8]\<rparr>, ''/dev/m'' \<mapsto> volume_device [1, 2, 3]]"
  have f: "fgets 255 (map (\<lambda>b. char_of (unat b)) (bytes sample_table)) = (''p=g'' @ newline, ''add -b 8388608 boot'')"
    unfolding sample_table_text by (rule fgets_line) simp_all
  have c: "chop (''p=g'' @ newline) = Some ''p=g''" "scan_partition_type ''p=g'' \<noteq> None"
    by (simp_all add: chop_def newline_def scan_partition_type_def is_space_def)
  have l: "fgets_lines 255 ''add -b 8388608 boot'' = [] @ ''add -b 8388608 boot'' # []"
    unfolding fgets_lines.simps [of 255 "''add -b 8388608 boot''"] fgets_lines.simps [of 255 "[]"]
    using fgets_rest [of "''add -b 8388608 boot''" 255] by (simp add: fgets_lines.simps [of 255 "[]"])
  have "print_u 8388608 = ''8388608''" by (simp add: print_u.simps)
  then have a: "adds_at ''boot'' 8388608 ''add -b 8388608 boot''"
    unfolding adds_at_def
    by (intro exI [of _ "''add -b 8388608 boot''"] exI [of _ "''add''"] exI [of _ "[]"] exI [of _ "[''boot'']"] conjI)
      (simp_all add: chomp_def str_to_array_def tokens_def prefix_of_def)
  from image_at_partition_offset [where files = ?files and mmc = "''/dev/m''" and mappable = "\<lambda>_. True" and filename = "''img''"
      and g = "empty_file\<lparr>bytes := [7, 8]\<rparr>" and d = "volume_device [1, 2, 3]" and parttable = "''tbl''", OF _ f c l _ a]
  show ?thesis by (simp add: ok_file_def empty_file_def overlay_def volume_device_def healthy_def)
qed

theorem converted_line_adds_at_osip_witness:
  "\<exists>ws. convert_words (Some (sample_device two_images)) (add_line (print_u 40) (print_u 16000) ''data'' ''boot'' ''img'') = Some (Inr (Some ws)) \<and>
    cmd_add None ws Map.empty =
      do { (st, _, files') \<leftarrow> cgpt_add None (Some (add_params0\<lparr>ad_drive_name := ''img'', set_begin := True, ad_begin := of_nat 4050,
             set_size := True, ad_size := 32000, set_type := True, type_guid := guid_linux_data, label := Some (map of_char ''boot'')\<rparr>)) Map.empty;
           Some (status_code st, files') }"
proof (rule converted_line_adds_at_osip)
  show "get_named_osii_logical_start_block (Some ''boot'') (Some (sample_device two_images)) = Some (int 4050)"
    unfolding get_named_osii_logical_start_block_def two_images_boot read_OSIP_emmc [OF two_images_emmc]
    by (simp add: check_index_outofbound_def two_images_def header_of_def image_at_def)
  show "guid_arg ''data'' = Some guid_linux_data"
    by (simp add: guid_arg_def SupportedType_def supported_types_def)
qed (simp_all add: update_partitions_def prefix_of_def)

end
