(* ===== verification/Flashtool.thy ===== *)
theory Flashtool
  imports Recovery_Patch Flash_Firmware
begin

text \<open>
  The program \<open>flashtool\<close>: its options and its commands. The commands on the entries of the OSIP header are in
  \<open>Osip_Flash\<close>. A run gives the exit status, the files, the packets sent to the firmware driver and what was shown;
  \<open>None\<close> is an access that C leaves undefined.
\<close>

subsection \<open>The commands\<close>

datatype flashtool_cmd = CMD_NONE | CMD_DUMP_FW_VER | CMD_WRITE_OSIP | CMD_READ_OSIP | CMD_DUMP | CMD_WRITE_FW | CMD_WRITE_3G_FW

datatype shown =
    Shown_OSIP OSIP_header
  | Shown_fw firmware_versions
  | Shown_build string

record tool_state =
  tool_files :: fs
  packets :: "buffer list"
  shown :: "shown list"

type_synonym tool_result = "(tool_state + tool_state) option"

text \<open>\<open>Inl\<close> is \<open>exit(1)\<close>. The error texts are not part of what is shown.\<close>

definition cmd_show_data :: "string \<Rightarrow> (string \<Rightarrow> string) \<Rightarrow> tool_state \<Rightarrow> tool_result" where
  "cmd_show_data mmc get_prop st =
    do { (r, fw) \<leftarrow> get_current_fw_rev (tool_files st);
         Some (Inr (st\<lparr>shown := shown st @
           (case read_OSIP (tool_files st mmc) of None \<Rightarrow> [] | Some h \<Rightarrow> [Shown_OSIP h]) @
           (case fw of None \<Rightarrow> [] | Some v \<Rightarrow> if r \<noteq> 0 then [] else [Shown_fw v]) @
           [Shown_build (get_prop ''ro.build.display.id'')]\<rparr>)) }"

text \<open>The result of \<open>get_image_fw_rev\<close> is not looked at.\<close>

definition cmd_dump_fw :: "string option \<Rightarrow> tool_state \<Rightarrow> tool_result" where
  "cmd_dump_fw filename st =
    (case filename of None \<Rightarrow> Some (Inl st)
     | Some f \<Rightarrow>
       (case file_read (tool_files st) f of None \<Rightarrow> Some (Inl st)
        | Some data \<Rightarrow> Some (Inr (st\<lparr>shown := shown st @ [Shown_fw (snd (get_image_fw_rev data))]\<rparr>))))"

definition cmd_write_fw :: "build_config \<Rightarrow> platform \<Rightarrow> string option \<Rightarrow> tool_state \<Rightarrow> tool_result" where
  "cmd_write_fw cfg pl filename st =
    (case filename of None \<Rightarrow> Some (Inl st)
     | Some f \<Rightarrow>
       (case file_read (tool_files st) f of None \<Rightarrow> Some (Inl st)
        | Some data \<Rightarrow>
          do { (r, packet) \<leftarrow> update_ifwi_image cfg pl data 0 (tool_files st);
               let st = st\<lparr>packets := packets st @ (case packet of None \<Rightarrow> [] | Some p \<Rightarrow> [p])\<rparr>;
               Some (if r \<noteq> 0 then Inl st else Inr st) }))"

subsection \<open>The options\<close>

record tool_opts =
  opt_entry :: "string option"
  opt_filename :: "string option"
  opt_cmd :: flashtool_cmd

text \<open>The loop over the options: \<open>Inl\<close> is the argument of \<open>exit\<close>. The option \<open>-d\<close> is in the option string only.\<close>

fun tool_options :: "opt_event list \<Rightarrow> tool_opts \<Rightarrow> int + tool_opts" where
  "tool_options [] p = Inr p"
| "tool_options (Opt c a # evs) p =
    (if c = CHR ''i'' then tool_options evs (p\<lparr>opt_entry := Some a\<rparr>)
     else if c = CHR ''w'' then tool_options evs (p\<lparr>opt_filename := Some a, opt_cmd := CMD_WRITE_OSIP\<rparr>)
     else if c = CHR ''r'' then tool_options evs (p\<lparr>opt_filename := Some a, opt_cmd := CMD_READ_OSIP\<rparr>)
     else if c = CHR ''v'' then tool_options evs (p\<lparr>opt_filename := Some a, opt_cmd := CMD_DUMP_FW_VER\<rparr>)
     else if c = CHR ''f'' then tool_options evs (p\<lparr>opt_filename := Some a, opt_cmd := CMD_WRITE_FW\<rparr>)
     else if c = CHR ''g'' then tool_options evs (p\<lparr>opt_filename := Some a, opt_cmd := CMD_WRITE_3G_FW\<rparr>)
     else if c = CHR ''h'' then Inl 0
     else Inl 1)"
| "tool_options (Unknown c # evs) p = Inl 1"
| "tool_options (Missing c # evs) p = Inl 1"

definition flashtool_main :: "build_config \<Rightarrow> platform \<Rightarrow> flash_env \<Rightarrow> string list \<Rightarrow> tool_state \<Rightarrow> (int \<times> tool_state) option" where
  "flashtool_main cfg pl env args st =
    (case tool_options (fst (getopt ''i:w:r:dv:hf:g:'' [] args)) \<lparr>opt_entry = None, opt_filename = None, opt_cmd = CMD_NONE\<rparr> of
       Inl code \<Rightarrow> Some (code, st)
     | Inr p \<Rightarrow>
       let mmc = mmc_path env; files = tool_files st; entry = opt_entry p; filename = opt_filename p in
       map_option (case_sum (Pair 1) (Pair 0))
         (case opt_cmd p of
            CMD_NONE \<Rightarrow> cmd_show_data mmc (property pl) st
          | CMD_DUMP_FW_VER \<Rightarrow> cmd_dump_fw filename st
          | CMD_READ_OSIP \<Rightarrow>
              map_option (map_sum (\<lambda>fs. st\<lparr>tool_files := fs\<rparr>) (\<lambda>fs. st\<lparr>tool_files := fs\<rparr>))
                (cmd_read_osip (can_create env) (osip_heap env) entry filename files (files mmc))
          | CMD_WRITE_OSIP \<Rightarrow>
              map_option (map_sum (\<lambda>m. st\<lparr>tool_files := files(mmc := m)\<rparr>) (\<lambda>m. st\<lparr>tool_files := files(mmc := m)\<rparr>))
                (cmd_write_osip entry filename files (files mmc))
          | CMD_WRITE_FW \<Rightarrow> cmd_write_fw cfg pl filename st
          | CMD_DUMP \<Rightarrow> Some (Inr st)
          | CMD_WRITE_3G_FW \<Rightarrow> Some (Inr st)))"

text \<open>The option for 3G firmware reports success and does nothing, whatever the file is.\<close>

lemma flashtool_3g_ignored: "flashtool_main cfg pl env [''-g'', f] st = Some (0, st)"
  by (simp add: flashtool_main_def)

subsection \<open>Saving and restoring an image\<close>

lemma index_found_write:
  assumes "get_named_osii_index (Some e) READ_OSIP_HEADER m = Some (int i)"
  shows "get_named_osii_index (Some e) WRITE_OSIP_HEADER m = Some (int i)"
  using assms
  by (auto simp: get_named_osii_index_def get_attribute_osii_index_def Let_def bind_eq_Some_conv
      split: if_splits option.splits sum.splits prod.splits)

lemma file_entry_fields [simp]:
  "attr_kind (file_entry e) = attr_kind e" "size_of_os_image (file_entry e) = size_of_os_image e"
  by (simp_all add: file_entry_def attr_kind_def Let_def)

lemma choose_slot_free:
  assumes "live h \<le> 8" "\<forall>j < live h. roomy (desc h ! j)" "os_kind (attr_kind e)"
  shows "\<exists>lba \<in> set os_lba_slots. choose_slot e False h = Some (Some (lba, OS_MAX_LBA)) \<and> lba \<noteq> 0"
  using free_os_slot [OF assms(1,2)] assms(3) by (auto simp: choose_slot_def Let_def os_lba_slots_eq)

lemma roomy_size: "roomy e \<Longrightarrow> size_of_os_image e \<le> OS_MAX_LBA"
  by (auto simp: roomy_def word_le_nat_alt FW_MAX_LBA_def OS_MAX_LBA_def)

lemma flashtool_entry:
  "flashtool_main cfg pl env [''-i'', entry, ''-r'', f] st =
      map_option (case_sum (\<lambda>fs. (1, st\<lparr>tool_files := fs\<rparr>)) (\<lambda>fs. (0, st\<lparr>tool_files := fs\<rparr>)))
        (cmd_read_osip (can_create env) (osip_heap env) (Some entry) (Some f) (tool_files st) (tool_files st (mmc_path env)))"
  "flashtool_main cfg pl env [''-i'', entry, ''-w'', f] st =
      map_option (case_sum (\<lambda>m. (1, st\<lparr>tool_files := (tool_files st)(mmc_path env := m)\<rparr>))
          (\<lambda>m. (0, st\<lparr>tool_files := (tool_files st)(mmc_path env := m)\<rparr>)))
        (cmd_write_osip (Some entry) (Some f) (tool_files st) (tool_files st (mmc_path env)))"
  by (auto simp: flashtool_main_def Let_def map_option_case split: option.splits sum.splits)

text \<open>The device holds an image of the operating system under the name, and there is room for another one.\<close>

definition holds_image :: "string \<Rightarrow> nat \<Rightarrow> blkdev \<Rightarrow> OSIP_header \<Rightarrow> bool" where
  "holds_image entry i d h \<longleftrightarrow> flashed d h \<and> (\<forall>j < live h. roomy (desc h ! j)) \<and> i < live h \<and> os_kind (attr_kind (desc h ! i)) \<and>
     get_named_osii_index (Some entry) READ_OSIP_HEADER (Some d) = Some (int i)"

text \<open>A file that holds an image of the operating system, as \<open>read_osimage_data\<close> builds it.\<close>

definition stitched :: "buffer \<Rightarrow> OSII \<Rightarrow> bool" where
  "stitched data e \<longleftrightarrow> crack_stitched_image data = Some (Some e) \<and> length data = 512 + 512 * unat (size_of_os_image e) \<and>
     os_kind (attr_kind e) \<and> size_of_os_image e \<le> OS_MAX_LBA"

lemma flashtool_saves:
  assumes "tool_files st (mmc_path env) = Some d" "holds_image entry i d h"
    and target: "f \<noteq> mmc_path env" "tool_files st f = None" "can_create env f" and heap: "\<forall>n. \<exists>b. osip_heap env n = Some b \<and> length b = n"
  shows "\<exists>st1 data e. flashtool_main cfg pl env [''-i'', entry, ''-r'', f] st = Some (0, st1) \<and> tool_files st1 (mmc_path env) = Some d \<and>
    file_read (tool_files st1) f = Some data \<and> stitched data e \<and> drop 512 data = image_of (desc h ! i) d"
proof -
  have h: "flashed d h" "\<forall>j < live h. roomy (desc h ! j)" "i < live h" "os_kind (attr_kind (desc h ! i))"
      "get_named_osii_index (Some entry) READ_OSIP_HEADER (Some d) = Some (int i)"
    using assms(2) by (auto simp: holds_image_def)
  have "i < 8" using h(1,3) by (auto simp: flashed_def laid_out_def)
  obtain blob where b: "read_osimage_data (osip_heap env) (int i) (Some d) = Some (Some blob)"
      "length blob = 512 + 512 * unat (size_of_os_image (desc h ! i))"
      "crack_stitched_image blob = Some (Some (file_entry (desc h ! i)))" "drop 512 blob = image_of (desc h ! i) d"
    using read_osimage_data_is_stitched [OF h(1,3) heap] by blast
  then have "stitched blob (file_entry (desc h ! i))" using h(2-4) roomy_size by (simp add: stitched_def)
  moreover obtain files' where f': "file_write (can_create env) f blob (tool_files st) = (0, files')" "file_read files' f = Some blob"
      "\<forall>other. other \<noteq> f \<longrightarrow> files' other = tool_files st other"
    using file_write_read [of None "can_create env" f "tool_files st" blob] target by auto
  moreover have "flashtool_main cfg pl env [''-i'', entry, ''-r'', f] st = Some (0, st\<lparr>tool_files := files'\<rparr>)"
    using assms(1) h(5) b(1) f'(1) \<open>i < 8\<close> by (simp add: flashtool_entry cmd_read_osip_def check_index_outofbound_def)
  ultimately show ?thesis using b(4) assms(1) target(1) by (intro exI [of _ "st\<lparr>tool_files := files'\<rparr>"]) auto
qed

lemma flashtool_restores:
  assumes "tool_files st (mmc_path env) = Some d" "holds_image entry i d h" "file_read (tool_files st) f = Some data" "stitched data e"
  shows "\<exists>st' d' h'. flashtool_main cfg pl env [''-i'', entry, ''-w'', f] st = Some (0, st') \<and> tool_files st' = (tool_files st)(mmc_path env \<mapsto> d') \<and>
    flashed d' h' \<and> image_of (desc h' ! i) d' = drop 512 data \<and>
    (\<forall>j < live h. j \<noteq> i \<longrightarrow> desc h' ! j = desc h ! j \<and> image_of (desc h ! j) d' = image_of (desc h ! j) d)"
proof -
  have h: "flashed d h" "\<forall>j < live h. roomy (desc h ! j)" "i < live h" "os_kind (attr_kind (desc h ! i))"
      "get_named_osii_index (Some entry) READ_OSIP_HEADER (Some d) = Some (int i)"
    using assms(2) by (auto simp: holds_image_def)
  have i: "live h \<le> 8" "i \<le> live h" "i < 8" using h(1,3) by (auto simp: flashed_def laid_out_def)
  have e: "crack_stitched_image data = Some (Some e)" "length data = 512 + 512 * unat (size_of_os_image e)"
      "os_kind (attr_kind e)" "size_of_os_image e \<le> OS_MAX_LBA"
    using assms(4) by (auto simp: stitched_def)
  obtain lba where lba: "choose_slot e False h = Some (Some (lba, OS_MAX_LBA))" "lba \<noteq> 0"
    using choose_slot_free [OF i(1) h(2) e(3)] by blast
  let ?e = "keep_invalid i h (e\<lparr>logical_start_block := lba\<rparr>)"
  obtain h' where w: "placeable data i h ?e" "replace_desc i ?e h = Some h'"
      "write_stitch_image data (int i) (Some d) = Some (0, put_at enc_osii 32 ?e data,
        Some (header_written (partly_written d ?e data (length data)) h'))"
    using stitch_written [OF h(1) i(2,3) e(1,2) lba e(4)] h(4) by blast
  let ?d = "header_written (partly_written d ?e data (length data)) h'"
  have "flashtool_main cfg pl env [''-i'', entry, ''-w'', f] st = Some (0, st\<lparr>tool_files := (tool_files st)(mmc_path env \<mapsto> ?d)\<rparr>)"
    using assms(1,3) index_found_write [OF h(5)] w(3) i(3) by (simp add: flashtool_entry cmd_write_osip_def check_index_outofbound_def)
  moreover note inst = installed [OF h(1) i(2,3) w(1,2)]
  ultimately show ?thesis by (intro exI [of _ "with_checksum h'"] exI conjI) auto
qed

text \<open>C12: An image that \<open>flashtool\<close> has saved can be restored, also onto a device that has changed since. On a device laid out by this
  code on which the name is an entry for an OS image and no image reaches into the last two blocks of its slot, when there is memory and
  the file can be created, \<open>flashtool -i\<close> name \<open>-r\<close> file exits with 0 and leaves the device as it is. From then on, on any device laid
  out by this code on which the name is an entry for an OS image and no image reaches into the last two blocks of its slot,
  \<open>flashtool -i\<close> name \<open>-w\<close> file exits with 0: the entry then has the saved image, the header is valid, every other entry keeps its
  image, and no other file changes.\<close>

theorem flashtool_save_restore:
  assumes "tool_files st (mmc_path env) = Some d" "holds_image entry i d h" "f \<noteq> mmc_path env" "tool_files st f = None" "can_create env f"
    and "\<forall>n. \<exists>b. osip_heap env n = Some b \<and> length b = n"
  shows "\<exists>st1. flashtool_main cfg pl env [''-i'', entry, ''-r'', f] st = Some (0, st1) \<and> tool_files st1 (mmc_path env) = Some d \<and>
    (\<forall>st2 d2 k h2. tool_files st2 (mmc_path env) = Some d2 \<and> tool_files st2 f = tool_files st1 f \<and> holds_image entry k d2 h2 \<longrightarrow>
      (\<exists>st3 d3 h3. flashtool_main cfg pl env [''-i'', entry, ''-w'', f] st2 = Some (0, st3) \<and>
        tool_files st3 = (tool_files st2)(mmc_path env \<mapsto> d3) \<and> flashed d3 h3 \<and>
        image_of (desc h3 ! k) d3 = image_of (desc h ! i) d \<and>
        (\<forall>j < live h2. j \<noteq> k \<longrightarrow> desc h3 ! j = desc h2 ! j \<and> image_of (desc h2 ! j) d3 = image_of (desc h2 ! j) d2)))"
proof -
  obtain st1 data e where s: "flashtool_main cfg pl env [''-i'', entry, ''-r'', f] st = Some (0, st1)"
      "tool_files st1 (mmc_path env) = Some d" "file_read (tool_files st1) f = Some data" "stitched data e"
      "drop 512 data = image_of (desc h ! i) d"
    using flashtool_saves [OF assms] by blast
  have "\<exists>st3 d3 h3. flashtool_main cfg pl env [''-i'', entry, ''-w'', f] st2 = Some (0, st3) \<and>
        tool_files st3 = (tool_files st2)(mmc_path env \<mapsto> d3) \<and> flashed d3 h3 \<and>
        image_of (desc h3 ! k) d3 = image_of (desc h ! i) d \<and>
        (\<forall>j < live h2. j \<noteq> k \<longrightarrow> desc h3 ! j = desc h2 ! j \<and> image_of (desc h2 ! j) d3 = image_of (desc h2 ! j) d2)"
    if a: "tool_files st2 (mmc_path env) = Some d2" "tool_files st2 f = tool_files st1 f" "holds_image entry k d2 h2" for st2 d2 k h2
  proof -
    have "file_read (tool_files st2) f = Some data" using s(3) a(2) by (simp add: file_read_def)
    from flashtool_restores [OF a(1,3) this s(4), of cfg pl] show ?thesis unfolding s(5) .
  qed
  then show ?thesis using s(1,2) by blast
qed

definition osip_env :: flash_env where
  "osip_env = \<lparr>mmc_path = ''/dev/m'', layout = tiny_layout, osip_heap = (\<lambda>n. Some (replicate n 0)), osip_stack = two_images,
     can_create = (\<lambda>_. True)\<rparr>"

lemma two_images_hold_boot: "holds_image ''boot'' 0 (sample_device two_images) (with_checksum two_images)"
proof -
  have "os_kind (attr_kind (desc (with_checksum two_images) ! 0))"
    by (simp add: two_images_def header_of_def image_at_def attr_kind_def os_kind_def)
  moreover have "roomy (desc (with_checksum two_images) ! j)" if "j < 2" for j
    using that by (auto simp: two_images_def sample_defs roomy_def less_2_cases_iff fw_lba_slots_eq os_lba_slots_eq FW_MAX_LBA_def OS_MAX_LBA_def)
  ultimately show ?thesis
    unfolding holds_image_def live_two_images using two_images_flashed two_images_boot by auto
qed

theorem flashtool_save_restore_witness:
  "let st = \<lparr>tool_files = [''/dev/m'' \<mapsto> sample_device two_images], packets = [], shown = []\<rparr> in
    \<exists>st1 st3 d3 h3. flashtool_main sample_config sample_platform osip_env [''-i'', ''boot'', ''-r'', ''f''] st = Some (0, st1) \<and>
    flashtool_main sample_config sample_platform osip_env [''-i'', ''boot'', ''-w'', ''f''] st1 = Some (0, st3) \<and>
    tool_files st3 ''/dev/m'' = Some d3 \<and> flashed d3 h3 \<and>
    image_of (desc h3 ! 0) d3 = image_of (desc (with_checksum two_images) ! 0) (sample_device two_images)"
proof -
  let ?st = "\<lparr>tool_files = [''/dev/m'' \<mapsto> sample_device two_images], packets = [], shown = []\<rparr>"
  have m: "mmc_path osip_env = ''/dev/m''" by (simp add: osip_env_def)
  have e: "can_create osip_env ''f''" "\<forall>n. \<exists>b. osip_heap osip_env n = Some b \<and> length b = n" by (simp_all add: osip_env_def)
  have f: "tool_files ?st (mmc_path osip_env) = Some (sample_device two_images)" "''f'' \<noteq> mmc_path osip_env" "tool_files ?st ''f'' = None"
    by (simp_all add: m)
  note r = flashtool_save_restore [OF f(1) two_images_hold_boot f(2,3) e, of sample_config sample_platform, unfolded m]
  show ?thesis
    unfolding Let_def using r
  proof (elim exE conjE, goal_cases)
    case (1 st1)
    from 1(3) [rule_format, OF conjI [OF 1(2) conjI [OF refl two_images_hold_boot]]] 1(1) show ?case
      by (elim exE conjE) (intro exI conjI, assumption+, simp, assumption+)
  qed
qed

end
