(* ===== verification/Image_Store.thy ===== *)
theory Image_Store
  imports Flashtool
begin

text \<open>
  What the three ways of storing an image promise to their callers, as one interface: an image can be put under a key, is then what
  is read there, and the other keys keep theirs. The interface is interpreted for whole files (\<open>util.c\<close>), for the partitions of
  a device with a GPT (\<open>flash.c\<close>, \<open>flash_gpt/bootimage.c\<close>) and for the entries of an OSIP header (\<open>update_osip.c\<close>). Its lemmas
  are about sequences of operations, as an update performs them.
\<close>

subsection \<open>The interface\<close>

text \<open>Several images, one after the other; \<open>None\<close> if one of them is refused.\<close>

fun put_all :: "('k \<Rightarrow> 'd \<Rightarrow> 's \<Rightarrow> 's option) \<Rightarrow> ('k \<times> 'd) list \<Rightarrow> 's \<Rightarrow> 's option" where
  "put_all put [] s = Some s"
| "put_all put ((k, d) # ps) s = do { s' \<leftarrow> put k d s; put_all put ps s' }"

text \<open>\<open>good\<close> is the invariant of the store, \<open>holds k\<close> that it has a place for the key, \<open>fits k d\<close> that the image \<open>d\<close> can be put
  there. What is read is the part \<open>payload\<close> of what was put.\<close>

locale image_store =
  fixes good :: "'s \<Rightarrow> bool" and holds :: "'k \<Rightarrow> 's \<Rightarrow> bool" and fits :: "'k \<Rightarrow> 'd \<Rightarrow> 's \<Rightarrow> bool"
    and put :: "'k \<Rightarrow> 'd \<Rightarrow> 's \<Rightarrow> 's option" and get :: "'k \<Rightarrow> 's \<Rightarrow> 'v option" and payload :: "'d \<Rightarrow> 'v"
  assumes fits_holds: "fits k d s \<Longrightarrow> holds k s"
    and put_total: "good s \<Longrightarrow> fits k d s \<Longrightarrow> \<exists>s'. put k d s = Some s'"
    and put_good: "good s \<Longrightarrow> fits k d s \<Longrightarrow> put k d s = Some s' \<Longrightarrow> good s'"
    and get_put: "good s \<Longrightarrow> fits k d s \<Longrightarrow> put k d s = Some s' \<Longrightarrow> get k s' = Some (payload d)"
    and get_put_other: "good s \<Longrightarrow> fits k d s \<Longrightarrow> put k d s = Some s' \<Longrightarrow> holds k' s \<Longrightarrow> k' \<noteq> k \<Longrightarrow> get k' s' = get k' s"
    and holds_put: "good s \<Longrightarrow> fits k d s \<Longrightarrow> put k d s = Some s' \<Longrightarrow> holds k' s \<Longrightarrow> holds k' s'"
    and fits_put: "good s \<Longrightarrow> fits k d s \<Longrightarrow> put k d s = Some s' \<Longrightarrow> fits k' d' s \<Longrightarrow> fits k' d' s'"
begin

lemma put_all_total:
  assumes "good s" "\<forall>(k, d) \<in> set ps. fits k d s"
  shows "\<exists>s'. put_all put ps s = Some s' \<and> good s'"
  using assms
proof (induction ps arbitrary: s)
  case (Cons p ps)
  obtain k d where p: "p = (k, d)" by (cases p)
  with Cons.prems have f: "fits k d s" by simp
  obtain s' where s': "put k d s = Some s'" using put_total [OF Cons.prems(1) f] by blast
  have "\<forall>(k', d') \<in> set ps. fits k' d' s'" using fits_put [OF Cons.prems(1) f s'] Cons.prems(2) by auto
  with Cons.IH [OF put_good [OF Cons.prems(1) f s']] s' p show ?case by simp
qed simp

lemma put_all_other:
  assumes "good s" "\<forall>(k, d) \<in> set ps. fits k d s" "put_all put ps s = Some s'" "holds k' s" "k' \<notin> fst ` set ps"
  shows "get k' s' = get k' s"
  using assms
proof (induction ps arbitrary: s)
  case (Cons p ps)
  obtain k d where p: "p = (k, d)" by (cases p)
  with Cons.prems have f: "fits k d s" and ne: "k' \<noteq> k" "k' \<notin> fst ` set ps" by auto
  obtain s1 where s1: "put k d s = Some s1" "put_all put ps s1 = Some s'"
    using Cons.prems(3) p by (auto simp: bind_eq_Some_conv)
  note keep = fits_put [OF Cons.prems(1) f s1(1)] holds_put [OF Cons.prems(1) f s1(1) Cons.prems(4)]
  have "\<forall>(k', d') \<in> set ps. fits k' d' s1" using keep(1) Cons.prems(2) by auto
  from Cons.IH [OF put_good [OF Cons.prems(1) f s1(1)] this s1(2) keep(2) ne(2)]
  show ?case using get_put_other [OF Cons.prems(1) f s1(1) Cons.prems(4) ne(1)] by simp
qed simp

text \<open>Images under different keys: all are there in the end, in whatever order they were put.\<close>

lemma put_all_get:
  assumes "good s" "\<forall>(k, d) \<in> set ps. fits k d s" "distinct (map fst ps)" "put_all put ps s = Some s'" "(k, d) \<in> set ps"
  shows "get k s' = Some (payload d)"
  using assms
proof (induction ps arbitrary: s)
  case (Cons p ps)
  obtain k1 d1 where p: "p = (k1, d1)" by (cases p)
  with Cons.prems have f: "fits k1 d1 s" by simp
  obtain s1 where s1: "put k1 d1 s = Some s1" "put_all put ps s1 = Some s'"
    using Cons.prems(4) p by (auto simp: bind_eq_Some_conv)
  have g1: "good s1" by (rule put_good [OF Cons.prems(1) f s1(1)])
  have f1: "\<forall>(k', d') \<in> set ps. fits k' d' s1" using fits_put [OF Cons.prems(1) f s1(1)] Cons.prems(2) by auto
  show ?case
  proof (cases "(k, d) = p")
    case True
    then have "k1 \<notin> fst ` set ps" "k = k1" "d = d1" using Cons.prems(3) p by auto
    moreover have "holds k1 s1" by (rule holds_put [OF Cons.prems(1) f s1(1) fits_holds [OF f]])
    ultimately show ?thesis
      using put_all_other [OF g1 f1 s1(2), of k1] get_put [OF Cons.prems(1) f s1(1)] by simp
  next
    case False
    then show ?thesis using Cons.IH [OF g1 f1 _ s1(2)] Cons.prems(3,5) by simp
  qed
qed simp

lemma put_all_images:
  assumes "good s" "\<forall>(k, d) \<in> set ps. fits k d s" "distinct (map fst ps)"
  shows "\<exists>s'. put_all put ps s = Some s' \<and> good s' \<and> (\<forall>(k, d) \<in> set ps. get k s' = Some (payload d)) \<and>
    (\<forall>k. holds k s \<and> k \<notin> fst ` set ps \<longrightarrow> get k s' = get k s)"
  using put_all_total [OF assms(1,2)] put_all_get [OF assms] put_all_other [OF assms(1,2)] by (auto 0 4)

lemma put_last_wins:
  assumes "good s" "fits k d s" "fits k d' s" "put_all put [(k, d), (k, d')] s = Some s'"
  shows "get k s' = Some (payload d')"
  using assms put_good [OF assms(1,2)] fits_put [OF assms(1,2) _ assms(3)] get_put by (auto simp: bind_eq_Some_conv)

end

subsection \<open>Whole files\<close>

definition usable_file :: "(string \<Rightarrow> bool) \<Rightarrow> string \<Rightarrow> fs \<Rightarrow> bool" where
  "usable_file can f files \<longleftrightarrow> (case files f of None \<Rightarrow> can f | Some d \<Rightarrow> ok_file d)"

definition put_file :: "(string \<Rightarrow> bool) \<Rightarrow> string \<Rightarrow> buffer \<Rightarrow> fs \<Rightarrow> fs option" where
  "put_file can f data files = (let (r, files') = file_write can f data files in if r = 0 then Some files' else None)"

lemma put_file_eq:
  assumes "usable_file can f files"
  shows "\<exists>d. put_file can f data files = Some (files(f \<mapsto> d)) \<and> ok_file d \<and> file_read (files(f \<mapsto> d)) f = Some data"
proof -
  obtain d where d: "open_trunc can files f = Some d" "ok_file d" "bytes d = []"
    using assms by (auto simp: usable_file_def open_trunc_def ok_file_def empty_file_def split: option.splits)
  then have "safe_read (d\<lparr>bytes := data\<rparr>) 0 (length data) = Some data"
    by (subst safe_read.simps) (simp add: dev_read_def ok_file_def safe_read.simps)
  then show ?thesis
    using d write_all_empty [of d data] unfolding put_file_def file_write_def
    by (intro exI [of _ "d\<lparr>bytes := data\<rparr>"]) (simp add: file_read_def st_size_def ok_file_def)
qed

interpretation files: image_store "\<lambda>_. True" "usable_file can" "\<lambda>f _. usable_file can f" "put_file can"
    "\<lambda>f files. file_read files f" "\<lambda>data. data" for can
proof (unfold_locales, goal_cases)
  case (2 s k d)
  then show ?case using put_file_eq [of can k s d] by auto
next
  case (4 s k d s')
  then show ?case using put_file_eq [of can k s d] by auto
next
  case (5 s k d s' k')
  then show ?case using put_file_eq [of can k s d] by (auto simp: file_read_def)
next
  case (6 s k d s' k')
  then show ?case using put_file_eq [of can k s d] by (auto simp: usable_file_def)
next
  case (7 s k d s' k' d')
  then show ?case using put_file_eq [of can k s d] by (auto simp: usable_file_def)
qed simp_all

subsection \<open>Partitions of a device with a GPT\<close>

text \<open>A partition for boot images: its name is a path component, and its device has no defects.\<close>

definition has_partition :: "string \<Rightarrow> fs \<Rightarrow> bool" where
  "has_partition nm files \<longleftrightarrow> nm \<noteq> ''testos'' \<and> CHR ''/'' \<notin> set nm \<and>
     (\<exists>path d. get_device_path files (Some nm) = Some path \<and> files path = Some d \<and> healthy d)"

definition image_fits :: "boot_img_layout \<Rightarrow> string \<Rightarrow> buffer \<Rightarrow> fs \<Rightarrow> bool" where
  "image_fits L nm data files \<longleftrightarrow> has_partition nm files \<and> 0 < length data \<and> hdr_size L \<le> length data \<and>
     bootimage_size L (empty_file\<lparr>bytes := data\<rparr>) = Some (int (length data)) \<and>
     (\<forall>path d. get_device_path files (Some nm) = Some path \<and> files path = Some d \<longrightarrow> length data \<le> length (bytes d))"

definition put_image :: "string \<Rightarrow> (string \<Rightarrow> bool) \<Rightarrow> string \<Rightarrow> buffer \<Rightarrow> fs \<Rightarrow> fs option" where
  "put_image mmc can nm data files =
    (case flash_image mmc can data nm files of Some (r, _, files') \<Rightarrow> if r = 0 then Some files' else None | None \<Rightarrow> None)"

definition get_image :: "string \<Rightarrow> boot_img_layout \<Rightarrow> (nat \<Rightarrow> buffer option) \<Rightarrow> string \<Rightarrow> fs \<Rightarrow> buffer option" where
  "get_image mmc L heap nm files = Option.bind (read_image mmc L heap nm files) (\<lambda>r. r)"

lemma device_path_suffix: "get_device_path files (Some nm) = Some path \<Longrightarrow> \<exists>p. path = p @ ''/'' @ nm"
proof -
  have "first_prefix files ps nm = Some path \<Longrightarrow> \<exists>p. path = p @ ''/'' @ nm" for ps
    by (induction ps) (auto simp: try_prefix_def Let_def split: option.splits if_splits)
  then show "get_device_path files (Some nm) = Some path \<Longrightarrow> \<exists>p. path = p @ ''/'' @ nm" by (simp add: get_device_path_def)
qed

lemma last_component: "CHR ''/'' \<notin> set a \<Longrightarrow> CHR ''/'' \<notin> set b \<Longrightarrow> p @ ''/'' @ a = q @ ''/'' @ b \<Longrightarrow> a = b"
proof -
  have t: "takeWhile (\<lambda>c. c \<noteq> CHR ''/'') (rev (p @ ''/'' @ a)) = rev a" if "CHR ''/'' \<notin> set a" for p a
  proof -
    have "\<forall>x \<in> set (rev a). x \<noteq> CHR ''/''" using that by auto
    then show ?thesis by (simp add: takeWhile_append2 takeWhile_tail)
  qed
  show "CHR ''/'' \<notin> set a \<Longrightarrow> CHR ''/'' \<notin> set b \<Longrightarrow> p @ ''/'' @ a = q @ ''/'' @ b \<Longrightarrow> a = b"
    using t [of a p] t [of b q] by simp
qed

lemma put_image_eq:
  assumes "is_gpt files" "image_fits L nm data files"
  obtains path d where "get_device_path files (Some nm) = Some path" "files path = Some d" "healthy d"
    "put_image mmc can nm data files = Some (files(path \<mapsto> d\<lparr>bytes := overlay 0 data (bytes d)\<rparr>))"
    "get_device_path (files(path \<mapsto> d\<lparr>bytes := overlay 0 data (bytes d)\<rparr>)) = get_device_path files"
    "length (overlay 0 data (bytes d)) = length (bytes d)"
proof -
  obtain path d where p: "get_device_path files (Some nm) = Some path" "files path = Some d" "healthy d" "nm \<noteq> ''testos''"
    using assms(2) by (auto simp: image_fits_def has_partition_def)
  then have len: "length data \<le> length (bytes d)" using assms(2) by (auto simp: image_fits_def)
  note w = gpt_flash_writes [OF assms(1) p(1-3) len p(4)]
  show ?thesis using that [OF p(1-3)] w len by (simp add: put_image_def)
qed

lemma put_image_step:
  assumes "is_gpt s" "image_fits L k d s" "put_image mmc can k d s = Some s'"
  obtains path x x' where "get_device_path s (Some k) = Some path" "s path = Some x" "s' = s(path \<mapsto> x')" "healthy x'"
    "get_device_path s' = get_device_path s" "length (bytes x') = length (bytes x)"
proof -
  obtain path x where p: "get_device_path s (Some k) = Some path" "s path = Some x" "healthy x"
      "put_image mmc can k d s = Some (s(path \<mapsto> x\<lparr>bytes := overlay 0 d (bytes x)\<rparr>))"
      "get_device_path (s(path \<mapsto> x\<lparr>bytes := overlay 0 d (bytes x)\<rparr>)) = get_device_path s"
      "length (overlay 0 d (bytes x)) = length (bytes x)"
    by (rule put_image_eq [OF assms(1,2)])
  show ?thesis
    using that [OF p(1,2), of "x\<lparr>bytes := overlay 0 d (bytes x)\<rparr>"] p(3-6) assms(3) by (simp add: healthy_def)
qed

lemma image_fits_put:
  assumes "is_gpt s" "image_fits L k d s" "put_image mmc can k d s = Some s'"
  shows "is_gpt s'" "has_partition k' s \<Longrightarrow> has_partition k' s'" "image_fits L k' d' s \<Longrightarrow> image_fits L k' d' s'"
proof -
  obtain path x x' where p: "get_device_path s (Some k) = Some path" "s path = Some x" "s' = s(path \<mapsto> x')" "healthy x'"
    "get_device_path s' = get_device_path s" "length (bytes x') = length (bytes x)"
    by (rule put_image_step [OF assms])
  show "is_gpt s'" using assms(1) p(5) by (simp add: is_gpt_def)
  show h: "has_partition k' s \<Longrightarrow> has_partition k' s'" for k' using p by (auto simp: has_partition_def)
  show "image_fits L k' d' s \<Longrightarrow> image_fits L k' d' s'" using p h [of k'] by (auto simp: image_fits_def)
qed

lemma get_image_gpt: "is_gpt files \<Longrightarrow> get_image mmc L heap nm files = Option.bind (read_image_gpt L nm files) (\<lambda>r. r)"
  by (simp add: get_image_def read_image_def bootimage_ops_def)

interpretation gpt: image_store is_gpt has_partition "image_fits L" "put_image mmc can" "get_image mmc L heap" "\<lambda>data. data"
  for L mmc can heap
proof (unfold_locales, goal_cases)
  case (1 k d s)
  then show ?case by (simp add: image_fits_def)
next
  case (2 s k d)
  then show ?case by (metis put_image_eq)
next
  case (3 s k d s')
  then show ?case by (rule image_fits_put)
next
  case (4 s k d s')
  obtain path x where p: "get_device_path s (Some k) = Some path" "s path = Some x" "healthy x" "k \<noteq> ''testos''"
    using 4(2) by (auto simp: image_fits_def has_partition_def)
  then show ?case
    using 4 gpt_flash_read [OF 4(1) p(1-3) _ p(4), of d L mmc can heap]
    by (auto simp: image_fits_def put_image_def get_image_def)
next
  case (5 s k d s' k')
  obtain path x x' where p: "get_device_path s (Some k) = Some path" "s path = Some x" "s' = s(path \<mapsto> x')" "healthy x'"
    "get_device_path s' = get_device_path s" "length (bytes x') = length (bytes x)"
    by (rule put_image_step [OF 5(1-3)])
  have ne: "get_device_path s (Some k') \<noteq> Some path"
  proof
    assume "get_device_path s (Some k') = Some path"
    then obtain q q' where "path = q @ ''/'' @ k'" "path = q' @ ''/'' @ k" using p(1) device_path_suffix by blast
    then have "k' = k" using 5(2,4) last_component [of k' k q q'] by (simp add: image_fits_def has_partition_def)
    with 5(5) show False by simp
  qed
  have "open_bootimage s' k' = open_bootimage s k'"
    unfolding open_bootimage_def p(5) using ne p(3) by (auto split: Option.bind_splits)
  moreover have "is_gpt s'" by (rule image_fits_put [OF 5(1-3)])
  ultimately show ?case using 5(1) by (simp add: get_image_gpt read_image_gpt_def)
next
  case (6 s k d s' k')
  then show ?case by (rule image_fits_put)
next
  case (7 s k d s' k' d')
  then show ?case by (rule image_fits_put)
qed

subsection \<open>Entries of an OSIP header\<close>

definition spacious :: "blkdev \<Rightarrow> bool" where
  "spacious d \<longleftrightarrow> (\<exists>h. flashed d h \<and> (\<forall>j < live h. roomy (desc h ! j)))"

definition holds_entry :: "nat \<Rightarrow> blkdev \<Rightarrow> bool" where
  "holds_entry i d \<longleftrightarrow> (\<exists>h. flashed d h \<and> i < live h \<and> os_kind (attr_kind (desc h ! i)))"

definition entry_fits :: "nat \<Rightarrow> buffer \<Rightarrow> blkdev \<Rightarrow> bool" where
  "entry_fits i data d \<longleftrightarrow> holds_entry i d \<and> (\<exists>e. stitched data e \<and> unat (size_of_os_image e) + 2 \<le> unat OS_MAX_LBA)"

definition put_entry :: "nat \<Rightarrow> buffer \<Rightarrow> blkdev \<Rightarrow> blkdev option" where
  "put_entry i data d = (case write_stitch_image data (int i) (Some d) of Some (r, _, m) \<Rightarrow> if r = 0 then m else None | None \<Rightarrow> None)"

text \<open>There is memory for every image.\<close>

definition memory :: "nat \<Rightarrow> buffer option" where
  "memory n = Some (replicate n 0)"

definition get_entry :: "nat \<Rightarrow> blkdev \<Rightarrow> buffer option" where
  "get_entry i d = Option.bind (read_osimage_data memory (int i) (Some d)) (map_option (drop 512))"

lemma flashed_unique: "flashed d h \<Longrightarrow> flashed d h' \<Longrightarrow> h' = h"
  using read_OSIP_emmc [of d h] read_OSIP_emmc [of d h'] by (auto simp: flashed_def)

lemma get_entry_image: "flashed d h \<Longrightarrow> i < live h \<Longrightarrow> get_entry i d = Some (image_of (desc h ! i) d)"
  using read_osimage_data_is_stitched [of d h i memory] by (auto simp: get_entry_def memory_def)

lemma put_entry_step:
  assumes "spacious d" "entry_fits i data d"
  obtains h h' d' where "flashed d h" "i < live h" "put_entry i data d = Some d'" "flashed d' h'" "live h' = live h"
    "image_of (desc h' ! i) d' = drop 512 data" "roomy (desc h' ! i)" "os_kind (attr_kind (desc h' ! i))"
    "\<forall>j < live h. j \<noteq> i \<longrightarrow> desc h' ! j = desc h ! j \<and> image_of (desc h ! j) d' = image_of (desc h ! j) d"
    "\<forall>j < live h. roomy (desc h ! j)"
proof -
  obtain h where f: "flashed d h" "\<forall>j < live h. roomy (desc h ! j)" using assms(1) by (auto simp: spacious_def)
  obtain e where i: "i < live h" "os_kind (attr_kind (desc h ! i))" and e: "stitched data e" "unat (size_of_os_image e) + 2 \<le> unat OS_MAX_LBA"
    using assms(2) flashed_unique [OF f(1)] by (auto simp: entry_fits_def holds_entry_def)
  have l: "live h \<le> 8" "i \<le> live h" "i < 8" "osip_wf h" "tidy h" using f(1) i(1) by (auto simp: flashed_def laid_out_def emmc_def)
  have s: "crack_stitched_image data = Some (Some e)" "length data = 512 + 512 * unat (size_of_os_image e)"
      "os_kind (attr_kind e)" "size_of_os_image e \<le> OS_MAX_LBA"
    using e(1) by (auto simp: stitched_def)
  obtain lba where lba: "lba \<in> set os_lba_slots" "choose_slot e False h = Some (Some (lba, OS_MAX_LBA))" "lba \<noteq> 0"
    using choose_slot_free [OF l(1) f(2) s(3)] by blast
  let ?e = "keep_invalid i h (e\<lparr>logical_start_block := lba\<rparr>)"
  obtain h' where w: "placeable data i h ?e" "replace_desc i ?e h = Some h'"
      "write_stitch_image data (int i) (Some d) = Some (0, put_at enc_osii 32 ?e data,
        Some (header_written (partly_written d ?e data (length data)) h'))"
    using stitch_written [OF f(1) l(2,3) s(1,2) lba(2,3) s(4)] i(2) by blast
  let ?d = "header_written (partly_written d ?e data (length data)) h'"
  note inst = installed [OF f(1) l(2,3) w(1,2)]
  have "h' = set_desc i ?e h" using w(2) i by (auto simp: replace_desc_def Let_def)
  then have "live (with_checksum h') = live h" by simp
  moreover have "roomy ?e" "os_kind (attr_kind ?e)"
    using lba(1) e(2) s(3) by (simp_all add: keep_invalid_def Let_def roomy_def attr_kind_def)
  moreover have "put_entry i data d = Some ?d" using w(3) by (simp add: put_entry_def)
  ultimately show ?thesis using that [OF f(1) i(1) _ inst(1)] inst(2-4) f(2) by simp
qed

lemma holds_entry_put:
  assumes "spacious d" "entry_fits i data d" "put_entry i data d = Some d'" "holds_entry k d"
  shows "holds_entry k d'"
proof (rule put_entry_step [OF assms(1,2)])
  fix h h' d1
  assume p: "flashed d h" "put_entry i data d = Some d1" "flashed d1 h'" "live h' = live h" "os_kind (attr_kind (desc h' ! i))"
    "\<forall>j < live h. j \<noteq> i \<longrightarrow> desc h' ! j = desc h ! j \<and> image_of (desc h ! j) d1 = image_of (desc h ! j) d"
  have "k < live h" "os_kind (attr_kind (desc h ! k))"
    using assms(4) flashed_unique [OF p(1)] by (auto simp: holds_entry_def)
  then have "k < live h'" "os_kind (attr_kind (desc h' ! k))" using p(4-6) by (cases "k = i"; simp)+
  then show ?thesis using assms(3) p(2,3) by (auto simp: holds_entry_def)
qed

lemma get_entry_other:
  assumes "spacious d" "entry_fits i data d" "put_entry i data d = Some d'" "holds_entry k d" "k \<noteq> i"
  shows "get_entry k d' = get_entry k d"
proof (rule put_entry_step [OF assms(1,2)])
  fix h h' d1
  assume p: "flashed d h" "put_entry i data d = Some d1" "flashed d1 h'" "live h' = live h"
    "\<forall>j < live h. j \<noteq> i \<longrightarrow> desc h' ! j = desc h ! j \<and> image_of (desc h ! j) d1 = image_of (desc h ! j) d"
  have "k < live h" using assms(4) flashed_unique [OF p(1)] by (auto simp: holds_entry_def)
  then show ?thesis
    using p assms(3,5) get_entry_image [OF p(1), of k] get_entry_image [OF p(3), of k] by simp
qed

interpretation osip: image_store spacious holds_entry entry_fits put_entry get_entry "drop 512"
proof (unfold_locales, goal_cases)
  case (1 k d s)
  then show ?case by (simp add: entry_fits_def)
next
  case (2 s k d)
  show ?case by (rule put_entry_step [OF 2]) blast
next
  case (3 s k d s')
  show ?case
    by (rule put_entry_step [OF 3(1,2)]) (use 3(3) in \<open>auto simp: spacious_def\<close>, metis)
next
  case (4 s k d s')
  show ?case
    by (rule put_entry_step [OF 4(1,2)]) (use 4(3) get_entry_image in auto)
next
  case (5 s k d s' k')
  then show ?case by (rule get_entry_other)
next
  case (6 s k d s' k')
  then show ?case by (rule holds_entry_put)
next
  case (7 s k d s' k' d')
  then show ?case using holds_entry_put [OF 7(1-3)] by (auto simp: entry_fits_def)
qed

subsection \<open>Updates of several images\<close>

text \<open>C14: An update of several partitions with boot images leaves every one of them with its image. The device has a GPT. The images
  are boot images: each has at least the length of their header, and the size that \<open>bootimage_size\<close> computes from its header is the
  length of the file. They are for different partitions, whose names are single path components and not \<open>testos\<close> (which stands for
  \<open>boot\<close>), and each partition is a defect-free device that is large enough. When they are flashed one after the other with
  \<open>flash_image\<close>, every step succeeds; afterwards \<open>read_image\<close> gives back each image, whatever the order was, and what it reads for any
  other such partition is what it read before. Nothing is said about reading other images, like those for the ESP, the splash screens
  or \<open>silentlake\<close>: \<open>flash_image\<close> writes them as well, but \<open>read_image\<close> refuses what does not have the magic of a boot image and cuts
  off what is behind the size in the header, such as a signature.\<close>

theorem flash_partitions_all_read:
  assumes "is_gpt files" "\<forall>(nm, data) \<in> set ps. image_fits L nm data files" "distinct (map fst ps)"
  shows "\<exists>files'. put_all (put_image mmc can) ps files = Some files' \<and>
    (\<forall>(nm, data) \<in> set ps. get_image mmc L heap nm files' = Some data) \<and>
    (\<forall>nm. has_partition nm files \<and> nm \<notin> fst ` set ps \<longrightarrow> get_image mmc L heap nm files' = get_image mmc L heap nm files)"
  using gpt.put_all_images [OF assms, of mmc can heap] by blast

text \<open>C13: The same for a device with an OSIP header, where the images share the slots of one device: when no image reaches into the
  last two blocks of its slot, stitched OS images for different entries can be written one after the other with \<open>write_stitch_image\<close>;
  every write succeeds, although each new image takes a free slot while the old ones are still in place; afterwards
  \<open>read_osimage_data\<close> gives back the data of each image, in whatever order they were written, and of every other OS entry what it
  gave before.\<close>

theorem osip_entries_all_read:
  assumes "flashed d h" "\<forall>j < live h. roomy (desc h ! j)" "\<forall>(i, data) \<in> set ps. entry_fits i data d" "distinct (map fst ps)"
  shows "\<exists>d'. put_all put_entry ps d = Some d' \<and> (\<exists>h'. flashed d' h') \<and>
    (\<forall>(i, data) \<in> set ps. get_entry i d' = Some (drop 512 data)) \<and>
    (\<forall>i. holds_entry i d \<and> i \<notin> fst ` set ps \<longrightarrow> get_entry i d' = get_entry i d)"
proof -
  have "spacious d" using assms(1,2) by (auto simp: spacious_def)
  from osip.put_all_images [OF this assms(3,4)] show ?thesis unfolding spacious_def by blast
qed

lemma tiny_image_fits:
  assumes "nm = ''boot'' \<or> nm = ''fastboot''"
  shows "image_fits tiny_layout nm [1, a, b, c] gpt_files"
proof -
  have "safe_read (empty_file\<lparr>bytes := [1, a, b, c]\<rparr>) 0 1 = Some [1]"
    by (subst safe_read.simps) (simp add: dev_read_def empty_file_def seg_def safe_read.simps)
  then have "bootimage_size tiny_layout (empty_file\<lparr>bytes := [1, a, b, c]\<rparr>) = Some 4"
    by (simp add: bootimage_size_def tiny_layout_def pages_def)
  moreover have "get_device_path gpt_files (Some nm) = Some (''/dev/block/by-name/'' @ nm)" "gpt_files (''/dev/block/by-name/'' @ nm) = Some (block_device 8)"
    using assms by (auto simp: get_device_path_def PREFIXES_def try_prefix_def gpt_files_def block_device_def)
  moreover have "healthy (block_device 8)" "length (bytes (block_device 8)) = 8" by (simp_all add: block_device_def healthy_def)
  ultimately show ?thesis using assms by (auto simp: image_fits_def has_partition_def tiny_layout_def)
qed

theorem flash_partitions_all_read_witness:
  "\<exists>files'. put_all (put_image ''m'' (\<lambda>_. False)) [(''boot'', [1, 2, 3, 4]), (''fastboot'', [1, 5, 6, 7])] gpt_files = Some files' \<and>
    get_image ''m'' tiny_layout memory ''boot'' files' = Some [1, 2, 3, 4] \<and>
    get_image ''m'' tiny_layout memory ''fastboot'' files' = Some [1, 5, 6, 7]"
proof -
  have "is_gpt gpt_files" by (simp add: is_gpt_def get_device_path_def PREFIXES_def try_prefix_def gpt_files_def block_device_def)
  moreover have "\<forall>(nm, data) \<in> set [(''boot'', [1, 2, 3, 4]), (''fastboot'', [1, 5, 6, 7])]. image_fits tiny_layout nm data gpt_files"
    using tiny_image_fits by simp
  ultimately show ?thesis
    using flash_partitions_all_read [of gpt_files "[(''boot'', [1, 2, 3, 4]), (''fastboot'', [1, 5, 6, 7])]" tiny_layout "''m''" "\<lambda>_. False" memory]
    by auto
qed

text \<open>A device with a boot and a recovery image, both of which are replaced.\<close>

definition two_systems :: OSIP_header where
  "two_systems = header_of [image_at 4050 20000 0, image_at 36050 1000 0x0C]"

lemma live_two_systems: "live (with_checksum two_systems) = 2"
  by (simp add: two_systems_def header_of_def)

lemma two_systems_flashed: "flashed (sample_device two_systems) (with_checksum two_systems)"
proof -
  have wf: "osip_wf two_systems" by (simp add: two_systems_def header_of_wf)
  have l: "live two_systems = 2" using live_two_systems by simp
  have "laid_out two_systems"
    unfolding laid_out_def l
    by (simp add: numeral_2_eq_2 All_less_Suc)
      (simp add: two_systems_def header_of_def in_slot_def extent_def fw_lba_slots_eq os_lba_slots_eq FW_MAX_LBA_def OS_MAX_LBA_def)
  moreover have "tidy two_systems"
    unfolding tidy_def l
    by (auto simp: two_systems_def header_of_def nth_Cons numeral_eq_Suc less_Suc_eq attr_kind_def os_kind_def split: nat.splits)
  ultimately show ?thesis using sample_device_emmc [OF wf] by (simp add: flashed_def)
qed

lemma two_systems_entries:
  assumes "i < 2"
  shows "roomy (desc (with_checksum two_systems) ! i)" "holds_entry i (sample_device two_systems)"
proof -
  show "roomy (desc (with_checksum two_systems) ! i)"
    using assms by (auto simp: two_systems_def sample_defs roomy_def less_2_cases_iff fw_lba_slots_eq os_lba_slots_eq FW_MAX_LBA_def OS_MAX_LBA_def)
  have "os_kind (attr_kind (desc (with_checksum two_systems) ! i))"
    using assms by (auto simp: two_systems_def header_of_def image_at_def attr_kind_def os_kind_def less_2_cases_iff)
  then show "holds_entry i (sample_device two_systems)"
    unfolding holds_entry_def using two_systems_flashed live_two_systems assms by (intro exI [of _ "with_checksum two_systems"]) simp
qed

definition boot_image :: buffer where
  "boot_image = sample_image (image_at 1 1 0) (replicate 512 5)"

lemma small_image_fits:
  assumes "i < 2" "os_kind (attr_kind e)" "size_of_os_image e = 1" "osii_wf e" "length img = 512"
  shows "entry_fits i (sample_image e img) (sample_device two_systems)"
proof -
  have "stitched (sample_image e img) e"
    using crack_sample [OF assms(4), of img] assms by (simp add: stitched_def OS_MAX_LBA_def word_le_nat_alt)
  moreover have "unat (size_of_os_image e) + 2 \<le> unat OS_MAX_LBA" using assms(3) by (simp add: OS_MAX_LBA_def)
  ultimately show ?thesis using two_systems_entries(2) [OF assms(1)] unfolding entry_fits_def by blast
qed

theorem osip_entries_all_read_witness:
  "\<exists>d'. put_all put_entry [(1, recovery_image), (0, boot_image)] (sample_device two_systems) = Some d' \<and>
    get_entry 0 d' = Some (replicate 512 5) \<and> get_entry 1 d' = Some (replicate 512 7)"
proof -
  have r: "\<forall>j < live (with_checksum two_systems). roomy (desc (with_checksum two_systems) ! j)"
    unfolding live_two_systems using two_systems_entries(1) by blast
  have f: "entry_fits 0 boot_image (sample_device two_systems)" "entry_fits 1 recovery_image (sample_device two_systems)"
    unfolding boot_image_def recovery_image_def by (rule small_image_fits; simp add: attr_kind_def os_kind_def)+
  then have "\<forall>(i, data) \<in> set [(1, recovery_image), (0, boot_image)]. entry_fits i data (sample_device two_systems)" by simp
  from osip_entries_all_read [OF two_systems_flashed r this] show ?thesis
    using recovery_image_facts(3) crack_sample(3) [of "image_at 1 1 0" "replicate 512 5"] by (auto simp: boot_image_def)
qed

end
