(* ===== verification/Util_System.thy ===== *)
theory Util_System
  imports Cgpt_Cli Util
begin

text \<open>
  The parts of \<open>util.c\<close> that use the system: messages, mapping a file, showing a trace file, and \<open>call_program\<close>, which
  starts a program with its output in a file, waits for it with a time limit, and searches the output for a text that means success.
  What the system does is an argument.
\<close>

subsection \<open>Messages\<close>

text \<open>The functions that print a message: the two defaults, and those that a caller installs. A message is a list of calls, each
  with the text that it prints. \<open>print\<close> gives the message to \<open>printf\<close> as a format, so that this holds for messages without a per cent sign.\<close>

datatype message_fun = Eprintf | Printf | Installed string

record streams =
  error_fun :: message_fun
  print_fun :: message_fun

definition streams0 :: streams where
  "streams0 = \<lparr>error_fun = Eprintf, print_fun = Printf\<rparr>"

definition util_init :: "message_fun option \<Rightarrow> message_fun option \<Rightarrow> streams \<Rightarrow> streams" where
  "util_init err_fun pr_fun st =
    \<lparr>error_fun = (case err_fun of Some f \<Rightarrow> f | None \<Rightarrow> error_fun st), print_fun = (case pr_fun of Some f \<Rightarrow> f | None \<Rightarrow> print_fun st)\<rparr>"

definition message :: "string \<Rightarrow> string" where
  "message s = take 255 s"

definition error_calls :: "streams \<Rightarrow> string \<Rightarrow> (message_fun \<times> string) list" where
  "error_calls st s = (error_fun st, message s) # (if error_fun st \<noteq> Printf then [(Printf, message s)] else [])"

definition print_calls :: "streams \<Rightarrow> string \<Rightarrow> (message_fun \<times> string) list" where
  "print_calls st s = (print_fun st, message s) # (if print_fun st \<noteq> Eprintf then [(Eprintf, message s)] else [])"

subsection \<open>Files\<close>

text \<open>The result of \<open>file_mmap\<close>: a null pointer when the file cannot be opened, which is not the value for a failed mapping.\<close>

datatype mapping_result = Null_pointer | MAP_FAILED | Mapped buffer

definition file_mmap :: "(string \<Rightarrow> bool) \<Rightarrow> string \<Rightarrow> nat \<Rightarrow> fs \<Rightarrow> mapping_result" where
  "file_mmap mmap_succeeds filename len files =
    (case files filename of None \<Rightarrow> Null_pointer
     | Some d \<Rightarrow> if len = 0 \<or> \<not> mmap_succeeds filename then MAP_FAILED else Mapped (take len (bytes d)))"

definition dump_trace_file :: "string \<Rightarrow> fs \<Rightarrow> string" where
  "dump_trace_file filename files =
    (case files filename of None \<Rightarrow> []
     | Some d \<Rightarrow> concat (map (takeWhile (\<lambda>c. c \<noteq> CHR 0x00)) (fgets_lines 1023 (map (\<lambda>b. char_of (unat b)) (bytes d)))))"

lemma concat_fgets_lines: "0 < n \<Longrightarrow> concat (fgets_lines n s) = s"
proof (induction n s rule: fgets_lines.induct)
  case (1 n s)
  then show ?case using fgets_append [of n s] by (simp add: fgets_lines.simps [of n s])
qed

lemma dump_trace_file_all:
  assumes "files filename = Some d" "0 \<notin> set (bytes d)"
  shows "dump_trace_file filename files = map (\<lambda>b. char_of (unat b)) (bytes d)"
proof -
  let ?s = "map (\<lambda>b. char_of (unat b)) (bytes d)"
  have no0: "CHR 0x00 \<notin> set ?s"
  proof
    assume "CHR 0x00 \<in> set ?s"
    then obtain b where b: "b \<in> set (bytes d)" "char_of (unat b) = CHR 0x00" by auto
    then have "unat b mod 256 = 0" using of_char_of [of "unat b"] by simp
    moreover have "unat b < 256" using unsigned_less [of b] by simp
    ultimately have "b = 0" by (simp add: unat_eq_zero)
    with b(1) assms(2) show False by simp
  qed
  have "takeWhile (\<lambda>c. c \<noteq> CHR 0x00) l = l" if "l \<in> set (fgets_lines 1023 ?s)" for l
  proof -
    have "set l \<subseteq> set (concat (fgets_lines 1023 ?s))" using that by auto
    then have "CHR 0x00 \<notin> set l" using concat_fgets_lines [of 1023 ?s] no0 by auto
    then show ?thesis by (auto simp: takeWhile_eq_all_conv)
  qed
  then have "map (takeWhile (\<lambda>c. c \<noteq> CHR 0x00)) (fgets_lines 1023 ?s) = fgets_lines 1023 ?s" by (rule map_idI)
  then show ?thesis using assms(1) concat_fgets_lines [of 1023 ?s] by (simp add: dump_trace_file_def)
qed

subsection \<open>Programs\<close>

datatype wait_status = Exited int | Signalled | Interrupted | Wait_error

text \<open>The results of the calls: \<open>fork\<close>, \<open>sigaction\<close>, \<open>waitpid\<close>, \<open>lseek\<close> and \<open>fdopen\<close>, and what the
  program has written to its output when the wait ends. \<open>Interrupted\<close> is the end of the wait by the alarm signal.\<close>

record process_env =
  fork_ok :: bool
  sigaction_ok :: bool
  waitpid_status :: wait_status
  seek_ok :: bool
  fdopen_ok :: bool
  program_output :: buffer

text \<open>The state of the process: the flag that the handler of the alarm signal sets, the alarm that is
  pending, and whether the program was sent a signal to end.\<close>

record process_state =
  allocated_time_expired :: bool
  pending_alarm :: nat
  terminated :: bool
  pfiles :: fs

text \<open>The buffer holds as many characters as the text that is searched for. \<open>fgets\<close> with room for no character succeeds.\<close>

definition search_log :: "string \<Rightarrow> string \<Rightarrow> bool" where
  "search_log pass_string s \<longleftrightarrow> pass_string = [] \<or>
    list_ex (\<lambda>buf. strstr (takeWhile (\<lambda>c. c \<noteq> CHR 0x00) buf) pass_string \<noteq> None) (fgets_lines (length pass_string) s)"

definition EXIT_FAILURE :: int where "EXIT_FAILURE = 1"

text \<open>An alarm ends when its signal arrives, and is otherwise left as it is; \<open>alarm\<close> replaces it.\<close>

definition call_program :: "(string \<Rightarrow> bool) \<Rightarrow> process_env \<Rightarrow> string \<Rightarrow> string \<Rightarrow> nat \<Rightarrow> process_state \<Rightarrow> int \<times> process_state" where
  "call_program creatable env log_file pass_string timeout st =
    (case open_trunc creatable (pfiles st) log_file of None \<Rightarrow> (EXIT_FAILURE, st)
     | Some d \<Rightarrow>
       let st = st\<lparr>pfiles := (pfiles st)(log_file \<mapsto> d)\<rparr> in
       if \<not> fork_ok env then (EXIT_FAILURE, st)
       else let st = st\<lparr>pfiles := (pfiles st)(log_file \<mapsto> d\<lparr>bytes := program_output env\<rparr>)\<rparr> in
         if \<not> sigaction_ok env then (EXIT_FAILURE, st)
         else let st = st\<lparr>pending_alarm := timeout\<rparr> in
           (case waitpid_status env of
              Interrupted \<Rightarrow> (EXIT_FAILURE, st\<lparr>allocated_time_expired := True, pending_alarm := 0, terminated := True\<rparr>)
            | Wait_error \<Rightarrow> (EXIT_FAILURE, if allocated_time_expired st then st\<lparr>terminated := True\<rparr> else st)
            | Signalled \<Rightarrow> (EXIT_FAILURE, st)
            | Exited code \<Rightarrow>
              if code \<noteq> 0 \<or> \<not> seek_ok env \<or> \<not> fdopen_ok env then (EXIT_FAILURE, st)
              else (if search_log pass_string (map (\<lambda>b. char_of (unat b)) (program_output env)) then 0 else EXIT_FAILURE, st)))"

subsection \<open>The search in the output\<close>

text \<open>The text is in the output, and the distance from the beginning of its line is a multiple of its length.\<close>

definition aligned_in :: "string \<Rightarrow> string \<Rightarrow> bool" where
  "aligned_in pat s \<longleftrightarrow> (\<exists>a l r. s = a @ l @ pat @ r \<and> (a = [] \<or> last a = CHR 0x0A) \<and> CHR 0x0A \<notin> set l \<and> length pat dvd length l)"

lemma strstr_infix: "strstr s pat \<noteq> None \<Longrightarrow> length pat \<le> length s \<and> (length s = length pat \<longrightarrow> s = pat)"
proof (induction s)
  case (Cons c s)
  show ?case
  proof (cases "take (length pat) (c # s) = pat")
    case True
    then have "length pat \<le> length (c # s)" by (metis length_take min.cobounded1)
    with True show ?thesis by (metis order.refl take_all_iff)
  next
    case False
    with Cons show ?thesis by auto
  qed
qed (auto split: if_splits)

lemma strstr_self: "strstr s s \<noteq> None"
  by (cases s) auto

lemma length_fgets: "length (fst (fgets n s)) \<le> n"
  by (induction n s rule: fgets.induct) (auto split: prod.splits)

text \<open>A piece that does not end its line is a full one, or the last.\<close>

lemma fgets_piece:
  "fgets n s = (c, s') \<Longrightarrow> c \<noteq> [] \<Longrightarrow> last c \<noteq> CHR 0x0A \<Longrightarrow> CHR 0x0A \<notin> set c \<and> (length c = n \<or> s' = [])"
proof (induction n s arbitrary: c s' rule: fgets.induct)
  case (3 n x s)
  obtain l r where f: "fgets n s = (l, r)" by fastforce
  show ?case
  proof (cases "l = []")
    case True
    then have "n = 0 \<or> s = []" using f fgets_nonempty [of n s] by (cases n) auto
    moreover have "s = [] \<Longrightarrow> n = 0 \<or> r = []" using f by (cases n) auto
    ultimately show ?thesis using True 3 f by (auto split: if_splits)
  next
    case False
    with 3 f show ?thesis by (auto split: if_splits)
  qed
qed auto

lemma fgets_take: "CHR 0x0A \<notin> set l \<Longrightarrow> length l = n \<Longrightarrow> fgets n (l @ s) = (l, s)"
proof (induction l arbitrary: n)
  case (Cons x l)
  then show ?case by (cases n) auto
qed simp

text \<open>A piece of a text that begins with whole lines is inside these lines.\<close>

lemma fgets_in_lines:
  "a \<noteq> [] \<Longrightarrow> last a = CHR 0x0A \<Longrightarrow> \<exists>u v. a = u @ v \<and> fgets n (a @ s) = (u, v @ s)"
proof (induction a arbitrary: n)
  case (Cons x a)
  show ?case
  proof (cases n)
    case 0
    then show ?thesis by (intro exI [of _ "[]"] exI [of _ "x # a"]) simp
  next
    case n: (Suc k)
    show ?thesis
    proof (cases "x = CHR 0x0A")
      case True
      with n show ?thesis by (intro exI [of _ "[x]"] exI [of _ a]) simp
    next
      case False
      with Cons.prems have "a \<noteq> []" "last a = CHR 0x0A" by (auto split: if_splits)
      with Cons.IH [of k] obtain u v where "a = u @ v" "fgets k (a @ s) = (u, v @ s)" by blast
      with n False show ?thesis by (intro exI [of _ "x # u"] exI [of _ v]) simp
    qed
  qed
qed simp

lemma aligned_in_piece:
  assumes "fgets (length pat) s = (c, s')" "pat \<noteq> []" "aligned_in pat s'"
  shows "aligned_in pat s"
proof -
  obtain a l r where s': "s' = a @ l @ pat @ r" "a = [] \<or> last a = CHR 0x0A" "CHR 0x0A \<notin> set l" "length pat dvd length l"
    using assms(3) by (auto simp: aligned_in_def)
  then have ne: "s' \<noteq> []" using assms(2) by auto
  have s: "s = c @ s'" using fgets_append [of "length pat" s] assms(1) by simp
  have "c \<noteq> []" using fgets_nonempty [of "length pat" s] assms(1,2) s ne by auto
  show ?thesis
  proof (cases "last c = CHR 0x0A \<or> a \<noteq> []")
    case True
    then have "last (c @ a) = CHR 0x0A" using s'(2) \<open>c \<noteq> []\<close> by (cases "a = []") auto
    then show ?thesis using s s' unfolding aligned_in_def by (intro exI [of _ "c @ a"] exI [of _ l] exI [of _ r]) simp
  next
    case False
    then have "CHR 0x0A \<notin> set c" "length c = length pat" using fgets_piece [OF assms(1) \<open>c \<noteq> []\<close>] ne by auto
    then show ?thesis using s s' False unfolding aligned_in_def by (intro exI [of _ "[]"] exI [of _ "c @ l"] exI [of _ r]) simp
  qed
qed

lemma aligned_in_step:
  assumes "aligned_in pat s" "pat \<noteq> []" "CHR 0x0A \<notin> set pat" "fgets (length pat) s = (c, s')" "c \<noteq> pat"
  shows "aligned_in pat s'"
proof -
  obtain a l r where s: "s = a @ l @ pat @ r" "a = [] \<or> last a = CHR 0x0A" "CHR 0x0A \<notin> set l" "length pat dvd length l"
    using assms(1) by (auto simp: aligned_in_def)
  show ?thesis
  proof (cases "a = []")
    case False
    then obtain u v where "a = u @ v" "s' = v @ l @ pat @ r"
      using fgets_in_lines [of a "length pat" "l @ pat @ r"] s(1,2) assms(4) by auto
    moreover from this have "v = [] \<or> last v = CHR 0x0A" using s(2) False by (cases v) auto
    ultimately show ?thesis using s(3,4) unfolding aligned_in_def by blast
  next
    case True
    have "l \<noteq> []" using fgets_take [OF assms(3) refl, of r] assms(4,5) s(1) True by auto
    then have k: "length pat \<le> length l" using s(4) by (simp add: dvd_imp_le)
    let ?u = "take (length pat) l" and ?v = "drop (length pat) l"
    have "CHR 0x0A \<notin> set ?u" "CHR 0x0A \<notin> set ?v" using s(3) by (auto dest: in_set_takeD in_set_dropD)
    moreover have "s' = ?v @ pat @ r"
      using fgets_take [of ?u "length pat" "?v @ pat @ r"] calculation k assms(4) s(1) True
      by (simp flip: append_assoc)
    moreover have "length pat dvd length ?v" using s(4) k by (simp add: dvd_diff_nat)
    ultimately show ?thesis unfolding aligned_in_def by (intro exI [of _ "[]"] exI [of _ ?v] exI [of _ r]) simp
  qed
qed

lemma search_pieces:
  assumes "pat \<noteq> []" "CHR 0x0A \<notin> set pat"
  shows "pat \<in> set (fgets_lines (length pat) s) \<longleftrightarrow> aligned_in pat s"
proof (induction "length pat" s rule: fgets_lines.induct)
  case (1 s)
  show ?case
  proof (cases "s = []")
    case True
    then show ?thesis using assms by (auto simp: aligned_in_def fgets_lines.simps [of _ "[]"])
  next
    case False
    obtain c s' where f: "fgets (length pat) s = (c, s')" by fastforce
    have "fgets_lines (length pat) s = c # fgets_lines (length pat) s'"
      using False assms(1) f by (simp add: fgets_lines.simps [of _ s])
    moreover have "pat \<in> set (fgets_lines (length pat) s') \<longleftrightarrow> aligned_in pat s'" using 1 False assms(1) f by simp
    moreover have "aligned_in pat s" if "c = pat"
      using that fgets_append [of "length pat" s] f unfolding aligned_in_def
      by (intro exI [of _ "[]"] exI [of _ s']) simp
    ultimately show ?thesis
      using aligned_in_piece [OF f assms(1)] aligned_in_step [OF _ assms f] by auto
  qed
qed

lemma found_in_piece:
  assumes "length c \<le> length pat" "CHR 0x00 \<notin> set pat"
  shows "strstr (takeWhile (\<lambda>x. x \<noteq> CHR 0x00) c) pat \<noteq> None \<longleftrightarrow> c = pat"
proof
  assume "strstr (takeWhile (\<lambda>x. x \<noteq> CHR 0x00) c) pat \<noteq> None"
  then have "length pat \<le> length (takeWhile (\<lambda>x. x \<noteq> CHR 0x00) c)"
      "length (takeWhile (\<lambda>x. x \<noteq> CHR 0x00) c) = length pat \<longrightarrow> takeWhile (\<lambda>x. x \<noteq> CHR 0x00) c = pat"
    using strstr_infix by blast+
  then show "c = pat"
    by (metis assms(1) length_takeWhile_le le_antisym order.trans takeWhile_eq_take take_all_iff)
next
  assume "c = pat"
  moreover have "takeWhile (\<lambda>x. x \<noteq> CHR 0x00) pat = pat" using assms(2) by (auto simp: takeWhile_eq_all_conv)
  ultimately show "strstr (takeWhile (\<lambda>x. x \<noteq> CHR 0x00) c) pat \<noteq> None" using strstr_self [of pat] by (simp only: not_False_eq_True)
qed

lemma length_piece: "c \<in> set (fgets_lines n s) \<Longrightarrow> length c \<le> n"
proof (induction n s rule: fgets_lines.induct)
  case (1 n s)
  then show ?case using length_fgets [of n s] by (auto simp: fgets_lines.simps [of n s] split: if_splits)
qed

lemma search_log_aligned:
  assumes "CHR 0x0A \<notin> set pat" "CHR 0x00 \<notin> set pat"
  shows "search_log pat s \<longleftrightarrow> pat = [] \<or> aligned_in pat s"
  using search_pieces [OF _ assms(1), of s] found_in_piece [OF length_piece assms(2), of _ s]
  by (auto simp: search_log_def list_ex_iff)

text \<open>What success of \<open>call_program\<close> means. When the log file can be created and the system calls succeed, the result is 0 exactly
  when the program ended by itself with status 0 within its time, and the text that means success is in its output at a distance
  from the beginning of its line that is a multiple of the length of the text. The search reads the output in pieces of that length:
  anywhere else in a line the text is not found, and a program that succeeded counts as failed.\<close>

theorem call_program_succeeds_iff:
  assumes "creatable log_file" "fork_ok env" "sigaction_ok env" "seek_ok env" "fdopen_ok env" "pfiles st log_file = None"
    and "CHR 0x0A \<notin> set pass_string" "CHR 0x00 \<notin> set pass_string" "pass_string \<noteq> []"
  shows "fst (call_program creatable env log_file pass_string timeout st) = 0 \<longleftrightarrow>
    waitpid_status env = Exited 0 \<and>
    (\<exists>a l r. map (\<lambda>b. char_of (unat b)) (program_output env) = a @ l @ pass_string @ r \<and> (a = [] \<or> last a = CHR 0x0A) \<and>
      CHR 0x0A \<notin> set l \<and> length pass_string dvd length l)"
  using assms search_log_aligned [OF assms(7,8)]
  by (auto simp: call_program_def open_trunc_def EXIT_FAILURE_def aligned_in_def Let_def split: wait_status.splits)

text \<open>The same output shifted by one character.\<close>

definition sample_run :: "string \<Rightarrow> process_env" where
  "sample_run s = \<lparr>fork_ok = True, sigaction_ok = True, waitpid_status = Exited 0, seek_ok = True, fdopen_ok = True,
     program_output = map of_char s\<rparr>"

definition idle_process :: process_state where
  "idle_process = \<lparr>allocated_time_expired = False, pending_alarm = 0, terminated = False, pfiles = Map.empty\<rparr>"

theorem call_program_succeeds_iff_witness:
  "fst (call_program (\<lambda>_. True) (sample_run ''a:OK'') ''log'' ''OK'' 5 idle_process) = 0 \<and>
   fst (call_program (\<lambda>_. True) (sample_run '':OK'') ''log'' ''OK'' 5 idle_process) \<noteq> 0"
proof
  have t: "map (\<lambda>b. char_of (unat b)) (program_output (sample_run ''a:OK'')) = ''a:OK''"
    "map (\<lambda>b. char_of (unat b)) (program_output (sample_run '':OK'')) = '':OK''"
    by (simp_all add: sample_run_def char_of_eq_iff)
  note e = sample_run_def idle_process_def
  show "fst (call_program (\<lambda>_. True) (sample_run ''a:OK'') ''log'' ''OK'' 5 idle_process) = 0"
  proof (subst call_program_succeeds_iff)
    show "waitpid_status (sample_run ''a:OK'') = Exited 0 \<and>
      (\<exists>a l r. map (\<lambda>b. char_of (unat b)) (program_output (sample_run ''a:OK'')) = a @ l @ ''OK'' @ r \<and>
        (a = [] \<or> last a = CHR 0x0A) \<and> CHR 0x0A \<notin> set l \<and> length ''OK'' dvd length l)"
      unfolding t by (intro conjI exI [of _ "[]"] exI [of _ "''a:''"]) (simp_all add: e)
  qed (simp_all add: e)
  show "fst (call_program (\<lambda>_. True) (sample_run '':OK'') ''log'' ''OK'' 5 idle_process) \<noteq> 0"
  proof (subst call_program_succeeds_iff)
    have "\<not> (a = [] \<or> last a = CHR 0x0A) \<or> \<not> (length ''OK'' dvd length l)" if "'':OK'' = a @ l @ ''OK'' @ r" for a l r :: string
      using that by (cases a; cases l) (auto simp: append_eq_Cons_conv Cons_eq_append_conv)
    then show "\<not> (waitpid_status (sample_run '':OK'') = Exited 0 \<and>
      (\<exists>a l r. map (\<lambda>b. char_of (unat b)) (program_output (sample_run '':OK'')) = a @ l @ ''OK'' @ r \<and>
        (a = [] \<or> last a = CHR 0x0A) \<and> CHR 0x0A \<notin> set l \<and> length ''OK'' dvd length l))"
      unfolding t by blast
  qed (simp_all add: e)
qed

end
