(* ===== verification/Drm_Hdmi.thy ===== *)
theory Drm_Hdmi
  imports Prov_Prelude
begin

text \<open>
  The HDMI side of the multi-display service, \<open>libmultidisplay/native/drm_hdmi.cpp\<close>: the connector, the kind of display behind it,
  the preferred mode, and the list of timings that a user can choose from. The library below (libdrm) is not part of the
  repository: what it reports is the record \<open>drm_hw\<close>, an argument of every function that asks it, and its constants are the
  record \<open>drm_consts\<close>, with the build flag \<open>VPG_DRM\<close>. \<open>None\<close> as the result of a function is a read outside the data of a display.
\<close>

unbundle bit_operations_syntax

subsection \<open>What the library reports\<close>

record drm_mode =
  hdisplay :: nat
  vdisplay :: nat
  vrefresh :: nat
  mode_flags :: u32
  mode_type :: u32
  picture_aspect_ratio :: u32

text \<open>A property is \<open>None\<close> if it cannot be read, and else a name and the data behind its value. The pointer to the modes is null
  when there are none.\<close>

record drm_connector =
  connector_type :: nat
  modes :: "drm_mode list"
  mode_connected :: bool
  props :: "(string option \<times> buffer option) option list"

record drm_hw =
  drm_opens :: bool
  resources :: "drm_connector option list option"

record drm_consts =
  VPG_DRM :: bool
  FLAG_INTERLACE :: u32
  FLAG_PAR16_9 :: u32
  FLAG_PAR4_3 :: u32
  TYPE_PREFERRED :: u32
  ASPECT_16_9 :: u32
  ASPECT_4_3 :: u32
  CONNECTOR_DVID :: nat
  CONNECTOR_HDMIA :: nat
  CONNECTOR_HDMIB :: nat

abbreviation (input) "PREFERRED_VREFRESH \<equiv> 60 :: nat"
abbreviation (input) "HDMI_TIMING_MAX \<equiv> 128 :: nat"

record MDSHdmiTiming =
  width :: nat
  height :: nat
  refresh :: nat
  interlace :: nat
  ratio :: nat
  tflags :: u32

record drmContext =
  drmFD :: bool
  hdmiSupported :: bool
  connected :: bool
  preferredModeIndex :: int
  selectedModeIndex :: int
  hdmiTimings :: "MDSHdmiTiming list"
  hdmiConnector :: "drm_connector option"

subsection \<open>The connector\<close>

text \<open>The loop of \<open>getConnector\<close>. A connector without modes is skipped, but stays in the variable that is returned.\<close>

fun find_connector :: "nat \<Rightarrow> drm_connector option list \<Rightarrow> drm_connector option \<Rightarrow> drm_connector option" where
  "find_connector ty [] cur = cur"
| "find_connector ty (None # cs) cur = find_connector ty cs None"
| "find_connector ty (Some c # cs) cur =
    (if modes c = [] then find_connector ty cs (Some c)
     else if connector_type c = ty then Some c
     else find_connector ty cs None)"

definition getConnector :: "drm_hw \<Rightarrow> nat \<Rightarrow> drm_connector option" where
  "getConnector hw ty = (case resources hw of None \<Rightarrow> None | Some cs \<Rightarrow> find_connector ty cs None)"

definition hdmi_connector_of :: "drm_consts \<Rightarrow> drm_hw \<Rightarrow> drm_connector option" where
  "hdmi_connector_of K hw =
    (if \<not> VPG_DRM K then getConnector hw (CONNECTOR_DVID K)
     else case getConnector hw (CONNECTOR_HDMIA K) of None \<Rightarrow> getConnector hw (CONNECTOR_HDMIB K) | Some c \<Rightarrow> Some c)"

definition getHdmiConnector :: "drm_consts \<Rightarrow> drm_hw \<Rightarrow> drmContext \<Rightarrow> drm_connector option \<times> drmContext" where
  "getHdmiConnector K hw cxt =
    (let cxt = (if hdmiConnector cxt = None then cxt\<lparr>hdmiConnector := hdmi_connector_of K hw\<rparr> else cxt) in
     (case hdmiConnector cxt of None \<Rightarrow> None | Some c \<Rightarrow> if modes c = [] then None else Some c, cxt))"

subsection \<open>The preferred mode\<close>

definition drm_is_preferred_flags :: "drm_consts \<Rightarrow> u32 \<Rightarrow> bool" where
  "drm_is_preferred_flags K flags \<longleftrightarrow> VPG_DRM K \<or> flags AND FLAG_PAR16_9 K \<noteq> 0 \<and> flags AND FLAG_INTERLACE K = 0"

record mode_scan =
  index_preferred :: int
  index_720P :: int
  index_1080P :: int
  index_max :: int
  max_h :: nat
  max_v :: nat

definition has_size :: "nat \<Rightarrow> nat \<Rightarrow> drm_mode \<Rightarrow> bool" where
  "has_size w h m \<longleftrightarrow> hdisplay m = w \<and> vdisplay m = h \<and> vrefresh m = PREFERRED_VREFRESH"

definition better :: "drm_consts \<Rightarrow> int \<Rightarrow> int \<Rightarrow> drm_mode \<Rightarrow> int" where
  "better K old i m = (if old = - 1 \<or> drm_is_preferred_flags K (mode_flags m) then i else old)"

definition scan_mode :: "drm_consts \<Rightarrow> int \<Rightarrow> drm_mode \<Rightarrow> mode_scan \<Rightarrow> mode_scan" where
  "scan_mode K i m s =
    (let s = (if has_size 1280 720 m then s\<lparr>index_720P := better K (index_720P s) i m\<rparr> else s);
         s = (if has_size 1920 1080 m then s\<lparr>index_1080P := better K (index_1080P s) i m\<rparr> else s) in
     if hdisplay m > max_h s \<and> vdisplay m > max_v s \<and> vrefresh m = PREFERRED_VREFRESH
     then s\<lparr>max_h := hdisplay m, max_v := vdisplay m, index_max := i\<rparr>
     else if has_size (max_h s) (max_v s) m \<and> drm_is_preferred_flags K (mode_flags m) then s\<lparr>index_max := i\<rparr>
     else s)"

fun scan_modes :: "drm_consts \<Rightarrow> int \<Rightarrow> drm_mode list \<Rightarrow> mode_scan \<Rightarrow> mode_scan" where
  "scan_modes K i [] s = s"
| "scan_modes K i (m # ms) s =
    (if mode_type m AND TYPE_PREFERRED K \<noteq> 0 then s\<lparr>index_preferred := i\<rparr> else scan_modes K (i + 1) ms (scan_mode K i m s))"

definition no_scan :: mode_scan where
  "no_scan = \<lparr>index_preferred = - 1, index_720P = - 1, index_1080P = - 1, index_max = - 1, max_h = 0, max_v = 0\<rparr>"

definition preferred_index :: "drm_consts \<Rightarrow> drm_mode list \<Rightarrow> int" where
  "preferred_index K ms =
    (let s = scan_modes K 0 ms no_scan in
     if index_preferred s \<noteq> - 1 \<and> vrefresh (ms ! nat (index_preferred s)) = PREFERRED_VREFRESH then index_preferred s
     else if index_1080P s \<noteq> - 1 then index_1080P s
     else if index_720P s \<noteq> - 1 then index_720P s
     else if index_max s \<noteq> - 1 then index_max s
     else 0)"

definition drm_select_preferredmode :: "drm_consts \<Rightarrow> drm_connector \<Rightarrow> drmContext \<Rightarrow> drmContext" where
  "drm_select_preferredmode K c cxt = cxt\<lparr>preferredModeIndex := preferred_index K (modes c)\<rparr>"

subsection \<open>Initialization and connection\<close>

definition clearHdmiTimings :: "drmContext \<Rightarrow> drmContext" where
  "clearHdmiTimings cxt = cxt\<lparr>selectedModeIndex := - 1, hdmiTimings := []\<rparr>"

definition drm_init :: "drm_consts \<Rightarrow> drm_hw \<Rightarrow> drmContext \<Rightarrow> bool \<times> drmContext" where
  "drm_init K hw cxt =
    (let cxt = cxt\<lparr>connected := False, preferredModeIndex := - 1, selectedModeIndex := - 1, hdmiConnector := None, drmFD := drm_opens hw\<rparr> in
     if \<not> drm_opens hw then (False, cxt)
     else (True, cxt\<lparr>hdmiSupported := hdmi_connector_of K hw \<noteq> None\<rparr>))"

text \<open>The context as zeroed memory.\<close>

definition drm_cleanup :: "drmContext \<Rightarrow> drmContext" where
  "drm_cleanup cxt = \<lparr>drmFD = False, hdmiSupported = False, connected = False, preferredModeIndex = 0, selectedModeIndex = 0,
     hdmiTimings = [], hdmiConnector = None\<rparr>"

definition drm_hdmi_onHdmiDisconnected :: "drmContext \<Rightarrow> drmContext" where
  "drm_hdmi_onHdmiDisconnected cxt = (clearHdmiTimings cxt)\<lparr>connected := False, hdmiConnector := None\<rparr>"

text \<open>The driver is told, and its result is whether that succeeded; \<open>ioctl\<close> is what the driver returns.\<close>

definition drm_hdmi_notify_audio_hotplug :: "drm_consts \<Rightarrow> (bool \<Rightarrow> int) \<Rightarrow> bool \<Rightarrow> bool" where
  "drm_hdmi_notify_audio_hotplug K ioctl plugin \<longleftrightarrow> VPG_DRM K \<or> ioctl plugin = 0"

text \<open>The search for the vendor block in the extension of the EDID; \<open>None\<close> is a read behind the data.\<close>

definition byte_at :: "buffer \<Rightarrow> nat \<Rightarrow> byte option" where
  "byte_at b n = (if n < length b then Some (b ! n) else None)"

fun find_vsdb :: "buffer \<Rightarrow> nat list \<Rightarrow> bool option" where
  "find_vsdb b [] = Some False"
| "find_vsdb b (n # ns) =
    do { x \<leftarrow> byte_at b n;
         if x \<noteq> 0x03 then find_vsdb b ns
         else do { y \<leftarrow> byte_at b (n + 1);
                   if y \<noteq> 0x0C then find_vsdb b ns
                   else do { z \<leftarrow> byte_at b (n + 2); if z \<noteq> 0 then find_vsdb b ns else Some True } } }"

text \<open>The loop over the properties: 0 is no display, 1 HDMI, 2 DVI.\<close>

fun scan_props :: "drm_consts \<Rightarrow> drm_connector \<Rightarrow> (string option \<times> buffer option) option list \<Rightarrow> drmContext \<Rightarrow> (int \<times> drmContext) option" where
  "scan_props K c [] cxt = Some (0, cxt)"
| "scan_props K c (None # ps) cxt = scan_props K c ps cxt"
| "scan_props K c (Some (nm, blob) # ps) cxt =
    (if nm \<noteq> Some ''EDID'' then scan_props K c ps cxt
     else case blob of None \<Rightarrow> Some (0, cxt)
       | Some edid \<Rightarrow>
         if length edid < HDMI_TIMING_MAX then Some (0, cxt)
         else let cxt = drm_select_preferredmode K c (cxt\<lparr>connected := True\<rparr>) in
           if edid ! 126 = 0 then Some (2, cxt)
           else do { found \<leftarrow> find_vsdb edid [HDMI_TIMING_MAX..<254]; Some (if found then 1 else 2, cxt) })"

definition drm_hdmi_getConnectionStatus :: "drm_consts \<Rightarrow> drm_hw \<Rightarrow> drmContext \<Rightarrow> (int \<times> drmContext) option" where
  "drm_hdmi_getConnectionStatus K hw cxt =
    (if \<not> hdmiSupported cxt then Some (0, cxt)
     else let (con, cxt) = getHdmiConnector K hw (cxt\<lparr>hdmiConnector := None, connected := False\<rparr>) in
       case con of None \<Rightarrow> Some (0, cxt)
       | Some c \<Rightarrow>
         if \<not> VPG_DRM K then scan_props K c (props c) cxt
         else if mode_connected c then Some (1, drm_select_preferredmode K c (cxt\<lparr>connected := True\<rparr>))
         else Some (0, cxt))"

subsection \<open>Timings\<close>

definition same_flag :: "u32 \<Rightarrow> u32 \<Rightarrow> u32 \<Rightarrow> bool" where
  "same_flag k a b \<longleftrightarrow> a AND k = b AND k"

definition is_ratio :: "nat \<Rightarrow> u32 \<Rightarrow> bool" where
  "is_ratio r a \<longleftrightarrow> int r = uint a"

text \<open>A mode that is already in the list. With \<open>VPG_DRM\<close> the ratio of the list, which is 0, 1 or 2, is compared with the constant
  of the library.\<close>

definition duplicate :: "drm_consts \<Rightarrow> drm_mode \<Rightarrow> MDSHdmiTiming \<Rightarrow> bool" where
  "duplicate K m t \<longleftrightarrow> width t = hdisplay m \<and> height t = vdisplay m \<and> refresh t = vrefresh m \<and>
    (if \<not> VPG_DRM K then same_flag (FLAG_INTERLACE K) (tflags t) (mode_flags m) \<and> same_flag (FLAG_PAR16_9 K) (tflags t) (mode_flags m) \<and>
       same_flag (FLAG_PAR4_3 K) (tflags t) (mode_flags m)
     else tflags t = mode_flags m \<and> is_ratio (ratio t) (picture_aspect_ratio m))"

definition timing_of :: "drm_consts \<Rightarrow> drm_mode \<Rightarrow> MDSHdmiTiming" where
  "timing_of K m = \<lparr>width = hdisplay m, height = vdisplay m, refresh = vrefresh m,
     interlace = (if mode_flags m AND FLAG_INTERLACE K \<noteq> 0 then 1 else 0),
     ratio = (if \<not> VPG_DRM K then (if mode_flags m AND FLAG_PAR16_9 K \<noteq> 0 then 2 else if mode_flags m AND FLAG_PAR4_3 K \<noteq> 0 then 1 else 0)
              else if picture_aspect_ratio m = ASPECT_16_9 K then 2 else if picture_aspect_ratio m = ASPECT_4_3 K then 1 else 0),
     tflags = mode_flags m\<rparr>"

fun add_modes :: "drm_consts \<Rightarrow> drm_mode list \<Rightarrow> MDSHdmiTiming list \<Rightarrow> MDSHdmiTiming list" where
  "add_modes K [] ts = ts"
| "add_modes K (m # ms) ts = add_modes K ms (if list_ex (duplicate K m) ts then ts else ts @ [timing_of K m])"

definition parseHdmiTimings :: "drm_consts \<Rightarrow> drm_hw \<Rightarrow> drmContext \<Rightarrow> nat \<times> drmContext" where
  "parseHdmiTimings K hw cxt =
    (let (con, cxt) = getHdmiConnector K hw cxt in
     case con of None \<Rightarrow> (0, cxt)
     | Some c \<Rightarrow>
       if length (modes c) > HDMI_TIMING_MAX then (0, cxt\<lparr>hdmiConnector := None\<rparr>)
       else let ts = add_modes K (modes c) (hdmiTimings cxt) in
         (length ts - length (hdmiTimings cxt), cxt\<lparr>hdmiTimings := ts\<rparr>))"

definition drm_hdmi_getTimingNumber :: "drm_consts \<Rightarrow> drm_hw \<Rightarrow> drmContext \<Rightarrow> nat \<times> drmContext" where
  "drm_hdmi_getTimingNumber K hw cxt =
    (if \<not> hdmiSupported cxt \<or> \<not> connected cxt then (0, cxt)
     else if hdmiTimings cxt \<noteq> [] then (length (hdmiTimings cxt), cxt)
     else parseHdmiTimings K hw cxt)"

text \<open>The timings that are stored to the caller's list, \<open>None\<close> for a failure.\<close>

definition drm_hdmi_getTimings :: "drm_consts \<Rightarrow> drm_hw \<Rightarrow> int \<Rightarrow> drmContext \<Rightarrow> MDSHdmiTiming list option \<times> drmContext" where
  "drm_hdmi_getTimings K hw n cxt =
    (if \<not> hdmiSupported cxt \<or> \<not> connected cxt \<or> n \<le> 0 then (None, cxt)
     else let (validCnt, cxt) = (if hdmiTimings cxt \<noteq> [] then (length (hdmiTimings cxt), cxt) else parseHdmiTimings K hw cxt) in
       (Some (take (min validCnt (nat n)) (hdmiTimings cxt)), cxt))"

definition matches :: "MDSHdmiTiming \<Rightarrow> MDSHdmiTiming \<Rightarrow> bool" where
  "matches t bak \<longleftrightarrow> width t = width bak \<and> height t = height bak \<and> refresh t = refresh bak \<and> interlace t = interlace bak \<and> ratio t = ratio bak"

fun find_timing :: "MDSHdmiTiming \<Rightarrow> nat \<Rightarrow> MDSHdmiTiming list \<Rightarrow> (nat \<times> MDSHdmiTiming) option" where
  "find_timing t i [] = None"
| "find_timing t i (bak # ts) = (if matches t bak then Some (i, bak) else find_timing t (i + 1) ts)"

text \<open>The timing with its flags, \<open>None\<close> if it is not one of the list.\<close>

definition drm_hdmi_checkTiming :: "MDSHdmiTiming \<Rightarrow> drmContext \<Rightarrow> MDSHdmiTiming option \<times> drmContext" where
  "drm_hdmi_checkTiming t cxt =
    (if \<not> hdmiSupported cxt \<or> \<not> connected cxt then (None, cxt)
     else case find_timing t 0 (hdmiTimings cxt) of None \<Rightarrow> (None, cxt)
       | Some (i, bak) \<Rightarrow> (Some (t\<lparr>tflags := tflags bak\<rparr>), cxt\<lparr>selectedModeIndex := int i\<rparr>))"

definition drm_hdmi_timing_is_fixed :: "drmContext \<Rightarrow> bool" where
  "drm_hdmi_timing_is_fixed cxt \<longleftrightarrow> selectedModeIndex cxt \<ge> 0"

definition drm_hdmi_get_current_timing :: "drmContext \<Rightarrow> MDSHdmiTiming option" where
  "drm_hdmi_get_current_timing cxt =
    (let current = (if selectedModeIndex cxt \<ge> 0 then selectedModeIndex cxt else preferredModeIndex cxt) in
     if 0 \<le> current \<and> nat current < length (hdmiTimings cxt) then Some (hdmiTimings cxt ! nat current) else None)"

subsection \<open>The list of timings\<close>

text \<open>Two modes that count as the same timing, in either build.\<close>

definition same_mode :: "drm_consts \<Rightarrow> drm_mode \<Rightarrow> drm_mode \<Rightarrow> bool" where
  "same_mode K m m' \<longleftrightarrow> hdisplay m' = hdisplay m \<and> vdisplay m' = vdisplay m \<and> vrefresh m' = vrefresh m \<and>
    (if VPG_DRM K then mode_flags m' = mode_flags m \<and> picture_aspect_ratio m' = picture_aspect_ratio m
     else same_flag (FLAG_INTERLACE K) (mode_flags m') (mode_flags m) \<and> same_flag (FLAG_PAR16_9 K) (mode_flags m') (mode_flags m) \<and>
       same_flag (FLAG_PAR4_3 K) (mode_flags m') (mode_flags m))"

text \<open>The build with \<open>VPG_DRM\<close> relies on the library numbering 4:3 as 1 and 16:9 as 2, and on modes of no other aspect ratio.\<close>

definition ratio_ok :: "drm_consts \<Rightarrow> drm_mode \<Rightarrow> bool" where
  "ratio_ok K m \<longleftrightarrow> (VPG_DRM K \<longrightarrow> ASPECT_16_9 K = 2 \<and> ASPECT_4_3 K = 1 \<and> picture_aspect_ratio m \<in> {0, 1, 2})"

text \<open>The reference: the first mode of every kind, in their order.\<close>

fun first_modes :: "('a \<Rightarrow> 'a \<Rightarrow> bool) \<Rightarrow> 'a list \<Rightarrow> 'a list" where
  "first_modes eqv [] = []"
| "first_modes eqv (m # ms) = m # first_modes eqv (filter (\<lambda>x. \<not> eqv x m) ms)"

lemma is_ratio_word: "is_ratio (unat a) b \<longleftrightarrow> a = b"
  by (simp add: is_ratio_def word_uint_eq_iff)

lemma timing_ratio: "VPG_DRM K \<Longrightarrow> ratio_ok K m \<Longrightarrow> ratio (timing_of K m) = unat (picture_aspect_ratio m)"
  by (auto simp: ratio_ok_def timing_of_def)

lemma duplicate_timing_of: "ratio_ok K m' \<Longrightarrow> duplicate K m (timing_of K m') \<longleftrightarrow> same_mode K m m'"
proof (cases "VPG_DRM K")
  case True
  assume "ratio_ok K m'"
  from timing_ratio [OF True this] True show ?thesis
    by (simp add: duplicate_def same_mode_def is_ratio_word) (simp add: timing_of_def)
qed (simp add: duplicate_def timing_of_def same_mode_def)

lemma same_mode_trans: "same_mode K x y \<Longrightarrow> same_mode K y z \<Longrightarrow> same_mode K x z"
  by (auto simp: same_mode_def same_flag_def split: if_splits)

lemma same_mode_sym: "same_mode K x y \<longleftrightarrow> same_mode K y x"
  by (auto simp: same_mode_def same_flag_def split: if_splits)

lemma same_mode_refl [simp]: "same_mode K x x"
  by (simp add: same_mode_def same_flag_def)

lemma add_modes_eq:
  assumes "list_all (ratio_ok K) (seen @ ms)"
  shows "add_modes K ms (map (timing_of K) seen) =
    map (timing_of K) (seen @ first_modes (same_mode K) (filter (\<lambda>m. \<not> list_ex (same_mode K m) seen) ms))"
  using assms
proof (induction ms arbitrary: seen)
  case (Cons m ms)
  have ex: "list_ex (duplicate K m) (map (timing_of K) seen) \<longleftrightarrow> list_ex (same_mode K m) seen"
    using duplicate_timing_of Cons.prems by (auto simp: list_ex_iff list_all_iff)
  show ?case
  proof (cases "list_ex (same_mode K m) seen")
    case True
    with ex Cons.IH [of seen] Cons.prems show ?thesis by simp
  next
    case False
    have f: "filter (\<lambda>x. \<not> list_ex (same_mode K x) (seen @ [m])) ms =
        filter (\<lambda>x. \<not> same_mode K x m) (filter (\<lambda>x. \<not> list_ex (same_mode K x) seen) ms)"
      by (auto intro: filter_cong)
    from False ex Cons.IH [of "seen @ [m]", unfolded f] Cons.prems show ?thesis by simp
  qed
qed simp

lemma length_first_modes: "length (first_modes eqv ms) \<le> length ms"
proof (induction eqv ms rule: first_modes.induct)
  case (2 eqv m ms)
  show ?case using order.trans [OF 2 length_filter_le] by simp
qed simp

lemma set_first_modes: "set (first_modes eqv ms) \<subseteq> set ms"
  by (induction eqv ms rule: first_modes.induct) auto

text \<open>Each kind of mode is there once.\<close>

lemma first_modes_complete: "m \<in> set ms \<Longrightarrow> \<exists>x \<in> set (first_modes (same_mode K) ms). same_mode K m x"
proof (induction "same_mode K" ms rule: first_modes.induct)
  case (2 m' ms)
  then show ?case by (cases "same_mode K m m'") auto
qed simp

lemma first_modes_apart: "pairwise (\<lambda>x y. \<not> same_mode K x y) (set (first_modes (same_mode K) ms)) \<and> distinct (first_modes (same_mode K) ms)"
proof (induction "same_mode K" ms rule: first_modes.induct)
  case (2 m ms)
  let ?ms = "first_modes (same_mode K) (filter (\<lambda>x. \<not> same_mode K x m) ms)"
  have n: "\<not> same_mode K x m" "\<not> same_mode K m x" if "x \<in> set ?ms" for x
  proof -
    show "\<not> same_mode K x m" using subsetD [OF set_first_modes that] by simp
    then show "\<not> same_mode K m x" using same_mode_sym [of K m x] by blast
  qed
  have "m \<notin> set ?ms" using n(1) [of m] same_mode_refl [of K m] by blast
  moreover have "pairwise (\<lambda>x y. \<not> same_mode K x y) (insert m (set ?ms))"
    using 2 n unfolding pairwise_insert by blast
  ultimately show ?case using 2 by (simp only: first_modes.simps list.set distinct.simps simp_thms)
qed (simp add: pairwise_def)

text \<open>What the list is for a display whose connector has been read.\<close>

lemma timings_parsed:
  assumes "list_all (ratio_ok K) (modes c)" "hdmiSupported cxt" "connected cxt" "hdmiTimings cxt = []" "hdmiConnector cxt = Some c"
    and "modes c \<noteq> []" "length (modes c) \<le> 128"
  shows "drm_hdmi_getTimingNumber K hw cxt =
    (length (first_modes (same_mode K) (modes c)), cxt\<lparr>hdmiTimings := map (timing_of K) (first_modes (same_mode K) (modes c))\<rparr>)"
  using assms add_modes_eq [of K "[]" "modes c"]
  by (simp add: drm_hdmi_getTimingNumber_def parseHdmiTimings_def getHdmiConnector_def Let_def)

text \<open>In the build with \<open>VPG_DRM\<close> a mode of an aspect ratio other than these is listed again each time it is repeated.\<close>

lemma other_ratio_repeated:
  assumes "VPG_DRM K" "picture_aspect_ratio m \<notin> {0, ASPECT_16_9 K, ASPECT_4_3 K}"
  shows "add_modes K [m, m] [] = [timing_of K m, timing_of K m]"
proof -
  have "ratio (timing_of K m) = 0" using assms by (simp add: timing_of_def)
  then have "\<not> is_ratio (ratio (timing_of K m)) (picture_aspect_ratio m)" using assms(2) is_ratio_word [of 0 "picture_aspect_ratio m"] by auto
  then show ?thesis using assms(1) by (simp add: duplicate_def)
qed

text \<open>C32: The list of timings is the list of modes of the display without repetitions. For a connected display whose connector is known
  and has at least one and at most 128 modes, and while the list is still empty, \<open>drm_hdmi_getTimingNumber\<close> fills it with the first mode
  of every kind in the order of the modes and returns their number: every mode has exactly one entry of its kind. In the build without
  \<open>VPG_DRM\<close> two modes are of one kind if size, refresh rate, interlacing and the two flags of the aspect ratio agree. In the build with
  \<open>VPG_DRM\<close> they are if size, refresh rate, all flags and the aspect ratio agree, provided that the library numbers 4:3 as 1 and 16:9
  as 2 and that every mode has one of these two ratios or none; a mode of another ratio is listed each time it is repeated.\<close>

theorem timing_list_is_first_modes:
  assumes "VPG_DRM K \<longrightarrow> ASPECT_16_9 K = 2 \<and> ASPECT_4_3 K = 1 \<and> (\<forall>m \<in> set (modes c). picture_aspect_ratio m \<in> {0, 1, 2})"
    and "hdmiSupported cxt" "connected cxt" "hdmiTimings cxt = []" "hdmiConnector cxt = Some c"
    and "modes c \<noteq> []" "length (modes c) \<le> 128"
  shows "\<exists>ms. drm_hdmi_getTimingNumber K hw cxt = (length ms, cxt\<lparr>hdmiTimings := map (timing_of K) ms\<rparr>) \<and>
    ms = first_modes (same_mode K) (modes c) \<and> distinct ms \<and>
    (\<forall>m \<in> set (modes c). \<exists>!x. x \<in> set ms \<and> same_mode K m x)"
proof (intro exI conjI)
  let ?ms = "first_modes (same_mode K) (modes c)"
  show "drm_hdmi_getTimingNumber K hw cxt = (length ?ms, cxt\<lparr>hdmiTimings := map (timing_of K) ?ms\<rparr>)"
    using assms by (intro timings_parsed) (auto simp: list_all_iff ratio_ok_def)
  have "x = y" if "x \<in> set ?ms" "y \<in> set ?ms" "same_mode K m x" "same_mode K m y" for m x y
    using that first_modes_apart [of K "modes c"] same_mode_trans [of K x m y] same_mode_sym [of K x m] by (auto simp: pairwise_def)
  then show "\<forall>m \<in> set (modes c). \<exists>!x. x \<in> set ?ms \<and> same_mode K m x" using first_modes_complete by blast
qed (use first_modes_apart in auto)

subsection \<open>The current timing\<close>

definition index_ok :: "int \<Rightarrow> int \<Rightarrow> bool" where
  "index_ok n i \<longleftrightarrow> i = - 1 \<or> 0 \<le> i \<and> i < n"

definition scan_ok :: "int \<Rightarrow> mode_scan \<Rightarrow> bool" where
  "scan_ok n s \<longleftrightarrow> index_ok n (index_preferred s) \<and> index_ok n (index_720P s) \<and> index_ok n (index_1080P s) \<and> index_ok n (index_max s)"

lemma index_ok_Suc: "index_ok i k \<Longrightarrow> index_ok (i + 1) k" "0 \<le> i \<Longrightarrow> index_ok (i + 1) i"
  by (auto simp: index_ok_def)

lemma index_ok_better: "index_ok i k \<Longrightarrow> 0 \<le> i \<Longrightarrow> index_ok (i + 1) (better K k i m)"
  by (simp add: better_def index_ok_Suc)

lemma scan_mode_ok: "scan_ok i s \<Longrightarrow> 0 \<le> i \<Longrightarrow> scan_ok (i + 1) (scan_mode K i m s)"
  by (simp add: scan_ok_def scan_mode_def Let_def index_ok_Suc index_ok_better)

lemma scan_ok_mono: "scan_ok i s \<Longrightarrow> i \<le> j \<Longrightarrow> scan_ok j s"
  by (auto simp: scan_ok_def index_ok_def)

lemma scan_modes_ok: "scan_ok i s \<Longrightarrow> 0 \<le> i \<Longrightarrow> scan_ok (i + int (length ms)) (scan_modes K i ms s)"
proof (induction ms arbitrary: i s)
  case (Cons m ms)
  then show ?case using Cons.IH [OF scan_mode_ok [OF Cons.prems]] by (auto simp: scan_ok_def index_ok_def algebra_simps)
qed simp

lemma preferred_index_range:
  assumes "ms \<noteq> []"
  shows "0 \<le> preferred_index K ms \<and> nat (preferred_index K ms) < length ms"
proof -
  define s where "s = scan_modes K 0 ms no_scan"
  have "scan_ok 0 no_scan" by (simp add: scan_ok_def index_ok_def no_scan_def)
  from scan_modes_ok [OF this, of ms K] have ok: "scan_ok (int (length ms)) s" by (simp add: s_def)
  have "index_ok (int (length ms)) 0" using assms by (simp add: index_ok_def)
  then have "index_ok (int (length ms)) (preferred_index K ms)"
    using ok unfolding preferred_index_def s_def [symmetric] Let_def scan_ok_def by simp
  moreover have "preferred_index K ms \<noteq> - 1" unfolding preferred_index_def s_def [symmetric] Let_def by simp
  ultimately show ?thesis by (auto simp: index_ok_def)
qed

lemma take_filter_all: "\<forall>x \<in> set (take k xs). P x \<Longrightarrow> take k (filter P xs) = take k xs"
proof (induction xs arbitrary: k)
  case (Cons x xs)
  then show ?case by (cases k) auto
qed simp

lemma take_first_modes:
  assumes "sorted_wrt (\<lambda>x y. \<not> same_mode K x y) (take k ms)"
  shows "take k (first_modes (same_mode K) ms) = take k ms"
  using assms
proof (induction "same_mode K" ms arbitrary: k rule: first_modes.induct)
  case (2 m ms)
  show ?case
  proof (cases k)
    case (Suc j)
    have "\<forall>x \<in> set (take j ms). \<not> same_mode K x m"
      using 2(2) Suc same_mode_sym [of K m] by simp
    then have f: "take j (filter (\<lambda>x. \<not> same_mode K x m) ms) = take j ms" by (rule take_filter_all)
    then have "sorted_wrt (\<lambda>x y. \<not> same_mode K x y) (take j (filter (\<lambda>x. \<not> same_mode K x m) ms))" using 2(2) Suc by simp
    from 2(1) [OF this] f Suc show ?thesis by simp
  qed simp
qed simp

text \<open>The current timing, as long as the user has not chosen one. When no two modes of the display up to the preferred one are of one
  kind, \<open>drm_hdmi_get_current_timing\<close> gives the preferred mode once the list of timings has been filled. The condition is
  needed: the preferred mode is an index into the modes of the connector and is used as an index into the list without
  repetitions.\<close>

theorem current_timing_is_preferred:
  assumes "list_all (ratio_ok K) (modes c)" "hdmiSupported cxt" "connected cxt" "hdmiTimings cxt = []" "hdmiConnector cxt = Some c"
    and "modes c \<noteq> []" "length (modes c) \<le> 128"
    and p: "preferredModeIndex cxt = preferred_index K (modes c)" "selectedModeIndex cxt = - 1"
    and "sorted_wrt (\<lambda>x y. \<not> same_mode K x y) (take (Suc (nat (preferred_index K (modes c)))) (modes c))"
  shows "drm_hdmi_get_current_timing (snd (drm_hdmi_getTimingNumber K hw cxt)) =
    Some (timing_of K (modes c ! nat (preferred_index K (modes c))))"
proof -
  let ?p = "nat (preferred_index K (modes c))" let ?fs = "first_modes (same_mode K) (modes c)"
  have r: "0 \<le> preferred_index K (modes c)" "?p < length (modes c)" using preferred_index_range [OF assms(6)] by auto
  have t: "take (Suc ?p) ?fs = take (Suc ?p) (modes c)" by (rule take_first_modes [OF assms(10)])
  then have "?p < length ?fs" using r(2) by (metis Suc_leI length_take lessI min.absorb2 min.cobounded1 order.strict_trans2)
  moreover have "?fs ! ?p = modes c ! ?p" using t by (metis lessI nth_take)
  ultimately show ?thesis
    unfolding timings_parsed [OF assms(1-7)] using p r(1) by (simp add: drm_hdmi_get_current_timing_def)
qed

subsection \<open>Samples\<close>

definition sample_consts :: drm_consts where
  "sample_consts = \<lparr>VPG_DRM = False, FLAG_INTERLACE = 0x10, FLAG_PAR16_9 = 0x80000, FLAG_PAR4_3 = 0x40000, TYPE_PREFERRED = 8,
     ASPECT_16_9 = 2, ASPECT_4_3 = 1, CONNECTOR_DVID = 3, CONNECTOR_HDMIA = 11, CONNECTOR_HDMIB = 12\<rparr>"

definition plain_mode :: "nat \<Rightarrow> nat \<Rightarrow> u32 \<Rightarrow> drm_mode" where
  "plain_mode w h ty = \<lparr>hdisplay = w, vdisplay = h, vrefresh = 60, mode_flags = 0, mode_type = ty, picture_aspect_ratio = 0\<rparr>"

definition sample_display :: "drm_mode list \<Rightarrow> drm_connector" where
  "sample_display ms = \<lparr>connector_type = 3, modes = ms, mode_connected = True, props = []\<rparr>"

definition sample_hw :: "drm_mode list \<Rightarrow> drm_hw" where
  "sample_hw ms = \<lparr>drm_opens = True, resources = Some [Some (sample_display ms)]\<rparr>"

definition sample_context :: "drm_mode list \<Rightarrow> drmContext" where
  "sample_context ms = \<lparr>drmFD = True, hdmiSupported = True, connected = True, preferredModeIndex = preferred_index sample_consts ms,
     selectedModeIndex = - 1, hdmiTimings = [], hdmiConnector = Some (sample_display ms)\<rparr>"

definition repeated_modes :: "drm_mode list" where
  "repeated_modes = [plain_mode 640 480 0, plain_mode 640 480 0, plain_mode 1280 720 8]"

lemmas drm_samples = sample_consts_def plain_mode_def sample_display_def sample_hw_def sample_context_def

theorem timing_list_is_first_modes_witness:
  "fst (drm_hdmi_getTimingNumber sample_consts (sample_hw repeated_modes) (sample_context repeated_modes)) = 2 \<and>
   fst (drm_hdmi_getTimingNumber (sample_consts\<lparr>VPG_DRM := True\<rparr>) (sample_hw repeated_modes) (sample_context repeated_modes)) = 2"
  using timing_list_is_first_modes [of sample_consts "sample_display repeated_modes" "sample_context repeated_modes" "sample_hw repeated_modes"]
    timing_list_is_first_modes [of "sample_consts\<lparr>VPG_DRM := True\<rparr>" "sample_display repeated_modes" "sample_context repeated_modes"
      "sample_hw repeated_modes"]
  by (simp add: drm_samples repeated_modes_def same_mode_def same_flag_def)

theorem current_timing_is_preferred_witness:
  "let ms = [plain_mode 640 480 0, plain_mode 1280 720 8] in
   drm_hdmi_get_current_timing (snd (drm_hdmi_getTimingNumber sample_consts (sample_hw ms) (sample_context ms))) =
     Some (timing_of sample_consts (plain_mode 1280 720 8))"
proof -
  let ?ms = "[plain_mode 640 480 0, plain_mode 1280 720 8]"
  have p: "preferred_index sample_consts ?ms = 1"
    by (simp add: preferred_index_def no_scan_def scan_mode_def has_size_def better_def drm_samples Let_def)
  have "drm_hdmi_get_current_timing (snd (drm_hdmi_getTimingNumber sample_consts (sample_hw ?ms) (sample_context ?ms))) =
     Some (timing_of sample_consts (modes (sample_display ?ms) ! nat (preferred_index sample_consts (modes (sample_display ?ms)))))"
    by (rule current_timing_is_preferred)
      (simp_all add: sample_display_def sample_context_def p, simp_all add: drm_samples same_mode_def ratio_ok_def)
  then show ?thesis by (simp add: sample_display_def p)
qed

text \<open>With a repeated mode before the preferred one, the preferred mode of the display is not found in the list.\<close>

lemma current_timing_lost:
  "drm_hdmi_get_current_timing (snd (drm_hdmi_getTimingNumber sample_consts (sample_hw repeated_modes) (sample_context repeated_modes))) = None"
proof -
  have "preferred_index sample_consts repeated_modes = 2"
    by (simp add: preferred_index_def no_scan_def scan_mode_def has_size_def better_def drm_samples repeated_modes_def Let_def)
  then show ?thesis
    by (subst timings_parsed [where c = "sample_display repeated_modes"])
      (simp_all add: sample_context_def sample_display_def drm_hdmi_get_current_timing_def,
       simp_all add: drm_samples repeated_modes_def same_mode_def same_flag_def ratio_ok_def)
qed

end
