(* ===== verification/Mds_Composer.thy ===== *)
theory Mds_Composer
  imports Drm_Hdmi
begin

text \<open>
  The multi-display service, \<open>libmultidisplay/native/MultiDisplayComposer.cpp\<close>: the mode of the displays, the video sessions, the
  listeners that are told of changes, and the control of the HDMI output. The hardware composer behind the callback and the
  surface composer are not part of the repository: they are functions from the arguments of a call to its result. Calls that
  leave the service are collected in \<open>events\<close>. Every operation holds the lock of the object for its whole duration, so that
  operations follow one another. Log messages are not modelled.
\<close>

unbundle bit_operations_syntax

subsection \<open>Types and constants\<close>

text \<open>The results of Android's \<open>status_t\<close>.\<close>

abbreviation (input) "NO_ERROR \<equiv> 0 :: int"
abbreviation (input) "UNKNOWN_ERROR \<equiv> - 2147483648 :: int"
abbreviation (input) "BAD_VALUE \<equiv> - 22 :: int"
abbreviation (input) "NO_INIT \<equiv> - 19 :: int"

definition MDS_DVI_CONNECTED :: u32 where "MDS_DVI_CONNECTED = 1"
definition MDS_HDMI_CONNECTED :: u32 where "MDS_HDMI_CONNECTED = 2"
definition MDS_WIDI_ON :: u32 where "MDS_WIDI_ON = 4"
definition MDS_VIDEO_ON :: u32 where "MDS_VIDEO_ON = 8"
definition MDS_VPP_CHANGED :: u32 where "MDS_VPP_CHANGED = 16"

definition MDS_MSG_MODE_CHANGE :: u32 where "MDS_MSG_MODE_CHANGE = 2"

abbreviation (input) "MDS_VIDEO_STATE_UNKNOWN \<equiv> 0 :: int"
abbreviation (input) "MDS_VIDEO_PREPARING \<equiv> 1 :: int"
abbreviation (input) "MDS_VIDEO_PREPARED \<equiv> 2 :: int"
abbreviation (input) "MDS_VIDEO_UNPREPARING \<equiv> 3 :: int"
abbreviation (input) "MDS_VIDEO_UNPREPARED \<equiv> 4 :: int"

abbreviation (input) "MDS_VIDEO_SESSION_MAX_VALUE \<equiv> 16 :: int"
abbreviation (input) "MDS_LISTENER_MAX_VALUE \<equiv> 64 :: int"

definition overscan_max :: int where "overscan_max = 5"

datatype MDS_DISPLAY_ID = MDS_DISPLAY_PRIMARY | MDS_DISPLAY_EXTERNAL | MDS_DISPLAY_VIRTUAL

record MDSVideoSourceInfo =
  frameRate :: int
  displayW :: int
  displayH :: int
  isInterlaced :: bool
  isProtected :: bool

record decoder_config =
  dcWidth :: int
  dcHeight :: int
  dcOffX :: int
  dcOffY :: int
  dcBufWidth :: int
  dcBufHeight :: int

record video_session =
  mState :: int
  mInfo :: MDSVideoSourceInfo
  mInfoValid :: bool
  mDecoderConfig :: decoder_config
  mDecoderConfigValid :: bool

record mds_listener =
  mMsg :: u32
  mName :: string

text \<open>The functions of a callback, by what they return.\<close>

record mds_callback =
  cb_updateVideoState :: "int \<Rightarrow> int \<Rightarrow> int"
  cb_setHdmiTiming :: "MDSHdmiTiming \<Rightarrow> int"
  cb_blankSecondaryDisplay :: "bool \<Rightarrow> int"
  cb_setHdmiScalingType :: "u32 \<Rightarrow> int"
  cb_setHdmiOverscan :: "int \<Rightarrow> int \<Rightarrow> int"
  cb_updateInputState :: "bool \<Rightarrow> int"

datatype mds_event =
    To_listener int u32
  | Video_state int int
  | Hdmi_timing MDSHdmiTiming
  | Blank bool
  | Scaling_type u32
  | Overscan int int
  | Input_state bool
  | Surface_scaling u32
  | Audio_hotplug bool

text \<open>The listeners are sorted by their numbers, as in a \<open>KeyedVector\<close>.\<close>

record composer =
  mDrmInit :: bool
  mMode :: u32
  mHorizontalStep :: u32
  mVerticalStep :: u32
  mDisplayId :: MDS_DISPLAY_ID
  mScaleType :: u32
  mListenerId :: int
  mSurfaceComposer :: "(u32 \<Rightarrow> int) option"
  mMDSCallback :: "mds_callback option"
  mListeners :: "(int \<times> mds_listener) list"
  mVideos :: "video_session list"
  gDrmCxt :: drmContext
  events :: "mds_event list"

text \<open>The constants of the display library, the service that is found under the name of the surface composer, and the setting of the
  video post-processor.\<close>

record mds_env =
  drm_K :: drm_consts
  surface_flinger :: "(u32 \<Rightarrow> int) option"
  vpp_setting :: u32

subsection \<open>Video sessions\<close>

definition no_info :: MDSVideoSourceInfo where
  "no_info = \<lparr>frameRate = 0, displayW = 0, displayH = 0, isInterlaced = False, isProtected = False\<rparr>"

definition session_init :: "video_session \<Rightarrow> video_session" where
  "session_init v = v\<lparr>mState := MDS_VIDEO_UNPREPARED, mInfo := no_info, mInfoValid := False, mDecoderConfigValid := False\<rparr>"

definition setState :: "int \<Rightarrow> video_session \<Rightarrow> int \<times> video_session" where
  "setState s v = (if s < MDS_VIDEO_PREPARING \<or> s > MDS_VIDEO_UNPREPARED then (UNKNOWN_ERROR, v) else (NO_ERROR, v\<lparr>mState := s\<rparr>))"

definition getInfo :: "video_session \<Rightarrow> int \<times> MDSVideoSourceInfo option" where
  "getInfo v = (if \<not> mInfoValid v then (UNKNOWN_ERROR, None) else (NO_ERROR, Some (mInfo v)))"

definition setInfo :: "MDSVideoSourceInfo \<Rightarrow> video_session \<Rightarrow> int \<times> video_session" where
  "setInfo info v = (NO_ERROR, v\<lparr>mInfo := info, mInfoValid := True\<rparr>)"

definition session_setDecoder :: "decoder_config \<Rightarrow> video_session \<Rightarrow> int \<times> video_session" where
  "session_setDecoder dc v =
    (if mState v < MDS_VIDEO_PREPARING \<or> mState v > MDS_VIDEO_UNPREPARED then (UNKNOWN_ERROR, v)
     else (NO_ERROR, v\<lparr>mDecoderConfigValid := True, mDecoderConfig := dc\<rparr>))"

definition session_getDecoder :: "video_session \<Rightarrow> decoder_config option" where
  "session_getDecoder v =
    (if mState v < MDS_VIDEO_PREPARING \<or> mState v > MDS_VIDEO_UNPREPARED \<or> \<not> mDecoderConfigValid v then None
     else Some (mDecoderConfig v))"

definition valid_session :: "int \<Rightarrow> bool" where
  "valid_session sessionId \<longleftrightarrow> \<not> (sessionId < 0 \<or> sessionId \<ge> MDS_VIDEO_SESSION_MAX_VALUE)"

definition getVideoSessionSize_l :: "composer \<Rightarrow> int" where
  "getVideoSessionSize_l st = int (length (filter (\<lambda>v. mState v \<noteq> MDS_VIDEO_UNPREPARED) (mVideos st)))"

definition hasVideoPlaying_l :: "composer \<Rightarrow> bool" where
  "hasVideoPlaying_l st \<longleftrightarrow> length (filter (\<lambda>v. mState v = MDS_VIDEO_PREPARED) (mVideos st)) \<ge> 1"

definition initVideoSessions_l :: "composer \<Rightarrow> composer" where
  "initVideoSessions_l st = st\<lparr>mVideos := map session_init (mVideos st)\<rparr>"

text \<open>The first number from \<open>i\<close> on whose session satisfies a condition.\<close>

fun first_session :: "(video_session \<Rightarrow> bool) \<Rightarrow> int \<Rightarrow> video_session list \<Rightarrow> int" where
  "first_session P i [] = - 1"
| "first_session P i (v # vs) = (if P v then i else first_session P (i + 1) vs)"

definition allocateVideoSessionId :: "composer \<Rightarrow> int" where
  "allocateVideoSessionId st = first_session (\<lambda>v. mState v = MDS_VIDEO_UNPREPARED) 0 (mVideos st)"

subsection \<open>Listeners\<close>

definition checkMsg :: "u32 \<Rightarrow> mds_listener \<Rightarrow> bool" where
  "checkMsg msg l \<longleftrightarrow> msg AND mMsg l \<noteq> 0"

definition is_video_driver :: "mds_listener \<Rightarrow> bool" where
  "is_video_driver l \<longleftrightarrow> mName l = ''VideoDriver''"

definition broadcastMessageLocked :: "u32 \<Rightarrow> u32 \<Rightarrow> bool \<Rightarrow> composer \<Rightarrow> composer" where
  "broadcastMessageLocked msg val ignoreVideoDriver st =
    st\<lparr>events := events st @ map (\<lambda>(k, l). To_listener k val)
      (filter (\<lambda>(k, l). \<not> (ignoreVideoDriver \<and> is_video_driver l) \<and> checkMsg msg l) (mListeners st))\<rparr>"

text \<open>The smallest number that no listener has, or the maximum if there is none.\<close>

definition next_id :: "(int \<times> mds_listener) list \<Rightarrow> int" where
  "next_id ls = (case find (\<lambda>i. i \<notin> fst ` set ls) (map int [0..<64]) of Some i \<Rightarrow> i | None \<Rightarrow> MDS_LISTENER_MAX_VALUE)"

text \<open>A listener or its name may be null. The result is the number of the listener, or \<open>-1\<close>.\<close>

definition registerListener :: "bool \<Rightarrow> string option \<Rightarrow> u32 \<Rightarrow> composer \<Rightarrow> int \<times> composer" where
  "registerListener has_listener nm msg st =
    (case nm of None \<Rightarrow> (- 1, st)
     | Some client \<Rightarrow>
       if msg = 0 \<or> \<not> has_listener then (- 1, st)
       else if int (length (mListeners st)) \<ge> MDS_LISTENER_MAX_VALUE \<or> mListenerId st \<ge> MDS_LISTENER_MAX_VALUE then (- 1, st)
       else let newId = mListenerId st in
         if newId \<in> fst ` set (mListeners st) then (- 1, st)
         else let ls = insort_key fst (newId, \<lparr>mMsg = msg, mName = client\<rparr>) (mListeners st) in
           (newId, st\<lparr>mListeners := ls,
              mListenerId := (if newId + 1 \<ge> MDS_LISTENER_MAX_VALUE then next_id ls else newId + 1)\<rparr>))"

definition unregisterListener :: "int \<Rightarrow> composer \<Rightarrow> int \<times> composer" where
  "unregisterListener listenerId st =
    (if listenerId < 0 then (BAD_VALUE, st)
     else (NO_ERROR, st\<lparr>mListeners := filter (\<lambda>(k, l). k \<noteq> listenerId) (mListeners st)\<rparr>))"

subsection \<open>Connection of displays\<close>

definition emit :: "mds_event \<Rightarrow> composer \<Rightarrow> composer" where
  "emit e st = st\<lparr>events := events st @ [e]\<rparr>"

definition set_mode :: "u32 \<Rightarrow> bool \<Rightarrow> composer \<Rightarrow> composer" where
  "set_mode k on st = st\<lparr>mMode := (if on then mMode st OR k else mMode st AND NOT k)\<rparr>"

definition setDisplayScalingLocked :: "mds_env \<Rightarrow> u32 \<Rightarrow> u32 \<Rightarrow> u32 \<Rightarrow> composer \<Rightarrow> int \<times> composer" where
  "setDisplayScalingLocked env mode stepx stepy st =
    (let st = (if mSurfaceComposer st = None then st\<lparr>mSurfaceComposer := surface_flinger env\<rparr> else st) in
     case mSurfaceComposer st of None \<Rightarrow> (UNKNOWN_ERROR, st)
     | Some transact \<Rightarrow>
       let scale = mode OR push_bit 16 stepx OR push_bit 24 stepy in (transact scale, emit (Surface_scaling scale) st))"

text \<open>The result of \<open>drm_hdmi_getConnectionStatus\<close>, \<open>hw\<close> being the displays at that moment.\<close>

definition updateHdmiConnectStatusLocked :: "mds_env \<Rightarrow> drm_hw \<Rightarrow> composer \<Rightarrow> (int \<times> composer) option" where
  "updateHdmiConnectStatusLocked env hw st =
    (if \<not> mDrmInit st then Some (NO_INIT, st)
     else do { (connectStatus, cxt) \<leftarrow> drm_hdmi_getConnectionStatus (drm_K env) hw (gDrmCxt st);
               let st = st\<lparr>gDrmCxt := cxt\<rparr>;
               Some (NO_ERROR,
                 if connectStatus = 1 then set_mode MDS_HDMI_CONNECTED True st
                 else if connectStatus = 2 then set_mode MDS_DVI_CONNECTED True st
                 else (set_mode (MDS_HDMI_CONNECTED OR MDS_DVI_CONNECTED) False st)\<lparr>gDrmCxt := drm_hdmi_onHdmiDisconnected cxt\<rparr>) })"

text \<open>The constructor. The memory of the sessions is \<open>garbage\<close> until they are initialized, which does not happen when the
  display driver cannot be opened.\<close>

definition MultiDisplayComposer :: "mds_env \<Rightarrow> drm_hw \<Rightarrow> drmContext \<Rightarrow> video_session list \<Rightarrow> composer option" where
  "MultiDisplayComposer env hw cxt garbage =
    (let st = \<lparr>mDrmInit = False, mMode = 0, mHorizontalStep = 0, mVerticalStep = 0, mDisplayId = MDS_DISPLAY_PRIMARY, mScaleType = 0,
           mListenerId = 0, mSurfaceComposer = None, mMDSCallback = None, mListeners = [], mVideos = garbage, gDrmCxt = cxt, events = []\<rparr>;
         (ok, cxt) = drm_init (drm_K env) hw cxt;
         st = st\<lparr>gDrmCxt := cxt\<rparr> in
     if \<not> ok then Some st
     else map_option snd (updateHdmiConnectStatusLocked env hw (initVideoSessions_l (st\<lparr>mDrmInit := True\<rparr>))))"

text \<open>The destructor.\<close>

definition destroy :: "composer \<Rightarrow> composer" where
  "destroy st = st\<lparr>gDrmCxt := drm_cleanup (gDrmCxt st), mListeners := [], mSurfaceComposer := None, mMDSCallback := None\<rparr>"

definition registerCallback :: "mds_env \<Rightarrow> drm_hw \<Rightarrow> mds_callback option \<Rightarrow> composer \<Rightarrow> (int \<times> composer) option" where
  "registerCallback env hw cbk st =
    (case cbk of None \<Rightarrow> Some (BAD_VALUE, st)
     | Some c \<Rightarrow> do { (_, st) \<leftarrow> updateHdmiConnectStatusLocked env hw (st\<lparr>mMDSCallback := Some c\<rparr>); Some (NO_ERROR, st) })"

definition unregisterCallback :: "composer \<Rightarrow> int \<times> composer" where
  "unregisterCallback st = (NO_ERROR, st\<lparr>mMDSCallback := None\<rparr>)"

text \<open>The end of \<open>notifyHotplugLocked\<close>: the scaling and the overscan compensation are reset.\<close>

definition reset_scaling :: "mds_env \<Rightarrow> composer \<Rightarrow> composer" where
  "reset_scaling env st =
    (let scaled = mScaleType st \<noteq> 0; stepped = mHorizontalStep st \<noteq> 0 \<or> mVerticalStep st \<noteq> 0;
         (result, st) =
           (case mMDSCallback st of None \<Rightarrow> (UNKNOWN_ERROR, st)
            | Some c \<Rightarrow>
              let (result, st) = (if scaled then (cb_setHdmiScalingType c 0, emit (Scaling_type 0) st) else (UNKNOWN_ERROR, st)) in
              if result = NO_ERROR \<and> stepped then (cb_setHdmiOverscan c 0 0, emit (Overscan 0 0) st) else (result, st));
         (result, st) = (if result \<noteq> NO_ERROR \<and> (scaled \<or> stepped) then setDisplayScalingLocked env 0 0 0 st else (result, st)) in
     if result = NO_ERROR then st\<lparr>mScaleType := 0, mHorizontalStep := 0, mVerticalStep := 0\<rparr> else st)"

text \<open>The result of the notification is not looked at.\<close>

definition notify_audio :: "mds_env \<Rightarrow> bool \<Rightarrow> composer \<Rightarrow> composer" where
  "notify_audio env con st = (if VPG_DRM (drm_K env) then st else emit (Audio_hotplug con) st)"

definition notifyHotplugLocked :: "mds_env \<Rightarrow> drm_hw \<Rightarrow> MDS_DISPLAY_ID \<Rightarrow> bool \<Rightarrow> composer \<Rightarrow> (int \<times> composer) option" where
  "notifyHotplugLocked env hw dispId con st =
    (let mode = mMode st in
     if dispId = MDS_DISPLAY_VIRTUAL then
       let st = set_mode MDS_WIDI_ON con st in
       Some (NO_ERROR, broadcastMessageLocked MDS_MSG_MODE_CHANGE (mMode st) False st)
     else do { (_, st) \<leftarrow> updateHdmiConnectStatusLocked env hw (set_mode MDS_VIDEO_ON (hasVideoPlaying_l st) st);
               let st = (if mode \<noteq> mMode st
                         then notify_audio env con (broadcastMessageLocked MDS_MSG_MODE_CHANGE (mMode st) False st) else st);
               Some (NO_ERROR, reset_scaling env st) })"

definition updateHdmiConnectionStatus :: "mds_env \<Rightarrow> drm_hw \<Rightarrow> bool \<Rightarrow> composer \<Rightarrow> (int \<times> composer) option" where
  "updateHdmiConnectionStatus env hw con = notifyHotplugLocked env hw MDS_DISPLAY_EXTERNAL con"

definition updateWidiConnectionStatus :: "mds_env \<Rightarrow> drm_hw \<Rightarrow> bool \<Rightarrow> composer \<Rightarrow> (int \<times> composer) option" where
  "updateWidiConnectionStatus env hw con = notifyHotplugLocked env hw MDS_DISPLAY_VIRTUAL con"

subsection \<open>Video playback\<close>

definition updateVideoState :: "int \<Rightarrow> int \<Rightarrow> composer \<Rightarrow> int \<times> composer" where
  "updateVideoState sessionId state st =
    (if \<not> valid_session sessionId then (UNKNOWN_ERROR, st)
     else let i = nat sessionId; v = mVideos st ! i in
       if mState v = state then (NO_ERROR, st)
       else let (r, v) = setState state v in
         if r \<noteq> NO_ERROR then (UNKNOWN_ERROR, st)
         else let v = (if state \<ge> MDS_VIDEO_UNPREPARED then session_init v else v);
                  ignoreVideoDriver = (state \<ge> MDS_VIDEO_UNPREPARED);
                  mode = mMode st;
                  st = st\<lparr>mVideos := (mVideos st)[i := v]\<rparr>;
                  st = set_mode MDS_VIDEO_ON (hasVideoPlaying_l st) st;
                  (result, st) = (case mMDSCallback st of None \<Rightarrow> (NO_ERROR, st)
                     | Some c \<Rightarrow> (cb_updateVideoState c sessionId state, emit (Video_state sessionId state) st)) in
           (result, if mode \<noteq> mMode st then broadcastMessageLocked MDS_MSG_MODE_CHANGE (mMode st) ignoreVideoDriver st else st))"

definition getVideoState :: "int \<Rightarrow> composer \<Rightarrow> int" where
  "getVideoState sessionId st = (if \<not> valid_session sessionId then MDS_VIDEO_STATE_UNKNOWN else mState (mVideos st ! nat sessionId))"

definition getVideoSessionNumber :: "composer \<Rightarrow> int" where
  "getVideoSessionNumber st = getVideoSessionSize_l st"

definition updateVideoSourceInfo :: "int \<Rightarrow> MDSVideoSourceInfo \<Rightarrow> composer \<Rightarrow> int \<times> composer" where
  "updateVideoSourceInfo sessionId info st =
    (if \<not> mDrmInit st then (NO_INIT, st)
     else if \<not> valid_session sessionId then (UNKNOWN_ERROR, st)
     else let (r, v) = setInfo info (mVideos st ! nat sessionId) in
       (if r \<noteq> NO_ERROR then UNKNOWN_ERROR else NO_ERROR, st\<lparr>mVideos := (mVideos st)[nat sessionId := v]\<rparr>))"

text \<open>The pointer to the result may be null.\<close>

definition getVideoSourceInfo :: "int \<Rightarrow> bool \<Rightarrow> composer \<Rightarrow> int \<times> MDSVideoSourceInfo option" where
  "getVideoSourceInfo sessionId has_info st =
    (if \<not> has_info then (BAD_VALUE, None)
     else if \<not> valid_session sessionId then (UNKNOWN_ERROR, None)
     else let v = mVideos st ! nat sessionId in
       if mState v \<noteq> MDS_VIDEO_PREPARED then (UNKNOWN_ERROR, None) else getInfo v)"

definition resetVideoPlayback :: "composer \<Rightarrow> int \<times> composer" where
  "resetVideoPlayback st =
    (if getVideoSessionSize_l st \<le> 0 then (NO_ERROR, st)
     else let st = initVideoSessions_l st;
              st = (if mMDSCallback st \<noteq> None then emit (Video_state (- 1) MDS_VIDEO_UNPREPARED) st else st);
              st = set_mode MDS_VIDEO_ON False st in
       (NO_ERROR, broadcastMessageLocked MDS_MSG_MODE_CHANGE (mMode st) False st))"

definition getValidDecoderConfigVideoSession_l :: "composer \<Rightarrow> int" where
  "getValidDecoderConfigVideoSession_l st = first_session (\<lambda>v. session_getDecoder v \<noteq> None) 0 (mVideos st)"

text \<open>The session that is asked for is ignored.\<close>

definition getDecoderOutputResolution :: "int \<Rightarrow> composer \<Rightarrow> int \<times> decoder_config option" where
  "getDecoderOutputResolution sessionId st =
    (let index = getValidDecoderConfigVideoSession_l st in
     if index < 0 \<or> \<not> valid_session index then (UNKNOWN_ERROR, None)
     else case session_getDecoder (mVideos st ! nat index) of None \<Rightarrow> (UNKNOWN_ERROR, None) | Some dc \<Rightarrow> (NO_ERROR, Some dc))"

definition setDecoderOutputResolution :: "int \<Rightarrow> decoder_config \<Rightarrow> composer \<Rightarrow> int \<times> composer" where
  "setDecoderOutputResolution sessionId dc st =
    (if \<not> valid_session sessionId then (UNKNOWN_ERROR, st)
     else let (r, v) = session_setDecoder dc (mVideos st ! nat sessionId) in (r, st\<lparr>mVideos := (mVideos st)[nat sessionId := v]\<rparr>))"

subsection \<open>The HDMI output\<close>

definition updatePhoneCallState :: "bool \<Rightarrow> composer \<Rightarrow> int \<times> composer" where
  "updatePhoneCallState blank st =
    (case mMDSCallback st of None \<Rightarrow> (NO_INIT, st) | Some c \<Rightarrow> (cb_blankSecondaryDisplay c blank, emit (Blank blank) st))"

definition updateInputState :: "bool \<Rightarrow> composer \<Rightarrow> int \<times> composer" where
  "updateInputState state st =
    (case mMDSCallback st of None \<Rightarrow> (NO_INIT, st) | Some c \<Rightarrow> (cb_updateInputState c state, emit (Input_state state) st))"

definition setHdmiTiming :: "MDSHdmiTiming \<Rightarrow> composer \<Rightarrow> int \<times> composer" where
  "setHdmiTiming timing st =
    (case mMDSCallback st of None \<Rightarrow> (NO_INIT, st)
     | Some c \<Rightarrow>
       let (real, cxt) = drm_hdmi_checkTiming timing (gDrmCxt st); st = st\<lparr>gDrmCxt := cxt\<rparr> in
       case real of None \<Rightarrow> (UNKNOWN_ERROR, st) | Some t \<Rightarrow> (cb_setHdmiTiming c t, emit (Hdmi_timing t) st))"

definition getHdmiTimingCount :: "mds_env \<Rightarrow> drm_hw \<Rightarrow> composer \<Rightarrow> nat \<times> composer" where
  "getHdmiTimingCount env hw st = (let (n, cxt) = drm_hdmi_getTimingNumber (drm_K env) hw (gDrmCxt st) in (n, st\<lparr>gDrmCxt := cxt\<rparr>))"

definition getHdmiTimingList :: "mds_env \<Rightarrow> drm_hw \<Rightarrow> int \<Rightarrow> composer \<Rightarrow> (int \<times> MDSHdmiTiming list) \<times> composer" where
  "getHdmiTimingList env hw n st =
    (let (ts, cxt) = drm_hdmi_getTimings (drm_K env) hw n (gDrmCxt st) in
     (case ts of None \<Rightarrow> (UNKNOWN_ERROR, []) | Some l \<Rightarrow> (NO_ERROR, l), st\<lparr>gDrmCxt := cxt\<rparr>))"

definition getCurrentHdmiTiming :: "bool \<Rightarrow> composer \<Rightarrow> int \<times> MDSHdmiTiming option" where
  "getCurrentHdmiTiming has_timing st =
    (if \<not> has_timing then (UNKNOWN_ERROR, None)
     else case drm_hdmi_get_current_timing (gDrmCxt st) of None \<Rightarrow> (UNKNOWN_ERROR, None) | Some t \<Rightarrow> (NO_ERROR, Some t))"

definition setHdmiTimingByIndex :: "int \<Rightarrow> composer \<Rightarrow> int" where
  "setHdmiTimingByIndex index st = UNKNOWN_ERROR"

definition getCurrentHdmiTimingIndex :: "composer \<Rightarrow> int" where
  "getCurrentHdmiTimingIndex st = - 1"

definition setHdmiScalingType :: "mds_env \<Rightarrow> u32 \<Rightarrow> composer \<Rightarrow> int \<times> composer" where
  "setHdmiScalingType env ty st =
    (let (result, st) = (case mMDSCallback st of None \<Rightarrow> (UNKNOWN_ERROR, st)
           | Some c \<Rightarrow> (cb_setHdmiScalingType c ty, emit (Scaling_type ty) st));
         (result, st) = (if result \<noteq> NO_ERROR then setDisplayScalingLocked env ty (mHorizontalStep st) (mVerticalStep st) st else (result, st)) in
     (result, if result = NO_ERROR then st\<lparr>mScaleType := ty\<rparr> else st))"

text \<open>The step for a value; a value so far below 0 that the C subtraction would overflow is not a case of its own.\<close>

definition overscan_step :: "int \<Rightarrow> int" where
  "overscan_step v = (if v > overscan_max then 0 else overscan_max - v)"

definition setHdmiOverscan :: "mds_env \<Rightarrow> int \<Rightarrow> int \<Rightarrow> composer \<Rightarrow> int \<times> composer" where
  "setHdmiOverscan env hVal vVal st =
    (let h = overscan_step hVal; v = overscan_step vVal;
         (result, st) = (case mMDSCallback st of None \<Rightarrow> (UNKNOWN_ERROR, st)
           | Some c \<Rightarrow> (cb_setHdmiOverscan c h v, emit (Overscan h v) st));
         (result, st) = (if result \<noteq> NO_ERROR then setDisplayScalingLocked env (mScaleType st) (word_of_int h) (word_of_int v) st else (result, st)) in
     (result, if result = NO_ERROR then st\<lparr>mHorizontalStep := word_of_int h, mVerticalStep := word_of_int v\<rparr> else st))"

text \<open>With \<open>wait\<close> off and the lock held by another operation, the mode is reported as empty.\<close>

definition getDisplayMode :: "bool \<Rightarrow> bool \<Rightarrow> composer \<Rightarrow> u32" where
  "getDisplayMode wait locked st = (if \<not> wait \<and> locked then 0 else mMode st)"

definition checkHdmiTimingIsFixed :: "composer \<Rightarrow> bool" where
  "checkHdmiTimingIsFixed st = drm_hdmi_timing_is_fixed (gDrmCxt st)"

definition setVppState_l :: "MDS_DISPLAY_ID \<Rightarrow> bool \<Rightarrow> int \<Rightarrow> composer \<Rightarrow> int \<times> composer" where
  "setVppState_l dpyId con status st =
    (if status = - 1 then
       (if dpyId \<noteq> MDS_DISPLAY_VIRTUAL then (UNKNOWN_ERROR, st)
        else (NO_ERROR, st\<lparr>mDisplayId := (if con then dpyId else MDS_DISPLAY_PRIMARY)\<rparr>))
     else let st = set_mode MDS_VPP_CHANGED True st;
              st = broadcastMessageLocked MDS_MSG_MODE_CHANGE (mMode st) False st in
       (NO_ERROR, set_mode MDS_VPP_CHANGED False st))"

definition setVppState :: "MDS_DISPLAY_ID \<Rightarrow> bool \<Rightarrow> int \<Rightarrow> composer \<Rightarrow> int \<times> composer" where
  "setVppState dpyId con status st = setVppState_l dpyId con status st"

definition getVppState :: "mds_env \<Rightarrow> composer \<Rightarrow> u32" where
  "getVppState env st = (if mDisplayId st \<noteq> MDS_DISPLAY_VIRTUAL then vpp_setting env else 0)"

subsection \<open>Sequences of operations\<close>

text \<open>The operations that change the state, and a call of one of them.\<close>

datatype mds_op =
    Register_callback drm_hw "mds_callback option"
  | Unregister_callback
  | Hdmi_connection drm_hw bool
  | Widi_connection drm_hw bool
  | Update_video_state int int
  | Update_source_info int MDSVideoSourceInfo
  | Reset_video
  | Set_decoder int decoder_config
  | Phone_call bool
  | Input bool
  | Set_timing MDSHdmiTiming
  | Timing_count drm_hw
  | Timing_list drm_hw int
  | Set_scaling u32
  | Set_overscan int int
  | Register_listener bool "string option" u32
  | Unregister_listener int
  | Set_vpp MDS_DISPLAY_ID bool int

fun mds_do :: "mds_env \<Rightarrow> mds_op \<Rightarrow> composer \<Rightarrow> composer option" where
  "mds_do env (Register_callback hw c) st = map_option snd (registerCallback env hw c st)"
| "mds_do env Unregister_callback st = Some (snd (unregisterCallback st))"
| "mds_do env (Hdmi_connection hw con) st = map_option snd (updateHdmiConnectionStatus env hw con st)"
| "mds_do env (Widi_connection hw con) st = map_option snd (updateWidiConnectionStatus env hw con st)"
| "mds_do env (Update_video_state i s) st = Some (snd (updateVideoState i s st))"
| "mds_do env (Update_source_info i info) st = Some (snd (updateVideoSourceInfo i info st))"
| "mds_do env Reset_video st = Some (snd (resetVideoPlayback st))"
| "mds_do env (Set_decoder i dc) st = Some (snd (setDecoderOutputResolution i dc st))"
| "mds_do env (Phone_call b) st = Some (snd (updatePhoneCallState b st))"
| "mds_do env (Input b) st = Some (snd (updateInputState b st))"
| "mds_do env (Set_timing t) st = Some (snd (setHdmiTiming t st))"
| "mds_do env (Timing_count hw) st = Some (snd (getHdmiTimingCount env hw st))"
| "mds_do env (Timing_list hw n) st = Some (snd (getHdmiTimingList env hw n st))"
| "mds_do env (Set_scaling ty) st = Some (snd (setHdmiScalingType env ty st))"
| "mds_do env (Set_overscan h v) st = Some (snd (setHdmiOverscan env h v st))"
| "mds_do env (Register_listener b nm msg) st = Some (snd (registerListener b nm msg st))"
| "mds_do env (Unregister_listener i) st = Some (snd (unregisterListener i st))"
| "mds_do env (Set_vpp d con s) st = Some (snd (setVppState d con s st))"

inductive mds_session :: "mds_env \<Rightarrow> composer \<Rightarrow> mds_op list \<Rightarrow> composer \<Rightarrow> bool" for env where
  idle: "mds_session env st [] st"
| call: "mds_do env op st = Some st1 \<Longrightarrow> mds_session env st1 ops st' \<Longrightarrow> mds_session env st (op # ops) st'"

inductive_simps mds_session_simps: "mds_session env st [] st'" "mds_session env st (op # ops) st'"

subsection \<open>What the helpers leave alone\<close>

lemma emit_fields [simp]:
  "mVideos (emit e st) = mVideos st" "mListeners (emit e st) = mListeners st" "mListenerId (emit e st) = mListenerId st"
  "mMode (emit e st) = mMode st" "events (emit e st) = events st @ [e]" "mDrmInit (emit e st) = mDrmInit st"
  by (simp_all add: emit_def)

lemma broadcast_fields [simp]:
  "mVideos (broadcastMessageLocked m v b st) = mVideos st" "mListeners (broadcastMessageLocked m v b st) = mListeners st"
  "mListenerId (broadcastMessageLocked m v b st) = mListenerId st" "mMode (broadcastMessageLocked m v b st) = mMode st"
  by (simp_all add: broadcastMessageLocked_def)

lemma set_mode_fields [simp]:
  "mVideos (set_mode k b st) = mVideos st" "mListeners (set_mode k b st) = mListeners st"
  "mListenerId (set_mode k b st) = mListenerId st" "events (set_mode k b st) = events st" "mDrmInit (set_mode k b st) = mDrmInit st"
  "mMode (set_mode k b st) = (if b then mMode st OR k else mMode st AND NOT k)"
  by (simp_all add: set_mode_def)

text \<open>The part of the state that the invariant is about.\<close>

definition core :: "composer \<Rightarrow> video_session list \<times> (int \<times> mds_listener) list \<times> int \<times> u32" where
  "core st = (mVideos st, mListeners st, mListenerId st, mMode st)"

lemma core_updates [simp]:
  "core (emit e st) = core st" "core (broadcastMessageLocked m v b st) = core st"
  "core (st\<lparr>mSurfaceComposer := x\<rparr>) = core st" "core (st\<lparr>mMDSCallback := c\<rparr>) = core st" "core (st\<lparr>gDrmCxt := d\<rparr>) = core st"
  "core (st\<lparr>mScaleType := t\<rparr>) = core st" "core (st\<lparr>mHorizontalStep := h\<rparr>) = core st" "core (st\<lparr>mVerticalStep := w\<rparr>) = core st"
  "core (st\<lparr>mDisplayId := i\<rparr>) = core st"
  by (simp_all add: core_def)

lemma core_setDisplayScalingLocked [simp]: "core (snd (setDisplayScalingLocked env m x y st)) = core st"
  by (simp add: setDisplayScalingLocked_def Let_def split: option.splits)

lemma core_reset_scaling [simp]: "core (reset_scaling env st) = core st"
proof -
  have p: "core (snd (if P then setDisplayScalingLocked env a b c s else (r, s))) = core s" for P a b c r s by simp
  show ?thesis
    unfolding reset_scaling_def Let_def case_prod_beta by (simp split: option.split)
qed

lemma core_scaling [simp]: "core (snd (setHdmiScalingType env ty st)) = core st" "core (snd (setHdmiOverscan env h v st)) = core st"
  by (simp_all add: setHdmiScalingType_def setHdmiOverscan_def Let_def case_prod_beta split: option.split)

lemma core_callback_ops [simp]:
  "core (snd (updatePhoneCallState b st)) = core st" "core (snd (updateInputState b st)) = core st"
  "core (snd (setHdmiTiming t st)) = core st" "core (snd (getHdmiTimingCount env hw st)) = core st"
  "core (snd (getHdmiTimingList env hw n st)) = core st" "core (snd (unregisterCallback st)) = core st"
  by (simp_all add: updatePhoneCallState_def updateInputState_def setHdmiTiming_def getHdmiTimingCount_def getHdmiTimingList_def
      unregisterCallback_def Let_def case_prod_beta split: option.split)

subsection \<open>The invariant\<close>

lemma disjoint_bits: "(k :: u32) AND b = 0 \<Longrightarrow> (m OR k) AND b = m AND b" "k AND b = 0 \<Longrightarrow> (m AND NOT k) AND b = m AND b"
proof -
  assume k: "k AND b = 0"
  show "(m OR k) AND b = m AND b" using k by (simp add: bit.conj_disj_distrib2)
  have "m AND b = ((m AND k) OR (m AND NOT k)) AND b" by (simp flip: bit.conj_disj_distrib)
  also have "\<dots> = ((m AND k) AND b) OR ((m AND NOT k) AND b)" by (rule bit.conj_disj_distrib2)
  also have "(m AND k) AND b = 0" using k by (simp add: and.assoc)
  finally show "(m AND NOT k) AND b = m AND b" by simp
qed

lemma own_bit: "(k :: u32) \<noteq> 0 \<Longrightarrow> (m OR k) AND k \<noteq> 0" "(m AND NOT k) AND k = 0"
  by (simp add: bit.conj_disj_distrib2) (simp add: and.assoc)

lemmas mode_bits = MDS_DVI_CONNECTED_def MDS_HDMI_CONNECTED_def MDS_WIDI_ON_def MDS_VIDEO_ON_def MDS_VPP_CHANGED_def

text \<open>The mode says that a video is on exactly when a session is playing, and never keeps the notice of the video post-processor.\<close>

definition mode_ok :: "video_session list \<Rightarrow> u32 \<Rightarrow> bool" where
  "mode_ok vs m \<longleftrightarrow> (m AND MDS_VIDEO_ON \<noteq> 0 \<longleftrightarrow> (\<exists>v \<in> set vs. mState v = MDS_VIDEO_PREPARED)) \<and> m AND MDS_VPP_CHANGED = 0"

definition sessions_ok :: "video_session list \<Rightarrow> bool" where
  "sessions_ok vs \<longleftrightarrow> length vs = 16 \<and> (\<forall>v \<in> set vs. MDS_VIDEO_PREPARING \<le> mState v \<and> mState v \<le> MDS_VIDEO_UNPREPARED)"

definition listeners_ok :: "(int \<times> mds_listener) list \<Rightarrow> int \<Rightarrow> bool" where
  "listeners_ok ls n \<longleftrightarrow> sorted (map fst ls) \<and> distinct (map fst ls) \<and> (\<forall>(k, l) \<in> set ls. 0 \<le> k \<and> k < MDS_LISTENER_MAX_VALUE \<and> mMsg l \<noteq> 0) \<and>
    0 \<le> n \<and> n \<le> MDS_LISTENER_MAX_VALUE"

definition mds_inv :: "composer \<Rightarrow> bool" where
  "mds_inv st \<longleftrightarrow> sessions_ok (mVideos st) \<and> mode_ok (mVideos st) (mMode st) \<and> listeners_ok (mListeners st) (mListenerId st)"

lemma mds_inv_core: "core st = core st' \<Longrightarrow> mds_inv st \<longleftrightarrow> mds_inv st'"
  by (simp add: core_def mds_inv_def)

lemma mds_inv_same: "mds_inv st \<Longrightarrow> core st' = core st \<Longrightarrow> mds_inv st'"
  using mds_inv_core by blast

lemma hasVideoPlaying_iff: "hasVideoPlaying_l st \<longleftrightarrow> (\<exists>v \<in> set (mVideos st). mState v = MDS_VIDEO_PREPARED)"
  by (auto simp: hasVideoPlaying_l_def Suc_le_eq filter_empty_conv)

lemma mode_ok_other: "mode_ok vs m \<Longrightarrow> k AND MDS_VIDEO_ON = 0 \<Longrightarrow> k AND MDS_VPP_CHANGED = 0 \<Longrightarrow> mode_ok vs (if b then m OR k else m AND NOT k)"
  by (simp add: mode_ok_def disjoint_bits)

lemma video_bit: "(if P then m OR MDS_VIDEO_ON else m AND NOT MDS_VIDEO_ON) AND MDS_VIDEO_ON \<noteq> 0 \<longleftrightarrow> P"
  "(if P then m OR MDS_VIDEO_ON else m AND NOT MDS_VIDEO_ON) AND MDS_VPP_CHANGED = m AND MDS_VPP_CHANGED"
  using own_bit(1) [of MDS_VIDEO_ON m] own_bit(2) [of m MDS_VIDEO_ON] disjoint_bits [of MDS_VIDEO_ON MDS_VPP_CHANGED m]
  by (simp_all add: mode_bits)

lemma mode_ok_video:
  "m AND MDS_VPP_CHANGED = 0 \<Longrightarrow> P \<longleftrightarrow> (\<exists>v \<in> set vs. mState v = MDS_VIDEO_PREPARED) \<Longrightarrow>
    mode_ok vs (if P then m OR MDS_VIDEO_ON else m AND NOT MDS_VIDEO_ON)"
  unfolding mode_ok_def video_bit by simp

lemma mds_inv_mode:
  assumes "mds_inv st" "mVideos st' = mVideos st" "mListeners st' = mListeners st" "mListenerId st' = mListenerId st" "mode_ok (mVideos st) (mMode st')"
  shows "mds_inv st'"
  using assms by (simp add: mds_inv_def)


lemma hdmi_status_fields:
  assumes "updateHdmiConnectStatusLocked env hw st = Some (r, st')"
  shows "mVideos st' = mVideos st" "mListeners st' = mListeners st" "mListenerId st' = mListenerId st" "events st' = events st"
  using assms by (auto simp: updateHdmiConnectStatusLocked_def Let_def split: if_splits Option.bind_splits)

lemma hdmi_status_modes:
  assumes "updateHdmiConnectStatusLocked env hw st = Some (r, st')"
  shows "mMode st' \<in> {mMode st, mMode st OR MDS_HDMI_CONNECTED, mMode st OR MDS_DVI_CONNECTED, mMode st AND NOT (MDS_HDMI_CONNECTED OR MDS_DVI_CONNECTED)}"
proof (cases "mDrmInit st")
  case True
  then obtain s :: int and cxt where "st' = (let st = st\<lparr>gDrmCxt := cxt\<rparr> in if s = 1 then set_mode MDS_HDMI_CONNECTED True st
      else if s = 2 then set_mode MDS_DVI_CONNECTED True st
      else (set_mode (MDS_HDMI_CONNECTED OR MDS_DVI_CONNECTED) False st)\<lparr>gDrmCxt := drm_hdmi_onHdmiDisconnected cxt\<rparr>)"
    using assms unfolding updateHdmiConnectStatusLocked_def Let_def by (auto split: Option.bind_splits)
  then show ?thesis by (simp add: Let_def)
qed (use assms in \<open>simp add: updateHdmiConnectStatusLocked_def\<close>)

lemma hdmi_status_mode:
  assumes "updateHdmiConnectStatusLocked env hw st = Some (r, st')"
  shows "\<exists>k b. mMode st' = (if b then mMode st OR k else mMode st AND NOT k) \<and> k AND MDS_VIDEO_ON = 0 \<and> k AND MDS_VPP_CHANGED = 0"
proof -
  have z: "k AND MDS_VIDEO_ON = 0 \<and> k AND MDS_VPP_CHANGED = 0"
    if "k \<in> {0, MDS_HDMI_CONNECTED, MDS_DVI_CONNECTED, MDS_HDMI_CONNECTED OR MDS_DVI_CONNECTED}" for k
    using that by (auto simp: mode_bits)
  show ?thesis
    using hdmi_status_modes [OF assms] z [of 0] z [of MDS_HDMI_CONNECTED] z [of MDS_DVI_CONNECTED]
      z [of "MDS_HDMI_CONNECTED OR MDS_DVI_CONNECTED"] by (smt (verit) insert_iff or.right_neutral singletonD)
qed

lemma hdmi_status_inv:
  assumes "updateHdmiConnectStatusLocked env hw st = Some (r, st')" "mds_inv st"
  shows "mds_inv st'"
proof -
  obtain k b where m: "mMode st' = (if b then mMode st OR k else mMode st AND NOT k)" and k: "k AND MDS_VIDEO_ON = 0" "k AND MDS_VPP_CHANGED = 0"
    using hdmi_status_mode [OF assms(1)] by blast
  have "mode_ok (mVideos st) (mMode st')" unfolding m by (rule mode_ok_other [OF _ k]) (use assms(2) in \<open>simp add: mds_inv_def\<close>)
  then show ?thesis using mds_inv_mode [OF assms(2)] hdmi_status_fields [OF assms(1)] by blast
qed

lemma video_on_inv: "mds_inv st \<Longrightarrow> mds_inv (set_mode MDS_VIDEO_ON (hasVideoPlaying_l st) st)"
  by (rule mds_inv_mode, assumption) (simp_all only: set_mode_fields, rule mode_ok_video, simp_all add: mds_inv_def mode_ok_def hasVideoPlaying_iff)

lemma hotplug_inv:
  assumes "notifyHotplugLocked env hw d con st = Some (r, st')" "mds_inv st"
  shows "mds_inv st'"
proof (cases "d = MDS_DISPLAY_VIRTUAL")
  case True
  have "mode_ok (mVideos st) (mMode (set_mode MDS_WIDI_ON con st))"
    using assms(2) unfolding set_mode_fields by (intro mode_ok_other) (simp_all add: mds_inv_def mode_bits)
  then have "mds_inv (set_mode MDS_WIDI_ON con st)" by (intro mds_inv_mode [OF assms(2)]) simp_all
  moreover have "core st' = core (set_mode MDS_WIDI_ON con st)" using assms(1) True by (auto simp: notifyHotplugLocked_def Let_def)
  ultimately show ?thesis using mds_inv_core by blast
next
  case False
  then obtain r1 st1 where 1: "updateHdmiConnectStatusLocked env hw (set_mode MDS_VIDEO_ON (hasVideoPlaying_l st) st) = Some (r1, st1)"
    and c: "core st' = core st1"
    using assms(1) by (auto simp: notifyHotplugLocked_def notify_audio_def Let_def split: Option.bind_splits if_splits)
  show ?thesis using hdmi_status_inv [OF 1 video_on_inv [OF assms(2)]] mds_inv_core [OF c] by simp
qed

lemma callback_inv: "registerCallback env hw c st = Some (r, st') \<Longrightarrow> mds_inv st \<Longrightarrow> mds_inv st'"
  using hdmi_status_inv mds_inv_core [of "st\<lparr>mMDSCallback := c\<rparr>" st]
  by (fastforce simp: registerCallback_def split: option.splits Option.bind_splits)


lemma setState_cases:
  "setState s v = (UNKNOWN_ERROR, v) \<or> setState s v = (NO_ERROR, v\<lparr>mState := s\<rparr>) \<and> MDS_VIDEO_PREPARING \<le> s \<and> s \<le> MDS_VIDEO_UNPREPARED"
  by (auto simp: setState_def)

lemma sessions_ok_update: "sessions_ok vs \<Longrightarrow> MDS_VIDEO_PREPARING \<le> mState v \<Longrightarrow> mState v \<le> MDS_VIDEO_UNPREPARED \<Longrightarrow> sessions_ok (vs[i := v])"
  using set_update_subset_insert [of vs i v] by (auto simp: sessions_ok_def)

text \<open>What a call of \<open>updateVideoState\<close> leaves in the fields of the invariant.\<close>

lemma updateVideoState_core:
  "core (snd (updateVideoState i s st)) = core st \<or>
    (\<exists>v. MDS_VIDEO_PREPARING \<le> mState v \<and> mState v \<le> MDS_VIDEO_UNPREPARED \<and>
      (let st1 = st\<lparr>mVideos := (mVideos st)[nat i := v]\<rparr> in core (snd (updateVideoState i s st)) = core (set_mode MDS_VIDEO_ON (hasVideoPlaying_l st1) st1)))"
proof (cases "valid_session i \<and> mState (mVideos st ! nat i) \<noteq> s \<and> MDS_VIDEO_PREPARING \<le> s \<and> s \<le> MDS_VIDEO_UNPREPARED")
  case True
  define v where "v = (if s \<ge> MDS_VIDEO_UNPREPARED then session_init ((mVideos st ! nat i)\<lparr>mState := s\<rparr>) else (mVideos st ! nat i)\<lparr>mState := s\<rparr>)"
  have "setState s (mVideos st ! nat i) = (NO_ERROR, (mVideos st ! nat i)\<lparr>mState := s\<rparr>)" using True by (simp add: setState_def)
  then show ?thesis
    using True by (intro disjI2 exI [of _ v])
      (auto simp: updateVideoState_def Let_def case_prod_beta v_def session_init_def split: option.split)
next
  case False
  then show ?thesis by (auto simp: updateVideoState_def setState_def Let_def)
qed

lemma updateVideoState_inv:
  assumes "mds_inv st"
  shows "mds_inv (snd (updateVideoState i s st))"
proof -
  have "mds_inv (set_mode MDS_VIDEO_ON (hasVideoPlaying_l st1) st1)"
    if "MDS_VIDEO_PREPARING \<le> mState v" "mState v \<le> MDS_VIDEO_UNPREPARED" "st1 = st\<lparr>mVideos := (mVideos st)[nat i := v]\<rparr>" for v st1
  proof -
    have "mode_ok (mVideos st1) (mMode (set_mode MDS_VIDEO_ON (hasVideoPlaying_l st1) st1))"
      unfolding set_mode_fields hasVideoPlaying_iff by (rule mode_ok_video [OF _ refl]) (use assms that(3) in \<open>simp add: mds_inv_def mode_ok_def\<close>)
    then show ?thesis using assms that by (simp add: mds_inv_def sessions_ok_update)
  qed
  then show ?thesis using updateVideoState_core [of i s st] assms unfolding Let_def by (metis mds_inv_core)
qed

lemma session_init_state [simp]: "mState (session_init v) = MDS_VIDEO_UNPREPARED"
  by (simp add: session_init_def)

lemma init_sessions_ok: "length vs = 16 \<Longrightarrow> sessions_ok (map session_init vs)"
  by (auto simp: sessions_ok_def)

lemma reset_inv:
  assumes "mds_inv st"
  shows "mds_inv (snd (resetVideoPlayback st))"
proof (cases "getVideoSessionSize_l st \<le> 0")
  case False
  let ?st = "set_mode MDS_VIDEO_ON False (initVideoSessions_l st)"
  have "mode_ok (mVideos ?st) (if False then mMode st OR MDS_VIDEO_ON else mMode st AND NOT MDS_VIDEO_ON)"
    using assms by (intro mode_ok_video) (auto simp: mds_inv_def mode_ok_def initVideoSessions_l_def)
  then have "mds_inv ?st" using assms by (simp add: mds_inv_def init_sessions_ok sessions_ok_def initVideoSessions_l_def)
  moreover have "core (snd (resetVideoPlayback st)) = core ?st"
    using False by (simp add: resetVideoPlayback_def Let_def core_def)
  ultimately show ?thesis using mds_inv_core by blast
qed (use assms in \<open>simp add: resetVideoPlayback_def\<close>)

lemma session_fields_inv:
  assumes "mds_inv st" "mState v = mState (mVideos st ! i)"
  shows "mds_inv (st\<lparr>mVideos := (mVideos st)[i := v]\<rparr>)"
proof (cases "i < length (mVideos st)")
  case True
  let ?vs = "(mVideos st)[i := v]"
  have m: "map mState ?vs = map mState (mVideos st)" using assms(2) True by (simp add: map_update list_update_same_conv)
  have i: "mState ` set ?vs = mState ` set (mVideos st)" using arg_cong [OF m, of set] by simp
  have q: "(\<exists>x \<in> S. mState x = n) \<longleftrightarrow> n \<in> mState ` S" "(\<forall>x \<in> S. a \<le> mState x \<and> mState x \<le> b) \<longleftrightarrow> mState ` S \<subseteq> {a..b}" for S n a b
    by auto
  have "mode_ok ?vs m = mode_ok (mVideos st) m" "sessions_ok ?vs = sessions_ok (mVideos st)" for m
    unfolding mode_ok_def sessions_ok_def q i by simp_all
  then show ?thesis using assms(1) by (simp add: mds_inv_def)
qed (use assms in \<open>simp add: mds_inv_def list_update_beyond\<close>)

lemma source_info_inv: "mds_inv st \<Longrightarrow> mds_inv (snd (updateVideoSourceInfo i info st))"
  by (simp add: updateVideoSourceInfo_def setInfo_def session_fields_inv)

lemma decoder_inv: "mds_inv st \<Longrightarrow> mds_inv (snd (setDecoderOutputResolution i dc st))"
  by (simp add: setDecoderOutputResolution_def session_setDecoder_def session_fields_inv)

lemma vpp_inv:
  assumes "mds_inv st"
  shows "mds_inv (snd (setVppState d con s st))"
proof -
  have b: "((m OR MDS_VPP_CHANGED) AND NOT MDS_VPP_CHANGED) AND MDS_VIDEO_ON = m AND MDS_VIDEO_ON"
    "((m OR MDS_VPP_CHANGED) AND NOT MDS_VPP_CHANGED) AND MDS_VPP_CHANGED = 0" for m
    using disjoint_bits [of MDS_VPP_CHANGED MDS_VIDEO_ON] own_bit(2) [of _ MDS_VPP_CHANGED] by (simp_all add: mode_bits)
  have "mds_inv (set_mode MDS_VPP_CHANGED False (set_mode MDS_VPP_CHANGED True st))"
    using assms by (simp add: mds_inv_def mode_ok_def b)
  then show ?thesis using assms by (auto simp: setVppState_def setVppState_l_def mds_inv_def Let_def split: if_splits)
qed


lemma next_id_range: "0 \<le> next_id ls" "next_id ls \<le> MDS_LISTENER_MAX_VALUE"
  by (auto simp: next_id_def find_Some_iff split: option.split)

lemma registerListener_cases:
  obtains (refused) "registerListener b nm msg st = (- 1, st)"
  | (added) client n where "nm = Some client" "msg \<noteq> 0" "mListenerId st < MDS_LISTENER_MAX_VALUE" "mListenerId st \<notin> fst ` set (mListeners st)"
    "registerListener b nm msg st =
      (mListenerId st, st\<lparr>mListeners := insort_key fst (mListenerId st, \<lparr>mMsg = msg, mName = client\<rparr>) (mListeners st), mListenerId := n\<rparr>)"
    "n = mListenerId st + 1 \<and> n < MDS_LISTENER_MAX_VALUE \<or>
      n = next_id (insort_key fst (mListenerId st, \<lparr>mMsg = msg, mName = client\<rparr>) (mListeners st))"
  by (fastforce simp: registerListener_def Let_def split: option.splits if_splits)

lemma register_inv:
  assumes "mds_inv st"
  shows "mds_inv (snd (registerListener b nm msg st))"
proof (cases rule: registerListener_cases [of b nm msg st])
  case (added client n)
  have "0 \<le> n" "n \<le> MDS_LISTENER_MAX_VALUE" using added(6) assms next_id_range by (auto simp: mds_inv_def listeners_ok_def)
  moreover have "distinct (map fst (insort_key fst x (mListeners st)))" if "x = (mListenerId st, l)" for x l
    using assms added(4) that distinct_insort_key [of "fst" x "mListeners st"] by (simp add: mds_inv_def listeners_ok_def)
  ultimately show ?thesis
    using assms added by (auto simp: mds_inv_def listeners_ok_def sorted_insort_key set_insort_key)
qed (use assms in simp)

lemma unregister_inv: "mds_inv st \<Longrightarrow> mds_inv (snd (unregisterListener i st))"
  by (auto simp: unregisterListener_def mds_inv_def listeners_ok_def sorted_filter distinct_map_filter)

lemma mds_do_inv:
  assumes "mds_do env op st = Some st'" "mds_inv st"
  shows "mds_inv st'"
proof (cases op)
  case (Register_callback hw c)
  then show ?thesis using assms callback_inv by fastforce
next
  case (Hdmi_connection hw con)
  then show ?thesis using assms hotplug_inv by (fastforce simp: updateHdmiConnectionStatus_def)
next
  case (Widi_connection hw con)
  then show ?thesis using assms hotplug_inv by (fastforce simp: updateWidiConnectionStatus_def)
qed (use assms in \<open>auto simp: updateVideoState_inv source_info_inv reset_inv decoder_inv register_inv unregister_inv vpp_inv
  intro: mds_inv_same\<close>)


lemma session_inv: "mds_session env st ops st' \<Longrightarrow> mds_inv st \<Longrightarrow> mds_inv st'"
  by (induction rule: mds_session.induct) (auto intro: mds_do_inv)

lemma constructor_inv:
  assumes "MultiDisplayComposer env hw cxt garbage = Some st" "drm_opens hw" "length garbage = 16"
  shows "mds_inv st"
proof -
  obtain st0 r where u: "updateHdmiConnectStatusLocked env hw (initVideoSessions_l st0) = Some (r, st)"
    and s: "mVideos st0 = garbage" "mMode st0 = 0" "mListeners st0 = []" "mListenerId st0 = 0"
    using assms(1,2) by (fastforce simp: MultiDisplayComposer_def drm_init_def Let_def)
  have "mds_inv (initVideoSessions_l st0)"
    using s assms(3) by (auto simp: mds_inv_def initVideoSessions_l_def init_sessions_ok mode_ok_def listeners_ok_def)
  then show ?thesis by (rule hdmi_status_inv [OF u])
qed

text \<open>C5: Once the display driver has been opened and the service constructed, every sequence of calls keeps its state consistent:
  there are 16 sessions, each in one of the four states; the mode has the bit of a playing video exactly when some session is
  playing, and the bit of the video post-processor is never left set; the listeners have distinct numbers from 0 to 63 in
  increasing order.\<close>

theorem service_stays_consistent:
  assumes "MultiDisplayComposer env hw cxt garbage = Some st0" "drm_opens hw" "length garbage = 16" "mds_session env st0 ops st"
  shows "length (mVideos st) = 16 \<and> (\<forall>v \<in> set (mVideos st). mState v \<in> {MDS_VIDEO_PREPARING..MDS_VIDEO_UNPREPARED}) \<and>
    (mMode st AND MDS_VIDEO_ON \<noteq> 0 \<longleftrightarrow> hasVideoPlaying_l st) \<and> mMode st AND MDS_VPP_CHANGED = 0 \<and>
    sorted_wrt (<) (map fst (mListeners st)) \<and> fst ` set (mListeners st) \<subseteq> {0..<MDS_LISTENER_MAX_VALUE}"
proof -
  have i: "mds_inv st" using session_inv [OF assms(4) constructor_inv [OF assms(1-3)]] .
  then show ?thesis
    by (auto simp: mds_inv_def sessions_ok_def mode_ok_def listeners_ok_def hasVideoPlaying_iff strict_sorted_iff)
qed

subsection \<open>Announcements\<close>

definition announces :: "composer \<Rightarrow> composer \<Rightarrow> bool \<Rightarrow> bool" where
  "announces st st' ignoreVideoDriver \<longleftrightarrow> (\<forall>(k, l) \<in> set (mListeners st).
    checkMsg MDS_MSG_MODE_CHANGE l \<longrightarrow> \<not> (ignoreVideoDriver \<and> is_video_driver l) \<longrightarrow>
    To_listener k (mMode st') \<in> set (drop (length (events st)) (events st')))"

lemma announces_broadcast:
  assumes "events st1 = events st @ es" "mListeners st1 = mListeners st"
    and "events st' = events (broadcastMessageLocked MDS_MSG_MODE_CHANGE (mMode st') b st1) @ es'"
  shows "announces st st' b"
  using assms by (auto simp: announces_def broadcastMessageLocked_def image_iff)

lemma setDisplayScaling_events: "\<exists>es. events (snd (setDisplayScalingLocked env m x y st)) = events st @ es"
  by (simp add: setDisplayScalingLocked_def Let_def split: option.split)

lemma reset_scaling_events: "\<exists>es. events (reset_scaling env st) = events st @ es"
proof -
  have *: "\<exists>es. events (snd (if P then setDisplayScalingLocked env 0 0 0 s else (r, s))) = events st @ es" if "events s = events st @ e" for P r s e
    using setDisplayScaling_events [of env 0 0 0 s] that by auto
  define p where "p = (case mMDSCallback st of None \<Rightarrow> (UNKNOWN_ERROR, st)
            | Some c \<Rightarrow>
              let (result, st') = (if mScaleType st \<noteq> 0 then (cb_setHdmiScalingType c 0, emit (Scaling_type 0) st) else (UNKNOWN_ERROR, st)) in
              if result = NO_ERROR \<and> (mHorizontalStep st \<noteq> 0 \<or> mVerticalStep st \<noteq> 0)
              then (cb_setHdmiOverscan c 0 0, emit (Overscan 0 0) st') else (result, st'))"
  have e: "\<exists>e. events (snd p) = events st @ e" by (auto simp: p_def split: option.split)
  have "\<exists>P r. events (reset_scaling env st) = events (snd (if P then setDisplayScalingLocked env 0 0 0 (snd p) else (r, snd p)))"
    unfolding reset_scaling_def Let_def case_prod_beta p_def by (auto simp: case_prod_beta)
  then show ?thesis using e * by metis
qed


lemma hotplug_announces:
  assumes "notifyHotplugLocked env hw d con st = Some (r, st')" "mMode st' \<noteq> mMode st"
  shows "announces st st' False"
proof (cases "d = MDS_DISPLAY_VIRTUAL")
  case True
  have "st' = broadcastMessageLocked MDS_MSG_MODE_CHANGE (mMode (set_mode MDS_WIDI_ON con st)) False (set_mode MDS_WIDI_ON con st)"
    using assms(1) True by (simp add: notifyHotplugLocked_def Let_def)
  then show ?thesis by (intro announces_broadcast [of "set_mode MDS_WIDI_ON con st" st "[]" st' False "[]"]) simp_all
next
  case False
  then obtain r1 st1 where 1: "updateHdmiConnectStatusLocked env hw (set_mode MDS_VIDEO_ON (hasVideoPlaying_l st) st) = Some (r1, st1)"
    and s: "st' = reset_scaling env (if mMode st \<noteq> mMode st1
        then notify_audio env con (broadcastMessageLocked MDS_MSG_MODE_CHANGE (mMode st1) False st1) else st1)"
    using assms(1) by (auto simp: notifyHotplugLocked_def Let_def split: Option.bind_splits)
  have m: "mMode (reset_scaling env x) = mMode x" for x using core_reset_scaling [of env x] by (simp add: core_def del: core_reset_scaling)
  have m1: "mMode st1 \<noteq> mMode st" "mMode st' = mMode st1" using assms(2) s by (auto simp: m notify_audio_def)
  let ?b = "broadcastMessageLocked MDS_MSG_MODE_CHANGE (mMode st1) False st1"
  obtain es where "events st' = events (notify_audio env con ?b) @ es" using s m1(1) reset_scaling_events by auto
  then have "\<exists>es. events st' = events ?b @ es" by (auto simp: notify_audio_def)
  then show ?thesis using announces_broadcast [of st1 st "[]"] hdmi_status_fields [OF 1] m1(2) by auto
qed

lemma updateVideoState_result:
  "snd (updateVideoState i s st) = st \<or>
   (\<exists>st2. (\<exists>es. events st2 = events st @ es) \<and> mListeners st2 = mListeners st \<and> snd (updateVideoState i s st) =
     (if mMode st \<noteq> mMode st2 then broadcastMessageLocked MDS_MSG_MODE_CHANGE (mMode st2) (s \<ge> MDS_VIDEO_UNPREPARED) st2 else st2))"
proof (cases "valid_session i \<and> mState (mVideos st ! nat i) \<noteq> s \<and> MDS_VIDEO_PREPARING \<le> s \<and> s \<le> MDS_VIDEO_UNPREPARED")
  case True
  define v where "v = (if s \<ge> MDS_VIDEO_UNPREPARED then session_init ((mVideos st ! nat i)\<lparr>mState := s\<rparr>) else (mVideos st ! nat i)\<lparr>mState := s\<rparr>)"
  define st1 where "st1 = (let st1 = st\<lparr>mVideos := (mVideos st)[nat i := v]\<rparr> in set_mode MDS_VIDEO_ON (hasVideoPlaying_l st1) st1)"
  define st2 where "st2 = (if mMDSCallback st1 = None then st1 else emit (Video_state i s) st1)"
  have f: "events st1 = events st" "mListeners st1 = mListeners st" by (simp_all add: st1_def Let_def)
  have "snd (updateVideoState i s st) =
     (if mMode st \<noteq> mMode st2 then broadcastMessageLocked MDS_MSG_MODE_CHANGE (mMode st2) (s \<ge> MDS_VIDEO_UNPREPARED) st2 else st2)"
    using True unfolding updateVideoState_def setState_def Let_def st2_def st1_def v_def by (simp split: option.split)
  moreover have "\<exists>es. events st2 = events st @ es" "mListeners st2 = mListeners st" using f by (simp_all add: st2_def)
  ultimately show ?thesis by blast
next
  case False
  then show ?thesis by (auto simp: updateVideoState_def setState_def Let_def)
qed

lemma video_state_announces:
  assumes "mMode (snd (updateVideoState i s st)) \<noteq> mMode st"
  shows "announces st (snd (updateVideoState i s st)) (s \<ge> MDS_VIDEO_UNPREPARED)"
proof -
  obtain st2 es where "events st2 = events st @ es" "mListeners st2 = mListeners st"
    "snd (updateVideoState i s st) = broadcastMessageLocked MDS_MSG_MODE_CHANGE (mMode st2) (s \<ge> MDS_VIDEO_UNPREPARED) st2"
    using updateVideoState_result [of i s st] assms by (metis (full_types))
  then show ?thesis by (intro announces_broadcast [of st2 st es _ _ "[]"]) simp_all
qed

lemma core_mode: "core st' = core st \<Longrightarrow> mMode st' = mMode st"
  by (simp add: core_def)

lemma quiet_modes:
  "mMode (snd (updatePhoneCallState b st)) = mMode st" "mMode (snd (updateInputState b st)) = mMode st"
  "mMode (snd (setHdmiTiming t st)) = mMode st" "mMode (snd (getHdmiTimingCount env hw st)) = mMode st"
  "mMode (snd (getHdmiTimingList env hw n st)) = mMode st" "mMode (snd (unregisterCallback st)) = mMode st"
  "mMode (snd (setHdmiScalingType env ty st)) = mMode st" "mMode (snd (setHdmiOverscan env h w st)) = mMode st"
  by (rule core_mode, simp)+

lemma session_listener_modes:
  "mMode (snd (updateVideoSourceInfo i info st)) = mMode st" "mMode (snd (setDecoderOutputResolution i dc st)) = mMode st"
  "mMode (snd (registerListener b nm msg st)) = mMode st" "mMode (snd (unregisterListener i st)) = mMode st"
  by (simp_all add: updateVideoSourceInfo_def setInfo_def setDecoderOutputResolution_def registerListener_def unregisterListener_def
      Let_def case_prod_beta split: option.split)

lemma reset_announces:
  assumes "mMode (snd (resetVideoPlayback st)) \<noteq> mMode st"
  shows "announces st (snd (resetVideoPlayback st)) False"
proof -
  define st1 where "st1 = (let st = initVideoSessions_l st; st = (if mMDSCallback st \<noteq> None then emit (Video_state (- 1) MDS_VIDEO_UNPREPARED) st else st) in
     set_mode MDS_VIDEO_ON False st)"
  have "snd (resetVideoPlayback st) = broadcastMessageLocked MDS_MSG_MODE_CHANGE (mMode st1) False st1"
    using assms unfolding resetVideoPlayback_def st1_def Let_def by (simp split: if_splits)
  moreover have "\<exists>es. events st1 = events st @ es" "mListeners st1 = mListeners st" by (simp_all add: st1_def initVideoSessions_l_def Let_def)
  ultimately show ?thesis using announces_broadcast [of st1 st _ "snd (resetVideoPlayback st)" False "[]"] by auto
qed

lemma vpp_mode: "mMode st AND MDS_VPP_CHANGED = 0 \<Longrightarrow> mMode (snd (setVppState d con s st)) = mMode st"
proof -
  assume z: "mMode st AND MDS_VPP_CHANGED = 0"
  have "mMode st AND NOT MDS_VPP_CHANGED = mMode st" 
    using bit.conj_disj_distrib [of "mMode st" MDS_VPP_CHANGED "NOT MDS_VPP_CHANGED"] z by simp
  then have "(mMode st OR MDS_VPP_CHANGED) AND NOT MDS_VPP_CHANGED = mMode st" by (simp add: bit.conj_disj_distrib2)
  then show ?thesis by (simp add: setVppState_def setVppState_l_def Let_def)
qed

text \<open>C20: Every call but \<open>registerCallback\<close> that changes the mode of the displays sends the new mode to every listener that asked for
  mode changes; when the call closes a video session, to every such listener but the video driver.\<close>

theorem mode_changes_are_announced:
  assumes "mds_do env op st = Some st'" "mMode st' \<noteq> mMode st" "mMode st AND MDS_VPP_CHANGED = 0" "\<forall>hw c. op \<noteq> Register_callback hw c"
  shows "announces st st' (\<exists>i s. op = Update_video_state i s \<and> s \<ge> MDS_VIDEO_UNPREPARED)"
proof (cases op)
  case (Hdmi_connection hw con)
  then show ?thesis using assms hotplug_announces by (fastforce simp: updateHdmiConnectionStatus_def)
next
  case (Widi_connection hw con)
  then show ?thesis using assms hotplug_announces by (fastforce simp: updateWidiConnectionStatus_def)
next
  case (Update_video_state i s)
  then show ?thesis using assms video_state_announces [of i s st] by auto
qed (use assms in \<open>auto simp: reset_announces vpp_mode quiet_modes session_listener_modes\<close>)

subsection \<open>The table of listeners\<close>

lemma map_of_insort: "fst x \<notin> fst ` set ls \<Longrightarrow> map_of (insort_key fst x ls) = (map_of ls)(fst x \<mapsto> snd x)"
  by (induction ls) (auto simp: fun_eq_iff)

lemma filter_all_other: "i \<notin> fst ` set ls \<Longrightarrow> filter (\<lambda>(k, l). k \<noteq> i) ls = ls"
  by (induction ls) auto

text \<open>A listener that is registered gets a number that no other listener has, the table then holds it under that number and is
  otherwise unchanged, and unregistering that number gives back the table as it was.\<close>

theorem listener_round_trip:
  assumes "registerListener b nm msg st = (i, st')" "i \<noteq> - 1"
  shows "map_of (mListeners st) i = None \<and> map_of (mListeners st') = (map_of (mListeners st))(i \<mapsto> \<lparr>mMsg = msg, mName = the nm\<rparr>) \<and>
    (0 \<le> i \<longrightarrow> mListeners (snd (unregisterListener i st')) = mListeners st)"
proof (cases rule: registerListener_cases [of b nm msg st])
  case (added client n)
  then have i: "i = mListenerId st" "i \<notin> fst ` set (mListeners st)" using assms(1) by auto
  have "filter (\<lambda>(k, l). k \<noteq> i) (insort_key fst (i, l) (mListeners st)) = mListeners st" for l
    using filter_insort_triv [of "\<lambda>(k, l). k \<noteq> i" "(i, l)" fst "mListeners st"] filter_all_other [OF i(2)] by simp
  then show ?thesis
    using added assms(1) i map_of_insort [of "(i, l)" "mListeners st" for l] by (auto simp: unregisterListener_def map_of_eq_None_iff)
qed (use assms in simp)

text \<open>The next number is only searched for when a registration has used the last one. When all 64 are in use then, the number stays
  at the maximum and no listener can be registered any more, whatever is unregistered later.\<close>

lemma stuck_step:
  assumes "mds_do env op st = Some st'" "mListenerId st = MDS_LISTENER_MAX_VALUE"
  shows "mListenerId st' = MDS_LISTENER_MAX_VALUE"
proof -
  have h: "updateHdmiConnectStatusLocked env hw s = Some (r, s') \<Longrightarrow> mListenerId s' = mListenerId s" for hw s r s' by (rule hdmi_status_fields)
  have c: "core s' = core s \<Longrightarrow> mListenerId s' = mListenerId s" for s s' by (simp add: core_def)
  have q: "mListenerId (reset_scaling env s) = mListenerId s" "mListenerId (snd (updatePhoneCallState x s)) = mListenerId s"
    "mListenerId (snd (updateInputState x s)) = mListenerId s" "mListenerId (snd (setHdmiTiming t s)) = mListenerId s"
    "mListenerId (snd (getHdmiTimingCount env hw s)) = mListenerId s" "mListenerId (snd (getHdmiTimingList env hw n s)) = mListenerId s"
    "mListenerId (snd (unregisterCallback s)) = mListenerId s" "mListenerId (snd (setHdmiScalingType env ty s)) = mListenerId s"
    "mListenerId (snd (setHdmiOverscan env i j s)) = mListenerId s" for s x t hw n ty i j by (rule c, simp)+
  have v: "mListenerId (snd (updateVideoState i s st)) = mListenerId st" for i s
    using updateVideoState_core [of i s st] by (auto simp: core_def Let_def)
  show ?thesis
    using assms v q by (cases op)
      (auto simp: registerCallback_def updateHdmiConnectionStatus_def updateWidiConnectionStatus_def notifyHotplugLocked_def notify_audio_def
        updateVideoSourceInfo_def setInfo_def setDecoderOutputResolution_def registerListener_def unregisterListener_def resetVideoPlayback_def
        initVideoSessions_l_def setVppState_def setVppState_l_def Let_def case_prod_beta
        split: if_splits option.splits Option.bind_splits dest!: h)
qed

lemma registration_stuck:
  "mds_session env st ops st' \<Longrightarrow> mListenerId st = MDS_LISTENER_MAX_VALUE \<Longrightarrow>
    mListenerId st' = MDS_LISTENER_MAX_VALUE \<and> registerListener b nm msg st' = (- 1, st')"
proof (induction rule: mds_session.induct)
  case (idle st)
  then show ?case by (simp add: registerListener_def split: option.split)
next
  case (call op st st1 ops st')
  then show ?case using stuck_step by blast
qed


definition first_numbers :: "nat \<Rightarrow> composer \<Rightarrow> bool" where
  "first_numbers k st \<longleftrightarrow> mListenerId st = int k \<and> fst ` set (mListeners st) = {0..<int k} \<and> length (mListeners st) = k"

lemma next_id_full: "{0..<MDS_LISTENER_MAX_VALUE} \<subseteq> fst ` set ls \<Longrightarrow> next_id ls = MDS_LISTENER_MAX_VALUE"
proof -
  assume "{0..<MDS_LISTENER_MAX_VALUE} \<subseteq> fst ` set ls"
  then have "find (\<lambda>i. i \<notin> fst ` set ls) (map int [0..<64]) = None"
    unfolding find_None_iff by (auto simp del: upt_rec_numeral)
  then show ?thesis by (simp only: next_id_def option.case)
qed

lemma first_numbers_step:
  assumes "first_numbers k st" "k < 64" "msg \<noteq> 0"
  shows "first_numbers (Suc k) (snd (registerListener True (Some nm) msg st))"
proof -
  let ?ls = "insort_key fst (int k, \<lparr>mMsg = msg, mName = nm\<rparr>) (mListeners st)"
  have f: "fst ` set ?ls = {0..<int (Suc k)}" using assms(1) by (auto simp: first_numbers_def set_insort_key)
  have r: "registerListener True (Some nm) msg st =
      (int k, st\<lparr>mListeners := ?ls, mListenerId := (if int k + 1 \<ge> MDS_LISTENER_MAX_VALUE then next_id ?ls else int k + 1)\<rparr>)"
    using assms unfolding registerListener_def first_numbers_def by (simp add: Let_def)
  have "next_id ?ls = int k + 1" if "int k + 1 \<ge> MDS_LISTENER_MAX_VALUE"
    using next_id_full [of ?ls] f that assms(2) by auto
  then show ?thesis using f assms(1) unfolding r by (simp add: first_numbers_def)
qed

lemma first_numbers_session:
  "mds_session env st (replicate n (Register_listener True (Some nm) msg) @ ops) st' \<Longrightarrow> first_numbers k st \<Longrightarrow> k + n \<le> 64 \<Longrightarrow> msg \<noteq> 0 \<Longrightarrow>
    \<exists>st1. first_numbers (k + n) st1 \<and> mds_session env st1 ops st'"
proof (induction n arbitrary: k st)
  case (Suc n)
  let ?st = "snd (registerListener True (Some nm) msg st)"
  have "mds_session env ?st (replicate n (Register_listener True (Some nm) msg) @ ops) st'" using Suc.prems(1) by (simp add: mds_session_simps)
  from Suc.IH [OF this first_numbers_step [OF Suc.prems(2)]] show ?case using Suc.prems(3,4) by simp
qed auto

text \<open>After 64 registrations with none given back, no listener can ever be registered again, even when all have been unregistered.\<close>

lemma listeners_run_out:
  assumes "mListeners st = []" "mListenerId st = 0" "msg \<noteq> 0"
    "mds_session env st (replicate 64 (Register_listener True (Some nm) msg) @ ops) st'"
  shows "registerListener b nm' msg' st' = (- 1, st')"
proof -
  have "first_numbers 0 st" using assms(1,2) by (simp add: first_numbers_def)
  then obtain st1 where "first_numbers 64 st1" "mds_session env st1 ops st'" using first_numbers_session [OF assms(4)] assms(3) by force
  then show ?thesis using registration_stuck by (simp add: first_numbers_def)
qed

subsection \<open>The allocation of sessions\<close>

lemma first_session_cases:
  "(first_session P i vs = - 1 \<and> (\<forall>v \<in> set vs. \<not> P v)) \<or>
   (\<exists>j < length vs. first_session P i vs = i + int j \<and> P (vs ! j) \<and> (\<forall>k < j. \<not> P (vs ! k)))"
proof (induction vs arbitrary: i)
  case (Cons v vs)
  show ?case
  proof (cases "P v")
    case False
    with Cons [of "i + 1"] show ?thesis
    proof (elim disjE exE conjE)
      fix j assume "j < length vs" "first_session P (i + 1) vs = i + 1 + int j" "P (vs ! j)" "\<forall>k < j. \<not> P (vs ! k)"
      then show ?thesis using False by (intro disjI2 exI [of _ "Suc j"]) (auto simp: nth_Cons split: nat.split)
    qed auto
  qed auto
qed simp

text \<open>The first free session is found, and there is one unless all 16 are in use.\<close>

lemma session_allocated:
  assumes "mds_inv st"
  shows "if getVideoSessionNumber st < MDS_VIDEO_SESSION_MAX_VALUE
    then valid_session (allocateVideoSessionId st) \<and> getVideoState (allocateVideoSessionId st) st = MDS_VIDEO_UNPREPARED
    else allocateVideoSessionId st = - 1"
proof -
  let ?P = "\<lambda>v. mState v = MDS_VIDEO_UNPREPARED"
  have l: "length (mVideos st) = 16" using assms by (simp add: mds_inv_def sessions_ok_def)
  have "length (filter ?P (mVideos st)) + length (filter (\<lambda>v. \<not> ?P v) (mVideos st)) = 16"
    using sum_length_filter_compl [of ?P "mVideos st"] l by simp
  then have "getVideoSessionNumber st < MDS_VIDEO_SESSION_MAX_VALUE \<longleftrightarrow> length (filter ?P (mVideos st)) > 0"
    unfolding getVideoSessionNumber_def getVideoSessionSize_l_def by linarith
  then have f: "getVideoSessionNumber st < MDS_VIDEO_SESSION_MAX_VALUE \<longleftrightarrow> (\<exists>v \<in> set (mVideos st). ?P v)"
    by (simp add: filter_empty_conv)
  consider "allocateVideoSessionId st = - 1" "\<forall>v \<in> set (mVideos st). \<not> ?P v"
    | j where "j < 16" "allocateVideoSessionId st = int j" "?P (mVideos st ! j)"
    using first_session_cases [of ?P 0 "mVideos st"] l unfolding allocateVideoSessionId_def by auto
  then show ?thesis
    using f l by cases (auto simp: getVideoState_def valid_session_def)
qed


subsection \<open>Samples\<close>

definition sample_env :: mds_env where
  "sample_env = \<lparr>drm_K = sample_consts, surface_flinger = None, vpp_setting = 0\<rparr>"

definition no_display :: drm_hw where
  "no_display = \<lparr>drm_opens = True, resources = None\<rparr>"

definition sample_video :: video_session where
  "sample_video = \<lparr>mState = 0, mInfo = no_info, mInfoValid = True,
     mDecoderConfig = \<lparr>dcWidth = 0, dcHeight = 0, dcOffX = 0, dcOffY = 0, dcBufWidth = 0, dcBufHeight = 0\<rparr>, mDecoderConfigValid = True\<rparr>"

definition sample_service :: composer where
  "sample_service = \<lparr>mDrmInit = True, mMode = 0, mHorizontalStep = 0, mVerticalStep = 0, mDisplayId = MDS_DISPLAY_PRIMARY, mScaleType = 0,
     mListenerId = 0, mSurfaceComposer = None, mMDSCallback = None, mListeners = [], mVideos = replicate 16 (session_init sample_video),
     gDrmCxt = (drm_cleanup (sample_context []))\<lparr>drmFD := True, preferredModeIndex := - 1, selectedModeIndex := - 1\<rparr>, events = []\<rparr>"

lemma sample_constructed:
  "MultiDisplayComposer sample_env no_display (drm_cleanup (sample_context [])) (replicate 16 sample_video) = Some sample_service"
  by (simp add: MultiDisplayComposer_def sample_service_def sample_env_def no_display_def drm_init_def hdmi_connector_of_def getConnector_def
      drm_cleanup_def updateHdmiConnectStatusLocked_def drm_hdmi_getConnectionStatus_def initVideoSessions_l_def set_mode_def
      drm_hdmi_onHdmiDisconnected_def clearHdmiTimings_def Let_def)


definition watched_service :: composer where
  "watched_service = sample_service\<lparr>mListenerId := 1, mListeners := [(0, \<lparr>mMsg = MDS_MSG_MODE_CHANGE, mName = ''app''\<rparr>)]\<rparr>"

lemma sample_registered:
  "registerListener True (Some ''app'') MDS_MSG_MODE_CHANGE sample_service = (0, watched_service)"
  by (simp add: registerListener_def watched_service_def sample_service_def MDS_MSG_MODE_CHANGE_def Let_def)

definition playing_service :: composer where
  "playing_service = watched_service\<lparr>mVideos := (mVideos watched_service)[0 := (session_init sample_video)\<lparr>mState := MDS_VIDEO_PREPARED\<rparr>],
     mMode := MDS_VIDEO_ON, events := [To_listener 0 MDS_VIDEO_ON]\<rparr>"

lemma sample_plays: "hasVideoPlaying_l (watched_service\<lparr>mVideos := (mVideos watched_service)[0 := v]\<rparr>)" if "mState v = MDS_VIDEO_PREPARED"
  using that set_update_memI [of 0 "mVideos watched_service" v]
  by (auto simp: hasVideoPlaying_iff watched_service_def sample_service_def simp del: list_update_code)

lemma sample_played: "snd (updateVideoState 0 MDS_VIDEO_PREPARED watched_service) = playing_service"
proof -
  have v: "mVideos watched_service ! 0 = session_init sample_video" "mMode watched_service = 0" "mMDSCallback watched_service = None"
    "mListeners watched_service = [(0, \<lparr>mMsg = MDS_MSG_MODE_CHANGE, mName = ''app''\<rparr>)]" "events watched_service = []"
    by (simp_all add: watched_service_def sample_service_def)
  show ?thesis
    by (simp add: updateVideoState_def playing_service_def valid_session_def setState_def set_mode_def
        sample_plays broadcastMessageLocked_def checkMsg_def MDS_MSG_MODE_CHANGE_def MDS_VIDEO_ON_def Let_def v)
qed

theorem service_stays_consistent_witness:
  "hasVideoPlaying_l playing_service \<and> length (mVideos playing_service) = 16 \<and> fst ` set (mListeners playing_service) \<subseteq> {0..<64}"
proof -
  have "mds_session sample_env sample_service [Register_listener True (Some ''app'') MDS_MSG_MODE_CHANGE, Update_video_state 0 2] playing_service"
    by (simp add: mds_session_simps sample_registered sample_played)
  from service_stays_consistent [OF sample_constructed _ _ this] show ?thesis
    by (simp add: no_display_def playing_service_def MDS_VIDEO_ON_def)
qed

theorem mode_changes_are_announced_witness: "announces watched_service playing_service False \<and> events playing_service = [To_listener 0 MDS_VIDEO_ON]"
proof -
  have "announces watched_service playing_service (\<exists>i s. Update_video_state 0 MDS_VIDEO_PREPARED = Update_video_state i s \<and> s \<ge> MDS_VIDEO_UNPREPARED)"
    by (rule mode_changes_are_announced [of sample_env])
      (simp_all add: sample_played, simp_all add: playing_service_def watched_service_def sample_service_def MDS_VIDEO_ON_def)
  then show ?thesis by (simp add: playing_service_def)
qed

theorem listener_round_trip_witness:
  "mListeners (snd (unregisterListener 0 watched_service)) = [] \<and> map_of (mListeners watched_service) 0 \<noteq> None"
  using listener_round_trip [OF sample_registered] by (simp add: sample_service_def)

end
