(* ===== verification/Mds_Binder.thy ===== *)
theory Mds_Binder
  imports Mds_Composer
begin

text \<open>
  The remote interfaces of the multi-display service: the proxies, which write the arguments of a call to a parcel and read the result,
  and the stubs, which do the reverse and call the service (\<open>libmultidisplay/native/IMultiDisplay*.cpp\<close>), and the objects between the
  stubs and the composer (\<open>MultiDisplayService.cpp\<close>). Parcels and the transport between processes are not part of the repository: parcels
  are an argument with the laws \<open>parcel_laws\<close>, and \<open>transport\<close> is the error of a transaction that does not reach the
  stub, or 0. Memory exhaustion is not modelled.
\<close>

unbundle bit_operations_syntax

subsection \<open>Parcels\<close>

text \<open>The objects of the service, and what is written to a parcel.\<close>

datatype mds_interface = Hdmi_control | Video_control | Event_monitor | Callback_registrar | Sink_registrar | Info_provider
  | Connection_observer | Decoder_config | Vpp_config

datatype parcel_item =
    Token string
  | Int32 int
  | Timing MDSHdmiTiming
  | Source_info MDSVideoSourceInfo
  | Message u32
  | Listener_binder
  | Callback_binder mds_callback
  | Service_binder mds_interface
  | CString string

text \<open>The functions for parcels: \<open>put\<close> is the write of an item, by whatever function its kind has; a read returns the item and what is left.\<close>

record 'p parcel_lib =
  empty_parcel :: 'p
  put :: "parcel_item \<Rightarrow> 'p \<Rightarrow> 'p"
  checkInterface :: "string \<Rightarrow> 'p \<Rightarrow> bool \<times> 'p"
  readInt32 :: "'p \<Rightarrow> int \<times> 'p"
  read_timing :: "'p \<Rightarrow> MDSHdmiTiming \<times> 'p"
  read_info :: "'p \<Rightarrow> MDSVideoSourceInfo \<times> 'p"
  read_message :: "'p \<Rightarrow> u32 \<times> 'p"
  read_listener :: "'p \<Rightarrow> bool \<times> 'p"
  read_callback :: "'p \<Rightarrow> mds_callback option \<times> 'p"
  read_service :: "'p \<Rightarrow> mds_interface option \<times> 'p"
  readCString :: "'p \<Rightarrow> string option \<times> 'p"

text \<open>A parcel gives back what was written to it, in order (a null pointer for an object that was not written), and the check of the
  interface succeeds exactly for the descriptor that was written. The integers that the code writes are C integers of 32 bits, which a
  parcel carries in full.\<close>

definition parcel_laws :: "'p parcel_lib \<Rightarrow> ('p \<Rightarrow> parcel_item list) \<Rightarrow> bool" where
  "parcel_laws L contents \<longleftrightarrow> contents (empty_parcel L) = [] \<and> (\<forall>i p. contents (put L i p) = contents p @ [i]) \<and>
    (\<forall>p x r. contents p = Int32 x # r \<longrightarrow> fst (readInt32 L p) = x \<and> contents (snd (readInt32 L p)) = r) \<and>
    (\<forall>p x r. contents p = Timing x # r \<longrightarrow> fst (read_timing L p) = x \<and> contents (snd (read_timing L p)) = r) \<and>
    (\<forall>p x r. contents p = Source_info x # r \<longrightarrow> fst (read_info L p) = x \<and> contents (snd (read_info L p)) = r) \<and>
    (\<forall>p x r. contents p = Message x # r \<longrightarrow> fst (read_message L p) = x \<and> contents (snd (read_message L p)) = r) \<and>
    (\<forall>p r. contents p = Listener_binder # r \<longrightarrow> fst (read_listener L p) \<and> contents (snd (read_listener L p)) = r) \<and>
    (\<forall>p x r. contents p = Callback_binder x # r \<longrightarrow> fst (read_callback L p) = Some x \<and> contents (snd (read_callback L p)) = r) \<and>
    (\<forall>p x r. contents p = Service_binder x # r \<longrightarrow> fst (read_service L p) = Some x) \<and> (\<forall>p. contents p = [] \<longrightarrow> fst (read_service L p) = None) \<and>
    (\<forall>p x r. contents p = CString x # r \<longrightarrow> fst (readCString L p) = Some x \<and> contents (snd (readCString L p)) = r) \<and>
    (\<forall>p d x r. contents p = Token x # r \<longrightarrow> fst (checkInterface L d p) = (d = x) \<and> contents (snd (checkInterface L d p)) = r)"

subsection \<open>Transactions\<close>

abbreviation (input) "PERMISSION_DENIED \<equiv> - 1 :: int"

definition parcel_of :: "'p parcel_lib \<Rightarrow> parcel_item list \<Rightarrow> 'p" where
  "parcel_of L items = foldl (\<lambda>p i. put L i p) (empty_parcel L) items"

text \<open>\<open>CHECK_INTERFACE\<close>, which compares the descriptor of the object with that of the parcel and does not use its first argument; the result of a stub is the status of the transaction, the reply and the composer.\<close>

definition with_interface ::
    "'p parcel_lib \<Rightarrow> string \<Rightarrow> 'p \<Rightarrow> composer option \<Rightarrow> ('p \<Rightarrow> (int \<times> 'p \<times> composer option) option) \<Rightarrow> (int \<times> 'p \<times> composer option) option" where
  "with_interface L d data com f =
    (let (ok, data) = checkInterface L d data in if \<not> ok then Some (PERMISSION_DENIED, empty_parcel L, com) else f data)"

text \<open>\<open>IMPLEMENT_API\<close>: the objects of the service call the composer, unless there is none.\<close>

definition api :: "int \<Rightarrow> (composer \<Rightarrow> (int \<times> composer) option) \<Rightarrow> composer option \<Rightarrow> (int \<times> composer option) option" where
  "api err f com = (case com of None \<Rightarrow> Some (err, None) | Some c \<Rightarrow> do { (r, c) \<leftarrow> f c; Some (r, Some c) })"

definition reply_int :: "'p parcel_lib \<Rightarrow> (int \<times> composer option) option \<Rightarrow> (int \<times> 'p \<times> composer option) option" where
  "reply_int L r = do { (ret, com) \<leftarrow> r; Some (NO_ERROR, put L (Int32 ret) (empty_parcel L), com) }"

text \<open>The common end of a proxy: the transaction, and the integer of the reply. \<open>fail\<close> is the result for a failed transaction.\<close>

definition call_int ::
    "'p parcel_lib \<Rightarrow> int \<Rightarrow> (int \<Rightarrow> int) \<Rightarrow> ('p \<Rightarrow> composer option \<Rightarrow> (int \<times> 'p \<times> composer option) option) \<Rightarrow> 'p \<Rightarrow> composer option \<Rightarrow> (int \<times> composer option) option" where
  "call_int L transport fail stub data com =
    (if transport \<noteq> NO_ERROR then Some (fail transport, com)
     else do { (result, reply, com) \<leftarrow> stub data com;
               Some (if result \<noteq> NO_ERROR then fail result else fst (readInt32 L reply), com) })"

definition bool_int :: "bool \<Rightarrow> int" where
  "bool_int b = (if b then 1 else 0)"

subsection \<open>Control of the HDMI output\<close>

definition HDMI_CONTROL :: string where "HDMI_CONTROL = ''com.intel.MultiDisplayHdmiControl''"

datatype hdmi_code = SET_HDMI_TIMING | GET_HDMI_TIMING_COUNT | GET_HDMI_TIMING_LIST | SET_HDMI_TIMING_BY_INDEX | GET_CURRENT_HDMI_TIMING
  | GET_CURRENT_HDMI_TIMING_INDEX | SET_HDMI_SCALING_TYPE | SET_HDMI_OVER_SCAN | CHECK_HDMI_TIMING_FIXED

definition zero_timing :: MDSHdmiTiming where
  "zero_timing = \<lparr>width = 0, height = 0, refresh = 0, interlace = 0, ratio = 0, tflags = 0\<rparr>"

text \<open>The result of an operation that only asks, with the composer unchanged.\<close>

definition ask :: "(composer \<Rightarrow> int) \<Rightarrow> composer \<Rightarrow> (int \<times> composer) option" where
  "ask f c = Some (f c, c)"

text \<open>The memory of a timing that is not stored to is \<open>garbage\<close>.\<close>

fun hdmi_onTransact ::
    "'p parcel_lib \<Rightarrow> mds_env \<Rightarrow> drm_hw \<Rightarrow> MDSHdmiTiming \<Rightarrow> hdmi_code \<Rightarrow> 'p \<Rightarrow> composer option \<Rightarrow> (int \<times> 'p \<times> composer option) option" where
  "hdmi_onTransact L env hw garbage SET_HDMI_TIMING data com =
    with_interface L HDMI_CONTROL data com (\<lambda>data.
      let (timing, data) = read_timing L data in reply_int L (api NO_INIT (\<lambda>c. Some (setHdmiTiming timing c)) com))"
| "hdmi_onTransact L env hw garbage GET_HDMI_TIMING_COUNT data com =
    with_interface L HDMI_CONTROL data com (\<lambda>data.
      reply_int L (api NO_INIT (\<lambda>c. let (n, c) = getHdmiTimingCount env hw c in Some (int n, c)) com))"
| "hdmi_onTransact L env hw garbage GET_HDMI_TIMING_LIST data com =
    with_interface L HDMI_CONTROL data com (\<lambda>data.
      let (n, data) = readInt32 L data;
          ((ret, ts), com) = (case com of None \<Rightarrow> ((NO_INIT, []), None)
            | Some c \<Rightarrow> let (r, c) = getHdmiTimingList env hw n c in (r, Some c)) in
      Some (NO_ERROR, parcel_of L (map Timing (ts @ replicate (nat n - length ts) zero_timing) @ [Int32 ret]), com))"
| "hdmi_onTransact L env hw garbage GET_CURRENT_HDMI_TIMING data com =
    with_interface L HDMI_CONTROL data com (\<lambda>data.
      let (ret, t) = (case com of None \<Rightarrow> (NO_INIT, None) | Some c \<Rightarrow> getCurrentHdmiTiming True c) in
      Some (NO_ERROR, parcel_of L [Timing (case t of None \<Rightarrow> garbage | Some t \<Rightarrow> t), Int32 ret], com))"
| "hdmi_onTransact L env hw garbage SET_HDMI_TIMING_BY_INDEX data com =
    with_interface L HDMI_CONTROL data com (\<lambda>data.
      let (index, data) = readInt32 L data in reply_int L (api NO_INIT (ask (setHdmiTimingByIndex index)) com))"
| "hdmi_onTransact L env hw garbage GET_CURRENT_HDMI_TIMING_INDEX data com =
    with_interface L HDMI_CONTROL data com (\<lambda>data. reply_int L (api NO_INIT (ask getCurrentHdmiTimingIndex) com))"
| "hdmi_onTransact L env hw garbage SET_HDMI_SCALING_TYPE data com =
    with_interface L HDMI_CONTROL data com (\<lambda>data.
      let (ty, data) = readInt32 L data in reply_int L (api NO_INIT (\<lambda>c. Some (setHdmiScalingType env (word_of_int ty) c)) com))"
| "hdmi_onTransact L env hw garbage SET_HDMI_OVER_SCAN data com =
    with_interface L HDMI_CONTROL data com (\<lambda>data.
      let (hValue, data) = readInt32 L data; (vValue, data) = readInt32 L data in
      reply_int L (api NO_INIT (\<lambda>c. Some (setHdmiOverscan env hValue vValue c)) com))"
| "hdmi_onTransact L env hw garbage CHECK_HDMI_TIMING_FIXED data com =
    with_interface L HDMI_CONTROL data com (\<lambda>data.
      reply_int L (api 0 (ask (\<lambda>c. bool_int (checkHdmiTimingIsFixed c))) com))"

record 'p connection =
  lib :: "'p parcel_lib"
  transport :: int
  mdenv :: mds_env
  display :: drm_hw
  unset_timing :: MDSHdmiTiming
  unset_info :: MDSVideoSourceInfo
  lock_held :: bool

definition hdmi_stub :: "'p connection \<Rightarrow> hdmi_code \<Rightarrow> 'p \<Rightarrow> composer option \<Rightarrow> (int \<times> 'p \<times> composer option) option" where
  "hdmi_stub b = hdmi_onTransact (lib b) (mdenv b) (display b) (unset_timing b)"

definition hdmi_call :: "'p connection \<Rightarrow> hdmi_code \<Rightarrow> parcel_item list \<Rightarrow> composer option \<Rightarrow> (int \<times> composer option) option" where
  "hdmi_call b code args = call_int (lib b) (transport b) id (hdmi_stub b code) (parcel_of (lib b) (Token HDMI_CONTROL # args))"

definition bp_setHdmiTiming :: "'p connection \<Rightarrow> MDSHdmiTiming \<Rightarrow> composer option \<Rightarrow> (int \<times> composer option) option" where
  "bp_setHdmiTiming b timing = hdmi_call b SET_HDMI_TIMING [Timing timing]"

definition bp_getHdmiTimingCount :: "'p connection \<Rightarrow> composer option \<Rightarrow> (int \<times> composer option) option" where
  "bp_getHdmiTimingCount b = hdmi_call b GET_HDMI_TIMING_COUNT []"

text \<open>The reads of the timings of a reply.\<close>

fun read_timings :: "'p parcel_lib \<Rightarrow> nat \<Rightarrow> 'p \<Rightarrow> MDSHdmiTiming list \<times> 'p" where
  "read_timings L 0 p = ([], p)"
| "read_timings L (Suc n) p = (let (t, p) = read_timing L p; (ts, p) = read_timings L n p in (t # ts, p))"

text \<open>The status and the timings that are stored to the caller's list, which has no null pointers.\<close>

definition bp_getHdmiTimingList :: "'p connection \<Rightarrow> int \<Rightarrow> composer option \<Rightarrow> ((int \<times> MDSHdmiTiming list) \<times> composer option) option" where
  "bp_getHdmiTimingList b timingCount com =
    (if timingCount \<le> 0 \<or> timingCount > 128 then Some ((BAD_VALUE, []), com)
     else if transport b \<noteq> NO_ERROR then Some ((transport b, []), com)
     else do { (result, reply, com) \<leftarrow> hdmi_stub b GET_HDMI_TIMING_LIST (parcel_of (lib b) [Token HDMI_CONTROL, Int32 timingCount]) com;
               Some (if result \<noteq> NO_ERROR then (result, [])
                     else let (ts, reply) = read_timings (lib b) (nat timingCount) reply in (fst (readInt32 (lib b) reply), ts), com) })"

definition bp_getCurrentHdmiTiming :: "'p connection \<Rightarrow> bool \<Rightarrow> composer option \<Rightarrow> ((int \<times> MDSHdmiTiming option) \<times> composer option) option" where
  "bp_getCurrentHdmiTiming b has_timing com =
    (if \<not> has_timing then Some ((BAD_VALUE, None), com)
     else if transport b \<noteq> NO_ERROR then Some ((transport b, None), com)
     else do { (result, reply, com) \<leftarrow> hdmi_stub b GET_CURRENT_HDMI_TIMING (parcel_of (lib b) [Token HDMI_CONTROL]) com;
               Some (if result \<noteq> NO_ERROR then (result, None)
                     else let (t, reply) = read_timing (lib b) reply in (fst (readInt32 (lib b) reply), Some t), com) })"

definition bp_setHdmiTimingByIndex :: "'p connection \<Rightarrow> int \<Rightarrow> composer option \<Rightarrow> (int \<times> composer option) option" where
  "bp_setHdmiTimingByIndex b index = hdmi_call b SET_HDMI_TIMING_BY_INDEX [Int32 index]"

definition bp_getCurrentHdmiTimingIndex :: "'p connection \<Rightarrow> composer option \<Rightarrow> (int \<times> composer option) option" where
  "bp_getCurrentHdmiTimingIndex b = hdmi_call b GET_CURRENT_HDMI_TIMING_INDEX []"

definition bp_setHdmiScalingType :: "'p connection \<Rightarrow> u32 \<Rightarrow> composer option \<Rightarrow> (int \<times> composer option) option" where
  "bp_setHdmiScalingType b ty = hdmi_call b SET_HDMI_SCALING_TYPE [Int32 (sint ty)]"

definition bp_setHdmiOverscan :: "'p connection \<Rightarrow> int \<Rightarrow> int \<Rightarrow> composer option \<Rightarrow> (int \<times> composer option) option" where
  "bp_setHdmiOverscan b hValue vValue = hdmi_call b SET_HDMI_OVER_SCAN [Int32 hValue, Int32 vValue]"

definition bp_checkHdmiTimingIsFixed :: "'p connection \<Rightarrow> composer option \<Rightarrow> (bool \<times> composer option) option" where
  "bp_checkHdmiTimingIsFixed b com =
    do { (n, com) \<leftarrow> call_int (lib b) (transport b) (\<lambda>_. 0) (hdmi_stub b CHECK_HDMI_TIMING_FIXED) (parcel_of (lib b) [Token HDMI_CONTROL]) com;
         Some (n = 1, com) }"

subsection \<open>Control of videos\<close>

definition VIDEO_CONTROL :: string where "VIDEO_CONTROL = ''com.intel.MultiDisplayVideoControl''"

datatype video_code = ALLOCATE_VIDEO_SESSIONID | RESET_VIDEO_PLAYBACK | UPDATE_VIDEO_STATE | UPDATE_VIDEO_SOURCE_INFO

fun video_onTransact :: "'p parcel_lib \<Rightarrow> video_code \<Rightarrow> 'p \<Rightarrow> composer option \<Rightarrow> (int \<times> 'p \<times> composer option) option" where
  "video_onTransact L ALLOCATE_VIDEO_SESSIONID data com =
    with_interface L VIDEO_CONTROL data com (\<lambda>data. reply_int L (api (- 1) (ask allocateVideoSessionId) com))"
| "video_onTransact L RESET_VIDEO_PLAYBACK data com =
    with_interface L VIDEO_CONTROL data com (\<lambda>data. reply_int L (api NO_INIT (\<lambda>c. Some (resetVideoPlayback c)) com))"
| "video_onTransact L UPDATE_VIDEO_STATE data com =
    with_interface L VIDEO_CONTROL data com (\<lambda>data.
      let (sessionId, data) = readInt32 L data; (state, data) = readInt32 L data in
      reply_int L (api NO_INIT (\<lambda>c. Some (updateVideoState sessionId state c)) com))"
| "video_onTransact L UPDATE_VIDEO_SOURCE_INFO data com =
    with_interface L VIDEO_CONTROL data com (\<lambda>data.
      let (sessionId, data) = readInt32 L data; (info, data) = read_info L data in
      reply_int L (api NO_INIT (\<lambda>c. Some (updateVideoSourceInfo sessionId info c)) com))"

definition video_call :: "'p connection \<Rightarrow> (int \<Rightarrow> int) \<Rightarrow> video_code \<Rightarrow> parcel_item list \<Rightarrow> composer option \<Rightarrow> (int \<times> composer option) option" where
  "video_call b fail code args = call_int (lib b) (transport b) fail (video_onTransact (lib b) code) (parcel_of (lib b) (Token VIDEO_CONTROL # args))"

definition bp_resetVideoPlayback :: "'p connection \<Rightarrow> composer option \<Rightarrow> (int \<times> composer option) option" where
  "bp_resetVideoPlayback b = video_call b id RESET_VIDEO_PLAYBACK []"

definition bp_allocateVideoSessionId :: "'p connection \<Rightarrow> composer option \<Rightarrow> (int \<times> composer option) option" where
  "bp_allocateVideoSessionId b = video_call b (\<lambda>_. - 1) ALLOCATE_VIDEO_SESSIONID []"

definition bp_updateVideoState :: "'p connection \<Rightarrow> int \<Rightarrow> int \<Rightarrow> composer option \<Rightarrow> (int \<times> composer option) option" where
  "bp_updateVideoState b sessionId state = video_call b id UPDATE_VIDEO_STATE [Int32 sessionId, Int32 state]"

definition bp_updateVideoSourceInfo :: "'p connection \<Rightarrow> int \<Rightarrow> MDSVideoSourceInfo \<Rightarrow> composer option \<Rightarrow> (int \<times> composer option) option" where
  "bp_updateVideoSourceInfo b sessionId info = video_call b id UPDATE_VIDEO_SOURCE_INFO [Int32 sessionId, Source_info info]"

subsection \<open>Information\<close>

definition INFO_PROVIDER :: string where "INFO_PROVIDER = ''com.intel.MultiDisplayInfoProvider''"

datatype info_code = GET_VIDEO_STATE | GET_VIDEO_SESSION_NUM | GET_VIDEO_SOURCE_INFO | GET_DISPLAY_MODE | GET_DECODER_OUTPUT_RESOLUTION | GET_VPP_STATE

definition zero_config :: decoder_config where
  "zero_config = \<lparr>dcWidth = 0, dcHeight = 0, dcOffX = 0, dcOffY = 0, dcBufWidth = 0, dcBufHeight = 0\<rparr>"

definition config_items :: "decoder_config \<Rightarrow> parcel_item list" where
  "config_items dc = [Int32 (dcWidth dc), Int32 (dcHeight dc), Int32 (dcOffX dc), Int32 (dcOffY dc), Int32 (dcBufWidth dc), Int32 (dcBufHeight dc)]"

definition read_config :: "'p parcel_lib \<Rightarrow> 'p \<Rightarrow> decoder_config \<times> 'p" where
  "read_config L p =
    (let (w, p) = readInt32 L p; (h, p) = readInt32 L p; (x, p) = readInt32 L p; (y, p) = readInt32 L p; (bw, p) = readInt32 L p;
         (bh, p) = readInt32 L p in
     (\<lparr>dcWidth = w, dcHeight = h, dcOffX = x, dcOffY = y, dcBufWidth = bw, dcBufHeight = bh\<rparr>, p))"

fun info_onTransact :: "'p connection \<Rightarrow> info_code \<Rightarrow> 'p \<Rightarrow> composer option \<Rightarrow> (int \<times> 'p \<times> composer option) option" where
  "info_onTransact b GET_VIDEO_STATE data com =
    with_interface (lib b) INFO_PROVIDER data com (\<lambda>data.
      let (sessionId, data) = readInt32 (lib b) data in reply_int (lib b) (api MDS_VIDEO_STATE_UNKNOWN (ask (getVideoState sessionId)) com))"
| "info_onTransact b GET_VIDEO_SESSION_NUM data com =
    with_interface (lib b) INFO_PROVIDER data com (\<lambda>data. reply_int (lib b) (api 0 (ask getVideoSessionNumber) com))"
| "info_onTransact b GET_VIDEO_SOURCE_INFO data com =
    with_interface (lib b) INFO_PROVIDER data com (\<lambda>data.
      let (sessionId, data) = readInt32 (lib b) data;
          (ret, info) = (case com of None \<Rightarrow> (NO_INIT, None) | Some c \<Rightarrow> getVideoSourceInfo sessionId True c) in
      Some (NO_ERROR, parcel_of (lib b) [Source_info (case info of None \<Rightarrow> unset_info b | Some i \<Rightarrow> i), Int32 ret], com))"
| "info_onTransact b GET_DISPLAY_MODE data com =
    with_interface (lib b) INFO_PROVIDER data com (\<lambda>data.
      let (w, data) = readInt32 (lib b) data in reply_int (lib b) (api 0 (ask (\<lambda>c. sint (getDisplayMode (w \<noteq> 0) (lock_held b) c))) com))"
| "info_onTransact b GET_DECODER_OUTPUT_RESOLUTION data com =
    with_interface (lib b) INFO_PROVIDER data com (\<lambda>data.
      let (sessionId, data) = readInt32 (lib b) data;
          (ret, dc) = (case com of None \<Rightarrow> (NO_INIT, None) | Some c \<Rightarrow> getDecoderOutputResolution sessionId c) in
      Some (NO_ERROR, parcel_of (lib b) (config_items (case dc of None \<Rightarrow> zero_config | Some d \<Rightarrow> d) @ [Int32 ret]), com))"
| "info_onTransact b GET_VPP_STATE data com =
    with_interface (lib b) INFO_PROVIDER data com (\<lambda>data. reply_int (lib b) (api 0 (ask (\<lambda>c. sint (getVppState (mdenv b) c))) com))"

definition info_call :: "'p connection \<Rightarrow> info_code \<Rightarrow> parcel_item list \<Rightarrow> composer option \<Rightarrow> (int \<times> composer option) option" where
  "info_call b code args = call_int (lib b) (transport b) (\<lambda>_. 0) (info_onTransact b code) (parcel_of (lib b) (Token INFO_PROVIDER # args))"

definition bp_getVideoSessionNumber :: "'p connection \<Rightarrow> composer option \<Rightarrow> (int \<times> composer option) option" where
  "bp_getVideoSessionNumber b = info_call b GET_VIDEO_SESSION_NUM []"

definition bp_getVideoState :: "'p connection \<Rightarrow> int \<Rightarrow> composer option \<Rightarrow> (int \<times> composer option) option" where
  "bp_getVideoState b sessionId = info_call b GET_VIDEO_STATE [Int32 sessionId]"

definition bp_getVideoSourceInfo :: "'p connection \<Rightarrow> int \<Rightarrow> bool \<Rightarrow> composer option \<Rightarrow> ((int \<times> MDSVideoSourceInfo option) \<times> composer option) option" where
  "bp_getVideoSourceInfo b sessionId has_info com =
    (if \<not> has_info then Some ((BAD_VALUE, None), com)
     else if transport b \<noteq> NO_ERROR then Some ((transport b, None), com)
     else do { (result, reply, com) \<leftarrow> info_onTransact b GET_VIDEO_SOURCE_INFO (parcel_of (lib b) [Token INFO_PROVIDER, Int32 sessionId]) com;
               Some (if result \<noteq> NO_ERROR then (result, None)
                     else let (i, reply) = read_info (lib b) reply in (fst (readInt32 (lib b) reply), Some i), com) })"

definition bp_getDisplayMode :: "'p connection \<Rightarrow> bool \<Rightarrow> composer option \<Rightarrow> (u32 \<times> composer option) option" where
  "bp_getDisplayMode b wait com = do { (n, com) \<leftarrow> info_call b GET_DISPLAY_MODE [Int32 (bool_int wait)] com; Some (word_of_int n, com) }"

text \<open>The pointers to the results are not null.\<close>

definition bp_getDecoderOutputResolution :: "'p connection \<Rightarrow> int \<Rightarrow> composer option \<Rightarrow> ((int \<times> decoder_config option) \<times> composer option) option" where
  "bp_getDecoderOutputResolution b sessionId com =
    (if transport b \<noteq> NO_ERROR then Some ((transport b, None), com)
     else do { (result, reply, com) \<leftarrow> info_onTransact b GET_DECODER_OUTPUT_RESOLUTION (parcel_of (lib b) [Token INFO_PROVIDER, Int32 sessionId]) com;
               Some (if result \<noteq> NO_ERROR then (result, None)
                     else let (dc, reply) = read_config (lib b) reply in (fst (readInt32 (lib b) reply), Some dc), com) })"

definition bp_getVppState :: "'p connection \<Rightarrow> composer option \<Rightarrow> (u32 \<times> composer option) option" where
  "bp_getVppState b com = do { (n, com) \<leftarrow> info_call b GET_VPP_STATE [] com; Some (word_of_int n, com) }"

subsection \<open>Listeners and callbacks\<close>

definition SINK_REGISTRAR :: string where "SINK_REGISTRAR = ''com.intel.MultiDisplaySinkRegistrar''"
definition CALLBACK_REGISTRAR :: string where "CALLBACK_REGISTRAR = ''com.intel.MultiDisplayCallbackRegistrar''"

datatype registrar_code = REGISTER | UNREGISTER

fun sink_onTransact :: "'p parcel_lib \<Rightarrow> registrar_code \<Rightarrow> 'p \<Rightarrow> composer option \<Rightarrow> (int \<times> 'p \<times> composer option) option" where
  "sink_onTransact L REGISTER data com =
    with_interface L SINK_REGISTRAR data com (\<lambda>data.
      let (listener, data) = read_listener L data; (client, data) = readCString L data; (msg, data) = readInt32 L data in
      reply_int L (api (- 1) (\<lambda>c. Some (registerListener listener client (word_of_int msg) c)) com))"
| "sink_onTransact L UNREGISTER data com =
    with_interface L SINK_REGISTRAR data com (\<lambda>data.
      let (listenerId, data) = readInt32 L data in reply_int L (api NO_INIT (\<lambda>c. Some (unregisterListener listenerId c)) com))"

definition bp_registerListener :: "'p connection \<Rightarrow> bool \<Rightarrow> string option \<Rightarrow> u32 \<Rightarrow> composer option \<Rightarrow> (int \<times> composer option) option" where
  "bp_registerListener b has_listener nm msg com =
    (case nm of None \<Rightarrow> Some (- 1, com)
     | Some client \<Rightarrow> if \<not> has_listener then Some (- 1, com)
       else call_int (lib b) (transport b) (\<lambda>_. - 1) (sink_onTransact (lib b) REGISTER)
         (parcel_of (lib b) [Token SINK_REGISTRAR, Listener_binder, CString client, Int32 (sint msg)]) com)"

definition bp_unregisterListener :: "'p connection \<Rightarrow> int \<Rightarrow> composer option \<Rightarrow> (int \<times> composer option) option" where
  "bp_unregisterListener b listenerId com =
    (if listenerId < 0 then Some (BAD_VALUE, com)
     else call_int (lib b) (transport b) id (sink_onTransact (lib b) UNREGISTER) (parcel_of (lib b) [Token SINK_REGISTRAR, Int32 listenerId]) com)"

fun cbreg_onTransact :: "'p connection \<Rightarrow> registrar_code \<Rightarrow> 'p \<Rightarrow> composer option \<Rightarrow> (int \<times> 'p \<times> composer option) option" where
  "cbreg_onTransact b REGISTER data com =
    with_interface (lib b) CALLBACK_REGISTRAR data com (\<lambda>data.
      let (cbk, data) = read_callback (lib b) data in reply_int (lib b) (api NO_INIT (registerCallback (mdenv b) (display b) cbk) com))"
| "cbreg_onTransact b UNREGISTER data com =
    with_interface (lib b) CALLBACK_REGISTRAR data com (\<lambda>data.
      let (cbk, data) = read_callback (lib b) data in reply_int (lib b) (api NO_INIT (\<lambda>c. Some (unregisterCallback c)) com))"

text \<open>The proxies use the callback without a check for null: \<open>None\<close> is that access.\<close>

definition cbreg_call :: "'p connection \<Rightarrow> registrar_code \<Rightarrow> mds_callback option \<Rightarrow> composer option \<Rightarrow> (int \<times> composer option) option" where
  "cbreg_call b code cbk com =
    (case cbk of None \<Rightarrow> None
     | Some c \<Rightarrow> call_int (lib b) (transport b) id (cbreg_onTransact b code) (parcel_of (lib b) [Token CALLBACK_REGISTRAR, Callback_binder c]) com)"

definition bp_registerCallback :: "'p connection \<Rightarrow> mds_callback option \<Rightarrow> composer option \<Rightarrow> (int \<times> composer option) option" where
  "bp_registerCallback b = cbreg_call b REGISTER"

definition bp_unregisterCallback :: "'p connection \<Rightarrow> mds_callback option \<Rightarrow> composer option \<Rightarrow> (int \<times> composer option) option" where
  "bp_unregisterCallback b = cbreg_call b UNREGISTER"

subsection \<open>Events, connections, decoder and post-processor\<close>

definition EVENT_MONITOR :: string where "EVENT_MONITOR = ''com.intel.MultiDisplayEventMonitor''"
definition CONNECTION_OBSERVER :: string where "CONNECTION_OBSERVER = ''com.intel.MultiDisplayConnectionObserver''"
definition DECODER_CONFIG :: string where "DECODER_CONFIG = ''com.intel.MultiDisplayDecoderConfig''"
definition VPP_CONFIG :: string where "VPP_CONFIG = ''com.intel.MultiDisplayVppConfig''"

datatype event_code = SET_PHONE_CALL_STATE | SET_INPUT_STATE
datatype connection_code = UPDATE_HDMI_CONNECTION_STATUS | UPDATE_WIDI_CONNECTION_STATUS

fun event_onTransact :: "'p parcel_lib \<Rightarrow> event_code \<Rightarrow> 'p \<Rightarrow> composer option \<Rightarrow> (int \<times> 'p \<times> composer option) option" where
  "event_onTransact L SET_PHONE_CALL_STATE data com =
    with_interface L EVENT_MONITOR data com (\<lambda>data.
      let (state, data) = readInt32 L data in reply_int L (api NO_INIT (\<lambda>c. Some (updatePhoneCallState (state = 1) c)) com))"
| "event_onTransact L SET_INPUT_STATE data com =
    with_interface L EVENT_MONITOR data com (\<lambda>data.
      let (state, data) = readInt32 L data in reply_int L (api NO_INIT (\<lambda>c. Some (updateInputState (state = 1) c)) com))"

definition bp_updatePhoneCallState :: "'p connection \<Rightarrow> bool \<Rightarrow> composer option \<Rightarrow> (int \<times> composer option) option" where
  "bp_updatePhoneCallState b state =
    call_int (lib b) (transport b) id (event_onTransact (lib b) SET_PHONE_CALL_STATE) (parcel_of (lib b) [Token EVENT_MONITOR, Int32 (bool_int state)])"

definition bp_updateInputState :: "'p connection \<Rightarrow> bool \<Rightarrow> composer option \<Rightarrow> (int \<times> composer option) option" where
  "bp_updateInputState b state =
    call_int (lib b) (transport b) id (event_onTransact (lib b) SET_INPUT_STATE) (parcel_of (lib b) [Token EVENT_MONITOR, Int32 (bool_int state)])"

fun connection_onTransact :: "'p connection \<Rightarrow> connection_code \<Rightarrow> 'p \<Rightarrow> composer option \<Rightarrow> (int \<times> 'p \<times> composer option) option" where
  "connection_onTransact b UPDATE_HDMI_CONNECTION_STATUS data com =
    with_interface (lib b) CONNECTION_OBSERVER data com (\<lambda>data.
      let (state, data) = readInt32 (lib b) data in
      reply_int (lib b) (api NO_INIT (updateHdmiConnectionStatus (mdenv b) (display b) (state = 1)) com))"
| "connection_onTransact b UPDATE_WIDI_CONNECTION_STATUS data com =
    with_interface (lib b) CONNECTION_OBSERVER data com (\<lambda>data.
      let (state, data) = readInt32 (lib b) data in
      reply_int (lib b) (api NO_INIT (updateWidiConnectionStatus (mdenv b) (display b) (state = 1)) com))"

text \<open>The result is that of the transaction; the one in the reply is not read.\<close>

definition connection_call :: "'p connection \<Rightarrow> connection_code \<Rightarrow> bool \<Rightarrow> composer option \<Rightarrow> (int \<times> composer option) option" where
  "connection_call b code con com =
    (if transport b \<noteq> NO_ERROR then Some (transport b, com)
     else do { (result, _, com) \<leftarrow> connection_onTransact b code (parcel_of (lib b) [Token CONNECTION_OBSERVER, Int32 (bool_int con)]) com;
               Some (result, com) })"

definition bp_updateHdmiConnectionStatus :: "'p connection \<Rightarrow> bool \<Rightarrow> composer option \<Rightarrow> (int \<times> composer option) option" where
  "bp_updateHdmiConnectionStatus b = connection_call b UPDATE_HDMI_CONNECTION_STATUS"

definition bp_updateWidiConnectionStatus :: "'p connection \<Rightarrow> bool \<Rightarrow> composer option \<Rightarrow> (int \<times> composer option) option" where
  "bp_updateWidiConnectionStatus b = connection_call b UPDATE_WIDI_CONNECTION_STATUS"

definition decoder_onTransact :: "'p parcel_lib \<Rightarrow> 'p \<Rightarrow> composer option \<Rightarrow> (int \<times> 'p \<times> composer option) option" where
  "decoder_onTransact L data com =
    with_interface L DECODER_CONFIG data com (\<lambda>data.
      let (sessionId, data) = readInt32 L data; (dc, data) = read_config L data in
      reply_int L (api NO_INIT (\<lambda>c. Some (setDecoderOutputResolution sessionId dc c)) com))"

definition bp_setDecoderOutputResolution :: "'p connection \<Rightarrow> int \<Rightarrow> decoder_config \<Rightarrow> composer option \<Rightarrow> (int \<times> composer option) option" where
  "bp_setDecoderOutputResolution b sessionId dc com =
    (if dcWidth dc \<le> 0 \<or> dcHeight dc \<le> 0 then Some (BAD_VALUE, com)
     else call_int (lib b) (transport b) id (decoder_onTransact (lib b)) (parcel_of (lib b) (Token DECODER_CONFIG # Int32 sessionId # config_items dc)) com)"

text \<open>The numbers of the displays are those of the hardware composer.\<close>

definition display_num :: "MDS_DISPLAY_ID \<Rightarrow> int" where
  "display_num d = (case d of MDS_DISPLAY_PRIMARY \<Rightarrow> 0 | MDS_DISPLAY_EXTERNAL \<Rightarrow> 1 | MDS_DISPLAY_VIRTUAL \<Rightarrow> 2)"

definition display_of :: "int \<Rightarrow> MDS_DISPLAY_ID" where
  "display_of n = (if n = 0 then MDS_DISPLAY_PRIMARY else if n = 2 then MDS_DISPLAY_VIRTUAL else MDS_DISPLAY_EXTERNAL)"

definition vpp_onTransact :: "'p parcel_lib \<Rightarrow> 'p \<Rightarrow> composer option \<Rightarrow> (int \<times> 'p \<times> composer option) option" where
  "vpp_onTransact L data com =
    with_interface L VPP_CONFIG data com (\<lambda>data.
      let (dpyId, data) = readInt32 L data; (isOn, data) = readInt32 L data; (status, data) = readInt32 L data in
      reply_int L (api NO_INIT (\<lambda>c. Some (setVppState (display_of dpyId) (isOn = 1) status c)) com))"

definition bp_setVppState :: "'p connection \<Rightarrow> MDS_DISPLAY_ID \<Rightarrow> bool \<Rightarrow> int \<Rightarrow> composer option \<Rightarrow> (int \<times> composer option) option" where
  "bp_setVppState b dpyId isOn status =
    call_int (lib b) (transport b) id (vpp_onTransact (lib b))
      (parcel_of (lib b) [Token VPP_CONFIG, Int32 (display_num dpyId), Int32 (bool_int isOn), Int32 status])"

subsection \<open>The callback and the listeners\<close>

text \<open>These are called by the composer: the stub is on the side of the client, and \<open>impl\<close> are the functions of the client.\<close>

definition CALLBACK :: string where "CALLBACK = ''com.intel.MultiDisplayCallback''"
definition LISTENER :: string where "LISTENER = ''com.intel.MultiDisplayListener''"

datatype callback_code = CB_BLANK_SECONDARY_DISPLAY | CB_UPDATE_VIDEO_PLAYBACK_STATE | CB_SET_HDMI_TIMING | CB_SET_HDMI_SCALING_TYPE
  | CB_SET_HDMI_OVERSCAN | CB_SET_INPUT_STATE

fun callback_result :: "'p parcel_lib \<Rightarrow> mds_callback \<Rightarrow> callback_code \<Rightarrow> 'p \<Rightarrow> int" where
  "callback_result L impl CB_BLANK_SECONDARY_DISPLAY data = (let (blank, data) = readInt32 L data in cb_blankSecondaryDisplay impl (blank \<noteq> 0))"
| "callback_result L impl CB_UPDATE_VIDEO_PLAYBACK_STATE data =
    (let (vsessionId, data) = readInt32 L data; (state, data) = readInt32 L data in cb_updateVideoState impl vsessionId state)"
| "callback_result L impl CB_SET_HDMI_TIMING data = (let (timing, data) = read_timing L data in cb_setHdmiTiming impl timing)"
| "callback_result L impl CB_SET_HDMI_SCALING_TYPE data = (let (ty, data) = readInt32 L data in cb_setHdmiScalingType impl (word_of_int ty))"
| "callback_result L impl CB_SET_HDMI_OVERSCAN data =
    (let (hValue, data) = readInt32 L data; (vValue, data) = readInt32 L data in cb_setHdmiOverscan impl hValue vValue)"
| "callback_result L impl CB_SET_INPUT_STATE data = (let (state, data) = readInt32 L data in cb_updateInputState impl (state = 1))"

definition callback_onTransact :: "'p parcel_lib \<Rightarrow> mds_callback \<Rightarrow> callback_code \<Rightarrow> 'p \<Rightarrow> int \<times> 'p" where
  "callback_onTransact L impl code data =
    (let (ok, data) = checkInterface L CALLBACK data in
     if \<not> ok then (PERMISSION_DENIED, empty_parcel L) else (NO_ERROR, put L (Int32 (callback_result L impl code data)) (empty_parcel L)))"

definition callback_call :: "'p parcel_lib \<Rightarrow> int \<Rightarrow> mds_callback \<Rightarrow> callback_code \<Rightarrow> parcel_item list \<Rightarrow> int" where
  "callback_call L tr impl code args =
    (if tr \<noteq> NO_ERROR then tr
     else let (result, reply) = callback_onTransact L impl code (parcel_of L (Token CALLBACK # args)) in
       if result \<noteq> NO_ERROR then result else fst (readInt32 L reply))"

definition BpMultiDisplayCallback :: "'p parcel_lib \<Rightarrow> int \<Rightarrow> mds_callback \<Rightarrow> mds_callback" where
  "BpMultiDisplayCallback L tr impl =
    \<lparr>cb_updateVideoState = (\<lambda>i s. callback_call L tr impl CB_UPDATE_VIDEO_PLAYBACK_STATE [Int32 i, Int32 s]),
     cb_setHdmiTiming = (\<lambda>t. callback_call L tr impl CB_SET_HDMI_TIMING [Timing t]),
     cb_blankSecondaryDisplay = (\<lambda>x. callback_call L tr impl CB_BLANK_SECONDARY_DISPLAY [Int32 (bool_int x)]),
     cb_setHdmiScalingType = (\<lambda>ty. callback_call L tr impl CB_SET_HDMI_SCALING_TYPE [Int32 (sint ty)]),
     cb_setHdmiOverscan = (\<lambda>h v. callback_call L tr impl CB_SET_HDMI_OVERSCAN [Int32 h, Int32 v]),
     cb_updateInputState = (\<lambda>x. callback_call L tr impl CB_SET_INPUT_STATE [Int32 (bool_int x)])\<rparr>"

text \<open>The message of a mode: its value has the size of an integer.\<close>

definition listener_onTransact :: "'p parcel_lib \<Rightarrow> (int \<Rightarrow> u32 \<Rightarrow> int \<Rightarrow> int) \<Rightarrow> 'p \<Rightarrow> int \<times> 'p" where
  "listener_onTransact L impl data =
    (let (ok, data) = checkInterface L LISTENER data in
     if \<not> ok then (PERMISSION_DENIED, empty_parcel L)
     else let (msg, data) = readInt32 L data; (n, data) = readInt32 L data; (val, data) = read_message L data in
       (NO_ERROR, put L (Int32 (impl msg val n)) (empty_parcel L)))"

definition bp_onMdsMessage :: "'p parcel_lib \<Rightarrow> int \<Rightarrow> (int \<Rightarrow> u32 \<Rightarrow> int \<Rightarrow> int) \<Rightarrow> int \<Rightarrow> u32 \<Rightarrow> int" where
  "bp_onMdsMessage L tr impl msg val =
    (if tr \<noteq> NO_ERROR then tr
     else let (result, reply) = listener_onTransact L impl (parcel_of L [Token LISTENER, Int32 msg, Int32 4, Message val]) in
       if result \<noteq> NO_ERROR then result else fst (readInt32 L reply))"

subsection \<open>The service\<close>

definition MD_SERVICE :: string where "MD_SERVICE = ''com.intel.MDService''"

datatype service_code = GET_HDMI_CONTROL | GET_VIDEO_CONTROL | GET_EVENT_MONITOR | GET_CALLBACK_REGISTRAR | GET_SINK_REGISTRAR
  | GET_INFO_PROVIDER | GET_CONNECTION_OBSERVER | GET_DECODER_CONFIG | GET_VPP_CONFIG

fun instance_for :: "service_code \<Rightarrow> mds_interface" where
  "instance_for GET_HDMI_CONTROL = Hdmi_control"
| "instance_for GET_VIDEO_CONTROL = Video_control"
| "instance_for GET_EVENT_MONITOR = Event_monitor"
| "instance_for GET_CALLBACK_REGISTRAR = Callback_registrar"
| "instance_for GET_SINK_REGISTRAR = Sink_registrar"
| "instance_for GET_INFO_PROVIDER = Info_provider"
| "instance_for GET_CONNECTION_OBSERVER = Connection_observer"
| "instance_for GET_DECODER_CONFIG = Decoder_config"
| "instance_for GET_VPP_CONFIG = Vpp_config"

fun code_for :: "mds_interface \<Rightarrow> service_code" where
  "code_for Hdmi_control = GET_HDMI_CONTROL"
| "code_for Video_control = GET_VIDEO_CONTROL"
| "code_for Event_monitor = GET_EVENT_MONITOR"
| "code_for Callback_registrar = GET_CALLBACK_REGISTRAR"
| "code_for Sink_registrar = GET_SINK_REGISTRAR"
| "code_for Info_provider = GET_INFO_PROVIDER"
| "code_for Connection_observer = GET_CONNECTION_OBSERVER"
| "code_for Decoder_config = GET_DECODER_CONFIG"
| "code_for Vpp_config = GET_VPP_CONFIG"

definition service_onTransact :: "'p parcel_lib \<Rightarrow> service_code \<Rightarrow> 'p \<Rightarrow> int \<times> 'p" where
  "service_onTransact L code data =
    (let (ok, data) = checkInterface L MD_SERVICE data in
     if \<not> ok then (PERMISSION_DENIED, empty_parcel L) else (NO_ERROR, put L (Service_binder (instance_for code)) (empty_parcel L)))"

text \<open>The proxy of the function for an object; a failed transaction is only reported, and the reply is then empty.\<close>

definition BpMDService :: "'p parcel_lib \<Rightarrow> int \<Rightarrow> mds_interface \<Rightarrow> mds_interface option" where
  "BpMDService L tr i =
    (let reply = (if tr \<noteq> NO_ERROR then empty_parcel L else snd (service_onTransact L (code_for i) (parcel_of L [Token MD_SERVICE]))) in
     fst (read_service L reply))"

text \<open>The constructor: the objects of the service share one composer.\<close>

definition MultiDisplayService :: "mds_env \<Rightarrow> drm_hw \<Rightarrow> drmContext \<Rightarrow> video_session list \<Rightarrow> composer option option" where
  "MultiDisplayService env hw cxt garbage = map_option Some (MultiDisplayComposer env hw cxt garbage)"

subsection \<open>A remote call is a local call\<close>

lemma law_reads:
  assumes "parcel_laws L contents"
  shows "contents p = Int32 x # r \<Longrightarrow> fst (readInt32 L p) = x" "contents p = Int32 x # r \<Longrightarrow> contents (snd (readInt32 L p)) = r"
    "contents p = Timing t # r \<Longrightarrow> fst (read_timing L p) = t" "contents p = Timing t # r \<Longrightarrow> contents (snd (read_timing L p)) = r"
    "contents p = Source_info i # r \<Longrightarrow> fst (read_info L p) = i" "contents p = Source_info i # r \<Longrightarrow> contents (snd (read_info L p)) = r"
    "contents p = Message m # r \<Longrightarrow> fst (read_message L p) = m"
    "contents p = Listener_binder # r \<Longrightarrow> fst (read_listener L p)" "contents p = Listener_binder # r \<Longrightarrow> contents (snd (read_listener L p)) = r"
    "contents p = Callback_binder c # r \<Longrightarrow> fst (read_callback L p) = Some c"
    "contents p = Service_binder s # r \<Longrightarrow> fst (read_service L p) = Some s" "contents p = [] \<Longrightarrow> fst (read_service L p) = None"
    "contents p = CString n # r \<Longrightarrow> fst (readCString L p) = Some n" "contents p = CString n # r \<Longrightarrow> contents (snd (readCString L p)) = r"
    "contents p = Token d # r \<Longrightarrow> fst (checkInterface L d' p) = (d' = d)" "contents p = Token d # r \<Longrightarrow> contents (snd (checkInterface L d' p)) = r"
  using assms by (simp_all add: parcel_laws_def)

lemma law_writes:
  assumes "parcel_laws L contents"
  shows "contents (empty_parcel L) = []" "contents (put L i p) = contents p @ [i]"
  using assms by (simp_all add: parcel_laws_def)

lemma contents_parcel_of: "parcel_laws L contents \<Longrightarrow> contents (parcel_of L items) = items"
proof -
  assume l: "parcel_laws L contents"
  have "contents (foldl (\<lambda>p i. put L i p) p items) = contents p @ items" for p
    by (induction items arbitrary: p) (simp_all add: law_writes [OF l])
  then show ?thesis by (simp add: parcel_of_def law_writes [OF l])
qed

lemma with_interface_ok:
  assumes "parcel_laws L contents"
  shows "with_interface L d (parcel_of L (Token d # args)) com f = f (snd (checkInterface L d (parcel_of L (Token d # args))))"
    and "contents (snd (checkInterface L d (parcel_of L (Token d # args)))) = args"
  using contents_parcel_of [OF assms, of "Token d # args"] by (simp_all add: with_interface_def case_prod_beta law_reads [OF assms])

text \<open>A stub that replies with an integer gives it to the proxy.\<close>

lemma call_reply:
  assumes "parcel_laws L contents" "stub data com = reply_int L r"
  shows "call_int L NO_ERROR fail stub data com = r"
proof (cases r)
  case None
  then show ?thesis by (simp add: call_int_def assms(2) reply_int_def)
next
  case (Some x)
  have "contents (put L (Int32 n) (empty_parcel L)) = [Int32 n]" for n by (simp add: law_writes [OF assms(1)])
  then have "fst (readInt32 L (put L (Int32 n) (empty_parcel L))) = n" for n by (rule law_reads(1) [OF assms(1)])
  then show ?thesis using Some by (simp add: call_int_def assms(2) reply_int_def case_prod_beta)
qed

lemma read_timings_law:
  assumes "parcel_laws L contents"
  shows "contents p = map Timing ts @ r \<Longrightarrow> fst (read_timings L (length ts) p) = ts \<and> contents (snd (read_timings L (length ts) p)) = r"
  by (induction ts arbitrary: p) (simp_all add: case_prod_beta Let_def law_reads [OF assms])

lemma read_config_law:
  assumes "parcel_laws L contents" "contents p = config_items dc @ r"
  shows "fst (read_config L p) = dc" "contents (snd (read_config L p)) = r"
  using assms(2) by (simp_all add: read_config_def config_items_def case_prod_beta Let_def law_reads [OF assms(1)])

lemma display_of_num [simp]: "display_of (display_num d) = d"
  by (cases d) (simp_all add: display_of_def display_num_def)

lemma bool_int_simps [simp]: "(bool_int x = 1) = x" "(bool_int x \<noteq> 0) = x" "(bool_int x = 0) = (\<not> x)"
  by (simp_all add: bool_int_def)

text \<open>The operations that change the state, called by a client in another process and called directly; \<open>own\<close> is the callback of the client.\<close>

fun remote_do :: "'p connection \<Rightarrow> mds_callback \<Rightarrow> mds_op \<Rightarrow> composer option \<Rightarrow> (int \<times> composer option) option" where
  "remote_do b own (Register_callback hw c) com = bp_registerCallback (b\<lparr>display := hw\<rparr>) c com"
| "remote_do b own Unregister_callback com = bp_unregisterCallback b (Some own) com"
| "remote_do b own (Hdmi_connection hw con) com = bp_updateHdmiConnectionStatus (b\<lparr>display := hw\<rparr>) con com"
| "remote_do b own (Widi_connection hw con) com = bp_updateWidiConnectionStatus (b\<lparr>display := hw\<rparr>) con com"
| "remote_do b own (Update_video_state i s) com = bp_updateVideoState b i s com"
| "remote_do b own (Update_source_info i info) com = bp_updateVideoSourceInfo b i info com"
| "remote_do b own Reset_video com = bp_resetVideoPlayback b com"
| "remote_do b own (Set_decoder i dc) com = bp_setDecoderOutputResolution b i dc com"
| "remote_do b own (Phone_call x) com = bp_updatePhoneCallState b x com"
| "remote_do b own (Input x) com = bp_updateInputState b x com"
| "remote_do b own (Set_timing t) com = bp_setHdmiTiming b t com"
| "remote_do b own (Timing_count hw) com = bp_getHdmiTimingCount (b\<lparr>display := hw\<rparr>) com"
| "remote_do b own (Timing_list hw n) com = do { ((r, ts), com) \<leftarrow> bp_getHdmiTimingList (b\<lparr>display := hw\<rparr>) n com; Some (r, com) }"
| "remote_do b own (Set_scaling ty) com = bp_setHdmiScalingType b ty com"
| "remote_do b own (Set_overscan h v) com = bp_setHdmiOverscan b h v com"
| "remote_do b own (Register_listener x nm msg) com = bp_registerListener b x nm msg com"
| "remote_do b own (Unregister_listener i) com = bp_unregisterListener b i com"
| "remote_do b own (Set_vpp d con s) com = bp_setVppState b d con s com"

fun local_do :: "mds_env \<Rightarrow> mds_op \<Rightarrow> composer \<Rightarrow> (int \<times> composer) option" where
  "local_do env (Register_callback hw c) st = registerCallback env hw c st"
| "local_do env Unregister_callback st = Some (unregisterCallback st)"
| "local_do env (Hdmi_connection hw con) st = updateHdmiConnectionStatus env hw con st"
| "local_do env (Widi_connection hw con) st = updateWidiConnectionStatus env hw con st"
| "local_do env (Update_video_state i s) st = Some (updateVideoState i s st)"
| "local_do env (Update_source_info i info) st = Some (updateVideoSourceInfo i info st)"
| "local_do env Reset_video st = Some (resetVideoPlayback st)"
| "local_do env (Set_decoder i dc) st = Some (setDecoderOutputResolution i dc st)"
| "local_do env (Phone_call b) st = Some (updatePhoneCallState b st)"
| "local_do env (Input b) st = Some (updateInputState b st)"
| "local_do env (Set_timing t) st = Some (setHdmiTiming t st)"
| "local_do env (Timing_count hw) st = Some (map_prod int id (getHdmiTimingCount env hw st))"
| "local_do env (Timing_list hw n) st = Some (map_prod fst id (getHdmiTimingList env hw n st))"
| "local_do env (Set_scaling ty) st = Some (setHdmiScalingType env ty st)"
| "local_do env (Set_overscan h v) st = Some (setHdmiOverscan env h v st)"
| "local_do env (Register_listener b nm msg) st = Some (registerListener b nm msg st)"
| "local_do env (Unregister_listener i) st = Some (unregisterListener i st)"
| "local_do env (Set_vpp d con s) st = Some (setVppState d con s st)"

lemma local_do_state: "map_option snd (local_do env op st) = mds_do env op st"
  by (cases op) simp_all


definition lifted :: "('a \<times> composer) option \<Rightarrow> ('a \<times> composer option) option" where
  "lifted = map_option (map_prod id Some)"

lemma api_Some: "api e f (Some c) = lifted (f c)"
  by (cases "f c") (auto simp: api_def lifted_def)

lemma lifted_Some [simp]: "lifted (Some p) = Some (fst p, Some (snd p))" "lifted None = None"
  by (cases p) (simp_all add: lifted_def)

lemma hdmi_calls:
  assumes "parcel_laws (lib b) contents" "transport b = NO_ERROR"
  shows "bp_setHdmiTiming b t (Some c) = lifted (Some (setHdmiTiming t c))"
    "bp_getHdmiTimingCount b (Some c) = lifted (Some (map_prod int id (getHdmiTimingCount (mdenv b) (display b) c)))"
    "bp_setHdmiScalingType b ty (Some c) = lifted (Some (setHdmiScalingType (mdenv b) ty c))"
    "bp_setHdmiOverscan b h v (Some c) = lifted (Some (setHdmiOverscan (mdenv b) h v c))"
    "bp_setHdmiTimingByIndex b i (Some c) = lifted (ask (setHdmiTimingByIndex i) c)"
    "bp_getCurrentHdmiTimingIndex b (Some c) = lifted (ask getCurrentHdmiTimingIndex c)"
  unfolding bp_setHdmiTiming_def bp_getHdmiTimingCount_def bp_setHdmiScalingType_def bp_setHdmiOverscan_def bp_setHdmiTimingByIndex_def
    bp_getCurrentHdmiTimingIndex_def hdmi_call_def assms(2)
  by (rule call_reply [OF assms(1)],
      simp add: hdmi_stub_def with_interface_ok [OF assms(1)] case_prod_beta Let_def law_reads [OF assms(1)] api_Some)+

lemma video_calls:
  assumes "parcel_laws (lib b) contents" "transport b = NO_ERROR"
  shows "bp_resetVideoPlayback b (Some c) = lifted (Some (resetVideoPlayback c))"
    "bp_allocateVideoSessionId b (Some c) = lifted (ask allocateVideoSessionId c)"
    "bp_updateVideoState b i s (Some c) = lifted (Some (updateVideoState i s c))"
    "bp_updateVideoSourceInfo b i info (Some c) = lifted (Some (updateVideoSourceInfo i info c))"
  unfolding bp_resetVideoPlayback_def bp_allocateVideoSessionId_def bp_updateVideoState_def bp_updateVideoSourceInfo_def video_call_def assms(2)
  by (rule call_reply [OF assms(1)],
      simp add: with_interface_ok [OF assms(1)] case_prod_beta Let_def law_reads [OF assms(1)] api_Some)+

lemma info_calls:
  assumes "parcel_laws (lib b) contents" "transport b = NO_ERROR"
  shows "bp_getVideoSessionNumber b (Some c) = lifted (ask getVideoSessionNumber c)"
    "bp_getVideoState b i (Some c) = lifted (ask (getVideoState i) c)"
    "info_call b GET_DISPLAY_MODE [Int32 (bool_int w)] (Some c) = lifted (ask (\<lambda>c. sint (getDisplayMode w (lock_held b) c)) c)"
    "info_call b GET_VPP_STATE [] (Some c) = lifted (ask (\<lambda>c. sint (getVppState (mdenv b) c)) c)"
  unfolding bp_getVideoSessionNumber_def bp_getVideoState_def info_call_def assms(2)
  by (rule call_reply [OF assms(1)],
      simp add: with_interface_ok [OF assms(1)] case_prod_beta Let_def law_reads [OF assms(1)] api_Some)+

lemma other_calls:
  assumes "parcel_laws (lib b) contents" "transport b = NO_ERROR"
  shows "bp_updatePhoneCallState b x (Some c) = lifted (Some (updatePhoneCallState x c))"
    "bp_updateInputState b x (Some c) = lifted (Some (updateInputState x c))"
    "bp_setVppState b d x n (Some c) = lifted (Some (setVppState d x n c))"
    "cbreg_call b REGISTER (Some k) (Some c) = lifted (registerCallback (mdenv b) (display b) (Some k) c)"
    "cbreg_call b UNREGISTER (Some k) (Some c) = lifted (Some (unregisterCallback c))"
  unfolding bp_updatePhoneCallState_def bp_updateInputState_def bp_setVppState_def cbreg_call_def option.case assms(2)
  by (rule call_reply [OF assms(1)],
      simp add: vpp_onTransact_def with_interface_ok [OF assms(1)] case_prod_beta Let_def law_reads [OF assms(1)] api_Some)+

lemma listener_calls:
  assumes "parcel_laws (lib b) contents" "transport b = NO_ERROR"
  shows "bp_registerListener b x nm msg (Some c) = lifted (Some (registerListener x nm msg c))"
    "bp_unregisterListener b i (Some c) = lifted (Some (unregisterListener i c))"
proof -
  have "call_int (lib b) NO_ERROR (\<lambda>_. - 1) (sink_onTransact (lib b) REGISTER)
      (parcel_of (lib b) [Token SINK_REGISTRAR, Listener_binder, CString client, Int32 (sint msg)]) (Some c) = lifted (Some (registerListener True (Some client) msg c))" for client
    by (rule call_reply [OF assms(1)]) (simp add: with_interface_ok [OF assms(1)] case_prod_beta Let_def law_reads [OF assms(1)] api_Some)
  then show "bp_registerListener b x nm msg (Some c) = lifted (Some (registerListener x nm msg c))"
    by (auto simp: bp_registerListener_def assms(2) registerListener_def split: option.split)
  have "call_int (lib b) NO_ERROR id (sink_onTransact (lib b) UNREGISTER) (parcel_of (lib b) [Token SINK_REGISTRAR, Int32 i]) (Some c) =
      lifted (Some (unregisterListener i c))"
    by (rule call_reply [OF assms(1)]) (simp add: with_interface_ok [OF assms(1)] case_prod_beta Let_def law_reads [OF assms(1)] api_Some)
  then show "bp_unregisterListener b i (Some c) = lifted (Some (unregisterListener i c))"
    by (simp add: bp_unregisterListener_def assms(2) unregisterListener_def)
qed

lemma decoder_call:
  assumes "parcel_laws (lib b) contents" "transport b = NO_ERROR" "0 < dcWidth dc" "0 < dcHeight dc"
  shows "bp_setDecoderOutputResolution b i dc (Some c) = lifted (Some (setDecoderOutputResolution i dc c))"
proof -
  have "call_int (lib b) NO_ERROR id (decoder_onTransact (lib b)) (parcel_of (lib b) (Token DECODER_CONFIG # Int32 i # config_items dc)) (Some c) =
      lifted (Some (setDecoderOutputResolution i dc c))"
    by (rule call_reply [OF assms(1)])
      (simp add: decoder_onTransact_def with_interface_ok [OF assms(1)] case_prod_beta Let_def law_reads [OF assms(1)]
        read_config_law [OF assms(1), where r = "[]"] api_Some)
  then show ?thesis using assms by (simp add: bp_setDecoderOutputResolution_def)
qed

lemma connection_calls:
  assumes "parcel_laws (lib b) contents" "transport b = NO_ERROR"
  shows "bp_updateHdmiConnectionStatus b x (Some c) = lifted (updateHdmiConnectionStatus (mdenv b) (display b) x c)"
    "bp_updateWidiConnectionStatus b x (Some c) = lifted (updateWidiConnectionStatus (mdenv b) (display b) x c)"
proof -
  have r: "notifyHotplugLocked env hw d x c = Some (r, c') \<Longrightarrow> r = NO_ERROR" for env hw d r c'
    by (auto simp: notifyHotplugLocked_def Let_def split: if_splits Option.bind_splits)
  show "bp_updateHdmiConnectionStatus b x (Some c) = lifted (updateHdmiConnectionStatus (mdenv b) (display b) x c)"
    "bp_updateWidiConnectionStatus b x (Some c) = lifted (updateWidiConnectionStatus (mdenv b) (display b) x c)"
    unfolding bp_updateHdmiConnectionStatus_def bp_updateWidiConnectionStatus_def connection_call_def
    by (auto simp: assms(2) with_interface_ok [OF assms(1)] case_prod_beta Let_def law_reads [OF assms(1)] api_Some reply_int_def lifted_def
        updateHdmiConnectionStatus_def updateWidiConnectionStatus_def split: Option.bind_splits dest: r)
qed


lemma timing_list_call:
  assumes "parcel_laws (lib b) contents" "transport b = NO_ERROR" "0 < n" "n \<le> 128"
  shows "bp_getHdmiTimingList b n (Some c) =
    (let ((r, ts), c') = getHdmiTimingList (mdenv b) (display b) n c in Some ((r, ts @ replicate (nat n - length ts) zero_timing), Some c'))"
proof -
  obtain r ts c' where g: "getHdmiTimingList (mdenv b) (display b) n c = ((r, ts), c')" by (metis surj_pair)
  have "length ts \<le> nat n" using g by (auto simp: getHdmiTimingList_def drm_hdmi_getTimings_def Let_def case_prod_beta split: if_splits option.splits)
  then have l: "length (ts @ replicate (nat n - length ts) zero_timing) = nat n" by simp
  define zs where "zs = ts @ replicate (nat n - length ts) zero_timing"
  have lz: "length zs = nat n" using l by (simp add: zs_def)
  let ?reply = "parcel_of (lib b) (map Timing zs @ [Int32 r])"
  have s: "hdmi_stub b GET_HDMI_TIMING_LIST (parcel_of (lib b) [Token HDMI_CONTROL, Int32 n]) (Some c) = Some (NO_ERROR, ?reply, Some c')"
    by (simp add: hdmi_stub_def with_interface_ok [OF assms(1)] case_prod_beta Let_def law_reads [OF assms(1)] g zs_def)
  have "fst (read_timings (lib b) (nat n) ?reply) = zs" "contents (snd (read_timings (lib b) (nat n) ?reply)) = [Int32 r]"
    using read_timings_law [OF assms(1) contents_parcel_of [OF assms(1)], of zs "[Int32 r]"] lz by simp_all
  then show ?thesis using assms(2-4) by (simp add: bp_getHdmiTimingList_def s g case_prod_beta law_reads [OF assms(1)] zs_def)
qed

text \<open>Operations whose client can send them: a callback that is not null, a resolution that is not empty, and at most as many timings as there can be.\<close>

fun sendable :: "mds_op \<Rightarrow> bool" where
  "sendable (Register_callback hw c) = (c \<noteq> None)"
| "sendable (Set_decoder i dc) = (0 < dcWidth dc \<and> 0 < dcHeight dc)"
| "sendable (Timing_list hw n) = (0 < n \<and> n \<le> 128)"
| "sendable _ = True"

text \<open>C21: When transactions are delivered and parcels give back what was written, an operation on the multi-display service that a client in another
  process calls through a proxy has the same result as the call of the composer and leaves the composer in the same state, for
  every operation that changes the state and that the proxy does not refuse.\<close>

theorem remote_calls_are_local:
  assumes "parcel_laws (lib b) contents" "transport b = NO_ERROR" "sendable op"
  shows "remote_do b own op (Some c) = map_option (map_prod id Some) (local_do (mdenv b) op c)"
proof (cases op)
  case (Register_callback hw k)
  then obtain k' where "k = Some k'" using assms(3) by auto
  then show ?thesis using Register_callback other_calls(4) [of "b\<lparr>display := hw\<rparr>" contents k' c] assms(1,2)
    by (simp add: bp_registerCallback_def lifted_def)
next
  case (Hdmi_connection hw con)
  then show ?thesis using connection_calls(1) [of "b\<lparr>display := hw\<rparr>" contents con c] assms(1,2) by (simp add: lifted_def)
next
  case (Widi_connection hw con)
  then show ?thesis using connection_calls(2) [of "b\<lparr>display := hw\<rparr>" contents con c] assms(1,2) by (simp add: lifted_def)
next
  case (Timing_count hw)
  then show ?thesis using hdmi_calls(2) [of "b\<lparr>display := hw\<rparr>" contents c] assms(1,2) by (simp add: lifted_def)
next
  case (Timing_list hw n)
  then show ?thesis using timing_list_call [of "b\<lparr>display := hw\<rparr>" contents n c] assms
    by (simp add: case_prod_beta map_prod_def)
next
  case (Set_decoder i dc)
  then show ?thesis using decoder_call [OF assms(1,2)] assms(3) by (simp add: lifted_def)
qed (simp_all add: hdmi_calls [OF assms(1,2)] video_calls [OF assms(1,2)] other_calls [OF assms(1,2)] listener_calls [OF assms(1,2)]
    bp_unregisterCallback_def lifted_def)

subsection \<open>The other calls\<close>

lemma check_fixed_call:
  assumes "parcel_laws (lib b) contents" "transport b = NO_ERROR"
  shows "bp_checkHdmiTimingIsFixed b (Some c) = Some (checkHdmiTimingIsFixed c, Some c)"
proof -
  have "call_int (lib b) NO_ERROR (\<lambda>_. 0) (hdmi_stub b CHECK_HDMI_TIMING_FIXED) (parcel_of (lib b) [Token HDMI_CONTROL]) (Some c) =
      lifted (ask (\<lambda>c. bool_int (checkHdmiTimingIsFixed c)) c)"
    by (rule call_reply [OF assms(1)]) (simp add: hdmi_stub_def with_interface_ok [OF assms(1)] api_Some)
  then show ?thesis by (simp add: bp_checkHdmiTimingIsFixed_def assms(2) ask_def)
qed

lemma mode_and_vpp_calls:
  assumes "parcel_laws (lib b) contents" "transport b = NO_ERROR"
  shows "bp_getDisplayMode b w (Some c) = Some (getDisplayMode w (lock_held b) c, Some c)"
    "bp_getVppState b (Some c) = Some (getVppState (mdenv b) c, Some c)"
  by (simp_all add: bp_getDisplayMode_def bp_getVppState_def info_calls [OF assms] ask_def)

lemma result_calls:
  assumes "parcel_laws (lib b) contents" "transport b = NO_ERROR"
  shows "bp_getCurrentHdmiTiming b True (Some c) =
      (let (r, t) = getCurrentHdmiTiming True c in Some ((r, Some (case t of None \<Rightarrow> unset_timing b | Some t \<Rightarrow> t)), Some c))"
    "bp_getVideoSourceInfo b i True (Some c) =
      (let (r, t) = getVideoSourceInfo i True c in Some ((r, Some (case t of None \<Rightarrow> unset_info b | Some t \<Rightarrow> t)), Some c))"
    "bp_getDecoderOutputResolution b i (Some c) =
      (let (r, t) = getDecoderOutputResolution i c in Some ((r, Some (case t of None \<Rightarrow> zero_config | Some t \<Rightarrow> t)), Some c))"
proof -
  note k = with_interface_ok [OF assms(1)] law_reads [OF assms(1)] contents_parcel_of [OF assms(1)] case_prod_beta Let_def assms(2)
  show "bp_getCurrentHdmiTiming b True (Some c) =
      (let (r, t) = getCurrentHdmiTiming True c in Some ((r, Some (case t of None \<Rightarrow> unset_timing b | Some t \<Rightarrow> t)), Some c))"
    by (simp add: bp_getCurrentHdmiTiming_def hdmi_stub_def k)
  show "bp_getVideoSourceInfo b i True (Some c) =
      (let (r, t) = getVideoSourceInfo i True c in Some ((r, Some (case t of None \<Rightarrow> unset_info b | Some t \<Rightarrow> t)), Some c))"
    by (simp add: bp_getVideoSourceInfo_def k)
  show "bp_getDecoderOutputResolution b i (Some c) =
      (let (r, t) = getDecoderOutputResolution i c in Some ((r, Some (case t of None \<Rightarrow> zero_config | Some t \<Rightarrow> t)), Some c))"
    by (simp add: bp_getDecoderOutputResolution_def read_config_law [OF assms(1), OF contents_parcel_of [OF assms(1)]] k)
qed

text \<open>The proxy of a callback behaves as the callback, a message reaches its listener, and the service hands out the object that is asked for.\<close>

lemma callback_proxy:
  assumes "parcel_laws L contents"
  shows "BpMultiDisplayCallback L NO_ERROR impl = impl"
proof -
  have "callback_call L NO_ERROR impl code args = callback_result L impl code (snd (checkInterface L CALLBACK (parcel_of L (Token CALLBACK # args))))" for code args
    by (simp add: callback_call_def callback_onTransact_def case_prod_beta law_reads [OF assms] law_writes [OF assms] contents_parcel_of [OF assms])
  then show ?thesis
    by (simp add: BpMultiDisplayCallback_def case_prod_beta Let_def law_reads [OF assms] contents_parcel_of [OF assms])
qed

lemma message_delivered: "parcel_laws L contents \<Longrightarrow> bp_onMdsMessage L NO_ERROR impl msg val = impl msg val 4"
  by (simp add: bp_onMdsMessage_def listener_onTransact_def case_prod_beta Let_def law_reads law_writes contents_parcel_of)

lemma service_hands_out: "parcel_laws L contents \<Longrightarrow> BpMDService L NO_ERROR i = Some i"
  by (cases i) (simp_all add: BpMDService_def service_onTransact_def case_prod_beta law_reads law_writes contents_parcel_of)

subsection \<open>Samples\<close>

text \<open>A parcel as a list of items.\<close>

definition list_parcels :: "parcel_item list parcel_lib" where
  "list_parcels = \<lparr>empty_parcel = [], put = (\<lambda>i p. p @ [i]),
     checkInterface = (\<lambda>d p. case p of Token x # r \<Rightarrow> (d = x, r) | _ \<Rightarrow> (False, p)),
     readInt32 = (\<lambda>p. case p of Int32 x # r \<Rightarrow> (x, r) | _ \<Rightarrow> (0, p)),
     read_timing = (\<lambda>p. case p of Timing x # r \<Rightarrow> (x, r) | _ \<Rightarrow> (zero_timing, p)),
     read_info = (\<lambda>p. case p of Source_info x # r \<Rightarrow> (x, r) | _ \<Rightarrow> (no_info, p)),
     read_message = (\<lambda>p. case p of Message x # r \<Rightarrow> (x, r) | _ \<Rightarrow> (0, p)),
     read_listener = (\<lambda>p. case p of Listener_binder # r \<Rightarrow> (True, r) | _ \<Rightarrow> (False, p)),
     read_callback = (\<lambda>p. case p of Callback_binder x # r \<Rightarrow> (Some x, r) | _ \<Rightarrow> (None, p)),
     read_service = (\<lambda>p. case p of Service_binder x # r \<Rightarrow> (Some x, r) | _ \<Rightarrow> (None, p)),
     readCString = (\<lambda>p. case p of CString x # r \<Rightarrow> (Some x, r) | _ \<Rightarrow> (None, p))\<rparr>"

lemma list_parcels_laws: "parcel_laws list_parcels id"
  by (simp add: parcel_laws_def list_parcels_def)

definition sample_connection :: "parcel_item list connection" where
  "sample_connection = \<lparr>lib = list_parcels, transport = NO_ERROR, mdenv = sample_env, display = no_display, unset_timing = zero_timing,
     unset_info = no_info, lock_held = False\<rparr>"

definition sample_callback :: mds_callback where
  "sample_callback = \<lparr>cb_updateVideoState = (\<lambda>i s. 0), cb_setHdmiTiming = (\<lambda>t. 0), cb_blankSecondaryDisplay = (\<lambda>x. 0),
     cb_setHdmiScalingType = (\<lambda>ty. 0), cb_setHdmiOverscan = (\<lambda>h v. 0), cb_updateInputState = (\<lambda>x. 0)\<rparr>"

theorem remote_calls_are_local_witness:
  "remote_do sample_connection sample_callback (Register_listener True (Some ''app'') MDS_MSG_MODE_CHANGE) (Some sample_service) = Some (0, Some watched_service)"
  using remote_calls_are_local [of sample_connection id "Register_listener True (Some ''app'') MDS_MSG_MODE_CHANGE" sample_callback sample_service]
  by (simp add: sample_connection_def list_parcels_laws sample_registered)

end
