(* ===== verification/Healthd.thy ===== *)
theory Healthd
  imports Prov_Prelude
begin

text \<open>
  The board part of the battery service, \<open>healthd/healthd_board_intel.cpp\<close>: the search for the file with the voltage of the
  battery, the reaction to a report of the battery, and the helper program that saves the state of the fuel gauge, which is run from two
  threads under a semaphore. The files below \<open>/sys\<close> and \<open>/proc\<close> and the results of system calls are arguments; log messages are
  not modelled.
\<close>

unbundle bit_operations_syntax

subsection \<open>The file with the voltage\<close>

definition POWER_SUPPLY_SYSFS_PATH :: string where
  "POWER_SUPPLY_SYSFS_PATH = ''/sys/class/power_supply''"

text \<open>A file: \<open>None\<close> if it cannot be opened; a read of it may fail.\<close>

type_synonym sysfs = "string \<Rightarrow> string option option"

text \<open>The part of the characters before the last newline, as \<open>memrchr\<close> finds it.\<close>

definition upto_last_newline :: "string \<Rightarrow> string" where
  "upto_last_newline s = (case dropWhile (\<lambda>c. c \<noteq> CHR 0x0A) (rev s) of [] \<Rightarrow> [] | _ # r \<Rightarrow> rev r)"

text \<open>The result of the call and the C string that is then in the buffer.\<close>

definition readFromFile :: "sysfs \<Rightarrow> string \<Rightarrow> nat \<Rightarrow> int \<times> string" where
  "readFromFile files path n =
    (if path = [] then (- 1, [])
     else case files path of None \<Rightarrow> (- 1, [])
       | Some None \<Rightarrow> (- 1, [])
       | Some (Some s) \<Rightarrow> let buf = take n s in (int (length buf), cstring (upto_last_newline buf)))"

definition isBattery :: "sysfs \<Rightarrow> string \<Rightarrow> bool" where
  "isBattery files path = (let (len, buf) = readFromFile files path 128 in len > 0 \<and> buf = ''Battery'')"

definition supply_file :: "string \<Rightarrow> string \<Rightarrow> string" where
  "supply_file nm f = POWER_SUPPLY_SYSFS_PATH @ ''/'' @ nm @ ''/'' @ f"

record healthd_config =
  batteryVoltagePath :: string
  periodic_chores_interval_fast :: int
  periodic_chores_interval_slow :: int

text \<open>The loop over the directory.\<close>

fun scan_supplies :: "sysfs \<Rightarrow> (string \<Rightarrow> bool) \<Rightarrow> string list \<Rightarrow> string \<Rightarrow> string" where
  "scan_supplies files readable [] vpath = vpath"
| "scan_supplies files readable (nm # nms) vpath =
    (if nm = ''.'' \<or> nm = ''..'' then scan_supplies files readable nms vpath
     else if isBattery files (supply_file nm ''type'') \<and> vpath = [] then
       (if readable (supply_file nm ''voltage_ocv'') then supply_file nm ''voltage_ocv''
        else if readable (supply_file nm ''voltage_now'') then supply_file nm ''voltage_now''
        else if readable (supply_file nm ''batt_vol'') then supply_file nm ''batt_vol''
        else vpath)
     else scan_supplies files readable nms vpath)"

definition init_battery_path :: "sysfs \<Rightarrow> (string \<Rightarrow> bool) \<Rightarrow> string list option \<Rightarrow> healthd_config \<Rightarrow> healthd_config" where
  "init_battery_path files readable dir hc =
    (case dir of None \<Rightarrow> hc | Some nms \<Rightarrow> hc\<lparr>batteryVoltagePath := scan_supplies files readable nms (batteryVoltagePath hc)\<rparr>)"

subsection \<open>The state of the service\<close>

text \<open>\<open>helper_runs\<close> counts the calls of the helper program.\<close>

record healthd =
  ghc :: healthd_config
  savedStatus :: int
  savedLevel :: int
  isHelperPresent :: bool
  mos :: bool
  sem_valid :: bool
  kill_thread :: bool
  helper_runs :: nat

text \<open>The memory of the buffer is \<open>garbage\<close> behind what was read.\<close>

definition is_mos :: "sysfs \<Rightarrow> string \<Rightarrow> bool" where
  "is_mos files garbage =
    (case files ''/proc/cmdline'' of Some (Some s) \<Rightarrow>
       let n = length (take 1024 s); buf = take 1023 (take 1024 s @ drop n garbage) in
       n > 0 \<and> (case strstr (cstring buf) ''androidboot.mode='' of None \<Rightarrow> False
         | Some ptr \<Rightarrow> take 4 (drop (length ''androidboot.mode='') ptr) = ''main'')
     | _ \<Rightarrow> False)"

record healthd_env =
  hfiles :: sysfs
  hreadable :: "string \<Rightarrow> bool"
  supplies :: "string list option"
  cmdline_garbage :: string
  sem_init_ok :: bool

text \<open>The variables are zero before, and the semaphore counts as valid.\<close>

definition healthd0 :: "healthd_config \<Rightarrow> healthd" where
  "healthd0 c = \<lparr>ghc = c, savedStatus = 0, savedLevel = 0, isHelperPresent = False, mos = False, sem_valid = True, kill_thread = False, helper_runs = 0\<rparr>"

definition healthd_board_init :: "healthd_env \<Rightarrow> healthd_config \<Rightarrow> healthd \<Rightarrow> healthd" where
  "healthd_board_init env config st =
    (let st = st\<lparr>mos := is_mos (hfiles env) (cmdline_garbage env)\<rparr>;
         config = init_battery_path (hfiles env) (hreadable env) (supplies env) config;
         config = config\<lparr>periodic_chores_interval_fast := - 1, periodic_chores_interval_slow := - 1\<rparr>;
         st = st\<lparr>ghc := config, isHelperPresent := (hfiles env ''/system/bin/fg_conf'' \<noteq> None)\<rparr> in
     if sem_init_ok env then st else st\<lparr>sem_valid := False\<rparr>)"

subsection \<open>A report of the battery\<close>

record battery_props =
  chargerAcOnline :: bool
  chargerUsbOnline :: bool
  chargerWirelessOnline :: bool
  batteryStatus :: int
  batteryLevel :: int

text \<open>The numbers of the states of a battery are those of the Android headers.\<close>

record battery_consts =
  STATUS_FULL :: int
  STATUS_DISCHARGING :: int
  STATUS_NOT_CHARGING :: int

definition run_helper :: "healthd \<Rightarrow> healthd" where
  "run_helper st = st\<lparr>helper_runs := Suc (helper_runs st)\<rparr>"

definition wants_helper :: "battery_consts \<Rightarrow> battery_props \<Rightarrow> healthd \<Rightarrow> bool" where
  "wants_helper K p st \<longleftrightarrow>
    batteryLevel p \<noteq> savedLevel st \<and> (batteryLevel p = 70 \<or> batteryLevel p = 5 \<or> batteryLevel p = 0) \<or>
    batteryStatus p \<noteq> savedStatus st \<and> (batteryStatus p = STATUS_FULL K \<or> batteryStatus p = STATUS_DISCHARGING K)"

text \<open>\<open>r\<close> is the result of \<open>pthread_create\<close>, and the new thread is waited for. \<open>None\<close> is the wait for a thread that was not
  created: a failure is a positive number.\<close>

definition healthd_board_battery_update :: "battery_consts \<Rightarrow> int \<Rightarrow> battery_props \<Rightarrow> healthd \<Rightarrow> (battery_props \<times> healthd) option" where
  "healthd_board_battery_update K r p st =
    (let st = (if (chargerAcOnline p \<or> chargerUsbOnline p \<or> chargerWirelessOnline p) \<and> batteryLevel p = 0
               then st\<lparr>ghc := (ghc st)\<lparr>periodic_chores_interval_fast := 60\<rparr>\<rparr> else st) in
     do { st \<leftarrow> (if isHelperPresent st \<and> wants_helper K p st
                  then if r > 0 then None
                    else Some ((if r < 0 then st else run_helper st)\<lparr>savedStatus := batteryStatus p, savedLevel := batteryLevel p\<rparr>)
                  else Some st);
          Some (if mos st \<and> batteryStatus p = STATUS_NOT_CHARGING K
                then p\<lparr>chargerWirelessOnline := False, chargerUsbOnline := False, chargerAcOnline := False\<rparr> else p, st) })"

subsection \<open>The shutdown\<close>

text \<open>The loop over the events in the buffer: each has a header of 16 bytes, the mask at offset 4 and the length of the name at
  offset 12. \<open>None\<close> is a read behind the data. The property is the one that the shutdown sets.\<close>

definition inotify_u32 :: "buffer \<Rightarrow> nat \<Rightarrow> u32 option" where
  "inotify_u32 b off = (if off + 4 \<le> length b then Some (le_word (seg off 4 b)) else None)"

function process_events :: "string \<Rightarrow> buffer \<Rightarrow> nat \<Rightarrow> healthd \<Rightarrow> healthd option" where
  "process_events shutdown b i st =
    (if i \<ge> length b then Some st
     else do { msk \<leftarrow> inotify_u32 b (i + 4);
               len \<leftarrow> inotify_u32 b (i + 12);
               process_events shutdown b (i + 16 + unat len)
                 (if len \<noteq> 0 \<and> msk AND 2 \<noteq> 0 \<and> shutdown \<noteq> ''NONE'' then (run_helper st)\<lparr>kill_thread := True\<rparr> else st) })"
  by pat_completeness auto
termination by (relation "measure (\<lambda>(_, b, i, _). length b - i)") auto

declare process_events.simps [simp del]

text \<open>The data is \<open>None\<close> when the read fails.\<close>

definition healthd_process_inotify_evt :: "string \<Rightarrow> buffer option \<Rightarrow> healthd \<Rightarrow> (int \<times> healthd) option" where
  "healthd_process_inotify_evt shutdown data st =
    (case data of None \<Rightarrow> Some (- 1, st) | Some b \<Rightarrow> map_option (Pair 0) (process_events shutdown (take 1024 b) 0 st))"

text \<open>The thread after it has been woken up once for each element of a list. It does not end, since the \<open>break\<close> leaves only the
  inner loop.\<close>

fun inotify_thread :: "(string \<times> buffer option) list \<Rightarrow> healthd \<Rightarrow> healthd option" where
  "inotify_thread [] st = Some st"
| "inotify_thread ((shutdown, data) # ws) st =
    do { (_, st) \<leftarrow> healthd_process_inotify_evt shutdown data st; inotify_thread ws st }"

subsection \<open>The voltage file is that of the first battery\<close>

definition first_battery :: "sysfs \<Rightarrow> string list \<Rightarrow> string option" where
  "first_battery files = find (\<lambda>nm. nm \<noteq> ''.'' \<and> nm \<noteq> ''..'' \<and> isBattery files (supply_file nm ''type''))"

definition voltage_file :: "(string \<Rightarrow> bool) \<Rightarrow> string \<Rightarrow> string option" where
  "voltage_file readable nm = find readable (map (supply_file nm) [''voltage_ocv'', ''voltage_now'', ''batt_vol''])"

lemma scan_supplies_first:
  "scan_supplies files readable nms [] = (case first_battery files nms of None \<Rightarrow> [] | Some nm \<Rightarrow> case_option [] id (voltage_file readable nm))"
  by (induction nms) (auto simp: first_battery_def voltage_file_def)

lemma scan_supplies_kept: "vpath \<noteq> [] \<Longrightarrow> scan_supplies files readable nms vpath = vpath"
  by (induction nms) auto

text \<open>\<open>healthd_board_init\<close> keeps a path for the voltage that is already set. Otherwise it takes the first supply of the directory whose
  type is Battery and the first readable one of its files for the open-circuit voltage, the present voltage and \<open>batt_vol\<close>, and leaves
  the path empty if there is none; polling is off.\<close>

theorem battery_path_found:
  assumes "supplies env = Some nms"
  shows "let c' = ghc (healthd_board_init env c st) in
    batteryVoltagePath c' = (if batteryVoltagePath c \<noteq> [] then batteryVoltagePath c
      else case first_battery (hfiles env) nms of None \<Rightarrow> [] | Some nm \<Rightarrow> case_option [] id (voltage_file (hreadable env) nm)) \<and>
    periodic_chores_interval_fast c' = - 1 \<and> periodic_chores_interval_slow c' = - 1"
  using assms by (auto simp: healthd_board_init_def init_battery_path_def scan_supplies_first scan_supplies_kept Let_def)

subsection \<open>Reports\<close>

lemma report_handled:
  assumes "healthd_board_battery_update K 0 p st = Some (p', st')"
  shows "helper_runs st' = helper_runs st + (if isHelperPresent st \<and> wants_helper K p st then 1 else 0)"
    and "isHelperPresent st \<Longrightarrow> \<not> wants_helper K p st'"
    and "chargerAcOnline p' \<longleftrightarrow> chargerAcOnline p \<and> \<not> (mos st \<and> batteryStatus p = STATUS_NOT_CHARGING K)"
  using assms by (auto simp: healthd_board_battery_update_def wants_helper_def run_helper_def Let_def split: if_splits)

text \<open>The saved level is that of the last report that started the helper, not that of the last report: the helper is not started when the
  level comes back to it.\<close>

definition sample_battery :: battery_consts where
  "sample_battery = \<lparr>STATUS_FULL = 5, STATUS_DISCHARGING = 3, STATUS_NOT_CHARGING = 4\<rparr>"

definition sample_report :: "int \<Rightarrow> battery_props" where
  "sample_report level = \<lparr>chargerAcOnline = True, chargerUsbOnline = False, chargerWirelessOnline = False, batteryStatus = 2, batteryLevel = level\<rparr>"

fun reports :: "battery_consts \<Rightarrow> battery_props list \<Rightarrow> healthd \<Rightarrow> healthd option" where
  "reports K [] st = Some st"
| "reports K (p # ps) st = do { (_, st) \<leftarrow> healthd_board_battery_update K 0 p st; reports K ps st }"

lemma returning_level_missed:
  "map_option helper_runs (reports sample_battery (map sample_report [70, 71, 70]) ((healthd0 c)\<lparr>isHelperPresent := True\<rparr>)) = Some 1"
  by (simp add: healthd_board_battery_update_def wants_helper_def run_helper_def healthd0_def sample_battery_def sample_report_def Let_def)

subsection \<open>The helper is run by one thread at a time\<close>

text \<open>The thread of the shutdown and the one that a report starts. Each waits for the semaphore, runs the helper and posts the
  semaphore; the waits and posts are left out when the semaphore could not be created. Neither thread looks at the result of
  \<open>sem_wait\<close>, which may fail at any time, for instance when a signal interrupts it: the thread then runs the helper without having
  taken the semaphore, and posts it all the same. \<open>failed_waits\<close> counts these failures.\<close>

datatype helper_thread = Inotify_thread | Exec_thread
datatype helper_place = Outside | At_wait | In_helper

record helper_state =
  place :: "helper_thread \<Rightarrow> helper_place"
  fg_sem :: nat
  semaphore :: bool
  failed_waits :: nat

inductive helper_step :: "helper_state \<Rightarrow> helper_state \<Rightarrow> bool" where
  arrive: "place s t = Outside \<Longrightarrow> helper_step s (s\<lparr>place := (place s)(t := At_wait)\<rparr>)"
| wait: "place s t = At_wait \<Longrightarrow> semaphore s \<Longrightarrow> 0 < fg_sem s \<Longrightarrow> helper_step s (s\<lparr>place := (place s)(t := In_helper), fg_sem := fg_sem s - 1\<rparr>)"
| wait_fails: "place s t = At_wait \<Longrightarrow> semaphore s \<Longrightarrow>
    helper_step s (s\<lparr>place := (place s)(t := In_helper), failed_waits := failed_waits s + 1\<rparr>)"
| no_wait: "place s t = At_wait \<Longrightarrow> \<not> semaphore s \<Longrightarrow> helper_step s (s\<lparr>place := (place s)(t := In_helper)\<rparr>)"
| post: "place s t = In_helper \<Longrightarrow>
    helper_step s (s\<lparr>place := (place s)(t := Outside), fg_sem := (if semaphore s then fg_sem s + 1 else fg_sem s)\<rparr>)"

definition helper_start :: "bool \<Rightarrow> helper_state" where
  "helper_start ok = \<lparr>place = (\<lambda>_. Outside), fg_sem = 1, semaphore = ok, failed_waits = 0\<rparr>"

definition helpers :: "helper_state \<Rightarrow> nat" where
  "helpers s = (if place s Inotify_thread = In_helper then 1 else 0) + (if place s Exec_thread = In_helper then 1 else 0)"

text \<open>Every failed wait lets one more thread in, then and ever after.\<close>

lemma helper_step_inv:
  assumes "helper_step s s'" "semaphore s" "fg_sem s + helpers s = 1 + failed_waits s"
  shows "semaphore s' \<and> fg_sem s' + helpers s' = 1 + failed_waits s'"
  using assms
proof cases
  case (arrive t)
  then show ?thesis using assms by (cases t) (auto simp: helpers_def split: if_splits)
next
  case (wait t)
  then show ?thesis using assms by (cases t) (auto simp: helpers_def split: if_splits)
next
  case (wait_fails t)
  then show ?thesis using assms by (cases t) (auto simp: helpers_def split: if_splits)
next
  case (post t)
  then show ?thesis using assms by (cases t) (auto simp: helpers_def split: if_splits)
qed (use assms in simp)

lemma helper_reach_inv:
  "helper_step\<^sup>*\<^sup>* (helper_start True) s \<Longrightarrow> semaphore s \<and> fg_sem s + helpers s = 1 + failed_waits s"
  by (induction rule: rtranclp_induct) (auto simp: helper_start_def helpers_def dest: helper_step_inv)

lemma helpers_both: "t \<noteq> u \<Longrightarrow> helpers s = (if place s t = In_helper then 1 else 0) + (if place s u = In_helper then 1 else 0)"
  by (cases t; cases u) (auto simp: helpers_def)

text \<open>C28: When the semaphore could be created, and as long as no \<open>sem_wait\<close> has failed, the two threads never run the helper at the
  same time, in whatever order they take their steps. In every case, failed waits included, a thread that waits can take the semaphore
  and go on unless the other one is running the helper. Since neither thread tests the result of \<open>sem_wait\<close>, a wait that fails (as
  with EINTR) lets the thread run the helper without the semaphore and post it afterwards: the semaphore and the running helpers
  together then count one more for each failed wait, for good, so that the exclusion is lost.\<close>

theorem helper_exclusive:
  assumes "helper_step\<^sup>*\<^sup>* (helper_start True) s" "t \<noteq> u"
  shows "(failed_waits s = 0 \<longrightarrow> \<not> (place s t = In_helper \<and> place s u = In_helper)) \<and>
    (place s t = At_wait \<longrightarrow> place s u = In_helper \<or>
      (\<exists>s'. helper_step s s' \<and> place s' t = In_helper \<and> fg_sem s = Suc (fg_sem s') \<and> failed_waits s' = failed_waits s)) \<and>
    fg_sem s + helpers s = 1 + failed_waits s"
proof -
  have i: "semaphore s" "fg_sem s + helpers s = 1 + failed_waits s" using helper_reach_inv [OF assms(1)] by auto
  note h = i(2) [unfolded helpers_both [OF assms(2)]]
  have "\<exists>s'. helper_step s s' \<and> place s' t = In_helper \<and> fg_sem s = Suc (fg_sem s') \<and> failed_waits s' = failed_waits s"
    if "place s t = At_wait" "place s u \<noteq> In_helper"
  proof -
    have "0 < fg_sem s" using h that by simp
    then show ?thesis using helper_step.wait [OF that(1) i(1)]
      by (intro exI [of _ "s\<lparr>place := (place s)(t := In_helper), fg_sem := fg_sem s - 1\<rparr>"]) simp
  qed
  moreover have "\<not> (place s t = In_helper \<and> place s u = In_helper)" if "failed_waits s = 0" using h that by auto
  ultimately show ?thesis using i(2) by blast
qed

text \<open>Runs of the two threads: the one of the shutdown takes the semaphore; then the other one arrives and its wait fails.\<close>

definition shutdown_running :: helper_state where
  "shutdown_running = \<lparr>place = (\<lambda>_. Outside)(Inotify_thread := In_helper), fg_sem = 0, semaphore = True, failed_waits = 0\<rparr>"

lemma shutdown_running_reached: "helper_step\<^sup>*\<^sup>* (helper_start True) shutdown_running"
proof -
  let ?s1 = "(helper_start True)\<lparr>place := (place (helper_start True))(Inotify_thread := At_wait)\<rparr>"
  let ?s2 = "?s1\<lparr>place := (place ?s1)(Inotify_thread := In_helper), fg_sem := fg_sem ?s1 - 1\<rparr>"
  have "helper_step (helper_start True) ?s1" by (rule helper_step.arrive) (simp add: helper_start_def)
  moreover have "helper_step ?s1 ?s2" by (rule helper_step.wait) (simp_all add: helper_start_def)
  moreover have "?s2 = shutdown_running" by (simp add: helper_start_def shutdown_running_def)
  ultimately show ?thesis by auto
qed

lemma failed_wait_breaks_exclusion:
  "\<exists>s. helper_step\<^sup>*\<^sup>* (helper_start True) s \<and> failed_waits s = 1 \<and> place s Inotify_thread = In_helper \<and> place s Exec_thread = In_helper"
proof -
  let ?s1 = "shutdown_running\<lparr>place := (place shutdown_running)(Exec_thread := At_wait)\<rparr>"
  let ?s2 = "?s1\<lparr>place := (place ?s1)(Exec_thread := In_helper), failed_waits := failed_waits ?s1 + 1\<rparr>"
  have "helper_step shutdown_running ?s1" by (rule helper_step.arrive) (simp add: shutdown_running_def)
  moreover have "helper_step ?s1 ?s2" by (rule helper_step.wait_fails) (simp_all add: shutdown_running_def)
  ultimately have "helper_step\<^sup>*\<^sup>* (helper_start True) ?s2" using shutdown_running_reached by (meson rtranclp.rtrancl_into_rtrancl)
  then show ?thesis by (intro exI [of _ ?s2]) (simp add: shutdown_running_def)
qed

theorem helper_exclusive_witness:
  "helper_step\<^sup>*\<^sup>* (helper_start True) shutdown_running \<and> failed_waits shutdown_running = 0 \<and>
   place shutdown_running Inotify_thread = In_helper \<and> place shutdown_running Exec_thread \<noteq> In_helper"
  using helper_exclusive [OF shutdown_running_reached, of Inotify_thread Exec_thread] shutdown_running_reached
  by (simp add: shutdown_running_def)

subsection \<open>Events of the shutdown\<close>

text \<open>An event as the kernel writes it: a watch, a mask, a cookie and a name.\<close>

definition enc_event :: "u32 \<times> u32 \<times> u32 \<times> buffer \<Rightarrow> buffer" where
  "enc_event e = (case e of (wd, msk, cookie, nm) \<Rightarrow>
     le_bytes 4 wd @ le_bytes 4 msk @ le_bytes 4 cookie @ le_bytes 4 (of_nat (length nm) :: u32) @ nm)"

definition is_modify :: "u32 \<times> u32 \<times> u32 \<times> buffer \<Rightarrow> bool" where
  "is_modify e = (case e of (wd, msk, cookie, nm) \<Rightarrow> nm \<noteq> [] \<and> msk AND 2 \<noteq> 0)"

lemma length_enc_event: "length (enc_event (wd, msk, cookie, nm)) = 16 + length nm"
  by (simp add: enc_event_def)

lemma event_fields:
  assumes "b = pre @ enc_event (wd, msk, cookie, nm) @ rest"
  shows "inotify_u32 b (length pre + 4) = Some msk" "inotify_u32 b (length pre + 12) = Some (of_nat (length nm))"
  using assms by (simp_all add: inotify_u32_def enc_event_def seg_def)

lemma process_events_list:
  assumes "b = pre @ concat (map enc_event evs)" "length b \<le> 1024"
  shows "process_events shutdown b (length pre) st =
    Some (st\<lparr>helper_runs := helper_runs st + (if shutdown \<noteq> ''NONE'' then length (filter is_modify evs) else 0),
      kill_thread := kill_thread st \<or> shutdown \<noteq> ''NONE'' \<and> filter is_modify evs \<noteq> []\<rparr>)"
  using assms
proof (induction evs arbitrary: pre st)
  case Nil
  then show ?case by (simp add: process_events.simps)
next
  case (Cons e evs)
  obtain wd msk cookie nm where e: "e = (wd, msk, cookie, nm)" by (cases e) auto
  have b: "b = pre @ enc_event (wd, msk, cookie, nm) @ concat (map enc_event evs)" using Cons.prems(1) e by simp
  have l: "length nm < 1024" using Cons.prems(2) b by (simp add: length_enc_event)
  have lb: "length pre < length b" using b by (simp add: length_enc_event)
  have u: "unat (of_nat (length nm) :: u32) = length nm" using l by (simp add: unsigned_of_nat take_bit_nat_eq_self)
  have z: "(of_nat (length nm) :: u32) \<noteq> 0 \<longleftrightarrow> nm \<noteq> []" using u by (metis length_0_conv unat_eq_zero)
  let ?st = "if is_modify e \<and> shutdown \<noteq> ''NONE'' then (run_helper st)\<lparr>kill_thread := True\<rparr> else st"
  have "process_events shutdown b (length pre) st = process_events shutdown b (length (pre @ enc_event e)) ?st"
    using lb by (subst process_events.simps) (simp add: event_fields [OF b] u z e length_enc_event is_modify_def add.assoc)
  also have "\<dots> = Some (?st\<lparr>helper_runs := helper_runs ?st + (if shutdown \<noteq> ''NONE'' then length (filter is_modify evs) else 0),
      kill_thread := kill_thread ?st \<or> shutdown \<noteq> ''NONE'' \<and> filter is_modify evs \<noteq> []\<rparr>)"
    by (rule Cons.IH) (use Cons.prems in simp_all)
  finally show ?case by (simp add: run_helper_def)
qed

text \<open>When a buffer of whole events is read, the helper is run once for each modification of a file with a name, provided that a shutdown
  was requested, and the thread is then marked as finished; nothing is read behind the data.\<close>

theorem shutdown_events_counted:
  assumes "length (concat (map enc_event evs)) \<le> 1024"
  shows "healthd_process_inotify_evt shutdown (Some (concat (map enc_event evs))) st =
    Some (0, st\<lparr>helper_runs := helper_runs st + (if shutdown \<noteq> ''NONE'' then length (filter is_modify evs) else 0),
      kill_thread := kill_thread st \<or> shutdown \<noteq> ''NONE'' \<and> filter is_modify evs \<noteq> []\<rparr>)"
  using process_events_list [of _ "[]" evs shutdown st] assms by (simp add: healthd_process_inotify_evt_def)

subsection \<open>Samples\<close>

definition sample_sysfs :: sysfs where
  "sample_sysfs path = (if path = supply_file ''usb'' ''type'' then Some (Some (''USB'' @ [CHR 0x0A]))
     else if path = supply_file ''bat'' ''type'' then Some (Some (''Battery'' @ [CHR 0x0A])) else None)"

definition sample_healthd_env :: healthd_env where
  "sample_healthd_env = \<lparr>hfiles = sample_sysfs, hreadable = (\<lambda>p. p = supply_file ''bat'' ''voltage_now''),
     supplies = Some [''.'', ''..'', ''usb'', ''bat''], cmdline_garbage = replicate 1024 (CHR 0x00), sem_init_ok = True\<rparr>"

theorem battery_path_found_witness:
  "let c = \<lparr>batteryVoltagePath = [], periodic_chores_interval_fast = 60, periodic_chores_interval_slow = 600\<rparr> in
   batteryVoltagePath (ghc (healthd_board_init sample_healthd_env c (healthd0 c))) = ''/sys/class/power_supply/bat/voltage_now''"
proof -
  have s: "supplies sample_healthd_env = Some [''.'', ''..'', ''usb'', ''bat'']" by (simp add: sample_healthd_env_def)
  have b: "first_battery (hfiles sample_healthd_env) [''.'', ''..'', ''usb'', ''bat''] = Some ''bat''"
    by (simp add: first_battery_def sample_healthd_env_def isBattery_def readFromFile_def sample_sysfs_def supply_file_def
        POWER_SUPPLY_SYSFS_PATH_def upto_last_newline_def cstring_def)
  have v: "voltage_file (hreadable sample_healthd_env) ''bat'' = Some ''/sys/class/power_supply/bat/voltage_now''"
    by (simp add: voltage_file_def sample_healthd_env_def supply_file_def POWER_SUPPLY_SYSFS_PATH_def)
  show ?thesis using battery_path_found [OF s] b v by (simp add: Let_def)
qed

definition sample_healthd :: healthd where
  "sample_healthd = healthd0 \<lparr>batteryVoltagePath = [], periodic_chores_interval_fast = 60, periodic_chores_interval_slow = 600\<rparr>"

theorem shutdown_events_counted_witness:
  "healthd_process_inotify_evt ''1'' (Some (concat (map enc_event [(1, 2, 0, [1, 0]), (1, 4, 0, [1, 0])]))) sample_healthd =
    Some (0, sample_healthd\<lparr>helper_runs := 1, kill_thread := True\<rparr>)"
  using shutdown_events_counted [of "[(1, 2, 0, [1, 0]), (1, 4, 0, [1, 0])]" "''1''" sample_healthd]
  by (simp add: length_enc_event is_modify_def sample_healthd_def healthd0_def)

end
