(* ===== verification/Houdini.thy ===== *)
theory Houdini
  imports Prov_Prelude
begin

text \<open>
  The hooks of the translator for ARM programs: \<open>houdini/hooks/houdini_hook.c\<close>, which gives such programs another file in
  place of \<open>/proc/cpuinfo\<close>, and \<open>houdini/hooks/libhoudini_hook.cpp\<close>, which loads the translator when a library cannot be loaded
  otherwise and passes calls on to it. The translator is not part of the repository: the functions that it provides are arguments, as
  are the files and the results of \<open>dlopen\<close> and \<open>dlsym\<close>. Log messages are not modelled.
\<close>

subsection \<open>The file with the processor\<close>

definition APP_WITH_ABI2 :: string where "APP_WITH_ABI2 = ''/data/data/.appwithABI2''"
definition APP_WITH_ABI2_NEON :: string where "APP_WITH_ABI2_NEON = ''/data/data/.appwithABI2neon''"
definition CPUINFO :: string where "CPUINFO = ''/proc/cpuinfo''"
definition ARM_CPUINFO :: string where "ARM_CPUINFO = ''/system/lib/arm/cpuinfo''"
definition ARM_CPUINFO_NEON :: string where "ARM_CPUINFO_NEON = ''/system/lib/arm/cpuinfo.neon''"

text \<open>The loop over a file of user numbers. A short read changes only the first bytes of the number.\<close>

function scan_uids :: "u32 \<Rightarrow> buffer \<Rightarrow> buffer \<Rightarrow> bool" where
  "scan_uids myuid pkguid b =
    (if b = [] then False
     else let pkguid = overlay 0 (take 4 b) pkguid in
       if le_word pkguid = myuid then True else scan_uids myuid pkguid (drop 4 b))"
  by pat_completeness auto
termination by (relation "measure (\<lambda>(_, _, b). length b)") auto

declare scan_uids.simps [simp del]

definition uid_listed :: "(string \<Rightarrow> buffer option) \<Rightarrow> string \<Rightarrow> u32 \<Rightarrow> bool" where
  "uid_listed files f myuid = (case files f of None \<Rightarrow> False | Some b \<Rightarrow> scan_uids myuid [0, 0, 0, 0] b)"

text \<open>\<open>openf\<close> is \<open>open\<close> with the flags and the mode of the caller; \<open>-1\<close> is its failure.\<close>

definition houdini_hook_open_neon :: "(string \<Rightarrow> buffer option) \<Rightarrow> (string \<Rightarrow> int) \<Rightarrow> u32 \<Rightarrow> int" where
  "houdini_hook_open_neon files openf myuid = (if uid_listed files APP_WITH_ABI2_NEON myuid then openf ARM_CPUINFO_NEON else - 1)"

definition houdini_hook_open :: "(string \<Rightarrow> buffer option) \<Rightarrow> (string \<Rightarrow> int) \<Rightarrow> u32 \<Rightarrow> string \<Rightarrow> int" where
  "houdini_hook_open files openf myuid path =
    (let fd = (if path = CPUINFO \<and> uid_listed files APP_WITH_ABI2 myuid then
                 let fd = houdini_hook_open_neon files openf myuid in if fd = - 1 then openf ARM_CPUINFO else fd
               else - 1) in
     if fd = - 1 then openf path else fd)"

lemma scan_uids_words:
  "length pkguid = 4 \<Longrightarrow> scan_uids myuid pkguid (concat (map (le_bytes 4) us)) \<longleftrightarrow> myuid \<in> set us"
proof (induction us arbitrary: pkguid)
  case (Cons u us)
  have o: "overlay 0 (le_bytes 4 u) pkguid = le_bytes 4 u" using Cons.prems by (simp add: overlay_def)
  have n: "le_bytes 4 w \<noteq> []" for w :: u32 using length_le_bytes [of 4 w] by (metis list.size(3) zero_neq_numeral)
  have "scan_uids myuid pkguid (le_bytes 4 u @ concat (map (le_bytes 4) us)) \<longleftrightarrow>
     u = myuid \<or> scan_uids myuid (le_bytes 4 u) (concat (map (le_bytes 4) us))"
    by (subst scan_uids.simps) (auto simp: o n Let_def)
  then show ?case using Cons.IH [of "le_bytes 4 u"] by auto
qed (simp add: scan_uids.simps)

text \<open>The files that are tried in turn.\<close>

definition cpuinfo_candidates :: "u32 list \<Rightarrow> u32 list \<Rightarrow> u32 \<Rightarrow> string \<Rightarrow> string list" where
  "cpuinfo_candidates abi2 neon myuid path =
    (if path = CPUINFO \<and> myuid \<in> set abi2 then (if myuid \<in> set neon then [ARM_CPUINFO_NEON] else []) @ [ARM_CPUINFO] else []) @ [path]"

text \<open>When the two files of user numbers hold whole numbers, \<open>houdini_hook_open\<close> opens the first file that can be opened among: the
  file for processors with NEON and the one for ARM processors, if \<open>/proc/cpuinfo\<close> is asked for by a user that is listed for them, and
  then the file that was asked for.\<close>

theorem cpuinfo_redirected:
  assumes "files APP_WITH_ABI2 = Some (concat (map (le_bytes 4) abi2))" "files APP_WITH_ABI2_NEON = Some (concat (map (le_bytes 4) neon))"
  shows "houdini_hook_open files openf myuid path =
    (case find (\<lambda>p. openf p \<noteq> - 1) (cpuinfo_candidates abi2 neon myuid path) of None \<Rightarrow> - 1 | Some p \<Rightarrow> openf p)"
  using assms by (simp add: houdini_hook_open_def houdini_hook_open_neon_def uid_listed_def scan_uids_words cpuinfo_candidates_def Let_def)

subsection \<open>The translator\<close>

text \<open>A pointer in allocated memory is not initialized before it is stored.\<close>

datatype 'a pointer = Uninitialised | Null | Function 'a

text \<open>A call of translated code: whether it is the load function of a library, the function, the type of its result, and the types and
  places of its arguments.\<close>

datatype arg_place = Env_arg | Clazz_arg | Argv nat | Vm_arg | Null_arg

datatype native_call = Native_call bool nat char "char list" "arg_place list"

record houdiniHook =
  dvm2hdInit :: "bool pointer"
  dvm2hdDlopen :: "(string \<Rightarrow> int \<Rightarrow> nat) pointer"
  dvm2hdDlsym :: "(nat \<Rightarrow> string \<Rightarrow> nat) pointer"
  dvm2hdNativeMethodHelper :: "(native_call \<Rightarrow> int) pointer"
  dvm2hdNeeded :: "(nat \<Rightarrow> bool) pointer"
  androidrt2hdCreateActivity :: "unit pointer"

text \<open>The symbols of the library, \<open>None\<close> for one that is missing. The result of its initialization is part of the symbol.\<close>

record houdini_library =
  lib_init :: "bool option"
  lib_dlopen :: "(string \<Rightarrow> int \<Rightarrow> nat) option"
  lib_dlsym :: "(nat \<Rightarrow> string \<Rightarrow> nat) option"
  lib_helper :: "(native_call \<Rightarrow> int) option"
  lib_needed :: "(nat \<Rightarrow> bool) option"
  lib_activity :: "unit option"

record houdini_state =
  gHoudini :: "houdiniHook option"
  gHoudiniHook :: "houdiniHook option"

text \<open>Handles and functions are addresses, 0 being the null pointer. \<open>elf\<close> is what opening, positioning and reading a file give.\<close>

datatype elf_file = Not_opened | Seek_fails | Read_fails | Contents buffer

record houdini_env =
  houdini_prop :: string
  malloc_succeeds :: bool
  libhoudini :: "houdini_library option"
  sys_dlopen :: "string \<Rightarrow> int \<Rightarrow> nat"
  sys_dlsym :: "nat \<Rightarrow> string \<Rightarrow> nat"
  elf :: "string \<Rightarrow> elf_file"
  header_garbage :: buffer

definition dlsym_of :: "'a option \<Rightarrow> 'a pointer" where
  "dlsym_of s = (case s of None \<Rightarrow> Null | Some f \<Rightarrow> Function f)"

definition fresh_hook :: houdiniHook where
  "fresh_hook = \<lparr>dvm2hdInit = Uninitialised, dvm2hdDlopen = Uninitialised, dvm2hdDlsym = Uninitialised,
     dvm2hdNativeMethodHelper = Uninitialised, dvm2hdNeeded = Uninitialised, androidrt2hdCreateActivity = Uninitialised\<rparr>"

text \<open>The hook with the functions of a library.\<close>

definition loaded_hook :: "houdini_library \<Rightarrow> houdiniHook" where
  "loaded_hook l = \<lparr>dvm2hdInit = dlsym_of (lib_init l), dvm2hdDlopen = dlsym_of (lib_dlopen l), dvm2hdDlsym = dlsym_of (lib_dlsym l),
     dvm2hdNativeMethodHelper = dlsym_of (lib_helper l), dvm2hdNeeded = dlsym_of (lib_needed l),
     androidrt2hdCreateActivity = dlsym_of (lib_activity l)\<rparr>"

definition houdiniHookInit :: "houdini_env \<Rightarrow> houdini_state \<Rightarrow> bool \<times> houdini_state" where
  "houdiniHookInit env st =
    (if houdini_prop env \<noteq> ''on'' \<and> houdini_prop env \<noteq> '''' then (False, st)
     else case gHoudiniHook st of Some g \<Rightarrow> (True, st\<lparr>gHoudini := Some g\<rparr>)
     | None \<Rightarrow>
       if \<not> malloc_succeeds env then (False, st\<lparr>gHoudini := None\<rparr>)
       else case libhoudini env of None \<Rightarrow> (False, st\<lparr>gHoudini := Some fresh_hook\<rparr>)
       | Some l \<Rightarrow>
         (case lib_init l of None \<Rightarrow> (False, st\<lparr>gHoudini := Some (fresh_hook\<lparr>dvm2hdInit := Null\<rparr>)\<rparr>)
          | Some ok \<Rightarrow>
            if \<not> ok then (False, st\<lparr>gHoudini := Some (fresh_hook\<lparr>dvm2hdInit := Function ok\<rparr>)\<rparr>)
            else let g = loaded_hook l; st = st\<lparr>gHoudini := Some g\<rparr> in
              if dvm2hdDlopen g = Null \<or> dvm2hdDlsym g = Null \<or> dvm2hdNeeded g = Null \<or> dvm2hdNativeMethodHelper g = Null \<or>
                 androidrt2hdCreateActivity g = Null then (False, st)
              else (True, st\<lparr>gHoudiniHook := Some g\<rparr>)))"

subsection \<open>Calls\<close>

text \<open>\<open>None\<close> is a call through a pointer that is null or not initialized.\<close>

definition hookCheckMethod :: "nat \<Rightarrow> houdini_state \<Rightarrow> (bool \<times> houdini_state) option" where
  "hookCheckMethod fnPtr st =
    (let st = (if gHoudini st = None then st\<lparr>gHoudini := gHoudiniHook st\<rparr> else st) in
     case gHoudini st of None \<Rightarrow> Some (False, st)
     | Some g \<Rightarrow> (case dvm2hdNeeded g of Function f \<Rightarrow> Some (f fnPtr, st) | _ \<Rightarrow> None))"

text \<open>The types of the arguments and their places among the words of \<open>argv\<close>; a \<open>double\<close> and a \<open>long\<close> take two.\<close>

fun place_args :: "string \<Rightarrow> nat \<Rightarrow> (char \<times> arg_place) list" where
  "place_args [] i = []"
| "place_args (c # cs) i = (c, Argv i) # place_args cs (if c = CHR ''D'' \<or> c = CHR ''J'' then i + 2 else i + 1)"

text \<open>\<open>None\<close> is a read behind an empty signature or a write behind the arrays, which have room for two arguments more than there are
  words. The result is the call that is made, if any.\<close>

definition dvmHookPlatformInvoke ::
    "bool \<Rightarrow> nat \<Rightarrow> string \<Rightarrow> nat \<Rightarrow> houdini_state \<Rightarrow> native_call option option" where
  "dvmHookPlatformInvoke has_clazz argc shorty func st =
    (case shorty of [] \<Rightarrow> None
     | retType # params \<Rightarrow>
       let as = place_args params (if has_clazz then 0 else 1);
           kMaxArgs = argc + 2; dstArg = 2 + length as in
       if dstArg > kMaxArgs then None
       else case gHoudini st of None \<Rightarrow> Some None
         | Some g \<Rightarrow> (case dvm2hdNativeMethodHelper g of
             Function f \<Rightarrow> Some (Some (Native_call False func retType (''LL'' @ map fst as)
               ([Env_arg, if has_clazz then Clazz_arg else Argv 0] @ map snd as)))
           | _ \<Rightarrow> None))"

text \<open>The machine is at offset 18 of the header, 40 being ARM; the buffer is \<open>garbage\<close> behind what was read.\<close>

definition hookCheckABI2Header :: "houdini_env \<Rightarrow> string \<Rightarrow> bool" where
  "hookCheckABI2Header env filename =
    (case elf env filename of Not_opened \<Rightarrow> True | Seek_fails \<Rightarrow> False | Read_fails \<Rightarrow> False
     | Contents b \<Rightarrow> (le_word (seg 18 2 (overlay 0 (take 64 b) (header_garbage env))) :: u16) = 40)"

text \<open>The result is the handle and whether the translator is used.\<close>

definition hookDlopen :: "houdini_env \<Rightarrow> string \<Rightarrow> int \<Rightarrow> houdini_state \<Rightarrow> (nat \<times> bool \<times> houdini_state) option" where
  "hookDlopen env filename flag st =
    (let handle = sys_dlopen env filename flag in
     if handle \<noteq> 0 then Some (handle, False, st)
     else if \<not> hookCheckABI2Header env filename then Some (0, False, st)
     else let (useHoudini, st) = houdiniHookInit env st in
       if useHoudini then (case gHoudini st of Some g \<Rightarrow> (case dvm2hdDlopen g of Function f \<Rightarrow> Some (f filename flag, True, st) | _ \<Rightarrow> None) | None \<Rightarrow> None)
       else Some (0, False, st))"

definition hookDlsym :: "houdini_env \<Rightarrow> bool \<Rightarrow> nat \<Rightarrow> string \<Rightarrow> houdini_state \<Rightarrow> nat option" where
  "hookDlsym env useHoudini handle symbol st =
    (if useHoudini then (case gHoudini st of None \<Rightarrow> Some 0
       | Some g \<Rightarrow> (case dvm2hdDlsym g of Function f \<Rightarrow> Some (f handle symbol) | _ \<Rightarrow> None))
     else Some (sys_dlsym env handle symbol))"

text \<open>\<open>direct\<close> is the result of a direct call of the function.\<close>

definition hookJniOnload :: "(nat \<Rightarrow> int) \<Rightarrow> bool \<Rightarrow> nat \<Rightarrow> houdini_state \<Rightarrow> int option" where
  "hookJniOnload direct useHoudini func st =
    (if useHoudini then (case gHoudini st of None \<Rightarrow> Some 0
       | Some g \<Rightarrow> (case dvm2hdNativeMethodHelper g of Function f \<Rightarrow> Some (f (Native_call True func CHR ''I'' [] [Vm_arg, Null_arg])) | _ \<Rightarrow> None))
     else Some (direct func))"

datatype activity_call = Translated_activity nat | Direct_activity nat | No_activity

definition hookCreateActivity :: "bool \<Rightarrow> nat \<Rightarrow> houdini_state \<Rightarrow> activity_call option" where
  "hookCreateActivity useHoudini createActivityFunc st =
    (if useHoudini then (case gHoudini st of None \<Rightarrow> Some No_activity
       | Some g \<Rightarrow> (case androidrt2hdCreateActivity g of Function _ \<Rightarrow> Some (Translated_activity createActivityFunc) | _ \<Rightarrow> None))
     else Some (Direct_activity createActivityFunc))"

subsection \<open>The arguments of a call\<close>

definition arg_words :: "char \<Rightarrow> nat" where
  "arg_words c = (if c = CHR ''D'' \<or> c = CHR ''J'' then 2 else 1)"

lemma place_args_types: "map fst (place_args cs i) = cs"
  by (induction cs arbitrary: i) auto

lemma length_place_args [simp]: "length (place_args cs i) = length cs"
  by (metis length_map place_args_types)

lemma place_args_nth: "k < length cs \<Longrightarrow> snd (place_args cs i ! k) = Argv (i + sum_list (map arg_words (take k cs)))"
  by (induction cs arbitrary: i k) (auto simp: nth_Cons arg_words_def split: nat.split)

lemma length_le_words: "length cs \<le> sum_list (map arg_words cs)"
  by (induction cs) (auto simp: arg_words_def)

text \<open>C35: A call of a translated method with as many words of arguments as its signature asks for (and one more for the object of a method
  that is not static) does not write behind the arrays. The helper gets the environment and the class or object first, and then
  each parameter with its type and the place of its first word, a \<open>double\<close> or \<open>long\<close> counting as two words.\<close>

theorem call_arguments_placed:
  assumes "argc = sum_list (map arg_words params) + (if has_clazz then 0 else 1)"
    and "gHoudini st = Some g" "dvm2hdNativeMethodHelper g = Function f"
  shows "\<exists>types places. dvmHookPlatformInvoke has_clazz argc (ret # params) func st = Some (Some (Native_call False func ret types places)) \<and>
    types = ''LL'' @ params \<and> length places = 2 + length params \<and> places ! 0 = Env_arg \<and> places ! 1 = (if has_clazz then Clazz_arg else Argv 0) \<and>
    (\<forall>k < length params. places ! (2 + k) = Argv ((if has_clazz then 0 else 1) + sum_list (map arg_words (take k params))))"
proof -
  have r: "\<not> 2 + length params > argc + 2" using assms(1) length_le_words [of params] by simp
  let ?i = "if has_clazz then 0 else 1 :: nat"
  have "dvmHookPlatformInvoke has_clazz argc (ret # params) func st = Some (Some (Native_call False func ret (''LL'' @ params)
      ([Env_arg, if has_clazz then Clazz_arg else Argv 0] @ map snd (place_args params ?i))))"
    using r assms(2,3) by (simp add: dvmHookPlatformInvoke_def Let_def place_args_types)
  then show ?thesis by (intro exI conjI) (assumption | rule refl | simp add: place_args_nth)+
qed

subsection \<open>The translator is ready when it is used\<close>

definition hook_ready :: "houdiniHook \<Rightarrow> bool" where
  "hook_ready g \<longleftrightarrow> (\<exists>a b c d. dvm2hdDlopen g = Function a \<and> dvm2hdDlsym g = Function b \<and> dvm2hdNeeded g = Function c \<and>
     dvm2hdNativeMethodHelper g = Function d) \<and> androidrt2hdCreateActivity g = Function ()"

definition shared_ready :: "houdini_state \<Rightarrow> bool" where
  "shared_ready st \<longleftrightarrow> (\<forall>g. gHoudiniHook st = Some g \<longrightarrow> hook_ready g)"

lemma init_ready:
  assumes "shared_ready st" "houdiniHookInit env st = (ok, st')"
  shows "shared_ready st' \<and> (ok \<longrightarrow> (\<exists>g. gHoudini st' = Some g \<and> hook_ready g))"
proof (cases "gHoudiniHook st")
  case (Some g)
  then show ?thesis using assms by (auto simp: houdiniHookInit_def shared_ready_def split: if_splits)
next
  case None
  have "hook_ready (loaded_hook l)" if "dvm2hdDlopen (loaded_hook l) \<noteq> Null" "dvm2hdDlsym (loaded_hook l) \<noteq> Null" "dvm2hdNeeded (loaded_hook l) \<noteq> Null"
    "dvm2hdNativeMethodHelper (loaded_hook l) \<noteq> Null" "androidrt2hdCreateActivity (loaded_hook l) \<noteq> Null" for l
    using that by (auto simp: hook_ready_def loaded_hook_def dlsym_of_def split: option.splits)
  then show ?thesis using assms None
    by (auto simp: houdiniHookInit_def shared_ready_def Let_def split: if_splits option.splits)
qed

text \<open>The machine field of the file itself, when the file is long enough to have one.\<close>

definition elf_machine :: "buffer \<Rightarrow> u16" where
  "elf_machine b = le_word (seg 18 2 b)"

lemma long_header_machine:
  assumes "elf env filename = Contents b" "20 \<le> length b"
  shows "hookCheckABI2Header env filename \<longleftrightarrow> elf_machine b = 40"
proof -
  have "seg 18 2 (overlay 0 (take 64 b) (header_garbage env)) = seg 18 2 b"
    using assms(2) by (intro nth_equalityI) (auto simp: overlay_def seg_def nth_append)
  then show ?thesis using assms(1) by (simp add: hookCheckABI2Header_def elf_machine_def)
qed

text \<open>A file too short for the field is taken for one of ARM if the memory of the buffer happens to hold 40 there.\<close>

lemma short_file_taken_for_arm:
  "\<exists>env. elf env filename = Contents [] \<and> hookCheckABI2Header env filename"
  by (intro exI [of _ "\<lparr>houdini_prop = [], malloc_succeeds = True, libhoudini = None, sys_dlopen = (\<lambda>f n. 0), sys_dlsym = (\<lambda>h s. 0),
     elf = (\<lambda>f. Contents []), header_garbage = replicate 18 0 @ le_bytes 2 (40 :: u16) @ replicate 44 0\<rparr>"])
    (simp add: hookCheckABI2Header_def overlay_def seg_def)

text \<open>C29: Starting with no shared translator or one that is completely loaded, a \<open>hookDlopen\<close> that reports the translator as used does
  so only for a library that the system cannot load and whose file cannot be opened, or has at least 20 bytes and the machine number of
  ARM in its header, or is shorter than 20 bytes: of such a file the machine number is, in whole or in part, memory of the buffer that was
  never initialised, and the file is taken for ARM if that memory holds the number. A file in which the position cannot be set or the
  read fails is never used. All functions of the translator are then set, and looking up a symbol, loading and creating an activity
  do not go through an invalid pointer.\<close>

theorem used_translator_is_ready:
  assumes "shared_ready st" "hookDlopen env filename flag st = Some (handle, True, st')"
  shows "sys_dlopen env filename flag = 0 \<and>
    (elf env filename = Not_opened \<or> (\<exists>b. elf env filename = Contents b \<and> (if 20 \<le> length b then elf_machine b = 40
       else (le_word (seg 18 2 (b @ drop (length b) (header_garbage env))) :: u16) = 40))) \<and> shared_ready st' \<and>
    hookDlsym env True handle symbol st' \<noteq> None \<and> hookJniOnload direct True func st' \<noteq> None \<and>
    hookCreateActivity True func st' = Some (Translated_activity func) \<and> hookCheckMethod func st' \<noteq> None"
proof -
  obtain st1 where h: "sys_dlopen env filename flag = 0" "hookCheckABI2Header env filename" "houdiniHookInit env st = (True, st1)" "st' = st1"
    using assms(2) by (auto simp: hookDlopen_def Let_def split: if_splits option.splits pointer.splits prod.splits)
  then obtain g where g: "gHoudini st' = Some g" "hook_ready g" and s: "shared_ready st'" using init_ready [OF assms(1) h(3)] by auto
  have e: "elf env filename = Not_opened \<or> (\<exists>b. elf env filename = Contents b \<and> (if 20 \<le> length b then elf_machine b = 40
      else (le_word (seg 18 2 (b @ drop (length b) (header_garbage env))) :: u16) = 40))"
    using h(2) long_header_machine [of env filename]
    by (cases "elf env filename") (auto simp: hookCheckABI2Header_def overlay_def)
  show ?thesis using h(1) e g s
    by (auto simp: hook_ready_def hookDlsym_def hookJniOnload_def hookCreateActivity_def hookCheckMethod_def Let_def)
qed

subsection \<open>Samples\<close>

definition sample_library :: houdini_library where
  "sample_library = \<lparr>lib_init = Some True, lib_dlopen = Some (\<lambda>f n. 7), lib_dlsym = Some (\<lambda>h s. 8), lib_helper = Some (\<lambda>c. 65540),
     lib_needed = Some (\<lambda>f. True), lib_activity = Some ()\<rparr>"

definition sample_houdini_env :: "houdini_library option \<Rightarrow> houdini_env" where
  "sample_houdini_env l = \<lparr>houdini_prop = [], malloc_succeeds = True, libhoudini = l, sys_dlopen = (\<lambda>f n. 0), sys_dlsym = (\<lambda>h s. 0),
     elf = (\<lambda>f. Contents (replicate 18 0 @ le_bytes 2 (40 :: u16) @ replicate 44 0)), header_garbage = replicate 64 0\<rparr>"

definition no_houdini :: houdini_state where
  "no_houdini = \<lparr>gHoudini = None, gHoudiniHook = None\<rparr>"

lemmas houdini_samples = sample_library_def sample_houdini_env_def no_houdini_def houdiniHookInit_def loaded_hook_def dlsym_of_def

definition sample_uids :: "string \<Rightarrow> buffer option" where
  "sample_uids = [APP_WITH_ABI2 \<mapsto> concat (map (le_bytes 4) [10001, 10002 :: u32]), APP_WITH_ABI2_NEON \<mapsto> concat (map (le_bytes 4) [10002 :: u32])]"

definition sample_open :: "string \<Rightarrow> int" where
  "sample_open p = (if p = ARM_CPUINFO then 5 else if p = CPUINFO then 6 else - 1)"

lemmas cpuinfo_paths = APP_WITH_ABI2_def APP_WITH_ABI2_NEON_def ARM_CPUINFO_def ARM_CPUINFO_NEON_def CPUINFO_def

theorem cpuinfo_redirected_witness:
  "houdini_hook_open sample_uids sample_open 10002 CPUINFO = 5 \<and> houdini_hook_open sample_uids sample_open 10003 CPUINFO = 6"
proof -
  have f: "sample_uids APP_WITH_ABI2 = Some (concat (map (le_bytes 4) [10001, 10002 :: u32]))"
    "sample_uids APP_WITH_ABI2_NEON = Some (concat (map (le_bytes 4) [10002 :: u32]))"
    unfolding sample_uids_def by (simp_all add: cpuinfo_paths)
  show ?thesis unfolding cpuinfo_redirected [OF f] by (simp add: cpuinfo_candidates_def sample_open_def cpuinfo_paths)
qed

theorem call_arguments_placed_witness:
  "\<exists>places. dvmHookPlatformInvoke False 4 ''VJI'' 9 (no_houdini\<lparr>gHoudini := Some (loaded_hook sample_library)\<rparr>) =
     Some (Some (Native_call False 9 (CHR ''V'') ''LLJI'' places)) \<and> places ! 2 = Argv 1 \<and> places ! 3 = Argv 3"
proof -
  obtain places where p: "dvmHookPlatformInvoke False 4 (CHR ''V'' # ''JI'') 9 (no_houdini\<lparr>gHoudini := Some (loaded_hook sample_library)\<rparr>) =
      Some (Some (Native_call False 9 (CHR ''V'') (''LL'' @ ''JI'') places))"
    and k: "\<forall>k < length ''JI''. places ! (2 + k) = Argv (1 + sum_list (map arg_words (take k ''JI'')))"
    using call_arguments_placed [of 4 "''JI''" False "no_houdini\<lparr>gHoudini := Some (loaded_hook sample_library)\<rparr>" "loaded_hook sample_library" "\<lambda>c. 65540" "CHR ''V''" 9]
    by (force simp: houdini_samples arg_words_def)
  have "places ! 2 = Argv 1" using spec [OF k, of 0] by simp
  moreover have "places ! 3 = Argv 3" using spec [OF k, of 1] by (simp add: arg_words_def numeral_3_eq_3 numeral_2_eq_2)
  ultimately show ?thesis using p by auto
qed

theorem used_translator_is_ready_witness:
  "\<exists>st'. hookDlopen (sample_houdini_env (Some sample_library)) ''libgame.so'' 1 no_houdini = Some (7, True, st') \<and>
     hookCreateActivity True 3 st' = Some (Translated_activity 3)"
proof -
  have m: "hookCheckABI2Header (sample_houdini_env (Some sample_library)) ''libgame.so''"
    by (simp add: hookCheckABI2Header_def sample_houdini_env_def overlay_def seg_def)
  obtain st' where h: "hookDlopen (sample_houdini_env (Some sample_library)) ''libgame.so'' 1 no_houdini = Some (7, True, st')"
    using m by (simp add: hookDlopen_def houdini_samples Let_def)
  have "shared_ready no_houdini" by (simp add: shared_ready_def no_houdini_def)
  from used_translator_is_ready [OF this h, of "''f''" "\<lambda>_. 0" 3] h show ?thesis by blast
qed

text \<open>When the library cannot be loaded, the allocated structure stays in use with its pointers not initialized, and the check of a method goes
  through one of them.\<close>

lemma failed_load_breaks_check:
  "hookCheckMethod f (snd (houdiniHookInit (sample_houdini_env None) no_houdini)) = None"
  by (simp add: houdini_samples hookCheckMethod_def fresh_hook_def)

end
