(* ===== verification/Spec2Isabelle.thy ===== *)
theory Spec2Isabelle
  imports Gpt_Repair Guid_Text Boot_Tools Droidboot Updater Image_Store Util_System Mds_Binder Healthd Houdini
begin

text \<open>
  \<^bold>\<open>The provisioning code of the device.\<close> The repository is the Android device tree of a phone with an Intel
  processor. Its own program is \<open>libintelprov\<close>: the code that partitions the flash memory and that writes and
  identifies firmware and boot images, used by the recovery system (\<open>updater.c\<close>), by fastboot (\<open>droidboot.c\<close>) and by
  command-line tools. This development models all of its C code, from the GPT library under \<open>gpt/\<close> and the older OSIP
  partition table up to the commands and the functions of update scripts, and the host tools \<open>intel-boot-tools\<close> that pack and
  unpack boot images. It also models the services of the device that are written in C and C++: the multi-display service
  (\<open>libmultidisplay/native\<close>), the board part of the battery service (\<open>healthd\<close>) and the hooks of the translator for ARM programs
  (\<open>houdini/hooks\<close>). File and function names below are relative to \<open>src/libintelprov\<close>, those of the services to \<open>src\<close>.

  \<^bold>\<open>How the parts interact.\<close> A drive is opened, its two copies of the GPT (headers and entry tables) are loaded,
  checked and changed in memory, and closed again, which writes the changed parts back (\<open>gpt/lib/cgpt_common.c\<close>,
  \<open>cgptlib_internal.c\<close>). Each command (\<open>cgpt_*.c\<close>) is one such cycle; \<open>cmd_*.c\<close> parse its options, and
  \<open>gpt/gfdisk/cgpt.c\<close> runs a script of commands, as \<open>oem_partition.c\<close> does for fastboot and \<open>updater.c\<close> for the
  recovery system. On devices without a GPT the first sector of the eMMC holds the OSIP header, a table of image descriptors
  with a checksum byte (\<open>update_osip.c\<close>). \<open>flash_gpt\<close> and \<open>flash_osip\<close> implement reading and writing a boot image over
  either table. The firmware (IFWI) is written to the boot partitions of the eMMC (\<open>flash_scu_emmc\<close>) or through a driver
  (\<open>flash_scu_ipc\<close>), capsules to their partition or to the EFI system partition (\<open>flash_fdk\<close>, \<open>flash_edk2\<close>), each behind
  a check of versions (\<open>fw_version_check.c\<close>). \<open>flash_ops.c\<close>, \<open>flash.c\<close> choose between these by the configuration and the
  platform. Above them are \<open>bootloader.c\<close> (an image of several components), \<open>update_recovery.c\<close> (rebuilding the recovery
  image from the boot image), \<open>flashtool.c\<close>, the security engine (\<open>tee_connector.c\<close>, \<open>pmdb.c\<close>, \<open>token.c\<close>), and the
  commands and script functions that call them. The services do not use \<open>libintelprov\<close>: the composer of the multi-display service
  keeps the mode of the displays, asks \<open>drm_hdmi.cpp\<close> what is connected and tells its listeners; the battery service runs a helper
  program from two threads; the hooks load the translator when a library is for another processor.

  \<^bold>\<open>State and effects.\<close> A file or device is a \<open>blkdev\<close> record (its bytes, what \<open>stat\<close> and \<open>ioctl\<close> say of
  it, and the positions at which a read or a write fails), and the files of the system are a map from paths to such
  records. An operation takes the files and returns its C result with the files it leaves. Machine integers are words of
  their width (\<open>byte\<close>, \<open>u16\<close>, \<open>u32\<close>, \<open>u64\<close>), so that wrap-around is that of the code; C \<open>int\<close>s that are
  only counters or results are \<open>int\<close>. A packed struct is a record with an encoder and a decoder. \<open>None\<close> as the
  result of an operation is a process that has ended in a failed \<open>require\<close>, a loop that does not end, or behaviour that C
  leaves undefined (an access behind an array, a call through a pointer that is not set); an inner \<open>None\<close> is the error result or null pointer of the code, as the definition says.

  \<^bold>\<open>Parameters.\<close> Code that is not part of the repository is an argument of the definitions that use it: the random bytes
  behind \<open>uuid_generator\<close>, the layout of Android boot image headers (\<open>boot_img_layout\<close>), the path of the eMMC, what
  \<open>BLKRRPART\<close>, \<open>lstat\<close>, \<open>mmap\<close>, \<open>mkdir\<close>, \<open>mount\<close> and the drivers' \<open>ioctl\<close> return, system properties
  (\<open>platform\<close>), SHA-1 and the patch algorithm (\<open>patch_env\<close>), volumes of the recovery library (\<open>roots\<close>), the libraries of the
  security engine (\<open>tee\<close>, \<open>sep\<close>), archives (\<open>zip_lib\<close>, \<open>zip_env\<close>), the flash command of the boot loader, processes
  (\<open>process_env\<close>), and the interpreter of update scripts, of which only the values of arguments are seen; for the services, the display
  library and its constants (\<open>drm_hw\<close>, \<open>drm_consts\<close>), the callback and the surface composer (\<open>mds_callback\<close>, \<open>mds_env\<close>), parcels and their transport (\<open>parcel_lib\<close>,
  with the laws \<open>parcel_laws\<close>), the files
  of the kernel (\<open>healthd_env\<close>) and the translator with the dynamic linker (\<open>houdini_env\<close>).

  \<^bold>\<open>The theories.\<close>
  \<^item> \<open>Prov_Prelude\<close>: byte buffers, segments and overlays, little-endian words, and the locale \<open>struct_codec\<close>
    (a struct of fixed size and its accesses in a buffer), interpreted for every struct of the code.
  \<^item> \<open>Blkdev\<close>: files and devices, and the locale \<open>byte_store\<close>, interpreted for devices without defects.
  \<^item> \<open>Gpt_Crc32\<close> (\<open>crc32.c\<close>): the table-driven CRC-32 equals the bitwise shift register, and detects every change
    of one byte.
  \<^item> \<open>Gpt_Data\<close> (\<open>gpt.h\<close>, \<open>cgptlib.h\<close>): GUIDs, headers, entries, the protective MBR.
  \<^item> \<open>Gpt_Check\<close>, \<open>Gpt_Repair\<close> (\<open>cgptlib_internal.c\<close>): the checks of headers and tables, the attribute fields, the
    repair of one copy from the other. \<open>CheckEntries\<close> is proved equal to the specification of a valid table;
    \<open>GptRepair\<close> makes both copies valid whenever one is.
  \<^item> \<open>Cgpt_Common\<close>, \<open>Utf\<close>, \<open>Guid_Text\<close>, \<open>Drive\<close> (\<open>cgpt_common.c\<close>): entry accessors, checksums, UTF-8 and
    UTF-16 labels, GUIDs as text, loading and saving a drive; round trips for labels, GUIDs and drives.
  \<^item> \<open>Cgpt_Cmds\<close> (create, repair, legacy), \<open>Cgpt_Add\<close> (add, attributes, details), \<open>Cgpt_Boot\<close> (boot),
    \<open>Cgpt_Prioritize\<close> (prioritize), \<open>Cgpt_Show\<close> (show and its output), \<open>Cgpt_Find\<close> (find): each command from
    \<open>DriveOpen\<close> to \<open>DriveClose\<close>. Additions refine a list update, prioritization refines a ranking of the
    kernels, and what is added is found.
  \<^item> \<open>Cgpt_Cli\<close> (\<open>cmd_*.c\<close>, \<open>gfdisk/cgpt.c\<close>): \<open>getopt\<close>, numbers, the options of every command, the script
    interpreter.
  \<^item> \<open>Util\<close>, \<open>Util_System\<close> (\<open>util.c\<close>): complete transfers, whole files, hexadecimal dumps; messages, mapping a file, and
    running a program, with what its success means. \<open>Stdio\<close>: streams of the C library.
  \<^item> \<open>Osip\<close>, \<open>Osip_Slots\<close>, \<open>Osip_Image\<close> (\<open>update_osip.c\<close>), \<open>Osip_Flash\<close> (\<open>flash_osip/bootimage.c\<close> and
    the OSIP commands of \<open>flashtool.c\<close>): the OSIP header and its checksum, the allocation of slots, writing an image
    so that a power cut at any moment keeps the installed ones, and the invariant of sessions of such operations as a
    step relation. Both hold for images that go to a slot; the path for large images, which only \<open>testos\<close> takes, is modelled too, with
    lemmas that it overwrites a listed image and leaves the layout.
  \<^item> \<open>Flash_Ops\<close> (\<open>flash_gpt/bootimage.c\<close>, \<open>flash_ops.c\<close>, \<open>flash.c\<close>): the choice of the table and the boot image
    operations. \<open>Flashtool\<close> (\<open>flashtool.c\<close>): the program, and that an image it has saved can be restored.
  \<^item> \<open>Image_Store\<close>: the contract that whole files, GPT partitions and OSIP entries share, as the locale \<open>image_store\<close>, interpreted
    for each of the three; an update of several images leaves every one of them readable, in whatever order it writes them.
  \<^item> \<open>Fw_Version\<close> (\<open>fw_version_check.c\<close>): the versions of the running firmware and of an image, and their order.
  \<^item> \<open>Ifwi_Emmc\<close>, \<open>Ifwi_Ipc\<close> (\<open>flash_scu_emmc/ifwi.c\<close>, \<open>flash_scu_ipc/ifwi.c\<close>), \<open>Capsule\<close> (\<open>flash_fdk/capsule.c\<close>,
    \<open>flash_edk2/esp.c\<close>), \<open>Flash_Firmware\<close> (the choice between them): writing firmware with its checksums, the version gates,
    and that the tokens beside the firmware survive its update.
  \<^item> \<open>Boot_Tools\<close> (\<open>intel-boot-tools\<close>): packing and unpacking are inverse below 2 GiB, unless the image ends at the end of a sector,
    where \<open>pack\<close> is undefined.
  \<^item> \<open>Bootloader\<close> (\<open>bootloader.c\<close>, \<open>ulpmc.c\<close>): the walk over the components of an image refines a specification on lists.
  \<^item> \<open>Recovery_Patch\<close> (\<open>update_recovery.c\<close>): the recovery image is flashed only when all digests agree, and only once.
  \<^item> \<open>Oem_Partition\<close> (\<open>oem_partition.c\<close>): partitioning sessions, scripts, erasing volumes.
  \<^item> \<open>Tee_Connector\<close> (\<open>tee_connector.c\<close>, \<open>teeprov.c\<close>), \<open>Pmdb\<close> (\<open>pmdb.c\<close>, \<open>pmdb-access-sep.c\<close>, \<open>token.c\<close>): tokens and
    identifiers of the security engine, their parsing within bounds.
  \<^item> \<open>Droidboot\<close> (\<open>droidboot.c\<close>): the fastboot commands and their tables, and the way of a bootloader image through the registered
    commands to the partitions.
  \<^item> \<open>Updater\<close> (\<open>updater.c\<close>): the functions of update scripts, with the conversion of a device from OSIP to GPT.
  \<^item> \<open>Drm_Hdmi\<close> (\<open>libmultidisplay/native/drm_hdmi.cpp\<close>): the connector, HDMI and DVI, the preferred mode, and the list of timings, which
    is the list of the modes without repetitions.
  \<^item> \<open>Mds_Composer\<close> (\<open>libmultidisplay/native/MultiDisplayComposer.cpp\<close>): video sessions, listeners, the mode and the control of the output;
    the invariant over sequences of calls (\<open>mds_session\<close>) and the announcement of every change of the mode.
  \<^item> \<open>Mds_Binder\<close> (\<open>IMultiDisplay*.cpp\<close>, \<open>MultiDisplayService.cpp\<close> in the same directory): the proxies and stubs of the remote
    interfaces, over any parcels that give back what was written; a remote call is a local call.
  \<^item> \<open>Healthd\<close> (\<open>healthd/healthd_board_intel.cpp\<close>): the file with the voltage, reports and shutdown, and a step relation of the two threads
    under the semaphore, whose waits may fail unnoticed: mutual exclusion as long as none has.
  \<^item> \<open>Houdini\<close> (\<open>houdini/hooks\<close>): the replacement of \<open>/proc/cpuinfo\<close>, and the loading and calling of the translator.

  \<^bold>\<open>What is proved.\<close> Functional correctness of each command on a drive without defects (\<open>media\<close>, \<open>healthy\<close>)
  whose table is valid (\<open>gpt_ok\<close>), against a specification on lists of entries; preservation of validity by every
  command that writes, and of everything outside the tables (\<open>same_data\<close>); round trips between what is written and
  what is read for drives, labels, GUIDs, numbers, OSIP headers, images, settings and files; gates that nothing passes but
  what it should (versions, digests, partitioning sessions); for the services, an invariant over all sequences of calls, mutual
  exclusion of threads while their waits succeed, and the equality of remote and local calls; equivalence of the optimised routines
  with their mathematical definitions; and, as theorems of their own, the places where the code does not do what its
  comments say.

  \<^bold>\<open>Bounds and termination.\<close> Loops are structural or have a termination proof by a measure. Five may not end in the code
  and are partial functions: \<open>hexdump_buffer\<close> (rows of length 0), \<open>copy_missing\<close> (an image shorter than its header says),
  \<open>next_component_filter\<close> and \<open>flash_kind\<close> (component sizes that wrap around), \<open>nuke_write\<close> (a device that accepts nothing);
  their theorems prove that they return under the stated conditions. The thread of \<open>healthd\<close> that waits for the shutdown runs for
  ever; it is modelled by the state after any list of events. No fuel is used. The GPT theorems are for 512-byte sectors
  and drives of at least 67 sectors, the smallest on which both copies and their tables fit; \<open>long\<close>, \<open>off_t\<close> and pointers
  have 32 bits, as on the device.

  \<^bold>\<open>Not modelled.\<close> Error messages and usage texts; signals other than the alarm of \<open>call_program\<close>; the sizes of stdio
  buffers; memory exhaustion. Of \<open>libintelprov\<close>: \<open>recovery_ui.cpp\<close> (colours and keys of the recovery screen, overrides of a class
  that is not in the repository), \<open>gpt/lib/utility_stub.c\<close> (wrappers of \<open>memcpy\<close> and the like) and the Python release tools. Of
  \<open>libmultidisplay\<close>: the registration of the service, JNI, which only passes arguments on, the Java
  code, and \<open>ctp_legacy\<close>, an older copy of the service for another product. The other directories hold copies of kernel and codec
  headers, Java programs, prebuilt libraries and build files.
\<close>

end
